(* ===== verification/Prelude.thy ===== *)
theory Prelude
  imports Main "HOL-Library.Word"
begin

text \<open>
  Shared vocabulary of the waybeam-link development: names for the machine integers of the
  C++ sources, the collections of rewrite rules the component theories contribute to, and
  generic facts on words and lists.
\<close>

unbundle bit_operations_syntax

section \<open>Machine integers\<close>

type_synonym u8 = "8 word"
type_synonym u16 = "16 word"
type_synonym u32 = "32 word"
type_synonym u64 = "64 word"

type_synonym bytes = "u8 list"

section \<open>Rule collections\<close>

named_theorems bytes_simps \<open>byte-order and buffer facts used by codec proofs\<close>
named_theorems codec_defs \<open>encoders and decoders, to unfold in round-trip proofs\<close>
named_theorems gf_simps \<open>arithmetic of the field GF(256)\<close>

section \<open>Lists and buffers\<close>

text \<open>A read-only memory region behind a pointer, as the C++ code receives it: the byte at
  each offset. How many of the offsets belong to the caller's buffer is a separate length.\<close>

type_synonym ptr = "nat \<Rightarrow> u8"

definition ptr_of :: "bytes \<Rightarrow> ptr" where
  "ptr_of xs = (\<lambda>i. if i < length xs then xs ! i else 0)"

definition read_bytes :: "ptr \<Rightarrow> nat \<Rightarrow> nat \<Rightarrow> bytes" where
  "read_bytes p off n = map p [off..<off + n]"

lemma length_read_bytes [simp]: "length (read_bytes p off n) = n"
  by (simp add: read_bytes_def)

lemma read_bytes_cong:
  assumes "\<And>i. i < len \<Longrightarrow> p i = q i" and "off + n \<le> len"
  shows "read_bytes p off n = read_bytes q off n"
  using assms by (auto simp: read_bytes_def)

lemma read_bytes_ptr_of [bytes_simps]:
  "off + n \<le> length xs \<Longrightarrow> read_bytes (ptr_of xs) off n = take n (drop off xs)"
  by (rule nth_equalityI) (auto simp: read_bytes_def ptr_of_def)

lemma ptr_of_nth [bytes_simps]: "i < length xs \<Longrightarrow> ptr_of xs i = xs ! i"
  by (simp add: ptr_of_def)

text \<open>Writing a block of bytes at an offset of a buffer, in place.\<close>

definition write_at :: "bytes \<Rightarrow> nat \<Rightarrow> bytes \<Rightarrow> bytes" where
  "write_at buf off bs = take off buf @ bs @ drop (off + length bs) buf"

lemma length_write_at [simp]:
  "off + length bs \<le> length buf \<Longrightarrow> length (write_at buf off bs) = length buf"
  by (simp add: write_at_def)

section \<open>Words\<close>

lemma unat_ucast_up [simp]:
  fixes w :: "'a::len word"
  assumes "LENGTH('a) \<le> LENGTH('b)"
  shows "unat (ucast w :: 'b::len word) = unat w"
proof -
  have "unat w < 2 ^ LENGTH('a)"
    by (rule unsigned_less)
  also have "(2 :: nat) ^ LENGTH('a) \<le> 2 ^ LENGTH('b)"
    using assms by (intro power_increasing) simp_all
  finally show ?thesis
    by (simp add: unsigned_ucast_eq take_bit_nat_eq_self)
qed

lemma xor_eq_0_iff: "(x :: 'a::len word) XOR y = 0 \<longleftrightarrow> x = y"
  by (metis xor.assoc xor.right_neutral xor_self_eq)

lemma xor_cancel_mid: "((x :: 'a::len word) XOR y) XOR (y XOR z) = x XOR z"
  by (metis xor.assoc xor.left_neutral xor_self_eq)

lemma and_128_bit: "(x :: u8) AND 0x80 \<noteq> 0 \<longleftrightarrow> bit x 7"
proof -
  have "(0x80 :: u8) = push_bit 7 1"
    by simp
  then show ?thesis
    by (metis and_exp_eq_0_iff_not_bit push_bit_of_1)
qed

lemma bit_u8_beyond [bytes_simps]: "8 \<le> n \<Longrightarrow> \<not> bit (w :: u8) n"
  by (auto dest: bit_imp_le_length)

lemma unat_inject_iff: "unat (a :: 'a::len word) = unat b \<longleftrightarrow> a = b"
  by (simp add: word_unat_eq_iff)

lemma unat_u8_less: "unat (j :: u8) < 256"
  using unsigned_less [of j] by simp

lemma unat_of_nat_small: "n < 2 ^ LENGTH('a) \<Longrightarrow> unat (of_nat n :: 'a::len word) = n"
  by (simp add: unsigned_of_nat take_bit_nat_eq_self)

text \<open>Time differences are taken in modular 64-bit arithmetic; when the later stamp is not
  smaller the difference is the true one.\<close>

lemma unat_diff_le:
  fixes a b :: "'a::len word"
  assumes "b \<le> a"
  shows "unat (a - b) = unat a - unat b"
  using assms by (simp add: unat_sub)

end
