(* ===== verification/Endian.thy ===== *)
theory Endian
  imports Prelude
begin

text \<open>
  core/include/wblink/endian.h (big-endian field access), crc8.h (CRC-8/DVB-S2) and
  clamp.h (the plausible-forward clamp). The writers return the bytes they store, the
  readers take the pointer already advanced to the field.
\<close>

section \<open>Big-endian fields\<close>

definition be16_write :: "u16 \<Rightarrow> bytes" where
  "be16_write v = [ucast (drop_bit 8 v), ucast (v AND 0xFF)]"

definition be32_write :: "u32 \<Rightarrow> bytes" where
  "be32_write v = [ucast (drop_bit 24 v), ucast (drop_bit 16 v AND 0xFF),
                   ucast (drop_bit 8 v AND 0xFF), ucast (v AND 0xFF)]"

definition be16_read :: "ptr \<Rightarrow> u16" where
  "be16_read p = (push_bit 8 (ucast (p 0))) OR ucast (p 1)"

definition be32_read :: "ptr \<Rightarrow> u32" where
  "be32_read p = (push_bit 24 (ucast (p 0))) OR (push_bit 16 (ucast (p 1)))
                 OR (push_bit 8 (ucast (p 2))) OR ucast (p 3)"

text \<open>Pointer arithmetic \<open>buf + off\<close>.\<close>

definition padd :: "ptr \<Rightarrow> nat \<Rightarrow> ptr" where
  "padd p off = (\<lambda>i. p (off + i))"

lemma length_be16_write [simp]: "length (be16_write v) = 2"
  by (simp add: be16_write_def)

lemma length_be32_write [simp]: "length (be32_write v) = 4"
  by (simp add: be32_write_def)

lemma mask_8_u16: "(0xFF :: u16) = mask 8"
  and mask_8_u32: "(0xFF :: u32) = mask 8"
  by (simp_all add: mask_eq_exp_minus_1)

lemma be16_read_write:
  assumes "p 0 = ucast (drop_bit 8 v)" and "p 1 = ucast (v AND 0xFF)"
  shows "be16_read p = v"
  unfolding be16_read_def assms mask_8_u16
  by (rule bit_word_eqI) (auto simp: bit_simps)

lemma be32_read_write:
  assumes "p 0 = ucast (drop_bit 24 v)" and "p 1 = ucast (drop_bit 16 v AND 0xFF)"
    and "p 2 = ucast (drop_bit 8 v AND 0xFF)" and "p 3 = ucast (v AND 0xFF)"
  shows "be32_read p = v"
  unfolding be32_read_def assms mask_8_u32
proof (rule bit_word_eqI)
  fix n assume n: "n < LENGTH(32)"
  then consider "n < 8" | "8 \<le> n \<and> n < 16" | "16 \<le> n \<and> n < 24" | "24 \<le> n \<and> n < 32"
    by fastforce
  then show "bit (push_bit 24 (ucast (ucast (drop_bit 24 v) :: u8))
      OR push_bit 16 (ucast (ucast (drop_bit 16 v AND mask 8) :: u8))
      OR push_bit 8 (ucast (ucast (drop_bit 8 v AND mask 8) :: u8))
      OR ucast (ucast (v AND mask 8) :: u8) :: u32) n = bit v n"
    by cases (auto simp: bit_simps)
qed

lemma be16_write_read [bytes_simps]: "be16_write (be16_read p) = [p 0, p 1]"
  unfolding be16_write_def be16_read_def mask_8_u16
  by (auto intro!: bit_word_eqI simp: bit_simps bit_u8_beyond)

lemma be32_write_read [bytes_simps]: "be32_write (be32_read p) = [p 0, p 1, p 2, p 3]"
  unfolding be32_write_def be32_read_def mask_8_u32
  by (auto intro!: bit_word_eqI simp: bit_simps bit_u8_beyond)

section \<open>CRC-8/DVB-S2\<close>

definition crc8_bit :: "u8 \<Rightarrow> u8" where
  "crc8_bit crc = (if crc AND 0x80 \<noteq> 0 then push_bit 1 crc XOR 0xD5 else push_bit 1 crc)"

definition make_crc8_dvbs2_table :: "u8 list" where
  "make_crc8_dvbs2_table = map (\<lambda>i. (crc8_bit ^^ 8) (of_nat i)) [0..<256]"

definition kCrc8Dvbs2Table :: "u8 list" where
  "kCrc8Dvbs2Table = make_crc8_dvbs2_table"

fun crc8_dvbs2 :: "bytes \<Rightarrow> u8 \<Rightarrow> u8" where
  "crc8_dvbs2 [] crc = crc"
| "crc8_dvbs2 (d # data) crc = crc8_dvbs2 data (kCrc8Dvbs2Table ! unat (crc XOR d))"

section \<open>The plausible-forward clamp\<close>

definition plausible_forward :: "u32 \<Rightarrow> u32 \<Rightarrow> u32 \<Rightarrow> bool" where
  "plausible_forward cursor candidate clamp_k =
     (if candidate \<le> cursor then True else candidate - cursor \<le> clamp_k)"

lemma plausible_forward_iff:
  "plausible_forward cursor candidate clamp_k
     \<longleftrightarrow> unat candidate \<le> unat cursor + unat clamp_k"
  by (auto simp: plausible_forward_def word_le_nat_alt unat_diff_le)

text \<open>The table lookup is eight steps of the bitwise shift register, a linear map.\<close>

lemma crc8_table_nth: "kCrc8Dvbs2Table ! unat x = (crc8_bit ^^ 8) x"
proof -
  have "unat x < 256"
    using unsigned_less [of x] by simp
  then show ?thesis
    by (simp add: kCrc8Dvbs2Table_def make_crc8_dvbs2_table_def)
qed

lemma crc8_bit_xor: "crc8_bit (x XOR y) = crc8_bit x XOR crc8_bit y"
  by (rule bit_word_eqI) (auto simp: crc8_bit_def and_128_bit bit_simps)

lemma crc8_step_xor: "(crc8_bit ^^ n) (x XOR y) = (crc8_bit ^^ n) x XOR (crc8_bit ^^ n) y"
  by (induction n) (simp_all add: crc8_bit_xor)

lemma crc8_bit_eq_0: "crc8_bit x = 0 \<longleftrightarrow> x = 0"
proof
  assume 0: "crc8_bit x = 0"
  have n7: "\<not> bit x 7"
  proof
    assume "bit x 7"
    with 0 have "bit (push_bit 1 x XOR 0xD5) 0 = False"
      by (simp add: crc8_bit_def and_128_bit)
    then show False
      by (simp add: bit_simps bit_0 even_xor_iff)
  qed
  with 0 have sh: "push_bit 1 x = 0"
    by (simp add: crc8_bit_def and_128_bit)
  show "x = 0"
  proof (rule bit_word_eqI)
    fix n assume "n < LENGTH(8)"
    then consider "n = 7" | "n < 7" by force
    then show "bit x n = bit 0 n"
    proof cases
      case 2
      have "bit (push_bit 1 x) (Suc n) = bit x n"
        using 2 by (simp only: bit_push_bit_iff) simp
      then show ?thesis
        using sh by simp
    qed (use n7 in simp)
  qed
qed (simp add: crc8_bit_def)

lemma crc8_step_eq_0: "(crc8_bit ^^ n) x = 0 \<longleftrightarrow> x = 0"
  by (induction n) (simp_all add: crc8_bit_eq_0)

lemma crc8_step_inj: "(crc8_bit ^^ n) x = (crc8_bit ^^ n) y \<longleftrightarrow> x = y"
proof -
  have "(crc8_bit ^^ n) x = (crc8_bit ^^ n) y \<longleftrightarrow> (crc8_bit ^^ n) (x XOR y) = 0"
    by (simp add: crc8_step_xor xor_eq_0_iff)
  then show ?thesis
    by (simp add: crc8_step_eq_0 xor_eq_0_iff)
qed

lemma crc8_append: "crc8_dvbs2 (xs @ ys) c = crc8_dvbs2 ys (crc8_dvbs2 xs c)"
  by (induction xs arbitrary: c) simp_all

lemma crc8_inj_state: "crc8_dvbs2 xs c = crc8_dvbs2 xs d \<longleftrightarrow> c = d"
  by (induction xs arbitrary: c d)
    (simp_all add: crc8_table_nth crc8_step_inj, metis xor.assoc xor_self_eq xor.right_neutral)

text \<open>Two messages that differ in exactly one byte never have the same CRC-8/DVB-S2, whatever the
  initial value.\<close>

theorem crc8_detects_corrupted_byte:
  assumes "a \<noteq> b"
  shows "crc8_dvbs2 (xs @ a # ys) crc \<noteq> crc8_dvbs2 (xs @ b # ys) crc"
proof -
  have "crc8_dvbs2 xs crc XOR a \<noteq> crc8_dvbs2 xs crc XOR b"
    using assms by (metis xor.assoc xor.left_neutral xor_self_eq)
  then show ?thesis
    by (simp add: crc8_append crc8_inj_state crc8_table_nth crc8_step_inj)
qed

theorem crc8_detects_corrupted_byte_witness:
  "crc8_dvbs2 ([0x12, 0x34] @ 0x56 # [0x78]) 0 \<noteq> crc8_dvbs2 ([0x12, 0x34] @ 0x57 # [0x78]) 0"
  by (rule crc8_detects_corrupted_byte) simp

end
