(* ===== verification/Wire_Types.thy ===== *)
theory Wire_Types
  imports Endian
begin

text \<open>
  Constants of core/include/wblink/types.h and the packet structs of
  core/include/wblink/wire.h. A struct is a record with the source's fields (a short prefix
  keeps the names of different packets apart); a pointer-and-length view of bytes is the list
  of those bytes; the variant \<open>Decoded\<close> is a sum of the decode errors and the packets.
\<close>

section \<open>Protocol constants\<close>

abbreviation kMagic :: u16 where "kMagic \<equiv> 0x5742"
abbreviation kProtocolVersion :: u8 where "kProtocolVersion \<equiv> 0"

datatype PacketType = kData | kReservedNack | kLinkReport | kHeartbeat | kCsa | kRecoveryRequest
  | kJsccFeedback | kCacheStatus | kCacheRequest | kCacheReply | kAnnounce | kCacheAssign
  | kVehicleCmd | kSelectorState | kExtended

fun packet_type_value :: "PacketType \<Rightarrow> u8" where
  "packet_type_value kData = 0x1"
| "packet_type_value kReservedNack = 0x2"
| "packet_type_value kLinkReport = 0x3"
| "packet_type_value kHeartbeat = 0x4"
| "packet_type_value kCsa = 0x5"
| "packet_type_value kRecoveryRequest = 0x6"
| "packet_type_value kJsccFeedback = 0x7"
| "packet_type_value kCacheStatus = 0x8"
| "packet_type_value kCacheRequest = 0x9"
| "packet_type_value kCacheReply = 0xA"
| "packet_type_value kAnnounce = 0xB"
| "packet_type_value kCacheAssign = 0xC"
| "packet_type_value kVehicleCmd = 0xD"
| "packet_type_value kSelectorState = 0xE"
| "packet_type_value kExtended = 0xF"

text \<open>Bit sets: \<open>data_flags\<close>, \<open>announce_flags\<close>, \<open>vcmd_flags\<close>, \<open>cache_capability\<close>,
  \<open>jscc_feedback_flags\<close> and \<open>selector_state_flags\<close>.\<close>

abbreviation kEndOfBlock :: u8 where "kEndOfBlock \<equiv> 0x01"
abbreviation kRetransmit :: u8 where "kRetransmit \<equiv> 0x04"
abbreviation kFecRepair :: u8 where "kFecRepair \<equiv> 0x08"
abbreviation kCsaArmed :: u8 where "kCsaArmed \<equiv> 0x10"
abbreviation announce_known_mask :: u8 where "announce_known_mask \<equiv> 0x03"
abbreviation vcmd_kAck :: u8 where "vcmd_kAck \<equiv> 0x01"
abbreviation vcmd_kRejected :: u8 where "vcmd_kRejected \<equiv> 0x02"
abbreviation vcmd_known_mask :: u8 where "vcmd_known_mask \<equiv> 0x03"
abbreviation cache_known_mask :: u8 where "cache_known_mask \<equiv> 0x01"
abbreviation jscc_known_mask :: u8 where "jscc_known_mask \<equiv> 0x03"
abbreviation ss_kActive :: u8 where "ss_kActive \<equiv> 0x01"
abbreviation ss_kLatched :: u8 where "ss_kLatched \<equiv> 0x02"
abbreviation ss_kConflict :: u8 where "ss_kConflict \<equiv> 0x04"
abbreviation ss_kHolderPresent :: u8 where "ss_kHolderPresent \<equiv> 0x08"
abbreviation ss_kCalibPresent :: u8 where "ss_kCalibPresent \<equiv> 0x10"
abbreviation ss_known_mask :: u8 where "ss_known_mask \<equiv> 0x1F"

definition has_flag :: "u8 \<Rightarrow> u8 \<Rightarrow> bool" where
  "has_flag flags m \<longleftrightarrow> flags AND m \<noteq> 0"

definition unknown_bits :: "u8 \<Rightarrow> u8 \<Rightarrow> bool" where
  "unknown_bits flags known \<longleftrightarrow> flags AND NOT known \<noteq> 0"

abbreviation vcmd_kMode :: u8 where "vcmd_kMode \<equiv> 0x07"
abbreviation vcmd_kMtuTier :: u8 where "vcmd_kMtuTier \<equiv> 0x09"
abbreviation kVcmdMaxArg :: u8 where "kVcmdMaxArg \<equiv> 4"

definition typed_endpoint_only :: "u8 \<Rightarrow> bool" where
  "typed_endpoint_only i \<longleftrightarrow> i = vcmd_kMtuTier"

definition vcmd_arg_in_wire_range :: "u8 \<Rightarrow> u8 \<Rightarrow> bool" where
  "vcmd_arg_in_wire_range cmd_id cmd_arg \<longleftrightarrow> cmd_id = vcmd_kMode \<or> cmd_arg \<le> kVcmdMaxArg"

text \<open>Wire sizes.\<close>

abbreviation kCommonPrefixSize :: nat where "kCommonPrefixSize \<equiv> 11"
abbreviation kDataHeaderSize :: nat where "kDataHeaderSize \<equiv> 26"
abbreviation kLinkReportSize :: nat where "kLinkReportSize \<equiv> 39"
abbreviation kHeartbeatSize :: nat where "kHeartbeatSize \<equiv> 11"
abbreviation kCsaSize :: nat where "kCsaSize \<equiv> 32"
abbreviation kRecoveryRequestSize :: nat where "kRecoveryRequestSize \<equiv> 18"
abbreviation kJsccFeedbackSize :: nat where "kJsccFeedbackSize \<equiv> 37"
abbreviation kCacheStatusSize :: nat where "kCacheStatusSize \<equiv> 29"
abbreviation kCacheRequestFixedSize :: nat where "kCacheRequestFixedSize \<equiv> 32"
abbreviation kCacheReplyFixedSize :: nat where "kCacheReplyFixedSize \<equiv> 17"
abbreviation kAnnounceSize :: nat where "kAnnounceSize \<equiv> 30"
abbreviation kCacheAssignSize :: nat where "kCacheAssignSize \<equiv> 23"
abbreviation kVehicleCmdSize :: nat where "kVehicleCmdSize \<equiv> 23"
abbreviation kSelectorStateCalibSize :: nat where "kSelectorStateCalibSize \<equiv> 36"
abbreviation kSelectorStateSize :: nat where "kSelectorStateSize \<equiv> 34"
abbreviation kSelectorStateLegacySize :: nat where "kSelectorStateLegacySize \<equiv> 32"
abbreviation kCalibProbeFixedSize :: nat where "kCalibProbeFixedSize \<equiv> 22"
abbreviation kCalibTallySize :: nat where "kCalibTallySize \<equiv> 26"
abbreviation kLinkVerdictSize :: nat where "kLinkVerdictSize \<equiv> 23"
abbreviation kAnnouncePskSize :: nat where "kAnnouncePskSize \<equiv> 16"
abbreviation link_verdict_kMax :: u8 where "link_verdict_kMax \<equiv> 6"
abbreviation kMaxDataPayload :: nat where "kMaxDataPayload \<equiv> 4096"
abbreviation kDefaultMaxPayload :: u16 where "kDefaultMaxPayload \<equiv> 1424"
abbreviation kFecRepairSubheaderSize :: nat where "kFecRepairSubheaderSize \<equiv> 11"
abbreviation kFecSourceSubheaderSize :: nat where "kFecSourceSubheaderSize \<equiv> 4"
abbreviation kMinFrameSymbolSize :: nat where "kMinFrameSymbolSize \<equiv> 21"
abbreviation kFecMaxSymbols :: nat where "kFecMaxSymbols \<equiv> 256"

text \<open>Extended type ids and MTU tiers.\<close>

abbreviation ext_kReservedInvalid :: u8 where "ext_kReservedInvalid \<equiv> 0x00"
abbreviation ext_kCalProbe :: u8 where "ext_kCalProbe \<equiv> 0x01"
abbreviation ext_kCalTally :: u8 where "ext_kCalTally \<equiv> 0x02"
abbreviation ext_kLinkVerdict :: u8 where "ext_kLinkVerdict \<equiv> 0x03"
abbreviation kMediumBudget :: u16 where "kMediumBudget \<equiv> 2048"
abbreviation kHighBudget :: u16 where "kHighBudget \<equiv> 3072"
abbreviation kFecProtectionK :: nat where "kFecProtectionK \<equiv> 16"

definition mtu_tier_budget :: "u8 \<Rightarrow> u16" where
  "mtu_tier_budget tier = (if tier = 2 then kHighBudget else if tier = 1 then kMediumBudget
     else kDefaultMaxPayload)"

definition mtu_tier_valid :: "u8 \<Rightarrow> bool" where
  "mtu_tier_valid tier \<longleftrightarrow> tier \<le> 2"

section \<open>Packets\<close>

record StreamKey =
  sk_originator :: u16
  sk_session_id :: u32
  sk_stream_id :: u8

record common_prefix =
  originator :: u16
  destination :: u16
  session_id :: u32

record data_header =
  dh_prefix :: common_prefix
  stream_id :: u8
  stream_type :: u8
  seq_no :: u32
  block_id :: u32
  data_flags :: u8
  active_profile :: u8
  table_version :: u8

record data_view =
  dv_hdr :: data_header
  dv_payload :: bytes

record link_report =
  lr_prefix :: common_prefix
  lr_target_originator :: u16
  lr_target_session :: u32
  lr_target_stream_id :: u8
  lr_report_epoch :: u32
  lr_table_version :: u8
  lr_rssi_best :: u8
  lr_rssi_mean :: u8
  lr_loss_postdiv_prearq :: u16
  lr_uniq :: u32
  lr_diversity :: u32
  lr_adapters :: u8
  lr_probe_per :: u16
  lr_recommended_prof :: u8

record selector_state =
  ss_prefix :: common_prefix
  ss_table_version :: u8
  ss_active_profile :: u8
  ss_safe_floor_profile :: u8
  ss_ceiling_profile :: u8
  ss_lockout_profile :: u8
  ss_state_flags :: u8
  ss_lockout_strikes :: u8
  ss_remaining_ms :: u16
  ss_transition_reason :: u8
  ss_loss_window_milli :: u16
  ss_lockout_active_mask :: u8
  ss_lockout_latched_mask :: u8
  ss_loss_ewma_milli :: u16
  ss_loss_uniq :: u32
  ss_loss_score :: u8
  ss_report_latch_holder :: u16
  ss_calib_word :: u8
  ss_calib_fingerprint :: u8

record calib_probe =
  pr_prefix :: common_prefix
  pr_run_id :: u32
  pr_dwell_id :: u16
  pr_seq :: u16
  pr_count :: u16
  pr_wire_len :: u16

record calib_tally =
  ta_prefix :: common_prefix
  ta_run_id :: u32
  ta_dwell_id :: u16
  ta_received :: u16
  ta_rssi_sum_dbm :: u32
  ta_rx_mcs :: u8
  ta_adapter_fingerprint :: u8

record link_verdict_pkt =
  lv_prefix :: common_prefix
  lv_target_originator :: u16
  lv_target_session :: u32
  lv_report_epoch :: u32
  lv_verdict :: u8

record recovery_request =
  rr_prefix :: common_prefix
  rr_target_originator :: u16
  rr_target_session :: u32
  rr_target_stream_id :: u8

record jscc_feedback =
  jf_prefix :: common_prefix
  jf_target_originator :: u16
  jf_target_session :: u32
  jf_target_stream_id :: u8
  jf_feedback_epoch :: u32
  jf_repair_demand_permille :: u16
  jf_rtt_p95_us :: u32
  jf_repair_samples :: u16
  jf_rtt_samples :: u16
  jf_valid_flags :: u8
  jf_observed_block_id :: u32

record cache_status =
  cs_prefix :: common_prefix
  cs_target_originator :: u16
  cs_target_session :: u32
  cs_target_stream_id :: u8
  cs_oldest_block :: u32
  cs_newest_block :: u32
  cs_rx_health_permille :: u16
  cs_capability_flags :: u8

record cache_request_header =
  cr_prefix :: common_prefix
  cr_target_originator :: u16
  cr_target_session :: u32
  cr_target_stream_id :: u8
  cr_target_cache :: u16
  cr_request_id :: u32
  cr_block_id :: u32
  cr_window_len :: u16
  cr_max_symbols :: u8

record cache_request_view =
  crv_hdr :: cache_request_header
  crv_missing_sources :: bytes
  crv_repair_have :: bytes

record cache_reply_view =
  cp_prefix :: common_prefix
  cp_request_id :: u32
  cp_wrapped :: bytes

record announce =
  an_prefix :: common_prefix
  an_flags :: u8
  an_claimed_by :: u16
  an_psk :: bytes

record cache_assign =
  ca_prefix :: common_prefix
  ca_target_cache :: u16
  ca_target_originator :: u16
  ca_assignment_epoch :: u32
  ca_target_chan :: u16
  ca_target_bw :: u8
  ca_target_net_id :: u8

record vehicle_cmd =
  vc_prefix :: common_prefix
  cmd_nonce :: u32
  cmd_seq :: u8
  cmd_flags :: u8
  cmd_id :: u8
  cmd_arg :: u8
  cmd_mac :: u32

record csa_packet =
  csa_prefix :: common_prefix
  csa_nonce :: u32
  csa_seq :: u8
  target_chan :: u16
  target_bw :: u8
  retune_class :: u8
  dt_to_switch_ms :: u16
  t_revert_ms :: u16
  prev_chan :: u16
  prev_bw :: u8
  power_intent :: u8
  csa_mac_field :: u32

datatype DecodeError = kTooShort | kBadMagic | kBadVersion | kUnknownType | kTruncated
  | kLengthMismatch | kInvalidField

datatype packet = PData data_view | PReservedNack common_prefix | PLinkReport link_report
  | PHeartbeat common_prefix | PCsa csa_packet | PRecoveryRequest recovery_request
  | PJsccFeedback jscc_feedback | PCacheStatus cache_status | PCacheRequest cache_request_view
  | PCacheReply cache_reply_view | PAnnounce announce | PCacheAssign cache_assign
  | PVehicleCmd vehicle_cmd | PSelectorState selector_state | PCalibProbe calib_probe
  | PCalibTally calib_tally | PLinkVerdict link_verdict_pkt | PExtUnknown common_prefix u8

type_synonym decoded = "DecodeError + packet"

end
