(* ===== verification/Wire.thy ===== *)
theory Wire
  imports Wire_Types
begin

text \<open>
  core/src/wire.cpp: the packet codec. An encoder takes the packet and the caller's buffer
  (\<open>None\<close> a null pointer, \<open>Some cap\<close> a buffer of cap bytes) and returns the bytes it writes,
  \<open>None\<close> for the return value 0. A decoder takes the pointer and the length.
\<close>

type_synonym out_buf = "nat option"

definition out_ok :: "out_buf \<Rightarrow> nat \<Rightarrow> bool" where
  "out_ok out n \<longleftrightarrow> (case out of None \<Rightarrow> False | Some cap \<Rightarrow> n \<le> cap)"

section \<open>The common prefix\<close>

definition encode_prefix :: "common_prefix \<Rightarrow> PacketType \<Rightarrow> bytes" where
  "encode_prefix p type =
     be16_write kMagic
     @ [push_bit 4 kProtocolVersion OR packet_type_value type]
     @ be16_write (originator p) @ be16_write (destination p) @ be32_write (session_id p)"

definition decode_prefix :: "ptr \<Rightarrow> common_prefix" where
  "decode_prefix buf = \<lparr>originator = be16_read (padd buf 3), destination = be16_read (padd buf 5),
     session_id = be32_read (padd buf 7)\<rparr>"

section \<open>Decoders\<close>

definition decode_data :: "ptr \<Rightarrow> nat \<Rightarrow> decoded" where
  "decode_data buf len =
     (if len < kDataHeaderSize then Inl kTruncated
      else let payload_len = unat (be16_read (padd buf 24))
      in if len \<noteq> kDataHeaderSize + payload_len then Inl kLengthMismatch
      else if kMaxDataPayload < payload_len then Inl kInvalidField
      else Inr (PData
        \<lparr>dv_hdr = \<lparr>dh_prefix = decode_prefix buf, stream_id = buf 11, stream_type = buf 12,
           seq_no = be32_read (padd buf 13), block_id = be32_read (padd buf 17),
           data_flags = buf 21, active_profile = buf 22, table_version = buf 23\<rparr>,
         dv_payload = read_bytes buf kDataHeaderSize payload_len\<rparr>))"

definition decode_reserved_nack :: "ptr \<Rightarrow> nat \<Rightarrow> decoded" where
  "decode_reserved_nack buf len = Inr (PReservedNack (decode_prefix buf))"

definition decode_link_report :: "ptr \<Rightarrow> nat \<Rightarrow> decoded" where
  "decode_link_report buf len =
     (if len < kLinkReportSize then Inl kTruncated
      else if len \<noteq> kLinkReportSize then Inl kLengthMismatch
      else Inr (PLinkReport
        \<lparr>lr_prefix = decode_prefix buf, lr_target_originator = be16_read (padd buf 11),
         lr_target_session = be32_read (padd buf 13), lr_target_stream_id = buf 17,
         lr_report_epoch = be32_read (padd buf 18), lr_table_version = buf 22,
         lr_rssi_best = buf 23, lr_rssi_mean = buf 24,
         lr_loss_postdiv_prearq = be16_read (padd buf 25), lr_uniq = be32_read (padd buf 27),
         lr_diversity = be32_read (padd buf 31), lr_adapters = buf 35,
         lr_probe_per = be16_read (padd buf 36), lr_recommended_prof = buf 38\<rparr>))"

definition decode_heartbeat :: "ptr \<Rightarrow> nat \<Rightarrow> decoded" where
  "decode_heartbeat buf len =
     (if len \<noteq> kHeartbeatSize then Inl kLengthMismatch else Inr (PHeartbeat (decode_prefix buf)))"

definition selector_state_fields_valid :: "selector_state \<Rightarrow> bool" where
  "selector_state_fields_valid s =
     (let active = has_flag (ss_state_flags s) ss_kActive;
          latched = has_flag (ss_state_flags s) ss_kLatched;
          conflict = has_flag (ss_state_flags s) ss_kConflict
      in if unknown_bits (ss_state_flags s) ss_known_mask \<or> ((latched \<or> conflict) \<and> \<not> active)
            \<or> 10 < ss_transition_reason s \<or> 1000 < ss_loss_window_milli s
            \<or> 1000 < ss_loss_ewma_milli s
            \<or> unknown_bits (ss_lockout_latched_mask s) (ss_lockout_active_mask s)
         then False
         else if \<not> active
         then ss_lockout_profile s = 0xFF \<and> ss_lockout_strikes s = 0 \<and> ss_remaining_ms s = 0
              \<and> ss_lockout_active_mask s = 0 \<and> ss_lockout_latched_mask s = 0
         else if ss_lockout_profile s = 0xFF \<or> ss_lockout_strikes s = 0
                 \<or> ss_lockout_active_mask s = 0 \<or> (latched \<and> ss_lockout_latched_mask s = 0)
         then False
         else if latched then ss_remaining_ms s = 0 else 0 < ss_remaining_ms s)"

definition decode_selector_state :: "ptr \<Rightarrow> nat \<Rightarrow> decoded" where
  "decode_selector_state buf len =
     (if len < kSelectorStateLegacySize then Inl kTruncated
      else if len \<noteq> kSelectorStateCalibSize \<and> len \<noteq> kSelectorStateSize
              \<and> len \<noteq> kSelectorStateLegacySize then Inl kLengthMismatch
      else let holder_present = has_flag (buf 16) ss_kHolderPresent;
               calib_present = has_flag (buf 16) ss_kCalibPresent
      in if calib_present \<and> \<not> holder_present then Inl kInvalidField
      else let expect = (if calib_present then kSelectorStateCalibSize
                         else if holder_present then kSelectorStateSize
                         else kSelectorStateLegacySize)
      in if len \<noteq> expect then Inl kLengthMismatch
      else let s = \<lparr>ss_prefix = decode_prefix buf, ss_table_version = buf 11,
                     ss_active_profile = buf 12, ss_safe_floor_profile = buf 13,
                     ss_ceiling_profile = buf 14, ss_lockout_profile = buf 15,
                     ss_state_flags = buf 16, ss_lockout_strikes = buf 17,
                     ss_remaining_ms = be16_read (padd buf 18), ss_transition_reason = buf 20,
                     ss_loss_window_milli = be16_read (padd buf 21),
                     ss_lockout_active_mask = buf 23, ss_lockout_latched_mask = buf 24,
                     ss_loss_ewma_milli = be16_read (padd buf 25),
                     ss_loss_uniq = be32_read (padd buf 27), ss_loss_score = buf 31,
                     ss_report_latch_holder = (if holder_present then be16_read (padd buf 32) else 0),
                     ss_calib_word = (if calib_present then buf 34 else 0),
                     ss_calib_fingerprint = (if calib_present then buf 35 else 0)\<rparr>
      in if selector_state_fields_valid s then Inr (PSelectorState s) else Inl kInvalidField)"

definition decode_csa :: "ptr \<Rightarrow> nat \<Rightarrow> decoded" where
  "decode_csa buf len =
     (if len < kCsaSize then Inl kTruncated
      else if len \<noteq> kCsaSize then Inl kLengthMismatch
      else Inr (PCsa
        \<lparr>csa_prefix = decode_prefix buf, csa_nonce = be32_read (padd buf 11), csa_seq = buf 15,
         target_chan = be16_read (padd buf 16), target_bw = buf 18, retune_class = buf 19,
         dt_to_switch_ms = be16_read (padd buf 20), t_revert_ms = be16_read (padd buf 22),
         prev_chan = be16_read (padd buf 24), prev_bw = buf 26, power_intent = buf 27,
         csa_mac_field = be32_read (padd buf 28)\<rparr>))"

text \<open>The length check the fixed-size types share: short is truncated, long a mismatch.\<close>

definition exact_len :: "nat \<Rightarrow> nat \<Rightarrow> decoded \<Rightarrow> decoded" where
  "exact_len len n r =
     (if len \<noteq> n then (if len < n then Inl kTruncated else Inl kLengthMismatch) else r)"

definition decode_recovery_request :: "ptr \<Rightarrow> nat \<Rightarrow> decoded" where
  "decode_recovery_request buf len = exact_len len kRecoveryRequestSize (Inr (PRecoveryRequest
     \<lparr>rr_prefix = decode_prefix buf, rr_target_originator = be16_read (padd buf 11),
      rr_target_session = be32_read (padd buf 13), rr_target_stream_id = buf 17\<rparr>))"

definition decode_jscc_feedback :: "ptr \<Rightarrow> nat \<Rightarrow> decoded" where
  "decode_jscc_feedback buf len = exact_len len kJsccFeedbackSize
     (let f = \<lparr>jf_prefix = decode_prefix buf, jf_target_originator = be16_read (padd buf 11),
               jf_target_session = be32_read (padd buf 13), jf_target_stream_id = buf 17,
               jf_feedback_epoch = be32_read (padd buf 18),
               jf_repair_demand_permille = be16_read (padd buf 22),
               jf_rtt_p95_us = be32_read (padd buf 24), jf_repair_samples = be16_read (padd buf 28),
               jf_rtt_samples = be16_read (padd buf 30), jf_valid_flags = buf 32,
               jf_observed_block_id = be32_read (padd buf 33)\<rparr>
      in if unknown_bits (jf_valid_flags f) jscc_known_mask then Inl kInvalidField
         else Inr (PJsccFeedback f))"

definition decode_cache_status :: "ptr \<Rightarrow> nat \<Rightarrow> decoded" where
  "decode_cache_status buf len = exact_len len kCacheStatusSize
     (let s = \<lparr>cs_prefix = decode_prefix buf, cs_target_originator = be16_read (padd buf 11),
               cs_target_session = be32_read (padd buf 13), cs_target_stream_id = buf 17,
               cs_oldest_block = be32_read (padd buf 18), cs_newest_block = be32_read (padd buf 22),
               cs_rx_health_permille = be16_read (padd buf 26), cs_capability_flags = buf 28\<rparr>
      in if 1000 < cs_rx_health_permille s \<or> unknown_bits (cs_capability_flags s) cache_known_mask
         then Inl kInvalidField else Inr (PCacheStatus s))"

definition decode_cache_request :: "ptr \<Rightarrow> nat \<Rightarrow> decoded" where
  "decode_cache_request buf len =
     (if len < kCacheRequestFixedSize then Inl kTruncated
      else let k = be16_read (padd buf 28); max_symbols = buf 30; repair_have_len = buf 31
      in if k = 0 \<or> kFecMaxSymbols < unat k \<or> max_symbols = 0 \<or> 32 < repair_have_len
         then Inl kInvalidField
      else let src_len = (unat k + 7) div 8
      in if len \<noteq> kCacheRequestFixedSize + src_len + unat repair_have_len then Inl kLengthMismatch
      else Inr (PCacheRequest
        \<lparr>crv_hdr = \<lparr>cr_prefix = decode_prefix buf, cr_target_originator = be16_read (padd buf 11),
           cr_target_session = be32_read (padd buf 13), cr_target_stream_id = buf 17,
           cr_target_cache = be16_read (padd buf 18), cr_request_id = be32_read (padd buf 20),
           cr_block_id = be32_read (padd buf 24), cr_window_len = k, cr_max_symbols = max_symbols\<rparr>,
         crv_missing_sources = read_bytes buf kCacheRequestFixedSize src_len,
         crv_repair_have = read_bytes buf (kCacheRequestFixedSize + src_len) (unat repair_have_len)\<rparr>))"

definition decode_cache_reply :: "ptr \<Rightarrow> nat \<Rightarrow> decoded" where
  "decode_cache_reply buf len =
     (if len < kCacheReplyFixedSize then Inl kTruncated
      else let wrapped_len = unat (be16_read (padd buf 15))
      in if wrapped_len < kDataHeaderSize then Inl kInvalidField
      else if len \<noteq> kCacheReplyFixedSize + wrapped_len then Inl kLengthMismatch
      else Inr (PCacheReply \<lparr>cp_prefix = decode_prefix buf, cp_request_id = be32_read (padd buf 11),
             cp_wrapped = read_bytes buf kCacheReplyFixedSize wrapped_len\<rparr>))"

definition decode_announce :: "ptr \<Rightarrow> nat \<Rightarrow> decoded" where
  "decode_announce buf len = exact_len len kAnnounceSize
     (let flags = buf 11
      in if unknown_bits flags announce_known_mask then Inl kInvalidField
         else Inr (PAnnounce \<lparr>an_prefix = decode_prefix buf, an_flags = flags,
                an_claimed_by = be16_read (padd buf 12),
                an_psk = read_bytes buf 14 kAnnouncePskSize\<rparr>))"

definition decode_cache_assign :: "ptr \<Rightarrow> nat \<Rightarrow> decoded" where
  "decode_cache_assign buf len = exact_len len kCacheAssignSize
     (let a = \<lparr>ca_prefix = decode_prefix buf, ca_target_cache = be16_read (padd buf 11),
               ca_target_originator = be16_read (padd buf 13),
               ca_assignment_epoch = be32_read (padd buf 15),
               ca_target_chan = be16_read (padd buf 19), ca_target_bw = buf 21,
               ca_target_net_id = buf 22\<rparr>
      in if ca_target_cache a = 0 \<or> ca_target_originator a = 0 \<or> ca_target_chan a = 0
            \<or> 2 < ca_target_bw a
         then Inl kInvalidField else Inr (PCacheAssign a))"

definition decode_calib_probe :: "ptr \<Rightarrow> nat \<Rightarrow> decoded" where
  "decode_calib_probe buf len =
     (if len < kCalibProbeFixedSize then Inl kTruncated
      else if unat kHighBudget < len then Inl kLengthMismatch
      else let pr = \<lparr>pr_prefix = decode_prefix buf, pr_run_id = be32_read (padd buf 12),
                     pr_dwell_id = be16_read (padd buf 16), pr_seq = be16_read (padd buf 18),
                     pr_count = be16_read (padd buf 20), pr_wire_len = of_nat len\<rparr>
      in if pr_dwell_id pr = 0 \<or> pr_seq pr = 0 \<or> pr_count pr = 0 \<or> pr_count pr < pr_seq pr
            \<or> destination (pr_prefix pr) = 0
         then Inl kInvalidField else Inr (PCalibProbe pr))"

definition decode_calib_tally :: "ptr \<Rightarrow> nat \<Rightarrow> decoded" where
  "decode_calib_tally buf len = exact_len len kCalibTallySize
     (let t = \<lparr>ta_prefix = decode_prefix buf, ta_run_id = be32_read (padd buf 12),
               ta_dwell_id = be16_read (padd buf 16), ta_received = be16_read (padd buf 18),
               ta_rssi_sum_dbm = be32_read (padd buf 20), ta_rx_mcs = buf 24,
               ta_adapter_fingerprint = buf 25\<rparr>
      in if ta_dwell_id t = 0 \<or> destination (ta_prefix t) = 0 then Inl kInvalidField
         else Inr (PCalibTally t))"

definition decode_link_verdict :: "ptr \<Rightarrow> nat \<Rightarrow> decoded" where
  "decode_link_verdict buf len = exact_len len kLinkVerdictSize
     (let v = \<lparr>lv_prefix = decode_prefix buf, lv_target_originator = be16_read (padd buf 12),
               lv_target_session = be32_read (padd buf 14), lv_report_epoch = be32_read (padd buf 18),
               lv_verdict = buf 22\<rparr>
      in if link_verdict_kMax < lv_verdict v \<or> destination (lv_prefix v) = 0
         then Inl kInvalidField else Inr (PLinkVerdict v))"

definition decode_extended :: "ptr \<Rightarrow> nat \<Rightarrow> decoded" where
  "decode_extended buf len =
     (if len < kCommonPrefixSize + 1 then Inl kTruncated
      else let ext_id = buf 11
      in if ext_id = ext_kReservedInvalid then Inl kInvalidField
      else if ext_id = ext_kCalProbe then decode_calib_probe buf len
      else if ext_id = ext_kCalTally then decode_calib_tally buf len
      else if ext_id = ext_kLinkVerdict then decode_link_verdict buf len
      else Inr (PExtUnknown (decode_prefix buf) ext_id))"

definition decode_vehicle_cmd :: "ptr \<Rightarrow> nat \<Rightarrow> decoded" where
  "decode_vehicle_cmd buf len = exact_len len kVehicleCmdSize
     (let flags = buf 16
      in if unknown_bits flags vcmd_known_mask then Inl kInvalidField
      else let c = \<lparr>vc_prefix = decode_prefix buf, cmd_nonce = be32_read (padd buf 11),
                    cmd_seq = buf 15, cmd_flags = flags, cmd_id = buf 17, cmd_arg = buf 18,
                    cmd_mac = be32_read (padd buf 19)\<rparr>
      in if \<not> vcmd_arg_in_wire_range (cmd_id c) (cmd_arg c) then Inl kInvalidField
         else Inr (PVehicleCmd c))"

definition decode :: "ptr option \<Rightarrow> nat \<Rightarrow> decoded" where
  "decode buf_opt len =
     (case buf_opt of
        None \<Rightarrow> Inl kTooShort
      | Some buf \<Rightarrow>
          if len < 2 then Inl kTooShort
          else if be16_read buf \<noteq> kMagic then Inl kBadMagic
          else if len < kCommonPrefixSize then Inl kTooShort
          else if drop_bit 4 (buf 2) \<noteq> kProtocolVersion then Inl kBadVersion
          else let ty = buf 2 AND 0x0F
          in if ty = 0x1 then decode_data buf len
          else if ty = 0x2 then decode_reserved_nack buf len
          else if ty = 0x3 then decode_link_report buf len
          else if ty = 0x4 then decode_heartbeat buf len
          else if ty = 0x5 then decode_csa buf len
          else if ty = 0x6 then decode_recovery_request buf len
          else if ty = 0x7 then decode_jscc_feedback buf len
          else if ty = 0x8 then decode_cache_status buf len
          else if ty = 0x9 then decode_cache_request buf len
          else if ty = 0xA then decode_cache_reply buf len
          else if ty = 0xB then decode_announce buf len
          else if ty = 0xC then decode_cache_assign buf len
          else if ty = 0xF then decode_extended buf len
          else if ty = 0xD then decode_vehicle_cmd buf len
          else if ty = 0xE then decode_selector_state buf len
          else Inl kUnknownType)"

section \<open>Encoders\<close>

text \<open>A payload pointer with its length: \<open>None\<close> is the null pointer; \<open>memcpy\<close> copies the
  first \<open>payload_len\<close> bytes of the region.\<close>

definition null_with_len :: "bytes option \<Rightarrow> nat \<Rightarrow> bool" where
  "null_with_len p n \<longleftrightarrow> p = None \<and> 0 < n"

definition memcpy :: "bytes option \<Rightarrow> nat \<Rightarrow> bytes" where
  "memcpy p n = (case p of None \<Rightarrow> [] | Some bs \<Rightarrow> take n bs)"

definition encode_data :: "data_header \<Rightarrow> bytes option \<Rightarrow> u16 \<Rightarrow> out_buf \<Rightarrow> bytes option" where
  "encode_data hdr payload payload_len out =
     (let total = kDataHeaderSize + unat payload_len
      in if \<not> out_ok out total \<or> null_with_len payload (unat payload_len) then None
         else Some (encode_prefix (dh_prefix hdr) kData @ [stream_id hdr, stream_type hdr]
           @ be32_write (seq_no hdr) @ be32_write (block_id hdr)
           @ [data_flags hdr, active_profile hdr, table_version hdr]
           @ be16_write payload_len @ memcpy payload (unat payload_len)))"

definition encode_link_report :: "link_report \<Rightarrow> out_buf \<Rightarrow> bytes option" where
  "encode_link_report pkt out =
     (if \<not> out_ok out kLinkReportSize then None
      else Some (encode_prefix (lr_prefix pkt) kLinkReport @ be16_write (lr_target_originator pkt)
        @ be32_write (lr_target_session pkt) @ [lr_target_stream_id pkt]
        @ be32_write (lr_report_epoch pkt)
        @ [lr_table_version pkt, lr_rssi_best pkt, lr_rssi_mean pkt]
        @ be16_write (lr_loss_postdiv_prearq pkt) @ be32_write (lr_uniq pkt)
        @ be32_write (lr_diversity pkt) @ [lr_adapters pkt] @ be16_write (lr_probe_per pkt)
        @ [lr_recommended_prof pkt]))"

text \<open>\<open>link_report_stamp_epoch\<close> rewrites the frame in place; \<open>None\<close> is the result false.\<close>

definition link_report_stamp_epoch :: "bytes option \<Rightarrow> u32 \<Rightarrow> bytes option" where
  "link_report_stamp_epoch frame epoch =
     (case frame of
        None \<Rightarrow> None
      | Some buf \<Rightarrow> if length buf < kLinkReportSize then None
                   else Some (write_at buf 18 (be32_write epoch)))"

definition encode_heartbeat :: "common_prefix \<Rightarrow> out_buf \<Rightarrow> bytes option" where
  "encode_heartbeat pkt out =
     (if \<not> out_ok out kHeartbeatSize then None else Some (encode_prefix pkt kHeartbeat))"

definition encode_selector_state :: "selector_state \<Rightarrow> out_buf \<Rightarrow> bytes option" where
  "encode_selector_state pkt out =
     (let holder_present = has_flag (ss_state_flags pkt) ss_kHolderPresent;
          calib_present = has_flag (ss_state_flags pkt) ss_kCalibPresent
      in if calib_present \<and> \<not> holder_present then None
      else let n = (if calib_present then kSelectorStateCalibSize
                    else if holder_present then kSelectorStateSize else kSelectorStateLegacySize)
      in if \<not> out_ok out n \<or> \<not> selector_state_fields_valid pkt then None
      else Some (encode_prefix (ss_prefix pkt) kSelectorState
        @ [ss_table_version pkt, ss_active_profile pkt, ss_safe_floor_profile pkt,
           ss_ceiling_profile pkt, ss_lockout_profile pkt, ss_state_flags pkt,
           ss_lockout_strikes pkt]
        @ be16_write (ss_remaining_ms pkt) @ [ss_transition_reason pkt]
        @ be16_write (ss_loss_window_milli pkt)
        @ [ss_lockout_active_mask pkt, ss_lockout_latched_mask pkt]
        @ be16_write (ss_loss_ewma_milli pkt) @ be32_write (ss_loss_uniq pkt)
        @ [ss_loss_score pkt]
        @ (if holder_present then be16_write (ss_report_latch_holder pkt) else [])
        @ (if calib_present then [ss_calib_word pkt, ss_calib_fingerprint pkt] else [])))"

definition encode_announce :: "announce \<Rightarrow> out_buf \<Rightarrow> bytes option" where
  "encode_announce pkt out =
     (if \<not> out_ok out kAnnounceSize then None
      else Some (encode_prefix (an_prefix pkt) kAnnounce @ [an_flags pkt]
        @ be16_write (an_claimed_by pkt) @ take kAnnouncePskSize (an_psk pkt)))"

definition encode_cache_assign :: "cache_assign \<Rightarrow> out_buf \<Rightarrow> bytes option" where
  "encode_cache_assign pkt out =
     (if \<not> out_ok out kCacheAssignSize \<or> ca_target_cache pkt = 0 \<or> ca_target_originator pkt = 0
         \<or> ca_target_chan pkt = 0 \<or> 2 < ca_target_bw pkt then None
      else Some (encode_prefix (ca_prefix pkt) kCacheAssign @ be16_write (ca_target_cache pkt)
        @ be16_write (ca_target_originator pkt) @ be32_write (ca_assignment_epoch pkt)
        @ be16_write (ca_target_chan pkt) @ [ca_target_bw pkt, ca_target_net_id pkt]))"

definition encode_vehicle_cmd :: "vehicle_cmd \<Rightarrow> out_buf \<Rightarrow> bytes option" where
  "encode_vehicle_cmd pkt out =
     (if \<not> out_ok out kVehicleCmdSize \<or> unknown_bits (cmd_flags pkt) vcmd_known_mask
         \<or> \<not> vcmd_arg_in_wire_range (cmd_id pkt) (cmd_arg pkt) then None
      else Some (encode_prefix (vc_prefix pkt) kVehicleCmd @ be32_write (cmd_nonce pkt)
        @ [cmd_seq pkt, cmd_flags pkt, cmd_id pkt, cmd_arg pkt] @ be32_write (cmd_mac pkt)))"

definition encode_calib_probe :: "calib_probe \<Rightarrow> u16 \<Rightarrow> out_buf \<Rightarrow> bytes option" where
  "encode_calib_probe pkt pad_to out =
     (let total = min (max (unat pad_to) kCalibProbeFixedSize) (unat kHighBudget)
      in if \<not> out_ok out total \<or> pr_dwell_id pkt = 0 \<or> pr_seq pkt = 0 \<or> pr_count pkt = 0
            \<or> pr_count pkt < pr_seq pkt \<or> destination (pr_prefix pkt) = 0 then None
         else Some (encode_prefix (pr_prefix pkt) kExtended @ [ext_kCalProbe]
           @ be32_write (pr_run_id pkt) @ be16_write (pr_dwell_id pkt) @ be16_write (pr_seq pkt)
           @ be16_write (pr_count pkt) @ replicate (total - kCalibProbeFixedSize) 0))"

definition encode_calib_tally :: "calib_tally \<Rightarrow> out_buf \<Rightarrow> bytes option" where
  "encode_calib_tally pkt out =
     (if \<not> out_ok out kCalibTallySize \<or> ta_dwell_id pkt = 0 \<or> destination (ta_prefix pkt) = 0
      then None
      else Some (encode_prefix (ta_prefix pkt) kExtended @ [ext_kCalTally]
        @ be32_write (ta_run_id pkt) @ be16_write (ta_dwell_id pkt) @ be16_write (ta_received pkt)
        @ be32_write (ta_rssi_sum_dbm pkt) @ [ta_rx_mcs pkt, ta_adapter_fingerprint pkt]))"

definition encode_link_verdict :: "link_verdict_pkt \<Rightarrow> out_buf \<Rightarrow> bytes option" where
  "encode_link_verdict pkt out =
     (if \<not> out_ok out kLinkVerdictSize \<or> destination (lv_prefix pkt) = 0
         \<or> link_verdict_kMax < lv_verdict pkt then None
      else Some (encode_prefix (lv_prefix pkt) kExtended @ [ext_kLinkVerdict]
        @ be16_write (lv_target_originator pkt) @ be32_write (lv_target_session pkt)
        @ be32_write (lv_report_epoch pkt) @ [lv_verdict pkt]))"

definition encode_csa :: "csa_packet \<Rightarrow> out_buf \<Rightarrow> bytes option" where
  "encode_csa pkt out =
     (if \<not> out_ok out kCsaSize then None
      else Some (encode_prefix (csa_prefix pkt) kCsa @ be32_write (csa_nonce pkt) @ [csa_seq pkt]
        @ be16_write (target_chan pkt) @ [target_bw pkt, retune_class pkt]
        @ be16_write (dt_to_switch_ms pkt) @ be16_write (t_revert_ms pkt)
        @ be16_write (prev_chan pkt) @ [prev_bw pkt, power_intent pkt]
        @ be32_write (csa_mac_field pkt)))"

definition encode_recovery_request :: "recovery_request \<Rightarrow> out_buf \<Rightarrow> bytes option" where
  "encode_recovery_request pkt out =
     (if \<not> out_ok out kRecoveryRequestSize then None
      else Some (encode_prefix (rr_prefix pkt) kRecoveryRequest
        @ be16_write (rr_target_originator pkt) @ be32_write (rr_target_session pkt)
        @ [rr_target_stream_id pkt]))"

definition encode_jscc_feedback :: "jscc_feedback \<Rightarrow> out_buf \<Rightarrow> bytes option" where
  "encode_jscc_feedback pkt out =
     (if \<not> out_ok out kJsccFeedbackSize \<or> unknown_bits (jf_valid_flags pkt) jscc_known_mask then None
      else Some (encode_prefix (jf_prefix pkt) kJsccFeedback
        @ be16_write (jf_target_originator pkt) @ be32_write (jf_target_session pkt)
        @ [jf_target_stream_id pkt] @ be32_write (jf_feedback_epoch pkt)
        @ be16_write (jf_repair_demand_permille pkt) @ be32_write (jf_rtt_p95_us pkt)
        @ be16_write (jf_repair_samples pkt) @ be16_write (jf_rtt_samples pkt)
        @ [jf_valid_flags pkt] @ be32_write (jf_observed_block_id pkt)))"

definition encode_cache_status :: "cache_status \<Rightarrow> out_buf \<Rightarrow> bytes option" where
  "encode_cache_status pkt out =
     (if \<not> out_ok out kCacheStatusSize \<or> 1000 < cs_rx_health_permille pkt
         \<or> unknown_bits (cs_capability_flags pkt) cache_known_mask then None
      else Some (encode_prefix (cs_prefix pkt) kCacheStatus
        @ be16_write (cs_target_originator pkt) @ be32_write (cs_target_session pkt)
        @ [cs_target_stream_id pkt] @ be32_write (cs_oldest_block pkt)
        @ be32_write (cs_newest_block pkt) @ be16_write (cs_rx_health_permille pkt)
        @ [cs_capability_flags pkt]))"

definition encode_cache_request ::
    "cache_request_header \<Rightarrow> bytes option \<Rightarrow> bytes option \<Rightarrow> u8 \<Rightarrow> out_buf \<Rightarrow> bytes option" where
  "encode_cache_request hdr missing_sources repair_have repair_have_len out =
     (if cr_window_len hdr = 0 \<or> kFecMaxSymbols < unat (cr_window_len hdr)
         \<or> cr_max_symbols hdr = 0 \<or> 32 < repair_have_len then None
      else let src_len = (unat (cr_window_len hdr) + 7) div 8;
               total = kCacheRequestFixedSize + src_len + unat repair_have_len
      in if \<not> out_ok out total \<or> missing_sources = None
            \<or> null_with_len repair_have (unat repair_have_len) then None
         else Some (encode_prefix (cr_prefix hdr) kCacheRequest
           @ be16_write (cr_target_originator hdr) @ be32_write (cr_target_session hdr)
           @ [cr_target_stream_id hdr] @ be16_write (cr_target_cache hdr)
           @ be32_write (cr_request_id hdr) @ be32_write (cr_block_id hdr)
           @ be16_write (cr_window_len hdr) @ [cr_max_symbols hdr, repair_have_len]
           @ memcpy missing_sources src_len @ memcpy repair_have (unat repair_have_len)))"

definition encode_cache_reply ::
    "common_prefix \<Rightarrow> u32 \<Rightarrow> bytes option \<Rightarrow> u16 \<Rightarrow> out_buf \<Rightarrow> bytes option" where
  "encode_cache_reply prefix request_id wrapped wrapped_len out =
     (let total = kCacheReplyFixedSize + unat wrapped_len
      in if \<not> out_ok out total \<or> wrapped = None \<or> unat wrapped_len < kDataHeaderSize then None
         else Some (encode_prefix prefix kCacheReply @ be32_write request_id
           @ be16_write wrapped_len @ memcpy wrapped (unat wrapped_len)))"

end
