(* ===== verification/Wire_Props.thy ===== *)
theory Wire_Props
  imports Wire
begin

text \<open>
  Properties of the packet codec: every encoder is inverted by \<open>decode\<close>, \<open>decode\<close> reads no
  byte beyond the length it is given, and what it accepts re-encodes to the same bytes. The
  contract the packet types share is the locale \<open>packet_codec\<close>.
\<close>

section \<open>Fields of a byte list\<close>

definition be16_of :: "bytes \<Rightarrow> u16" where
  "be16_of xs = be16_read (ptr_of xs)"

definition be32_of :: "bytes \<Rightarrow> u32" where
  "be32_of xs = be32_read (ptr_of xs)"

lemma be16_of_write [simp]: "be16_of (be16_write v) = v"
  unfolding be16_of_def by (rule be16_read_write) (simp_all add: ptr_of_def be16_write_def)

lemma be32_of_write [simp]: "be32_of (be32_write v) = v"
  unfolding be32_of_def
  by (rule be32_read_write) (simp_all add: ptr_of_def be32_write_def numeral_2_eq_2 numeral_3_eq_3)

lemma be16_read_ptr_of [bytes_simps]:
  assumes "off + 2 \<le> length bs"
  shows "be16_read (padd (ptr_of bs) off) = be16_of (take 2 (drop off bs))"
  using assms by (simp add: be16_of_def be16_read_def padd_def ptr_of_def)

lemma be32_read_ptr_of [bytes_simps]:
  assumes "off + 4 \<le> length bs"
  shows "be32_read (padd (ptr_of bs) off) = be32_of (take 4 (drop off bs))"
  using assms by (simp add: be32_of_def be32_read_def padd_def ptr_of_def)

lemma take_be16_write [simp]: "2 \<le> n \<Longrightarrow> take n (be16_write v) = be16_write v"
  and take_be32_write [simp]: "4 \<le> n \<Longrightarrow> take n (be32_write w) = be32_write w"
  and drop_be16_write [simp]: "2 \<le> n \<Longrightarrow> drop n (be16_write v) = []"
  and drop_be32_write [simp]: "4 \<le> n \<Longrightarrow> drop n (be32_write w) = []"
  by simp_all

lemma length_encode_prefix [simp]: "length (encode_prefix p t) = 11"
  by (simp add: encode_prefix_def)

lemma be16_read_at_0: "be16_read p = be16_read (padd p 0)"
  by (simp add: padd_def)

lemma decode_prefix_encode [simp]:
  "decode_prefix (ptr_of (encode_prefix p t @ rest)) = p"
  by (simp add: decode_prefix_def encode_prefix_def bytes_simps)

lemma packet_type_value_simps [simp]:
  "drop_bit 4 (packet_type_value t) = 0" "packet_type_value t AND 0xF = packet_type_value t"
  by (cases t; simp)+

lemma decode_encode_prefix:
  assumes "11 \<le> len"
  shows "decode (Some (ptr_of (encode_prefix p t @ rest))) len =
     (let buf = ptr_of (encode_prefix p t @ rest) in
      case t of kData \<Rightarrow> decode_data buf len
      | kReservedNack \<Rightarrow> decode_reserved_nack buf len
      | kLinkReport \<Rightarrow> decode_link_report buf len
      | kHeartbeat \<Rightarrow> decode_heartbeat buf len
      | kCsa \<Rightarrow> decode_csa buf len
      | kRecoveryRequest \<Rightarrow> decode_recovery_request buf len
      | kJsccFeedback \<Rightarrow> decode_jscc_feedback buf len
      | kCacheStatus \<Rightarrow> decode_cache_status buf len
      | kCacheRequest \<Rightarrow> decode_cache_request buf len
      | kCacheReply \<Rightarrow> decode_cache_reply buf len
      | kAnnounce \<Rightarrow> decode_announce buf len
      | kCacheAssign \<Rightarrow> decode_cache_assign buf len
      | kVehicleCmd \<Rightarrow> decode_vehicle_cmd buf len
      | kSelectorState \<Rightarrow> decode_selector_state buf len
      | kExtended \<Rightarrow> decode_extended buf len)"
proof -
  let ?b = "ptr_of (encode_prefix p t @ rest)"
  have magic: "be16_read ?b = kMagic"
    by (subst be16_read_at_0) (simp add: bytes_simps encode_prefix_def)
  have ty: "?b 2 = packet_type_value t"
    by (simp add: bytes_simps encode_prefix_def nth_append)
  show ?thesis
    using assms magic ty by (cases t) (simp_all add: decode_def Let_def)
qed

section \<open>Round trips\<close>

definition roundtrips :: "bytes option \<Rightarrow> packet \<Rightarrow> bool" where
  "roundtrips enc pkt \<longleftrightarrow>
     (case enc of None \<Rightarrow> True | Some bs \<Rightarrow> decode (Some (ptr_of bs)) (length bs) = Inr pkt)"

lemmas roundtrip_simps = roundtrips_def decode_encode_prefix Let_def bytes_simps nth_append
  take_Cons' drop_Cons' exact_len_def

lemma roundtrip_link_report: "roundtrips (encode_link_report pkt out) (PLinkReport pkt)"
  by (simp add: encode_link_report_def roundtrip_simps decode_link_report_def)

lemma roundtrip_heartbeat: "roundtrips (encode_heartbeat pkt out) (PHeartbeat pkt)"
  using decode_encode_prefix [of 11 pkt kHeartbeat "[]"] decode_prefix_encode [of pkt kHeartbeat "[]"]
  by (simp add: encode_heartbeat_def roundtrips_def decode_heartbeat_def)

lemma roundtrip_csa: "roundtrips (encode_csa pkt out) (PCsa pkt)"
  by (simp add: encode_csa_def roundtrip_simps decode_csa_def)

lemma roundtrip_recovery_request:
  "roundtrips (encode_recovery_request pkt out) (PRecoveryRequest pkt)"
  by (simp add: encode_recovery_request_def roundtrip_simps decode_recovery_request_def)

lemma roundtrip_jscc_feedback: "roundtrips (encode_jscc_feedback pkt out) (PJsccFeedback pkt)"
  by (simp add: encode_jscc_feedback_def roundtrip_simps decode_jscc_feedback_def)

lemma roundtrip_cache_status: "roundtrips (encode_cache_status pkt out) (PCacheStatus pkt)"
  by (simp add: encode_cache_status_def roundtrip_simps decode_cache_status_def)

lemma roundtrip_cache_assign: "roundtrips (encode_cache_assign pkt out) (PCacheAssign pkt)"
  by (simp add: encode_cache_assign_def roundtrip_simps decode_cache_assign_def)

lemma roundtrip_vehicle_cmd: "roundtrips (encode_vehicle_cmd pkt out) (PVehicleCmd pkt)"
  by (simp add: encode_vehicle_cmd_def roundtrip_simps decode_vehicle_cmd_def)

lemma roundtrip_calib_tally: "roundtrips (encode_calib_tally pkt out) (PCalibTally pkt)"
  by (simp add: encode_calib_tally_def roundtrip_simps decode_extended_def decode_calib_tally_def)

lemma roundtrip_link_verdict: "roundtrips (encode_link_verdict pkt out) (PLinkVerdict pkt)"
  by (simp add: encode_link_verdict_def roundtrip_simps decode_extended_def decode_link_verdict_def)

lemma roundtrip_announce:
  assumes "length (an_psk pkt) = kAnnouncePskSize" and "\<not> unknown_bits (an_flags pkt) announce_known_mask"
  shows "roundtrips (encode_announce pkt out) (PAnnounce pkt)"
  using assms by (simp add: encode_announce_def roundtrip_simps decode_announce_def)

lemma roundtrip_data:
  assumes "length payload = unat n" and "unat n \<le> kMaxDataPayload"
  shows "roundtrips (encode_data hdr (Some payload) n out) (PData \<lparr>dv_hdr = hdr, dv_payload = payload\<rparr>)"
  using assms by (simp add: encode_data_def roundtrip_simps decode_data_def memcpy_def)

lemma roundtrip_cache_reply:
  assumes "length wrapped = unat n"
  shows "roundtrips (encode_cache_reply prefix rid (Some wrapped) n out)
           (PCacheReply \<lparr>cp_prefix = prefix, cp_request_id = rid, cp_wrapped = wrapped\<rparr>)"
  using assms by (simp add: encode_cache_reply_def roundtrip_simps decode_cache_reply_def memcpy_def)

lemma roundtrip_cache_request:
  assumes "length missing = (unat (cr_window_len hdr) + 7) div 8" and "length have = unat n"
  shows "roundtrips (encode_cache_request hdr (Some missing) (Some have) n out)
           (PCacheRequest \<lparr>crv_hdr = hdr, crv_missing_sources = missing, crv_repair_have = have\<rparr>)"
  using assms
  by (simp add: encode_cache_request_def roundtrip_simps decode_cache_request_def memcpy_def)

lemma roundtrip_calib_probe:
  assumes "unat (pr_wire_len pkt) = min (max (unat pad) kCalibProbeFixedSize) (unat kHighBudget)"
  shows "roundtrips (encode_calib_probe pkt pad out) (PCalibProbe pkt)"
proof -
  define t where "t = min (max (unat pad) kCalibProbeFixedSize) (unat kHighBudget)"
  have t: "22 \<le> t" "t \<le> 3072"
    by (simp_all add: t_def)
  have w: "word_of_nat t = pr_wire_len pkt"
    unfolding t_def assms [symmetric] by simp
  from t(1) obtain d where d: "t = 22 + d"
    using le_Suc_ex by blast
  from t w show ?thesis
    unfolding encode_calib_probe_def t_def [symmetric] d
    by (simp add: roundtrip_simps decode_extended_def decode_calib_probe_def)
qed

lemma roundtrip_selector_state:
  assumes "has_flag (ss_state_flags pkt) ss_kHolderPresent \<or> ss_report_latch_holder pkt = 0"
    and "has_flag (ss_state_flags pkt) ss_kCalibPresent
           \<or> ss_calib_word pkt = 0 \<and> ss_calib_fingerprint pkt = 0"
  shows "roundtrips (encode_selector_state pkt out) (PSelectorState pkt)"
  using assms
  by (cases pkt; cases "has_flag (ss_state_flags pkt) ss_kHolderPresent";
      cases "has_flag (ss_state_flags pkt) ss_kCalibPresent")
    (simp_all add: encode_selector_state_def roundtrip_simps decode_selector_state_def)

section \<open>All packet types at once\<close>

text \<open>The encoder of each packet type, on a packet as \<open>decode\<close> returns it. The retired
  reserved type and an unknown extension have no encoder.\<close>

fun wire_encode :: "packet \<Rightarrow> out_buf \<Rightarrow> bytes option" where
  "wire_encode (PData v) out =
     encode_data (dv_hdr v) (Some (dv_payload v)) (of_nat (length (dv_payload v))) out"
| "wire_encode (PReservedNack p) out = None"
| "wire_encode (PLinkReport p) out = encode_link_report p out"
| "wire_encode (PHeartbeat p) out = encode_heartbeat p out"
| "wire_encode (PCsa p) out = encode_csa p out"
| "wire_encode (PRecoveryRequest p) out = encode_recovery_request p out"
| "wire_encode (PJsccFeedback p) out = encode_jscc_feedback p out"
| "wire_encode (PCacheStatus p) out = encode_cache_status p out"
| "wire_encode (PCacheRequest v) out = encode_cache_request (crv_hdr v)
     (Some (crv_missing_sources v)) (Some (crv_repair_have v)) (of_nat (length (crv_repair_have v))) out"
| "wire_encode (PCacheReply v) out = encode_cache_reply (cp_prefix v) (cp_request_id v)
     (Some (cp_wrapped v)) (of_nat (length (cp_wrapped v))) out"
| "wire_encode (PAnnounce p) out = encode_announce p out"
| "wire_encode (PCacheAssign p) out = encode_cache_assign p out"
| "wire_encode (PVehicleCmd p) out = encode_vehicle_cmd p out"
| "wire_encode (PSelectorState p) out = encode_selector_state p out"
| "wire_encode (PCalibProbe p) out = encode_calib_probe p (pr_wire_len p) out"
| "wire_encode (PCalibTally p) out = encode_calib_tally p out"
| "wire_encode (PLinkVerdict p) out = encode_link_verdict p out"
| "wire_encode (PExtUnknown p x) out = None"

text \<open>What a packet value has to satisfy beyond what its encoder checks: the length fields fit
  their width and the fields the encoder leaves out are zero.\<close>

fun wf_packet :: "packet \<Rightarrow> bool" where
  "wf_packet (PData v) = (length (dv_payload v) \<le> kMaxDataPayload)"
| "wf_packet (PCacheRequest v) =
     (length (crv_missing_sources v) = (unat (cr_window_len (crv_hdr v)) + 7) div 8
      \<and> length (crv_repair_have v) \<le> 32)"
| "wf_packet (PCacheReply v) = (length (cp_wrapped v) < 65536)"
| "wf_packet (PAnnounce p) =
     (length (an_psk p) = kAnnouncePskSize \<and> \<not> unknown_bits (an_flags p) announce_known_mask)"
| "wf_packet (PSelectorState p) =
     ((has_flag (ss_state_flags p) ss_kHolderPresent \<or> ss_report_latch_holder p = 0)
      \<and> (has_flag (ss_state_flags p) ss_kCalibPresent
          \<or> ss_calib_word p = 0 \<and> ss_calib_fingerprint p = 0))"
| "wf_packet (PCalibProbe p) =
     (kCalibProbeFixedSize \<le> unat (pr_wire_len p) \<and> pr_wire_len p \<le> kHighBudget)"
| "wf_packet _ = True"

lemma wire_encode_roundtrips: "wf_packet pkt \<Longrightarrow> roundtrips (wire_encode pkt out) pkt"
proof (induction pkt rule: wf_packet.induct)
  case (1 v)
  then show ?case
    using roundtrip_data [of "dv_payload v" "of_nat (length (dv_payload v))" "dv_hdr v" out]
    by (cases v) (simp add: unat_of_nat_small)
next
  case (2 v)
  then show ?case
    using roundtrip_cache_request [of "crv_missing_sources v" "crv_hdr v" "crv_repair_have v"
        "of_nat (length (crv_repair_have v))" out]
    by (cases v) (simp add: unat_of_nat_small)
next
  case (3 v)
  then show ?case
    using roundtrip_cache_reply [of "cp_wrapped v" "of_nat (length (cp_wrapped v))" "cp_prefix v"
        "cp_request_id v" out]
    by (cases v) (simp add: unat_of_nat_small)
next
  case (6 p)
  then show ?case
    using roundtrip_calib_probe [of p "pr_wire_len p" out] by (simp add: word_le_nat_alt)
qed (simp_all add: roundtrip_announce roundtrip_selector_state roundtrip_link_report
    roundtrip_heartbeat roundtrip_csa roundtrip_recovery_request roundtrip_jscc_feedback
    roundtrip_cache_status roundtrip_cache_assign roundtrip_vehicle_cmd roundtrip_calib_tally
    roundtrip_link_verdict roundtrips_def [of None])

section \<open>Memory safety\<close>

text \<open>Two memories that agree on the first \<open>len\<close> bytes. A decoder whose result is the same
  on both has not looked at any other byte.\<close>

definition agree :: "ptr \<Rightarrow> ptr \<Rightarrow> nat \<Rightarrow> bool" where
  "agree m m' len \<longleftrightarrow> (\<forall>i<len. m i = m' i)"

lemma agree_byte: "agree m m' len \<Longrightarrow> i < len \<Longrightarrow> m i = m' i"
  by (simp add: agree_def)

lemma agree_be16:
  "agree m m' len \<Longrightarrow> off + 2 \<le> len \<Longrightarrow> be16_read (padd m off) = be16_read (padd m' off)"
  by (simp add: agree_def be16_read_def padd_def)

lemma agree_be32:
  "agree m m' len \<Longrightarrow> off + 4 \<le> len \<Longrightarrow> be32_read (padd m off) = be32_read (padd m' off)"
  by (simp add: agree_def be32_read_def padd_def)

lemma agree_read_bytes:
  "agree m m' len \<Longrightarrow> off + n \<le> len \<Longrightarrow> read_bytes m off n = read_bytes m' off n"
  by (auto simp: agree_def intro: read_bytes_cong)

lemma agree_decode_prefix:
  "agree m m' len \<Longrightarrow> 11 \<le> len \<Longrightarrow> decode_prefix m = decode_prefix m'"
  by (simp add: decode_prefix_def agree_be16 [of m m' len] agree_be32 [of m m' len])

lemmas agree_reads = agree_byte agree_be16 agree_be32 agree_read_bytes agree_decode_prefix

lemma decode_variable_agree:
  assumes "agree m m' len" and "11 \<le> len"
  shows "decode_data m len = decode_data m' len"
    and "decode_reserved_nack m len = decode_reserved_nack m' len"
    and "decode_cache_request m len = decode_cache_request m' len"
    and "decode_cache_reply m len = decode_cache_reply m' len"
    and "decode_extended m len = decode_extended m' len"
  using assms(2)
  by (simp_all add: decode_data_def decode_reserved_nack_def decode_cache_request_def
      decode_cache_reply_def decode_extended_def decode_calib_probe_def decode_calib_tally_def
      decode_link_verdict_def exact_len_def Let_def agree_reads [OF assms(1)] cong: if_cong)

lemma decode_fixed_agree:
  assumes "agree m m' len" and "11 \<le> len"
  shows "decode_link_report m len = decode_link_report m' len"
    and "decode_heartbeat m len = decode_heartbeat m' len"
    and "decode_csa m len = decode_csa m' len"
    and "decode_recovery_request m len = decode_recovery_request m' len"
    and "decode_jscc_feedback m len = decode_jscc_feedback m' len"
    and "decode_cache_status m len = decode_cache_status m' len"
    and "decode_announce m len = decode_announce m' len"
    and "decode_cache_assign m len = decode_cache_assign m' len"
    and "decode_vehicle_cmd m len = decode_vehicle_cmd m' len"
  using assms(2)
  by (simp_all add: decode_link_report_def decode_heartbeat_def decode_csa_def
      decode_recovery_request_def decode_jscc_feedback_def decode_cache_status_def
      decode_announce_def decode_cache_assign_def decode_vehicle_cmd_def exact_len_def Let_def
      agree_reads [OF assms(1)] cong: if_cong)

lemma decode_selector_state_agree:
  assumes "agree m m' len"
  shows "decode_selector_state m len = decode_selector_state m' len"
  by (simp add: decode_selector_state_def Let_def agree_reads [OF assms] cong: if_cong)

lemmas decode_agree = decode_variable_agree decode_fixed_agree decode_selector_state_agree

lemma decode_agree_all:
  assumes "agree m m' len"
  shows "decode (Some m) len = decode (Some m') len"
proof (cases "2 \<le> len")
  case True
  then have "be16_read m = be16_read m'"
    using agree_be16 [OF assms, of 0] by (simp add: padd_def)
  then show ?thesis
    by (simp add: decode_def Let_def decode_agree [OF assms] agree_byte [OF assms] cong: if_cong)
qed (simp add: decode_def)

section \<open>Canonical form\<close>

definition framed :: "ptr \<Rightarrow> PacketType \<Rightarrow> bool" where
  "framed m t \<longleftrightarrow> encode_prefix (decode_prefix m) t = read_bytes m 0 11"

lemma nibbles_eq:
  assumes "drop_bit 4 (x :: u8) = 0" and "x AND 0xF = y"
  shows "x = y"
proof -
  have "take_bit 4 x = y"
    using assms(2) by (simp add: take_bit_eq_mask mask_eq_exp_minus_1)
  then show ?thesis
    using assms(1) bits_ident [of 4 x] by simp
qed

lemma be16_write_magic: "be16_write kMagic = [0x57, 0x42]"
  by (simp add: be16_write_def)

lemma upt_0_11: "[0..<11] = [0, 1, 2, 3, 4, 5, 6, 7, 8, 9, 10]"
  by code_simp

lemma framedI:
  assumes "be16_read m = kMagic" and "drop_bit 4 (m 2) = kProtocolVersion"
    and "m 2 AND 0xF = packet_type_value t"
  shows "framed m t"
proof -
  have "be16_write (be16_read m) = be16_write kMagic"
    using assms(1) by simp
  then have "m 0 = 0x57" "m 1 = 0x42"
    by (simp_all add: be16_write_read be16_write_magic)
  moreover have "m 2 = packet_type_value t"
    using nibbles_eq assms(2,3) by blast
  ultimately show ?thesis
    by (simp add: framed_def encode_prefix_def decode_prefix_def bytes_simps padd_def read_bytes_def
        upt_0_11 be16_write_magic)
qed

lemma framed_append:
  assumes "framed m t" and "11 \<le> len" and "rest = map m [11..<len]"
  shows "encode_prefix (decode_prefix m) t @ rest = read_bytes m 0 len"
  using assms upt_add_eq_append [of 0 11 "len - 11"] by (simp add: framed_def read_bytes_def)

lemmas canon_simps = exact_len_def Let_def be16_write_read be32_write_read padd_def upt_conv_Cons
  out_ok_def

definition canonical :: "packet \<Rightarrow> ptr \<Rightarrow> nat \<Rightarrow> bool" where
  "canonical pkt m len \<longleftrightarrow> wf_packet pkt \<and> wire_encode pkt (Some len) = Some (read_bytes m 0 len)"

lemma read_bytes_from_14: "read_bytes m 14 16 = map m [14..<30]"
  by (simp add: read_bytes_def)

lemma canon_heartbeat:
  assumes "decode_heartbeat m len = Inr pkt" and "framed m kHeartbeat"
  shows "canonical pkt m len"
  using assms by (auto simp: decode_heartbeat_def encode_heartbeat_def canonical_def out_ok_def
      framed_def split: if_splits)

lemma canon_link_report:
  assumes "decode_link_report m len = Inr pkt" and "framed m kLinkReport"
  shows "canonical pkt m len"
  using assms by (auto simp: decode_link_report_def encode_link_report_def canonical_def canon_simps
      split: if_splits intro!: framed_append)

lemma canon_csa:
  assumes "decode_csa m len = Inr pkt" and "framed m kCsa"
  shows "canonical pkt m len"
  using assms by (auto simp: decode_csa_def encode_csa_def canonical_def canon_simps
      split: if_splits intro!: framed_append)

lemma canon_recovery_request:
  assumes "decode_recovery_request m len = Inr pkt" and "framed m kRecoveryRequest"
  shows "canonical pkt m len"
  using assms by (auto simp: decode_recovery_request_def encode_recovery_request_def canonical_def canon_simps
      split: if_splits intro!: framed_append)

lemma canon_jscc_feedback:
  assumes "decode_jscc_feedback m len = Inr pkt" and "framed m kJsccFeedback"
  shows "canonical pkt m len"
  using assms by (auto simp: decode_jscc_feedback_def encode_jscc_feedback_def canonical_def canon_simps
      split: if_splits intro!: framed_append)

lemma canon_cache_status:
  assumes "decode_cache_status m len = Inr pkt" and "framed m kCacheStatus"
  shows "canonical pkt m len"
  using assms by (auto simp: decode_cache_status_def encode_cache_status_def canonical_def canon_simps
      split: if_splits intro!: framed_append)

lemma canon_cache_assign:
  assumes "decode_cache_assign m len = Inr pkt" and "framed m kCacheAssign"
  shows "canonical pkt m len"
  using assms by (auto simp: decode_cache_assign_def encode_cache_assign_def canonical_def canon_simps
      split: if_splits intro!: framed_append)

lemma canon_vehicle_cmd:
  assumes "decode_vehicle_cmd m len = Inr pkt" and "framed m kVehicleCmd"
  shows "canonical pkt m len"
  using assms by (auto simp: decode_vehicle_cmd_def encode_vehicle_cmd_def canonical_def canon_simps
      split: if_splits intro!: framed_append)

lemma canon_announce:
  assumes "decode_announce m len = Inr pkt" and "framed m kAnnounce"
  shows "canonical pkt m len"
  using assms by (auto simp: decode_announce_def encode_announce_def canonical_def canon_simps read_bytes_from_14
      split: if_splits intro!: framed_append)

lemma canon_calib_tally:
  assumes "decode_calib_tally m len = Inr pkt" and "framed m kExtended" and "m 11 = ext_kCalTally"
  shows "canonical pkt m len"
  using assms by (auto simp: decode_calib_tally_def encode_calib_tally_def canonical_def canon_simps
      split: if_splits intro!: framed_append)

lemma canon_link_verdict:
  assumes "decode_link_verdict m len = Inr pkt" and "framed m kExtended" and "m 11 = ext_kLinkVerdict"
  shows "canonical pkt m len"
  using assms by (auto simp: decode_link_verdict_def encode_link_verdict_def canonical_def canon_simps
      split: if_splits intro!: framed_append)

lemma read_bytes_tail: "0 < off \<Longrightarrow> off + n = len \<Longrightarrow> read_bytes m off n = map m [off..<len]"
  by (auto simp: read_bytes_def)

lemma canon_data:
  assumes "decode_data m len = Inr pkt" and "framed m kData"
  shows "canonical pkt m len"
  using assms
  by (auto simp: decode_data_def encode_data_def canonical_def canon_simps memcpy_def
      null_with_len_def unat_of_nat_small read_bytes_tail split: if_splits intro!: framed_append)

lemma framed_append_tail:
  assumes "framed m t" and "len = k + n" and "11 \<le> k" and "rest = map m [11..<k] @ read_bytes m k n"
  shows "encode_prefix (decode_prefix m) t @ rest = read_bytes m 0 len"
  using assms upt_add_eq_append [of 11 k n]
  by (intro framed_append) (simp_all add: read_bytes_def)

lemma unat_u16_less: "unat (w :: u16) < 65536"
  using unsigned_less [of w] by simp

lemma canon_cache_reply:
  assumes "decode_cache_reply m len = Inr pkt" and "framed m kCacheReply"
  shows "canonical pkt m len"
  using assms
  by (auto simp: decode_cache_reply_def encode_cache_reply_def canonical_def canon_simps memcpy_def
      null_with_len_def unat_of_nat_small unat_u16_less split: if_splits
      intro!: framed_append_tail [where k = 17])

lemma read_bytes_append: "read_bytes m off n @ read_bytes m (off + n) k = read_bytes m off (n + k)"
  using upt_add_eq_append [of off "off + n" k] by (simp add: read_bytes_def add.assoc)

lemma canon_cache_request:
  assumes "decode_cache_request m len = Inr pkt" and "framed m kCacheRequest"
  shows "canonical pkt m len"
  using assms
  by (auto simp: decode_cache_request_def encode_cache_request_def canonical_def canon_simps
      memcpy_def null_with_len_def unat_of_nat_small read_bytes_append word_le_nat_alt
      word_less_nat_alt split: if_splits intro!: framed_append_tail [where k = 32])

lemma canon_selector_state:
  assumes "decode_selector_state m len = Inr pkt" and "framed m kSelectorState"
  shows "canonical pkt m len"
  using assms
  by (cases "has_flag (m 16) ss_kHolderPresent"; cases "has_flag (m 16) ss_kCalibPresent")
    (auto simp: decode_selector_state_def encode_selector_state_def canonical_def canon_simps
      split: if_splits intro!: framed_append)

fun reencodable :: "packet \<Rightarrow> bool" where
  "reencodable (PReservedNack p) = False"
| "reencodable (PExtUnknown p x) = False"
| "reencodable (PCalibProbe p) = False"
| "reencodable _ = True"

lemma canon_extended:
  assumes "decode_extended m len = Inr pkt" and "framed m kExtended" and "reencodable pkt"
  shows "canonical pkt m len"
proof -
  have "m 11 = ext_kCalTally \<and> decode_calib_tally m len = Inr pkt
        \<or> m 11 = ext_kLinkVerdict \<and> decode_link_verdict m len = Inr pkt"
    using assms(1,3)
    by (auto simp: decode_extended_def decode_calib_probe_def Let_def split: if_splits)
  then show ?thesis
    using canon_calib_tally canon_link_verdict assms(2) by blast
qed

lemmas canon_rules = canon_data canon_link_report canon_heartbeat canon_csa canon_recovery_request
  canon_jscc_feedback canon_cache_status canon_cache_request canon_cache_reply canon_announce
  canon_cache_assign canon_extended canon_vehicle_cmd canon_selector_state

lemma decode_canonical_aux:
  assumes "decode (Some m) len = Inr pkt" and "reencodable pkt"
  shows "canonical pkt m len"
proof -
  have h: "be16_read m = kMagic" "drop_bit 4 (m 2) = kProtocolVersion"
    using assms(1) by (auto simp: decode_def Let_def split: if_splits)
  have f: "m 2 AND 0xF = packet_type_value t \<Longrightarrow> framed m t" for t
    using framedI h by blast
  show ?thesis
    using assms f by (auto simp: decode_def Let_def decode_reserved_nack_def split: if_splits
        intro: canon_rules)
qed

section \<open>The codec contract\<close>

text \<open>What a packet type promises its users: an encoder that stays inside the caller's buffer
  and that \<open>decode\<close> inverts on the well-formed packets.\<close>

lemma nth_read_bytes: "i < n \<Longrightarrow> read_bytes m off n ! i = m (off + i)"
  by (simp add: read_bytes_def)

locale packet_codec =
  fixes enc :: "'p \<Rightarrow> nat option \<Rightarrow> bytes option"
    and tag :: "'p \<Rightarrow> packet"
    and ok :: "'p \<Rightarrow> bool"
  assumes dec_enc: "ok p \<Longrightarrow> roundtrips (enc p out) (tag p)"
    and tag_inject: "tag p = tag q \<Longrightarrow> p = q"
    and fits: "ok p \<Longrightarrow> enc p out = Some bs \<Longrightarrow> out_ok out (length bs)"
begin

lemma decode_enc:
  assumes "ok p" and "enc p out = Some bs"
  shows "decode (Some (ptr_of bs)) (length bs) = Inr (tag p)"
  using dec_enc [OF assms(1), of out] assms(2) by (simp add: roundtrips_def)

lemma enc_inject:
  assumes "ok p" and "ok q" and "enc p out = Some bs" and "enc q out' = Some bs"
  shows "p = q"
  using decode_enc [OF assms(1,3)] decode_enc [OF assms(2,4)] by (simp add: tag_inject)

text \<open>A receive buffer may hold anything behind the frame.\<close>

lemma decode_in_memory:
  assumes "ok p" and "enc p out = Some bs" and "read_bytes m 0 (length bs) = bs"
  shows "decode (Some m) (length bs) = Inr (tag p)"
proof -
  have "agree m (ptr_of bs) (length bs)"
    using nth_read_bytes [of _ "length bs" m 0] assms(3) by (simp add: agree_def ptr_of_def)
  then show ?thesis
    using decode_enc [OF assms(1,2)] by (simp add: decode_agree_all)
qed

end

lemma calib_probe_fits:
  assumes "kCalibProbeFixedSize \<le> unat (pr_wire_len p)"
    and "encode_calib_probe p (pr_wire_len p) out = Some bs"
  shows "out_ok out (length bs)"
proof -
  define t where "t = min (max (unat (pr_wire_len p)) kCalibProbeFixedSize) (unat kHighBudget)"
  obtain d where "t = 22 + d"
    using le_Suc_ex [of 22 t] assms(1) by (auto simp: t_def)
  then show ?thesis
    using assms(2) unfolding encode_calib_probe_def t_def [symmetric] Let_def
    by (auto split: if_splits)
qed

lemma wire_encode_fits: "wf_packet pkt \<Longrightarrow> wire_encode pkt out = Some bs \<Longrightarrow> out_ok out (length bs)"
  by (induction pkt rule: wf_packet.induct)
    (auto simp: encode_data_def encode_link_report_def encode_heartbeat_def encode_csa_def
      encode_recovery_request_def encode_jscc_feedback_def encode_cache_status_def
      encode_cache_request_def encode_cache_reply_def encode_announce_def encode_cache_assign_def
      encode_vehicle_cmd_def encode_selector_state_def calib_probe_fits
      encode_calib_tally_def encode_link_verdict_def memcpy_def Let_def unat_of_nat_small
      word_le_nat_alt add.assoc split: if_splits)

interpretation wire: packet_codec wire_encode "\<lambda>p. p" wf_packet
  by unfold_locales (simp_all add: wire_encode_roundtrips wire_encode_fits)

interpretation csa_codec: packet_codec encode_csa PCsa "\<lambda>_. True"
  using wire_encode_fits [of "PCsa _"] by unfold_locales (simp_all add: roundtrip_csa)

interpretation vcmd_codec: packet_codec encode_vehicle_cmd PVehicleCmd "\<lambda>_. True"
  using wire_encode_fits [of "PVehicleCmd _"] by unfold_locales (simp_all add: roundtrip_vehicle_cmd)

text \<open>The result of decode depends only on the first len bytes. That no read leaves the buffer is
  shown on the bounds-checked machine of \<open>Wire_Checked\<close>.\<close>

lemma decode_memory_safe:
  assumes "\<forall>i<len. m i = m' i"
  shows "decode (Some m) len = decode (Some m') len"
  using assms by (intro decode_agree_all) (simp add: agree_def)

text \<open>C10: For every packet type: a well-formed packet that an encoder writes into a buffer of the
  caller fits that buffer, and decode returns exactly that packet from any memory that holds the
  encoded bytes.\<close>

theorem wire_roundtrip:
  assumes "wf_packet pkt" and "wire_encode pkt out = Some bs" and "read_bytes m 0 (length bs) = bs"
  shows "decode (Some m) (length bs) = Inr pkt \<and> out_ok out (length bs)"
  using wire.decode_in_memory [OF assms] wire.fits [OF assms(1,2)] by simp

text \<open>C11: The wire format is canonical: a frame that decode accepts as a re-encodable packet (all
  types but the reserved one, unknown extended types and padded calibration probes) is well-
  formed, and the encoder writes back exactly the received bytes into a buffer of exactly the
  received length.\<close>

theorem decode_canonical:
  assumes "decode (Some m) len = Inr pkt" and "reencodable pkt"
  shows "wf_packet pkt \<and> wire_encode pkt (Some len) = Some (read_bytes m 0 len)"
  using decode_canonical_aux [OF assms] by (simp add: canonical_def)

text \<open>Stamping an epoch into an encoded link report gives the encoding of the same report with
  that epoch.\<close>

theorem link_report_stamp_epoch_correct:
  assumes "encode_link_report pkt out = Some bs"
  shows "link_report_stamp_epoch (Some bs) epoch = encode_link_report (pkt\<lparr>lr_report_epoch := epoch\<rparr>) out"
  using assms
  by (auto simp: encode_link_report_def link_report_stamp_epoch_def write_at_def split: if_splits)

section \<open>Concrete packets\<close>

definition demo_prefix :: common_prefix where
  "demo_prefix = \<lparr>originator = 0x0102, destination = 0x0304, session_id = 7\<rparr>"

definition demo_heartbeat :: bytes where
  "demo_heartbeat = encode_prefix demo_prefix kHeartbeat"

theorem decode_memory_safe_witness:
  "decode (Some (\<lambda>_. 0)) 5 = decode (Some (\<lambda>i. if i < 5 then 0 else 9)) 5"
  by (rule decode_memory_safe) simp

theorem wire_roundtrip_witness:
  "decode (Some (ptr_of (demo_heartbeat @ [9, 9]))) 11 = Inr (PHeartbeat demo_prefix) \<and> out_ok (Some 64) 11"
proof -
  have "length demo_heartbeat = 11"
    by (simp add: demo_heartbeat_def)
  moreover from this have "read_bytes (ptr_of (demo_heartbeat @ [9, 9])) 0 (length demo_heartbeat) = demo_heartbeat"
    by (intro nth_equalityI) (auto simp: nth_read_bytes ptr_of_def nth_append)
  ultimately show ?thesis
    using wire_roundtrip [of "PHeartbeat demo_prefix" "Some 64" demo_heartbeat]
    by (simp add: encode_heartbeat_def demo_heartbeat_def out_ok_def)
qed

theorem decode_canonical_witness:
  "wire_encode (PHeartbeat demo_prefix) (Some 11) = Some (read_bytes (ptr_of demo_heartbeat) 0 11)"
proof -
  have "decode (Some (ptr_of demo_heartbeat)) 11 = Inr (PHeartbeat demo_prefix)"
    using roundtrip_heartbeat [of demo_prefix "Some 64"]
    by (simp add: encode_heartbeat_def out_ok_def roundtrips_def demo_heartbeat_def)
  then show ?thesis
    using decode_canonical [of "ptr_of demo_heartbeat" 11 "PHeartbeat demo_prefix"] by simp
qed

definition demo_report :: link_report where
  "demo_report = \<lparr>lr_prefix = demo_prefix, lr_target_originator = 1, lr_target_session = 2,
     lr_target_stream_id = 0, lr_report_epoch = 0x11223344, lr_table_version = 1, lr_rssi_best = 60,
     lr_rssi_mean = 62, lr_loss_postdiv_prearq = 5, lr_uniq = 100, lr_diversity = 20, lr_adapters = 2,
     lr_probe_per = 0, lr_recommended_prof = 3\<rparr>"

theorem link_report_stamp_epoch_correct_witness:
  "link_report_stamp_epoch (encode_link_report demo_report (Some 64)) 0x55667788
     = encode_link_report (demo_report\<lparr>lr_report_epoch := 0x55667788\<rparr>) (Some 64)"
  using link_report_stamp_epoch_correct [where pkt = demo_report and out = "Some 64" and epoch = "0x55667788"]
  by (simp add: encode_link_report_def out_ok_def)

end
