(* ===== verification/Wire_Checked.thy ===== *)
theory Wire_Checked
  imports Wire_Props "HOL-Library.Monad_Syntax"
begin

text \<open>
  core/src/wire.cpp, the decoder on a machine with bounds checks. \<open>Wire\<close> reads memory as a
  total function, so a read past the end of the buffer yields some byte there, where C++ has
  undefined behaviour. Here the same functions run on a defensive machine: each read of one, two
  or four bytes, and each view or copy of a slice, is checked against the \<open>len\<close> bytes of the
  buffer, and a violation stops the run with the fault \<open>None\<close>. The length tests, the order of the
  reads and the returned errors are those of the source. The theorem is that no run faults,
  whatever the bytes and the length, and that the machine computes what \<open>Wire\<close> computes.
\<close>

section \<open>The checked machine\<close>

definition rd8 :: "ptr \<Rightarrow> nat \<Rightarrow> nat \<Rightarrow> u8 option" where
  "rd8 buf len i = (if i + 1 \<le> len then Some (buf i) else None)"

definition rd16 :: "ptr \<Rightarrow> nat \<Rightarrow> nat \<Rightarrow> u16 option" where
  "rd16 buf len i = (if i + 2 \<le> len then Some (be16_read (padd buf i)) else None)"

definition rd32 :: "ptr \<Rightarrow> nat \<Rightarrow> nat \<Rightarrow> u32 option" where
  "rd32 buf len i = (if i + 4 \<le> len then Some (be32_read (padd buf i)) else None)"

definition rd_slice :: "ptr \<Rightarrow> nat \<Rightarrow> nat \<Rightarrow> nat \<Rightarrow> bytes option" where
  "rd_slice buf len i n = (if i + n \<le> len then Some (read_bytes buf i n) else None)"

lemmas checked_reads = rd8_def rd16_def rd32_def rd_slice_def

section \<open>The decoders on the checked machine\<close>

definition checked_prefix :: "ptr \<Rightarrow> nat \<Rightarrow> common_prefix option" where
  "checked_prefix buf len = do {
     o' \<leftarrow> rd16 buf len 3;
     d \<leftarrow> rd16 buf len 5;
     s \<leftarrow> rd32 buf len 7;
     Some \<lparr>originator = o', destination = d, session_id = s\<rparr> }"

definition checked_data :: "ptr \<Rightarrow> nat \<Rightarrow> decoded option" where
  "checked_data buf len =
     (if len < kDataHeaderSize then Some (Inl kTruncated)
      else do {
        pl \<leftarrow> rd16 buf len 24;
        let payload_len = unat pl;
        if len \<noteq> kDataHeaderSize + payload_len then Some (Inl kLengthMismatch)
        else if kMaxDataPayload < payload_len then Some (Inl kInvalidField)
        else do {
          p \<leftarrow> checked_prefix buf len;
          sid \<leftarrow> rd8 buf len 11;
          sty \<leftarrow> rd8 buf len 12;
          sq \<leftarrow> rd32 buf len 13;
          bid \<leftarrow> rd32 buf len 17;
          fl \<leftarrow> rd8 buf len 21;
          prof \<leftarrow> rd8 buf len 22;
          tv \<leftarrow> rd8 buf len 23;
          payload \<leftarrow> rd_slice buf len kDataHeaderSize payload_len;
          Some (Inr (PData
            \<lparr>dv_hdr = \<lparr>dh_prefix = p, stream_id = sid, stream_type = sty, seq_no = sq,
               block_id = bid, data_flags = fl, active_profile = prof, table_version = tv\<rparr>,
             dv_payload = payload\<rparr>)) } })"

definition checked_reserved_nack :: "ptr \<Rightarrow> nat \<Rightarrow> decoded option" where
  "checked_reserved_nack buf len = do {
     p \<leftarrow> checked_prefix buf len;
     Some (Inr (PReservedNack p)) }"

definition checked_link_report :: "ptr \<Rightarrow> nat \<Rightarrow> decoded option" where
  "checked_link_report buf len =
     (if len < kLinkReportSize then Some (Inl kTruncated)
      else if len \<noteq> kLinkReportSize then Some (Inl kLengthMismatch)
      else do {
        p \<leftarrow> checked_prefix buf len;
        target \<leftarrow> rd16 buf len 11;
        session \<leftarrow> rd32 buf len 13;
        stream \<leftarrow> rd8 buf len 17;
        epoch \<leftarrow> rd32 buf len 18;
        tv \<leftarrow> rd8 buf len 22;
        best \<leftarrow> rd8 buf len 23;
        mean \<leftarrow> rd8 buf len 24;
        loss \<leftarrow> rd16 buf len 25;
        uniq \<leftarrow> rd32 buf len 27;
        dvs \<leftarrow> rd32 buf len 31;
        adapters \<leftarrow> rd8 buf len 35;
        per \<leftarrow> rd16 buf len 36;
        prof \<leftarrow> rd8 buf len 38;
        Some (Inr (PLinkReport
          \<lparr>lr_prefix = p, lr_target_originator = target, lr_target_session = session,
           lr_target_stream_id = stream, lr_report_epoch = epoch, lr_table_version = tv,
           lr_rssi_best = best, lr_rssi_mean = mean, lr_loss_postdiv_prearq = loss,
           lr_uniq = uniq, lr_diversity = dvs, lr_adapters = adapters, lr_probe_per = per,
           lr_recommended_prof = prof\<rparr>)) })"

definition checked_heartbeat :: "ptr \<Rightarrow> nat \<Rightarrow> decoded option" where
  "checked_heartbeat buf len =
     (if len \<noteq> kHeartbeatSize then Some (Inl kLengthMismatch)
      else do { p \<leftarrow> checked_prefix buf len; Some (Inr (PHeartbeat p)) })"

definition checked_selector_state :: "ptr \<Rightarrow> nat \<Rightarrow> decoded option" where
  "checked_selector_state buf len =
     (if len < kSelectorStateLegacySize then Some (Inl kTruncated)
      else if len \<noteq> kSelectorStateCalibSize \<and> len \<noteq> kSelectorStateSize
              \<and> len \<noteq> kSelectorStateLegacySize then Some (Inl kLengthMismatch)
      else do {
        flags \<leftarrow> rd8 buf len 16;
        let holder_present = has_flag flags ss_kHolderPresent;
        let calib_present = has_flag flags ss_kCalibPresent;
        if calib_present \<and> \<not> holder_present then Some (Inl kInvalidField)
        else do {
          let expect = (if calib_present then kSelectorStateCalibSize
                        else if holder_present then kSelectorStateSize
                        else kSelectorStateLegacySize);
          if len \<noteq> expect then Some (Inl kLengthMismatch)
          else do {
            p \<leftarrow> checked_prefix buf len;
            tv \<leftarrow> rd8 buf len 11;
            act \<leftarrow> rd8 buf len 12;
            fl \<leftarrow> rd8 buf len 13;
            ceil \<leftarrow> rd8 buf len 14;
            lock \<leftarrow> rd8 buf len 15;
            strikes \<leftarrow> rd8 buf len 17;
            remaining \<leftarrow> rd16 buf len 18;
            reason \<leftarrow> rd8 buf len 20;
            lwin \<leftarrow> rd16 buf len 21;
            amask \<leftarrow> rd8 buf len 23;
            lmask \<leftarrow> rd8 buf len 24;
            ewma \<leftarrow> rd16 buf len 25;
            luniq \<leftarrow> rd32 buf len 27;
            score \<leftarrow> rd8 buf len 31;
            holder \<leftarrow> (if holder_present then rd16 buf len 32 else Some 0);
            cw \<leftarrow> (if calib_present then rd8 buf len 34 else Some 0);
            cf \<leftarrow> (if calib_present then rd8 buf len 35 else Some 0);
            let s = \<lparr>ss_prefix = p, ss_table_version = tv, ss_active_profile = act,
                     ss_safe_floor_profile = fl, ss_ceiling_profile = ceil,
                     ss_lockout_profile = lock, ss_state_flags = flags,
                     ss_lockout_strikes = strikes, ss_remaining_ms = remaining,
                     ss_transition_reason = reason, ss_loss_window_milli = lwin,
                     ss_lockout_active_mask = amask, ss_lockout_latched_mask = lmask,
                     ss_loss_ewma_milli = ewma, ss_loss_uniq = luniq, ss_loss_score = score,
                     ss_report_latch_holder = holder, ss_calib_word = cw,
                     ss_calib_fingerprint = cf\<rparr>;
            Some (if selector_state_fields_valid s then Inr (PSelectorState s)
                  else Inl kInvalidField) } } })"

definition checked_csa :: "ptr \<Rightarrow> nat \<Rightarrow> decoded option" where
  "checked_csa buf len =
     (if len < kCsaSize then Some (Inl kTruncated)
      else if len \<noteq> kCsaSize then Some (Inl kLengthMismatch)
      else do {
        p \<leftarrow> checked_prefix buf len;
        nonce \<leftarrow> rd32 buf len 11;
        sq \<leftarrow> rd8 buf len 15;
        chan \<leftarrow> rd16 buf len 16;
        bw \<leftarrow> rd8 buf len 18;
        cls \<leftarrow> rd8 buf len 19;
        dt \<leftarrow> rd16 buf len 20;
        rev' \<leftarrow> rd16 buf len 22;
        pchan \<leftarrow> rd16 buf len 24;
        pbw \<leftarrow> rd8 buf len 26;
        pow \<leftarrow> rd8 buf len 27;
        mac \<leftarrow> rd32 buf len 28;
        Some (Inr (PCsa
          \<lparr>csa_prefix = p, csa_nonce = nonce, csa_seq = sq, target_chan = chan, target_bw = bw,
           retune_class = cls, dt_to_switch_ms = dt, t_revert_ms = rev', prev_chan = pchan,
           prev_bw = pbw, power_intent = pow, csa_mac_field = mac\<rparr>)) })"

text \<open>The length check the fixed-size types share, in front of the reads.\<close>

definition checked_len :: "nat \<Rightarrow> nat \<Rightarrow> decoded option \<Rightarrow> decoded option" where
  "checked_len len n r =
     (if len \<noteq> n then Some (Inl (if len < n then kTruncated else kLengthMismatch)) else r)"

definition checked_recovery_request :: "ptr \<Rightarrow> nat \<Rightarrow> decoded option" where
  "checked_recovery_request buf len = checked_len len kRecoveryRequestSize (do {
     p \<leftarrow> checked_prefix buf len;
     target \<leftarrow> rd16 buf len 11;
     session \<leftarrow> rd32 buf len 13;
     stream \<leftarrow> rd8 buf len 17;
     Some (Inr (PRecoveryRequest \<lparr>rr_prefix = p, rr_target_originator = target,
       rr_target_session = session, rr_target_stream_id = stream\<rparr>)) })"

definition checked_jscc_feedback :: "ptr \<Rightarrow> nat \<Rightarrow> decoded option" where
  "checked_jscc_feedback buf len = checked_len len kJsccFeedbackSize (do {
     p \<leftarrow> checked_prefix buf len;
     target \<leftarrow> rd16 buf len 11;
     session \<leftarrow> rd32 buf len 13;
     stream \<leftarrow> rd8 buf len 17;
     epoch \<leftarrow> rd32 buf len 18;
     demand \<leftarrow> rd16 buf len 22;
     rtt \<leftarrow> rd32 buf len 24;
     rs \<leftarrow> rd16 buf len 28;
     ts \<leftarrow> rd16 buf len 30;
     valid \<leftarrow> rd8 buf len 32;
     observed \<leftarrow> rd32 buf len 33;
     Some (if unknown_bits valid jscc_known_mask then Inl kInvalidField
       else Inr (PJsccFeedback
         \<lparr>jf_prefix = p, jf_target_originator = target, jf_target_session = session,
          jf_target_stream_id = stream, jf_feedback_epoch = epoch,
          jf_repair_demand_permille = demand, jf_rtt_p95_us = rtt, jf_repair_samples = rs,
          jf_rtt_samples = ts, jf_valid_flags = valid, jf_observed_block_id = observed\<rparr>)) })"

definition checked_cache_status :: "ptr \<Rightarrow> nat \<Rightarrow> decoded option" where
  "checked_cache_status buf len = checked_len len kCacheStatusSize (do {
     p \<leftarrow> checked_prefix buf len;
     target \<leftarrow> rd16 buf len 11;
     session \<leftarrow> rd32 buf len 13;
     stream \<leftarrow> rd8 buf len 17;
     oldest \<leftarrow> rd32 buf len 18;
     newest \<leftarrow> rd32 buf len 22;
     health \<leftarrow> rd16 buf len 26;
     caps \<leftarrow> rd8 buf len 28;
     Some (if 1000 < health \<or> unknown_bits caps cache_known_mask then Inl kInvalidField
       else Inr (PCacheStatus
         \<lparr>cs_prefix = p, cs_target_originator = target, cs_target_session = session,
          cs_target_stream_id = stream, cs_oldest_block = oldest, cs_newest_block = newest,
          cs_rx_health_permille = health, cs_capability_flags = caps\<rparr>)) })"

definition checked_cache_request :: "ptr \<Rightarrow> nat \<Rightarrow> decoded option" where
  "checked_cache_request buf len =
     (if len < kCacheRequestFixedSize then Some (Inl kTruncated)
      else do {
        k \<leftarrow> rd16 buf len 28;
        max_symbols \<leftarrow> rd8 buf len 30;
        repair_have_len \<leftarrow> rd8 buf len 31;
        if k = 0 \<or> kFecMaxSymbols < unat k \<or> max_symbols = 0 \<or> 32 < repair_have_len
        then Some (Inl kInvalidField)
        else do {
          let src_len = (unat k + 7) div 8;
          if len \<noteq> kCacheRequestFixedSize + src_len + unat repair_have_len
          then Some (Inl kLengthMismatch)
          else do {
            p \<leftarrow> checked_prefix buf len;
            target \<leftarrow> rd16 buf len 11;
            session \<leftarrow> rd32 buf len 13;
            stream \<leftarrow> rd8 buf len 17;
            cache \<leftarrow> rd16 buf len 18;
            rid \<leftarrow> rd32 buf len 20;
            blk \<leftarrow> rd32 buf len 24;
            missing \<leftarrow> rd_slice buf len kCacheRequestFixedSize src_len;
            have' \<leftarrow> rd_slice buf len (kCacheRequestFixedSize + src_len) (unat repair_have_len);
            Some (Inr (PCacheRequest
              \<lparr>crv_hdr = \<lparr>cr_prefix = p, cr_target_originator = target,
                 cr_target_session = session, cr_target_stream_id = stream,
                 cr_target_cache = cache, cr_request_id = rid, cr_block_id = blk,
                 cr_window_len = k, cr_max_symbols = max_symbols\<rparr>,
               crv_missing_sources = missing, crv_repair_have = have'\<rparr>)) } } })"

definition checked_cache_reply :: "ptr \<Rightarrow> nat \<Rightarrow> decoded option" where
  "checked_cache_reply buf len =
     (if len < kCacheReplyFixedSize then Some (Inl kTruncated)
      else do {
        wl \<leftarrow> rd16 buf len 15;
        let wrapped_len = unat wl;
        if wrapped_len < kDataHeaderSize then Some (Inl kInvalidField)
        else if len \<noteq> kCacheReplyFixedSize + wrapped_len then Some (Inl kLengthMismatch)
        else do {
          p \<leftarrow> checked_prefix buf len;
          rid \<leftarrow> rd32 buf len 11;
          wrapped \<leftarrow> rd_slice buf len kCacheReplyFixedSize wrapped_len;
          Some (Inr (PCacheReply \<lparr>cp_prefix = p, cp_request_id = rid,
                                  cp_wrapped = wrapped\<rparr>)) } })"

definition checked_announce :: "ptr \<Rightarrow> nat \<Rightarrow> decoded option" where
  "checked_announce buf len = checked_len len kAnnounceSize (do {
     flags \<leftarrow> rd8 buf len 11;
     if unknown_bits flags announce_known_mask then Some (Inl kInvalidField)
     else do {
       p \<leftarrow> checked_prefix buf len;
       by \<leftarrow> rd16 buf len 12;
       psk \<leftarrow> rd_slice buf len 14 kAnnouncePskSize;
       Some (Inr (PAnnounce \<lparr>an_prefix = p, an_flags = flags, an_claimed_by = by,
                             an_psk = psk\<rparr>)) } })"

definition checked_cache_assign :: "ptr \<Rightarrow> nat \<Rightarrow> decoded option" where
  "checked_cache_assign buf len = checked_len len kCacheAssignSize (do {
     p \<leftarrow> checked_prefix buf len;
     cache \<leftarrow> rd16 buf len 11;
     target \<leftarrow> rd16 buf len 13;
     epoch \<leftarrow> rd32 buf len 15;
     chan \<leftarrow> rd16 buf len 19;
     bw \<leftarrow> rd8 buf len 21;
     net \<leftarrow> rd8 buf len 22;
     Some (if cache = 0 \<or> target = 0 \<or> chan = 0 \<or> 2 < bw then Inl kInvalidField
       else Inr (PCacheAssign
         \<lparr>ca_prefix = p, ca_target_cache = cache, ca_target_originator = target,
          ca_assignment_epoch = epoch, ca_target_chan = chan, ca_target_bw = bw,
          ca_target_net_id = net\<rparr>)) })"

definition checked_calib_probe :: "ptr \<Rightarrow> nat \<Rightarrow> decoded option" where
  "checked_calib_probe buf len =
     (if len < kCalibProbeFixedSize then Some (Inl kTruncated)
      else if unat kHighBudget < len then Some (Inl kLengthMismatch)
      else do {
        p \<leftarrow> checked_prefix buf len;
        run \<leftarrow> rd32 buf len 12;
        dwell \<leftarrow> rd16 buf len 16;
        sq \<leftarrow> rd16 buf len 18;
        cnt \<leftarrow> rd16 buf len 20;
        Some (if dwell = 0 \<or> sq = 0 \<or> cnt = 0 \<or> cnt < sq \<or> destination p = 0
          then Inl kInvalidField
          else Inr (PCalibProbe \<lparr>pr_prefix = p, pr_run_id = run, pr_dwell_id = dwell,
                 pr_seq = sq, pr_count = cnt, pr_wire_len = of_nat len\<rparr>)) })"

definition checked_calib_tally :: "ptr \<Rightarrow> nat \<Rightarrow> decoded option" where
  "checked_calib_tally buf len = checked_len len kCalibTallySize (do {
     p \<leftarrow> checked_prefix buf len;
     run \<leftarrow> rd32 buf len 12;
     dwell \<leftarrow> rd16 buf len 16;
     received \<leftarrow> rd16 buf len 18;
     rssi \<leftarrow> rd32 buf len 20;
     mcs \<leftarrow> rd8 buf len 24;
     finger \<leftarrow> rd8 buf len 25;
     Some (if dwell = 0 \<or> destination p = 0 then Inl kInvalidField
       else Inr (PCalibTally \<lparr>ta_prefix = p, ta_run_id = run, ta_dwell_id = dwell,
              ta_received = received, ta_rssi_sum_dbm = rssi, ta_rx_mcs = mcs,
              ta_adapter_fingerprint = finger\<rparr>)) })"

definition checked_link_verdict :: "ptr \<Rightarrow> nat \<Rightarrow> decoded option" where
  "checked_link_verdict buf len = checked_len len kLinkVerdictSize (do {
     p \<leftarrow> checked_prefix buf len;
     target \<leftarrow> rd16 buf len 12;
     session \<leftarrow> rd32 buf len 14;
     epoch \<leftarrow> rd32 buf len 18;
     verdict \<leftarrow> rd8 buf len 22;
     Some (if link_verdict_kMax < verdict \<or> destination p = 0 then Inl kInvalidField
       else Inr (PLinkVerdict \<lparr>lv_prefix = p, lv_target_originator = target,
              lv_target_session = session, lv_report_epoch = epoch, lv_verdict = verdict\<rparr>)) })"

definition checked_extended :: "ptr \<Rightarrow> nat \<Rightarrow> decoded option" where
  "checked_extended buf len =
     (if len < kCommonPrefixSize + 1 then Some (Inl kTruncated)
      else do {
        ext_id \<leftarrow> rd8 buf len 11;
        if ext_id = ext_kReservedInvalid then Some (Inl kInvalidField)
        else if ext_id = ext_kCalProbe then checked_calib_probe buf len
        else if ext_id = ext_kCalTally then checked_calib_tally buf len
        else if ext_id = ext_kLinkVerdict then checked_link_verdict buf len
        else do { p \<leftarrow> checked_prefix buf len; Some (Inr (PExtUnknown p ext_id)) } })"

definition checked_vehicle_cmd :: "ptr \<Rightarrow> nat \<Rightarrow> decoded option" where
  "checked_vehicle_cmd buf len = checked_len len kVehicleCmdSize (do {
     flags \<leftarrow> rd8 buf len 16;
     if unknown_bits flags vcmd_known_mask then Some (Inl kInvalidField)
     else do {
       p \<leftarrow> checked_prefix buf len;
       nonce \<leftarrow> rd32 buf len 11;
       sq \<leftarrow> rd8 buf len 15;
       cid \<leftarrow> rd8 buf len 17;
       arg \<leftarrow> rd8 buf len 18;
       mac \<leftarrow> rd32 buf len 19;
       Some (if \<not> vcmd_arg_in_wire_range cid arg then Inl kInvalidField
         else Inr (PVehicleCmd \<lparr>vc_prefix = p, cmd_nonce = nonce, cmd_seq = sq,
                cmd_flags = flags, cmd_id = cid, cmd_arg = arg, cmd_mac = mac\<rparr>)) } })"

definition checked_decode :: "ptr option \<Rightarrow> nat \<Rightarrow> decoded option" where
  "checked_decode buf_opt len =
     (case buf_opt of
        None \<Rightarrow> Some (Inl kTooShort)
      | Some buf \<Rightarrow>
          if len < 2 then Some (Inl kTooShort)
          else do {
            magic \<leftarrow> rd16 buf len 0;
            if magic \<noteq> kMagic then Some (Inl kBadMagic)
            else if len < kCommonPrefixSize then Some (Inl kTooShort)
            else do {
              b2 \<leftarrow> rd8 buf len 2;
              if drop_bit 4 b2 \<noteq> kProtocolVersion then Some (Inl kBadVersion)
              else let ty = b2 AND 0x0F
              in if ty = 0x1 then checked_data buf len
              else if ty = 0x2 then checked_reserved_nack buf len
              else if ty = 0x3 then checked_link_report buf len
              else if ty = 0x4 then checked_heartbeat buf len
              else if ty = 0x5 then checked_csa buf len
              else if ty = 0x6 then checked_recovery_request buf len
              else if ty = 0x7 then checked_jscc_feedback buf len
              else if ty = 0x8 then checked_cache_status buf len
              else if ty = 0x9 then checked_cache_request buf len
              else if ty = 0xA then checked_cache_reply buf len
              else if ty = 0xB then checked_announce buf len
              else if ty = 0xC then checked_cache_assign buf len
              else if ty = 0xF then checked_extended buf len
              else if ty = 0xD then checked_vehicle_cmd buf len
              else if ty = 0xE then checked_selector_state buf len
              else Some (Inl kUnknownType) } })"

section \<open>No decoder faults\<close>

lemma checked_prefix_ok: "11 \<le> len \<Longrightarrow> checked_prefix buf len = Some (decode_prefix buf)"
  by (simp add: checked_prefix_def checked_reads decode_prefix_def)

lemma checked_len_ok: "(len = n \<Longrightarrow> r = Some r') \<Longrightarrow> checked_len len n r = Some (exact_len len n r')"
  by (simp add: checked_len_def exact_len_def)

lemmas checked_machine = checked_reads checked_prefix_ok Let_def

lemma checked_data_ok: "checked_data buf len = Some (decode_data buf len)"
  by (simp add: checked_data_def decode_data_def checked_machine)

lemma checked_reserved_nack_ok:
  "11 \<le> len \<Longrightarrow> checked_reserved_nack buf len = Some (decode_reserved_nack buf len)"
  by (simp add: checked_reserved_nack_def decode_reserved_nack_def checked_prefix_ok)

lemma checked_link_report_ok: "checked_link_report buf len = Some (decode_link_report buf len)"
  by (simp add: checked_link_report_def decode_link_report_def checked_machine)

lemma checked_heartbeat_ok: "checked_heartbeat buf len = Some (decode_heartbeat buf len)"
  by (simp add: checked_heartbeat_def decode_heartbeat_def checked_machine)

lemma checked_selector_state_ok:
  "checked_selector_state buf len = Some (decode_selector_state buf len)"
  by (simp add: checked_selector_state_def decode_selector_state_def checked_machine)

lemma checked_csa_ok: "checked_csa buf len = Some (decode_csa buf len)"
  by (simp add: checked_csa_def decode_csa_def checked_machine)

lemma checked_recovery_request_ok:
  "checked_recovery_request buf len = Some (decode_recovery_request buf len)"
  unfolding checked_recovery_request_def decode_recovery_request_def
  by (rule checked_len_ok) (simp add: checked_machine)

lemma checked_jscc_feedback_ok:
  "checked_jscc_feedback buf len = Some (decode_jscc_feedback buf len)"
  unfolding checked_jscc_feedback_def decode_jscc_feedback_def
  by (rule checked_len_ok) (simp add: checked_machine)

lemma checked_cache_status_ok: "checked_cache_status buf len = Some (decode_cache_status buf len)"
  unfolding checked_cache_status_def decode_cache_status_def
  by (rule checked_len_ok) (simp add: checked_machine)

lemma checked_cache_request_ok:
  "checked_cache_request buf len = Some (decode_cache_request buf len)"
  by (simp add: checked_cache_request_def decode_cache_request_def checked_machine)

lemma checked_cache_reply_ok: "checked_cache_reply buf len = Some (decode_cache_reply buf len)"
  by (simp add: checked_cache_reply_def decode_cache_reply_def checked_machine)

lemma checked_announce_ok: "checked_announce buf len = Some (decode_announce buf len)"
  unfolding checked_announce_def decode_announce_def
  by (rule checked_len_ok) (simp add: checked_machine)

lemma checked_cache_assign_ok: "checked_cache_assign buf len = Some (decode_cache_assign buf len)"
  unfolding checked_cache_assign_def decode_cache_assign_def
  by (rule checked_len_ok) (simp add: checked_machine)

lemma checked_calib_probe_ok: "checked_calib_probe buf len = Some (decode_calib_probe buf len)"
  by (simp add: checked_calib_probe_def decode_calib_probe_def checked_machine)

lemma checked_calib_tally_ok: "checked_calib_tally buf len = Some (decode_calib_tally buf len)"
  unfolding checked_calib_tally_def decode_calib_tally_def
  by (rule checked_len_ok) (simp add: checked_machine)

lemma checked_link_verdict_ok: "checked_link_verdict buf len = Some (decode_link_verdict buf len)"
  unfolding checked_link_verdict_def decode_link_verdict_def
  by (rule checked_len_ok) (simp add: checked_machine)

lemma checked_vehicle_cmd_ok: "checked_vehicle_cmd buf len = Some (decode_vehicle_cmd buf len)"
  unfolding checked_vehicle_cmd_def decode_vehicle_cmd_def
  by (rule checked_len_ok) (simp add: checked_machine)

lemma checked_extended_ok: "checked_extended buf len = Some (decode_extended buf len)"
  by (simp add: checked_extended_def decode_extended_def checked_machine checked_calib_probe_ok
      checked_calib_tally_ok checked_link_verdict_ok)

lemmas checked_decoders_ok = checked_data_ok checked_reserved_nack_ok checked_link_report_ok
  checked_heartbeat_ok checked_selector_state_ok checked_csa_ok checked_recovery_request_ok
  checked_jscc_feedback_ok checked_cache_status_ok checked_cache_request_ok checked_cache_reply_ok
  checked_announce_ok checked_cache_assign_ok checked_vehicle_cmd_ok checked_extended_ok

text \<open>C12: decode never reads outside the buffer: on a machine that checks every read, and every view
  or copied slice, against the length and faults outside it, decoding any bytes of any length
  (and a null pointer) never faults, and yields what the decoder of Wire yields.\<close>

theorem decode_never_faults: "checked_decode buf len = Some (decode buf len)"
proof (cases buf)
  case (Some m)
  have "padd m 0 = m" by (simp add: padd_def)
  then show ?thesis
    by (simp add: Some checked_decode_def decode_def checked_reads checked_decoders_ok Let_def)
qed (simp add: checked_decode_def decode_def)

end
