(* ===== verification/Hmac_Sha256.thy ===== *)
theory Hmac_Sha256
  imports Endian
begin

text \<open>
  core/include/wblink/hmac_sha256.h: the incremental SHA-256 of class \<open>Sha256\<close>, HMAC over it
  and the two truncated tags. The object's \<open>buf_[0 .. buf_used_)\<close> is the list \<open>sh_buf\<close>, so
  \<open>buf_used_\<close> is its length.
\<close>

section \<open>The hash object\<close>

abbreviation kBlockLen :: nat where "kBlockLen \<equiv> 64"
abbreviation kDigestLen :: nat where "kDigestLen \<equiv> 32"

record Sha256 =
  sh_h :: "u32 list"
  sh_len :: u64
  sh_buf :: bytes

definition sha_kInit :: "u32 list" where
  "sha_kInit = [0x6a09e667, 0xbb67ae85, 0x3c6ef372, 0xa54ff53a,
                0x510e527f, 0x9b05688c, 0x1f83d9ab, 0x5be0cd19]"

definition sha_reset :: Sha256 where
  "sha_reset = \<lparr>sh_h = sha_kInit, sh_len = 0, sh_buf = []\<rparr>"

definition rotr :: "u32 \<Rightarrow> nat \<Rightarrow> u32" where
  "rotr x r = drop_bit r x OR push_bit (32 - r) x"

text \<open>The constants, in the rows of the source.\<close>

definition sha_kK :: "u32 list" where
  "sha_kK = concat [
     [0x428a2f98, 0x71374491, 0xb5c0fbcf, 0xe9b5dba5, 0x3956c25b],
     [0x59f111f1, 0x923f82a4, 0xab1c5ed5, 0xd807aa98, 0x12835b01],
     [0x243185be, 0x550c7dc3, 0x72be5d74, 0x80deb1fe, 0x9bdc06a7],
     [0xc19bf174, 0xe49b69c1, 0xefbe4786, 0x0fc19dc6, 0x240ca1cc],
     [0x2de92c6f, 0x4a7484aa, 0x5cb0a9dc, 0x76f988da, 0x983e5152],
     [0xa831c66d, 0xb00327c8, 0xbf597fc7, 0xc6e00bf3, 0xd5a79147],
     [0x06ca6351, 0x14292967, 0x27b70a85, 0x2e1b2138, 0x4d2c6dfc],
     [0x53380d13, 0x650a7354, 0x766a0abb, 0x81c2c92e, 0x92722c85],
     [0xa2bfe8a1, 0xa81a664b, 0xc24b8b70, 0xc76c51a3, 0xd192e819],
     [0xd6990624, 0xf40e3585, 0x106aa070, 0x19a4c116, 0x1e376c08],
     [0x2748774c, 0x34b0bcb5, 0x391c0cb3, 0x4ed8aa4a, 0x5b9cca4f],
     [0x682e6ff3, 0x748f82ee, 0x78a5636f, 0x84c87814, 0x8cc70208],
     [0x90befffa, 0xa4506ceb, 0xbef9a3f7, 0xc67178f2]]"

definition sha_load :: "bytes \<Rightarrow> u32 list" where
  "sha_load p = map (\<lambda>i. (push_bit 24 (ucast (p ! (4 * i)))) OR (push_bit 16 (ucast (p ! (4 * i + 1))))
      OR (push_bit 8 (ucast (p ! (4 * i + 2)))) OR ucast (p ! (4 * i + 3))) [0..<16]"

definition sha_extend :: "nat \<Rightarrow> u32 list \<Rightarrow> u32 list" where
  "sha_extend i w =
     (let s0 = rotr (w ! (i - 15)) 7 XOR rotr (w ! (i - 15)) 18 XOR drop_bit 3 (w ! (i - 15));
          s1 = rotr (w ! (i - 2)) 17 XOR rotr (w ! (i - 2)) 19 XOR drop_bit 10 (w ! (i - 2))
      in w @ [w ! (i - 16) + s0 + w ! (i - 7) + s1])"

fun sha_round :: "u32 \<times> u32 \<Rightarrow> u32 list \<Rightarrow> u32 list" where
  "sha_round (k, w) [a, b, c, d, e, f, g, h] =
     (let s1 = rotr e 6 XOR rotr e 11 XOR rotr e 25;
          ch = (e AND f) XOR (NOT e AND g);
          t1 = h + s1 + ch + k + w;
          s0 = rotr a 2 XOR rotr a 13 XOR rotr a 22;
          maj = (a AND b) XOR (a AND c) XOR (b AND c);
          t2 = s0 + maj
      in [t1 + t2, a, b, c, d + t1, e, f, g])"
| "sha_round kw hs = hs"

definition sha_compress :: "u32 list \<Rightarrow> bytes \<Rightarrow> u32 list" where
  "sha_compress h p =
     (let w = fold sha_extend [16..<64] (sha_load p)
      in map2 (+) h (fold sha_round (zip sha_kK w) h))"

text \<open>The loop \<open>while (n >= kBlockLen)\<close> of \<open>update\<close>: the new chaining value and the bytes left.\<close>

function sha_blocks :: "u32 list \<Rightarrow> bytes \<Rightarrow> u32 list \<times> bytes" where
  "sha_blocks h p =
     (if kBlockLen \<le> length p then sha_blocks (sha_compress h (take kBlockLen p)) (drop kBlockLen p)
      else (h, p))"
  by pat_completeness auto
termination
  by (relation "measure (length \<circ> snd)") auto

declare sha_blocks.simps [simp del]

definition sha_update :: "Sha256 \<Rightarrow> bytes \<Rightarrow> Sha256" where
  "sha_update s p =
     (let s1 = s\<lparr>sh_len := sh_len s + of_nat (length p)\<rparr>;
          (s2, p2) =
            (if sh_buf s1 \<noteq> []
             then let n_take = min (length p) (kBlockLen - length (sh_buf s1));
                      buf = sh_buf s1 @ take n_take p;
                      rest = drop n_take p
                  in if length buf = kBlockLen
                     then (s1\<lparr>sh_h := sha_compress (sh_h s1) buf, sh_buf := []\<rparr>, rest)
                     else (s1\<lparr>sh_buf := buf\<rparr>, rest)
             else (s1, p));
          (h, p3) = sha_blocks (sh_h s2) p2;
          s3 = s2\<lparr>sh_h := h\<rparr>
      in if p3 \<noteq> [] then s3\<lparr>sh_buf := p3\<rparr> else s3)"

text \<open>The padding loop \<open>while (buf_used_ != 56)\<close>; 64 rounds are always enough
  (\<open>sha_pad_56\<close> below).\<close>

fun sha_pad :: "nat \<Rightarrow> Sha256 \<Rightarrow> Sha256" where
  "sha_pad 0 s = s"
| "sha_pad (Suc fuel) s = (if length (sh_buf s) = 56 then s else sha_pad fuel (sha_update s [0]))"

definition sha_len_bytes :: "u64 \<Rightarrow> bytes" where
  "sha_len_bytes bits = map (\<lambda>i. ucast (drop_bit (56 - 8 * i) bits)) [0..<8]"

definition sha_out :: "u32 list \<Rightarrow> bytes" where
  "sha_out h = concat (map (\<lambda>x. [ucast (drop_bit 24 x), ucast (drop_bit 16 x),
                                 ucast (drop_bit 8 x), ucast x]) h)"

definition sha_final :: "Sha256 \<Rightarrow> bytes" where
  "sha_final s =
     (let bits = sh_len s * 8;
          s1 = sha_pad 64 (sha_update s [0x80]);
          s2 = sha_update s1 (sha_len_bytes bits)
      in sha_out (sh_h s2))"

definition sha_digest :: "bytes \<Rightarrow> bytes" where
  "sha_digest p = sha_final (sha_update sha_reset p)"

section \<open>HMAC and the truncated tags\<close>

definition hmac_key_block :: "bytes \<Rightarrow> bytes" where
  "hmac_key_block key =
     (if kBlockLen < length key then sha_digest key @ replicate (kBlockLen - kDigestLen) 0
      else key @ replicate (kBlockLen - length key) 0)"

definition hmac_sha256 :: "bytes \<Rightarrow> bytes \<Rightarrow> bytes" where
  "hmac_sha256 key msg =
     (let k = hmac_key_block key;
          inner = sha_update (sha_update sha_reset (map (\<lambda>b. b XOR 0x36) k)) msg;
          outer = sha_update (sha_update sha_reset (map (\<lambda>b. b XOR 0x5c) k)) (sha_final inner)
      in sha_final outer)"

definition tag32 :: "bytes \<Rightarrow> u32" where
  "tag32 tag = (push_bit 24 (ucast (tag ! 0))) OR (push_bit 16 (ucast (tag ! 1)))
               OR (push_bit 8 (ucast (tag ! 2))) OR ucast (tag ! 3)"

definition csa_mac :: "bytes \<Rightarrow> bytes \<Rightarrow> u32" where
  "csa_mac psk csa_bytes28 = tag32 (hmac_sha256 psk (take 28 csa_bytes28))"

definition vcmd_mac :: "bytes \<Rightarrow> bytes \<Rightarrow> u32" where
  "vcmd_mac psk cmd_bytes19 = tag32 (hmac_sha256 psk (take 19 cmd_bytes19))"

section \<open>The incremental hash computes SHA-256 of the whole message\<close>

text \<open>The one-shot definition of FIPS 180-4: pad the message to whole blocks, then fold the
  compression function over them.\<close>

definition sha_padded :: "bytes \<Rightarrow> bytes" where
  "sha_padded m = m @ [0x80] @ replicate ((119 - length m mod 64) mod 64) 0
                  @ sha_len_bytes (of_nat (8 * length m))"

definition sha256_spec :: "bytes \<Rightarrow> bytes" where
  "sha256_spec m = sha_out (fst (sha_blocks sha_kInit (sha_padded m)))"

text \<open>What a hash object stands for: the message absorbed so far.\<close>

definition absorbed :: "Sha256 \<Rightarrow> bytes \<Rightarrow> bool" where
  "absorbed s m \<longleftrightarrow> sh_len s = of_nat (length m) \<and> sha_blocks sha_kInit m = (sh_h s, sh_buf s)"

lemma sha_blocks_short: "length p < kBlockLen \<Longrightarrow> sha_blocks h p = (h, p)"
  by (simp add: sha_blocks.simps)

lemma sha_blocks_step:
  "length b = kBlockLen \<Longrightarrow> sha_blocks h (b @ p) = sha_blocks (sha_compress h b) p"
  by (simp add: sha_blocks.simps [of h "b @ p"])

lemma length_snd_sha_blocks: "length (snd (sha_blocks h p)) = length p mod kBlockLen"
proof (induction h p rule: sha_blocks.induct)
  case (1 h p)
  show ?case
  proof (cases "kBlockLen \<le> length p")
    case True
    then show ?thesis
      using 1 by (simp add: sha_blocks.simps [of h p] le_mod_geq)
  qed (simp add: sha_blocks.simps)
qed

lemma sha_blocks_append:
  "sha_blocks h (m @ p) = (let (h', r) = sha_blocks h m in sha_blocks h' (r @ p))"
proof (induction h m rule: sha_blocks.induct)
  case (1 h m)
  show ?case
  proof (cases "kBlockLen \<le> length m")
    case True
    then show ?thesis
      using 1 by (simp add: sha_blocks.simps [of h m] sha_blocks.simps [of h "m @ p"])
  qed (simp add: sha_blocks_short)
qed

lemma absorbed_reset: "absorbed sha_reset []"
  by (simp add: absorbed_def sha_reset_def sha_blocks_short)

lemma absorbed_buf: "absorbed s m \<Longrightarrow> length (sh_buf s) = length m mod kBlockLen"
  using length_snd_sha_blocks [of sha_kInit m] by (simp add: absorbed_def)

lemma sha_update_blocks:
  assumes "length (sh_buf s) < kBlockLen"
  shows "(sh_h (sha_update s p), sh_buf (sha_update s p)) = sha_blocks (sh_h s) (sh_buf s @ p)
         \<and> sh_len (sha_update s p) = sh_len s + of_nat (length p)"
proof (cases "sh_buf s = []")
  case True
  then show ?thesis
    by (auto simp: sha_update_def Let_def split: prod.splits)
next
  case buf: False
  show ?thesis
  proof (cases "length (sh_buf s) + length p < kBlockLen")
    case True
    then show ?thesis
      using buf by (simp add: sha_update_def Let_def sha_blocks_short)
  next
    case False
    define t where "t = kBlockLen - length (sh_buf s)"
    have t: "min (length p) t = t" "length (sh_buf s @ take t p) = kBlockLen"
      using False assms by (auto simp: t_def)
    have "sha_blocks (sh_h s) (sh_buf s @ p)
          = sha_blocks (sha_compress (sh_h s) (sh_buf s @ take t p)) (drop t p)"
      using sha_blocks_step [OF t(2), of "sh_h s" "drop t p"] by simp
    then show ?thesis
      using buf t by (auto simp: sha_update_def Let_def t_def [symmetric] split: prod.splits)
  qed
qed

lemma absorbed_update: "absorbed s m \<Longrightarrow> absorbed (sha_update s p) (m @ p)"
  using sha_update_blocks [of s p] absorbed_buf [of s m] sha_blocks_append [of sha_kInit m p]
  by (simp add: absorbed_def)

lemma mod_64_56_unique:
  fixes n z :: nat
  assumes "(n + z) mod 64 = 56" and "z < 64" and "n mod 64 = 56"
  shows "z = 0"
proof -
  have e: "(56 + z) mod 64 = 56"
    using mod_add_left_eq [of n 64 z] unfolding assms by simp
  show ?thesis
  proof (cases "z < 8")
    case True
    then show ?thesis
      using e by simp
  next
    case False
    then have "(56 + z) mod 64 = z - 8"
      using assms(2) by (simp add: le_mod_geq)
    then show ?thesis
      using e assms(2) by simp
  qed
qed

lemma absorbed_pad:
  assumes "absorbed s m" and "(length m + z) mod 64 = 56" and "z < 64" and "z \<le> fuel"
  shows "absorbed (sha_pad fuel s) (m @ replicate z 0)"
  using assms
proof (induction fuel arbitrary: s m z)
  case (Suc fuel)
  show ?case
  proof (cases z)
    case 0
    then show ?thesis
      using Suc.prems absorbed_buf [of s m] by simp
  next
    case z: (Suc z')
    have "length m mod 64 \<noteq> 56"
      using mod_64_56_unique [OF Suc.prems(2,3)] z by blast
    then have "sha_pad (Suc fuel) s = sha_pad fuel (sha_update s [0])"
      using absorbed_buf [OF Suc.prems(1)] by simp
    then show ?thesis
      using Suc.IH [OF absorbed_update [OF Suc.prems(1)], of "[0]" z'] Suc.prems z
      by simp
  qed
qed simp

lemma pad_count:
  fixes n :: nat
  shows "(n + 1 + (119 - n mod 64) mod 64) mod 64 = 56"
proof -
  define q r where "q = n div 64" and "r = n mod 64"
  have n: "n = 64 * q + r" "r < 64"
    by (simp_all add: q_def r_def)
  show ?thesis
  proof (cases "r \<le> 55")
    case True
    then have "(119 - r) mod 64 = 55 - r"
      by (simp add: le_mod_geq)
    then have "n + 1 + (119 - n mod 64) mod 64 = 64 * q + 56"
      using True n by (simp add: r_def [symmetric])
    then show ?thesis
      by simp
  next
    case False
    then have "n + 1 + (119 - n mod 64) mod 64 = 64 * (q + 1) + 56"
      using n by (simp add: r_def [symmetric])
    then show ?thesis
      by (simp only: mod_mult_self4) simp
  qed
qed

lemma sha_final_absorbed:
  assumes "absorbed s m"
  shows "sha_final s = sha256_spec m"
proof -
  define z where "z = (119 - length m mod 64) mod 64"
  have "absorbed (sha_pad 64 (sha_update s [0x80])) ((m @ [0x80]) @ replicate z 0)"
    using pad_count [of "length m"]
    by (intro absorbed_pad absorbed_update assms) (simp_all add: z_def)
  then have "absorbed (sha_update (sha_pad 64 (sha_update s [0x80])) (sha_len_bytes (sh_len s * 8)))
               (((m @ [0x80]) @ replicate z 0) @ sha_len_bytes (sh_len s * 8))"
    by (rule absorbed_update)
  moreover have "sh_len s * 8 = of_nat (8 * length m)"
    using assms by (simp add: absorbed_def)
  ultimately have "fst (sha_blocks sha_kInit (sha_padded m))
      = sh_h (sha_update (sha_pad 64 (sha_update s [0x80])) (sha_len_bytes (sh_len s * 8)))"
    by (simp add: absorbed_def sha_padded_def z_def)
  then show ?thesis
    by (simp add: sha_final_def sha256_spec_def Let_def)
qed

lemma absorbed_updates: "absorbed s m \<Longrightarrow> absorbed (fold (\<lambda>p st. sha_update st p) ps s) (m @ concat ps)"
proof (induction ps arbitrary: s m)
  case (Cons p ps)
  then show ?case
    using Cons.IH [OF absorbed_update [OF Cons.prems, of p]] by simp
qed simp

text \<open>The padding loop stops because the buffer reaches 56 bytes, not because the fuel ends.\<close>

lemma sha_pad_56:
  assumes "absorbed s m"
  shows "length (sh_buf (sha_pad 64 (sha_update s [0x80]))) = 56"
proof -
  define z where "z = (119 - length m mod 64) mod 64"
  have "absorbed (sha_pad 64 (sha_update s [0x80])) ((m @ [0x80]) @ replicate z 0)"
    using pad_count [of "length m"]
    by (intro absorbed_pad absorbed_update assms) (simp_all add: z_def)
  from absorbed_buf [OF this] show ?thesis
    using pad_count [of "length m"] by (simp add: z_def)
qed

lemma length_sha_compress: "length h = 8 \<Longrightarrow> length (sha_compress h p) = 8"
proof -
  have "length (sha_round kw h) = length h" for kw h
    by (induction kw h rule: sha_round.induct) (simp_all add: Let_def)
  then have "length (fold sha_round ks h) = length h" for ks h
    by (induction ks arbitrary: h) simp_all
  then show "length h = 8 \<Longrightarrow> length (sha_compress h p) = 8"
    by (simp add: sha_compress_def Let_def)
qed

lemma length_fst_sha_blocks: "length h = 8 \<Longrightarrow> length (fst (sha_blocks h p)) = 8"
proof (induction h p rule: sha_blocks.induct)
  case (1 h p)
  then show ?case
    by (simp add: sha_blocks.simps [of h p] length_sha_compress)
qed

lemma length_sha_out: "length (sha_out h) = 4 * length h"
  by (induction h) (simp_all add: sha_out_def)

lemma length_sha256_spec: "length (sha256_spec m) = kDigestLen"
  using length_fst_sha_blocks [of sha_kInit]
  by (simp add: sha256_spec_def length_sha_out sha_kInit_def)

text \<open>C39: Feeding a message to Sha256::update in any pieces and calling final gives the SHA-256 of
  the whole message: the padded message folded through the compression function block by block.\<close>

theorem sha256_streaming:
  "sha_final (fold (\<lambda>p st. sha_update st p) chunks sha_reset) = sha256_spec (concat chunks)"
  using sha_final_absorbed [OF absorbed_updates [OF absorbed_reset, of chunks]] by simp

text \<open>C40: hmac_sha256 is the RFC 2104 construction over SHA-256 for keys of every length: a key
  longer than a block is hashed, a shorter one padded with zeros.\<close>

theorem hmac_sha256_rfc2104:
  "hmac_sha256 key msg =
     (let k0 = (if 64 < length key then sha256_spec key else key);
          k = k0 @ replicate (64 - length k0) 0
      in sha256_spec (map (\<lambda>b. b XOR 0x5c) k @ sha256_spec (map (\<lambda>b. b XOR 0x36) k @ msg)))"
proof -
  have ab: "sha_final (sha_update (sha_update sha_reset a) b) = sha256_spec (a @ b)" for a b
    using sha_final_absorbed [OF absorbed_update [OF absorbed_update [OF absorbed_reset]], of a b]
    by simp
  have dig: "sha_digest a = sha256_spec a" for a
    using sha_final_absorbed [OF absorbed_update [OF absorbed_reset], of a]
    by (simp add: sha_digest_def)
  show ?thesis
    by (simp add: hmac_sha256_def hmac_key_block_def ab dig Let_def length_sha256_spec)
qed

end
