(* ===== verification/Csa.thy ===== *)
theory Csa
  imports Wire_Props Hmac_Sha256
begin

text \<open>
  core/include/wblink/csa.h and core/src/csa.cpp: the follower and the issuer of a channel
  switch campaign. Times are the caller's 64-bit microsecond clock; a method takes the object
  and returns its result and the updated object.
\<close>

section \<open>Parameters and helpers\<close>

record CsaParams =
  psk :: bytes
  allow_unauthenticated :: bool
  settle_ms :: u32
  verify_timeout_ms :: u32
  min_interval_ms :: u32
  ack_timeout_ms :: u32
  bind_release_ms :: u32
  allowlist :: "u16 list"

datatype CsaActionKind = kNone | kRetune | kRevert

record CsaAction =
  act_kind :: CsaActionKind
  act_chan_mhz :: u16
  act_bw :: u8
  act_fast :: bool
  act_power_intent :: u8

definition no_action :: CsaAction where
  "no_action = \<lparr>act_kind = kNone, act_chan_mhz = 0, act_bw = 0, act_fast = False,
     act_power_intent = 0\<rparr>"

definition empty_prefix :: common_prefix where
  "empty_prefix = \<lparr>originator = 0, destination = 0, session_id = 0\<rparr>"

definition empty_csa :: csa_packet where
  "empty_csa = \<lparr>csa_prefix = empty_prefix, csa_nonce = 0, csa_seq = 0, target_chan = 0,
     target_bw = 0, retune_class = 0, dt_to_switch_ms = 0, t_revert_ms = 0, prev_chan = 0,
     prev_bw = 0, power_intent = 0, csa_mac_field = 0\<rparr>"

definition mac_of :: "csa_packet \<Rightarrow> bytes \<Rightarrow> u32 option" where
  "mac_of pkt key =
     (case encode_csa pkt (Some 32) of
        None \<Rightarrow> None
      | Some buf \<Rightarrow> if length buf \<noteq> 32 then None else Some (csa_mac key buf))"

fun allowed :: "u16 list \<Rightarrow> u16 \<Rightarrow> bool" where
  "allowed [] chan = False"
| "allowed (c # cs) chan = (if c = chan then True else allowed cs chan)"

text \<open>A millisecond field as microseconds: \<open>static_cast<uint64_t>(ms) * 1000\<close>.\<close>

definition ms_us :: "u32 \<Rightarrow> u64" where
  "ms_us ms = ucast ms * 1000"

section \<open>The follower\<close>

datatype FollowerState = F_kIdle | F_kArmed | F_kVerify | F_kCommitted

record Refusals =
  rf_no_key :: u32
  rf_bad_mac :: u32
  rf_issuer_lock :: u32
  rf_nonce_replay :: u32
  rf_not_allowlisted :: u32
  rf_rate_limited :: u32
  rf_beacon :: u32
  rf_accepted :: u32

type_synonym nonce_key = "u16 \<times> u32"

record CsaFollower =
  fw_policy :: CsaParams
  fw_state :: FollowerState
  fw_latched :: "u16 option"
  fw_refusals :: Refusals
  fw_unauth_rejected :: u64
  fw_last_applied :: "nonce_key \<rightharpoonup> u32"
  fw_last_accept_us :: u64
  fw_campaign :: csa_packet
  fw_switch_at_us :: u64
  fw_verify_deadline_us :: u64
  fw_freeze_until_us :: u64
  fw_last_bound_rx_us :: u64

definition new_follower :: "CsaParams \<Rightarrow> CsaFollower" where
  "new_follower policy = \<lparr>fw_policy = policy, fw_state = F_kIdle, fw_latched = None,
     fw_refusals = \<lparr>rf_no_key = 0, rf_bad_mac = 0, rf_issuer_lock = 0, rf_nonce_replay = 0,
       rf_not_allowlisted = 0, rf_rate_limited = 0, rf_beacon = 0, rf_accepted = 0\<rparr>,
     fw_unauth_rejected = 0, fw_last_applied = Map.empty, fw_last_accept_us = 0,
     fw_campaign = empty_csa, fw_switch_at_us = 0, fw_verify_deadline_us = 0,
     fw_freeze_until_us = 0, fw_last_bound_rx_us = 0\<rparr>"

text \<open>The elapsed time since the copy left the air, from the adapter's 32-bit timer.\<close>

definition csa_elapsed :: "u64 option \<Rightarrow> u32 \<Rightarrow> u64 \<Rightarrow> u64" where
  "csa_elapsed tsf_now rx_tsfl dt_us =
     (case tsf_now of
        None \<Rightarrow> 0
      | Some t \<Rightarrow> let e = ucast (ucast t - rx_tsfl :: u32) in if dt_us < e then 0 else e)"

definition on_csa ::
    "CsaFollower \<Rightarrow> csa_packet \<Rightarrow> u64 \<Rightarrow> u64 option \<Rightarrow> u32 \<Rightarrow> u16 option \<Rightarrow> bool \<times> CsaFollower" where
  "on_csa f pkt now_us tsf_now_us rx_tsfl_us latched_issuer =
     (let pol = fw_policy f; rf = fw_refusals f in
      if psk pol = [] \<and> \<not> allow_unauthenticated pol
      then (False, f\<lparr>fw_unauth_rejected := fw_unauth_rejected f + 1,
                     fw_refusals := rf\<lparr>rf_no_key := rf_no_key rf + 1\<rparr>\<rparr>)
      else if psk pol \<noteq> [] \<and> mac_of pkt (psk pol) \<noteq> Some (csa_mac_field pkt)
      then (False, f\<lparr>fw_refusals := rf\<lparr>rf_bad_mac := rf_bad_mac rf + 1\<rparr>\<rparr>)
      else let lock = (if latched_issuer \<noteq> None then latched_issuer else fw_latched f) in
      if lock \<noteq> None \<and> lock \<noteq> Some (originator (csa_prefix pkt))
      then (False, f\<lparr>fw_refusals := rf\<lparr>rf_issuer_lock := rf_issuer_lock rf + 1\<rparr>\<rparr>)
      else if dt_to_switch_ms pkt = 0
      then let f1 = f\<lparr>fw_refusals := rf\<lparr>rf_beacon := rf_beacon rf + 1\<rparr>\<rparr>
           in (False,
               if fw_state f = F_kVerify
                  \<and> originator (csa_prefix pkt) = originator (csa_prefix (fw_campaign f))
                  \<and> session_id (csa_prefix pkt) = session_id (csa_prefix (fw_campaign f))
                  \<and> csa_nonce pkt = csa_nonce (fw_campaign f)
               then f1\<lparr>fw_state := F_kCommitted, fw_last_bound_rx_us := now_us\<rparr> else f1)
      else let key = (originator (csa_prefix pkt), session_id (csa_prefix pkt)) in
      if (case fw_last_applied f key of None \<Rightarrow> False | Some n \<Rightarrow> csa_nonce pkt \<le> n)
      then (False, f\<lparr>fw_refusals := rf\<lparr>rf_nonce_replay := rf_nonce_replay rf + 1\<rparr>\<rparr>)
      else if \<not> allowed (allowlist pol) (target_chan pkt)
      then (False, f\<lparr>fw_refusals := rf\<lparr>rf_not_allowlisted := rf_not_allowlisted rf + 1\<rparr>\<rparr>)
      else if fw_last_accept_us f \<noteq> 0
              \<and> now_us - fw_last_accept_us f < ms_us (min_interval_ms pol)
      then (False, f\<lparr>fw_refusals := rf\<lparr>rf_rate_limited := rf_rate_limited rf + 1\<rparr>\<rparr>)
      else let dt_us = ucast (dt_to_switch_ms pkt) * 1000;
               elapsed = csa_elapsed tsf_now_us rx_tsfl_us dt_us
      in (True, f\<lparr>fw_refusals := rf\<lparr>rf_accepted := rf_accepted rf + 1\<rparr>,
             fw_last_applied := (fw_last_applied f)(key \<mapsto> csa_nonce pkt),
             fw_last_accept_us := now_us,
             fw_latched := Some (originator (csa_prefix pkt)),
             fw_last_bound_rx_us := now_us,
             fw_campaign := pkt,
             fw_switch_at_us := now_us + (if elapsed < dt_us then dt_us - elapsed else 0),
             fw_freeze_until_us := now_us + ms_us (settle_ms pol),
             fw_state := F_kArmed\<rparr>))"

definition note_valid_rx :: "CsaFollower \<Rightarrow> u64 \<Rightarrow> u16 \<Rightarrow> CsaFollower" where
  "note_valid_rx f now_us from_originator =
     (let f1 = (if fw_state f = F_kVerify then f\<lparr>fw_state := F_kCommitted\<rparr> else f)
      in if fw_latched f1 = Some from_originator then f1\<lparr>fw_last_bound_rx_us := now_us\<rparr> else f1)"

definition verify_window :: "CsaFollower \<Rightarrow> u32" where
  "verify_window f =
     min (if t_revert_ms (fw_campaign f) \<noteq> 0 then ucast (t_revert_ms (fw_campaign f))
          else verify_timeout_ms (fw_policy f))
         (verify_timeout_ms (fw_policy f))"

definition follower_tick :: "CsaFollower \<Rightarrow> u64 \<Rightarrow> CsaAction \<times> CsaFollower" where
  "follower_tick f now_us =
     (case fw_state f of
        F_kArmed \<Rightarrow>
          if fw_switch_at_us f \<le> now_us
          then (\<lparr>act_kind = kRetune, act_chan_mhz = target_chan (fw_campaign f),
                 act_bw = target_bw (fw_campaign f), act_fast = (retune_class (fw_campaign f) = 0),
                 act_power_intent = power_intent (fw_campaign f)\<rparr>,
                f\<lparr>fw_verify_deadline_us := 0, fw_state := F_kVerify\<rparr>)
          else (no_action, f)
      | F_kVerify \<Rightarrow>
          let f1 = (if fw_verify_deadline_us f = 0
                    then f\<lparr>fw_verify_deadline_us := now_us + ms_us (verify_window f)\<rparr> else f)
          in (no_action, if fw_verify_deadline_us f1 \<le> now_us then f1\<lparr>fw_state := F_kCommitted\<rparr>
                         else f1)
      | F_kCommitted \<Rightarrow>
          (no_action,
           if fw_latched f \<noteq> None \<and> fw_last_bound_rx_us f \<le> now_us
              \<and> ms_us (bind_release_ms (fw_policy f)) < now_us - fw_last_bound_rx_us f
           then f\<lparr>fw_latched := None\<rparr> else f)
      | F_kIdle \<Rightarrow> (no_action, f))"

definition clear_campaign :: "CsaFollower \<Rightarrow> CsaFollower" where
  "clear_campaign f = f\<lparr>fw_campaign := empty_csa, fw_state := F_kIdle\<rparr>"

definition follower_set_psk :: "CsaFollower \<Rightarrow> bytes \<Rightarrow> CsaFollower" where
  "follower_set_psk f key =
     clear_campaign (f\<lparr>fw_policy := (fw_policy f)\<lparr>psk := key\<rparr>, fw_latched := None,
       fw_last_applied := Map.empty\<rparr>)"

definition release_binding :: "CsaFollower \<Rightarrow> CsaFollower" where
  "release_binding f = f\<lparr>fw_latched := None\<rparr>"

definition campaign_active :: "CsaFollower \<Rightarrow> bool" where
  "campaign_active f \<longleftrightarrow> fw_state f = F_kArmed \<or> fw_state f = F_kVerify"

section \<open>The issuer\<close>

abbreviation kDtToSwitchMs :: u32 where "kDtToSwitchMs \<equiv> 5000"
abbreviation kCopies :: u8 where "kCopies \<equiv> 5"
abbreviation kCopySpacingUs :: u64 where "kCopySpacingUs \<equiv> 20000"
abbreviation kCopyCutoffUs :: u64 where "kCopyCutoffUs \<equiv> 50000"

datatype IssuerState = I_kIdle | I_kAnnounce | I_kAwaitAck | I_kVerify

record CsaIssuer =
  is_policy :: CsaParams
  is_state :: IssuerState
  is_next_nonce :: u32
  is_last_campaign_us :: u64
  is_prefix :: common_prefix
  is_tmpl :: csa_packet
  is_copies_left :: u8
  is_next_copy_us :: u64
  is_started_us :: u64
  is_switch_at_us :: u64
  is_verify_deadline_us :: u64
  is_next_beacon_us :: u64
  is_armed_seen :: bool
  is_video_seen :: bool
  is_landing_seen :: bool

definition new_issuer :: "CsaParams \<Rightarrow> CsaIssuer" where
  "new_issuer policy = \<lparr>is_policy = policy, is_state = I_kIdle, is_next_nonce = 1,
     is_last_campaign_us = 0, is_prefix = empty_prefix, is_tmpl = empty_csa, is_copies_left = 0,
     is_next_copy_us = 0, is_started_us = 0, is_switch_at_us = 0, is_verify_deadline_us = 0,
     is_next_beacon_us = 0, is_armed_seen = False, is_video_seen = False, is_landing_seen = False\<rparr>"

definition issuer_set_psk :: "CsaIssuer \<Rightarrow> bytes \<Rightarrow> bool \<times> CsaIssuer" where
  "issuer_set_psk s key =
     (if is_state s \<noteq> I_kIdle then (False, s)
      else (True, s\<lparr>is_policy := (is_policy s)\<lparr>psk := key\<rparr>\<rparr>))"

definition issuer_start ::
    "CsaIssuer \<Rightarrow> common_prefix \<Rightarrow> u16 \<Rightarrow> u8 \<Rightarrow> u8 \<Rightarrow> u16 \<Rightarrow> u8 \<Rightarrow> u8 \<Rightarrow> u64 \<Rightarrow> bool \<times> CsaIssuer" where
  "issuer_start s prefix target_chan_mhz bw cls prev_chan_mhz pbw pwr now_us =
     (let pol = is_policy s in
      if is_state s \<noteq> I_kIdle \<or> psk pol = [] then (False, s)
      else if \<not> allowed (allowlist pol) target_chan_mhz then (False, s)
      else if is_last_campaign_us s \<noteq> 0
              \<and> now_us - is_last_campaign_us s < ms_us (min_interval_ms pol) then (False, s)
      else (True, s\<lparr>is_last_campaign_us := now_us, is_prefix := prefix,
              is_tmpl := empty_csa\<lparr>csa_prefix := prefix, csa_nonce := is_next_nonce s,
                target_chan := target_chan_mhz, target_bw := bw, retune_class := cls,
                t_revert_ms := ucast (verify_timeout_ms pol), prev_chan := prev_chan_mhz,
                prev_bw := pbw, power_intent := pwr\<rparr>,
              is_next_nonce := is_next_nonce s + 1,
              is_started_us := now_us,
              is_switch_at_us := now_us + ms_us kDtToSwitchMs,
              is_copies_left := kCopies, is_next_copy_us := now_us, is_armed_seen := False,
              is_video_seen := False, is_landing_seen := False, is_state := I_kAnnounce\<rparr>))"

definition note_craft_armed :: "CsaIssuer \<Rightarrow> CsaIssuer" where
  "note_craft_armed s =
     (if is_state s = I_kAnnounce \<or> is_state s = I_kAwaitAck then s\<lparr>is_armed_seen := True\<rparr> else s)"

definition with_mac :: "bytes \<Rightarrow> csa_packet \<Rightarrow> csa_packet" where
  "with_mac key pkt = (case mac_of pkt key of None \<Rightarrow> pkt | Some m \<Rightarrow> pkt\<lparr>csa_mac_field := m\<rparr>)"

definition stamp_copy :: "CsaIssuer \<Rightarrow> csa_packet \<Rightarrow> u64 \<Rightarrow> csa_packet" where
  "stamp_copy s pkt now_us =
     (let left_us = (if now_us < is_switch_at_us s then is_switch_at_us s - now_us else 1000)
      in with_mac (psk (is_policy s))
           (pkt\<lparr>dt_to_switch_ms := ucast (if left_us div 1000 = 0 then 1 else left_us div 1000)\<rparr>))"

text \<open>\<open>None\<close> is the result false: the copy is dropped.\<close>

definition restamp_copy :: "CsaIssuer \<Rightarrow> csa_packet \<Rightarrow> u64 \<Rightarrow> csa_packet option" where
  "restamp_copy s pkt now_us =
     (if is_switch_at_us s \<le> now_us + kCopyCutoffUs then None
      else if is_state s = I_kIdle \<or> csa_nonce pkt \<noteq> csa_nonce (is_tmpl s) then None
      else Some (stamp_copy s pkt now_us))"

definition note_craft_video :: "CsaIssuer \<Rightarrow> u64 \<Rightarrow> bool \<Rightarrow> CsaIssuer" where
  "note_craft_video s now_us craft_armed =
     (if craft_armed
      then if is_state s = I_kVerify \<and> is_switch_at_us s \<le> now_us \<and> \<not> is_landing_seen s
           then s\<lparr>is_landing_seen := True,
                  is_verify_deadline_us := now_us + ms_us (verify_timeout_ms (is_policy s))\<rparr>
           else s
      else if is_state s = I_kVerify \<and> is_switch_at_us s \<le> now_us then s\<lparr>is_video_seen := True\<rparr>
      else s)"

definition note_commit_failed :: "CsaIssuer \<Rightarrow> CsaIssuer" where
  "note_commit_failed s = (if is_state s = I_kVerify then s\<lparr>is_state := I_kIdle\<rparr> else s)"

datatype IssuerActionKind = ia_kNone | ia_kSendCopy | ia_kCommit | ia_kSendBeacon | ia_kSuccess
  | ia_kRevert | ia_kAbort

record IssuerAction =
  ia_kind :: IssuerActionKind
  ia_pkt :: csa_packet
  ia_chan_mhz :: u16
  ia_bw :: u8
  ia_fast :: bool
  ia_power_intent :: u8

definition issuer_no_action :: IssuerAction where
  "issuer_no_action = \<lparr>ia_kind = ia_kNone, ia_pkt = empty_csa, ia_chan_mhz = 0, ia_bw = 0,
     ia_fast = False, ia_power_intent = 0\<rparr>"

definition to_target :: "CsaIssuer \<Rightarrow> IssuerActionKind \<Rightarrow> IssuerAction" where
  "to_target s k = issuer_no_action\<lparr>ia_kind := k, ia_chan_mhz := target_chan (is_tmpl s),
     ia_bw := target_bw (is_tmpl s), ia_fast := (retune_class (is_tmpl s) = 0),
     ia_power_intent := power_intent (is_tmpl s)\<rparr>"

definition send_copy :: "CsaIssuer \<Rightarrow> u8 \<Rightarrow> u64 \<Rightarrow> IssuerAction" where
  "send_copy s seq now_us = issuer_no_action\<lparr>ia_kind := ia_kSendCopy,
     ia_pkt := stamp_copy s ((is_tmpl s)\<lparr>csa_seq := seq\<rparr>) now_us\<rparr>"

definition tick_announce :: "CsaIssuer \<Rightarrow> u64 \<Rightarrow> IssuerAction \<times> CsaIssuer" where
  "tick_announce s now_us =
     (let due = is_next_copy_us s \<le> now_us \<and> now_us + kCopyCutoffUs < is_switch_at_us s;
          a = (if due then send_copy s (is_copies_left s) now_us else issuer_no_action);
          s1 = (if due
                then let s' = s\<lparr>is_next_copy_us := now_us + kCopySpacingUs,
                                is_copies_left := is_copies_left s - 1\<rparr>
                     in if is_copies_left s' = 0 then s'\<lparr>is_state := I_kAwaitAck\<rparr> else s'
                else s);
          s2 = (if is_state s1 = I_kAnnounce \<and> is_switch_at_us s1 \<le> now_us + kCopyCutoffUs
                then s1\<lparr>is_state := I_kAwaitAck\<rparr> else s1)
      in (a, s2))"

definition tick_await_ack :: "CsaIssuer \<Rightarrow> u64 \<Rightarrow> IssuerAction \<times> CsaIssuer" where
  "tick_await_ack s now_us =
     (if \<not> is_armed_seen s \<and> now_us + kCopyCutoffUs < is_switch_at_us s
         \<and> is_next_copy_us s \<le> now_us
      then (send_copy s 0 now_us, s\<lparr>is_next_copy_us := now_us + kCopySpacingUs\<rparr>)
      else if is_armed_seen s
      then (to_target s ia_kCommit, s\<lparr>is_verify_deadline_us := 0, is_state := I_kVerify\<rparr>)
      else if is_switch_at_us s \<le> now_us
      then (issuer_no_action\<lparr>ia_kind := ia_kAbort\<rparr>, s\<lparr>is_state := I_kIdle\<rparr>)
      else (issuer_no_action, s))"

definition tick_verify :: "CsaIssuer \<Rightarrow> u64 \<Rightarrow> IssuerAction \<times> CsaIssuer" where
  "tick_verify s now_us =
     (let s1 = (if is_verify_deadline_us s = 0
                then s\<lparr>is_verify_deadline_us :=
                         (if is_switch_at_us s < now_us then now_us else is_switch_at_us s)
                         + ms_us (verify_timeout_ms (is_policy s)),
                       is_next_beacon_us := now_us\<rparr>
                else s)
      in if is_verify_deadline_us s1 \<le> now_us
         then if is_video_seen s1
              then (issuer_no_action\<lparr>ia_kind := ia_kSuccess\<rparr>, s1\<lparr>is_state := I_kIdle\<rparr>)
              else (to_target s1 ia_kSuccess, s1\<lparr>is_state := I_kIdle\<rparr>)
         else if is_next_beacon_us s1 \<le> now_us
         then (issuer_no_action\<lparr>ia_kind := ia_kSendBeacon,
                 ia_pkt := with_mac (psk (is_policy s1))
                             ((is_tmpl s1)\<lparr>csa_seq := 0, dt_to_switch_ms := 0\<rparr>)\<rparr>,
               s1\<lparr>is_next_beacon_us := now_us + kCopySpacingUs\<rparr>)
         else (issuer_no_action, s1))"

definition issuer_tick :: "CsaIssuer \<Rightarrow> u64 \<Rightarrow> IssuerAction \<times> CsaIssuer" where
  "issuer_tick s now_us =
     (case is_state s of
        I_kAnnounce \<Rightarrow> tick_announce s now_us
      | I_kAwaitAck \<Rightarrow> tick_await_ack s now_us
      | I_kVerify \<Rightarrow> tick_verify s now_us
      | I_kIdle \<Rightarrow> (issuer_no_action, s))"

end
