(* ===== verification/Nonce_Gate.thy ===== *)
theory Nonce_Gate
  imports Prelude
begin

text \<open>
  The anti-replay contract that the channel-switch follower and the vehicle command handler
  share: a machine that remembers the last accepted nonce per sender and accepts only larger
  ones. What it accepts over any run is strictly increasing per sender, so nothing is accepted
  twice.
\<close>

fun gate_log :: "('e \<Rightarrow> 's \<Rightarrow> 's) \<Rightarrow> ('e \<Rightarrow> 's \<Rightarrow> ('k \<times> u32) option) \<Rightarrow> 'e list \<Rightarrow> 's \<Rightarrow> ('k \<times> u32) list" where
  "gate_log step acc [] s = []"
| "gate_log step acc (e # es) s =
     (case acc e s of None \<Rightarrow> [] | Some kn \<Rightarrow> [kn]) @ gate_log step acc es (step e s)"

definition nonces_of :: "'k \<Rightarrow> ('k \<times> u32) list \<Rightarrow> u32 list" where
  "nonces_of k log = map snd (filter (\<lambda>kn. fst kn = k) log)"

lemma nonces_of_simps [simp]:
  "nonces_of k [] = []"
  "nonces_of k (kn # log) = (if fst kn = k then [snd kn] else []) @ nonces_of k log"
  by (simp_all add: nonces_of_def)

locale nonce_gate =
  fixes step :: "'e \<Rightarrow> 's \<Rightarrow> 's"
    and acc :: "'e \<Rightarrow> 's \<Rightarrow> ('k \<times> u32) option"
    and last_nonce :: "'s \<Rightarrow> 'k \<rightharpoonup> u32"
    and rekey :: "'e \<Rightarrow> bool"
  assumes accept_fresh: "acc e s = Some (k, n) \<Longrightarrow> last_nonce s k = Some m \<Longrightarrow> m < n"
    and accept_records: "acc e s = Some (k, n) \<Longrightarrow> last_nonce (step e s) = (last_nonce s)(k \<mapsto> n)"
    and refuse_keeps: "acc e s = None \<Longrightarrow> \<not> rekey e \<Longrightarrow> last_nonce (step e s) = last_nonce s"
begin

lemma log_above_last:
  assumes "\<forall>e\<in>set es. \<not> rekey e" and "last_nonce s k = Some m"
    and "n \<in> set (nonces_of k (gate_log step acc es s))"
  shows "m < n"
  using assms
proof (induction es arbitrary: s m)
  case (Cons e es)
  show ?case
  proof (cases "acc e s")
    case None
    then show ?thesis
      using Cons.IH [of "step e s" m] Cons.prems refuse_keeps [OF None] by simp
  next
    case (Some kn)
    then obtain k' n' where kn: "acc e s = Some (k', n')"
      by (cases kn) auto
    show ?thesis
    proof (cases "k' = k")
      case True
      then have "last_nonce (step e s) k = Some n'"
        using accept_records [OF kn] by simp
      then have "n = n' \<or> n' < n"
        using Cons.IH [of "step e s" n'] Cons.prems kn True by auto
      moreover have "m < n'"
        using accept_fresh kn True Cons.prems(2) by blast
      ultimately show ?thesis
        by auto
    next
      case False
      then show ?thesis
        using Cons.IH [of "step e s" m] Cons.prems kn accept_records [OF kn] by simp
    qed
  qed
qed simp

lemma log_increasing:
  assumes "\<forall>e\<in>set es. \<not> rekey e"
  shows "sorted_wrt (<) (nonces_of k (gate_log step acc es s))"
  using assms
proof (induction es arbitrary: s)
  case (Cons e es)
  have "n < n'" if "acc e s = Some (k, n)" "n' \<in> set (nonces_of k (gate_log step acc es (step e s)))"
    for n n'
    using log_above_last [of es "step e s" k n] accept_records [OF that(1)] that(2) Cons.prems
    by simp
  then show ?case
    using Cons by (cases "acc e s") auto
qed simp

text \<open>In particular nothing is accepted twice.\<close>

lemma log_distinct:
  assumes "\<forall>e\<in>set es. \<not> rekey e"
  shows "distinct (gate_log step acc es s)"
proof (rule ccontr)
  assume "\<not> distinct (gate_log step acc es s)"
  then obtain xs ys zs k n where "gate_log step acc es s = xs @ [(k, n)] @ ys @ [(k, n)] @ zs"
    using not_distinct_decomp [of "gate_log step acc es s"] by (metis surj_pair)
  then have "nonces_of k (gate_log step acc es s)
      = nonces_of k xs @ [n] @ nonces_of k ys @ [n] @ nonces_of k zs"
    by (simp add: nonces_of_def)
  then show False
    using log_increasing [OF assms, of k s] by (simp add: sorted_wrt_append)
qed

end

end
