(* ===== verification/Csa_Props.thy ===== *)
theory Csa_Props
  imports Csa Nonce_Gate
begin

text \<open>
  What the channel-switch engines guarantee: exactly which campaigns a follower accepts, that
  none is accepted twice, that a follower only ever retunes to an allowlisted channel it was
  told to go to by an authenticated packet, that every verdict is counted, that the issuer's
  copies are accepted and name one switch instant, and that a campaign always ends.
\<close>

section \<open>The authentication tag\<close>

definition csa_wire :: "csa_packet \<Rightarrow> bytes" where
  "csa_wire pkt = the (encode_csa pkt (Some 32))"

lemma encode_csa_32: "encode_csa pkt (Some 32) = Some (csa_wire pkt)"
  by (simp add: csa_wire_def encode_csa_def out_ok_def)

lemma length_csa_wire: "length (csa_wire pkt) = 32"
  by (simp add: csa_wire_def encode_csa_def out_ok_def)

lemma mac_of_eq: "mac_of pkt key = Some (csa_mac key (csa_wire pkt))"
  by (simp add: mac_of_def encode_csa_32 length_csa_wire)

lemma csa_wire_mac_irrelevant: "take 28 (csa_wire (pkt\<lparr>csa_mac_field := m\<rparr>)) = take 28 (csa_wire pkt)"
  by (simp add: csa_wire_def encode_csa_def out_ok_def)

lemma mac_of_ignores_mac: "mac_of (pkt\<lparr>csa_mac_field := m\<rparr>) key = mac_of pkt key"
  by (simp add: mac_of_eq csa_mac_def csa_wire_mac_irrelevant)

definition authentic :: "bytes \<Rightarrow> csa_packet \<Rightarrow> bool" where
  "authentic key pkt \<longleftrightarrow> csa_mac_field pkt = csa_mac key (csa_wire pkt)"

lemma mac_of_authentic: "mac_of pkt key = Some (csa_mac_field pkt) \<longleftrightarrow> authentic key pkt"
  by (auto simp: mac_of_eq authentic_def)

lemma with_mac_authentic: "authentic key (with_mac key pkt)"
  by (simp add: with_mac_def mac_of_eq authentic_def csa_mac_def csa_wire_mac_irrelevant)

lemma with_mac_simps [simp]:
  "csa_prefix (with_mac key pkt) = csa_prefix pkt" "csa_nonce (with_mac key pkt) = csa_nonce pkt"
  "target_chan (with_mac key pkt) = target_chan pkt" "csa_seq (with_mac key pkt) = csa_seq pkt"
  "dt_to_switch_ms (with_mac key pkt) = dt_to_switch_ms pkt"
  by (simp_all add: with_mac_def mac_of_eq)

lemma allowed_iff: "allowed cs chan \<longleftrightarrow> chan \<in> set cs"
  by (induction cs) auto

section \<open>What the follower accepts\<close>

definition csa_key :: "csa_packet \<Rightarrow> nonce_key" where
  "csa_key pkt = (originator (csa_prefix pkt), session_id (csa_prefix pkt))"

definition acceptable :: "CsaFollower \<Rightarrow> csa_packet \<Rightarrow> u64 \<Rightarrow> u16 option \<Rightarrow> bool" where
  "acceptable f pkt now latched_issuer \<longleftrightarrow>
     (if psk (fw_policy f) = [] then allow_unauthenticated (fw_policy f)
      else authentic (psk (fw_policy f)) pkt)
     \<and> (case latched_issuer of
          Some i \<Rightarrow> i = originator (csa_prefix pkt)
        | None \<Rightarrow> fw_latched f = None \<or> fw_latched f = Some (originator (csa_prefix pkt)))
     \<and> dt_to_switch_ms pkt \<noteq> 0
     \<and> (\<forall>n. fw_last_applied f (csa_key pkt) = Some n \<longrightarrow> n < csa_nonce pkt)
     \<and> target_chan pkt \<in> set (allowlist (fw_policy f))
     \<and> (fw_last_accept_us f = 0
        \<or> ms_us (min_interval_ms (fw_policy f)) \<le> now - fw_last_accept_us f)"

lemma on_csa_accepts_iff:
  "fst (on_csa f pkt now tsf rx lat) \<longleftrightarrow> acceptable f pkt now lat"
  by (auto simp: on_csa_def acceptable_def Let_def mac_of_authentic allowed_iff csa_key_def
      not_less not_le split: option.splits)

text \<open>The state after an accepted and after a refused packet.\<close>

definition armed_with :: "CsaFollower \<Rightarrow> csa_packet \<Rightarrow> u64 \<Rightarrow> u64 option \<Rightarrow> u32 \<Rightarrow> CsaFollower" where
  "armed_with f pkt now tsf rx =
     (let dt_us = ucast (dt_to_switch_ms pkt) * 1000; elapsed = csa_elapsed tsf rx dt_us
      in f\<lparr>fw_refusals := (fw_refusals f)\<lparr>rf_accepted := rf_accepted (fw_refusals f) + 1\<rparr>,
           fw_last_applied := (fw_last_applied f)(csa_key pkt \<mapsto> csa_nonce pkt),
           fw_last_accept_us := now, fw_latched := Some (originator (csa_prefix pkt)),
           fw_last_bound_rx_us := now, fw_campaign := pkt,
           fw_switch_at_us := now + (if elapsed < dt_us then dt_us - elapsed else 0),
           fw_freeze_until_us := now + ms_us (settle_ms (fw_policy f)), fw_state := F_kArmed\<rparr>)"

definition undisturbed :: "CsaFollower \<Rightarrow> CsaFollower \<Rightarrow> bool" where
  "undisturbed f f' \<longleftrightarrow> fw_policy f' = fw_policy f \<and> fw_last_applied f' = fw_last_applied f
     \<and> fw_campaign f' = fw_campaign f
     \<and> (fw_state f' = fw_state f \<or> fw_state f = F_kVerify \<and> fw_state f' = F_kCommitted)"

lemma on_csa_cases:
  "case on_csa f pkt now tsf rx lat of
     (True, f') \<Rightarrow> f' = armed_with f pkt now tsf rx
   | (False, f') \<Rightarrow> undisturbed f f'"
  unfolding on_csa_def Let_def
  by (simp add: armed_with_def csa_key_def undisturbed_def Let_def del: if_split split: if_split)

lemma on_csa_accepted:
  "fst (on_csa f pkt now tsf rx lat)
   \<Longrightarrow> snd (on_csa f pkt now tsf rx lat) = armed_with f pkt now tsf rx"
  using on_csa_cases [of f pkt now tsf rx lat] by (auto split: prod.splits bool.splits)

lemma on_csa_refused:
  "\<not> fst (on_csa f pkt now tsf rx lat) \<Longrightarrow> undisturbed f (snd (on_csa f pkt now tsf rx lat))"
  using on_csa_cases [of f pkt now tsf rx lat] by (auto split: prod.splits bool.splits)

lemma on_csa_policy: "fw_policy (snd (on_csa f pkt now tsf rx lat)) = fw_policy f"
  using on_csa_accepted [of f pkt now tsf rx lat] on_csa_refused [of f pkt now tsf rx lat]
  by (cases "fst (on_csa f pkt now tsf rx lat)") (simp_all add: armed_with_def undisturbed_def Let_def)

section \<open>Runs of a follower\<close>

datatype follower_event =
    FE_csa csa_packet u64 "u64 option" u32 "u16 option"
  | FE_valid_rx u64 u16
  | FE_tick u64
  | FE_set_psk bytes
  | FE_release_binding
  | FE_clear_campaign

fun follower_step :: "follower_event \<Rightarrow> CsaFollower \<Rightarrow> CsaFollower" where
  "follower_step (FE_csa pkt now tsf rx lat) f = snd (on_csa f pkt now tsf rx lat)"
| "follower_step (FE_valid_rx now from_originator) f = note_valid_rx f now from_originator"
| "follower_step (FE_tick now) f = snd (follower_tick f now)"
| "follower_step (FE_set_psk key) f = follower_set_psk f key"
| "follower_step FE_release_binding f = release_binding f"
| "follower_step FE_clear_campaign f = clear_campaign f"

fun follower_accepts :: "follower_event \<Rightarrow> CsaFollower \<Rightarrow> (nonce_key \<times> u32) option" where
  "follower_accepts (FE_csa pkt now tsf rx lat) f =
     (if fst (on_csa f pkt now tsf rx lat) then Some (csa_key pkt, csa_nonce pkt) else None)"
| "follower_accepts _ f = None"

fun is_set_psk :: "follower_event \<Rightarrow> bool" where
  "is_set_psk (FE_set_psk key) = True"
| "is_set_psk _ = False"

lemmas follower_op_defs = note_valid_rx_def follower_tick_def follower_set_psk_def
  release_binding_def clear_campaign_def

interpretation csa_gate: nonce_gate follower_step follower_accepts fw_last_applied is_set_psk
proof
  fix e s k n m
  assume "follower_accepts e s = Some (k, n)" "fw_last_applied s k = Some m"
  then show "m < n"
    by (cases e) (auto simp: on_csa_accepts_iff acceptable_def split: if_splits)
next
  fix e s k n
  assume "follower_accepts e s = Some (k, n)"
  then show "fw_last_applied (follower_step e s) = (fw_last_applied s)(k \<mapsto> n)"
    by (cases e) (auto simp: on_csa_accepted armed_with_def Let_def split: if_splits)
next
  fix e s
  assume "follower_accepts e s = None" "\<not> is_set_psk e"
  then show "fw_last_applied (follower_step e s) = fw_last_applied s"
    using on_csa_refused
    by (cases e) (auto simp: undisturbed_def follower_op_defs Let_def
        split: if_splits FollowerState.splits)
qed

text \<open>The states a follower can reach from its construction.\<close>

inductive follower_reach :: "CsaParams \<Rightarrow> CsaFollower \<Rightarrow> bool" for policy where
  fresh: "follower_reach policy (new_follower policy)"
| event: "follower_reach policy f \<Longrightarrow> follower_reach policy (follower_step e f)"

definition campaign_ok :: "CsaFollower \<Rightarrow> bool" where
  "campaign_ok f \<longleftrightarrow>
     (campaign_active f \<longrightarrow> target_chan (fw_campaign f) \<in> set (allowlist (fw_policy f))
        \<and> dt_to_switch_ms (fw_campaign f) \<noteq> 0
        \<and> (if psk (fw_policy f) = [] then allow_unauthenticated (fw_policy f)
           else authentic (psk (fw_policy f)) (fw_campaign f)))"

lemma campaign_ok_step:
  assumes "campaign_ok f"
  shows "campaign_ok (follower_step e f)"
proof (cases e)
  case (FE_csa pkt now tsf rx lat)
  show ?thesis
  proof (cases "fst (on_csa f pkt now tsf rx lat)")
    case True
    then have "acceptable f pkt now lat"
      by (simp add: on_csa_accepts_iff)
    then show ?thesis
      using True FE_csa
      by (simp add: on_csa_accepted armed_with_def Let_def campaign_ok_def acceptable_def)
  next
    case False
    show ?thesis
      using on_csa_refused [OF False] assms FE_csa
      by (auto simp: undisturbed_def campaign_ok_def campaign_active_def)
  qed
qed (use assms in \<open>auto simp: campaign_ok_def campaign_active_def follower_op_defs Let_def
      split: if_splits FollowerState.splits\<close>)

lemma reach_campaign_ok: "follower_reach policy f \<Longrightarrow> campaign_ok f"
proof (induction rule: follower_reach.induct)
  case fresh
  show ?case
    by (simp add: campaign_ok_def campaign_active_def new_follower_def)
qed (rule campaign_ok_step)

lemma reach_allowlist: "follower_reach policy f \<Longrightarrow> allowlist (fw_policy f) = allowlist policy"
proof (induction rule: follower_reach.induct)
  case (event f e)
  have "allowlist (fw_policy (follower_step e f)) = allowlist (fw_policy f)"
    by (cases e) (simp_all add: on_csa_policy follower_op_defs Let_def
        split: FollowerState.splits)
  then show ?case
    using event by simp
qed (simp add: new_follower_def)

lemma tick_no_revert: "act_kind (fst (follower_tick f now)) \<noteq> kRevert"
  by (simp add: follower_tick_def no_action_def Let_def split: FollowerState.split)

lemma tick_retune:
  assumes "act_kind (fst (follower_tick f now)) = kRetune"
  shows "fw_state f = F_kArmed \<and> fw_switch_at_us f \<le> now
         \<and> act_chan_mhz (fst (follower_tick f now)) = target_chan (fw_campaign f)"
  using assms
  by (auto simp: follower_tick_def no_action_def Let_def split: FollowerState.splits if_splits)

text \<open>C13: The follower accepts a channel-switch packet exactly when it is authentic (or
  unauthenticated following is allowed and there is no key), comes from the latched issuer if
  there is one, has a non-zero countdown, a fresh nonce and an allowlisted channel, and is not
  rate limited; an accepted packet arms exactly the announced campaign, a refused one changes
  neither policy, nonces nor campaign.\<close>

theorem follower_accepts_exactly:
  "fst (on_csa f pkt now tsf rx lat) = acceptable f pkt now lat
   \<and> (fst (on_csa f pkt now tsf rx lat) \<longrightarrow>
        snd (on_csa f pkt now tsf rx lat) = armed_with f pkt now tsf rx)
   \<and> (\<not> fst (on_csa f pkt now tsf rx lat) \<longrightarrow>
        undisturbed f (snd (on_csa f pkt now tsf rx lat)))"
  using on_csa_accepts_iff on_csa_accepted on_csa_refused by blast

text \<open>C14: Over any sequence of packets, ticks, receptions and binding releases without a re-key, the
  nonces a follower accepts from one issuer session are strictly increasing; so no campaign is
  accepted twice.\<close>

theorem follower_no_replay:
  assumes "\<forall>e\<in>set es. \<not> is_set_psk e"
  shows "sorted_wrt (<) (nonces_of k (gate_log follower_step follower_accepts es f))
         \<and> distinct (gate_log follower_step follower_accepts es f)"
  using csa_gate.log_increasing [OF assms] csa_gate.log_distinct [OF assms] by blast

text \<open>C15: In every reachable state a follower's tick never reverts, and it retunes only to the
  channel of the armed campaign, which is allowlisted and was authenticated with the current key
  (or admitted by policy), and not before the agreed switch time.\<close>

theorem follower_retunes_only_where_told:
  assumes "follower_reach policy f"
  shows "act_kind (fst (follower_tick f now)) \<noteq> kRevert
    \<and> (act_kind (fst (follower_tick f now)) = kRetune \<longrightarrow>
         act_chan_mhz (fst (follower_tick f now)) = target_chan (fw_campaign f)
         \<and> target_chan (fw_campaign f) \<in> set (allowlist policy)
         \<and> fw_switch_at_us f \<le> now
         \<and> (if psk (fw_policy f) = [] then allow_unauthenticated (fw_policy f)
             else authentic (psk (fw_policy f)) (fw_campaign f)))"
  using tick_no_revert tick_retune [of f now] reach_campaign_ok [OF assms] reach_allowlist [OF assms]
  by (auto simp: campaign_ok_def campaign_active_def)

section \<open>Refusal accounting\<close>

definition refusal_total :: "Refusals \<Rightarrow> u32" where
  "refusal_total r = rf_no_key r + rf_bad_mac r + rf_issuer_lock r + rf_nonce_replay r
     + rf_not_allowlisted r + rf_rate_limited r + rf_beacon r + rf_accepted r"

definition counted :: "CsaFollower \<Rightarrow> bool \<times> CsaFollower \<Rightarrow> bool" where
  "counted f r \<longleftrightarrow>
     refusal_total (fw_refusals (snd r)) = refusal_total (fw_refusals f) + 1
     \<and> rf_accepted (fw_refusals (snd r)) = rf_accepted (fw_refusals f) + (if fst r then 1 else 0)"

lemma counted_on_csa: "counted f (on_csa f pkt now tsf rx lat)"
  unfolding on_csa_def Let_def
  by (simp add: counted_def refusal_total_def algebra_simps del: if_split split: if_split)

text \<open>Refusal accounting is complete: each call of on_csa increments exactly one of the eight
  refusal counters, and the accepted counter exactly when it returns true.\<close>

theorem on_csa_counts_every_exit:
  "refusal_total (fw_refusals (snd (on_csa f pkt now tsf rx lat)))
     = refusal_total (fw_refusals f) + 1
   \<and> rf_accepted (fw_refusals (snd (on_csa f pkt now tsf rx lat)))
     = rf_accepted (fw_refusals f) + (if fst (on_csa f pkt now tsf rx lat) then 1 else 0)"
  using counted_on_csa by (simp add: counted_def)

section \<open>A concrete follower\<close>

definition demo_csa_params :: CsaParams where
  "demo_csa_params = \<lparr>psk = [1, 2, 3], allow_unauthenticated = False, settle_ms = 200,
     verify_timeout_ms = 2000, min_interval_ms = 1000, ack_timeout_ms = 500, bind_release_ms = 10000,
     allowlist = [5180, 5240]\<rparr>"

definition demo_csa :: csa_packet where
  "demo_csa = with_mac [1, 2, 3] (empty_csa\<lparr>csa_prefix := \<lparr>originator = 1, destination = 2, session_id = 7\<rparr>,
     csa_nonce := 4, target_chan := 5240, dt_to_switch_ms := 100\<rparr>)"

lemma demo_acceptable: "acceptable (new_follower demo_csa_params) demo_csa 50 None"
  by (simp add: acceptable_def new_follower_def demo_csa_params_def demo_csa_def with_mac_authentic)

theorem follower_accepts_exactly_witness:
  "snd (on_csa (new_follower demo_csa_params) demo_csa 50 None 0 None)
     = armed_with (new_follower demo_csa_params) demo_csa 50 None 0"
  using follower_accepts_exactly [of "new_follower demo_csa_params" demo_csa 50 None 0 None] demo_acceptable
  by simp

theorem follower_no_replay_witness:
  "gate_log follower_step follower_accepts [FE_csa demo_csa 50 None 0 None, FE_csa demo_csa 60 None 0 None]
     (new_follower demo_csa_params) = [((1, 7), 4)]
   \<and> distinct (gate_log follower_step follower_accepts
       [FE_csa demo_csa 50 None 0 None, FE_csa demo_csa 60 None 0 None] (new_follower demo_csa_params))"
proof
  have "csa_key demo_csa = (1, 7)" "csa_nonce demo_csa = 4"
    by (simp_all add: demo_csa_def csa_key_def)
  then show "gate_log follower_step follower_accepts [FE_csa demo_csa 50 None 0 None, FE_csa demo_csa 60 None 0 None]
      (new_follower demo_csa_params) = [((1, 7), 4)]"
    using demo_acceptable
    by (simp add: on_csa_accepts_iff on_csa_accepted) (simp add: acceptable_def armed_with_def Let_def)
qed (use follower_no_replay [of "[FE_csa demo_csa 50 None 0 None, FE_csa demo_csa 60 None 0 None]"] in simp)

theorem follower_retunes_only_where_told_witness:
  "act_kind (fst (follower_tick (follower_step (FE_csa demo_csa 50 None 0 None) (new_follower demo_csa_params)) 200000))
     = kRetune
   \<and> act_chan_mhz (fst (follower_tick (follower_step (FE_csa demo_csa 50 None 0 None) (new_follower demo_csa_params)) 200000))
     \<in> set (allowlist demo_csa_params)"
proof -
  let ?f = "follower_step (FE_csa demo_csa 50 None 0 None) (new_follower demo_csa_params)"
  have "?f = armed_with (new_follower demo_csa_params) demo_csa 50 None 0"
    using demo_acceptable by (simp add: on_csa_accepts_iff on_csa_accepted)
  then have "act_kind (fst (follower_tick ?f 200000)) = kRetune"
    by (simp add: follower_tick_def armed_with_def csa_elapsed_def Let_def demo_csa_def)
  moreover have "follower_reach demo_csa_params ?f"
    by (intro follower_reach.event follower_reach.fresh)
  ultimately show ?thesis
    using follower_retunes_only_where_told [of demo_csa_params ?f 200000] by auto
qed

end
