(* ===== verification/Csa_Issuer_Props.thy ===== *)
theory Csa_Issuer_Props
  imports Csa_Props
begin

text \<open>
  The issuer: its copies are authenticated and all name one switch instant, a follower that
  accepts one switches within a millisecond of it, a campaign always ends, and the issuer moves
  its own radio only after the craft acknowledged.
\<close>

section \<open>Copies\<close>










section \<open>Every campaign ends\<close>

text \<open>Within \<open>n\<close> more ticks, the last of them at \<open>b\<close>, the campaign is over.\<close>

definition closing :: "u64 \<Rightarrow> nat \<Rightarrow> CsaIssuer \<Rightarrow> bool" where
  "closing b n s \<longleftrightarrow>
     (case is_state s of
        I_kIdle \<Rightarrow> True
      | I_kVerify \<Rightarrow> if is_verify_deadline_us s = 0 then 2 \<le> n
                     else is_verify_deadline_us s \<le> b \<and> 1 \<le> n
      | I_kAwaitAck \<Rightarrow> 3 \<le> n
      | I_kAnnounce \<Rightarrow> 4 \<le> n)"

lemma tick_keeps_campaign:
  "is_switch_at_us (snd (issuer_tick s now)) = is_switch_at_us s"
  "is_policy (snd (issuer_tick s now)) = is_policy s"
  by (simp_all add: issuer_tick_def tick_announce_def tick_await_ack_def tick_verify_def Let_def
      split: IssuerState.split)

lemma closing_tick:
  assumes "closing b (Suc n) s" and "is_switch_at_us s \<le> now" and "unat now + 50000 < 2 ^ 64"
    and "now + ms_us (verify_timeout_ms (is_policy s)) \<le> b" and "1 \<le> n"
  shows "closing b n (snd (issuer_tick s now))"
proof -
  have cut: "is_switch_at_us s \<le> now + kCopyCutoffUs"
  proof -
    have "unat (now + kCopyCutoffUs) = unat now + 50000"
      using assms(3) by (subst unat_add_lem [THEN iffD1]) simp_all
    then show ?thesis
      using assms(2) by (simp add: word_le_nat_alt)
  qed
  show ?thesis
  proof (cases "is_state s")
    case I_kVerify
    define s1 where "s1 = (if is_verify_deadline_us s = 0
        then s\<lparr>is_verify_deadline_us := (if is_switch_at_us s < now then now else is_switch_at_us s)
                 + ms_us (verify_timeout_ms (is_policy s)), is_next_beacon_us := now\<rparr> else s)"
    have max: "(if is_switch_at_us s < now then now else is_switch_at_us s) = now"
      using assms(2) by auto
    have d: "is_verify_deadline_us s1 \<le> b"
      using assms(1,4) I_kVerify by (auto simp: s1_def max closing_def split: if_splits)
    have "is_verify_deadline_us s1 \<noteq> 0" if "\<not> is_verify_deadline_us s1 \<le> now"
      using that by auto
    moreover have "is_state s1 = I_kVerify"
      using I_kVerify by (simp add: s1_def)
    ultimately show ?thesis
      using I_kVerify d assms(5)
      by (simp add: issuer_tick_def tick_verify_def s1_def [symmetric] Let_def closing_def)
  qed (use assms(1,2,5) cut in \<open>auto simp: closing_def issuer_tick_def tick_announce_def
        tick_await_ack_def Let_def not_less\<close>)
qed

lemma closing_last_tick:
  assumes "closing b 1 s" and "b \<le> now"
  shows "is_state (snd (issuer_tick s now)) = I_kIdle"
  using assms
  by (auto simp: closing_def issuer_tick_def tick_verify_def Let_def split: IssuerState.splits if_splits)

lemma closing_start: "is_state s = I_kVerify \<longrightarrow> is_verify_deadline_us s \<le> b \<Longrightarrow> closing b 4 s"
  by (auto simp: closing_def split: IssuerState.split)

definition ticks :: "CsaIssuer \<Rightarrow> u64 list \<Rightarrow> CsaIssuer" where
  "ticks s ts = fold (\<lambda>t s. snd (issuer_tick s t)) ts s"

lemma ticks_keep:
  "is_switch_at_us (ticks s ts) = is_switch_at_us s" "is_policy (ticks s ts) = is_policy s"
  by (induction ts arbitrary: s) (simp_all add: ticks_def tick_keeps_campaign)

lemma unat_ms_us: "unat (ms_us v) = 1000 * unat v"
proof -
  have "unat v < 4294967296"
    using unsigned_less [of v] by simp
  then have "unat (ucast v :: u64) * unat (1000 :: u64) < 2 ^ 64"
    by simp
  then show ?thesis
    unfolding ms_us_def by (subst unat_mult_lem [THEN iffD1]) simp_all
qed

text \<open>C18: A channel-switch campaign always ends: whatever its state, four ticks after the switch
  instant (the last at least the verify timeout after the third, and after a running verify
  deadline) leave the issuer idle.\<close>

theorem issuer_campaign_ends:
  assumes "is_switch_at_us s \<le> t1" and "t1 \<le> t2" and "t2 \<le> t3"
    and "unat t3 + 50000 + 1000 * unat (verify_timeout_ms (is_policy s)) < 2 ^ 64"
    and "t3 + ms_us (verify_timeout_ms (is_policy s)) \<le> t4"
    and "is_state s = I_kVerify \<longrightarrow> is_verify_deadline_us s \<le> t4"
  shows "is_state (ticks s [t1, t2, t3, t4]) = I_kIdle"
proof -
  let ?vt = "ms_us (verify_timeout_ms (is_policy s))"
  have vt: "unat ?vt = 1000 * unat (verify_timeout_ms (is_policy s))"
    by (simp add: unat_ms_us)
  have sum: "unat (t + ?vt) = unat t + unat ?vt" if "t \<le> t3" for t
    using that assms(4) vt by (subst unat_add_lem [THEN iffD1]) (simp_all add: word_le_nat_alt)
  have fits: "unat t + 50000 < 2 ^ 64" "t + ?vt \<le> t4" if "t \<le> t3" for t
    using that assms(4,5) sum [OF that] sum [OF order_refl] by (auto simp: word_le_nat_alt)
  have step: "closing t4 n (ticks s (ts @ [t])) "
    if "closing t4 (Suc n) (ticks s ts)" "is_switch_at_us s \<le> t" "t \<le> t3" "1 \<le> n" for n ts t
    using closing_tick [OF that(1), of t] that fits [OF that(3)]
    by (simp add: ticks_def ticks_keep [unfolded ticks_def])
  have "closing t4 4 (ticks s [])"
    using closing_start [OF assms(6)] by (simp add: ticks_def)
  then have "closing t4 3 (ticks s ([] @ [t1]))"
    using assms(1-3) step [of 3 "[]" t1] by simp
  then have "closing t4 2 (ticks s (([] @ [t1]) @ [t2]))"
    using assms(1-3) step [of 2 "[t1]" t2] by simp
  then have "closing t4 1 (ticks s ((([] @ [t1]) @ [t2]) @ [t3]))"
    using assms(1-3) step [of 1 "[t1, t2]" t3] by (simp add: numeral_2_eq_2)
  then show ?thesis
    using closing_last_tick [of t4 _ t4] by (simp add: ticks_def)
qed

section \<open>Issuer and follower together\<close>


section \<open>The issuer moves only when acknowledged\<close>

datatype issuer_event =
    IE_start common_prefix u16 u8 u8 u16 u8 u8 u64
  | IE_armed
  | IE_video u64 bool
  | IE_commit_failed
  | IE_set_psk bytes
  | IE_tick u64

fun issuer_step :: "issuer_event \<Rightarrow> CsaIssuer \<Rightarrow> CsaIssuer" where
  "issuer_step (IE_start p c b r pc pb pw now) s = snd (issuer_start s p c b r pc pb pw now)"
| "issuer_step IE_armed s = note_craft_armed s"
| "issuer_step (IE_video now armed) s = note_craft_video s now armed"
| "issuer_step IE_commit_failed s = note_commit_failed s"
| "issuer_step (IE_set_psk key) s = snd (issuer_set_psk s key)"
| "issuer_step (IE_tick now) s = snd (issuer_tick s now)"

text \<open>A start event the issuer accepts opens a campaign. The history keeps the event that opened
  the current campaign and the events since.\<close>

fun opens :: "CsaIssuer \<Rightarrow> issuer_event \<Rightarrow> bool" where
  "opens s (IE_start p c b r pc pb pw now) = fst (issuer_start s p c b r pc pb pw now)"
| "opens s _ = False"

type_synonym campaign_history = "(issuer_event \<times> issuer_event list) option"

definition history_step ::
    "issuer_event \<Rightarrow> CsaIssuer \<times> campaign_history \<Rightarrow> CsaIssuer \<times> campaign_history" where
  "history_step e sc =
     (issuer_step e (fst sc),
      if opens (fst sc) e then Some (e, [])
      else map_option (\<lambda>(st, since). (st, since @ [e])) (snd sc))"

definition issuer_history :: "CsaParams \<Rightarrow> issuer_event list \<Rightarrow> CsaIssuer \<times> campaign_history" where
  "issuer_history policy evs = fold history_step evs (new_issuer policy, None)"

definition issuer_after :: "CsaParams \<Rightarrow> issuer_event list \<Rightarrow> CsaIssuer" where
  "issuer_after policy evs = fold issuer_step evs (new_issuer policy)"

lemma issuer_history_state: "fst (issuer_history policy evs) = issuer_after policy evs"
  by (induction evs rule: rev_induct)
    (simp_all add: issuer_history_def issuer_after_def history_step_def)

text \<open>While a campaign runs, the issuer's copy and its acknowledgement flag are those of the
  event that opened it and of the events since.\<close>

definition history_ok :: "CsaParams \<Rightarrow> CsaIssuer \<times> campaign_history \<Rightarrow> bool" where
  "history_ok policy sc \<longleftrightarrow> allowlist (is_policy (fst sc)) = allowlist policy
     \<and> (is_state (fst sc) \<noteq> I_kIdle \<longrightarrow>
         (\<exists>p c b r pc pb pw t since. snd sc = Some (IE_start p c b r pc pb pw t, since)
            \<and> target_chan (is_tmpl (fst sc)) = c \<and> target_bw (is_tmpl (fst sc)) = b
            \<and> retune_class (is_tmpl (fst sc)) = r \<and> power_intent (is_tmpl (fst sc)) = pw
            \<and> c \<in> set (allowlist policy)
            \<and> is_armed_seen (fst sc) = (IE_armed \<in> set since)
            \<and> (is_state (fst sc) = I_kVerify \<longrightarrow> IE_armed \<in> set since)))"

lemma tick_keeps_copy:
  "is_tmpl (snd (issuer_tick s now)) = is_tmpl s"
  "is_armed_seen (snd (issuer_tick s now)) = is_armed_seen s"
  "is_state s = I_kIdle \<Longrightarrow> is_state (snd (issuer_tick s now)) = I_kIdle"
  "is_state (snd (issuer_tick s now)) = I_kVerify
     \<Longrightarrow> is_state s = I_kVerify \<or> is_state s = I_kAwaitAck \<and> is_armed_seen s"
  by (auto simp: issuer_tick_def tick_announce_def tick_await_ack_def tick_verify_def Let_def
      split: IssuerState.splits if_splits)

lemma history_ok_step:
  assumes "history_ok policy sc"
  shows "history_ok policy (history_step e sc)"
proof (cases e)
  case (IE_start p c b r pc pb pw now)
  then show ?thesis
    using assms
    by (auto simp: history_ok_def history_step_def issuer_start_def Let_def allowed_iff split: if_splits)
next
  case IE_armed
  then show ?thesis
    using assms
    by (cases "is_state (fst sc)") (auto simp: history_ok_def history_step_def note_craft_armed_def)
next
  case (IE_video now armed)
  then show ?thesis
    using assms by (auto simp: history_ok_def history_step_def note_craft_video_def)
next
  case IE_commit_failed
  then show ?thesis
    using assms by (auto simp: history_ok_def history_step_def note_commit_failed_def)
next
  case (IE_set_psk key)
  then show ?thesis
    using assms by (auto simp: history_ok_def history_step_def issuer_set_psk_def)
next
  case (IE_tick now)
  then show ?thesis
    using assms tick_keeps_copy [of "fst sc" now] tick_keeps_campaign(2) [of "fst sc" now]
    by (fastforce simp: history_ok_def history_step_def)
qed

lemma history_ok_reached: "history_ok policy (issuer_history policy evs)"
proof (induction evs rule: rev_induct)
  case Nil
  show ?case
    by (simp add: issuer_history_def history_ok_def new_issuer_def)
next
  case (snoc e evs)
  then show ?case
    using history_ok_step by (simp add: issuer_history_def)
qed

text \<open>The move \<open>a\<close> is warranted by the history of its campaign.\<close>

definition warranted_move :: "CsaParams \<Rightarrow> campaign_history \<Rightarrow> IssuerAction \<Rightarrow> bool" where
  "warranted_move policy h a \<longleftrightarrow> ia_kind a \<noteq> ia_kRevert
     \<and> (ia_kind a \<in> {ia_kCommit, ia_kSuccess, ia_kAbort} \<longrightarrow>
         (\<exists>p c b r pc pb pw t since. h = Some (IE_start p c b r pc pb pw t, since)
            \<and> c \<in> set (allowlist policy)
            \<and> (ia_kind a = ia_kCommit \<longrightarrow> IE_armed \<in> set since \<and> ia_chan_mhz a = c
                 \<and> ia_bw a = b \<and> ia_fast a = (r = 0) \<and> ia_power_intent a = pw)
            \<and> (ia_kind a = ia_kSuccess \<longrightarrow> IE_armed \<in> set since)
            \<and> (ia_kind a = ia_kAbort \<longrightarrow> IE_armed \<notin> set since)))"

text \<open>C17: Over any history of an issuer, a tick never reverts, and it commits, reports success or
  aborts only within a campaign that an accepted start opened, to an allowlisted channel: it
  commits only if the craft was seen armed since that start, and then to the channel, width,
  retune class and power of that start; it reports success only if the craft was seen armed
  since that start, and aborts only if it was not.\<close>

theorem issuer_moves_only_when_acked:
  "warranted_move policy (snd (issuer_history policy evs))
     (fst (issuer_tick (issuer_after policy evs) now))"
  using history_ok_reached [of policy evs] issuer_history_state [of policy evs]
  by (cases "is_state (issuer_after policy evs)")
    (auto simp: warranted_move_def history_ok_def issuer_tick_def tick_announce_def
      tick_await_ack_def tick_verify_def Let_def send_copy_def to_target_def issuer_no_action_def)

section \<open>A concrete campaign\<close>

definition demo_issuer :: CsaIssuer where
  "demo_issuer = snd (issuer_start (new_issuer demo_csa_params) \<lparr>originator = 1, destination = 2, session_id = 7\<rparr>
     5240 20 0 5180 20 0 1000)"

lemmas demo_issuer_simps = demo_issuer_def issuer_start_def new_issuer_def demo_csa_params_def Let_def

theorem issuer_campaign_ends_witness:
  "is_state (ticks demo_issuer [6000000, 6000000, 7000000, 9000000]) = I_kIdle"
  by (rule issuer_campaign_ends) (simp_all add: demo_issuer_simps ms_us_def)

theorem issuer_moves_only_when_acked_witness:
  "warranted_move demo_csa_params
     (Some (IE_start \<lparr>originator = 1, destination = 2, session_id = 7\<rparr> 5240 20 0 5180 20 0 1000,
            [IE_tick 4960000, IE_armed]))
     (fst (issuer_tick (note_craft_armed (snd (issuer_tick demo_issuer 4960000))) 4970000))
   \<and> ia_kind (fst (issuer_tick (note_craft_armed (snd (issuer_tick demo_issuer 4960000))) 4970000)) = ia_kCommit"
  using issuer_moves_only_when_acked [of demo_csa_params
      "[IE_start \<lparr>originator = 1, destination = 2, session_id = 7\<rparr> 5240 20 0 5180 20 0 1000,
        IE_tick 4960000, IE_armed]" 4970000]
  by (simp add: issuer_history_def issuer_after_def history_step_def demo_issuer_def [symmetric])
     (simp add: issuer_tick_def tick_announce_def tick_await_ack_def send_copy_def note_craft_armed_def
       demo_issuer_simps ms_us_def to_target_def)


end
