(* ===== verification/Vehicle_Cmd.thy ===== *)
theory Vehicle_Cmd
  imports Wire_Props Hmac_Sha256 Nonce_Gate
begin

text \<open>
  core/include/wblink/vehicle_cmd.h and core/src/vehicle_cmd.cpp: remote vehicle commands. The
  craft's actuator hook is a parameter, \<open>None\<close> an empty \<open>std::function\<close>.
\<close>

section \<open>Parameters\<close>

record VcmdParams =
  vp_psk :: bytes
  vp_copies :: u8
  vp_copy_interval_ms :: u32
  vp_echo_copies :: u8
  vp_ack_timeout_ms :: u32
  vp_retry_cap :: u8
  vp_min_interval_ms :: u32

type_synonym apply_hook = "(u8 \<Rightarrow> u8 \<Rightarrow> bool) option"

definition vcmd_mac_of :: "vehicle_cmd \<Rightarrow> bytes \<Rightarrow> u32 option" where
  "vcmd_mac_of pkt key =
     (case encode_vehicle_cmd pkt (Some kVehicleCmdSize) of
        None \<Rightarrow> None
      | Some buf \<Rightarrow> if length buf \<noteq> kVehicleCmdSize then None else Some (vcmd_mac key buf))"

definition vms_us :: "u32 \<Rightarrow> u64" where
  "vms_us ms = ucast ms * 1000"

definition empty_vcmd :: vehicle_cmd where
  "empty_vcmd = \<lparr>vc_prefix = \<lparr>originator = 0, destination = 0, session_id = 0\<rparr>, cmd_nonce = 0,
     cmd_seq = 0, cmd_flags = 0, cmd_id = 0, cmd_arg = 0, cmd_mac = 0\<rparr>"

section \<open>The craft\<close>

record Outcome =
  oc_nonce :: u32
  oc_cmd_id :: u8
  oc_cmd_arg :: u8
  oc_rejected :: bool

record VcmdCraft =
  cf_policy :: VcmdParams
  cf_self :: common_prefix
  cf_last_applied :: "(u16 \<times> u32) \<rightharpoonup> Outcome"
  cf_last :: Outcome
  cf_last_accept_us :: u64
  cf_echo :: vehicle_cmd
  cf_echoes_left :: u8
  cf_next_echo_us :: u64
  cf_last_echo_nonce :: u32
  cf_last_echo_start_us :: u64
  cf_echoed_once :: bool

definition new_craft :: "VcmdParams \<Rightarrow> common_prefix \<Rightarrow> VcmdCraft" where
  "new_craft policy self = \<lparr>cf_policy = policy, cf_self = self, cf_last_applied = Map.empty,
     cf_last = \<lparr>oc_nonce = 0, oc_cmd_id = 0, oc_cmd_arg = 0, oc_rejected = False\<rparr>,
     cf_last_accept_us = 0, cf_echo = empty_vcmd, cf_echoes_left = 0, cf_next_echo_us = 0,
     cf_last_echo_nonce = 0, cf_last_echo_start_us = 0, cf_echoed_once = False\<rparr>"

definition queue_echo :: "VcmdCraft \<Rightarrow> Outcome \<Rightarrow> u16 \<Rightarrow> u64 \<Rightarrow> VcmdCraft" where
  "queue_echo c ou to_node now_us =
     (if cf_echoed_once c \<and> cf_last_echo_nonce c = oc_nonce ou
         \<and> (0 < cf_echoes_left c
            \<or> now_us - cf_last_echo_start_us c < vms_us (vp_min_interval_ms (cf_policy c)))
      then c
      else c\<lparr>cf_echo := empty_vcmd\<lparr>vc_prefix := (cf_self c)\<lparr>destination := to_node\<rparr>,
               cmd_nonce := oc_nonce ou,
               cmd_flags := vcmd_kAck OR (if oc_rejected ou then vcmd_kRejected else 0),
               cmd_id := oc_cmd_id ou, cmd_arg := oc_cmd_arg ou\<rparr>,
             cf_echoes_left := vp_echo_copies (cf_policy c), cf_next_echo_us := now_us,
             cf_last_echo_nonce := oc_nonce ou, cf_last_echo_start_us := now_us,
             cf_echoed_once := True\<rparr>)"

text \<open>The look-up of the remembered outcome (\<open>dup\<close>) is the source's test of the iterator and
  the nonce.\<close>

definition on_cmd ::
    "VcmdCraft \<Rightarrow> vehicle_cmd \<Rightarrow> u64 \<Rightarrow> u16 option \<Rightarrow> apply_hook \<Rightarrow> bool \<times> VcmdCraft" where
  "on_cmd c pkt now_us bound_issuer app =
     (if has_flag (cmd_flags pkt) vcmd_kAck then (False, c)
      else if vp_psk (cf_policy c) = [] then (False, c)
      else if vcmd_mac_of pkt (vp_psk (cf_policy c)) \<noteq> Some (cmd_mac pkt) then (False, c)
      else if bound_issuer \<noteq> Some (originator (vc_prefix pkt)) then (False, c)
      else let key = (originator (vc_prefix pkt), session_id (vc_prefix pkt));
               dup = (case cf_last_applied c key of
                        None \<Rightarrow> None
                      | Some ou \<Rightarrow> if cmd_nonce pkt \<le> oc_nonce ou then Some ou else None)
      in case dup of
           Some ou \<Rightarrow>
             (False, if cmd_nonce pkt = oc_nonce ou \<and> cmd_id pkt = oc_cmd_id ou
                        \<and> cmd_arg pkt = oc_cmd_arg ou
                     then queue_echo c ou (originator (vc_prefix pkt)) now_us else c)
         | None \<Rightarrow>
             if cf_last_accept_us c \<noteq> 0
                \<and> now_us - cf_last_accept_us c < vms_us (vp_min_interval_ms (cf_policy c))
             then (False, c)
             else let rejected = (case app of None \<Rightarrow> True
                                  | Some g \<Rightarrow> \<not> g (cmd_id pkt) (cmd_arg pkt));
                      ou = \<lparr>oc_nonce = cmd_nonce pkt, oc_cmd_id = cmd_id pkt,
                            oc_cmd_arg = cmd_arg pkt, oc_rejected = rejected\<rparr>
                  in (\<not> rejected,
                      queue_echo (c\<lparr>cf_last_applied := (cf_last_applied c)(key \<mapsto> ou),
                                     cf_last := ou, cf_last_accept_us := now_us\<rparr>)
                        ou (originator (vc_prefix pkt)) now_us))"

definition craft_tick :: "VcmdCraft \<Rightarrow> u64 \<Rightarrow> vehicle_cmd option \<times> VcmdCraft" where
  "craft_tick c now_us =
     (if cf_echoes_left c = 0 \<or> now_us < cf_next_echo_us c then (None, c)
      else let out = (cf_echo c)\<lparr>cmd_seq := cf_echoes_left c\<rparr>
      in case vcmd_mac_of out (vp_psk (cf_policy c)) of
           None \<Rightarrow> (None, c\<lparr>cf_echoes_left := 0\<rparr>)
         | Some m \<Rightarrow>
             (Some (out\<lparr>cmd_mac := m\<rparr>),
              c\<lparr>cf_echoes_left := cf_echoes_left c - 1,
                cf_next_echo_us := now_us + vms_us (vp_copy_interval_ms (cf_policy c))\<rparr>))"

definition craft_set_psk :: "VcmdCraft \<Rightarrow> bytes \<Rightarrow> VcmdCraft" where
  "craft_set_psk c key = c\<lparr>cf_policy := (cf_policy c)\<lparr>vp_psk := key\<rparr>,
     cf_last_applied := Map.empty, cf_echoes_left := 0\<rparr>"

section \<open>The issuer\<close>

datatype VcmdIssuerState = V_kIdle | V_kSending | V_kAwaitEcho | V_kAcked | V_kRejected | V_kTimeout

record VcmdIssuer =
  vi_policy :: VcmdParams
  vi_state :: VcmdIssuerState
  vi_next_nonce :: u32
  vi_last_start_us :: u64
  vi_tmpl :: vehicle_cmd
  vi_target :: u16
  vi_copies_left :: u8
  vi_campaigns_left :: u8
  vi_next_copy_us :: u64
  vi_echo_deadline_us :: u64

definition new_vcmd_issuer :: "VcmdParams \<Rightarrow> VcmdIssuer" where
  "new_vcmd_issuer policy = \<lparr>vi_policy = policy, vi_state = V_kIdle, vi_next_nonce = 1,
     vi_last_start_us = 0, vi_tmpl = empty_vcmd, vi_target = 0, vi_copies_left = 0,
     vi_campaigns_left = 0, vi_next_copy_us = 0, vi_echo_deadline_us = 0\<rparr>"

definition vi_active :: "VcmdIssuer \<Rightarrow> bool" where
  "vi_active s \<longleftrightarrow> vi_state s = V_kSending \<or> vi_state s = V_kAwaitEcho"

definition vi_set_psk :: "VcmdIssuer \<Rightarrow> bytes \<Rightarrow> bool \<times> VcmdIssuer" where
  "vi_set_psk s key =
     (if vi_active s then (False, s) else (True, s\<lparr>vi_policy := (vi_policy s)\<lparr>vp_psk := key\<rparr>\<rparr>))"

definition seed_nonce :: "VcmdIssuer \<Rightarrow> u32 \<Rightarrow> VcmdIssuer" where
  "seed_nonce s n = s\<lparr>vi_next_nonce := n\<rparr>"

definition vi_start :: "VcmdIssuer \<Rightarrow> common_prefix \<Rightarrow> u16 \<Rightarrow> u8 \<Rightarrow> u8 \<Rightarrow> u64 \<Rightarrow> bool \<times> VcmdIssuer" where
  "vi_start s prefix target_originator cid arg now_us =
     (if vi_active s \<or> vp_psk (vi_policy s) = [] \<or> target_originator = 0
         \<or> \<not> vcmd_arg_in_wire_range cid arg then (False, s)
      else if vi_last_start_us s \<noteq> 0
              \<and> now_us - vi_last_start_us s
                < vms_us (vp_min_interval_ms (vi_policy s) + vp_copy_interval_ms (vi_policy s))
      then (False, s)
      else (True, s\<lparr>vi_last_start_us := now_us,
              vi_tmpl := empty_vcmd\<lparr>vc_prefix := prefix\<lparr>destination := target_originator\<rparr>,
                cmd_nonce := vi_next_nonce s, cmd_id := cid, cmd_arg := arg\<rparr>,
              vi_next_nonce := vi_next_nonce s + 1, vi_target := target_originator,
              vi_copies_left := vp_copies (vi_policy s),
              vi_campaigns_left := vp_retry_cap (vi_policy s),
              vi_next_copy_us := now_us, vi_state := V_kSending\<rparr>))"

definition on_echo :: "VcmdIssuer \<Rightarrow> vehicle_cmd \<Rightarrow> bool \<times> VcmdIssuer" where
  "on_echo s pkt =
     (if vi_state s \<noteq> V_kSending \<and> vi_state s \<noteq> V_kAwaitEcho then (False, s)
      else if \<not> has_flag (cmd_flags pkt) vcmd_kAck \<or> originator (vc_prefix pkt) \<noteq> vi_target s
              \<or> cmd_nonce pkt \<noteq> cmd_nonce (vi_tmpl s) \<or> cmd_id pkt \<noteq> cmd_id (vi_tmpl s)
              \<or> cmd_arg pkt \<noteq> cmd_arg (vi_tmpl s) then (False, s)
      else if vcmd_mac_of pkt (vp_psk (vi_policy s)) \<noteq> Some (cmd_mac pkt) then (False, s)
      else (True, s\<lparr>vi_state := (if has_flag (cmd_flags pkt) vcmd_kRejected then V_kRejected
                                else V_kAcked)\<rparr>))"

text \<open>The action is the packet to send, if any.\<close>

definition vi_tick :: "VcmdIssuer \<Rightarrow> u64 \<Rightarrow> vehicle_cmd option \<times> VcmdIssuer" where
  "vi_tick s now_us =
     (case vi_state s of
        V_kSending \<Rightarrow>
          if vi_next_copy_us s \<le> now_us
          then let pkt = (vi_tmpl s)\<lparr>cmd_seq := vi_copies_left s\<rparr>;
                   pkt' = (case vcmd_mac_of pkt (vp_psk (vi_policy s)) of
                             None \<Rightarrow> pkt | Some m \<Rightarrow> pkt\<lparr>cmd_mac := m\<rparr>);
                   s1 = s\<lparr>vi_next_copy_us := now_us + vms_us (vp_copy_interval_ms (vi_policy s)),
                          vi_copies_left := vi_copies_left s - 1\<rparr>
               in (Some pkt',
                   if vi_copies_left s1 = 0
                   then s1\<lparr>vi_echo_deadline_us := now_us + vms_us (vp_ack_timeout_ms (vi_policy s)),
                           vi_state := V_kAwaitEcho\<rparr>
                   else s1)
          else (None, s)
      | V_kAwaitEcho \<Rightarrow>
          if vi_echo_deadline_us s \<le> now_us
          then let s1 = s\<lparr>vi_campaigns_left := vi_campaigns_left s - 1\<rparr>
               in (None, if vi_campaigns_left s1 = 0 then s1\<lparr>vi_state := V_kTimeout\<rparr>
                         else s1\<lparr>vi_copies_left := vp_copies (vi_policy s),
                                 vi_next_copy_us := now_us, vi_state := V_kSending\<rparr>)
          else (None, s)
      | _ \<Rightarrow> (None, s))"

end
