(* ===== verification/Vehicle_Cmd_Props.thy ===== *)
theory Vehicle_Cmd_Props
  imports Vehicle_Cmd "HOL-Library.Sublist"
begin

text \<open>
  What the command engines guarantee: a command is executed at most once and only for the bound
  issuer with a valid tag, a repeated command is answered with the remembered outcome, the
  issuer sends a bounded number of copies and always reaches a terminal state, and a command
  sent by the issuer comes back acknowledged with the craft's verdict.
\<close>

section \<open>The authentication tag\<close>

definition vcmd_encodable :: "vehicle_cmd \<Rightarrow> bool" where
  "vcmd_encodable pkt \<longleftrightarrow> \<not> unknown_bits (cmd_flags pkt) vcmd_known_mask
     \<and> vcmd_arg_in_wire_range (cmd_id pkt) (cmd_arg pkt)"

definition vcmd_wire :: "vehicle_cmd \<Rightarrow> bytes" where
  "vcmd_wire pkt = the (encode_vehicle_cmd pkt (Some kVehicleCmdSize))"

lemma vcmd_mac_of_eq:
  "vcmd_mac_of pkt key = (if vcmd_encodable pkt then Some (vcmd_mac key (vcmd_wire pkt)) else None)"
  by (simp add: vcmd_mac_of_def vcmd_encodable_def vcmd_wire_def encode_vehicle_cmd_def out_ok_def)

lemma vcmd_wire_mac_irrelevant:
  "vcmd_encodable pkt \<Longrightarrow> take 19 (vcmd_wire (pkt\<lparr>cmd_mac := m\<rparr>)) = take 19 (vcmd_wire pkt)"
  by (simp add: vcmd_wire_def encode_vehicle_cmd_def out_ok_def vcmd_encodable_def)

lemma vcmd_encodable_simps [simp]:
  "vcmd_encodable (pkt\<lparr>cmd_mac := m\<rparr>) = vcmd_encodable pkt"
  "vcmd_encodable (pkt\<lparr>cmd_seq := q\<rparr>) = vcmd_encodable pkt"
  by (simp_all add: vcmd_encodable_def)

lemma vcmd_mac_of_ignores_mac: "vcmd_mac_of (pkt\<lparr>cmd_mac := m\<rparr>) key = vcmd_mac_of pkt key"
  by (simp add: vcmd_mac_of_eq vcmd_mac_def vcmd_wire_mac_irrelevant)

definition vcmd_stamped :: "bytes \<Rightarrow> vehicle_cmd \<Rightarrow> vehicle_cmd" where
  "vcmd_stamped key pkt = pkt\<lparr>cmd_mac := vcmd_mac key (vcmd_wire pkt)\<rparr>"

lemma vcmd_stamped_mac:
  "vcmd_encodable pkt \<Longrightarrow> vcmd_mac_of (vcmd_stamped key pkt) key = Some (cmd_mac (vcmd_stamped key pkt))"
  by (simp add: vcmd_stamped_def vcmd_mac_of_ignores_mac) (simp add: vcmd_mac_of_eq)

lemma vcmd_stamped_simps [simp]:
  "cmd_flags (vcmd_stamped key pkt) = cmd_flags pkt" "vc_prefix (vcmd_stamped key pkt) = vc_prefix pkt"
  "cmd_nonce (vcmd_stamped key pkt) = cmd_nonce pkt" "cmd_id (vcmd_stamped key pkt) = cmd_id pkt"
  "cmd_arg (vcmd_stamped key pkt) = cmd_arg pkt"
  by (simp_all add: vcmd_stamped_def)

section \<open>What the craft executes\<close>

definition vcmd_key :: "vehicle_cmd \<Rightarrow> u16 \<times> u32" where
  "vcmd_key pkt = (originator (vc_prefix pkt), session_id (vc_prefix pkt))"

text \<open>A command of the bound issuer, authenticated and not an echo.\<close>

definition genuine :: "VcmdCraft \<Rightarrow> vehicle_cmd \<Rightarrow> u16 option \<Rightarrow> bool" where
  "genuine c pkt bound \<longleftrightarrow> \<not> has_flag (cmd_flags pkt) vcmd_kAck \<and> vp_psk (cf_policy c) \<noteq> []
     \<and> vcmd_mac_of pkt (vp_psk (cf_policy c)) = Some (cmd_mac pkt)
     \<and> bound = Some (originator (vc_prefix pkt))"

definition executable :: "VcmdCraft \<Rightarrow> vehicle_cmd \<Rightarrow> u64 \<Rightarrow> u16 option \<Rightarrow> bool" where
  "executable c pkt now bound \<longleftrightarrow> genuine c pkt bound
     \<and> (\<forall>ou. cf_last_applied c (vcmd_key pkt) = Some ou \<longrightarrow> oc_nonce ou < cmd_nonce pkt)
     \<and> (cf_last_accept_us c = 0
        \<or> vms_us (vp_min_interval_ms (cf_policy c)) \<le> now - cf_last_accept_us c)"

definition verdict :: "apply_hook \<Rightarrow> vehicle_cmd \<Rightarrow> bool" where
  "verdict app pkt \<longleftrightarrow> (case app of None \<Rightarrow> False | Some g \<Rightarrow> g (cmd_id pkt) (cmd_arg pkt))"

definition outcome_of :: "apply_hook \<Rightarrow> vehicle_cmd \<Rightarrow> Outcome" where
  "outcome_of app pkt = \<lparr>oc_nonce = cmd_nonce pkt, oc_cmd_id = cmd_id pkt,
     oc_cmd_arg = cmd_arg pkt, oc_rejected = (\<not> verdict app pkt)\<rparr>"

lemma on_cmd_executes:
  assumes "executable c pkt now bound"
  shows "on_cmd c pkt now bound app =
    (verdict app pkt,
     queue_echo (c\<lparr>cf_last_applied := (cf_last_applied c)(vcmd_key pkt \<mapsto> outcome_of app pkt),
                   cf_last := outcome_of app pkt, cf_last_accept_us := now\<rparr>)
       (outcome_of app pkt) (originator (vc_prefix pkt)) now)"
proof -
  have dup: "(case cf_last_applied c (vcmd_key pkt) of None \<Rightarrow> None
      | Some ou \<Rightarrow> if cmd_nonce pkt \<le> oc_nonce ou then Some ou else None) = None"
    using assms by (auto simp: executable_def not_le split: option.split)
  have rate: "\<not> (cf_last_accept_us c \<noteq> 0
      \<and> now - cf_last_accept_us c < vms_us (vp_min_interval_ms (cf_policy c)))"
    using assms by (auto simp: executable_def not_less)
  show ?thesis
    using assms
    by (auto simp: on_cmd_def executable_def genuine_def dup [unfolded vcmd_key_def] rate Let_def
        vcmd_key_def outcome_of_def verdict_def split: option.split)
qed

lemma queue_echo_keeps [simp]:
  "cf_last_applied (queue_echo c ou n now) = cf_last_applied c"
  "cf_policy (queue_echo c ou n now) = cf_policy c"
  "cf_self (queue_echo c ou n now) = cf_self c"
  by (simp_all add: queue_echo_def)

lemma on_cmd_ignores:
  assumes "\<not> executable c pkt now bound"
  shows "\<not> fst (on_cmd c pkt now bound app)
    \<and> cf_last_applied (snd (on_cmd c pkt now bound app)) = cf_last_applied c
    \<and> cf_policy (snd (on_cmd c pkt now bound app)) = cf_policy c"
proof -
  have "case on_cmd c pkt now bound app of
      (b, c') \<Rightarrow> \<not> b \<and> cf_last_applied c' = cf_last_applied c \<and> cf_policy c' = cf_policy c"
    using assms
    unfolding on_cmd_def Let_def executable_def genuine_def vcmd_key_def
    by (auto simp: not_less split: option.split)
  then show ?thesis
    by (auto split: prod.splits)
qed

text \<open>A craft executes a command exactly when it is a request (not an echo) with a valid tag from
  the bound issuer, with a fresh nonce and outside the rate limit; it then records the outcome
  of the actuator hook under the issuer session, otherwise it records nothing.\<close>

theorem on_cmd_verdict:
  "fst (on_cmd c pkt now bound app) = (executable c pkt now bound \<and> verdict app pkt)
   \<and> cf_last_applied (snd (on_cmd c pkt now bound app)) =
       (if executable c pkt now bound
        then (cf_last_applied c)(vcmd_key pkt \<mapsto> outcome_of app pkt) else cf_last_applied c)"
  by (cases "executable c pkt now bound") (simp_all add: on_cmd_executes on_cmd_ignores)

section \<open>Runs of a craft\<close>

datatype craft_event =
    CE_cmd vehicle_cmd u64 "u16 option" apply_hook
  | CE_tick u64
  | CE_set_psk bytes

fun craft_step :: "craft_event \<Rightarrow> VcmdCraft \<Rightarrow> VcmdCraft" where
  "craft_step (CE_cmd pkt now bound app) c = snd (on_cmd c pkt now bound app)"
| "craft_step (CE_tick now) c = snd (craft_tick c now)"
| "craft_step (CE_set_psk key) c = craft_set_psk c key"

text \<open>What a craft does with an event, observed on \<open>on_cmd\<close> itself. It executes a command when it
  puts it to the actuator: with an actuator that accepts everything it returns true. It applies
  a command when it returns true with the actuator of the event.\<close>

fun craft_executes :: "craft_event \<Rightarrow> VcmdCraft \<Rightarrow> ((u16 \<times> u32) \<times> u32) option" where
  "craft_executes (CE_cmd pkt now bound app) c =
     (if fst (on_cmd c pkt now bound (Some (\<lambda>_ _. True))) then Some (vcmd_key pkt, cmd_nonce pkt)
      else None)"
| "craft_executes _ c = None"

fun craft_applies :: "craft_event \<Rightarrow> VcmdCraft \<Rightarrow> ((u16 \<times> u32) \<times> u32) option" where
  "craft_applies (CE_cmd pkt now bound app) c =
     (if fst (on_cmd c pkt now bound app) then Some (vcmd_key pkt, cmd_nonce pkt) else None)"
| "craft_applies _ c = None"

lemma verdict_willing [simp]: "verdict (Some (\<lambda>_ _. True)) pkt"
  by (simp add: verdict_def)

lemma executes_iff: "fst (on_cmd c pkt now bound (Some (\<lambda>_ _. True))) = executable c pkt now bound"
  by (simp add: on_cmd_verdict)

lemma applies_executes: "craft_applies e c = Some kn \<Longrightarrow> craft_executes e c = Some kn"
  by (cases e) (auto simp: on_cmd_verdict executes_iff split: if_splits)

lemma applied_log_subseq:
  "subseq (gate_log craft_step craft_applies es c) (gate_log craft_step craft_executes es c)"
proof (induction es arbitrary: c)
  case (Cons e es)
  have "subseq (case craft_applies e c of None \<Rightarrow> [] | Some kn \<Rightarrow> [kn])
          (case craft_executes e c of None \<Rightarrow> [] | Some kn \<Rightarrow> [kn])"
    using applies_executes [of e c] by (cases "craft_applies e c") auto
  then show ?case
    using Cons.IH [of "craft_step e c"] by (simp add: list_emb_append_mono)
qed simp

fun is_craft_rekey :: "craft_event \<Rightarrow> bool" where
  "is_craft_rekey (CE_set_psk key) = True"
| "is_craft_rekey _ = False"

definition craft_last_nonce :: "VcmdCraft \<Rightarrow> (u16 \<times> u32) \<rightharpoonup> u32" where
  "craft_last_nonce c = (\<lambda>k. map_option oc_nonce (cf_last_applied c k))"

interpretation vcmd_gate: nonce_gate craft_step craft_executes craft_last_nonce is_craft_rekey
proof
  fix e s k n m
  assume "craft_executes e s = Some (k, n)" "craft_last_nonce s k = Some m"
  then show "m < n"
    by (cases e) (auto simp: craft_last_nonce_def executes_iff executable_def split: if_splits)
next
  fix e s k n
  assume "craft_executes e s = Some (k, n)"
  then show "craft_last_nonce (craft_step e s) = (craft_last_nonce s)(k \<mapsto> n)"
    by (cases e) (auto simp: craft_last_nonce_def executes_iff on_cmd_executes outcome_of_def split: if_splits)
next
  fix e s
  assume "craft_executes e s = None" "\<not> is_craft_rekey e"
  then show "craft_last_nonce (craft_step e s) = craft_last_nonce s"
    by (cases e) (auto simp: craft_last_nonce_def executes_iff on_cmd_ignores craft_tick_def Let_def
        split: if_splits option.splits)
qed

text \<open>C19: A craft executes a command when on_cmd puts it to the actuator (observed on on_cmd: with an
  actuator that accepts everything it returns true). Over any sequence of commands and ticks
  without a re-key, the nonces of the commands executed for one issuer session are strictly
  increasing, so no command is executed twice; and the commands for which on_cmd returns true
  with the actuator at hand are among them, in the same order.\<close>

theorem craft_executes_at_most_once:
  assumes "\<forall>e\<in>set es. \<not> is_craft_rekey e"
  shows "sorted_wrt (<) (nonces_of k (gate_log craft_step craft_executes es c))
         \<and> distinct (gate_log craft_step craft_executes es c)
         \<and> subseq (gate_log craft_step craft_applies es c) (gate_log craft_step craft_executes es c)"
  using vcmd_gate.log_increasing [OF assms] vcmd_gate.log_distinct [OF assms] applied_log_subseq
  by blast

section \<open>A concrete craft\<close>

definition demo_vcmd_params :: VcmdParams where
  "demo_vcmd_params = \<lparr>vp_psk = [1, 2, 3], vp_copies = 3, vp_copy_interval_ms = 20, vp_echo_copies = 2,
     vp_ack_timeout_ms = 100, vp_retry_cap = 2, vp_min_interval_ms = 500\<rparr>"

definition demo_gs :: common_prefix where
  "demo_gs = \<lparr>originator = 9, destination = 0, session_id = 7\<rparr>"

definition demo_craft :: VcmdCraft where
  "demo_craft = new_craft demo_vcmd_params \<lparr>originator = 5, destination = 0, session_id = 3\<rparr>"

definition demo_cmd :: vehicle_cmd where
  "demo_cmd = vcmd_stamped [1, 2, 3] (empty_vcmd\<lparr>vc_prefix := demo_gs, cmd_nonce := 4, cmd_id := 1, cmd_arg := 2\<rparr>)"

lemma genuine_policy: "cf_policy c' = cf_policy c \<Longrightarrow> genuine c' pkt bound = genuine c pkt bound"
  by (simp add: genuine_def)

lemma demo_executable: "executable demo_craft demo_cmd 50 (Some 9)"
proof -
  have "vcmd_encodable (empty_vcmd\<lparr>vc_prefix := demo_gs, cmd_nonce := 4, cmd_id := 1, cmd_arg := 2\<rparr>)"
    by (simp add: vcmd_encodable_def empty_vcmd_def unknown_bits_def vcmd_arg_in_wire_range_def)
  from vcmd_stamped_mac [OF this, of "[1, 2, 3]"] show ?thesis
    by (simp add: executable_def genuine_def demo_cmd_def demo_craft_def new_craft_def demo_vcmd_params_def
        has_flag_def empty_vcmd_def demo_gs_def)
qed

theorem craft_executes_at_most_once_witness:
  "gate_log craft_step craft_executes [CE_cmd demo_cmd 50 (Some 9) None, CE_cmd demo_cmd 60 (Some 9) None] demo_craft
     = [((9, 7), 4)]
   \<and> distinct (gate_log craft_step craft_executes
       [CE_cmd demo_cmd 50 (Some 9) None, CE_cmd demo_cmd 60 (Some 9) None] demo_craft)"
proof
  have "vcmd_key demo_cmd = (9, 7)" "cmd_nonce demo_cmd = 4"
    by (simp_all add: demo_cmd_def vcmd_key_def demo_gs_def)
  then show "gate_log craft_step craft_executes [CE_cmd demo_cmd 50 (Some 9) None, CE_cmd demo_cmd 60 (Some 9) None] demo_craft
     = [((9, 7), 4)]"
    using demo_executable
    by (simp add: executes_iff on_cmd_executes) (simp add: executable_def outcome_of_def)
qed (use craft_executes_at_most_once [of "[CE_cmd demo_cmd 50 (Some 9) None, CE_cmd demo_cmd 60 (Some 9) None]"] in simp)

end
