(* ===== verification/Vehicle_Cmd_Issuer_Props.thy ===== *)
theory Vehicle_Cmd_Issuer_Props
  imports Vehicle_Cmd_Props
begin

text \<open>
  The command issuer: how many copies a campaign can send, that it always reaches a terminal
  state, and that a command and its echo complete the exchange with the craft's verdict.
\<close>

section \<open>The copy budget\<close>

definition vi_inv :: "VcmdIssuer \<Rightarrow> bool" where
  "vi_inv s \<longleftrightarrow> 0 < vp_copies (vi_policy s)
     \<and> (vi_state s = V_kSending \<longrightarrow> 0 < vi_copies_left s)
     \<and> (vi_active s \<longrightarrow> 0 < vi_campaigns_left s)"

text \<open>How many copies the campaign may still send, and how many due ticks it may still take.\<close>

definition copies_budget :: "VcmdIssuer \<Rightarrow> nat" where
  "copies_budget s =
     (case vi_state s of
        V_kSending \<Rightarrow> unat (vi_copies_left s)
                      + (unat (vi_campaigns_left s) - 1) * unat (vp_copies (vi_policy s))
      | V_kAwaitEcho \<Rightarrow> (unat (vi_campaigns_left s) - 1) * unat (vp_copies (vi_policy s))
      | _ \<Rightarrow> 0)"

definition ticks_left :: "VcmdIssuer \<Rightarrow> nat" where
  "ticks_left s =
     (case vi_state s of
        V_kSending \<Rightarrow> unat (vi_copies_left s) + 1
                      + (unat (vi_campaigns_left s) - 1) * (unat (vp_copies (vi_policy s)) + 1)
      | V_kAwaitEcho \<Rightarrow> 1 + (unat (vi_campaigns_left s) - 1) * (unat (vp_copies (vi_policy s)) + 1)
      | _ \<Rightarrow> 0)"

definition tick_due :: "VcmdIssuer \<Rightarrow> u64 \<Rightarrow> bool" where
  "tick_due s now \<longleftrightarrow>
     (vi_state s = V_kSending \<longrightarrow> vi_next_copy_us s \<le> now)
     \<and> (vi_state s = V_kAwaitEcho \<longrightarrow> vi_echo_deadline_us s \<le> now)"

lemma unat_pos_iff: "0 < (w :: u8) \<longleftrightarrow> 0 < unat w"
  by (simp add: word_less_nat_alt)

lemma unat_dec: "0 < (w :: u8) \<Longrightarrow> unat (w - 1) = unat w - 1 \<and> 0 < unat w"
  using unat_diff_le [of 1 w] by (simp add: word_le_nat_alt unat_pos_iff)

lemma budget_step:
  assumes "vi_inv s"
  shows "vi_inv (snd (vi_tick s now))
    \<and> copies_budget (snd (vi_tick s now)) + (if fst (vi_tick s now) = None then 0 else 1)
      = copies_budget s
    \<and> (vi_active s \<and> tick_due s now \<longrightarrow> ticks_left s = ticks_left (snd (vi_tick s now)) + 1)
    \<and> vi_policy (snd (vi_tick s now)) = vi_policy s"
proof (cases "vi_state s")
  case V_kSending
  then have inv: "0 < vi_copies_left s" "0 < vi_campaigns_left s" "0 < vp_copies (vi_policy s)"
    using assms by (auto simp: vi_inv_def vi_active_def)
  note dec = unat_dec [OF inv(1)]
  have z: "vi_copies_left s - 1 = 0 \<longleftrightarrow> unat (vi_copies_left s) = 1"
    using dec by (auto simp: word_unat_eq_iff)
  show ?thesis
    using V_kSending inv dec z
    by (auto simp: vi_tick_def Let_def vi_inv_def vi_active_def copies_budget_def ticks_left_def
        tick_due_def unat_pos_iff split: option.split)
next
  case V_kAwaitEcho
  then have inv: "0 < vi_campaigns_left s" "0 < vp_copies (vi_policy s)"
    using assms by (auto simp: vi_inv_def vi_active_def)
  note dec = unat_dec [OF inv(1)]
  have z: "vi_campaigns_left s - 1 = 0 \<longleftrightarrow> unat (vi_campaigns_left s) = 1"
    using dec by (auto simp: word_unat_eq_iff)
  obtain k where k: "unat (vi_campaigns_left s) = Suc k"
    using dec by (metis gr0_implies_Suc)
  show ?thesis
    using V_kAwaitEcho inv dec z k
    by (cases k) (auto simp: vi_tick_def Let_def vi_inv_def vi_active_def copies_budget_def ticks_left_def
        tick_due_def unat_pos_iff)
qed (use assms in \<open>auto simp: vi_tick_def vi_inv_def vi_active_def copies_budget_def\<close>)

section \<open>Bounded traffic\<close>

datatype vi_event = VE_tick u64 | VE_echo vehicle_cmd

fun vi_sends :: "vi_event list \<Rightarrow> VcmdIssuer \<Rightarrow> nat" where
  "vi_sends [] s = 0"
| "vi_sends (VE_tick now # es) s =
     (if fst (vi_tick s now) = None then 0 else 1) + vi_sends es (snd (vi_tick s now))"
| "vi_sends (VE_echo pkt # es) s = vi_sends es (snd (on_echo s pkt))"

lemma on_echo_cases:
  "snd (on_echo s pkt) = s \<or> snd (on_echo s pkt) = s\<lparr>vi_state := V_kAcked\<rparr>
   \<or> snd (on_echo s pkt) = s\<lparr>vi_state := V_kRejected\<rparr>"
  by (simp add: on_echo_def)

lemma echo_step:
  assumes "vi_inv s"
  shows "vi_inv (snd (on_echo s pkt)) \<and> copies_budget (snd (on_echo s pkt)) \<le> copies_budget s"
  using on_echo_cases [of s pkt] assms
  by (elim disjE) (simp_all add: vi_inv_def vi_active_def copies_budget_def)

lemma sends_within_budget: "vi_inv s \<Longrightarrow> vi_sends es s \<le> copies_budget s"
proof (induction es s rule: vi_sends.induct)
  case (2 now es s)
  then show ?case
    using budget_step [OF 2(2), of now] by (auto split: if_splits)
next
  case (3 pkt es s)
  then show ?case
    using echo_step [OF 3(2), of pkt] by fastforce
qed simp

lemma started:
  assumes "vi_start s pfx tgt cid arg now = (True, s')"
    and "0 < vp_copies (vi_policy s)" and "0 < vp_retry_cap (vi_policy s)"
  shows "vi_inv s' \<and> copies_budget s' = unat (vp_copies (vi_policy s)) * unat (vp_retry_cap (vi_policy s))
    \<and> ticks_left s' = (unat (vp_copies (vi_policy s)) + 1) * unat (vp_retry_cap (vi_policy s))
    \<and> vi_policy s' = vi_policy s \<and> vi_active s' \<and> vi_state s' = V_kSending \<and> vi_next_copy_us s' = now"
proof -
  obtain r where r: "unat (vp_retry_cap (vi_policy s)) = Suc r"
    using assms(3) by (metis gr0_implies_Suc unat_pos_iff)
  show ?thesis
    using assms r
    by (auto simp: vi_start_def vi_inv_def vi_active_def copies_budget_def ticks_left_def
        split: if_splits)
qed

text \<open>A command campaign sends at most copies * retry_cap packets, whatever ticks and echoes
  follow.\<close>

theorem vcmd_copies_bounded:
  assumes "vi_start s pfx tgt cid arg now = (True, s')"
    and "0 < vp_copies (vi_policy s)" and "0 < vp_retry_cap (vi_policy s)"
  shows "vi_sends es s' \<le> unat (vp_copies (vi_policy s)) * unat (vp_retry_cap (vi_policy s))"
  using started [OF assms] sends_within_budget [of s' es] by simp

section \<open>Termination\<close>

definition vi_gap :: "VcmdParams \<Rightarrow> nat" where
  "vi_gap p = max (unat (vms_us (vp_copy_interval_ms p))) (unat (vms_us (vp_ack_timeout_ms p)))"

fun spaced :: "nat \<Rightarrow> u64 \<Rightarrow> u64 list \<Rightarrow> bool" where
  "spaced gap t [] = True"
| "spaced gap t (u # us) = (unat t + gap \<le> unat u \<and> spaced gap u us)"

definition due_by :: "VcmdIssuer \<Rightarrow> u64 \<Rightarrow> bool" where
  "due_by s t \<longleftrightarrow>
     (vi_state s = V_kSending \<longrightarrow> unat (vi_next_copy_us s) \<le> unat t + vi_gap (vi_policy s))
     \<and> (vi_state s = V_kAwaitEcho \<longrightarrow> unat (vi_echo_deadline_us s) \<le> unat t + vi_gap (vi_policy s))"

lemma unat_add_le: "unat ((a :: 'a::len word) + b) \<le> unat a + unat b"
  by (simp add: unat_word_ariths)

lemma due_by_tick:
  assumes "due_by s t" and "unat t + vi_gap (vi_policy s) \<le> unat u"
  shows "tick_due s u \<and> due_by (snd (vi_tick s u)) u"
proof -
  have "unat (u + vms_us (vp_copy_interval_ms (vi_policy s))) \<le> unat u + vi_gap (vi_policy s)"
    "unat (u + vms_us (vp_ack_timeout_ms (vi_policy s))) \<le> unat u + vi_gap (vi_policy s)"
    using unat_add_le [of u "vms_us (vp_copy_interval_ms (vi_policy s))"]
      unat_add_le [of u "vms_us (vp_ack_timeout_ms (vi_policy s))"] by (simp_all add: vi_gap_def)
  then show ?thesis
    using assms
    by (auto simp: due_by_def tick_due_def vi_tick_def Let_def word_le_nat_alt
        split: VcmdIssuerState.splits)
qed

definition vi_ticks :: "VcmdIssuer \<Rightarrow> u64 list \<Rightarrow> VcmdIssuer" where
  "vi_ticks s ts = fold (\<lambda>t s. snd (vi_tick s t)) ts s"

lemma vi_ticks_end:
  assumes "vi_inv s" and "due_by s t" and "spaced (vi_gap (vi_policy s)) t ts"
    and "ticks_left s \<le> length ts"
  shows "\<not> vi_active (vi_ticks s ts)"
  using assms
proof (induction ts arbitrary: s t)
  case Nil
  then show ?case
    by (auto simp: ticks_left_def vi_active_def vi_ticks_def split: VcmdIssuerState.splits)
next
  case (Cons u ts)
  let ?s = "snd (vi_tick s u)"
  have d: "tick_due s u" "due_by ?s u"
    using due_by_tick [of s t u] Cons.prems by auto
  have "ticks_left ?s \<le> length ts"
  proof (cases "vi_active s")
    case True
    then show ?thesis
      using budget_step [OF Cons.prems(1), of u] d Cons.prems(4) by auto
  next
    case False
    then show ?thesis
      by (auto simp: vi_tick_def ticks_left_def vi_active_def split: VcmdIssuerState.splits)
  qed
  then show ?case
    using Cons.IH [of ?s u] Cons.prems d budget_step [OF Cons.prems(1), of u]
    by (simp add: vi_ticks_def)
qed

text \<open>A command campaign always ends: (copies + 1) * retry_cap ticks, each later than the last by
  the copy interval and the echo timeout, leave the issuer in a terminal state.\<close>

theorem vcmd_campaign_ends:
  assumes "vi_start s pfx tgt cid arg now = (True, s')"
    and "0 < vp_copies (vi_policy s)" and "0 < vp_retry_cap (vi_policy s)"
    and "spaced (vi_gap (vi_policy s)) now ts"
    and "(unat (vp_copies (vi_policy s)) + 1) * unat (vp_retry_cap (vi_policy s)) \<le> length ts"
  shows "\<not> vi_active (vi_ticks s' ts)"
  using started [OF assms(1-3)] assms(4,5)
  by (intro vi_ticks_end [of s' now]) (auto simp: due_by_def)

section \<open>The exchange\<close>

text \<open>A repeated command (same nonce, id and argument as the remembered outcome) does not run the
  actuator hook again: it only queues the remembered outcome as an echo.\<close>

theorem vcmd_retry_is_idempotent:
  assumes "genuine c pkt bound" and "cf_last_applied c (vcmd_key pkt) = Some ou"
    and "cmd_nonce pkt = oc_nonce ou" and "cmd_id pkt = oc_cmd_id ou" and "cmd_arg pkt = oc_cmd_arg ou"
  shows "on_cmd c pkt now bound app = (False, queue_echo c ou (originator (vc_prefix pkt)) now)"
  using assms by (simp add: on_cmd_def genuine_def vcmd_key_def Let_def)

lemma first_copy:
  assumes "vi_state s = V_kSending" and "vi_next_copy_us s \<le> t" and "vcmd_encodable (vi_tmpl s)"
  shows "\<exists>s1. vi_tick s t = (Some (vcmd_stamped (vp_psk (vi_policy s))
                 ((vi_tmpl s)\<lparr>cmd_seq := vi_copies_left s\<rparr>)), s1)
     \<and> vi_active s1 \<and> vi_target s1 = vi_target s \<and> vi_tmpl s1 = vi_tmpl s \<and> vi_policy s1 = vi_policy s"
  using assms
  by (simp add: vi_tick_def vcmd_mac_of_eq vcmd_stamped_def vi_active_def Let_def)

lemma ack_flags:
  "has_flag (vcmd_kAck OR (if r then vcmd_kRejected else 0)) vcmd_kAck"
  "has_flag (vcmd_kAck OR (if r then vcmd_kRejected else 0)) vcmd_kRejected = r"
  "\<not> unknown_bits (vcmd_kAck OR (if r then vcmd_kRejected else 0)) vcmd_known_mask"
  by (simp_all add: has_flag_def unknown_bits_def)

lemma echo_of_execution:
  assumes "\<not> cf_echoed_once c \<or> cf_last_echo_nonce c \<noteq> oc_nonce ou"
    and "0 < vp_echo_copies (cf_policy c)" and "now \<le> now2"
    and "vcmd_arg_in_wire_range (oc_cmd_id ou) (oc_cmd_arg ou)"
  shows "\<exists>e c2. craft_tick (queue_echo c ou to_node now) now2 = (Some e, c2)
    \<and> vcmd_mac_of e (vp_psk (cf_policy c)) = Some (cmd_mac e)
    \<and> originator (vc_prefix e) = originator (cf_self c)
    \<and> cmd_nonce e = oc_nonce ou \<and> cmd_id e = oc_cmd_id ou \<and> cmd_arg e = oc_cmd_arg ou
    \<and> cmd_flags e = vcmd_kAck OR (if oc_rejected ou then vcmd_kRejected else 0)"
proof -
  define out where "out = (cf_echo (queue_echo c ou to_node now))\<lparr>cmd_seq := vp_echo_copies (cf_policy c)\<rparr>"
  have q: "cf_echoes_left (queue_echo c ou to_node now) = vp_echo_copies (cf_policy c)"
    "cf_next_echo_us (queue_echo c ou to_node now) = now"
    using assms(1) by (auto simp: queue_echo_def)
  have f: "cmd_flags out = vcmd_kAck OR (if oc_rejected ou then vcmd_kRejected else 0)"
    "originator (vc_prefix out) = originator (cf_self c)"
    "cmd_nonce out = oc_nonce ou" "cmd_id out = oc_cmd_id ou" "cmd_arg out = oc_cmd_arg ou"
    using assms(1) by (auto simp: out_def queue_echo_def)
  have enc: "vcmd_encodable out"
    unfolding vcmd_encodable_def f using assms(4) ack_flags(3) by blast
  have "craft_tick (queue_echo c ou to_node now) now2 = (Some (vcmd_stamped (vp_psk (cf_policy c)) out),
      snd (craft_tick (queue_echo c ou to_node now) now2))"
    using assms(2,3) enc q
    by (simp add: craft_tick_def out_def Let_def vcmd_mac_of_eq vcmd_stamped_def word_gt_0 not_less)
  then show ?thesis
    using vcmd_stamped_mac [OF enc, of "vp_psk (cf_policy c)"] f
    by (intro exI [of _ "vcmd_stamped (vp_psk (cf_policy c)) out"] exI) simp
qed

text \<open>C20: A command and its echo complete the exchange: the first copy an issuer sends is executed by
  a craft with the same key that is free to accept it, the craft's next echo carries the verdict
  of the actuator hook, and the issuer ends acknowledged or rejected accordingly.\<close>

theorem vcmd_exchange:
  assumes start: "vi_start s0 pfx (originator (cf_self c)) cid arg t0 = (True, s)" "t0 \<le> t"
    and craft: "vp_psk (cf_policy c) = vp_psk (vi_policy s0)" "0 < vp_echo_copies (cf_policy c)"
    and fresh: "\<forall>ou. cf_last_applied c (originator pfx, session_id pfx) = Some ou
                  \<longrightarrow> oc_nonce ou < vi_next_nonce s0"
    and rate: "cf_last_accept_us c = 0
                 \<or> vms_us (vp_min_interval_ms (cf_policy c)) \<le> now - cf_last_accept_us c"
    and echo: "\<not> cf_echoed_once c \<or> cf_last_echo_nonce c \<noteq> vi_next_nonce s0" "now \<le> now2"
  shows "\<exists>pkt s1 e c2. vi_tick s t = (Some pkt, s1)
    \<and> craft_tick (snd (on_cmd c pkt now (Some (originator pfx)) app)) now2 = (Some e, c2)
    \<and> on_echo s1 e = (True, s1\<lparr>vi_state :=
         (if (case app of None \<Rightarrow> False | Some g \<Rightarrow> g cid arg) then V_kAcked else V_kRejected)\<rparr>)"
proof -
  have s: "vi_state s = V_kSending" "vi_next_copy_us s = t0" "vi_policy s = vi_policy s0"
    "vi_target s = originator (cf_self c)" "vp_psk (vi_policy s0) \<noteq> []"
    "vi_tmpl s = empty_vcmd\<lparr>vc_prefix := pfx\<lparr>destination := originator (cf_self c)\<rparr>,
       cmd_nonce := vi_next_nonce s0, cmd_id := cid, cmd_arg := arg\<rparr>"
    and range: "vcmd_arg_in_wire_range cid arg"
    using start(1) by (auto simp: vi_start_def split: if_splits)
  have enc: "vcmd_encodable (vi_tmpl s)"
    using range by (simp add: s vcmd_encodable_def empty_vcmd_def unknown_bits_def)
  define pkt where "pkt = vcmd_stamped (vp_psk (vi_policy s)) ((vi_tmpl s)\<lparr>cmd_seq := vi_copies_left s\<rparr>)"
  obtain s1 where tick: "vi_tick s t = (Some pkt, s1)" "vi_active s1" "vi_target s1 = vi_target s"
    "vi_tmpl s1 = vi_tmpl s" "vi_policy s1 = vi_policy s"
    using first_copy [OF s(1) _ enc, of t] start(2) s(2) unfolding pkt_def by auto
  have mac: "vcmd_mac_of pkt (vp_psk (vi_policy s)) = Some (cmd_mac pkt)"
    unfolding pkt_def using enc by (intro vcmd_stamped_mac) simp
  have fields: "vcmd_key pkt = (originator pfx, session_id pfx)" "cmd_flags pkt = 0"
    "cmd_nonce pkt = vi_next_nonce s0" "cmd_id pkt = cid" "cmd_arg pkt = arg"
    by (simp_all add: pkt_def s vcmd_key_def empty_vcmd_def)
  have ex: "executable c pkt now (Some (originator pfx))"
    using mac fields fresh rate craft s
    by (auto simp: executable_def genuine_def has_flag_def vcmd_key_def)
  define ou where "ou = outcome_of app pkt"
  define c1 where "c1 = c\<lparr>cf_last_applied := (cf_last_applied c)(vcmd_key pkt \<mapsto> ou),
    cf_last := ou, cf_last_accept_us := now\<rparr>"
  have run: "snd (on_cmd c pkt now (Some (originator pfx)) app)
      = queue_echo c1 ou (originator (vc_prefix pkt)) now"
    using on_cmd_executes [OF ex] by (simp add: c1_def ou_def)
  obtain e c2 where e: "craft_tick (queue_echo c1 ou (originator (vc_prefix pkt)) now) now2 = (Some e, c2)"
    "vcmd_mac_of e (vp_psk (cf_policy c)) = Some (cmd_mac e)"
    "originator (vc_prefix e) = originator (cf_self c)" "cmd_nonce e = oc_nonce ou"
    "cmd_id e = oc_cmd_id ou" "cmd_arg e = oc_cmd_arg ou"
    "cmd_flags e = vcmd_kAck OR (if oc_rejected ou then vcmd_kRejected else 0)"
    using echo_of_execution [of c1 ou now now2 "originator (vc_prefix pkt)"] echo craft(2) range fields
    by (auto simp: c1_def ou_def outcome_of_def)
  have v: "verdict app pkt = (case app of None \<Rightarrow> False | Some g \<Rightarrow> g cid arg)"
    by (simp add: verdict_def fields cong: option.case_cong)
  have "on_echo s1 e = (True, s1\<lparr>vi_state := (if verdict app pkt then V_kAcked else V_kRejected)\<rparr>)"
    using tick e s craft(1) fields ack_flags [of "oc_rejected ou"]
    by (auto simp: on_echo_def vi_active_def ou_def outcome_of_def empty_vcmd_def)
  then show ?thesis
    using tick(1) run e(1) v by auto
qed

section \<open>A concrete exchange\<close>

definition demo_vcmd_start :: "bool \<times> VcmdIssuer" where
  "demo_vcmd_start = vi_start (new_vcmd_issuer demo_vcmd_params) demo_gs 5 1 2 1000"

lemma demo_started: "vi_start (new_vcmd_issuer demo_vcmd_params) demo_gs 5 1 2 1000 = (True, snd demo_vcmd_start)"
  by (simp add: demo_vcmd_start_def vi_start_def new_vcmd_issuer_def vi_active_def demo_vcmd_params_def
      vcmd_arg_in_wire_range_def)

lemma demo_vcmd_policy [simp]: "vi_policy (new_vcmd_issuer p) = p"
  by (simp add: new_vcmd_issuer_def)

theorem vcmd_copies_bounded_witness:
  "vi_sends [VE_tick 1000, VE_tick 30000, VE_tick 60000, VE_tick 200000, VE_tick 230000] (snd demo_vcmd_start) \<le> 6"
  using vcmd_copies_bounded [OF demo_started, of "[VE_tick 1000, VE_tick 30000, VE_tick 60000, VE_tick 200000, VE_tick 230000]"]
  by (simp add: demo_vcmd_params_def)

theorem vcmd_campaign_ends_witness:
  "\<not> vi_active (vi_ticks (snd demo_vcmd_start)
     [101000, 201000, 301000, 401000, 501000, 601000, 701000, 801000])"
proof (rule vcmd_campaign_ends [OF demo_started])
  have "vi_gap demo_vcmd_params = 100000"
    by (simp add: vi_gap_def demo_vcmd_params_def vms_us_def)
  then show "spaced (vi_gap (vi_policy (new_vcmd_issuer demo_vcmd_params))) 1000
      [101000, 201000, 301000, 401000, 501000, 601000, 701000, 801000]"
    by simp
qed (simp_all add: demo_vcmd_params_def)

theorem vcmd_retry_is_idempotent_witness:
  "on_cmd (snd (on_cmd demo_craft demo_cmd 50 (Some 9) None)) demo_cmd 60 (Some 9) None
     = (False, queue_echo (snd (on_cmd demo_craft demo_cmd 50 (Some 9) None)) (outcome_of None demo_cmd) 9 60)"
proof -
  have o9: "originator (vc_prefix demo_cmd) = 9"
    by (simp add: demo_cmd_def demo_gs_def)
  note run = on_cmd_executes [OF demo_executable, of None]
  have pol: "cf_policy (snd (on_cmd demo_craft demo_cmd 50 (Some 9) None)) = cf_policy demo_craft"
    unfolding run by simp
  have gen: "genuine (snd (on_cmd demo_craft demo_cmd 50 (Some 9) None)) demo_cmd (Some 9)"
    using demo_executable genuine_policy [OF pol] by (auto simp: executable_def)
  have last: "cf_last_applied (snd (on_cmd demo_craft demo_cmd 50 (Some 9) None)) (vcmd_key demo_cmd)
      = Some (outcome_of None demo_cmd)"
    unfolding run by simp
  have same: "cmd_nonce demo_cmd = oc_nonce (outcome_of None demo_cmd)" "cmd_id demo_cmd = oc_cmd_id (outcome_of None demo_cmd)"
    "cmd_arg demo_cmd = oc_cmd_arg (outcome_of None demo_cmd)"
    by (simp_all add: outcome_of_def)
  show ?thesis
    using vcmd_retry_is_idempotent [OF gen last same] unfolding o9 by blast
qed

theorem vcmd_exchange_witness:
  "\<exists>pkt s1 e c2. vi_tick (snd demo_vcmd_start) 1000 = (Some pkt, s1)
    \<and> craft_tick (snd (on_cmd demo_craft pkt 1500 (Some 9) (Some (\<lambda>_ _. True)))) 1600 = (Some e, c2)
    \<and> on_echo s1 e = (True, s1\<lparr>vi_state := V_kAcked\<rparr>)"
  using vcmd_exchange [of "new_vcmd_issuer demo_vcmd_params" demo_gs demo_craft 1 2 1000 "snd demo_vcmd_start"
      1000 1500 1600 "Some (\<lambda>_ _. True)"] demo_started
  by (simp add: demo_craft_def new_craft_def) (simp add: demo_vcmd_params_def demo_gs_def)

end
