(* ===== verification/Gf256.thy ===== *)
theory Gf256
  imports Prelude
begin

text \<open>
  core/include/wblink/gf256.h and core/src/gf256.cpp: arithmetic in GF(256) by log/exp
  tables. The tables are built by the constructor's loops; multiplication is then proved
  equal to polynomial multiplication modulo 0x11D (\<open>pmul\<close>), from which the field laws
  follow, and the bytes become an instance of the type class \<open>field\<close>.
\<close>

section \<open>Tables and operations\<close>

definition gf_add :: "u8 \<Rightarrow> u8 \<Rightarrow> u8" where
  "gf_add a b = a XOR b"

text \<open>One pass of the constructor's first loop, on \<open>(x, exp, log)\<close>.\<close>

definition gf_tables_step :: "nat \<Rightarrow> u16 \<times> u8 list \<times> u8 list \<Rightarrow> u16 \<times> u8 list \<times> u8 list" where
  "gf_tables_step i = (\<lambda>(x, ex, lg).
     let ex' = ex[i := ucast x];
         lg' = lg[unat (ucast x :: u8) := of_nat i];
         x' = push_bit 1 x;
         x'' = (if x' AND 0x100 \<noteq> 0 then x' XOR 0x11D else x')
     in (x'', ex', lg'))"

definition gf_tables_loop :: "u16 \<times> u8 list \<times> u8 list" where
  "gf_tables_loop = fold gf_tables_step [0..<255] (1, replicate 512 0, replicate 256 0)"

definition gf_exp_table :: "u8 list" where
  "gf_exp_table = fold (\<lambda>i ex. ex[i := ex ! (i - 255)]) [255..<512] (fst (snd gf_tables_loop))"

definition gf_log_table :: "u8 list" where
  "gf_log_table = (snd (snd gf_tables_loop))[0 := 0]"

definition gf_mul :: "u8 \<Rightarrow> u8 \<Rightarrow> u8" where
  "gf_mul a b = (if a = 0 \<or> b = 0 then 0
     else gf_exp_table ! (unat (gf_log_table ! unat a) + unat (gf_log_table ! unat b)))"

definition gf_inv :: "u8 \<Rightarrow> u8" where
  "gf_inv a = gf_exp_table ! (255 - unat (gf_log_table ! unat a))"

text \<open>The nibble product tables and the two ways \<open>gf_mul_xor\<close> runs: byte by byte, and
  sixteen bytes at a time through the nibble tables with a byte-wise tail.\<close>

definition gf_product :: "u8 \<Rightarrow> u8 \<Rightarrow> u8" where
  "gf_product coefficient value = (if coefficient = 0 \<or> value = 0 then 0
     else gf_exp_table ! (unat (gf_log_table ! unat coefficient)
                          + unat (gf_log_table ! unat value)))"

definition mul_lo :: "u8 \<Rightarrow> nat \<Rightarrow> u8" where
  "mul_lo coefficient nibble = gf_product coefficient (of_nat nibble)"

definition mul_hi :: "u8 \<Rightarrow> nat \<Rightarrow> u8" where
  "mul_hi coefficient nibble = gf_product coefficient (push_bit 4 (of_nat nibble))"

definition gf_mul_xor_tail :: "u8 \<Rightarrow> bytes \<Rightarrow> bytes \<Rightarrow> bytes" where
  "gf_mul_xor_tail coefficient input out =
     map2 (\<lambda>v o'. if v \<noteq> 0
        then o' XOR gf_exp_table ! (unat (gf_log_table ! unat coefficient)
                                    + unat (gf_log_table ! unat v))
        else o') input out"

definition gf_mul_xor :: "u8 \<Rightarrow> bytes \<Rightarrow> bytes \<Rightarrow> bytes" where
  "gf_mul_xor coefficient input out =
     (if coefficient = 0 then out
      else if coefficient = 1 then map2 (\<lambda>v o'. o' XOR v) input out
      else gf_mul_xor_tail coefficient input out)"

definition neon_multiply :: "u8 \<Rightarrow> u8 \<Rightarrow> u8" where
  "neon_multiply coefficient v =
     mul_lo coefficient (unat (v AND 0x0f)) XOR mul_hi coefficient (unat (drop_bit 4 v))"

fun gf_mul_xor_neon_loop :: "u8 \<Rightarrow> bytes \<Rightarrow> bytes \<Rightarrow> nat \<Rightarrow> bytes" where
  "gf_mul_xor_neon_loop coefficient input out 0 = gf_mul_xor_tail coefficient input out"
| "gf_mul_xor_neon_loop coefficient input out (Suc blocks) =
     map2 (\<lambda>v o'. o' XOR neon_multiply coefficient v) (take 16 input) (take 16 out)
     @ gf_mul_xor_neon_loop coefficient (drop 16 input) (drop 16 out) blocks"

definition gf_mul_xor_neon :: "u8 \<Rightarrow> bytes \<Rightarrow> bytes \<Rightarrow> bytes" where
  "gf_mul_xor_neon coefficient input out =
     (if coefficient = 0 then out
      else if coefficient = 1 then map2 (\<lambda>v o'. o' XOR v) input out
      else gf_mul_xor_neon_loop coefficient input out (length input div 16))"

section \<open>Reference: polynomials modulo 0x11D\<close>

definition xtime :: "u8 \<Rightarrow> u8" where
  "xtime x = (if bit x 7 then push_bit 1 x XOR 0x1D else push_bit 1 x)"

fun pmul_upto :: "nat \<Rightarrow> u8 \<Rightarrow> u8 \<Rightarrow> u8" where
  "pmul_upto 0 a b = 0"
| "pmul_upto (Suc n) a b = pmul_upto n a b XOR (if bit b n then (xtime ^^ n) a else 0)"

definition pmul :: "u8 \<Rightarrow> u8 \<Rightarrow> u8" where
  "pmul a b = pmul_upto 8 a b"

abbreviation gpow :: "nat \<Rightarrow> u8" where
  "gpow n \<equiv> (xtime ^^ n) 1"

lemma xtime_0 [simp]: "xtime 0 = 0"
  by (simp add: xtime_def)

lemma xtime_xor: "xtime (x XOR y) = xtime x XOR xtime y"
  by (rule bit_word_eqI) (auto simp: xtime_def bit_simps)

lemma xtime_pow_0 [simp]: "(xtime ^^ n) 0 = 0"
  by (induction n) simp_all

lemma xtime_pow_xor: "(xtime ^^ n) (x XOR y) = (xtime ^^ n) x XOR (xtime ^^ n) y"
  by (induction n) (simp_all add: xtime_xor)

text \<open>Evaluation on numerals: test the top bit by a mask.\<close>

lemma xtime_eval: "xtime x = (if x AND 0x80 \<noteq> 0 then push_bit 1 x XOR 0x1D else push_bit 1 x)"
  by (simp add: xtime_def and_128_bit)

lemma funpow_num: "(f ^^ numeral k) x = (f ^^ pred_numeral k) (f x)"
  by (simp add: numeral_eq_Suc funpow_swap1)

lemma gpow_255: "gpow 255 = 1"
  by (simp add: xtime_eval funpow_num)

lemma gpow_85: "gpow 85 = 214" and gpow_51: "gpow 51 = 10" and gpow_15: "gpow 15 = 38"
  by (simp_all add: xtime_eval funpow_num)

text \<open>\<open>xtime\<close> is injective, and the powers of 2 repeat with period exactly 255.\<close>

lemma xtime_eq_0: "xtime x = 0 \<longleftrightarrow> x = 0"
proof
  assume 0: "xtime x = 0"
  have n7: "\<not> bit x 7"
  proof
    assume "bit x 7"
    with 0 have "\<not> bit (push_bit 1 x XOR 0x1D) 0"
      by (simp add: xtime_def)
    then show False
      by (simp add: bit_0 even_xor_iff)
  qed
  with 0 have sh: "push_bit 1 x = 0"
    by (simp add: xtime_def)
  show "x = 0"
  proof (rule bit_word_eqI)
    fix n assume "n < LENGTH(8)"
    then consider "n = 7" | "n < 7" by force
    then show "bit x n = bit 0 n"
    proof cases
      case 2
      have "bit (push_bit 1 x) (Suc n) = bit x n"
        using 2 by (simp only: bit_push_bit_iff) simp
      then show ?thesis
        using sh by simp
    qed (use n7 in simp)
  qed
qed simp

lemma xtime_pow_eq_0: "(xtime ^^ n) x = 0 \<longleftrightarrow> x = 0"
  by (induction n) (simp_all add: xtime_eq_0)

lemma xtime_pow_inj: "(xtime ^^ n) x = (xtime ^^ n) y \<longleftrightarrow> x = y"
  by (metis xor_eq_0_iff xtime_pow_eq_0 xtime_pow_xor)

lemma gpow_add: "gpow (m + n) = (xtime ^^ m) (gpow n)"
  by (simp add: funpow_add)

lemma gpow_mult_period: "gpow d = 1 \<Longrightarrow> gpow (d * k) = 1"
  by (induction k) (simp_all add: gpow_add add.commute)

lemma gpow_mod: "gpow (n mod 255) = gpow n"
proof -
  have "gpow n = (xtime ^^ (n mod 255)) (gpow (255 * (n div 255)))"
    by (metis gpow_add mod_mult_div_eq)
  then show ?thesis
    by (simp add: gpow_mult_period gpow_255)
qed

lemma proper_divisors_255:
  assumes "g dvd 255" and "g < (255 :: nat)"
  shows "g dvd 85 \<or> g dvd 51 \<or> g dvd 15"
proof -
  have "\<forall>g \<in> set [1..<255]. g dvd 255 \<longrightarrow> g dvd 85 \<or> g dvd 51 \<or> g dvd (15 :: nat)"
    by code_simp
  moreover have "g \<in> set [1..<255]"
    using assms by (cases "g = 0") auto
  ultimately show ?thesis
    using assms by blast
qed

lemma gpow_dvd: "gpow d = 1 \<Longrightarrow> d dvd n \<Longrightarrow> gpow n = 1"
  by (metis dvd_def gpow_mult_period)

lemma gpow_no_proper_divisor:
  assumes "gpow g = 1" and "g dvd 255" and "g < 255"
  shows False
proof -
  consider "g dvd 85" | "g dvd 51" | "g dvd 15"
    using proper_divisors_255 [OF assms(2,3)] by blast
  then show False
    using gpow_dvd [OF assms(1)] gpow_85 gpow_51 gpow_15 by cases fastforce+
qed

lemma gpow_period:
  assumes "gpow d = 1" and "0 < d" and "d < 255"
  shows False
proof -
  obtain g x y where g: "g = gcd d 255" and xy: "d * x = 255 * y + g"
    using bezout_nat [of d 255] assms(2) by blast
  have "1 = gpow (g + 255 * y)"
    using gpow_mult_period [OF assms(1), of x] by (simp only: xy add.commute)
  also have "\<dots> = (xtime ^^ g) (gpow (255 * y))"
    by (rule gpow_add)
  also have "gpow (255 * y) = 1"
    by (rule gpow_mult_period [OF gpow_255])
  finally have "gpow g = 1"
    by (rule sym)
  moreover have "g dvd 255" and "g \<le> d"
    using assms(2) gcd_le1_nat [of d 255] by (simp_all only: g gcd_dvd2)
  ultimately show False
    using assms(3) by (intro gpow_no_proper_divisor [of g]) simp_all
qed

lemma gpow_inj: "inj_on gpow {..<255}"
proof (rule linorder_inj_onI)
  fix i j :: nat
  assume ij: "i < j" "i \<in> {..<255}" "j \<in> {..<255}"
  have "gpow j = (xtime ^^ i) (gpow (j - i))"
    using ij(1) by (metis gpow_add le_add_diff_inverse less_imp_le)
  moreover have "gpow (j - i) \<noteq> 1"
    using gpow_period [of "j - i"] ij by (auto simp: less_imp_diff_less)
  ultimately show "gpow i \<noteq> gpow j"
    using xtime_pow_inj [of i 1 "gpow (j - i)"] by auto
qed auto

lemma gpow_nonzero [simp]: "gpow n \<noteq> 0"
  by (simp add: xtime_pow_eq_0)

lemma gpow_surj:
  assumes "a \<noteq> 0"
  obtains i where "i < 255" and "gpow i = a"
proof -
  have card: "card (gpow ` {..<255}) = 255"
    by (simp add: card_image gpow_inj)
  have univ: "card (UNIV :: u8 set) = 256"
    by (simp add: card_word)
  have "gpow ` {..<255} = UNIV - {0}"
    by (rule card_subset_eq) (auto simp: card univ card_Diff_subset)
  then have "a \<in> gpow ` {..<255}"
    using assms by blast
  then show thesis
    using that by auto
qed

section \<open>Polynomial multiplication is a field multiplication\<close>

lemma pmul_upto_xor1: "pmul_upto n (x XOR y) b = pmul_upto n x b XOR pmul_upto n y b"
  by (induction n) (simp_all add: xtime_pow_xor xor.assoc xor.left_commute)

lemma pmul_upto_xtime: "pmul_upto n (xtime x) b = xtime (pmul_upto n x b)"
  by (induction n) (simp_all add: xtime_xor funpow_swap1)

lemma pmul_upto_zero1 [simp]: "pmul_upto n 0 b = 0"
  by (induction n) simp_all

lemma pmul_upto_linear:
  assumes "\<And>x y. L (x XOR y) = L x XOR L y" and "\<And>x. L (xtime x) = xtime (L x)"
  shows "L (pmul_upto n a b) = pmul_upto n (L a) b"
proof -
  have zero: "L 0 = 0"
    using assms(1) [of 0 0] by simp
  have pow: "L ((xtime ^^ m) x) = (xtime ^^ m) (L x)" for m x
    by (induction m) (simp_all add: assms(2))
  show ?thesis
    by (induction n) (simp_all add: zero assms(1) pow)
qed

lemma gpow_small: "n < 8 \<Longrightarrow> gpow n = push_bit n 1"
proof (induction n)
  case (Suc n)
  then have "gpow (Suc n) = xtime (push_bit n 1)"
    by simp
  also have "\<dots> = push_bit 1 (push_bit n 1)"
    using Suc.prems by (simp add: xtime_def bit_exp_iff)
  finally show ?case
    by (simp only: push_bit_push_bit) simp
qed simp

lemma pmul_upto_one: "n \<le> 8 \<Longrightarrow> pmul_upto n 1 x = take_bit n x"
proof (induction n)
  case (Suc n)
  then have "pmul_upto (Suc n) 1 x = take_bit n x XOR (if bit x n then push_bit n 1 else 0)"
    by (simp add: gpow_small)
  also have "\<dots> = take_bit (Suc n) x"
    by (rule bit_word_eqI) (auto simp: bit_simps less_Suc_eq bit_1_iff)
  finally show ?case .
qed simp

lemma pmul_one_left [simp]: "pmul 1 x = x"
  by (simp add: pmul_def pmul_upto_one take_bit_word_eq_self)

text \<open>Every additive map that commutes with \<open>xtime\<close> is a multiplication.\<close>

lemma linear_is_pmul:
  assumes "\<And>x y. L (x XOR y) = L x XOR L y" and "\<And>x. L (xtime x) = xtime (L x)"
  shows "L x = pmul (L 1) x"
proof -
  have "L x = L (pmul 1 x)"
    by simp
  also have "\<dots> = pmul (L 1) x"
    using assms by (simp only: pmul_def pmul_upto_linear)
  finally show ?thesis .
qed

lemma pmul_xor_left: "pmul (x XOR y) b = pmul x b XOR pmul y b"
  by (simp add: pmul_def pmul_upto_xor1)

lemma pmul_xtime_left: "pmul (xtime x) b = xtime (pmul x b)"
  by (simp add: pmul_def pmul_upto_xtime)

lemma pmul_commute: "pmul a b = pmul b a"
  using linear_is_pmul [where L = "\<lambda>x. pmul x b" and x = a]
  by (simp add: pmul_xor_left pmul_xtime_left)

lemma pmul_assoc: "pmul (pmul a b) c = pmul a (pmul b c)"
proof -
  have "pmul (pmul a b) c = pmul (pmul b c) a"
    using linear_is_pmul [where L = "\<lambda>x. pmul (pmul x b) c" and x = a]
    by (simp add: pmul_xor_left pmul_xtime_left)
  then show ?thesis
    by (simp add: pmul_commute)
qed

lemma xtime_pow_pmul: "(xtime ^^ n) x = pmul (gpow n) x"
  by (rule linear_is_pmul [where L = "xtime ^^ n"]) (simp_all add: xtime_pow_xor funpow_swap1)

lemma pmul_gpow: "pmul (gpow m) (gpow n) = gpow (m + n)"
  using xtime_pow_pmul [of m "gpow n"] by (simp only: gpow_add)

lemma pmul_zero_left [simp]: "pmul 0 x = 0"
  by (simp add: pmul_def)

section \<open>The tables hold powers and logarithms\<close>

definition gf_tables_inv :: "nat \<Rightarrow> u16 \<times> u8 list \<times> u8 list \<Rightarrow> bool" where
  "gf_tables_inv n = (\<lambda>(x, ex, lg). x = ucast (gpow n) \<and> length ex = 512 \<and> length lg = 256
     \<and> (\<forall>i < n. ex ! i = gpow i) \<and> (\<forall>i < n. lg ! unat (gpow i) = of_nat i))"

lemma double_mod_poly:
  fixes x :: u8
  shows "(let y = push_bit 1 (ucast x :: u16) in if y AND 0x100 \<noteq> 0 then y XOR 0x11D else y)
     = ucast (xtime x)"
proof -
  have m: "(0x100 :: u16) = push_bit 8 1"
    by simp
  have t: "push_bit 1 (ucast x :: u16) AND 0x100 \<noteq> 0 \<longleftrightarrow> bit x 7"
    unfolding m push_bit_of_1 and_exp_eq_0_iff_not_bit
    by (simp only: bit_push_bit_iff) (simp add: bit_simps)
  have sp: "(0x11D :: u16) = push_bit 8 1 XOR ucast (0x1D :: u8)"
    by simp
  have c: "push_bit 1 (ucast x :: u16) = ucast (push_bit 1 x) XOR (if bit x 7 then push_bit 8 1 else 0)"
  proof (rule bit_word_eqI)
    fix n assume "n < LENGTH(16)"
    have h: "bit (push_bit 8 1 :: u16) n \<longleftrightarrow> n = 8"
      by (simp only: bit_push_bit_iff bit_1_iff) auto
    have l: "bit (push_bit 1 (ucast x :: u16)) n \<longleftrightarrow> 1 \<le> n \<and> n < 16 \<and> bit x (n - 1)"
      by (simp only: bit_push_bit_iff bit_ucast_iff) auto
    have r: "bit (ucast (push_bit 1 x) :: u16) n \<longleftrightarrow> 1 \<le> n \<and> n < 8 \<and> bit x (n - 1)"
      by (simp only: bit_push_bit_iff bit_ucast_iff) auto
    have beyond: "\<not> bit x (n - 1)" if "8 < n"
      using that by (intro bit_u8_beyond) simp
    show "bit (push_bit 1 (ucast x :: u16)) n
        = bit (ucast (push_bit 1 x) XOR (if bit x 7 then push_bit 8 1 else 0) :: u16) n"
      unfolding bit_xor_iff l r using h beyond
      by (cases "n = 8"; cases "8 < n"; cases "bit x 7") auto
  qed
  show ?thesis
  proof (cases "bit x 7")
    case True
    then have "push_bit 1 (ucast x :: u16) XOR 0x11D = ucast (push_bit 1 x) XOR ucast (0x1D :: u8)"
      unfolding c sp by (simp only: if_True xor_cancel_mid)
    with True t show ?thesis
      by (simp only: Let_def xtime_def if_True unsigned_xor_eq simp_thms)
  next
    case False
    with t c show ?thesis
      by (simp only: Let_def xtime_def if_False xor.right_neutral simp_thms)
  qed
qed

lemma gf_tables_step_inv:
  assumes "gf_tables_inv n st" and "n < 255"
  shows "gf_tables_inv (Suc n) (gf_tables_step n st)"
proof -
  obtain x ex lg where st: "st = (x, ex, lg)"
    by (cases st)
  have x: "x = ucast (gpow n)" and len: "length ex = 512" "length lg = 256"
    and ex: "\<And>i. i < n \<Longrightarrow> ex ! i = gpow i"
    and lg: "\<And>i. i < n \<Longrightarrow> lg ! unat (gpow i) = of_nat i"
    using assms(1) by (auto simp: st gf_tables_inv_def)
  have b: "(ucast x :: u8) = gpow n"
    unfolding x by (rule bit_word_eqI) (simp add: bit_simps)
  have lt: "unat (gpow i) < 256" for i
    using unsigned_less [of "gpow i"] by simp
  have ne: "unat (gpow n) \<noteq> unat (gpow i)" if "i < n" for i
    using inj_onD [OF gpow_inj, of i n] that assms(2) by (auto simp: word_unat_eq_iff)
  have "gf_tables_step n st = (ucast (gpow (Suc n)), ex[n := gpow n], lg[unat (gpow n) := of_nat n])"
    using double_mod_poly [of "gpow n"] by (simp add: gf_tables_step_def st b [unfolded x] x Let_def)
  then show ?thesis
    using len ex lg lt ne assms(2)
    by (auto simp: gf_tables_inv_def nth_list_update less_Suc_eq)
qed

lemma gf_tables_loop_inv: "n \<le> 255 \<Longrightarrow>
    gf_tables_inv n (fold gf_tables_step [0..<n] (1, replicate 512 0, replicate 256 0))"
proof (induction n)
  case 0
  show ?case
    by (simp add: gf_tables_inv_def)
next
  case (Suc n)
  then show ?case
    using gf_tables_step_inv [of n] by simp
qed

lemma gf_tables_loop_done: "gf_tables_inv 255 gf_tables_loop"
  unfolding gf_tables_loop_def by (rule gf_tables_loop_inv) simp

lemma exp_dup_loop:
  assumes "length ex = 512" and "\<forall>i < 255. ex ! i = gpow i" and "255 \<le> n" and "n \<le> 512"
  shows "length (fold (\<lambda>i ex. ex[i := ex ! (i - 255)]) [255..<n] ex) = 512
    \<and> (\<forall>i < n. fold (\<lambda>i ex. ex[i := ex ! (i - 255)]) [255..<n] ex ! i = gpow i)"
  using assms(3,4)
proof (induction n rule: dec_induct)
  case base
  then show ?case
    using assms(1,2) by simp
next
  case (step n)
  have "gpow (n - 255) = gpow n"
    using step.hyps gpow_add [of "n - 255" 255] by (simp add: gpow_255)
  then show ?case
    using step by (auto simp: nth_list_update less_Suc_eq)
qed

lemma exp_table_nth:
  assumes "i < 512"
  shows "gf_exp_table ! i = gpow i"
proof -
  obtain x ex lg where loop: "gf_tables_loop = (x, ex, lg)"
    by (cases gf_tables_loop)
  have "length ex = 512" and "\<forall>i < 255. ex ! i = gpow i"
    using gf_tables_loop_done unfolding loop gf_tables_inv_def prod.case by blast+
  then show ?thesis
    using exp_dup_loop [of ex 512] assms by (simp only: gf_exp_table_def loop fst_conv snd_conv)
qed

lemma log_table_nth:
  assumes "i < 255"
  shows "gf_log_table ! unat (gpow i) = of_nat i"
proof -
  obtain x ex lg where loop: "gf_tables_loop = (x, ex, lg)"
    by (cases gf_tables_loop)
  have "\<forall>i < 255. lg ! unat (gpow i) = of_nat i"
    using gf_tables_loop_done unfolding loop gf_tables_inv_def prod.case by blast
  moreover have "unat (gpow i) \<noteq> 0"
    by (simp only: unat_eq_zero gpow_nonzero not_False_eq_True)
  ultimately show ?thesis
    using assms by (simp only: gf_log_table_def loop snd_conv nth_list_update_neq)
qed

lemma log_table_inverse:
  assumes "a \<noteq> 0"
  shows "gpow (unat (gf_log_table ! unat a)) = a" and "unat (gf_log_table ! unat a) < 255"
proof -
  obtain i where i: "i < 255" "gpow i = a"
    using gpow_surj [OF assms] .
  then have "unat (gf_log_table ! unat a) = i"
    using log_table_nth [OF i(1)] by (simp add: i(2) unat_of_nat take_bit_eq_mod)
  then show "gpow (unat (gf_log_table ! unat a)) = a" "unat (gf_log_table ! unat a) < 255"
    using i by simp_all
qed

text \<open>The table-driven product is the polynomial product, and \<open>gf_inv\<close> is its inverse.\<close>

lemma gf_mul_eq_pmul: "gf_mul a b = pmul a b"
proof (cases "a = 0 \<or> b = 0")
  case True
  then show ?thesis
    by (auto simp: gf_mul_def pmul_commute [of a 0])
next
  case False
  then have a: "a \<noteq> 0" and b: "b \<noteq> 0" by auto
  let ?i = "unat (gf_log_table ! unat a)" and ?j = "unat (gf_log_table ! unat b)"
  have "gf_mul a b = gpow (?i + ?j)"
    using False log_table_inverse(2) [OF a] log_table_inverse(2) [OF b]
    by (simp add: gf_mul_def exp_table_nth)
  also have "\<dots> = pmul (gpow ?i) (gpow ?j)"
    by (rule pmul_gpow [symmetric])
  finally show ?thesis
    by (simp only: log_table_inverse(1) [OF a] log_table_inverse(1) [OF b])
qed

lemma gf_mul_inv: "a \<noteq> 0 \<Longrightarrow> gf_mul (gf_inv a) a = 1"
proof -
  assume a: "a \<noteq> 0"
  let ?i = "unat (gf_log_table ! unat a)"
  have "pmul (gpow (255 - ?i)) (gpow ?i) = gpow 255"
    using log_table_inverse(2) [OF a] by (simp only: pmul_gpow) simp
  moreover have "gf_inv a = gpow (255 - ?i)"
    using log_table_inverse(2) [OF a] by (simp add: gf_inv_def exp_table_nth)
  ultimately show ?thesis
    by (simp only: gf_mul_eq_pmul log_table_inverse(1) [OF a] gpow_255)
qed

section \<open>Bytes as a field\<close>

text \<open>The type \<open>gf\<close> is the byte type with the operations of gf256.cpp as its arithmetic, so
  that the library's facts and simplification procedures for fields apply to the codec.\<close>

typedef gf = "UNIV :: u8 set"
  morphisms ungf gf ..

setup_lifting type_definition_gf

instantiation gf :: field
begin

lift_definition zero_gf :: gf is 0 .
lift_definition one_gf :: gf is 1 .
lift_definition plus_gf :: "gf \<Rightarrow> gf \<Rightarrow> gf" is gf_add .
lift_definition minus_gf :: "gf \<Rightarrow> gf \<Rightarrow> gf" is gf_add .
lift_definition uminus_gf :: "gf \<Rightarrow> gf" is "\<lambda>x. x" .
lift_definition times_gf :: "gf \<Rightarrow> gf \<Rightarrow> gf" is gf_mul .
lift_definition inverse_gf :: "gf \<Rightarrow> gf" is "\<lambda>x. if x = 0 then 0 else gf_inv x" .
lift_definition divide_gf :: "gf \<Rightarrow> gf \<Rightarrow> gf" is
  "\<lambda>x y. gf_mul x (if y = 0 then 0 else gf_inv y)" .

instance
proof
  fix a b c :: gf
  show "a * b * c = a * (b * c)"
    by transfer (simp add: gf_mul_eq_pmul pmul_assoc)
  show "a * b = b * a"
    by transfer (simp add: gf_mul_eq_pmul pmul_commute)
  show "1 * a = a"
    by transfer (simp add: gf_mul_eq_pmul)
  show "a + b + c = a + (b + c)"
    by transfer (simp add: gf_add_def xor.assoc)
  show "a + b = b + a"
    by transfer (simp add: gf_add_def xor.commute)
  show "0 + a = a" "- a + a = 0" "a - b = a + - b"
    by (transfer, simp add: gf_add_def)+
  show "(a + b) * c = a * c + b * c"
    by transfer (simp add: gf_add_def gf_mul_eq_pmul pmul_xor_left)
  show "(0 :: gf) \<noteq> 1" "inverse (0 :: gf) = 0"
    by (transfer, simp)+
  show "a \<noteq> 0 \<Longrightarrow> inverse a * a = 1"
    by transfer (simp add: gf_mul_inv)
  show "a div b = a * inverse b"
    by transfer simp
qed

end

lemma gf_uminus [simp]: "- (a :: gf) = a"
  by transfer simp

lemma gf_minus [simp]: "(a :: gf) - b = a + b"
  by (metis diff_conv_add_uminus gf_uminus)

lemma gf_double [simp]: "(a :: gf) + a = 0"
  by transfer (simp add: gf_add_def)

lemma gf_add_eq_0 [simp]: "(a :: gf) + b = 0 \<longleftrightarrow> a = b"
  by transfer (simp add: gf_add_def xor_eq_0_iff)

lemma gf_inject [simp]: "gf x = gf y \<longleftrightarrow> x = y"
  by (metis UNIV_I gf_inverse)

lemma ungf_gf [simp]: "ungf (gf x) = x" and gf_ungf [simp]: "gf (ungf a) = a"
  by (simp_all add: gf_inverse ungf_inverse)

lemma gf_hom [gf_simps]:
  "gf 0 = 0" "gf 1 = 1" "gf (x XOR y) = gf x + gf y" "gf (gf_mul x y) = gf x * gf y"
  by (simp_all add: zero_gf_def one_gf_def plus_gf.abs_eq times_gf.abs_eq gf_add_def)

lemma gf_gf_inv [gf_simps]: "x \<noteq> 0 \<Longrightarrow> gf (gf_inv x) = inverse (gf x)"
  by (simp add: inverse_gf.abs_eq)

lemma gf_eq_0_iff [simp]: "gf x = 0 \<longleftrightarrow> x = 0"
  by (simp add: zero_gf_def)

section \<open>The span operations\<close>

lemma gf_mul_xor_eq_map2:
  "gf_mul_xor c input out
     = (if length input = length out \<or> c \<noteq> 0 then map2 (\<lambda>v o'. o' XOR gf_mul c v) input out
        else out)"
proof -
  have "map2 (\<lambda>v o'. o' XOR gf_mul 0 v) input out = out" if "length input = length out"
    using that by (induction input out rule: list_induct2) (simp_all add: gf_mul_def)
  moreover have "gf_mul_xor_tail c input out = map2 (\<lambda>v o'. o' XOR gf_mul c v) input out" if "c \<noteq> 0"
    using that by (auto simp: gf_mul_xor_tail_def gf_mul_def intro!: map_cong)
  moreover have "gf_mul 1 v = v" for v
    by (simp add: gf_mul_eq_pmul)
  ultimately show ?thesis
    by (auto simp: gf_mul_xor_def)
qed

lemma nibble_split: "(v AND 0x0f) XOR push_bit 4 (drop_bit 4 v) = (v :: u8)"
proof -
  have m: "(0x0f :: u8) = mask 4"
    by (simp add: mask_eq_exp_minus_1)
  show ?thesis
    unfolding m by (rule bit_word_eqI) (auto simp: bit_simps)
qed

lemma gf_product_eq: "gf_product c v = gf_mul c v"
  by (simp add: gf_product_def gf_mul_def)

lemma gf_mul_xor_right: "gf_mul c (x XOR y) = gf_mul c x XOR gf_mul c y"
  by (simp add: gf_mul_eq_pmul pmul_commute [of c] pmul_xor_left)

lemma neon_multiply_eq: "neon_multiply c v = gf_mul c v"
proof -
  have "neon_multiply c v = gf_mul c ((v AND 0x0f) XOR push_bit 4 (drop_bit 4 v))"
    by (simp add: neon_multiply_def mul_lo_def mul_hi_def gf_product_eq gf_mul_xor_right)
  then show ?thesis
    by (simp only: nibble_split)
qed

lemma neon_loop_eq:
  assumes "c \<noteq> 0" and "length input = length out" and "16 * blocks \<le> length input"
  shows "gf_mul_xor_neon_loop c input out blocks = map2 (\<lambda>v o'. o' XOR gf_mul c v) input out"
  using assms(2,3)
proof (induction blocks arbitrary: input out)
  case 0
  then show ?case
    using assms(1) by (auto simp: gf_mul_xor_tail_def gf_mul_def intro!: map_cong)
next
  case (Suc blocks)
  let ?f = "\<lambda>v o'. o' XOR gf_mul c v"
  have "map2 ?f input out
      = map2 ?f (take 16 input @ drop 16 input) (take 16 out @ drop 16 out)"
    by simp
  also have "\<dots> = map2 ?f (take 16 input) (take 16 out) @ map2 ?f (drop 16 input) (drop 16 out)"
    using Suc.prems by (subst zip_append) simp_all
  finally show ?case
    using Suc by (simp add: neon_multiply_eq)
qed

text \<open>The vector path of gf_mul_xor (sixteen bytes at a time through the nibble tables, with a
  byte-wise tail) computes the same bytes as the scalar path.\<close>

theorem gf_mul_xor_neon_equiv:
  assumes "length input = length out"
  shows "gf_mul_xor_neon c input out = gf_mul_xor c input out"
proof (cases "c = 0 \<or> c = 1")
  case True
  then show ?thesis
    by (auto simp: gf_mul_xor_neon_def gf_mul_xor_def)
next
  case False
  then show ?thesis
    using assms by (simp add: gf_mul_xor_neon_def gf_mul_xor_eq_map2 neon_loop_eq)
qed

theorem gf_mul_xor_neon_equiv_witness:
  "gf_mul_xor_neon 7 (replicate 20 3) (replicate 20 5) = gf_mul_xor 7 (replicate 20 3) (replicate 20 5)"
  by (rule gf_mul_xor_neon_equiv) simp

text \<open>C38: The table-driven GF(256) product equals carry-less multiplication modulo x^8+x^4+x^3+x^2+1;
  it is associative and distributes over gf_add, and gf_inv gives the inverse of every non-zero
  element.\<close>

theorem gf_mul_is_polynomial_product:
  "gf_mul a b = pmul a b \<and> (a \<noteq> 0 \<longrightarrow> gf_mul (gf_inv a) a = 1)
   \<and> gf_mul a (gf_add b c) = gf_add (gf_mul a b) (gf_mul a c)
   \<and> gf_mul (gf_mul a b) c = gf_mul a (gf_mul b c)"
proof (intro conjI impI)
  show "gf_mul a (gf_add b c) = gf_add (gf_mul a b) (gf_mul a c)"
    by (simp add: gf_mul_eq_pmul gf_add_def pmul_commute [of a] pmul_xor_left)
  show "gf_mul (gf_mul a b) c = gf_mul a (gf_mul b c)"
    by (simp add: gf_mul_eq_pmul pmul_assoc)
qed (rule gf_mul_eq_pmul, rule gf_mul_inv)

theorem gf_mul_is_polynomial_product_witness:
  "gf_mul (gf_inv 0x53) 0x53 = 1"
  using gf_mul_is_polynomial_product [of "0x53" 0 0] by simp

end
