(* ===== verification/Cauchy.thy ===== *)
theory Cauchy
  imports Main
begin

text \<open>
  Linear algebra over an arbitrary field used by the erasure codec: a Cauchy system with at
  least as many equations as unknowns has only the zero solution. This is what makes the
  code of rlc.cpp MDS; the proof eliminates one unknown and one equation at a time.
\<close>

lemma cauchy_eliminate:
  fixes x x0 a b :: "'a::field"
  assumes "x \<noteq> a" and "x0 \<noteq> a"
  shows "(x - b) / (x - a) - (x0 - b) / (x0 - a)
       = (a - b) * (x0 - x) / ((x - a) * (x0 - a))"
proof -
  have "x - a \<noteq> 0" "x0 - a \<noteq> 0"
    using assms by simp_all
  then show ?thesis
    by (simp add: divide_simps) (simp add: algebra_simps)
qed

lemma cauchy_step:
  fixes x :: "'j \<Rightarrow> 'a::field" and y :: "'i \<Rightarrow> 'a"
  assumes fin: "finite T" and t: "t \<in> T" and j0: "j0 \<in> J" and j: "j \<in> J" "x j \<noteq> x j0"
    and off: "\<And>j i. j \<in> J \<Longrightarrow> i \<in> T \<Longrightarrow> x j \<noteq> y i"
    and eq: "\<And>j. j \<in> J \<Longrightarrow> (\<Sum>i\<in>T. v i / (x j - y i)) = 0"
  shows "(\<Sum>i\<in>T - {t}. (v i * (y i - y t) / (x j0 - y i)) / (x j - y i)) = 0"
proof -
  have sc: "(\<Sum>i\<in>T. v i * ((x j - y t) / (x j - y i))) = 0" if "j \<in> J" for j
  proof -
    have "(\<Sum>i\<in>T. v i * ((x j - y t) / (x j - y i))) = (x j - y t) * (\<Sum>i\<in>T. v i / (x j - y i))"
      by (simp add: sum_distrib_left mult.commute)
    then show ?thesis
      using eq [OF that] by simp
  qed
  have "0 = (\<Sum>i\<in>T. v i * ((x j - y t) / (x j - y i))) - (\<Sum>i\<in>T. v i * ((x j0 - y t) / (x j0 - y i)))"
    using sc j(1) j0 by simp
  also have "\<dots> = (\<Sum>i\<in>T. v i * ((x j - y t) / (x j - y i) - (x j0 - y t) / (x j0 - y i)))"
    by (simp add: sum_subtractf right_diff_distrib)
  also have "\<dots> = (\<Sum>i\<in>T. (x j0 - x j) * ((v i * (y i - y t) / (x j0 - y i)) / (x j - y i)))"
    by (rule sum.cong) (simp_all add: cauchy_eliminate off j j0 mult_ac)
  also have "\<dots> = (x j0 - x j) * (\<Sum>i\<in>T. (v i * (y i - y t) / (x j0 - y i)) / (x j - y i))"
    by (simp add: sum_distrib_left)
  also have "(\<Sum>i\<in>T. (v i * (y i - y t) / (x j0 - y i)) / (x j - y i))
      = (\<Sum>i\<in>T - {t}. (v i * (y i - y t) / (x j0 - y i)) / (x j - y i))"
    using fin t by (simp add: sum.remove)
  finally show ?thesis
    using j(2) by simp
qed

theorem cauchy_kernel:
  fixes x :: "'j \<Rightarrow> 'a::field" and y :: "'i \<Rightarrow> 'a"
  assumes "finite T" and "finite J" and "card T \<le> card J" and "inj_on x J" and "inj_on y T"
    and "\<And>j i. j \<in> J \<Longrightarrow> i \<in> T \<Longrightarrow> x j \<noteq> y i"
    and "\<And>j. j \<in> J \<Longrightarrow> (\<Sum>i\<in>T. v i / (x j - y i)) = 0"
  shows "\<forall>i\<in>T. v i = 0"
  using assms
proof (induction "card T" arbitrary: T J v)
  case 0
  then show ?case by simp
next
  case (Suc n)
  obtain t where t: "t \<in> T"
    using Suc.hyps(2) by (metis card_eq_0_iff equals0I nat.distinct(1))
  obtain j0 where j0: "j0 \<in> J"
    using Suc.hyps(2) Suc.prems(3) by (metis card_eq_0_iff equals0I not_less_eq_eq le0)
  let ?w = "\<lambda>i. v i * (y i - y t) / (x j0 - y i)"
  have "\<forall>i\<in>T - {t}. ?w i = 0"
  proof (rule Suc.hyps(1) [of "T - {t}" "J - {j0}"])
    show "n = card (T - {t})" "card (T - {t}) \<le> card (J - {j0})"
      using Suc.hyps(2) Suc.prems(1,2,3) t j0 by simp_all
    show "inj_on x (J - {j0})" "inj_on y (T - {t})"
      using Suc.prems(4,5) by (auto intro: inj_on_diff)
    show "(\<Sum>i\<in>T - {t}. ?w i / (x j - y i)) = 0" if "j \<in> J - {j0}" for j
      using that Suc.prems(1,4,6,7) t j0
      by (intro cauchy_step [where J = J]) (auto dest: inj_onD)
  qed (use Suc.prems in auto)
  then have rest: "v i = 0" if "i \<in> T - {t}" for i
    using that Suc.prems(5,6) t j0 by (auto dest: inj_onD)
  have "0 = (\<Sum>i\<in>T. v i / (x j0 - y i))"
    using Suc.prems(7) j0 by simp
  also have "\<dots> = v t / (x j0 - y t)"
    using Suc.prems(1) t rest by (simp add: sum.remove)
  finally have "v t = 0"
    using Suc.prems(6) t j0 by simp
  then show ?case
    using rest by blast
qed

end
