(* ===== verification/Rlc.thy ===== *)
theory Rlc
  imports Gf256 Cauchy
begin

text \<open>
  core/include/wblink/rlc.h and core/src/rlc.cpp: the systematic Cauchy Reed-Solomon block
  code. The encoder's repair rows, the decoder object with its two \<open>add\<close> operations and its
  Gauss-Jordan elimination. The working matrices A (k x k) and B (k x s), flat arrays in the
  source, are one list of row pairs here: entry r is (row r of A, row r of B).
\<close>

section \<open>Encoder\<close>

definition rlc_repair_row :: "u16 \<Rightarrow> u8 \<Rightarrow> bytes" where
  "rlc_repair_row k repair_idx =
     (let x = (of_nat (unat k + unat repair_idx) :: u8)
      in map (\<lambda>i. gf_inv (x XOR of_nat i)) [0..<unat k])"

definition rlc_encode_repair :: "u16 \<Rightarrow> u8 \<Rightarrow> bytes list \<Rightarrow> nat \<Rightarrow> bytes" where
  "rlc_encode_repair k repair_idx sources s =
     (let row = rlc_repair_row k repair_idx
      in fold (\<lambda>i out. let c = row ! i in if c = 0 then out else gf_mul_xor c (sources ! i) out)
           [0..<unat k] (replicate s 0))"

section \<open>Decoder\<close>

record rlc_decoder =
  rd_k :: u16
  rd_s :: nat
  rd_coeffs :: "bytes list"
  rd_data :: "bytes list"
  rd_have_source :: "bool list"
  rd_have_repair :: "bool list"

definition RlcDecoder :: "u16 \<Rightarrow> nat \<Rightarrow> rlc_decoder" where
  "RlcDecoder k s = \<lparr>rd_k = k, rd_s = s, rd_coeffs = [], rd_data = [],
     rd_have_source = replicate (unat k) False, rd_have_repair = replicate 256 False\<rparr>"

definition add_source :: "u16 \<Rightarrow> bytes \<Rightarrow> rlc_decoder \<Rightarrow> rlc_decoder" where
  "add_source i data d =
     (if rd_k d \<le> i \<or> rd_have_source d ! unat i \<or> unat (rd_k d) \<le> length (rd_coeffs d) then d
      else d\<lparr>rd_have_source := (rd_have_source d)[unat i := True],
             rd_coeffs := rd_coeffs d @ [(replicate (unat (rd_k d)) 0)[unat i := 1]],
             rd_data := rd_data d @ [take (rd_s d) data]\<rparr>)"

definition add_repair :: "u8 \<Rightarrow> bytes \<Rightarrow> rlc_decoder \<Rightarrow> rlc_decoder" where
  "add_repair repair_idx data d =
     (if rd_have_repair d ! unat repair_idx \<or> unat (rd_k d) \<le> length (rd_coeffs d) then d
      else d\<lparr>rd_have_repair := (rd_have_repair d)[unat repair_idx := True],
             rd_coeffs := rd_coeffs d @ [rlc_repair_row (rd_k d) repair_idx],
             rd_data := rd_data d @ [take (rd_s d) data]\<rparr>)"

definition have_count :: "rlc_decoder \<Rightarrow> nat" where
  "have_count d = length (rd_coeffs d)"

definition can_decode :: "rlc_decoder \<Rightarrow> bool" where
  "can_decode d \<longleftrightarrow> unat (rd_k d) \<le> length (rd_coeffs d)"

type_synonym aug_matrix = "(bytes \<times> bytes) list"

text \<open>The pivot scan \<open>while (pivot < k && a[pivot][col] == 0) ++pivot\<close>; \<open>None\<close> is
  \<open>pivot == k\<close>.\<close>

function find_pivot :: "nat \<Rightarrow> nat \<Rightarrow> aug_matrix \<Rightarrow> nat \<Rightarrow> nat option" where
  "find_pivot k col m pivot =
     (if pivot < k then (if fst (m ! pivot) ! col = 0 then find_pivot k col m (Suc pivot)
                         else Some pivot)
      else None)"
  by pat_completeness auto
termination
  by (relation "measure (\<lambda>(k, col, m, pivot). k - pivot)") auto

declare find_pivot.simps [simp del]

definition swap_rows :: "nat \<Rightarrow> nat \<Rightarrow> aug_matrix \<Rightarrow> aug_matrix" where
  "swap_rows pivot col m = (if pivot \<noteq> col then m[pivot := m ! col, col := m ! pivot] else m)"

definition normalize_row :: "nat \<Rightarrow> aug_matrix \<Rightarrow> aug_matrix" where
  "normalize_row col m =
     (let inv = gf_inv (fst (m ! col) ! col)
      in if inv \<noteq> 1
         then m[col := (map (\<lambda>v. gf_mul v inv) (fst (m ! col)), map (\<lambda>v. gf_mul v inv) (snd (m ! col)))]
         else m)"

definition eliminate_row :: "nat \<Rightarrow> bytes \<times> bytes \<Rightarrow> bytes \<times> bytes \<Rightarrow> bytes \<times> bytes" where
  "eliminate_row col prow row =
     (let factor = fst row ! col
      in if factor = 0 then row
         else (map2 (\<lambda>v p. v XOR gf_mul factor p) (fst row) (fst prow),
               map2 (\<lambda>v p. v XOR gf_mul factor p) (snd row) (snd prow)))"

definition eliminate_column :: "nat \<Rightarrow> nat \<Rightarrow> aug_matrix \<Rightarrow> aug_matrix" where
  "eliminate_column k col m =
     map (\<lambda>r. if r = col then m ! r else eliminate_row col (m ! col) (m ! r)) [0..<k]"

fun gauss_jordan :: "nat \<Rightarrow> nat list \<Rightarrow> aug_matrix \<Rightarrow> aug_matrix option" where
  "gauss_jordan k [] m = Some m"
| "gauss_jordan k (col # cols) m =
     (case find_pivot k col m col of
        None \<Rightarrow> None
      | Some pivot \<Rightarrow>
          gauss_jordan k cols (eliminate_column k col (normalize_row col (swap_rows pivot col m))))"

text \<open>\<open>decode\<close>: \<open>None\<close> is the return value false, \<open>Some out\<close> the k*s bytes written.\<close>

definition rlc_decode :: "rlc_decoder \<Rightarrow> bytes option" where
  "rlc_decode d =
     (if length (rd_coeffs d) < unat (rd_k d) then None
      else let k = unat (rd_k d)
           in case gauss_jordan k [0..<k] (take k (zip (rd_coeffs d) (rd_data d))) of
                None \<Rightarrow> None
              | Some m \<Rightarrow> Some (concat (map snd m)))"

end
