(* ===== verification/Rlc_Mds.thy ===== *)
theory Rlc_Mds
  imports Rlc
begin

text \<open>
  Correctness of the erasure codec: Gauss-Jordan elimination keeps the solutions of A S = B,
  always finds a pivot on a system with trivial kernel, and every k distinct received symbols
  form such a system; hence any k of the k + r symbols of a block decode to its k sources.
\<close>

section \<open>Row equations\<close>

definition rowdot :: "nat \<Rightarrow> bytes \<Rightarrow> (nat \<Rightarrow> gf) \<Rightarrow> gf" where
  "rowdot k row v = (\<Sum>c<k. gf (row ! c) * v c)"

definition row_eq :: "nat \<Rightarrow> (nat \<Rightarrow> gf) \<Rightarrow> (bytes \<Rightarrow> gf) \<Rightarrow> bytes \<times> bytes \<Rightarrow> bool" where
  "row_eq k v \<beta> row \<longleftrightarrow> rowdot k (fst row) v = \<beta> (snd row)"

definition wf_aug :: "nat \<Rightarrow> nat \<Rightarrow> aug_matrix \<Rightarrow> bool" where
  "wf_aug k s m \<longleftrightarrow> length m = k \<and> (\<forall>row\<in>set m. length (fst row) = k \<and> length (snd row) = s)"

text \<open>Functionals on right-hand sides that commute with the row operations.\<close>

definition lin :: "nat \<Rightarrow> (bytes \<Rightarrow> gf) \<Rightarrow> bool" where
  "lin s \<beta> \<longleftrightarrow> (\<forall>br f. length br = s \<longrightarrow> \<beta> (map (\<lambda>v. gf_mul v f) br) = gf f * \<beta> br)
     \<and> (\<forall>br pb f. length br = s \<and> length pb = s
          \<longrightarrow> \<beta> (map2 (\<lambda>v p. v XOR gf_mul f p) br pb) = \<beta> br + gf f * \<beta> pb)"

lemma lin_nth: "x < s \<Longrightarrow> lin s (\<lambda>br. gf (br ! x))"
  by (simp add: lin_def gf_simps mult.commute)

lemma lin_zero: "lin s (\<lambda>_. 0)"
  by (simp add: lin_def)

lemma rowdot_scale: "length row = k \<Longrightarrow> rowdot k (map (\<lambda>v. gf_mul v f) row) v = gf f * rowdot k row v"
  by (simp add: rowdot_def gf_simps sum_distrib_left mult_ac)

lemma rowdot_combine:
  "length row = k \<Longrightarrow> length prow = k \<Longrightarrow>
   rowdot k (map2 (\<lambda>v p. v XOR gf_mul f p) row prow) v = rowdot k row v + gf f * rowdot k prow v"
  by (simp add: rowdot_def gf_simps sum_distrib_left sum.distrib algebra_simps)

lemma gf_inv_nonzero: "a \<noteq> 0 \<Longrightarrow> gf_inv a \<noteq> 0"
  using gf_mul_inv [of a] by (auto simp: gf_mul_def)

lemma wf_augD:
  "wf_aug k s m \<Longrightarrow> r < k \<Longrightarrow> length (fst (m ! r)) = k \<and> length (snd (m ! r)) = s"
  by (auto simp: wf_aug_def)

lemma wf_aug_length: "wf_aug k s m \<Longrightarrow> length m = k"
  by (simp add: wf_aug_def)

section \<open>Row operations keep the equations\<close>

lemma set_swap_rows:
  assumes "pivot < length m" and "col < length m"
  shows "set (swap_rows pivot col m) = set m"
  using assms by (auto simp: swap_rows_def set_swap list_update_swap)

lemma wf_swap_rows: "wf_aug k s m \<Longrightarrow> pivot < k \<Longrightarrow> col < k \<Longrightarrow> wf_aug k s (swap_rows pivot col m)"
  using set_swap_rows [of pivot m col] by (auto simp: wf_aug_def swap_rows_def)

lemma wf_normalize_row: "wf_aug k s m \<Longrightarrow> col < k \<Longrightarrow> wf_aug k s (normalize_row col m)"
  by (auto simp: wf_aug_def normalize_row_def Let_def dest!: set_update_subset_insert [THEN subsetD])

lemma length_eliminate_row:
  assumes "length (fst prow) = k" "length (snd prow) = s" "length (fst row) = k" "length (snd row) = s"
  shows "length (fst (eliminate_row col prow row)) = k" "length (snd (eliminate_row col prow row)) = s"
  using assms by (simp_all add: eliminate_row_def Let_def)

lemma wf_eliminate_column:
  "wf_aug k s m \<Longrightarrow> col < k \<Longrightarrow> wf_aug k s (eliminate_column k col m)"
  by (auto simp: wf_aug_def eliminate_column_def length_eliminate_row)

lemma row_eq_scale:
  assumes "lin s \<beta>" "length (fst row) = k" "length (snd row) = s" "f \<noteq> 0"
  shows "row_eq k v \<beta> (map (\<lambda>v. gf_mul v f) (fst row), map (\<lambda>v. gf_mul v f) (snd row))
     \<longleftrightarrow> row_eq k v \<beta> row"
  using assms by (simp add: row_eq_def rowdot_scale lin_def)

lemma row_eq_eliminate:
  assumes "lin s \<beta>" "length (fst row) = k" "length (snd row) = s"
    and "length (fst prow) = k" "length (snd prow) = s" "row_eq k v \<beta> prow"
  shows "row_eq k v \<beta> (eliminate_row col prow row) \<longleftrightarrow> row_eq k v \<beta> row"
  using assms by (simp add: row_eq_def eliminate_row_def Let_def rowdot_combine lin_def)

definition rows_hold :: "nat \<Rightarrow> (nat \<Rightarrow> gf) \<Rightarrow> (bytes \<Rightarrow> gf) \<Rightarrow> aug_matrix \<Rightarrow> bool" where
  "rows_hold k v \<beta> m \<longleftrightarrow> (\<forall>r<k. row_eq k v \<beta> (m ! r))"

lemma rows_hold_set: "length m = k \<Longrightarrow> rows_hold k v \<beta> m \<longleftrightarrow> (\<forall>row\<in>set m. row_eq k v \<beta> row)"
  unfolding rows_hold_def by (metis in_set_conv_nth)

lemma rows_hold_swap:
  "wf_aug k s m \<Longrightarrow> pivot < k \<Longrightarrow> col < k \<Longrightarrow>
   rows_hold k v \<beta> (swap_rows pivot col m) \<longleftrightarrow> rows_hold k v \<beta> m"
  using set_swap_rows [of pivot m col]
  by (simp add: rows_hold_set wf_aug_length wf_swap_rows [THEN wf_aug_length])

lemma rows_hold_normalize:
  assumes "wf_aug k s m" "col < k" "lin s \<beta>" "fst (m ! col) ! col \<noteq> 0"
  shows "rows_hold k v \<beta> (normalize_row col m) \<longleftrightarrow> rows_hold k v \<beta> m"
proof -
  have "row_eq k v \<beta> (normalize_row col m ! r) \<longleftrightarrow> row_eq k v \<beta> (m ! r)" if "r < k" for r
    using assms that wf_augD [OF assms(1,2)] wf_aug_length [OF assms(1)]
    by (auto simp: normalize_row_def Let_def nth_list_update row_eq_scale gf_inv_nonzero)
  then show ?thesis
    by (simp add: rows_hold_def)
qed

lemma rows_hold_eliminate:
  assumes "wf_aug k s m" "col < k" "lin s \<beta>"
  shows "rows_hold k v \<beta> (eliminate_column k col m) \<longleftrightarrow> rows_hold k v \<beta> m"
proof -
  have e: "eliminate_column k col m ! r = (if r = col then m ! r else eliminate_row col (m ! col) (m ! r))"
    if "r < k" for r
    using that by (simp add: eliminate_column_def)
  have "row_eq k v \<beta> (eliminate_column k col m ! r) \<longleftrightarrow> row_eq k v \<beta> (m ! r)"
    if "r < k" "row_eq k v \<beta> (m ! col)" for r
    using that assms wf_augD [OF assms(1)] by (simp add: e row_eq_eliminate)
  moreover have "row_eq k v \<beta> (eliminate_column k col m ! col) \<longleftrightarrow> row_eq k v \<beta> (m ! col)"
    using assms(2) by (simp add: e)
  ultimately show ?thesis
    using assms(2) unfolding rows_hold_def by blast
qed

section \<open>One column\<close>

definition unit_column :: "nat \<Rightarrow> aug_matrix \<Rightarrow> nat \<Rightarrow> bool" where
  "unit_column k m c \<longleftrightarrow> (\<forall>r<k. fst (m ! r) ! c = (if r = c then 1 else 0))"

lemma find_pivot_Some:
  "find_pivot k col m p0 = Some p \<Longrightarrow> p0 \<le> p \<and> p < k \<and> fst (m ! p) ! col \<noteq> 0"
proof (induction k col m p0 rule: find_pivot.induct)
  case (1 k col m p0)
  then show ?case
    by (cases "p0 < k"; cases "fst (m ! p0) ! col = 0") (auto simp: find_pivot.simps [of k col m p0])
qed

lemma find_pivot_None:
  "find_pivot k col m p0 = None \<Longrightarrow> p0 \<le> r \<Longrightarrow> r < k \<Longrightarrow> fst (m ! r) ! col = 0"
proof (induction k col m p0 rule: find_pivot.induct)
  case (1 k col m p0)
  then show ?case
    by (cases "p0 < k"; cases "fst (m ! p0) ! col = 0"; cases "r = p0")
      (auto simp: find_pivot.simps [of k col m p0])
qed

lemma swap_rows_nth:
  assumes "wf_aug k s m" "pivot < k" "col < k" "r < k"
  shows "swap_rows pivot col m ! r = (if r = col then m ! pivot else if r = pivot then m ! col else m ! r)"
  using assms by (auto simp: swap_rows_def wf_aug_length nth_list_update)

lemma normalize_row_nth:
  assumes "wf_aug k s m" "col < k" "r < k" "c < k"
  shows "fst (normalize_row col m ! r) ! c
    = (if r = col then gf_mul (fst (m ! r) ! c) (gf_inv (fst (m ! col) ! col)) else fst (m ! r) ! c)"
proof -
  have "gf_mul a 1 = a" for a
    by (simp add: gf_mul_eq_pmul pmul_commute [of a])
  then show ?thesis
    using assms wf_augD [OF assms(1,2)]
    by (auto simp: normalize_row_def Let_def wf_aug_length nth_list_update)
qed

lemma eliminate_column_nth:
  assumes "wf_aug k s m" "col < k" "r < k" "c < k"
  shows "fst (eliminate_column k col m ! r) ! c
    = (if r = col then fst (m ! r) ! c
       else fst (m ! r) ! c XOR gf_mul (fst (m ! r) ! col) (fst (m ! col) ! c))"
  using assms wf_augD [OF assms(1,2)] wf_augD [OF assms(1,3)]
  by (auto simp: eliminate_column_def eliminate_row_def Let_def gf_mul_def)

definition gj_step :: "nat \<Rightarrow> nat \<Rightarrow> nat \<Rightarrow> aug_matrix \<Rightarrow> aug_matrix" where
  "gj_step k pivot col m = eliminate_column k col (normalize_row col (swap_rows pivot col m))"

lemmas wf_gj_ops = wf_swap_rows wf_normalize_row wf_eliminate_column

lemma wf_gj_step: "wf_aug k s m \<Longrightarrow> pivot < k \<Longrightarrow> col < k \<Longrightarrow> wf_aug k s (gj_step k pivot col m)"
  by (simp add: gj_step_def wf_gj_ops)

lemma rows_hold_gj_step:
  assumes m: "wf_aug k s m" "pivot < k" "col < k" and "lin s \<beta>" "fst (m ! pivot) ! col \<noteq> 0"
  shows "rows_hold k v \<beta> (gj_step k pivot col m) \<longleftrightarrow> rows_hold k v \<beta> m"
proof -
  note w1 = wf_swap_rows [OF m]
  note w2 = wf_normalize_row [OF w1 m(3)]
  have "fst (swap_rows pivot col m ! col) ! col \<noteq> 0"
    using assms by (simp add: swap_rows_nth [OF m])
  then show ?thesis
    using assms rows_hold_eliminate [OF w2 m(3)] rows_hold_normalize [OF w1 m(3)]
      rows_hold_swap [OF m] by (simp add: gj_step_def)
qed

lemma gj_step_nth:
  assumes m: "wf_aug k s m" "pivot < k" "col < k" and "r < k" "c < k"
  defines "prow \<equiv> (\<lambda>c. gf_mul (fst (m ! pivot) ! c) (gf_inv (fst (m ! pivot) ! col)))"
    and "old \<equiv> fst ((if r = pivot then m ! col else m ! r))"
  shows "fst (gj_step k pivot col m ! r) ! c
    = (if r = col then prow c else old ! c XOR gf_mul (old ! col) (prow c))"
proof -
  note w1 = wf_swap_rows [OF m]
  note w2 = wf_normalize_row [OF w1 m(3)]
  show ?thesis
    using assms by (simp add: gj_step_def eliminate_column_nth [OF w2 m(3)]
        normalize_row_nth [OF w1 m(3)] swap_rows_nth [OF m])
qed

lemma gj_step_new_unit:
  assumes "wf_aug k s m" "pivot < k" "col < k" "fst (m ! pivot) ! col \<noteq> 0"
  shows "unit_column k (gj_step k pivot col m) col"
proof -
  have one: "gf_mul a (gf_inv a) = 1" if "a \<noteq> 0" for a
    using gf_mul_inv [OF that] by (simp add: gf_mul_eq_pmul pmul_commute)
  have id: "gf_mul a 1 = a" for a
    by (simp add: gf_mul_eq_pmul pmul_commute [of a])
  show ?thesis
    using assms(4) by (auto simp: unit_column_def gj_step_nth [OF assms(1-3)] assms(3) one id)
qed

lemma gj_step_old_unit:
  assumes "wf_aug k s m" "col \<le> pivot" "pivot < k" "c < col" "unit_column k m c"
  shows "unit_column k (gj_step k pivot col m) c"
proof -
  have cl: "col < k"
    using assms(2,3) by simp
  have z: "fst (m ! r) ! c = (if r = c then 1 else 0)" if "r < k" for r
    using assms(5) that by (simp add: unit_column_def)
  have m0: "gf_mul 0 a = 0" "gf_mul a 0 = 0" for a
    by (simp_all add: gf_mul_def)
  show ?thesis
    using assms(2-4) by (auto simp: unit_column_def gj_step_nth [OF assms(1,3) cl] z m0)
qed

section \<open>Elimination of a system with trivial kernel\<close>

definition trivial_kernel :: "nat \<Rightarrow> aug_matrix \<Rightarrow> bool" where
  "trivial_kernel k m \<longleftrightarrow> (\<forall>v. rows_hold k v (\<lambda>_. 0) m \<longrightarrow> (\<forall>c<k. v c = 0))"

lemma pivot_exists:
  assumes "trivial_kernel k m" and units: "\<And>c. c < col \<Longrightarrow> unit_column k m c" and "col < k"
  shows "find_pivot k col m col \<noteq> None"
proof
  assume none: "find_pivot k col m col = None"
  define v where "v = (\<lambda>c. if c < col then gf (fst (m ! c) ! col) else if c = col then 1 else 0)"
  have "rowdot k (fst (m ! r)) v = 0" if r: "r < k" for r
  proof -
    have "gf (fst (m ! r) ! c) * v c
        = (if c = r \<and> r < col then gf (fst (m ! r) ! col) else 0)
          + (if c = col then gf (fst (m ! r) ! col) else 0)" if "c < k" for c
      using units [of c] r that find_pivot_None [OF none]
      by (auto simp: v_def unit_column_def gf_simps)
    then have "rowdot k (fst (m ! r)) v
        = (\<Sum>c<k. (if c = r \<and> r < col then gf (fst (m ! r) ! col) else 0)
                  + (if c = col then gf (fst (m ! r) ! col) else 0))"
      unfolding rowdot_def by (intro sum.cong) auto
    also have "\<dots> = (\<Sum>c<k. if c = r \<and> r < col then gf (fst (m ! r) ! col) else 0)
          + (\<Sum>c<k. if c = col then gf (fst (m ! r) ! col) else 0)"
      by (rule sum.distrib)
    also have "\<dots> = (if r < col then gf (fst (m ! r) ! col) else 0) + gf (fst (m ! r) ! col)"
      using r assms(3) by simp
    also have "\<dots> = 0"
      using find_pivot_None [OF none, of r] r by (auto simp: gf_simps)
    finally show ?thesis .
  qed
  then have "rows_hold k v (\<lambda>_. 0) m"
    by (simp add: rows_hold_def row_eq_def)
  then have "v col = 0"
    using assms(1,3) by (simp add: trivial_kernel_def)
  then show False
    by (simp add: v_def)
qed

lemma gauss_jordan_correct:
  assumes "wf_aug k s m" and "trivial_kernel k m" and "\<And>c. c < col \<Longrightarrow> unit_column k m c"
    and "col \<le> k"
  shows "\<exists>m'. gauss_jordan k [col..<k] m = Some m' \<and> wf_aug k s m' \<and> (\<forall>c<k. unit_column k m' c)
    \<and> (\<forall>v \<beta>. lin s \<beta> \<longrightarrow> rows_hold k v \<beta> m' = rows_hold k v \<beta> m)"
  using assms
proof (induction "k - col" arbitrary: col m)
  case 0
  then show ?case
    by simp
next
  case (Suc n)
  then have col: "col < k"
    by simp
  obtain p where p: "find_pivot k col m col = Some p"
    using pivot_exists [OF Suc.prems(2,3) col] by auto
  note ps = find_pivot_Some [OF p]
  let ?m = "gj_step k p col m"
  have wf: "wf_aug k s ?m"
    using Suc.prems(1) ps col by (simp add: wf_gj_step)
  have hold: "rows_hold k v \<beta> ?m = rows_hold k v \<beta> m" if "lin s \<beta>" for v \<beta>
    using rows_hold_gj_step Suc.prems(1) ps col that by blast
  have ker: "trivial_kernel k ?m"
    using Suc.prems(2) hold lin_zero by (simp add: trivial_kernel_def)
  have unit: "unit_column k ?m c" if "c < Suc col" for c
    using that gj_step_new_unit [OF Suc.prems(1) _ col] gj_step_old_unit [OF Suc.prems(1)]
      Suc.prems(3) ps by (auto simp: less_Suc_eq)
  have "n = k - Suc col" "Suc col \<le> k"
    using Suc.hyps(2) col by simp_all
  then show ?case
    using Suc.hyps(1) [OF _ wf ker unit] hold p col
    by (simp add: upt_conv_Cons gj_step_def [symmetric])
qed

lemma rowdot_unit:
  assumes "\<forall>c<k. unit_column k m c" and "r < k"
  shows "rowdot k (fst (m ! r)) v = v r"
proof -
  have "rowdot k (fst (m ! r)) v = (\<Sum>c<k. if c = r then v r else 0)"
    unfolding rowdot_def using assms by (intro sum.cong) (auto simp: unit_column_def gf_simps)
  then show ?thesis
    using assms(2) by simp
qed

text \<open>\<open>src\<close> holds k symbols of s bytes that satisfy every row of the system.\<close>

definition is_block :: "nat \<Rightarrow> nat \<Rightarrow> bytes list \<Rightarrow> bool" where
  "is_block k s src \<longleftrightarrow> length src = k \<and> (\<forall>b\<in>set src. length b = s)"

definition column_of :: "bytes list \<Rightarrow> nat \<Rightarrow> nat \<Rightarrow> gf" where
  "column_of src x = (\<lambda>i. gf (src ! i ! x))"

lemma gauss_jordan_solves:
  assumes "wf_aug k s m" and "trivial_kernel k m" and "is_block k s src"
    and sol: "\<And>x. x < s \<Longrightarrow> rows_hold k (column_of src x) (\<lambda>br. gf (br ! x)) m"
  shows "\<exists>m'. gauss_jordan k [0..<k] m = Some m' \<and> map snd m' = src"
proof -
  obtain m' where m': "gauss_jordan k [0..<k] m = Some m'" "wf_aug k s m'"
      "\<forall>c<k. unit_column k m' c"
      "\<And>v \<beta>. lin s \<beta> \<Longrightarrow> rows_hold k v \<beta> m' = rows_hold k v \<beta> m"
    using gauss_jordan_correct [OF assms(1,2), of 0] by auto
  have "snd (m' ! r) = src ! r" if r: "r < k" for r
  proof (rule nth_equalityI)
    show "length (snd (m' ! r)) = length (src ! r)"
      using r wf_augD [OF m'(2) r] assms(3) by (simp add: is_block_def)
    fix x assume "x < length (snd (m' ! r))"
    then have x: "x < s"
      using wf_augD [OF m'(2) r] by simp
    have "rows_hold k (column_of src x) (\<lambda>br. gf (br ! x)) m'"
      using sol [OF x] m'(4) [OF lin_nth [OF x]] by blast
    then have "row_eq k (column_of src x) (\<lambda>br. gf (br ! x)) (m' ! r)"
      using r by (simp add: rows_hold_def)
    then show "snd (m' ! r) ! x = src ! r ! x"
      using rowdot_unit [OF m'(3) r] by (simp add: row_eq_def column_of_def)
  qed
  then have "map snd m' = src"
    using assms(3) wf_aug_length [OF m'(2)] by (intro nth_equalityI) (simp_all add: is_block_def)
  with m'(1) show ?thesis
    by blast
qed

section \<open>Symbols of a block\<close>

datatype symbol = Source u16 | Repair u8

fun coeff_row :: "u16 \<Rightarrow> symbol \<Rightarrow> bytes" where
  "coeff_row k (Source i) = (replicate (unat k) 0)[unat i := 1]"
| "coeff_row k (Repair j) = rlc_repair_row k j"

fun symbol_data :: "u16 \<Rightarrow> nat \<Rightarrow> bytes list \<Rightarrow> symbol \<Rightarrow> bytes" where
  "symbol_data k s src (Source i) = src ! unat i"
| "symbol_data k s src (Repair j) = rlc_encode_repair k j src s"

text \<open>The symbols a block of k sources can have: indices below k, repairs with
  \<open>k + repair_idx \<le> 255\<close> (the precondition of \<open>rlc_repair_row\<close>).\<close>

fun symbol_ok :: "u16 \<Rightarrow> symbol \<Rightarrow> bool" where
  "symbol_ok k (Source i) \<longleftrightarrow> i < k"
| "symbol_ok k (Repair j) \<longleftrightarrow> unat k + unat j \<le> 255"

lemma length_coeff_row [simp]: "length (coeff_row k y) = unat k"
  by (cases y) (simp_all add: rlc_repair_row_def Let_def)

lemma rowdot_source:
  assumes "i < k"
  shows "rowdot (unat k) (coeff_row k (Source i)) v = v (unat i)"
proof -
  have i: "unat i < unat k"
    using assms by (simp add: word_less_nat_alt)
  have "rowdot (unat k) (coeff_row k (Source i)) v = (\<Sum>c<unat k. if c = unat i then v (unat i) else 0)"
    unfolding rowdot_def by (rule sum.cong) (auto simp: nth_list_update gf_simps)
  then show ?thesis
    using i by simp
qed

text \<open>Distinct evaluation points: \<open>x_j = k + j\<close> and \<open>y_i = i\<close>, all below 256.\<close>

lemma of_nat_u8_inj: "a < 256 \<Longrightarrow> b < 256 \<Longrightarrow> (of_nat a :: u8) = of_nat b \<longleftrightarrow> a = b"
  by (simp add: word_unat_eq_iff unat_of_nat take_bit_eq_mod)

lemma repair_row_nth:
  assumes "unat k + unat j \<le> 255" and "i < unat k"
  shows "gf (rlc_repair_row k j ! i)
    = 1 / (gf (of_nat (unat k + unat j)) - gf (of_nat i))"
proof -
  have "(of_nat (unat k + unat j) :: u8) \<noteq> of_nat i"
    using assms by (simp add: of_nat_u8_inj del: of_nat_add)
  then show ?thesis
    using assms(2) by (simp add: rlc_repair_row_def Let_def gf_simps xor_eq_0_iff divide_simps
        del: of_nat_add)
qed

lemma rowdot_repair:
  assumes "unat k + unat j \<le> 255"
  shows "rowdot (unat k) (coeff_row k (Repair j)) v
    = (\<Sum>i<unat k. v i / (gf (of_nat (unat k + unat j)) - gf (of_nat i)))"
  unfolding rowdot_def
  by (rule sum.cong) (simp_all add: repair_row_nth [OF assms] del: of_nat_add gf_minus)

text \<open>The encoder computes the dot product of its row with the sources, byte by byte.\<close>

lemma encode_fold_nth:
  assumes "\<forall>b\<in>set src. length b = s" "n \<le> length src" "n \<le> length row" "x < s"
  defines "f \<equiv> (\<lambda>i out. let c = row ! i in if c = 0 then out else gf_mul_xor c (src ! i) out)"
  shows "length (fold f [0..<n] (replicate s 0)) = s
    \<and> gf (fold f [0..<n] (replicate s 0) ! x) = (\<Sum>i<n. gf (row ! i) * gf (src ! i ! x))"
  using assms(2,3)
proof (induction n)
  case 0
  then show ?case
    using assms(4) by (simp add: gf_simps)
next
  case (Suc n)
  then have "length (src ! n) = s"
    using assms(1) by simp
  then show ?case
    using Suc assms(4) by (auto simp: f_def Let_def gf_mul_xor_eq_map2 gf_simps algebra_simps)
qed

lemma length_encode_repair:
  assumes "is_block (unat k) s src"
  shows "length (rlc_encode_repair k j src s) = s"
proof (cases "s = 0")
  case True
  have "length (fold (\<lambda>i out. let c = row ! i in if c = 0 then out else gf_mul_xor c (src ! i) out)
      xs []) = 0" for row xs
    by (induction xs) (simp_all add: Let_def gf_mul_xor_eq_map2)
  then show ?thesis
    using True by (simp add: rlc_encode_repair_def Let_def)
next
  case False
  then show ?thesis
    using encode_fold_nth [of src s "unat k" "rlc_repair_row k j" 0] assms
    by (simp add: rlc_encode_repair_def Let_def is_block_def rlc_repair_row_def)
qed

lemma encode_repair_nth:
  assumes "is_block (unat k) s src" and "x < s"
  shows "gf (rlc_encode_repair k j src s ! x) = rowdot (unat k) (coeff_row k (Repair j)) (column_of src x)"
  using encode_fold_nth [of src s "unat k" "rlc_repair_row k j" x] assms
  by (simp add: rlc_encode_repair_def Let_def is_block_def rowdot_def column_of_def)
     (simp add: rlc_repair_row_def Let_def)

lemma symbol_row_eq:
  assumes "is_block (unat k) s src" and "symbol_ok k y" and "x < s"
  shows "row_eq (unat k) (column_of src x) (\<lambda>br. gf (br ! x)) (coeff_row k y, symbol_data k s src y)"
  using assms
  by (cases y) (simp_all add: row_eq_def rowdot_source encode_repair_nth column_of_def del: coeff_row.simps)

lemma length_symbol_data:
  assumes "is_block (unat k) s src" and "symbol_ok k y"
  shows "length (symbol_data k s src y) = s"
  using assms length_encode_repair
  by (cases y) (auto simp: is_block_def word_less_nat_alt)

section \<open>Any k distinct symbols are independent\<close>

lemma symbol_partition: "set ys = Source ` {i. Source i \<in> set ys} \<union> Repair ` {j. Repair j \<in> set ys}"
proof (rule set_eqI)
  fix y show "y \<in> set ys \<longleftrightarrow> y \<in> Source ` {i. Source i \<in> set ys} \<union> Repair ` {j. Repair j \<in> set ys}"
    by (cases y) auto
qed

lemma symbol_count:
  assumes "distinct ys"
  shows "length ys = card {i. Source i \<in> set ys} + card {j. Repair j \<in> set ys}"
proof -
  have "length ys = card (Source ` {i. Source i \<in> set ys} \<union> Repair ` {j. Repair j \<in> set ys})"
    using distinct_card [OF assms] symbol_partition [of ys] by simp
  also have "\<dots> = card (Source ` {i. Source i \<in> set ys}) + card (Repair ` {j. Repair j \<in> set ys})"
    by (rule card_Un_disjoint) auto
  finally show ?thesis
    by (simp add: card_image inj_on_def)
qed

lemma symbols_kernel:
  assumes "distinct ys" and "length ys = unat k" and ok: "\<And>y. y \<in> set ys \<Longrightarrow> symbol_ok k y"
    and rows: "\<And>y. y \<in> set ys \<Longrightarrow> rowdot (unat k) (coeff_row k y) v = 0"
    and "c < unat k"
  shows "v c = 0"
proof -
  define A where "A = {i. Source i \<in> set ys}"
  define B where "B = {j. Repair j \<in> set ys}"
  define T where "T = {..<unat k} - unat ` A"
  have zero: "v (unat i) = 0" if "i \<in> A" for i
    using that rows [of "Source i"] ok [of "Source i"] by (simp add: A_def rowdot_source del: coeff_row.simps)
  have sub: "unat ` A \<subseteq> {..<unat k}"
    using ok by (force simp: A_def word_less_nat_alt)
  have "card T = unat k - card A"
    using sub by (simp add: T_def card_Diff_subset card_image inj_on_def finite_subset
        unat_inject_iff)
  then have cT: "card T \<le> card B"
    using symbol_count [OF assms(1)] assms(2) by (simp add: A_def B_def)
  have eq: "(\<Sum>i\<in>T. v i / (gf (of_nat (unat k + unat j)) - gf (of_nat i))) = 0" if "j \<in> B" for j
  proof -
    have "(\<Sum>i<unat k. v i / (gf (of_nat (unat k + unat j)) - gf (of_nat i))) = 0"
      using that rows [of "Repair j"] ok [of "Repair j"]
      by (simp add: B_def rowdot_repair del: coeff_row.simps of_nat_add gf_minus)
    then show ?thesis
      using zero sub by (subst sum.mono_neutral_left [where T = "{..<unat k}"])
        (auto simp: T_def simp del: of_nat_add gf_minus)
  qed
  have "\<forall>i\<in>T. v i = 0"
  proof (rule cauchy_kernel [OF _ _ cT _ _ _ eq])
    have kj: "unat k + unat j < 256" if "j \<in> B" for j
      using ok [of "Repair j"] that by (simp add: B_def)
    show "inj_on (\<lambda>j. gf (of_nat (unat k + unat j))) B"
      using kj by (auto simp: inj_on_def of_nat_u8_inj unat_inject_iff simp del: of_nat_add)
    have k256: "T = {} \<or> unat k \<le> 256"
      using cT kj by (metis T_def card_0_eq card_Diff_subset finite_lessThan finite_Diff le_add1
          le_zero_eq all_not_in_conv card.empty less_imp_le_nat order.trans finite)
    show "inj_on (\<lambda>i. gf (of_nat i)) T"
      using k256 by (auto simp: inj_on_def of_nat_u8_inj T_def)
    show "gf (of_nat (unat k + unat j)) \<noteq> gf (of_nat i)" if "j \<in> B" "i \<in> T" for j i
      using kj [OF that(1)] that(2) by (auto simp: T_def of_nat_u8_inj simp del: of_nat_add)
  qed (simp_all add: T_def B_def)
  then show ?thesis
    using assms(5) zero by (cases "c \<in> T") (auto simp: T_def)
qed

section \<open>The decoder object\<close>

definition dec_inv :: "u16 \<Rightarrow> nat \<Rightarrow> bytes list \<Rightarrow> symbol list \<Rightarrow> rlc_decoder \<Rightarrow> bool" where
  "dec_inv k s src ys d \<longleftrightarrow> rd_k d = k \<and> rd_s d = s
     \<and> rd_coeffs d = map (coeff_row k) ys \<and> rd_data d = map (symbol_data k s src) ys
     \<and> distinct ys \<and> (\<forall>y\<in>set ys. symbol_ok k y) \<and> length ys \<le> unat k
     \<and> length (rd_have_source d) = unat k \<and> length (rd_have_repair d) = 256
     \<and> (\<forall>i<k. rd_have_source d ! unat i \<longleftrightarrow> Source i \<in> set ys)
     \<and> (\<forall>j. rd_have_repair d ! unat j \<longleftrightarrow> Repair j \<in> set ys)"

fun add_symbol :: "u16 \<Rightarrow> nat \<Rightarrow> bytes list \<Rightarrow> symbol \<Rightarrow> rlc_decoder \<Rightarrow> rlc_decoder" where
  "add_symbol k s src (Source i) d = add_source i (symbol_data k s src (Source i)) d"
| "add_symbol k s src (Repair j) d = add_repair j (symbol_data k s src (Repair j)) d"

lemma dec_inv_init: "dec_inv k s src [] (RlcDecoder k s)"
  by (simp add: dec_inv_def RlcDecoder_def word_less_nat_alt unat_u8_less)

lemma dec_inv_add:
  assumes "dec_inv k s src ys d" and "is_block (unat k) s src" and "symbol_ok k y"
  shows "dec_inv k s src (if y \<in> set ys \<or> length ys = unat k then ys else ys @ [y]) (add_symbol k s src y d)"
proof (cases y)
  case (Source i)
  then have i: "i < k" and len: "length (src ! unat i) = s"
    using assms(2,3) by (auto simp: is_block_def word_less_nat_alt)
  show ?thesis
    using assms(1) i len
    by (auto simp: Source dec_inv_def add_source_def nth_list_update word_less_nat_alt not_le
        unat_inject_iff)
next
  case (Repair j)
  then have len: "length (rlc_encode_repair k j src s) = s"
    using assms(2) by (simp add: length_encode_repair)
  show ?thesis
    using assms(1,3) len unat_u8_less
    by (auto simp: Repair dec_inv_def add_repair_def nth_list_update unat_inject_iff)
qed

text \<open>Feeding any sequence of symbols keeps the first k distinct ones.\<close>

lemma dec_inv_feed:
  assumes "is_block (unat k) s src" and "\<forall>y\<in>set ys. symbol_ok k y"
  shows "\<exists>held. dec_inv k s src held (fold (add_symbol k s src) ys (RlcDecoder k s))
    \<and> set held \<subseteq> set ys \<and> (length held < unat k \<longrightarrow> set held = set ys)"
  using assms(2)
proof (induction ys rule: rev_induct)
  case Nil
  then show ?case
    using dec_inv_init by force
next
  case (snoc y ys)
  then obtain held where h: "dec_inv k s src held (fold (add_symbol k s src) ys (RlcDecoder k s))"
      "set held \<subseteq> set ys" "length held < unat k \<longrightarrow> set held = set ys"
    by auto
  have le: "length held \<le> unat k"
    using h(1) by (simp add: dec_inv_def)
  note inv = dec_inv_add [OF h(1) assms(1), of y]
  show ?case
  proof (cases "y \<in> set held \<or> length held = unat k")
    case True
    then show ?thesis
      using inv h(2,3) snoc.prems by (intro exI [of _ held]) auto
  next
    case False
    then show ?thesis
      using inv h(2,3) snoc.prems le by (intro exI [of _ "held @ [y]"]) auto
  qed
qed

lemma rlc_mds_decodes:
  assumes "is_block (unat k) s src" and "\<forall>y\<in>set ys. symbol_ok k y" and "unat k \<le> card (set ys)"
  shows "rlc_decode (fold (add_symbol k s src) ys (RlcDecoder k s)) = Some (concat src)"
proof -
  let ?d = "fold (add_symbol k s src) ys (RlcDecoder k s)"
  obtain held where inv: "dec_inv k s src held ?d"
    and all: "length held < unat k \<longrightarrow> set held = set ys"
    using dec_inv_feed [OF assms(1,2)] by blast
  have d: "distinct held" and ok: "\<And>y. y \<in> set held \<Longrightarrow> symbol_ok k y" and le: "length held \<le> unat k"
    using inv by (auto simp: dec_inv_def)
  have len: "length held = unat k"
    using all assms(3) le distinct_card [OF d] by (metis le_antisym not_le)
  let ?m = "map (\<lambda>y. (coeff_row k y, symbol_data k s src y)) held"
  have m: "take (unat k) (zip (rd_coeffs ?d) (rd_data ?d)) = ?m"
    using inv len by (simp add: dec_inv_def zip_map_map zip_same_conv_map)
  have "wf_aug (unat k) s ?m"
    using len ok by (auto simp: wf_aug_def length_symbol_data [OF assms(1)])
  moreover have "trivial_kernel (unat k) ?m"
    using symbols_kernel [OF d len ok] len
    by (auto simp: trivial_kernel_def rows_hold_set row_eq_def)
  moreover have "rows_hold (unat k) (column_of src x) (\<lambda>br. gf (br ! x)) ?m" if "x < s" for x
    using symbol_row_eq [OF assms(1) ok that] len by (auto simp: rows_hold_set)
  ultimately obtain m' where "gauss_jordan (unat k) [0..<unat k] ?m = Some m'" "map snd m' = src"
    using gauss_jordan_solves [OF _ _ assms(1)] by blast
  then show ?thesis
    using inv len m by (simp add: rlc_decode_def dec_inv_def Let_def)
qed

section \<open>The contract of an erasure code\<close>

text \<open>What the frame layer relies on: k distinct symbols of a block, collected in any order,
  give back its sources.\<close>

locale erasure_code =
  fixes collect :: "u16 \<Rightarrow> nat \<Rightarrow> bytes list \<Rightarrow> 'y list \<Rightarrow> bytes option"
    and valid_symbol :: "u16 \<Rightarrow> 'y \<Rightarrow> bool"
  assumes mds: "is_block (unat k) s src \<Longrightarrow> \<forall>y\<in>set ys. valid_symbol k y \<Longrightarrow> unat k \<le> card (set ys)
    \<Longrightarrow> collect k s src ys = Some (concat src)"
begin

lemma order_irrelevant:
  assumes "is_block (unat k) s src" and "\<forall>y\<in>set ys. valid_symbol k y" and "unat k \<le> card (set ys)"
    and "set zs = set ys"
  shows "collect k s src zs = collect k s src ys"
  using assms by (simp add: mds)

text \<open>A message padded to whole symbols comes back with its padding cut off.\<close>

lemma recover_padded:
  assumes "is_block (unat k) s src" and "\<forall>y\<in>set ys. valid_symbol k y" and "unat k \<le> card (set ys)"
    and "concat src = msg @ pad"
  shows "map_option (take (length msg)) (collect k s src ys) = Some msg"
  using assms by (simp add: mds)

end

interpretation rlc: erasure_code
  "\<lambda>k s src ys. rlc_decode (fold (add_symbol k s src) ys (RlcDecoder k s))" symbol_ok
  by unfold_locales (rule rlc_mds_decodes)

text \<open>C9: The block code is maximum distance separable: whatever source and repair symbols are added
  to an RlcDecoder, in any order and with any repetitions, decode returns the k source symbols
  concatenated as soon as k distinct symbols (with k + repair index at most 255) are among them.\<close>

theorem rlc_mds:
  assumes "is_block (unat k) s src" and "\<forall>y\<in>set ys. symbol_ok k y" and "unat k \<le> card (set ys)"
  shows "rlc_decode (fold (add_symbol k s src) ys (RlcDecoder k s)) = Some (concat src)"
  using assms by (rule rlc.mds)

theorem rlc_mds_witness:
  "rlc_decode (fold (add_symbol 2 3 [[1, 2, 3], [4, 5, 6]]) [Repair 1, Source 1, Repair 1]
     (RlcDecoder 2 3)) = Some [1, 2, 3, 4, 5, 6]"
  using rlc_mds [of 2 3 "[[1, 2, 3], [4, 5, 6]]" "[Repair 1, Source 1, Repair 1]"]
  by (simp add: is_block_def card_insert_if)

end
