(* ===== verification/Profile_Table.thy ===== *)
theory Profile_Table
  imports Endian "HOL-Library.Multiset"
begin

text \<open>
  core/include/wblink/table.h and core/src/table.cpp: the profile table, its canonical
  serialization and the one-byte version that both ends of a link compare.
\<close>

section \<open>Tables\<close>

datatype GuardInterval = gi_kLong | gi_kShort

fun gi_value :: "GuardInterval \<Rightarrow> u8" where
  "gi_value gi_kLong = 0"
| "gi_value gi_kShort = 1"

datatype FecScheme = fec_kNone | fec_kRlc256 | fec_kRlc256Iframe | fec_kTetrysReactive

fun fec_value :: "FecScheme \<Rightarrow> u8" where
  "fec_value fec_kNone = 0"
| "fec_value fec_kRlc256 = 1"
| "fec_value fec_kRlc256Iframe = 2"
| "fec_value fec_kTetrysReactive = 3"

record Profile =
  pf_id :: u8
  pf_mcs :: u8
  pf_gi :: GuardInterval
  pf_tx_power_level :: u8
  pf_airtime_budget_permille :: u16
  pf_max_payload :: u16
  pf_fec_scheme :: FecScheme
  pf_fec_overhead_permille :: u16
  pf_arq_deadline_iframe_ms :: u16
  pf_arq_deadline_pframe_ms :: u16
  pf_bitrate_min_kbps :: u32
  pf_reserve_control_bps :: u32
  pf_reserve_telemetry_bps :: u32

record ProfileTable =
  pt_profiles :: "Profile list"
  pt_floor_profile :: u8
  pt_probe_period :: u16
  pt_probe_slot :: u16

text \<open>\<open>std::adjacent_find\<close> on the sorted ids.\<close>

fun adjacent_equal :: "u8 list \<Rightarrow> bool" where
  "adjacent_equal (x # y # ys) = (if x = y then True else adjacent_equal (y # ys))"
| "adjacent_equal _ = False"

definition has_duplicate_ids :: "ProfileTable \<Rightarrow> bool" where
  "has_duplicate_ids t = adjacent_equal (sort (map pf_id (pt_profiles t)))"

section \<open>Serialization\<close>

definition serialize_profile :: "Profile \<Rightarrow> bytes" where
  "serialize_profile p =
     [pf_id p, pf_mcs p, gi_value (pf_gi p), pf_tx_power_level p]
     @ be16_write (pf_airtime_budget_permille p) @ [fec_value (pf_fec_scheme p)]
     @ be16_write (pf_fec_overhead_permille p) @ be16_write (pf_arq_deadline_iframe_ms p)
     @ be16_write (pf_arq_deadline_pframe_ms p) @ be32_write (pf_bitrate_min_kbps p)
     @ be32_write (pf_reserve_control_bps p) @ be32_write (pf_reserve_telemetry_bps p)
     @ be16_write (pf_max_payload p)"

text \<open>With distinct ids (the precondition of the source) \<open>std::sort\<close> by id is \<open>sort_key\<close>.\<close>

definition canonical_serialize :: "ProfileTable \<Rightarrow> bytes" where
  "canonical_serialize t =
     (let ps = sort_key pf_id (pt_profiles t)
      in [of_nat (length ps)] @ concat (map serialize_profile ps)
         @ [pt_floor_profile t] @ be16_write (pt_probe_period t) @ be16_write (pt_probe_slot t))"

definition pt_table_version :: "ProfileTable \<Rightarrow> u8" where
  "pt_table_version t = crc8_dvbs2 (canonical_serialize t) 0"

section \<open>The duplicate check\<close>

lemma adjacent_equal_sorted: "sorted xs \<Longrightarrow> adjacent_equal xs \<longleftrightarrow> \<not> distinct xs"
  by (induction xs rule: adjacent_equal.induct) fastforce+

lemma has_duplicate_ids_iff: "has_duplicate_ids t \<longleftrightarrow> \<not> distinct (map pf_id (pt_profiles t))"
  by (simp add: has_duplicate_ids_def adjacent_equal_sorted)

section \<open>The serialization is injective\<close>

lemma be16_write_inject: "be16_write a = be16_write b \<longleftrightarrow> a = b"
proof -
  have "be16_read (ptr_of (be16_write v)) = v" for v
    by (rule be16_read_write) (simp_all add: ptr_of_def be16_write_def)
  then show ?thesis
    by metis
qed

lemma be32_write_inject: "be32_write a = be32_write b \<longleftrightarrow> a = b"
proof -
  have "be32_read (ptr_of (be32_write v)) = v" for v
    by (rule be32_read_write) (simp_all add: ptr_of_def be32_write_def eval_nat_numeral)
  then show ?thesis
    by metis
qed

lemma gi_value_inject: "gi_value a = gi_value b \<longleftrightarrow> a = b"
  by (cases a; cases b) simp_all

lemma fec_value_inject: "fec_value a = fec_value b \<longleftrightarrow> a = b"
  by (cases a; cases b) simp_all

lemma length_serialize_profile [simp]: "length (serialize_profile p) = 27"
  by (simp add: serialize_profile_def)

lemma serialize_profile_inject: "serialize_profile p = serialize_profile q \<longleftrightarrow> p = q"
  by (cases p; cases q)
    (auto simp: serialize_profile_def be16_write_inject be32_write_inject gi_value_inject fec_value_inject)

lemma concat_serialize_inject:
  "length ps = length qs \<Longrightarrow> concat (map serialize_profile ps) = concat (map serialize_profile qs) \<Longrightarrow> ps = qs"
  by (induction ps qs rule: list_induct2) (auto simp: serialize_profile_inject)

text \<open>Tables with the same profiles in another order are the same table.\<close>

definition same_table :: "ProfileTable \<Rightarrow> ProfileTable \<Rightarrow> bool" where
  "same_table t u \<longleftrightarrow> mset (pt_profiles t) = mset (pt_profiles u) \<and> pt_floor_profile t = pt_floor_profile u
     \<and> pt_probe_period t = pt_probe_period u \<and> pt_probe_slot t = pt_probe_slot u"

lemma singleton_distinct: "set xs = {x} \<Longrightarrow> distinct xs \<Longrightarrow> xs = [x]"
  by (cases xs; cases "tl xs") auto

lemma filter_key_singleton:
  assumes "distinct (map f xs)" and "k \<in> set xs"
  shows "filter (\<lambda>x. f k = f x) xs = [k]"
proof (rule singleton_distinct)
  show "set (filter (\<lambda>x. f k = f x) xs) = {k}"
    using assms by (auto simp: distinct_map dest: inj_onD)
  show "distinct (filter (\<lambda>x. f k = f x) xs)"
    using assms by (simp add: distinct_map)
qed

lemma sort_key_same:
  assumes "distinct (map f xs)" and "mset xs = mset ys"
  shows "sort_key f xs = sort_key f ys"
proof (rule properties_for_sort_key)
  show "mset (sort_key f ys) = mset xs"
    using assms(2) by simp
  have d: "distinct (map f (sort_key f ys))"
    using assms(1) arg_cong [OF assms(2), of "image_mset f"]
    by (metis mset_map mset_sort mset_eq_imp_distinct_iff)
  show "filter (\<lambda>x. f k = f x) (sort_key f ys) = filter (\<lambda>x. f k = f x) xs" if "k \<in> set (sort_key f ys)" for k
    using that assms(2) filter_key_singleton [OF d that] filter_key_singleton [OF assms(1)]
    by (metis mset_eq_setD mset_sort)
qed simp

text \<open>The canonical serialization identifies a profile table: for tables without duplicate ids
  (as has_duplicate_ids decides) and at most 255 profiles, two serialize to the same bytes
  exactly when they have the same profiles, in any order, and the same floor and probe schedule.\<close>

theorem canonical_serialize_identifies_table:
  assumes "\<not> has_duplicate_ids t" and "\<not> has_duplicate_ids u"
    and "length (pt_profiles t) \<le> 255" and "length (pt_profiles u) \<le> 255"
  shows "canonical_serialize t = canonical_serialize u \<longleftrightarrow> same_table t u"
proof
  assume eq: "canonical_serialize t = canonical_serialize u"
  let ?p = "sort_key pf_id (pt_profiles t)" and ?q = "sort_key pf_id (pt_profiles u)"
  have "(of_nat (length ?p) :: u8) = of_nat (length ?q)"
    using eq by (simp add: canonical_serialize_def Let_def)
  then have len: "length ?p = length ?q"
    using assms(3,4) unat_of_nat_small [of "length ?p", where 'a = 8] unat_of_nat_small [of "length ?q", where 'a = 8]
    by simp
  have blk: "length (concat (map serialize_profile ?p)) = length (concat (map serialize_profile ?q))"
    using len by (simp add: length_concat o_def sum_list_triv)
  have "concat (map serialize_profile ?p) = concat (map serialize_profile ?q)
      \<and> pt_floor_profile t = pt_floor_profile u \<and> be16_write (pt_probe_period t) = be16_write (pt_probe_period u)
      \<and> be16_write (pt_probe_slot t) = be16_write (pt_probe_slot u)"
    using eq blk by (simp add: canonical_serialize_def Let_def append_eq_append_conv)
  then show "same_table t u"
    using concat_serialize_inject [OF len] mset_sort [of pf_id "pt_profiles t"] mset_sort [of pf_id "pt_profiles u"]
    by (simp add: same_table_def be16_write_inject)
next
  assume s: "same_table t u"
  then have "sort_key pf_id (pt_profiles t) = sort_key pf_id (pt_profiles u)"
    using assms(1) by (intro sort_key_same) (auto simp: same_table_def has_duplicate_ids_iff)
  then show "canonical_serialize t = canonical_serialize u"
    using s by (simp add: canonical_serialize_def Let_def same_table_def)
qed

text \<open>Two profiles listed in either order.\<close>

definition demo_profile :: "u8 \<Rightarrow> Profile" where
  "demo_profile i = \<lparr>pf_id = i, pf_mcs = i, pf_gi = gi_kLong, pf_tx_power_level = 3,
     pf_airtime_budget_permille = 700, pf_max_payload = 1424, pf_fec_scheme = fec_kRlc256,
     pf_fec_overhead_permille = 250, pf_arq_deadline_iframe_ms = 50, pf_arq_deadline_pframe_ms = 16,
     pf_bitrate_min_kbps = 1000, pf_reserve_control_bps = 2000, pf_reserve_telemetry_bps = 3000\<rparr>"

definition demo_table :: "u8 list \<Rightarrow> ProfileTable" where
  "demo_table ids = \<lparr>pt_profiles = map demo_profile ids, pt_floor_profile = 1, pt_probe_period = 0, pt_probe_slot = 0\<rparr>"

theorem canonical_serialize_identifies_table_witness:
  "canonical_serialize (demo_table [2, 1]) = canonical_serialize (demo_table [1, 2])
   \<and> canonical_serialize (demo_table [1]) \<noteq> canonical_serialize (demo_table [1, 2])"
proof -
  have d: "\<not> has_duplicate_ids (demo_table ids)" if "distinct ids" for ids
    using that by (simp add: has_duplicate_ids_iff demo_table_def o_def demo_profile_def)
  show ?thesis
    using canonical_serialize_identifies_table [of "demo_table [2, 1]" "demo_table [1, 2]"]
      canonical_serialize_identifies_table [of "demo_table [1]" "demo_table [1, 2]"] d [of "[1]"] d [of "[1, 2]"] d [of "[2, 1]"]
    by (simp add: demo_table_def same_table_def)
qed

end
