(* ===== verification/Frame_Framer.thy ===== *)
theory Frame_Framer
  imports Wire_Props Rlc_Mds Profile_Table
begin

text \<open>
  core/include/wblink/frame_framer.h, core/src/frame_framer.cpp and the frame metadata prefix of
  core/include/wblink/frame_shm_format.h: fragmenting one encoded frame into k source and r
  repair symbols. The emit callback is modelled by the list of the frames it is called with.
\<close>

section \<open>Frame metadata\<close>

abbreviation kVencFrameMetaSize :: nat where "kVencFrameMetaSize \<equiv> 8"
abbreviation kFrameFlagIdr :: u8 where "kFrameFlagIdr \<equiv> 0x01"
abbreviation kFrameFlagEnhance :: u8 where "kFrameFlagEnhance \<equiv> 0x04"

record VencFrameMeta =
  fm_pts :: bytes
  fm_codec :: u8
  fm_flags :: u8
  fm_gdr_pos :: u8
  fm_gdr_len :: u8

text \<open>The time stamp is copied in host order and only passed through, so it stays four bytes.\<close>

definition read_frame_meta :: "bytes option \<Rightarrow> VencFrameMeta option" where
  "read_frame_meta blob =
     (case blob of
        None \<Rightarrow> None
      | Some b \<Rightarrow>
          if length b < kVencFrameMetaSize then None
          else Some \<lparr>fm_pts = take 4 b, fm_codec = b ! 4, fm_flags = b ! 5, fm_gdr_pos = b ! 6,
                     fm_gdr_len = b ! 7\<rparr>)"

definition frame_blob_is_idr :: "bytes option \<Rightarrow> bool" where
  "frame_blob_is_idr blob \<longleftrightarrow>
     (case read_frame_meta blob of None \<Rightarrow> False | Some m \<Rightarrow> has_flag (fm_flags m) kFrameFlagIdr)"

section \<open>State\<close>

datatype FrameFecClass = cls_kP | cls_kEnhance | cls_kIdr

record FrameFecConfig =
  fec_scheme :: FecScheme
  i_rate_permille :: u16
  p_rate_permille :: u16
  e_rate_permille :: "u16 option"
  fec_min_r :: u16

record FrameFramerConfig =
  ff_originator :: u16
  ff_session_id :: u32
  ff_stream_id :: u8
  ff_stream_type :: u8
  ff_destination :: u16
  ff_fec :: FrameFecConfig

record FrameFramerStats =
  fs_frames :: u64
  fs_source_symbols :: u64
  fs_repair_symbols :: u64
  fs_malformed_frame :: u64
  fs_fec_oversize_k :: u64
  fs_mtu_fec_guard_frames :: u64
  fs_idr_frames :: u64
  fs_fec_enhance_frames :: u64

record FrameFramer =
  fr_cfg :: FrameFramerConfig
  fr_stats :: FrameFramerStats
  fr_active_profile :: u8
  fr_table_version :: u8
  fr_extra_flags :: u8
  fr_profile_max_payload :: u16
  fr_negotiated_packet_budget :: u16
  fr_next_seq :: u32
  fr_block_id :: u32
  fr_override_parity :: "u16 option"

definition zero_framer_stats :: FrameFramerStats where
  "zero_framer_stats = \<lparr>fs_frames = 0, fs_source_symbols = 0, fs_repair_symbols = 0,
     fs_malformed_frame = 0, fs_fec_oversize_k = 0, fs_mtu_fec_guard_frames = 0,
     fs_idr_frames = 0, fs_fec_enhance_frames = 0\<rparr>"

definition new_framer :: "FrameFramerConfig \<Rightarrow> FrameFramer" where
  "new_framer cfg = \<lparr>fr_cfg = cfg, fr_stats = zero_framer_stats, fr_active_profile = 0,
     fr_table_version = 0, fr_extra_flags = 0, fr_profile_max_payload = kDefaultMaxPayload,
     fr_negotiated_packet_budget = kDefaultMaxPayload, fr_next_seq = 0, fr_block_id = 0,
     fr_override_parity = None\<rparr>"

section \<open>Settings\<close>

definition set_operating_point :: "FrameFramer \<Rightarrow> u8 \<Rightarrow> u8 \<Rightarrow> u16 \<Rightarrow> FrameFramer" where
  "set_operating_point f profile tv max_payload =
     f\<lparr>fr_active_profile := profile, fr_table_version := tv, fr_profile_max_payload := max_payload\<rparr>"

definition set_negotiated_packet_budget :: "FrameFramer \<Rightarrow> u16 \<Rightarrow> FrameFramer" where
  "set_negotiated_packet_budget f budget = f\<lparr>fr_negotiated_packet_budget := budget\<rparr>"

definition effective_packet_budget :: "FrameFramer \<Rightarrow> u16" where
  "effective_packet_budget f =
     (if fr_profile_max_payload f < fr_negotiated_packet_budget f then fr_profile_max_payload f
      else fr_negotiated_packet_budget f)"

definition set_extra_flags :: "FrameFramer \<Rightarrow> u8 \<Rightarrow> FrameFramer" where
  "set_extra_flags f flags = f\<lparr>fr_extra_flags := flags\<rparr>"

definition set_fec_rates :: "FrameFramer \<Rightarrow> u16 \<Rightarrow> u16 \<Rightarrow> u16 \<Rightarrow> u16 option \<Rightarrow> FrameFramer" where
  "set_fec_rates f i_permille p_permille min_r e_permille =
     f\<lparr>fr_cfg := (fr_cfg f)\<lparr>ff_fec := (ff_fec (fr_cfg f))\<lparr>i_rate_permille := i_permille,
         p_rate_permille := p_permille, e_rate_permille := e_permille, fec_min_r := min_r\<rparr>\<rparr>\<rparr>"

definition framer_reset_stats :: "FrameFramer \<Rightarrow> FrameFramer" where
  "framer_reset_stats f = f\<lparr>fr_stats := zero_framer_stats\<rparr>"

definition set_next_frame_override :: "FrameFramer \<Rightarrow> u16 \<Rightarrow> FrameFramer" where
  "set_next_frame_override f parity_symbols = f\<lparr>fr_override_parity := Some parity_symbols\<rparr>"

section \<open>Symbol size and repair count\<close>

definition symbol_size :: "FrameFramer \<Rightarrow> u16" where
  "symbol_size f =
     (let s = int (unat (effective_packet_budget f)) - int kDataHeaderSize - int kFecRepairSubheaderSize
      in if 0 < s then of_int s else 1)"

definition class_rate :: "FrameFramer \<Rightarrow> FrameFecClass \<Rightarrow> u16" where
  "class_rate f cls =
     (let fec = ff_fec (fr_cfg f) in
      case cls of
        cls_kIdr \<Rightarrow> i_rate_permille fec
      | cls_kEnhance \<Rightarrow> (case e_rate_permille fec of Some v \<Rightarrow> v | None \<Rightarrow> p_rate_permille fec)
      | cls_kP \<Rightarrow> p_rate_permille fec)"

text \<open>The 32-bit product k * rate + 999 cannot overflow (k and rate are 16-bit), so it is
  computed in the naturals.\<close>

definition repair_count :: "FrameFramer \<Rightarrow> u16 \<Rightarrow> FrameFecClass \<Rightarrow> u16 \<times> FrameFramer" where
  "repair_count f k cls =
     (if fec_scheme (ff_fec (fr_cfg f)) \<noteq> fec_kRlc256 then (0, f)
      else let rate = unat (class_rate f cls)
      in if rate = 0 then (0, f)
      else let r0 = (unat k * rate + 999) div 1000;
               min_r = unat (fec_min_r (ff_fec (fr_cfg f)));
               r = (if r0 < min_r then min_r else r0)
      in if r = 0 then (0, f)
      else if kFecMaxSymbols < unat k + r
      then (0, f\<lparr>fr_stats := (fr_stats f)\<lparr>fs_fec_oversize_k := fs_fec_oversize_k (fr_stats f) + 1\<rparr>\<rparr>)
      else (of_nat r, f))"

section \<open>Emitting one frame\<close>

type_synonym emitted = "(bytes \<times> data_header) list"

definition symbol_header :: "FrameFramer \<Rightarrow> u32 \<Rightarrow> u8 \<Rightarrow> data_header" where
  "symbol_header f bid flags =
     \<lparr>dh_prefix = \<lparr>originator = ff_originator (fr_cfg f), destination = ff_destination (fr_cfg f),
        session_id = ff_session_id (fr_cfg f)\<rparr>,
      stream_id = ff_stream_id (fr_cfg f), stream_type = ff_stream_type (fr_cfg f),
      seq_no = fr_next_seq f, block_id = bid, data_flags = flags,
      active_profile = fr_active_profile f, table_version = fr_table_version f\<rparr>"

abbreviation frame_buf_cap :: nat where "frame_buf_cap \<equiv> kDataHeaderSize + kMaxDataPayload"

text \<open>One source symbol: the subheader and the chunk, encoded into the framer's buffer; the
  sequence number is consumed even when the packet does not fit.\<close>

definition emit_source ::
    "bytes \<Rightarrow> nat \<Rightarrow> u16 \<Rightarrow> u16 \<Rightarrow> u32 \<Rightarrow> nat \<Rightarrow> FrameFramer \<times> emitted \<Rightarrow> FrameFramer \<times> emitted" where
  "emit_source blob s k r bid i st =
     (let (f, out) = st;
          off = i * s;
          chunk = min s (length blob - off);
          payload = be16_write k @ be16_write (of_nat i) @ take chunk (drop off blob);
          flags = fr_extra_flags f OR (if r = 0 \<and> i = unat k - 1 then kEndOfBlock else 0);
          hdr = symbol_header f bid flags;
          f1 = f\<lparr>fr_next_seq := fr_next_seq f + 1\<rparr>
      in case encode_data hdr (Some payload) (of_nat (kFecSourceSubheaderSize + chunk))
                (Some frame_buf_cap) of
           None \<Rightarrow> (f1, out)
         | Some fl \<Rightarrow>
             (f1\<lparr>fr_stats := (fr_stats f1)\<lparr>fs_source_symbols := fs_source_symbols (fr_stats f1) + 1\<rparr>\<rparr>,
              out @ [(fl, hdr)]))"

text \<open>The zero-padded source symbols of the repair computation.\<close>

definition padded_sources :: "bytes \<Rightarrow> nat \<Rightarrow> nat \<Rightarrow> bytes list" where
  "padded_sources blob s k =
     (let pad = blob @ replicate (k * s - length blob) 0
      in map (\<lambda>i. take s (drop (i * s) pad)) [0..<k])"

definition emit_repair ::
    "bytes \<Rightarrow> nat \<Rightarrow> u16 \<Rightarrow> u16 \<Rightarrow> u32 \<Rightarrow> u32 \<Rightarrow> nat \<Rightarrow> FrameFramer \<times> emitted \<Rightarrow> FrameFramer \<times> emitted" where
  "emit_repair blob s k r bid base_seq j st =
     (let (f, out) = st;
          payload = [of_nat j] @ be16_write k @ be32_write base_seq
                    @ be32_write (of_nat (length blob))
                    @ rlc_encode_repair k (of_nat j) (padded_sources blob s (unat k)) s;
          flags = fr_extra_flags f OR kFecRepair OR (if j = unat r - 1 then kEndOfBlock else 0);
          hdr = symbol_header f bid flags;
          f1 = f\<lparr>fr_next_seq := fr_next_seq f + 1\<rparr>
      in case encode_data hdr (Some payload) (of_nat (kFecRepairSubheaderSize + s))
                (Some frame_buf_cap) of
           None \<Rightarrow> (f1, out)
         | Some fl \<Rightarrow>
             (f1\<lparr>fr_stats := (fr_stats f1)\<lparr>fs_repair_symbols := fs_repair_symbols (fr_stats f1) + 1\<rparr>\<rparr>,
              out @ [(fl, hdr)]))"

text \<open>The number of repair symbols of a frame: the policy of \<open>repair_count\<close>, the one-shot
  override and the jumbo-frame guard, in that order.\<close>

definition choose_repairs ::
    "FrameFramer \<Rightarrow> u16 option \<Rightarrow> nat \<Rightarrow> u16 \<Rightarrow> u16 \<Rightarrow> FrameFecClass \<Rightarrow> u16 \<times> FrameFramer" where
  "choose_repairs f ov_parity len s k cls =
     (let fec = ff_fec (fr_cfg f);
          rlc = (fec_scheme fec = fec_kRlc256);
          default_symbol = min (unat s) (unat kDefaultMaxPayload - kDataHeaderSize - kFecRepairSubheaderSize);
          default_k = 1 + (len - 1) div default_symbol;
          jumbo_fec_guard = (rlc \<and> default_symbol < unat s \<and> unat k < kFecProtectionK
                             \<and> kFecProtectionK \<le> default_k);
          (r1, f1) = repair_count f k cls;
          r2 = (case ov_parity of
                  Some p \<Rightarrow> if cls \<noteq> cls_kEnhance \<and> rlc
                            then let cap = (if unat k < kFecMaxSymbols then kFecMaxSymbols - unat k else 0)
                                 in of_nat (min (unat p) cap)
                            else r1
                | None \<Rightarrow> r1);
          rate = unat (class_rate f1 cls);
          guard_r = max (unat (fec_min_r fec)) ((kFecProtectionK * rate + 999) div 1000)
      in if jumbo_fec_guard \<and> rate \<noteq> 0 \<and> guard_r \<le> kFecMaxSymbols - unat k \<and> unat r2 < guard_r
         then (of_nat guard_r, f1\<lparr>fr_stats := (fr_stats f1)\<lparr>fs_mtu_fec_guard_frames :=
                 fs_mtu_fec_guard_frames (fr_stats f1) + 1\<rparr>\<rparr>)
         else (r2, f1))"

definition frame_class :: "bytes \<Rightarrow> FrameFecClass" where
  "frame_class blob =
     (case read_frame_meta (Some blob) of
        None \<Rightarrow> cls_kP
      | Some meta \<Rightarrow>
          if has_flag (fm_flags meta) kFrameFlagIdr then cls_kIdr
          else if has_flag (fm_flags meta) kFrameFlagEnhance then cls_kEnhance
          else cls_kP)"

definition count_frame :: "FrameFecClass \<Rightarrow> FrameFramer \<Rightarrow> FrameFramer" where
  "count_frame cls f =
     f\<lparr>fr_stats := (fr_stats f)\<lparr>fs_frames := fs_frames (fr_stats f) + 1,
         fs_idr_frames := fs_idr_frames (fr_stats f) + (if cls = cls_kIdr then 1 else 0),
         fs_fec_enhance_frames := fs_fec_enhance_frames (fr_stats f)
           + (if cls = cls_kEnhance then 1 else 0)\<rparr>\<rparr>"

definition drop_frame :: "FrameFramer \<Rightarrow> FrameFramer" where
  "drop_frame f = f\<lparr>fr_stats := (fr_stats f)\<lparr>fs_malformed_frame := fs_malformed_frame (fr_stats f) + 1\<rparr>\<rparr>"

definition on_frame :: "FrameFramer \<Rightarrow> bytes option \<Rightarrow> bool \<times> FrameFramer \<times> emitted" where
  "on_frame f0 blob_ptr =
     (let ov_parity = fr_override_parity f0;
          f = f0\<lparr>fr_override_parity := None\<rparr>
      in case blob_ptr of
           None \<Rightarrow> (False, drop_frame f, [])
         | Some blob \<Rightarrow>
             if length blob < kVencFrameMetaSize then (False, drop_frame f, [])
             else let s = symbol_size f;
                      k_sz = 1 + (length blob - 1) div unat s
             in if 0xFFFF < k_sz then (False, drop_frame f, [])
             else let k = (of_nat k_sz :: u16);
                      cls = frame_class blob;
                      bid = fr_block_id f;
                      base_seq = fr_next_seq f;
                      f1 = f\<lparr>fr_block_id := fr_block_id f + 1\<rparr>;
                      (r, f2) = choose_repairs f1 ov_parity (length blob) s k cls;
                      f3 = count_frame cls f2;
                      st = fold (emit_source blob (unat s) k r bid) [0..<unat k] (f3, []);
                      st' = fold (emit_repair blob (unat s) k r bid base_seq) [0..<unat r] st
             in (True, st'))"

end
