(* ===== verification/Frame_Framer_Props.thy ===== *)
theory Frame_Framer_Props
  imports Frame_Framer
begin

text \<open>
  What the framer sends for a frame, in closed form: k source symbols whose chunks concatenate
  to the frame, r repair symbols with \<open>k + r \<le> 256\<close>, consecutive sequence numbers, one block
  id, the end-of-block flag on the last symbol only, and every packet decodable.
\<close>

section \<open>Geometry\<close>

definition frame_k :: "nat \<Rightarrow> nat \<Rightarrow> nat" where
  "frame_k s len = 1 + (len - 1) div s"

definition chunk_of :: "bytes \<Rightarrow> nat \<Rightarrow> nat \<Rightarrow> bytes" where
  "chunk_of blob s i = take s (drop (i * s) blob)"

lemma frame_k_bounds:
  assumes "0 < s" and "0 < len"
  shows "(frame_k s len - 1) * s < len" and "len \<le> frame_k s len * s"
proof -
  have "(len - 1) div s * s + (len - 1) mod s = len - 1" "(len - 1) mod s < s"
    using assms(1) by simp_all
  then have "(len - 1) div s * s < len" "len \<le> (len - 1) div s * s + s"
    using assms(2) by linarith+
  then show "(frame_k s len - 1) * s < len" "len \<le> frame_k s len * s"
    by (simp_all add: frame_k_def)
qed

lemma chunk_start:
  assumes "0 < s" and "0 < len" and "i < frame_k s len"
  shows "i * s < len"
proof -
  have "i * s \<le> (frame_k s len - 1) * s"
    using assms(3) by (intro mult_le_mono1) simp
  then show ?thesis
    using frame_k_bounds(1) [OF assms(1,2)] by linarith
qed

lemma length_chunk: "length (chunk_of blob s i) = min s (length blob - i * s)"
  by (simp add: chunk_of_def)

lemma length_chunk_pos:
  assumes "0 < s" and "0 < length blob" and "i < frame_k s (length blob)"
  shows "0 < length (chunk_of blob s i)"
  using chunk_start [OF assms] assms(1) by (simp add: length_chunk)

lemma length_chunk_full:
  assumes "0 < s" and "0 < length blob" and "i < frame_k s (length blob) - 1"
  shows "length (chunk_of blob s i) = s"
proof -
  have "Suc i * s \<le> (frame_k s (length blob) - 1) * s"
    using assms(3) by (intro mult_le_mono1) simp
  then have "Suc i * s < length blob"
    using frame_k_bounds(1) [OF assms(1,2)] by linarith
  then show ?thesis
    by (simp add: length_chunk)
qed

lemma concat_chunks_upto: "concat (map (chunk_of blob s) [0..<n]) = take (n * s) blob"
proof (induction n)
  case (Suc n)
  have "take (n * s + s) blob = take (n * s) blob @ take s (drop (n * s) blob)"
    by (rule take_add)
  then show ?case
    using Suc by (simp add: chunk_of_def add.commute)
qed simp

lemma concat_chunks:
  assumes "0 < s" and "0 < length blob"
  shows "concat (map (chunk_of blob s) [0..<frame_k s (length blob)]) = blob"
  using frame_k_bounds(2) [OF assms] by (simp add: concat_chunks_upto)

text \<open>The padded sources are a block of the code, and their first bytes are the chunks.\<close>

lemma padded_sources_block:
  assumes "length blob \<le> k * s"
  shows "is_block k s (padded_sources blob s k)"
proof -
  have "length (take s (drop (i * s) (blob @ replicate (k * s - length blob) 0))) = s" if "i < k" for i
  proof -
    have "Suc i * s \<le> k * s"
      using that by (intro mult_le_mono1) simp
    then show ?thesis
      using assms by simp
  qed
  then show ?thesis
    by (auto simp: is_block_def padded_sources_def Let_def)
qed

lemma concat_padded:
  assumes "length blob \<le> k * s"
  shows "concat (padded_sources blob s k) = blob @ replicate (k * s - length blob) 0"
  using concat_chunks_upto [of "blob @ replicate (k * s - length blob) 0" s k] assms
  by (simp add: padded_sources_def Let_def chunk_of_def [abs_def])

lemma padded_source_nth:
  assumes "length blob \<le> k * s" and "i < k"
  shows "padded_sources blob s k ! i
         = chunk_of blob s i @ replicate (s - length (chunk_of blob s i)) 0"
proof -
  have "Suc i * s \<le> k * s"
    using assms(2) by (intro mult_le_mono1) simp
  then have "s - (length blob - i * s) \<le> k * s - length blob - (i * s - length blob)"
    using assms(1) by simp
  then show ?thesis
    using assms(2) by (simp add: padded_sources_def Let_def chunk_of_def min_def)
qed

lemma symbol_size_pos: "0 < unat (symbol_size f)"
proof -
  define v where "v = unat (effective_packet_budget f)"
  have "v < 65536"
    unfolding v_def by (rule unat_u16_less)
  then have "0 < unat (of_int (int v - 37) :: u16)" if "0 < int v - 37"
  proof -
    have e: "int v - 37 = int (v - 37)"
      using that by simp
    have "unat (of_nat (v - 37) :: u16) = v - 37"
      using \<open>v < 65536\<close> by (intro unat_of_nat_small) simp
    then show ?thesis
      unfolding e of_int_of_nat_eq using that by linarith
  qed
  then show ?thesis
    unfolding symbol_size_def Let_def v_def [symmetric] by simp
qed

section \<open>The repair count\<close>

lemma repair_count_cap:
  "fst (repair_count f k cls) = 0 \<or> unat k + unat (fst (repair_count f k cls)) \<le> kFecMaxSymbols"
  by (auto simp: repair_count_def Let_def unat_of_nat_small)

lemma repair_count_state:
  "fr_next_seq (snd (repair_count f k cls)) = fr_next_seq f"
  "fr_block_id (snd (repair_count f k cls)) = fr_block_id f"
  "fr_cfg (snd (repair_count f k cls)) = fr_cfg f"
  "fr_extra_flags (snd (repair_count f k cls)) = fr_extra_flags f"
  "fr_active_profile (snd (repair_count f k cls)) = fr_active_profile f"
  "fr_table_version (snd (repair_count f k cls)) = fr_table_version f"
  by (simp_all add: repair_count_def Let_def)

text \<open>What stays of the framer when only its statistics change.\<close>

definition same_but_stats :: "FrameFramer \<Rightarrow> FrameFramer \<Rightarrow> bool" where
  "same_but_stats f f' \<longleftrightarrow> (\<exists>st. f' = f\<lparr>fr_stats := st\<rparr>)"

lemma same_but_stats_intros:
  "same_but_stats f f" "same_but_stats f g \<Longrightarrow> same_but_stats f (g\<lparr>fr_stats := st\<rparr>)"
  unfolding same_but_stats_def by (metis FrameFramer.surjective FrameFramer.update_convs(2)) auto

lemma same_but_stats_fields:
  assumes "same_but_stats f f'"
  shows "fr_next_seq f' = fr_next_seq f" "fr_block_id f' = fr_block_id f" "fr_cfg f' = fr_cfg f"
    "fr_extra_flags f' = fr_extra_flags f" "fr_active_profile f' = fr_active_profile f"
    "fr_table_version f' = fr_table_version f" "fr_override_parity f' = fr_override_parity f"
    "fr_profile_max_payload f' = fr_profile_max_payload f"
    "fr_negotiated_packet_budget f' = fr_negotiated_packet_budget f"
  using assms by (auto simp: same_but_stats_def)

lemma repair_count_same: "same_but_stats f (snd (repair_count f k cls))"
  by (auto simp: repair_count_def Let_def intro: same_but_stats_intros)

lemma choose_repairs_same: "same_but_stats f (snd (choose_repairs f ov len s k cls))"
  using repair_count_same [of f k cls]
  by (auto simp: choose_repairs_def Let_def intro: same_but_stats_intros split: prod.split)

definition capped :: "u16 \<Rightarrow> u16 \<Rightarrow> bool" where
  "capped k r \<longleftrightarrow> r = 0 \<or> unat k + unat r \<le> kFecMaxSymbols"

lemma capped_of_nat: "n \<le> kFecMaxSymbols - unat k \<Longrightarrow> capped k (of_nat n)"
  by (cases "n = 0") (auto simp: capped_def unat_of_nat_small)

lemma choose_repairs_cap: "capped k (fst (choose_repairs f ov len s k cls))"
proof -
  obtain r1 f1 where rc: "repair_count f k cls = (r1, f1)"
    by (cases "repair_count f k cls")
  have r1: "capped k r1"
    using repair_count_cap [of f k cls] rc by (simp add: capped_def)
  have ov: "capped k (of_nat (min (unat p) (if unat k < kFecMaxSymbols then kFecMaxSymbols - unat k else 0)))"
    for p :: u16
    by (rule capped_of_nat) simp
  show ?thesis
    unfolding choose_repairs_def Let_def rc prod.case
    using r1 ov capped_of_nat capped_of_nat [of 0 k] by (simp split: option.split)
qed

section \<open>The symbols of a frame\<close>

definition source_payload :: "bytes \<Rightarrow> nat \<Rightarrow> u16 \<Rightarrow> nat \<Rightarrow> bytes" where
  "source_payload blob s k i = be16_write k @ be16_write (of_nat i) @ chunk_of blob s i"

definition repair_payload :: "bytes \<Rightarrow> nat \<Rightarrow> u16 \<Rightarrow> u32 \<Rightarrow> nat \<Rightarrow> bytes" where
  "repair_payload blob s k base_seq j = [of_nat j] @ be16_write k @ be32_write base_seq
     @ be32_write (of_nat (length blob))
     @ rlc_encode_repair k (of_nat j) (padded_sources blob s (unat k)) s"

definition source_flags :: "u8 \<Rightarrow> u16 \<Rightarrow> u16 \<Rightarrow> nat \<Rightarrow> u8" where
  "source_flags extra k r i = extra OR (if r = 0 \<and> i = unat k - 1 then kEndOfBlock else 0)"

definition repair_flags :: "u8 \<Rightarrow> u16 \<Rightarrow> nat \<Rightarrow> u8" where
  "repair_flags extra r j = extra OR kFecRepair OR (if j = unat r - 1 then kEndOfBlock else 0)"

text \<open>A packet on the air, and what the receiver gets out of it.\<close>

definition data_packet :: "data_header \<Rightarrow> bytes \<Rightarrow> bytes \<times> data_header" where
  "data_packet hdr payload =
     (the (encode_data hdr (Some payload) (of_nat (length payload)) (Some frame_buf_cap)), hdr)"

lemma encode_data_fits:
  assumes "length payload \<le> kMaxDataPayload" and "n = length payload"
  shows "encode_data hdr (Some payload) (of_nat n) (Some frame_buf_cap)
         = Some (fst (data_packet hdr payload))"
  using assms
  by (simp add: data_packet_def encode_data_def out_ok_def null_with_len_def Let_def unat_of_nat_small)

lemma decode_data_packet:
  assumes "length payload \<le> kMaxDataPayload"
  shows "decode (Some (ptr_of (fst (data_packet hdr payload)))) (length (fst (data_packet hdr payload)))
         = Inr (PData \<lparr>dv_hdr = hdr, dv_payload = payload\<rparr>)"
proof -
  have n: "unat (of_nat (length payload) :: u16) = length payload"
    using assms by (intro unat_of_nat_small) simp
  show ?thesis
    using roundtrip_data [of payload "of_nat (length payload)" hdr "Some frame_buf_cap"] assms n
      encode_data_fits [OF assms refl, of hdr]
    by (simp add: roundtrips_def)
qed

definition sent_source :: "FrameFramer \<Rightarrow> nat \<Rightarrow> FrameFramer" where
  "sent_source f n = f\<lparr>fr_next_seq := fr_next_seq f + of_nat n,
     fr_stats := (fr_stats f)\<lparr>fs_source_symbols := fs_source_symbols (fr_stats f) + of_nat n\<rparr>\<rparr>"

definition sent_repair :: "FrameFramer \<Rightarrow> nat \<Rightarrow> FrameFramer" where
  "sent_repair f n = f\<lparr>fr_next_seq := fr_next_seq f + of_nat n,
     fr_stats := (fr_stats f)\<lparr>fs_repair_symbols := fs_repair_symbols (fr_stats f) + of_nat n\<rparr>\<rparr>"

definition header_at :: "FrameFramer \<Rightarrow> u32 \<Rightarrow> nat \<Rightarrow> u8 \<Rightarrow> data_header" where
  "header_at f bid n flags = (symbol_header f bid flags)\<lparr>seq_no := fr_next_seq f + of_nat n\<rparr>"

lemma length_source_payload:
  "length (source_payload blob s k i) = 4 + length (chunk_of blob s i)"
  by (simp add: source_payload_def)

definition source_packet :: "FrameFramer \<Rightarrow> bytes \<Rightarrow> nat \<Rightarrow> u16 \<Rightarrow> u16 \<Rightarrow> u32 \<Rightarrow> nat \<Rightarrow> bytes \<times> data_header" where
  "source_packet f blob s k r bid i =
     data_packet (header_at f bid i (source_flags (fr_extra_flags f) k r i)) (source_payload blob s k i)"

definition repair_packet :: "FrameFramer \<Rightarrow> bytes \<Rightarrow> nat \<Rightarrow> u16 \<Rightarrow> u16 \<Rightarrow> u32 \<Rightarrow> u32 \<Rightarrow> nat \<Rightarrow> bytes \<times> data_header" where
  "repair_packet f blob s k r bid base_seq j =
     data_packet (header_at f bid j (repair_flags (fr_extra_flags f) r j))
       (repair_payload blob s k base_seq j)"

lemma emit_source_step:
  assumes "s + 11 \<le> kMaxDataPayload"
  shows "emit_source blob s k r bid n (sent_source f n, out) =
    (sent_source f (Suc n), out @ [source_packet f blob s k r bid n])"
proof -
  let ?p = "source_payload blob s k n" and ?n = "4 + min s (length blob - n * s)"
  have p: "be16_write k @ be16_write (of_nat n)
             @ take (min s (length blob - n * s)) (drop (n * s) blob) = ?p"
    by (simp add: source_payload_def chunk_of_def min_def)
  have len: "length ?p \<le> kMaxDataPayload" "?n = length ?p"
    using assms by (simp_all add: length_source_payload length_chunk)
  have hdr: "symbol_header (sent_source f n) bid flags = header_at f bid n flags" for flags
    by (simp add: header_at_def symbol_header_def sent_source_def)
  have pkt: "(fst (data_packet h q), h) = data_packet h q" for h q
    by (simp add: data_packet_def)
  show ?thesis
    unfolding emit_source_def Let_def prod.case p hdr encode_data_fits [OF len] option.case
    by (simp add: source_packet_def pkt) (simp add: sent_source_def source_flags_def algebra_simps)
qed

lemma emit_sources:
  assumes "s + 11 \<le> kMaxDataPayload"
  shows "fold (emit_source blob s k r bid) [0..<n] (f, []) =
    (sent_source f n, map (source_packet f blob s k r bid) [0..<n])"
proof (induction n)
  case 0
  show ?case
    by (simp add: sent_source_def)
next
  case (Suc n)
  then show ?case
    by (simp add: emit_source_step [OF assms])
qed

lemma emit_repair_step:
  assumes "s + 11 \<le> kMaxDataPayload" and "length blob \<le> unat k * s"
  shows "emit_repair blob s k r bid base_seq n (sent_repair f n, out) =
    (sent_repair f (Suc n), out @ [repair_packet f blob s k r bid base_seq n])"
proof -
  let ?p = "repair_payload blob s k base_seq n"
  have len: "length ?p \<le> kMaxDataPayload" "11 + s = length ?p"
    using assms length_encode_repair [OF padded_sources_block [OF assms(2)]]
    by (simp_all add: repair_payload_def)
  have hdr: "symbol_header (sent_repair f n) bid flags = header_at f bid n flags" for flags
    by (simp add: header_at_def symbol_header_def sent_repair_def)
  have pkt: "(fst (data_packet h q), h) = data_packet h q" for h q
    by (simp add: data_packet_def)
  show ?thesis
    unfolding emit_repair_def Let_def prod.case repair_payload_def [symmetric] hdr
      encode_data_fits [OF len] option.case
    by (simp add: repair_packet_def pkt) (simp add: sent_repair_def repair_flags_def algebra_simps)
qed

lemma emit_repairs:
  assumes "s + 11 \<le> kMaxDataPayload" and "length blob \<le> unat k * s"
  shows "fold (emit_repair blob s k r bid base_seq) [0..<n] (f, out) =
    (sent_repair f n, out @ map (repair_packet f blob s k r bid base_seq) [0..<n])"
proof (induction n)
  case 0
  show ?case
    by (simp add: sent_repair_def)
next
  case (Suc n)
  then show ?case
    by (simp add: emit_repair_step [OF assms])
qed

text \<open>A frame the framer accepts: it carries its metadata prefix, has at most 65535 symbols and
  the symbols fit the packet buffer.\<close>

definition sendable :: "FrameFramer \<Rightarrow> bytes \<Rightarrow> bool" where
  "sendable f blob \<longleftrightarrow> kVencFrameMetaSize \<le> length blob
     \<and> frame_k (unat (symbol_size f)) (length blob) \<le> 0xFFFF
     \<and> unat (symbol_size f) + 11 \<le> kMaxDataPayload"

lemma sendable_nonempty: "sendable f blob \<Longrightarrow> 0 < length blob"
  unfolding sendable_def by linarith

lemma sendable_cover:
  "sendable f blob \<Longrightarrow> length blob \<le> frame_k (unat (symbol_size f)) (length blob) * unat (symbol_size f)"
  by (intro frame_k_bounds(2) symbol_size_pos sendable_nonempty)

definition frame_symbols ::
    "FrameFramer \<Rightarrow> bytes \<Rightarrow> u16 \<Rightarrow> u16 \<Rightarrow> emitted" where
  "frame_symbols f blob k r =
     map (source_packet f blob (unat (symbol_size f)) k r (fr_block_id f)) [0..<unat k]
     @ map (repair_packet (sent_source f (unat k)) blob (unat (symbol_size f)) k r (fr_block_id f)
              (fr_next_seq f)) [0..<unat r]"

lemma header_at_cong:
  assumes "fr_cfg g = fr_cfg f" "fr_next_seq g = fr_next_seq f" "fr_active_profile g = fr_active_profile f"
    "fr_table_version g = fr_table_version f"
  shows "header_at g bid n flags = header_at f bid n flags"
  using assms by (simp add: header_at_def symbol_header_def)

lemma on_frame_emits:
  assumes "sendable f blob"
  obtains k r g where "unat k = frame_k (unat (symbol_size f)) (length blob)" and "capped k r"
    and "on_frame f (Some blob) = (True, g, frame_symbols f blob k r)"
    and "fr_next_seq g = fr_next_seq f + of_nat (unat k + unat r)"
    and "fr_block_id g = fr_block_id f + 1"
proof -
  define s where "s = unat (symbol_size f)"
  define k :: u16 where "k = of_nat (frame_k s (length blob))"
  define f0 where "f0 = f\<lparr>fr_override_parity := None\<rparr>"
  define f1 where "f1 = f0\<lparr>fr_block_id := fr_block_id f0 + 1\<rparr>"
  obtain r f2 where ch: "choose_repairs f1 (fr_override_parity f) (length blob) (symbol_size f0) k
      (frame_class blob) = (r, f2)"
    by (cases "choose_repairs f1 (fr_override_parity f) (length blob) (symbol_size f0) k (frame_class blob)")
  define f3 where "f3 = count_frame (frame_class blob) f2"
  have ss: "symbol_size f0 = symbol_size f"
    by (simp add: f0_def symbol_size_def effective_packet_budget_def)
  have k: "unat k = frame_k s (length blob)" and small: "\<not> 0xFFFF < frame_k s (length blob)"
    and fit: "s + 11 \<le> kMaxDataPayload" and len: "\<not> length blob < kVencFrameMetaSize"
    using assms by (simp_all add: sendable_def s_def k_def unat_of_nat_small)
  have cover: "length blob \<le> unat k * s"
    unfolding k using sendable_cover [OF assms] by (simp add: s_def)
  have "same_but_stats f1 f3"
    using choose_repairs_same [of f1 "fr_override_parity f" "length blob" "symbol_size f0" k "frame_class blob"] ch
    by (auto simp: f3_def count_frame_def intro: same_but_stats_intros)
  note fields = same_but_stats_fields [OF this]
  have hdr: "source_packet f3 blob s k r bid = source_packet f blob s k r bid"
    "repair_packet (sent_source f3 n) blob s k r bid b = repair_packet (sent_source f n) blob s k r bid b" for bid n b
    using fields
    by (auto simp: fun_eq_iff source_packet_def repair_packet_def f1_def f0_def header_at_def
        symbol_header_def sent_source_def)
  define g where "g = sent_repair (sent_source f3 (unat k)) (unat r)"
  have kk: "1 + (length blob - 1) div s = frame_k s (length blob)"
    by (simp add: frame_k_def)
  have "on_frame f (Some blob) = (True, g, frame_symbols f blob k r)"
    unfolding on_frame_def Let_def f0_def [symmetric] option.case ss s_def [symmetric] kk
      k_def [symmetric]
    using len small ch
    by (simp add: f1_def [symmetric] ss f3_def [symmetric] emit_sources [OF fit]
        emit_repairs [OF fit cover] hdr frame_symbols_def g_def s_def [symmetric])
      (simp add: f0_def)
  moreover have "capped k r"
    using choose_repairs_cap [of k f1 "fr_override_parity f" "length blob" "symbol_size f0" "frame_class blob"] ch
    by simp
  moreover have "fr_next_seq g = fr_next_seq f + of_nat (unat k + unat r)"
    "fr_block_id g = fr_block_id f + 1"
    using fields by (simp_all add: g_def sent_repair_def sent_source_def f1_def f0_def)
  ultimately show ?thesis
    using that k by (simp add: s_def)
qed

lemma has_flag_or: "has_flag (a OR b) m \<longleftrightarrow> has_flag a m \<or> has_flag b m"
proof -
  have "(a OR b) AND m = (a AND m) OR (b AND m)"
    by (rule bit_word_eqI) (auto simp: bit_simps)
  then show ?thesis
    by (simp add: has_flag_def or_eq_0_iff)
qed

definition symbol_payload :: "FrameFramer \<Rightarrow> bytes \<Rightarrow> u16 \<Rightarrow> nat \<Rightarrow> bytes" where
  "symbol_payload f blob k i =
     (if i < unat k then source_payload blob (unat (symbol_size f)) k i
      else repair_payload blob (unat (symbol_size f)) k (fr_next_seq f) (i - unat k))"

definition symbol_flags :: "FrameFramer \<Rightarrow> u16 \<Rightarrow> u16 \<Rightarrow> nat \<Rightarrow> u8" where
  "symbol_flags f k r i =
     (if i < unat k then source_flags (fr_extra_flags f) k r i
      else repair_flags (fr_extra_flags f) r (i - unat k))"

lemma length_frame_symbols [simp]: "length (frame_symbols f blob k r) = unat k + unat r"
  by (simp add: frame_symbols_def)

lemma frame_symbols_nth:
  assumes "i < unat k + unat r"
  shows "frame_symbols f blob k r ! i
    = data_packet (header_at f (fr_block_id f) i (symbol_flags f k r i)) (symbol_payload f blob k i)"
proof (cases "i < unat k")
  case True
  then show ?thesis
    by (simp add: frame_symbols_def nth_append source_packet_def symbol_flags_def symbol_payload_def)
next
  case False
  have "header_at (sent_source f (unat k)) bid (i - unat k) flags = header_at f bid i flags" for bid flags
    using False by (simp add: header_at_def symbol_header_def sent_source_def)
  then show ?thesis
    using False assms
    by (simp add: frame_symbols_def nth_append repair_packet_def symbol_flags_def symbol_payload_def
        sent_source_def)
qed

lemma length_symbol_payload:
  assumes "sendable f blob" and "unat k = frame_k (unat (symbol_size f)) (length blob)"
  shows "length (symbol_payload f blob k i) \<le> kMaxDataPayload"
proof -
  have "length blob \<le> unat k * unat (symbol_size f)"
    unfolding assms(2) by (rule sendable_cover [OF assms(1)])
  then show ?thesis
    using assms(1) length_encode_repair [OF padded_sources_block]
    by (auto simp: symbol_payload_def length_source_payload length_chunk repair_payload_def sendable_def)
qed

lemma last_symbol_flag:
  assumes "\<not> has_flag (fr_extra_flags f) kEndOfBlock" and "i < unat k + unat r" and "0 < unat k"
  shows "has_flag (symbol_flags f k r i) kEndOfBlock \<longleftrightarrow> i = unat k + unat r - 1"
proof -
  have fl: "\<not> has_flag kFecRepair kEndOfBlock" "has_flag kEndOfBlock kEndOfBlock" "\<not> has_flag 0 kEndOfBlock"
    by (simp_all add: has_flag_def)
  show ?thesis
  proof (cases "i < unat k")
    case True
    have "r = 0 \<or> 0 < unat r"
      by (simp add: unat_gt_0)
    then show ?thesis
      using True assms fl by (auto simp: symbol_flags_def source_flags_def has_flag_or)
  next
    case False
    then show ?thesis
      using assms fl by (auto simp: symbol_flags_def repair_flags_def has_flag_or)
  qed
qed

lemma drop_source_payload: "drop 4 (source_payload blob s k i) = chunk_of blob s i"
  by (simp add: source_payload_def)

text \<open>C21: on_frame of a sendable frame succeeds and emits k source and r repair packets with k + r at
  most 256 when there are repairs; every packet decodes to its symbol, sequence numbers are
  consecutive, all carry the block id, the source chunks concatenate to the frame, and
  END_OF_BLOCK marks the last packet only.\<close>

theorem on_frame_sends_block:
  assumes "sendable f blob"
  shows "\<exists>k r g out. on_frame f (Some blob) = (True, g, out)
    \<and> unat k = frame_k (unat (symbol_size f)) (length blob) \<and> length out = unat k + unat r
    \<and> (r = 0 \<or> unat k + unat r \<le> kFecMaxSymbols)
    \<and> (\<forall>i<length out. decode (Some (ptr_of (fst (out ! i)))) (length (fst (out ! i)))
          = Inr (PData \<lparr>dv_hdr = snd (out ! i), dv_payload = symbol_payload f blob k i\<rparr>)
        \<and> seq_no (snd (out ! i)) = fr_next_seq f + of_nat i
        \<and> block_id (snd (out ! i)) = fr_block_id f
        \<and> data_flags (snd (out ! i)) = symbol_flags f k r i)
    \<and> concat (map (\<lambda>i. drop 4 (symbol_payload f blob k i)) [0..<unat k]) = blob
    \<and> (\<not> has_flag (fr_extra_flags f) kEndOfBlock \<longrightarrow>
        (\<forall>i<length out. has_flag (data_flags (snd (out ! i))) kEndOfBlock = (i = length out - 1)))
    \<and> fr_next_seq g = fr_next_seq f + of_nat (length out) \<and> fr_block_id g = fr_block_id f + 1"
proof -
  from assms obtain k r g where kr: "unat k = frame_k (unat (symbol_size f)) (length blob)" "capped k r"
    "on_frame f (Some blob) = (True, g, frame_symbols f blob k r)"
    "fr_next_seq g = fr_next_seq f + of_nat (unat k + unat r)" "fr_block_id g = fr_block_id f + 1"
    by (rule on_frame_emits)
  have hd: "data_packet h p = (fst (data_packet h p), h)" for h p
    by (simp add: data_packet_def)
  have k0: "0 < unat k"
    by (simp add: kr(1) frame_k_def)
  have cat: "concat (map (\<lambda>i. drop 4 (symbol_payload f blob k i)) [0..<unat k]) = blob"
  proof -
    have "map (\<lambda>i. drop 4 (symbol_payload f blob k i)) [0..<unat k]
        = map (chunk_of blob (unat (symbol_size f))) [0..<unat k]"
      by (simp add: symbol_payload_def drop_source_payload)
    also have "concat \<dots> = blob"
      unfolding kr(1) by (intro concat_chunks symbol_size_pos sendable_nonempty [OF assms])
    finally show ?thesis .
  qed
  show ?thesis
    using kr cat last_symbol_flag [OF _ _ k0, of f _ r] decode_data_packet [OF length_symbol_payload [OF assms kr(1)]]
    by (intro exI [of _ k] exI [of _ r] exI [of _ g] exI [of _ "frame_symbols f blob k r"])
      (auto simp: frame_symbols_nth capped_def data_packet_def [THEN arg_cong [of _ _ snd]]
        header_at_def symbol_header_def)
qed

section \<open>A concrete frame\<close>

text \<open>Two source symbols and one repair symbol.\<close>

definition demo_framer :: FrameFramer where
  "demo_framer = set_negotiated_packet_budget
     (new_framer \<lparr>ff_originator = 1, ff_session_id = 7, ff_stream_id = 0, ff_stream_type = 0,
       ff_destination = 2, ff_fec = \<lparr>fec_scheme = fec_kRlc256, i_rate_permille = 0, p_rate_permille = 500,
       e_rate_permille = None, fec_min_r = 0\<rparr>\<rparr>) 58"

definition demo_out :: emitted where
  "demo_out = snd (snd (on_frame demo_framer (Some (replicate 30 0))))"

lemmas demo_eval = on_frame_def Let_def choose_repairs_def count_frame_def repair_count_def frame_class_def
  read_frame_meta_def has_flag_def symbol_size_def demo_framer_def new_framer_def
  effective_packet_budget_def set_negotiated_packet_budget_def class_rate_def zero_framer_stats_def
  emit_source_def emit_repair_def symbol_header_def upt_rec encode_data_def out_ok_def null_with_len_def

lemma demo_symbol_size: "symbol_size demo_framer = 21"
  by (simp add: demo_eval)

lemma length_demo_out: "length demo_out = 3"
  using arg_cong [of _ _ length, of "map (seq_no \<circ> snd) demo_out" "[0, 1, 2]"]
  by (simp add: demo_out_def demo_eval)

lemma demo_sent: "on_frame demo_framer (Some (replicate 30 0))
    = (True, fst (snd (on_frame demo_framer (Some (replicate 30 0)))), demo_out)"
  unfolding demo_out_def by (simp add: prod_eq_iff) (simp add: demo_eval)


theorem on_frame_sends_block_witness:
  "\<exists>k r g out. on_frame demo_framer (Some (replicate 30 0)) = (True, g, out) \<and> unat (k :: u16) = 2
     \<and> unat (r :: u16) = 1
     \<and> (\<forall>i<3. has_flag (data_flags (snd (out ! i))) kEndOfBlock = (i = 2))"
proof -
  have s: "sendable demo_framer (replicate 30 0)"
    by (simp add: sendable_def demo_symbol_size frame_k_def)
  have f: "\<not> has_flag (fr_extra_flags demo_framer) kEndOfBlock"
    by (simp add: demo_eval)
  obtain k r g out where o: "on_frame demo_framer (Some (replicate 30 0)) = (True, g, out)"
    "unat (k :: u16) = frame_k (unat (symbol_size demo_framer)) (length (replicate 30 (0 :: u8)))"
    "length out = unat k + unat (r :: u16)"
    "\<forall>i<length out. has_flag (data_flags (snd (out ! i))) kEndOfBlock = (i = length out - 1)"
    using on_frame_sends_block [OF s] f by blast
  have n: "length out = 3"
    using o(1) length_demo_out by (simp add: demo_out_def)
  have k: "unat k = 2"
    using o(2) by (simp add: demo_symbol_size frame_k_def)
  have r: "unat r = 1"
    using o(3) n k by linarith
  have flags: "\<forall>i<3. has_flag (data_flags (snd (out ! i))) kEndOfBlock = (i = 2)"
    using o(4) unfolding n by simp
  show ?thesis
    using o(1) k r flags by blast
qed

end
