(* ===== verification/Ordered_Map.thy ===== *)
theory Ordered_Map
  imports Prelude
begin

text \<open>
  \<open>std::map\<close> and \<open>std::set\<close> as the code uses them: association lists with strictly ascending
  keys, so that iteration visits the entries in key order. \<open>map_of\<close> is the look-up; every
  operation keeps the keys ascending.
\<close>

type_synonym ('k, 'v) omap = "('k \<times> 'v) list"

text \<open>\<open>emplace\<close>: an entry that exists is kept.\<close>

fun om_emplace :: "'k::linorder \<Rightarrow> 'v \<Rightarrow> ('k, 'v) omap \<Rightarrow> ('k, 'v) omap" where
  "om_emplace k v [] = [(k, v)]"
| "om_emplace k v ((k', v') # xs) =
     (if k < k' then (k, v) # (k', v') # xs
      else if k = k' then (k', v') # xs
      else (k', v') # om_emplace k v xs)"

text \<open>\<open>m[k] = v\<close>.\<close>

fun om_update :: "'k::linorder \<Rightarrow> 'v \<Rightarrow> ('k, 'v) omap \<Rightarrow> ('k, 'v) omap" where
  "om_update k v [] = [(k, v)]"
| "om_update k v ((k', v') # xs) =
     (if k < k' then (k, v) # (k', v') # xs
      else if k = k' then (k, v) # xs
      else (k', v') # om_update k v xs)"

definition om_erase :: "'k \<Rightarrow> ('k, 'v) omap \<Rightarrow> ('k, 'v) omap" where
  "om_erase k xs = filter (\<lambda>kv. fst kv \<noteq> k) xs"

definition om_has :: "'k \<Rightarrow> ('k, 'v) omap \<Rightarrow> bool" where
  "om_has k xs \<longleftrightarrow> map_of xs k \<noteq> None"

text \<open>A set is a map to unit.\<close>

type_synonym 'k oset = "('k, unit) omap"

definition om_insert :: "'k::linorder \<Rightarrow> 'k oset \<Rightarrow> 'k oset" where
  "om_insert k xs = om_emplace k () xs"

text \<open>\<open>lower_bound\<close>, the entry before it, and \<open>upper_bound\<close>.\<close>

definition om_lower_bound :: "'k::linorder \<Rightarrow> ('k, 'v) omap \<Rightarrow> ('k \<times> 'v) option" where
  "om_lower_bound k xs = find (\<lambda>kv. k \<le> fst kv) xs"

definition om_before :: "'k::linorder \<Rightarrow> ('k, 'v) omap \<Rightarrow> ('k \<times> 'v) option" where
  "om_before k xs = find (\<lambda>kv. fst kv < k) (rev xs)"

definition om_upper_bound :: "'k::linorder \<Rightarrow> ('k, 'v) omap \<Rightarrow> ('k \<times> 'v) option" where
  "om_upper_bound k xs = find (\<lambda>kv. k < fst kv) xs"

definition om_ok :: "('k::linorder, 'v) omap \<Rightarrow> bool" where
  "om_ok xs \<longleftrightarrow> sorted_wrt (<) (map fst xs)"

lemma fst_set_emplace: "fst ` set (om_emplace k v xs) = insert k (fst ` set xs)"
  by (induction k v xs rule: om_emplace.induct) auto

lemma set_om_emplace: "set (om_emplace k v xs) \<subseteq> insert (k, v) (set xs)"
  by (induction k v xs rule: om_emplace.induct) auto

lemma om_has_iff: "om_has k xs \<longleftrightarrow> k \<in> fst ` set xs"
  by (simp add: om_has_def map_of_eq_None_iff)

lemma om_emplace_same: "om_ok xs \<Longrightarrow> om_has k xs \<Longrightarrow> om_emplace k v xs = xs"
proof (induction k v xs rule: om_emplace.induct)
  case (2 k v k' v' xs)
  then show ?case
    by (auto simp: om_has_iff om_ok_def)
qed (simp add: om_has_def)

lemma fst_set_update: "fst ` set (om_update k v xs) = insert k (fst ` set xs)"
  by (induction k v xs rule: om_update.induct) auto

lemma om_ok_emplace [simp]: "om_ok xs \<Longrightarrow> om_ok (om_emplace k v xs)"
proof (induction k v xs rule: om_emplace.induct)
  case (2 k v k' v' xs)
  then show ?case
    using fst_set_emplace [of k v xs] by (auto simp: om_ok_def)
qed (simp add: om_ok_def)

lemma om_ok_update [simp]: "om_ok xs \<Longrightarrow> om_ok (om_update k v xs)"
proof (induction k v xs rule: om_update.induct)
  case (2 k v k' v' xs)
  then show ?case
    using fst_set_update [of k v xs] by (auto simp: om_ok_def)
qed (simp add: om_ok_def)

lemma om_ok_erase [simp]: "om_ok xs \<Longrightarrow> om_ok (om_erase k xs)"
  by (induction xs) (auto simp: om_ok_def om_erase_def)

lemma om_ok_Nil [simp]: "om_ok []"
  by (simp add: om_ok_def)

lemma om_ok_distinct: "om_ok xs \<Longrightarrow> distinct (map fst xs)"
  by (simp add: om_ok_def strict_sorted_iff)

lemma map_of_emplace:
  assumes "om_ok xs"
  shows "map_of (om_emplace k v xs) = (if om_has k xs then map_of xs else (map_of xs)(k \<mapsto> v))"
  using assms
proof (induction k v xs rule: om_emplace.induct)
  case (2 k v k' v' xs)
  have "\<not> om_has k xs" if "k < k'"
  proof
    assume "om_has k xs"
    then have "k \<in> fst ` set xs"
      by (auto simp: om_has_def map_of_eq_None_iff)
    then show False
      using that 2(2) by (auto simp: om_ok_def)
  qed
  then show ?case
    using 2 by (auto simp: om_has_def om_ok_def fun_eq_iff)
qed (simp add: om_has_def)

lemma map_of_update:
  assumes "om_ok xs"
  shows "map_of (om_update k v xs) = (map_of xs)(k \<mapsto> v)"
  using assms by (induction k v xs rule: om_update.induct) (auto simp: om_ok_def)

lemma map_of_erase: "map_of (om_erase k xs) = (map_of xs)(k := None)"
  by (induction xs) (auto simp: om_erase_def fun_eq_iff)

lemma length_emplace: "om_ok xs \<Longrightarrow> length (om_emplace k v xs) = (if om_has k xs then length xs else Suc (length xs))"
proof (induction k v xs rule: om_emplace.induct)
  case (2 k v k' v' xs)
  then show ?case
    by (auto simp: om_has_iff om_ok_def)
qed (simp add: om_has_def)

lemma om_length_card: "om_ok xs \<Longrightarrow> length xs = card (fst ` set xs)"
  using om_ok_distinct [of xs] distinct_card [of "map fst xs"] by simp

lemma om_ext:
  assumes "om_ok xs" and "om_ok ys" and "map_of xs = map_of ys"
  shows "xs = ys"
proof -
  have "fst ` set xs = fst ` set ys"
    using assms(3) by (metis dom_map_of_conv_image_fst)
  then have k: "map fst xs = map fst ys"
    using assms(1,2) by (intro strict_sorted_equal) (simp_all add: om_ok_def)
  have lookup: "map_of zs (fst (zs ! i)) = Some (snd (zs ! i))" if "om_ok zs" "i < length zs" for zs :: "('a, 'b) omap" and i
    using that om_ok_distinct [of zs] by (simp add: map_of_eq_Some_iff)
  show ?thesis
  proof (rule nth_equalityI)
    show len: "length xs = length ys"
      using k by (metis length_map)
    fix i assume i: "i < length xs"
    have "fst (xs ! i) = fst (ys ! i)"
      using k i len by (metis nth_map)
    moreover have "snd (xs ! i) = snd (ys ! i)"
      using lookup [OF assms(1) i] lookup [OF assms(2), of i] i len assms(3) calculation by simp
    ultimately show "xs ! i = ys ! i"
      by (simp add: prod_eq_iff)
  qed
qed

section \<open>Keys in order\<close>

abbreviation om_keys :: "('k, 'v) omap \<Rightarrow> 'k set" where
  "om_keys xs \<equiv> fst ` set xs"

lemma om_ok_Cons: "om_ok ((k, v) # xs) \<longleftrightarrow> (\<forall>k' \<in> om_keys xs. k < k') \<and> om_ok xs"
  by (simp add: om_ok_def)

lemma om_ok_append: "om_ok (xs @ ys) \<longleftrightarrow> om_ok xs \<and> om_ok ys \<and> (\<forall>a \<in> om_keys xs. \<forall>b \<in> om_keys ys. a < b)"
  by (auto simp: om_ok_def sorted_wrt_append)

lemma om_ok_same_keys: "map fst xs = map fst ys \<Longrightarrow> om_ok xs = om_ok ys"
  by (simp add: om_ok_def)

lemma om_ok_filter: "om_ok xs \<Longrightarrow> om_ok (filter P xs)"
  by (induction xs) (auto simp: om_ok_def)

lemma keys_erase: "om_keys (om_erase k xs) = om_keys xs - {k}"
  by (auto simp: om_erase_def)

lemma om_erase_absent: "k \<notin> om_keys xs \<Longrightarrow> om_erase k xs = xs"
  unfolding om_erase_def by (rule filter_True) force

lemma om_update_in_place:
  "om_ok (ys @ (k, v) # zs) \<Longrightarrow> om_update k v' (ys @ (k, v) # zs) = ys @ (k, v') # zs"
  by (induction ys) (auto simp: om_ok_Cons)

lemma set_om_update: "om_ok xs \<Longrightarrow> set (om_update k v xs) = insert (k, v) {kv \<in> set xs. fst kv \<noteq> k}"
  by (induction k v xs rule: om_update.induct) (auto simp: om_ok_Cons)

lemma map_of_ok_iff: "om_ok xs \<Longrightarrow> map_of xs k = Some v \<longleftrightarrow> (k, v) \<in> set xs"
  using om_ok_distinct map_of_eq_Some_iff by metis

text \<open>The bounds: the nearest entry above a key.\<close>

lemma om_upper_bound_SomeD:
  assumes "om_ok xs" and "om_upper_bound k xs = Some (k', v)"
  shows "(k', v) \<in> set xs \<and> k < k' \<and> (\<forall>j \<in> om_keys xs. k < j \<longrightarrow> k' \<le> j)"
  using assms unfolding om_upper_bound_def
  by (induction xs) (fastforce simp: om_ok_Cons split: if_splits)+

lemma om_upper_bound_None: "om_upper_bound k xs = None \<longleftrightarrow> (\<forall>j \<in> om_keys xs. j \<le> k)"
  by (auto simp: om_upper_bound_def find_None_iff not_less)

lemma om_upper_bound_filter:
  "om_ok xs \<Longrightarrow> c \<le> k \<Longrightarrow> om_upper_bound k (filter (\<lambda>kv. c \<le> fst kv) xs) = om_upper_bound k xs"
  unfolding om_upper_bound_def by (induction xs) (auto simp: om_ok_Cons)

end
