(* ===== verification/Jscc_Loss_Estimator.thy ===== *)
theory Jscc_Loss_Estimator
  imports Prelude
begin

text \<open>
  core/include/wblink/jscc_loss_estimator.h and core/src/jscc_loss_estimator.cpp: a sliding
  window of samples and its upper quantile.
\<close>

record JsccLossEstimatorConfig =
  ec_window :: nat
  ec_quantile_permille :: u16
  ec_min_samples :: nat
  ec_cold_start :: u32

record JsccLossEstimator =
  es_cfg :: JsccLossEstimatorConfig
  es_samples :: "u32 list"

definition default_estimator_cfg :: JsccLossEstimatorConfig where
  "default_estimator_cfg = \<lparr>ec_window = 120, ec_quantile_permille = 950, ec_min_samples = 20,
     ec_cold_start = 0\<rparr>"

definition new_estimator :: "JsccLossEstimatorConfig \<Rightarrow> JsccLossEstimator" where
  "new_estimator cfg = \<lparr>es_cfg = cfg, es_samples = []\<rparr>"

definition es_rank :: "JsccLossEstimator \<Rightarrow> nat" where
  "es_rank e = max 1 ((length (es_samples e) * unat (ec_quantile_permille (es_cfg e)) + 999) div 1000)"

definition es_predict :: "JsccLossEstimator \<Rightarrow> u32" where
  "es_predict e =
     (if length (es_samples e) < ec_min_samples (es_cfg e) \<or> es_samples e = []
      then ec_cold_start (es_cfg e)
      else sort (es_samples e) ! (es_rank e - 1))"

definition es_observe :: "JsccLossEstimator \<Rightarrow> u32 \<Rightarrow> JsccLossEstimator" where
  "es_observe e sample =
     (let ss = es_samples e @ [sample]
      in e\<lparr>es_samples := (if ec_window (es_cfg e) < length ss then tl ss else ss)\<rparr>)"

definition es_reset :: "JsccLossEstimator \<Rightarrow> JsccLossEstimator" where
  "es_reset e = e\<lparr>es_samples := []\<rparr>"

definition sample_count :: "JsccLossEstimator \<Rightarrow> nat" where
  "sample_count e = length (es_samples e)"

section \<open>The window and the quantile\<close>

definition last_n :: "nat \<Rightarrow> 'a list \<Rightarrow> 'a list" where
  "last_n n xs = drop (length xs - n) xs"

lemma last_n_snoc: "last_n n (last_n n xs @ [x]) = last_n n (xs @ [x])"
proof (cases "n \<le> length xs")
  case True
  then have "length (last_n n xs) = n"
    by (simp add: last_n_def)
  then have "last_n n (last_n n xs @ [x]) = drop 1 (last_n n xs @ [x])"
    by (simp add: last_n_def)
  also have "last_n n xs @ [x] = drop (length xs - n) (xs @ [x])"
    by (simp add: last_n_def)
  also have "drop 1 \<dots> = drop (length xs + 1 - n) (xs @ [x])"
    using True by (simp only: drop_drop) (simp add: Suc_diff_le)
  finally show ?thesis
    by (simp add: last_n_def)
qed (simp add: last_n_def)

lemma observe_last_n:
  assumes "length (es_samples e) \<le> ec_window (es_cfg e)"
  shows "es_samples (es_observe e x) = last_n (ec_window (es_cfg e)) (es_samples e @ [x])"
proof (cases "length (es_samples e) = ec_window (es_cfg e)")
  case True
  then show ?thesis
    by (cases "es_samples e") (auto simp: es_observe_def Let_def last_n_def)
qed (use assms in \<open>simp add: es_observe_def Let_def last_n_def\<close>)

lemma observe_cfg: "es_cfg (foldl es_observe e xs) = es_cfg e"
  by (induction xs arbitrary: e) (simp_all add: es_observe_def Let_def)

lemma observe_window:
  "es_samples (foldl es_observe (new_estimator cfg) xs) = last_n (ec_window cfg) xs"
proof (induction xs rule: rev_induct)
  case Nil
  show ?case
    by (simp add: new_estimator_def last_n_def)
next
  case (snoc x xs)
  let ?e = "foldl es_observe (new_estimator cfg) xs"
  have "es_cfg ?e = cfg"
    by (simp add: observe_cfg) (simp add: new_estimator_def)
  moreover have "length (last_n n ys) \<le> n" for n and ys :: "u32 list"
    by (simp add: last_n_def)
  ultimately show ?case
    using snoc observe_last_n [of ?e x] by (simp add: last_n_snoc)
qed

lemma rank_in_range:
  assumes "es_samples e \<noteq> []" and "ec_quantile_permille (es_cfg e) \<le> 1000"
  shows "1 \<le> es_rank e" and "es_rank e \<le> length (es_samples e)"
proof -
  have "unat (ec_quantile_permille (es_cfg e)) \<le> 1000"
    using assms(2) by (simp add: word_le_nat_alt)
  then have "length (es_samples e) * unat (ec_quantile_permille (es_cfg e)) + 999
      \<le> length (es_samples e) * 1000 + 999"
    by simp
  then have "(length (es_samples e) * unat (ec_quantile_permille (es_cfg e)) + 999) div 1000
      \<le> (length (es_samples e) * 1000 + 999) div 1000"
    by (rule div_le_mono)
  moreover have "(length (es_samples e) * 1000 + 999) div 1000 = length (es_samples e)"
    by simp
  moreover have "1 \<le> length (es_samples e)"
    using assms(1) by (cases "es_samples e") simp_all
  ultimately show "es_rank e \<le> length (es_samples e)"
    unfolding es_rank_def by linarith
qed (simp add: es_rank_def)

lemma sorted_nth_counts:
  fixes xs :: "'a::linorder list"
  assumes "sorted xs" and "i < length xs"
  shows "i < length (filter (\<lambda>x. x \<le> xs ! i) xs)" and "length (filter (\<lambda>x. x < xs ! i) xs) \<le> i"
proof -
  have le: "filter (\<lambda>x. x \<le> xs ! i) (take (Suc i) xs) = take (Suc i) xs"
    using assms by (auto simp: filter_id_conv in_set_conv_nth sorted_iff_nth_mono)
  have "filter (\<lambda>x. x \<le> xs ! i) xs
      = filter (\<lambda>x. x \<le> xs ! i) (take (Suc i) xs) @ filter (\<lambda>x. x \<le> xs ! i) (drop (Suc i) xs)"
    by (metis append_take_drop_id filter_append)
  then have "length (filter (\<lambda>x. x \<le> xs ! i) xs)
      = Suc i + length (filter (\<lambda>x. x \<le> xs ! i) (drop (Suc i) xs))"
    using le assms(2) by simp
  then show "i < length (filter (\<lambda>x. x \<le> xs ! i) xs)"
    by simp
  have gt: "filter (\<lambda>x. x < xs ! i) (drop i xs) = []"
    using assms by (auto simp: filter_empty_conv in_set_conv_nth sorted_iff_nth_mono not_less)
  have "filter (\<lambda>x. x < xs ! i) xs
      = filter (\<lambda>x. x < xs ! i) (take i xs) @ filter (\<lambda>x. x < xs ! i) (drop i xs)"
    by (metis append_take_drop_id filter_append)
  then show "length (filter (\<lambda>x. x < xs ! i) xs) \<le> i"
    using gt length_filter_le [of "\<lambda>x. x < xs ! i" "take i xs"] by simp
qed

lemma length_filter_sort: "length (filter P (sort xs)) = length (filter P (xs :: 'a::linorder list))"
  by (metis filter_sort length_sort)

text \<open>The loss estimator keeps exactly the last window samples, and its prediction is their
  configured quantile: at least rank of them are at most the prediction and fewer than rank are
  below it.\<close>

theorem estimator_quantile:
  assumes "e = foldl es_observe (new_estimator cfg) xs" and "es_samples e \<noteq> []"
    and "ec_min_samples cfg \<le> length (es_samples e)" and "ec_quantile_permille cfg \<le> 1000"
  shows "es_samples e = last_n (ec_window cfg) xs
    \<and> es_rank e \<le> length (filter (\<lambda>x. x \<le> es_predict e) (es_samples e))
    \<and> length (filter (\<lambda>x. x < es_predict e) (es_samples e)) < es_rank e"
proof -
  have cfg: "es_cfg e = cfg"
    by (simp add: assms(1) observe_cfg) (simp add: new_estimator_def)
  have r: "1 \<le> es_rank e" "es_rank e \<le> length (es_samples e)"
    using rank_in_range [OF assms(2)] assms(4) cfg by simp_all
  have "es_predict e = sort (es_samples e) ! (es_rank e - 1)"
    using assms(2,3) cfg by (simp add: es_predict_def)
  then have "es_rank e - 1 < length (filter (\<lambda>x. x \<le> es_predict e) (es_samples e))"
    "length (filter (\<lambda>x. x < es_predict e) (es_samples e)) \<le> es_rank e - 1"
    using sorted_nth_counts [of "sort (es_samples e)" "es_rank e - 1"] r
    by (simp_all add: length_filter_sort)
  then show ?thesis
    using observe_window [of cfg xs] r assms(1) by auto
qed

theorem estimator_quantile_witness:
  "es_samples (foldl es_observe (new_estimator (default_estimator_cfg\<lparr>ec_window := 3, ec_min_samples := 1\<rparr>)) [5, 1, 9, 4])
     = [1, 9, 4]"
proof -
  let ?cfg = "default_estimator_cfg\<lparr>ec_window := 3, ec_min_samples := 1\<rparr>"
  let ?e = "foldl es_observe (new_estimator ?cfg) [5, 1, 9, 4]"
  show ?thesis
    using estimator_quantile [of ?e ?cfg "[5, 1, 9, 4]"]
    by (simp add: default_estimator_cfg_def new_estimator_def es_observe_def last_n_def)
qed

end
