(* ===== verification/Frame_Reassembler.thy ===== *)
theory Frame_Reassembler
  imports Frame_Framer Ordered_Map Jscc_Loss_Estimator
begin

text \<open>
  core/include/wblink/frame_reassembler.h and core/src/frame_reassembler.cpp: collecting the
  symbols of a block and emitting the frame. The egress callback \<open>emit\<close> is a parameter that
  says whether a frame is accepted; an operation returns, besides the object, the emissions it
  attempted as (block id, frame, accepted). The salvage hook is a parameter too: the frames it
  passes to \<open>emit\<close> and its result.
\<close>

section \<open>State\<close>

record FrameReassemblerConfig =
  rc_deadline_ms :: u32
  rc_max_blocks_ahead :: u32
  rc_max_frame_bytes :: u32

record FrameReassemblerStats =
  rs_frames_delivered :: u64
  rs_frames_fast :: u64
  rs_frames_fec :: u64
  rs_frames_egress_rejected :: u64
  rs_fec_recovered_source_symbols :: u64
  rs_frames_fec_only :: u64
  rs_frames_superseded :: u64
  rs_frames_deadline :: u64
  rs_frames_unrecoverable :: u64
  rs_frames_salvaged :: u64
  rs_decode_failures :: u64
  rs_malformed :: u64
  rs_jscc_shadow_blocks :: u64
  rs_jscc_predicted_loss_symbols :: u16
  rs_jscc_observed_loss_symbols :: u16
  rs_jscc_underpredicted_blocks :: u64
  rs_jscc_predicted_parity_symbols :: u64
  rs_jscc_predicted_repair_symbols :: u16
  rs_jscc_observed_repair_symbols :: u16
  rs_jscc_repair_underpredicted_blocks :: u64
  rs_jscc_repair_demand_censored_blocks :: u64
  rs_jscc_repair_predicted_parity_symbols :: u64

record Block =
  bl_k :: u16
  bl_s :: u16
  bl_frame_len :: u32
  bl_first_ms :: u64
  bl_last_new_ms :: u64
  bl_eob_ms :: u64
  bl_have_eob :: bool
  bl_shadow_armed :: bool
  bl_shadow_prediction :: u16
  bl_repair_prediction :: u16
  bl_sources :: "(u16, bytes) omap"
  bl_repairs :: "(u8, bytes) omap"
  bl_air_sources :: "u16 oset"
  bl_air_repairs :: "u8 oset"

record SalvageView =
  sv_block_id :: u32
  sv_k :: u16
  sv_s :: u16
  sv_frame_len :: u32
  sv_sources :: "(u16, bytes) omap"

type_synonym salvage_hook = "SalvageView \<Rightarrow> bytes list \<times> bool"
type_synonym egress = "bytes \<Rightarrow> bool"
type_synonym emission = "u32 \<times> bytes \<times> bool"

record FrameReassembler =
  ra_cfg :: FrameReassemblerConfig
  ra_stats :: FrameReassemblerStats
  ra_salvage :: "salvage_hook option"
  ra_blocks :: "(u32, Block) omap"
  ra_highest_block :: u32
  ra_have_highest :: bool
  ra_last_emitted :: u32
  ra_have_emitted :: bool
  ra_finalized_upto :: u32
  ra_have_finalized :: bool
  ra_loss_estimator :: JsccLossEstimator
  ra_repair_estimator :: JsccLossEstimator
  ra_latest_observed_block :: u32
  ra_have_observed_block :: bool

definition empty_block :: Block where
  "empty_block = \<lparr>bl_k = 0, bl_s = 0, bl_frame_len = 0, bl_first_ms = 0, bl_last_new_ms = 0,
     bl_eob_ms = 0, bl_have_eob = False, bl_shadow_armed = False, bl_shadow_prediction = 0,
     bl_repair_prediction = 0, bl_sources = [], bl_repairs = [], bl_air_sources = [],
     bl_air_repairs = []\<rparr>"

definition zero_reasm_stats :: FrameReassemblerStats where
  "zero_reasm_stats = \<lparr>rs_frames_delivered = 0, rs_frames_fast = 0, rs_frames_fec = 0,
     rs_frames_egress_rejected = 0, rs_fec_recovered_source_symbols = 0, rs_frames_fec_only = 0,
     rs_frames_superseded = 0, rs_frames_deadline = 0, rs_frames_unrecoverable = 0,
     rs_frames_salvaged = 0, rs_decode_failures = 0, rs_malformed = 0, rs_jscc_shadow_blocks = 0,
     rs_jscc_predicted_loss_symbols = 0, rs_jscc_observed_loss_symbols = 0,
     rs_jscc_underpredicted_blocks = 0, rs_jscc_predicted_parity_symbols = 0,
     rs_jscc_predicted_repair_symbols = 0, rs_jscc_observed_repair_symbols = 0,
     rs_jscc_repair_underpredicted_blocks = 0, rs_jscc_repair_demand_censored_blocks = 0,
     rs_jscc_repair_predicted_parity_symbols = 0\<rparr>"

definition repair_estimator_cfg :: JsccLossEstimatorConfig where
  "repair_estimator_cfg = \<lparr>ec_window = 120, ec_quantile_permille = 1000, ec_min_samples = 20,
     ec_cold_start = 100\<rparr>"

definition new_reassembler :: "FrameReassemblerConfig \<Rightarrow> salvage_hook option \<Rightarrow> FrameReassembler" where
  "new_reassembler cfg hook = \<lparr>ra_cfg = cfg, ra_stats = zero_reasm_stats, ra_salvage = hook,
     ra_blocks = [], ra_highest_block = 0, ra_have_highest = False, ra_last_emitted = 0,
     ra_have_emitted = False, ra_finalized_upto = 0, ra_have_finalized = False,
     ra_loss_estimator = new_estimator default_estimator_cfg,
     ra_repair_estimator = new_estimator repair_estimator_cfg,
     ra_latest_observed_block = 0, ra_have_observed_block = False\<rparr>"

text \<open>\<open>bid_diff\<close>: the signed 32-bit difference.\<close>

definition bid_diff :: "u32 \<Rightarrow> u32 \<Rightarrow> int" where
  "bid_diff a b = sint (a - b)"

abbreviation upd_stats :: "(FrameReassemblerStats \<Rightarrow> FrameReassemblerStats) \<Rightarrow> FrameReassembler \<Rightarrow> FrameReassembler" where
  "upd_stats g st \<equiv> st\<lparr>ra_stats := g (ra_stats st)\<rparr>"

definition bump_malformed :: "FrameReassembler \<Rightarrow> FrameReassembler" where
  "bump_malformed st = upd_stats (\<lambda>x. x\<lparr>rs_malformed := rs_malformed x + 1\<rparr>) st"

section \<open>Bookkeeping\<close>

definition ra_finalize :: "u32 \<Rightarrow> FrameReassembler \<Rightarrow> FrameReassembler" where
  "ra_finalize i st =
     (if \<not> ra_have_finalized st \<or> 0 < bid_diff i (ra_finalized_upto st)
      then st\<lparr>ra_finalized_upto := i, ra_have_finalized := True\<rparr> else st)"

definition note_emitted :: "u32 \<Rightarrow> FrameReassembler \<Rightarrow> FrameReassembler" where
  "note_emitted i st =
     (if \<not> ra_have_emitted st \<or> 0 < bid_diff i (ra_last_emitted st)
      then st\<lparr>ra_last_emitted := i, ra_have_emitted := True\<rparr> else st)"

definition sat16 :: "nat \<Rightarrow> u16" where
  "sat16 n = of_nat (min n 0xFFFF)"

definition observe_shadow :: "u32 \<Rightarrow> Block \<Rightarrow> FrameReassembler \<Rightarrow> FrameReassembler" where
  "observe_shadow i b st =
     (if \<not> bl_shadow_armed b \<or> bl_k b = 0 then st
      else let k = unat (bl_k b);
               observed = k - min (length (bl_air_sources b)) k;
               repairs_seen = length (bl_air_repairs b);
               emitted_so_far = (if bl_air_repairs b = [] then 0
                                 else unat (fst (last (bl_air_repairs b))) + 1);
               demand_censored = repairs_seen < observed;
               repair_demand = (if demand_censored then min 0xFFFF (emitted_so_far + observed - repairs_seen)
                                else if observed = 0 then 0 else emitted_so_far);
               demand_rate = (repair_demand * 1000 + k - 1) div k;
               s = ra_stats st
      in st\<lparr>ra_stats := s\<lparr>rs_jscc_predicted_loss_symbols := bl_shadow_prediction b,
             rs_jscc_observed_loss_symbols := of_nat observed,
             rs_jscc_underpredicted_blocks := rs_jscc_underpredicted_blocks s
               + (if unat (bl_shadow_prediction b) < observed then 1 else 0),
             rs_jscc_predicted_parity_symbols := rs_jscc_predicted_parity_symbols s
               + ucast (bl_shadow_prediction b),
             rs_jscc_predicted_repair_symbols := bl_repair_prediction b,
             rs_jscc_observed_repair_symbols := of_nat repair_demand,
             rs_jscc_repair_underpredicted_blocks := rs_jscc_repair_underpredicted_blocks s
               + (if unat (bl_repair_prediction b) < repair_demand then 1 else 0),
             rs_jscc_repair_demand_censored_blocks := rs_jscc_repair_demand_censored_blocks s
               + (if demand_censored then 1 else 0),
             rs_jscc_repair_predicted_parity_symbols := rs_jscc_repair_predicted_parity_symbols s
               + ucast (bl_repair_prediction b),
             rs_jscc_shadow_blocks := rs_jscc_shadow_blocks s + 1\<rparr>,
           ra_loss_estimator := es_observe (ra_loss_estimator st) (of_nat observed),
           ra_repair_estimator := es_observe (ra_repair_estimator st) (of_nat demand_rate),
           ra_latest_observed_block := i,
           ra_have_observed_block := True\<rparr>)"

section \<open>Completing a block\<close>

definition pad_to :: "nat \<Rightarrow> bytes \<Rightarrow> bytes" where
  "pad_to s bs = take s bs @ replicate (s - length bs) 0"

text \<open>The decoder filled from the sources, then the repairs that are long enough.\<close>

definition fill_decoder :: "Block \<Rightarrow> rlc_decoder" where
  "fill_decoder b =
     (let s = unat (bl_s b);
          d = fold (\<lambda>kv d. add_source (fst kv) (pad_to s (snd kv)) d) (bl_sources b)
                (RlcDecoder (bl_k b) s)
      in fold (\<lambda>kv d. if s \<le> length (snd kv) then add_repair (fst kv) (snd kv) d else d)
           (bl_repairs b) d)"

definition resize :: "nat \<Rightarrow> bytes \<Rightarrow> bytes" where
  "resize n bs = take n bs @ replicate (n - length bs) 0"

text \<open>\<open>kv.second.size() > max_frame_bytes - frame_len\<close>, checked chunk by chunk.\<close>

fun chunks_fit :: "nat \<Rightarrow> nat \<Rightarrow> bytes list \<Rightarrow> bool" where
  "chunks_fit cap acc [] = True"
| "chunks_fit cap acc (c # cs) = (if cap - acc < length c then False else chunks_fit cap (acc + length c) cs)"

definition emit_complete ::
    "u32 \<Rightarrow> Block \<Rightarrow> bytes \<Rightarrow> egress \<Rightarrow> (FrameReassemblerStats \<Rightarrow> FrameReassemblerStats)
     \<Rightarrow> FrameReassembler \<Rightarrow> bool \<times> FrameReassembler \<times> emission list" where
  "emit_complete i b frame emit delivered st =
     (let accepted = emit frame;
          st1 = observe_shadow i b st;
          st2 = (if accepted then upd_stats delivered (note_emitted i st1)
                 else upd_stats (\<lambda>x. x\<lparr>rs_frames_egress_rejected := rs_frames_egress_rejected x + 1\<rparr>) st1)
      in (True, ra_finalize i st2, [(i, frame, accepted)]))"

definition try_complete ::
    "u32 \<Rightarrow> Block \<Rightarrow> egress \<Rightarrow> FrameReassembler \<Rightarrow> bool \<times> FrameReassembler \<times> emission list" where
  "try_complete i b emit st =
     (if bl_k b = 0 then (False, st, [])
      else let k = unat (bl_k b); cap = unat (rc_max_frame_bytes (ra_cfg st)) in
      if length (bl_sources b) = k
      then let chunks = map snd (bl_sources b) in
           if \<not> chunks_fit cap 0 chunks \<or> length (concat chunks) < kVencFrameMetaSize
           then (True, ra_finalize i (bump_malformed st), [])
           else emit_complete i b (concat chunks) emit
                  (\<lambda>x. x\<lparr>rs_frames_delivered := rs_frames_delivered x + 1,
                         rs_frames_fast := rs_frames_fast x + 1\<rparr>) st
      else if unat (bl_k b) \<le> unat (of_nat (length (bl_sources b) + length (bl_repairs b)) :: u16)
              \<and> 0 < bl_s b \<and> 0 < bl_frame_len b \<and> unat (bl_frame_len b) \<le> cap
      then let d = fill_decoder b in
           if can_decode d
           then case rlc_decode d of
                  Some out \<Rightarrow> emit_complete i b (resize (unat (bl_frame_len b)) out) emit
                    (\<lambda>x. x\<lparr>rs_fec_recovered_source_symbols := rs_fec_recovered_source_symbols x
                             + of_nat (k - length (bl_sources b)),
                           rs_frames_fec_only := rs_frames_fec_only x + 1,
                           rs_frames_delivered := rs_frames_delivered x + 1,
                           rs_frames_fec := rs_frames_fec x + 1\<rparr>) st
                | None \<Rightarrow>
                    (False, upd_stats (\<lambda>x. x\<lparr>rs_decode_failures := rs_decode_failures x + 1\<rparr>) st, [])
           else (False, st, [])
      else (False, st, []))"

section \<open>Giving up a block\<close>

datatype SalvageOutcome = so_kUnavailable | so_kAccepted | so_kRejected

definition try_salvage ::
    "u32 \<Rightarrow> Block \<Rightarrow> egress \<Rightarrow> FrameReassembler \<Rightarrow> SalvageOutcome \<times> FrameReassembler \<times> emission list" where
  "try_salvage i b emit st =
     (case ra_salvage st of
        None \<Rightarrow> (so_kUnavailable, st, [])
      | Some hook \<Rightarrow>
          if bl_k b = 0 \<or> bl_sources b = [] then (so_kUnavailable, st, [])
          else if ra_have_emitted st \<and> bid_diff i (ra_last_emitted st) \<le> 0
          then (so_kUnavailable, st, [])
          else let (frames, repaired) = hook \<lparr>sv_block_id = i, sv_k = bl_k b, sv_s = bl_s b,
                       sv_frame_len = bl_frame_len b, sv_sources = bl_sources b\<rparr>;
                   es = map (\<lambda>fr. (i, fr, emit fr)) frames;
                   attempted = (frames \<noteq> []);
                   accepted = (attempted \<and> emit (last frames))
               in if attempted \<and> \<not> accepted
                  then (so_kRejected, upd_stats (\<lambda>x. x\<lparr>rs_frames_egress_rejected :=
                          rs_frames_egress_rejected x + 1\<rparr>) st, es)
                  else if \<not> repaired \<or> \<not> attempted then (so_kUnavailable, st, es)
                  else (so_kAccepted, upd_stats (\<lambda>x. x\<lparr>rs_frames_delivered := rs_frames_delivered x + 1,
                          rs_frames_salvaged := rs_frames_salvaged x + 1\<rparr>) (note_emitted i st), es))"

text \<open>The body that \<open>supersede\<close> and \<open>tick\<close> share; \<open>reason\<close> counts the cause.\<close>

definition retire_block ::
    "(FrameReassemblerStats \<Rightarrow> FrameReassemblerStats) \<Rightarrow> egress \<Rightarrow> u32 \<Rightarrow> Block
     \<Rightarrow> FrameReassembler \<times> emission list \<Rightarrow> FrameReassembler \<times> emission list" where
  "retire_block reason emit i b se =
     (let (st, es) = se;
          (st1, es1) =
            (if bl_k b = 0 \<or> length (bl_sources b) + length (bl_repairs b) < unat (bl_k b)
             then let (outcome, st', es') = try_salvage i b emit st
                  in (if outcome = so_kUnavailable
                      then upd_stats (\<lambda>x. reason (x\<lparr>rs_frames_unrecoverable := rs_frames_unrecoverable x + 1\<rparr>)) st'
                      else st', es')
             else (upd_stats reason st, []));
          st2 = ra_finalize i (observe_shadow i b st1)
      in (st2\<lparr>ra_blocks := om_erase i (ra_blocks st2)\<rparr>, es @ es1))"

definition supersede :: "u32 \<Rightarrow> egress \<Rightarrow> FrameReassembler \<Rightarrow> FrameReassembler \<times> emission list" where
  "supersede new_highest emit st =
     fold (\<lambda>ib se. if sint (rc_max_blocks_ahead (ra_cfg st)) < bid_diff new_highest (fst ib)
                   then retire_block (\<lambda>x. x\<lparr>rs_frames_superseded := rs_frames_superseded x + 1\<rparr>)
                          emit (fst ib) (snd ib) se
                   else se)
       (ra_blocks st) (st, [])"

definition ra_tick :: "u64 \<Rightarrow> egress \<Rightarrow> FrameReassembler \<Rightarrow> FrameReassembler \<times> emission list" where
  "ra_tick now_ms emit st =
     fold (\<lambda>ib se. if bl_first_ms (snd ib) + ucast (rc_deadline_ms (ra_cfg st)) \<le> now_ms
                   then retire_block (\<lambda>x. x\<lparr>rs_frames_deadline := rs_frames_deadline x + 1\<rparr>)
                          emit (fst ib) (snd ib) se
                   else se)
       (ra_blocks st) (st, [])"

section \<open>One symbol\<close>

text \<open>The block after a symbol, and whether the symbol was well-formed. A malformed source symbol
  can leave \<open>k\<close> and \<open>s\<close> written.\<close>

definition mark_eob :: "bool \<Rightarrow> u64 \<Rightarrow> Block \<Rightarrow> Block" where
  "mark_eob eob now b = (if eob \<and> \<not> bl_have_eob b then b\<lparr>bl_have_eob := True, bl_eob_ms := now\<rparr> else b)"

definition take_repair :: "nat \<Rightarrow> bytes \<Rightarrow> bool \<Rightarrow> u64 \<Rightarrow> bool \<Rightarrow> Block \<Rightarrow> bool \<times> Block" where
  "take_repair cap payload eob now air b =
     (if length payload \<le> kFecRepairSubheaderSize then (False, b)
      else let p = ptr_of payload;
               k = be16_read (padd p 1);
               flen = be32_read (padd p 7);
               ridx = p 0;
               coded = length payload - kFecRepairSubheaderSize
      in if k = 0 \<or> kFecMaxSymbols < unat k \<or> unat flen < kVencFrameMetaSize \<or> cap < unat flen
            \<or> coded = 0 \<or> kMaxDataPayload < coded \<or> kFecMaxSymbols \<le> unat k + unat ridx
         then (False, b)
      else if (bl_k b \<noteq> 0 \<and> bl_k b \<noteq> k) \<or> (bl_frame_len b \<noteq> 0 \<and> bl_frame_len b \<noteq> flen)
              \<or> (bl_s b \<noteq> 0 \<and> unat (bl_s b) \<noteq> coded)
         then (False, b)
      else let b1 = b\<lparr>bl_k := k, bl_frame_len := flen, bl_s := of_nat coded\<rparr>;
               b2 = (if air then b1\<lparr>bl_air_repairs := om_insert ridx (bl_air_repairs b1)\<rparr> else b1);
               b3 = mark_eob eob now b2
           in (True, if om_has ridx (bl_repairs b3) then b3
                     else b3\<lparr>bl_repairs := om_emplace ridx (drop kFecRepairSubheaderSize payload) (bl_repairs b3),
                             bl_last_new_ms := now\<rparr>))"

definition take_source :: "nat \<Rightarrow> bytes \<Rightarrow> bool \<Rightarrow> u64 \<Rightarrow> bool \<Rightarrow> Block \<Rightarrow> bool \<times> Block" where
  "take_source cap payload eob now air b =
     (if length payload < kFecSourceSubheaderSize then (False, b)
      else let p = ptr_of payload;
               k = be16_read (padd p 0);
               idx = be16_read (padd p 2);
               min_frame_len = (if 1 < unat k then (unat k - 1) * kMinFrameSymbolSize + 1 else 1)
      in if k = 0 \<or> k \<le> idx \<or> cap < min_frame_len \<or> (bl_k b \<noteq> 0 \<and> bl_k b \<noteq> k)
         then (False, b)
      else let b1 = b\<lparr>bl_k := k\<rparr>;
               clen = length payload - kFecSourceSubheaderSize;
               is_last = (unat idx = unat k - 1)
      in if clen = 0 \<or> kMaxDataPayload < clen
            \<or> (bl_s b1 \<noteq> 0 \<and> ((\<not> is_last \<and> clen \<noteq> unat (bl_s b1)) \<or> (is_last \<and> unat (bl_s b1) < clen)))
         then (False, b1)
      else let b2 = (if \<not> is_last \<and> bl_s b1 = 0 then b1\<lparr>bl_s := of_nat clen\<rparr> else b1)
      in if 1 < unat k \<and> 0 < bl_s b2 \<and> cap < (unat k - 1) * unat (bl_s b2) + 1
         then (False, b2)
      else let b3 = mark_eob eob now b2;
               b4 = (if air then b3\<lparr>bl_air_sources := om_insert idx (bl_air_sources b3)\<rparr> else b3)
           in (True, if om_has idx (bl_sources b4) then b4
                     else b4\<lparr>bl_sources := om_emplace idx (drop kFecSourceSubheaderSize payload) (bl_sources b4),
                             bl_last_new_ms := now\<rparr>))"

definition arm_shadow :: "FrameReassembler \<Rightarrow> Block \<Rightarrow> Block" where
  "arm_shadow st b =
     (if bl_shadow_armed b then b
      else b\<lparr>bl_shadow_prediction := sat16 (unat (es_predict (ra_loss_estimator st))),
             bl_repair_prediction :=
               sat16 ((unat (es_predict (ra_repair_estimator st)) * unat (bl_k b) + 999) div 1000),
             bl_shadow_armed := True\<rparr>)"

definition ra_push ::
    "FrameReassembler \<Rightarrow> u32 \<Rightarrow> u8 \<Rightarrow> bytes \<Rightarrow> u64 \<Rightarrow> egress \<Rightarrow> bool
     \<Rightarrow> bool \<times> FrameReassembler \<times> emission list" where
  "ra_push st i flags payload now_ms emit air_path =
     (if ra_have_finalized st \<and> bid_diff i (ra_finalized_upto st) \<le> 0 then (False, st, [])
      else let is_repair = has_flag flags kFecRepair;
               eob = has_flag flags kEndOfBlock;
               cap = unat (rc_max_frame_bytes (ra_cfg st));
               b = (case map_of (ra_blocks st) i of
                      Some b \<Rightarrow> b | None \<Rightarrow> empty_block\<lparr>bl_first_ms := now_ms\<rparr>);
               (ok, b1) = (if is_repair then take_repair cap payload eob now_ms air_path b
                           else take_source cap payload eob now_ms air_path b);
               st1 = st\<lparr>ra_blocks := om_update i b1 (ra_blocks st)\<rparr>
      in if \<not> ok then (False, bump_malformed st1, [])
      else let (st2, es2) =
                 (if \<not> ra_have_highest st1 \<or> 0 < bid_diff i (ra_highest_block st1)
                  then supersede i emit (st1\<lparr>ra_highest_block := i, ra_have_highest := True\<rparr>)
                  else (st1, []))
      in case map_of (ra_blocks st2) i of
           None \<Rightarrow> (es2 \<noteq> [], st2, es2)
         | Some b2 \<Rightarrow>
             let b3 = arm_shadow st2 b2;
                 st3 = st2\<lparr>ra_blocks := om_update i b3 (ra_blocks st2)\<rparr>;
                 (done, st4, es4) = try_complete i b3 emit st3;
                 st5 = (if done then st4\<lparr>ra_blocks := om_erase i (ra_blocks st4)\<rparr> else st4)
             in (es2 @ es4 \<noteq> [], st5, es2 @ es4))"

section \<open>Queries and resets\<close>

record RepairCandidate =
  rp_block_id :: u32
  rp_k :: u16
  rp_unique :: u16
  rp_have_eob :: bool
  rp_first_ms :: u64
  rp_last_new_ms :: u64
  rp_eob_ms :: u64
  rp_missing_sources :: bytes
  rp_have_repairs :: bytes

definition set_bit_at :: "nat \<Rightarrow> bytes \<Rightarrow> bytes" where
  "set_bit_at i bm = bm[i div 8 := (bm ! (i div 8)) OR push_bit (i mod 8) 1]"

definition candidate_of :: "u32 \<Rightarrow> Block \<Rightarrow> RepairCandidate" where
  "candidate_of i b =
     \<lparr>rp_block_id = i, rp_k = bl_k b,
      rp_unique = of_nat (length (bl_sources b) + length (bl_repairs b)),
      rp_have_eob = bl_have_eob b, rp_first_ms = bl_first_ms b, rp_last_new_ms = bl_last_new_ms b,
      rp_eob_ms = bl_eob_ms b,
      rp_missing_sources = fold (\<lambda>j bm. if om_has (of_nat j) (bl_sources b) then bm else set_bit_at j bm)
        [0..<unat (bl_k b)] (replicate 32 0),
      rp_have_repairs = fold (\<lambda>kv bm. set_bit_at (unat (fst kv)) bm) (bl_repairs b) (replicate 32 0)\<rparr>"

definition is_candidate :: "Block \<Rightarrow> bool" where
  "is_candidate b \<longleftrightarrow> \<not> (bl_k b = 0 \<or> kFecMaxSymbols < unat (bl_k b)
     \<or> unat (bl_k b) \<le> length (bl_sources b) + length (bl_repairs b))"

definition repair_candidates :: "FrameReassembler \<Rightarrow> nat \<Rightarrow> RepairCandidate list" where
  "repair_candidates st cap =
     take cap (map (\<lambda>ib. candidate_of (fst ib) (snd ib))
                 (filter (\<lambda>ib. is_candidate (snd ib)) (ra_blocks st)))"

record JsccRepairFeedbackState =
  jr_repair_demand_permille :: u16
  jr_repair_samples :: u16
  jr_observed_block_id :: u32
  jr_repair_ready :: bool
  jr_have_observation :: bool

definition jscc_feedback_state :: "FrameReassembler \<Rightarrow> JsccRepairFeedbackState" where
  "jscc_feedback_state st =
     \<lparr>jr_repair_demand_permille = sat16 (unat (es_predict (ra_repair_estimator st))),
      jr_repair_samples = sat16 (sample_count (ra_repair_estimator st)),
      jr_observed_block_id = ra_latest_observed_block st,
      jr_repair_ready = (20 \<le> sample_count (ra_repair_estimator st)),
      jr_have_observation = ra_have_observed_block st\<rparr>"

definition ra_reset_stats :: "FrameReassembler \<Rightarrow> FrameReassembler" where
  "ra_reset_stats st =
     st\<lparr>ra_stats := zero_reasm_stats, ra_loss_estimator := es_reset (ra_loss_estimator st),
        ra_repair_estimator := es_reset (ra_repair_estimator st), ra_latest_observed_block := 0,
        ra_have_observed_block := False,
        ra_blocks := map (\<lambda>(i, b). (i, b\<lparr>bl_shadow_prediction := 0,
          bl_repair_prediction := of_nat ((100 * unat (bl_k b) + 999) div 1000),
          bl_shadow_armed := True\<rparr>)) (ra_blocks st)\<rparr>"

definition ra_reset_stream :: "FrameReassembler \<Rightarrow> FrameReassembler" where
  "ra_reset_stream st =
     st\<lparr>ra_stats := zero_reasm_stats, ra_blocks := [], ra_highest_block := 0, ra_have_highest := False,
        ra_last_emitted := 0, ra_have_emitted := False, ra_finalized_upto := 0,
        ra_have_finalized := False, ra_loss_estimator := es_reset (ra_loss_estimator st),
        ra_repair_estimator := es_reset (ra_repair_estimator st), ra_latest_observed_block := 0,
        ra_have_observed_block := False\<rparr>"

end
