(* ===== verification/Frame_Transfer.thy ===== *)
theory Frame_Transfer
  imports Frame_Framer_Props Frame_Reassembler
begin

text \<open>
  From the framer to the reassembler: pushing symbols of a frame, in any order and with any
  repetitions, makes the reassembler emit exactly that frame as soon as k distinct symbols have
  arrived, and nothing before or after.
\<close>

section \<open>The transfer\<close>

text \<open>A frame in flight: the framer's geometry, and a receiver whose size limit admits it.\<close>

definition in_flight :: "FrameFramer \<Rightarrow> bytes \<Rightarrow> u16 \<Rightarrow> u16 \<Rightarrow> nat \<Rightarrow> bool" where
  "in_flight f blob k r cap \<longleftrightarrow> sendable f blob
     \<and> unat k = frame_k (unat (symbol_size f)) (length blob) \<and> capped k r
     \<and> \<not> has_flag (fr_extra_flags f) kFecRepair
     \<and> kMinFrameSymbolSize \<le> unat (symbol_size f) \<and> length blob \<le> cap \<and> cap < 2 ^ 32"

definition coded_of :: "FrameFramer \<Rightarrow> bytes \<Rightarrow> u16 \<Rightarrow> u8 \<Rightarrow> bytes" where
  "coded_of f blob k j =
     rlc_encode_repair k j (padded_sources blob (unat (symbol_size f)) (unat k)) (unat (symbol_size f))"

text \<open>A block that holds only symbols of the frame, and which ones (sources 0 .. k-1, repairs
  k .. k+r-1).\<close>

definition block_ok :: "FrameFramer \<Rightarrow> bytes \<Rightarrow> u16 \<Rightarrow> u16 \<Rightarrow> Block \<Rightarrow> bool" where
  "block_ok f blob k r b \<longleftrightarrow>
     om_ok (bl_sources b) \<and> om_ok (bl_repairs b)
     \<and> (\<forall>(x, c)\<in>set (bl_sources b). x < k \<and> c = chunk_of blob (unat (symbol_size f)) (unat x))
     \<and> (\<forall>(y, c)\<in>set (bl_repairs b). unat y < unat r \<and> c = coded_of f blob k y)
     \<and> (bl_k b = 0 \<or> bl_k b = k) \<and> (bl_s b = 0 \<or> bl_s b = symbol_size f)
     \<and> (bl_frame_len b = 0 \<or> bl_frame_len b = of_nat (length blob))
     \<and> (bl_sources b \<noteq> [] \<longrightarrow> bl_k b = k)
     \<and> (bl_repairs b \<noteq> [] \<longrightarrow> bl_k b = k \<and> bl_s b = symbol_size f
          \<and> bl_frame_len b = of_nat (length blob))"

definition held :: "u16 \<Rightarrow> Block \<Rightarrow> nat set" where
  "held k b = (\<lambda>x. unat (fst x)) ` set (bl_sources b)
              \<union> (\<lambda>y. unat k + unat (fst y)) ` set (bl_repairs b)"

lemma block_ok_empty: "block_ok f blob k r (empty_block\<lparr>bl_first_ms := now\<rparr>)"
  and held_empty: "held k (empty_block\<lparr>bl_first_ms := now\<rparr>) = {}"
  by (simp_all add: block_ok_def empty_block_def held_def)

lemma card_held:
  assumes "block_ok f blob k r b"
  shows "card (held k b) = length (bl_sources b) + length (bl_repairs b)"
proof -
  have ok: "om_ok (bl_sources b)" "om_ok (bl_repairs b)"
    and sm: "\<And>x c. (x, c) \<in> set (bl_sources b) \<Longrightarrow> unat x < unat k"
    using assms by (auto simp: block_ok_def word_less_nat_alt)
  have inj: "inj_on unat (fst ` set (bl_sources b))" "inj_on (\<lambda>y. unat k + unat y) (fst ` set (bl_repairs b))"
    by (auto simp: inj_on_def unat_inject_iff)
  have c: "card ((\<lambda>x. unat (fst x)) ` set (bl_sources b)) = length (bl_sources b)"
    "card ((\<lambda>y. unat k + unat (fst y)) ` set (bl_repairs b)) = length (bl_repairs b)"
    using card_image [OF inj(1)] card_image [OF inj(2)] om_length_card [OF ok(1)] om_length_card [OF ok(2)]
    by (simp_all add: image_image)
  have "(\<lambda>x. unat (fst x)) ` set (bl_sources b) \<inter> (\<lambda>y. unat k + unat (fst y)) ` set (bl_repairs b) = {}"
    using sm by fastforce
  then show ?thesis
    unfolding held_def by (subst card_Un_disjoint) (simp_all add: c)
qed

section \<open>Taking a symbol\<close>

lemma mark_eob_fields [simp]:
  "bl_k (mark_eob e t b) = bl_k b" "bl_s (mark_eob e t b) = bl_s b"
  "bl_frame_len (mark_eob e t b) = bl_frame_len b" "bl_sources (mark_eob e t b) = bl_sources b"
  "bl_repairs (mark_eob e t b) = bl_repairs b" "bl_air_sources (mark_eob e t b) = bl_air_sources b"
  "bl_air_repairs (mark_eob e t b) = bl_air_repairs b" "bl_first_ms (mark_eob e t b) = bl_first_ms b"
  by (simp_all add: mark_eob_def)

lemma read_source_payload:
  "be16_read (padd (ptr_of (source_payload blob s k i)) 0) = k"
  "be16_read (padd (ptr_of (source_payload blob s k i)) 2) = of_nat i"
  "drop 4 (source_payload blob s k i) = chunk_of blob s i"
  "length (source_payload blob s k i) = 4 + length (chunk_of blob s i)"
  by (simp_all add: source_payload_def bytes_simps)

lemma read_repair_payload:
  "ptr_of (repair_payload blob s k q j) 0 = of_nat j"
  "be16_read (padd (ptr_of (repair_payload blob s k q j)) 1) = k"
  "be32_read (padd (ptr_of (repair_payload blob s k q j)) 7) = of_nat (length blob)"
  "drop 11 (repair_payload blob s k q j) = rlc_encode_repair k (of_nat j) (padded_sources blob s (unat k)) s"
  by (simp_all add: repair_payload_def bytes_simps take_Cons' drop_Cons')

lemma source_geometry:
  assumes "in_flight f blob k r cap" and "i < unat k"
  defines "s \<equiv> unat (symbol_size f)"
  shows "0 < length (chunk_of blob s i)" and "length (chunk_of blob s i) \<le> s"
    and "i \<noteq> unat k - 1 \<Longrightarrow> length (chunk_of blob s i) = s"
    and "1 < unat k \<Longrightarrow> (unat k - 1) * s + 1 \<le> cap"
    and "1 < unat k \<Longrightarrow> (unat k - 1) * kMinFrameSymbolSize + 1 \<le> cap"
    and "unat (of_nat i :: u16) = i" and "(of_nat i :: u16) < k"
proof -
  have f: "sendable f blob" "unat k = frame_k s (length blob)" "kMinFrameSymbolSize \<le> s" "length blob \<le> cap"
    using assms by (simp_all add: in_flight_def)
  have s0: "0 < s" and l0: "0 < length blob"
    using symbol_size_pos sendable_nonempty [OF f(1)] by (simp_all add: s_def)
  show "0 < length (chunk_of blob s i)" "length (chunk_of blob s i) \<le> s"
    using length_chunk_pos [OF s0 l0] assms(2) f(2) by (simp_all add: length_chunk)
  show "length (chunk_of blob s i) = s" if "i \<noteq> unat k - 1"
    using length_chunk_full [OF s0 l0, of i] assms(2) f(2) that by simp
  have "(unat k - 1) * s < length blob"
    using frame_k_bounds(1) [OF s0 l0] f(2) by simp
  then show c: "(unat k - 1) * s + 1 \<le> cap"
    using f(4) by linarith
  have "(unat k - 1) * kMinFrameSymbolSize \<le> (unat k - 1) * s"
    using f(3) by (rule mult_le_mono2)
  then show "(unat k - 1) * kMinFrameSymbolSize + 1 \<le> cap"
    using c by linarith
  have "i < 65536"
    using assms(2) unat_u16_less [of k] by linarith
  then show u: "unat (of_nat i :: u16) = i"
    by (intro unat_of_nat_small) simp
  then show "(of_nat i :: u16) < k"
    using assms(2) by (simp add: word_less_nat_alt)
qed

lemma block_ok_add_source:
  assumes "block_ok f blob k r b" and "x < k" and "k \<noteq> 0"
    and "b' = b\<lparr>bl_k := k, bl_s := s'\<rparr>" and "s' = bl_s b \<or> s' = symbol_size f"
    and "bl_sources b'' = om_emplace x (chunk_of blob (unat (symbol_size f)) (unat x)) (bl_sources b)"
    and "bl_k b'' = k" "bl_s b'' = s'" "bl_frame_len b'' = bl_frame_len b" "bl_repairs b'' = bl_repairs b"
  shows "block_ok f blob k r b'' \<and> held k b'' = insert (unat x) (held k b)"
proof -
  let ?c = "chunk_of blob (unat (symbol_size f)) (unat x)"
  have ok: "om_ok (bl_sources b)"
    using assms(1) by (simp add: block_ok_def)
  have sub: "set (bl_sources b'') \<subseteq> insert (x, ?c) (set (bl_sources b))"
    unfolding assms(6) by (rule set_om_emplace)
  have keys: "fst ` set (bl_sources b'') = insert x (fst ` set (bl_sources b))"
    unfolding assms(6) by (rule fst_set_emplace)
  have old: "\<forall>(x, c)\<in>set (bl_sources b). x < k \<and> c = chunk_of blob (unat (symbol_size f)) (unat x)"
    using assms(1) by (simp add: block_ok_def)
  have new: "\<forall>(x, c)\<in>set (bl_sources b''). x < k \<and> c = chunk_of blob (unat (symbol_size f)) (unat x)"
    using old sub assms(2) by fast
  have rest: "om_ok (bl_repairs b)" "\<forall>(y, c)\<in>set (bl_repairs b). unat y < unat r \<and> c = coded_of f blob k y"
    "bl_s b = 0 \<or> bl_s b = symbol_size f" "bl_frame_len b = 0 \<or> bl_frame_len b = of_nat (length blob)"
    "bl_repairs b \<noteq> [] \<longrightarrow> bl_s b = symbol_size f \<and> bl_frame_len b = of_nat (length blob)"
    using assms(1) by (simp_all add: block_ok_def)
  have "om_ok (bl_sources b'')"
    unfolding assms(6) using ok by (rule om_ok_emplace)
  then have "block_ok f blob k r b''"
    unfolding block_ok_def assms(7-10) using new rest assms(5) by blast
  moreover have "(\<lambda>x. unat (fst x)) ` set (bl_sources b'') = insert (unat x) ((\<lambda>x. unat (fst x)) ` set (bl_sources b))"
    using arg_cong [OF keys, of "image unat"] by (simp add: image_image)
  ultimately show ?thesis
    using assms by (simp add: held_def)
qed

lemma take_source_ok:
  assumes fl: "in_flight f blob k r cap" and ok: "block_ok f blob k r b" and i: "i < unat k"
  defines "s \<equiv> unat (symbol_size f)"
  shows "\<exists>b'. take_source cap (source_payload blob s k i) eob now air b = (True, b')
    \<and> block_ok f blob k r b' \<and> held k b' = insert i (held k b) \<and> bl_k b' = k"
proof -
  let ?c = "chunk_of blob s i" and ?x = "of_nat i :: u16"
  note g = source_geometry [OF fl i, folded s_def]
  have k0: "k \<noteq> 0" and fits: "s + 11 \<le> kMaxDataPayload"
    using i fl by (auto simp: in_flight_def sendable_def s_def)
  have s16: "bl_s b = 0 \<or> bl_s b = symbol_size f" and bk: "bl_k b = 0 \<or> bl_k b = k"
    using ok by (simp_all add: block_ok_def)
  have cap1: "1 \<le> cap"
    using fl by (auto simp: in_flight_def sendable_def)
  define s' where "s' = (if i \<noteq> unat k - 1 \<and> bl_s b = 0 then symbol_size f else bl_s b)"
  define b2 where "b2 = b\<lparr>bl_k := k, bl_s := s'\<rparr>"
  define b4 where "b4 = (if air then (mark_eob eob now b2)\<lparr>bl_air_sources :=
      om_insert ?x (bl_air_sources (mark_eob eob now b2))\<rparr> else mark_eob eob now b2)"
  define b5 where "b5 = (if om_has ?x (bl_sources b4) then b4
      else b4\<lparr>bl_sources := om_emplace ?x ?c (bl_sources b4), bl_last_new_ms := now\<rparr>)"
  have e: "4 + length ?c - 4 = length ?c" "unat ?x = i"
    using g(6) by simp_all
  have c0: "(4 + length ?c < 4) = False"
    by simp
  have c1: "(k = 0 \<or> k \<le> ?x \<or> cap < (if 1 < unat k then (unat k - 1) * kMinFrameSymbolSize + 1 else 1)
      \<or> bl_k b \<noteq> 0 \<and> bl_k b \<noteq> k) = False"
    using k0 bk g(5,7) cap1 by (auto simp: not_less not_le)
  have c2: "(length ?c = 0 \<or> kMaxDataPayload < length ?c
      \<or> bl_s b \<noteq> 0 \<and> (i \<noteq> unat k - 1 \<and> length ?c \<noteq> unat (bl_s b)
          \<or> i = unat k - 1 \<and> unat (bl_s b) < length ?c)) = False"
    using g(1-3) fits s16 symbol_size_pos [of f] by (cases "i = unat k - 1") (auto simp: s_def)
  have b2: "(if i \<noteq> unat k - 1 \<and> bl_s b = 0 then b\<lparr>bl_k := k, bl_s := of_nat (length ?c)\<rparr>
      else b\<lparr>bl_k := k\<rparr>) = b2"
    using g(3) by (simp add: b2_def s'_def s_def)
  have c3: "(1 < unat k \<and> 0 < bl_s b2 \<and> cap < (unat k - 1) * unat (bl_s b2) + 1) = False"
    using g(4) s16 by (cases "1 < unat k") (auto simp: b2_def s'_def s_def not_less)
  have sel: "bl_s (b\<lparr>bl_k := k\<rparr>) = bl_s b"
    by simp
  have t: "take_source cap (source_payload blob s k i) eob now air b = (True, b5)"
    unfolding take_source_def read_source_payload Let_def e c0 c1 if_False sel c2 b2 c3
      b4_def [symmetric] b5_def [symmetric] by (rule refl)
  have src: "bl_sources b5 = om_emplace ?x ?c (bl_sources b)"
    using ok om_emplace_same [of "bl_sources b" ?x ?c]
    by (auto simp: b5_def b4_def b2_def block_ok_def)
  have "block_ok f blob k r b5 \<and> held k b5 = insert (unat ?x) (held k b)"
    by (rule block_ok_add_source [OF ok g(7) k0 b2_def])
      (use src g(6) in \<open>auto simp: s'_def b5_def b4_def b2_def s_def\<close>)
  then show ?thesis
    using t g(6) by (auto simp: b5_def b4_def b2_def)
qed

lemma block_ok_add_repair:
  assumes "block_ok f blob k r b" and "unat y < unat r"
    and "bl_repairs b'' = om_emplace y (coded_of f blob k y) (bl_repairs b)"
    and "bl_k b'' = k" "bl_s b'' = symbol_size f" "bl_frame_len b'' = of_nat (length blob)"
    "bl_sources b'' = bl_sources b"
  shows "block_ok f blob k r b'' \<and> held k b'' = insert (unat k + unat y) (held k b)"
proof -
  have ok: "om_ok (bl_repairs b)"
    and old: "\<forall>(y, c)\<in>set (bl_repairs b). unat y < unat r \<and> c = coded_of f blob k y"
    and rest: "om_ok (bl_sources b)"
      "\<forall>(x, c)\<in>set (bl_sources b). x < k \<and> c = chunk_of blob (unat (symbol_size f)) (unat x)"
    using assms(1) by (simp_all add: block_ok_def)
  have sub: "set (bl_repairs b'') \<subseteq> insert (y, coded_of f blob k y) (set (bl_repairs b))"
    unfolding assms(3) by (rule set_om_emplace)
  have keys: "fst ` set (bl_repairs b'') = insert y (fst ` set (bl_repairs b))"
    unfolding assms(3) by (rule fst_set_emplace)
  have new: "\<forall>(y, c)\<in>set (bl_repairs b''). unat y < unat r \<and> c = coded_of f blob k y"
    using old sub assms(2) by fast
  have "om_ok (bl_repairs b'')"
    unfolding assms(3) using ok by (rule om_ok_emplace)
  then have "block_ok f blob k r b''"
    unfolding block_ok_def assms(4-7) using new rest by blast
  moreover have "(\<lambda>y. unat k + unat (fst y)) ` set (bl_repairs b'')
      = insert (unat k + unat y) ((\<lambda>y. unat k + unat (fst y)) ` set (bl_repairs b))"
    using arg_cong [OF keys, of "image (\<lambda>y. unat k + unat y)"] by (simp add: image_image)
  ultimately show ?thesis
    using assms(7) by (simp add: held_def)
qed

lemma take_repair_ok:
  assumes fl: "in_flight f blob k r cap" and ok: "block_ok f blob k r b" and j: "j < unat r"
  defines "s \<equiv> unat (symbol_size f)"
  shows "\<exists>b'. take_repair cap (repair_payload blob s k q j) eob now air b = (True, b')
    \<and> block_ok f blob k r b' \<and> held k b' = insert (unat k + j) (held k b) \<and> bl_k b' = k"
proof -
  let ?y = "of_nat j :: u8"
  have k0: "k \<noteq> 0" "0 < unat k"
    using fl by (auto simp: in_flight_def frame_k_def)
  have cap256: "unat k + unat r \<le> 256"
    using fl j by (auto simp: in_flight_def capped_def)
  then have y: "unat ?y = j"
    using j k0 by (intro unat_of_nat_small) simp
  have cover: "length blob \<le> unat k * s"
    using fl sendable_cover by (auto simp: in_flight_def s_def)
  have clen: "length (repair_payload blob s k q j) = 11 + s"
    using length_encode_repair [OF padded_sources_block [OF cover]] by (simp add: repair_payload_def)
  have flen: "unat (of_nat (length blob) :: u32) = length blob" "8 \<le> length blob" "length blob \<le> cap"
    using fl by (auto simp: in_flight_def sendable_def intro!: unat_of_nat_small)
  have s: "0 < s" "s \<le> kMaxDataPayload" "of_nat s = symbol_size f"
    using symbol_size_pos fl by (simp_all add: s_def in_flight_def sendable_def)
  have bb: "bl_k b = 0 \<or> bl_k b = k" "bl_s b = 0 \<or> bl_s b = symbol_size f"
    "bl_frame_len b = 0 \<or> bl_frame_len b = of_nat (length blob)"
    using ok by (simp_all add: block_ok_def)
  define b1 where "b1 = b\<lparr>bl_k := k, bl_frame_len := of_nat (length blob), bl_s := symbol_size f\<rparr>"
  define b3 where "b3 = mark_eob eob now
    (if air then b1\<lparr>bl_air_repairs := om_insert ?y (bl_air_repairs b1)\<rparr> else b1)"
  define b4 where "b4 = (if om_has ?y (bl_repairs b3) then b3
    else b3\<lparr>bl_repairs := om_emplace ?y (coded_of f blob k ?y) (bl_repairs b3), bl_last_new_ms := now\<rparr>)"
  have bad: "\<not> (k = 0 \<or> kFecMaxSymbols < unat k \<or> unat (of_nat (length blob) :: u32) < kVencFrameMetaSize
      \<or> cap < unat (of_nat (length blob) :: u32) \<or> s = 0 \<or> kMaxDataPayload < s
      \<or> kFecMaxSymbols \<le> unat k + unat ?y)"
    using k0 cap256 j flen s y by auto
  have clash: "\<not> (bl_k b \<noteq> 0 \<and> bl_k b \<noteq> k \<or> bl_frame_len b \<noteq> 0 \<and> bl_frame_len b \<noteq> of_nat (length blob)
      \<or> bl_s b \<noteq> 0 \<and> unat (bl_s b) \<noteq> s)"
    using bb by (auto simp: s_def)
  have t: "take_repair cap (repair_payload blob s k q j) eob now air b = (True, b4)"
    unfolding take_repair_def read_repair_payload Let_def clen
    using bad clash s by (simp add: b4_def b3_def b1_def coded_of_def s_def)
  have rep: "bl_repairs b4 = om_emplace ?y (coded_of f blob k ?y) (bl_repairs b)"
    using ok om_emplace_same [of "bl_repairs b" ?y "coded_of f blob k ?y"]
    by (auto simp: b4_def b3_def b1_def block_ok_def)
  have "block_ok f blob k r b4 \<and> held k b4 = insert (unat k + unat ?y) (held k b)"
    by (rule block_ok_add_repair [OF ok]) (use rep y j in \<open>auto simp: b4_def b3_def b1_def\<close>)
  then show ?thesis
    using t y by (auto simp: b4_def b3_def b1_def)
qed

section \<open>Completing\<close>

definition held_symbols :: "Block \<Rightarrow> symbol list" where
  "held_symbols b = map (\<lambda>x. Source (fst x)) (bl_sources b) @ map (\<lambda>y. Repair (fst y)) (bl_repairs b)"

lemma fill_decoder_symbols:
  assumes fl: "in_flight f blob k r cap" and ok: "block_ok f blob k r b"
    and kb: "bl_k b = k" and sb: "bl_s b = symbol_size f"
  defines "s \<equiv> unat (symbol_size f)"
  shows "fill_decoder b
    = fold (add_symbol k s (padded_sources blob s (unat k))) (held_symbols b) (RlcDecoder k s)"
proof -
  let ?src = "padded_sources blob s (unat k)"
  have cover: "length blob \<le> unat k * s"
    using fl sendable_cover by (auto simp: in_flight_def s_def)
  have src: "add_source (fst x) (pad_to s (snd x)) = add_symbol k s ?src (Source (fst x))"
    if "x \<in> set (bl_sources b)" for x
  proof -
    have x: "unat (fst x) < unat k" "snd x = chunk_of blob s (unat (fst x))"
      using ok that by (auto simp: block_ok_def word_less_nat_alt s_def)
    have "pad_to s (snd x) = ?src ! unat (fst x)"
      unfolding padded_source_nth [OF cover x(1)] x(2) by (simp add: pad_to_def length_chunk)
    then show ?thesis
      by (simp add: fun_eq_iff)
  qed
  have rep: "(\<lambda>d. if s \<le> length (snd y) then add_repair (fst y) (snd y) d else d)
      = add_symbol k s ?src (Repair (fst y))" if "y \<in> set (bl_repairs b)" for y
  proof -
    have "snd y = rlc_encode_repair k (fst y) ?src s"
      using ok that by (auto simp: block_ok_def coded_of_def s_def)
    then show ?thesis
      using length_encode_repair [OF padded_sources_block [OF cover]] by (simp add: fun_eq_iff)
  qed
  have "fold (\<lambda>kv d. add_source (fst kv) (pad_to s (snd kv)) d) (bl_sources b) d
      = fold (\<lambda>x. add_symbol k s ?src (Source (fst x))) (bl_sources b) d" for d
    using src by (intro fold_cong) auto
  moreover have "fold (\<lambda>kv d. if s \<le> length (snd kv) then add_repair (fst kv) (snd kv) d else d) (bl_repairs b) d
      = fold (\<lambda>y. add_symbol k s ?src (Repair (fst y))) (bl_repairs b) d" for d
    using rep by (intro fold_cong) auto
  ultimately show ?thesis
    by (simp add: fill_decoder_def Let_def kb sb s_def [symmetric] held_symbols_def fold_map o_def)
qed

lemma held_symbols_valid:
  assumes "in_flight f blob k r cap" and "block_ok f blob k r b"
  shows "\<forall>y\<in>set (held_symbols b). symbol_ok k y"
    and "card (set (held_symbols b)) = card (held k b)"
proof -
  have r: "unat y < unat r \<Longrightarrow> unat k + unat y \<le> 255" for y :: u8
    using assms(1) by (auto simp: in_flight_def capped_def)
  show "\<forall>y\<in>set (held_symbols b). symbol_ok k y"
    using assms(2) r by (auto simp: held_symbols_def block_ok_def)
  have d: "distinct (map fst (bl_sources b))" "distinct (map fst (bl_repairs b))"
    using assms(2) by (auto simp: block_ok_def om_ok_distinct)
  have "distinct (held_symbols b)"
    using d by (auto simp: held_symbols_def distinct_map inj_on_def)
  then show "card (set (held_symbols b)) = card (held k b)"
    using card_held [OF assms(2)] distinct_card by (fastforce simp: held_symbols_def)
qed

lemma decode_held_block:
  assumes fl: "in_flight f blob k r cap" and ok: "block_ok f blob k r b"
    and kb: "bl_k b = k" and sb: "bl_s b = symbol_size f" and n: "unat k \<le> card (held k b)"
  shows "can_decode (fill_decoder b)"
    and "\<exists>out. rlc_decode (fill_decoder b) = Some out \<and> resize (length blob) out = blob"
proof -
  define s where "s = unat (symbol_size f)"
  have cover: "length blob \<le> unat k * s"
    using fl sendable_cover by (auto simp: in_flight_def s_def)
  have "rlc_decode (fill_decoder b) = Some (concat (padded_sources blob s (unat k)))"
    unfolding fill_decoder_symbols [OF fl ok kb sb, folded s_def]
    using held_symbols_valid [OF fl ok] n
    by (intro rlc.mds padded_sources_block [OF cover]) simp_all
  then have out: "rlc_decode (fill_decoder b) = Some (blob @ replicate (unat k * s - length blob) 0)"
    by (simp add: concat_padded [OF cover])
  then show "\<exists>out. rlc_decode (fill_decoder b) = Some out \<and> resize (length blob) out = blob"
    by (simp add: resize_def)
  show "can_decode (fill_decoder b)"
    using out by (simp add: rlc_decode_def can_decode_def split: if_splits)
qed

lemma upt_of_strict_sorted:
  fixes xs :: "nat list"
  assumes "sorted_wrt (<) xs" and "\<forall>x\<in>set xs. x < n" and "length xs = n"
  shows "xs = [0..<n]"
proof (rule strict_sorted_equal)
  have "card (set xs) = n"
    using assms(1,3) by (simp add: distinct_card strict_sorted_iff)
  then show "set xs = set [0..<n]"
    using assms(2) by (intro card_subset_eq) auto
qed (use assms in simp_all)

lemma all_sources:
  assumes fl: "in_flight f blob k r cap" and ok: "block_ok f blob k r b"
    and len: "length (bl_sources b) = unat k"
  shows "concat (map snd (bl_sources b)) = blob"
proof -
  define s where "s = unat (symbol_size f)"
  have keys: "map (\<lambda>x. unat (fst x)) (bl_sources b) = [0..<unat k]"
  proof (rule upt_of_strict_sorted)
    have "sorted_wrt (<) (map fst (bl_sources b))"
      using ok by (simp add: block_ok_def om_ok_def)
    then show "sorted_wrt (<) (map (\<lambda>x. unat (fst x)) (bl_sources b))"
      by (simp add: sorted_wrt_map word_less_nat_alt)
  qed (use ok len in \<open>auto simp: block_ok_def word_less_nat_alt\<close>)
  have "map snd (bl_sources b) = map (chunk_of blob s) (map (\<lambda>x. unat (fst x)) (bl_sources b))"
    using ok by (auto simp: block_ok_def s_def)
  also have "concat \<dots> = blob"
    unfolding keys using fl concat_chunks [of s blob] symbol_size_pos [of f] sendable_nonempty [of f blob]
    by (simp add: in_flight_def s_def)
  finally show ?thesis .
qed


lemma chunks_fit_concat: "acc + length (concat cs) \<le> cap \<Longrightarrow> chunks_fit cap acc cs"
  by (induction cap acc cs rule: chunks_fit.induct) auto

lemma held_small:
  assumes fl: "in_flight f blob k r cap" and ok: "block_ok f blob k r b"
  shows "card (held k b) < 2 ^ 16"
    and "length (bl_sources b) \<noteq> unat k \<Longrightarrow> unat k \<le> card (held k b) \<Longrightarrow> bl_repairs b \<noteq> []"
proof -
  have sub: "held k b \<subseteq> {..<unat k + unat r}"
    using ok by (auto simp: held_def block_ok_def word_less_nat_alt)
  then have "card (held k b) \<le> unat k + unat r"
    using card_mono [OF _ sub] by simp
  moreover have "unat k + unat r < 2 ^ 16"
    using fl unat_u16_less [of k] by (auto simp: in_flight_def capped_def)
  ultimately show "card (held k b) < 2 ^ 16"
    by linarith
  have "length (bl_sources b) \<le> unat k"
  proof -
    have "(\<lambda>x. unat (fst x)) ` set (bl_sources b) \<subseteq> {..<unat k}"
      using ok by (auto simp: block_ok_def word_less_nat_alt)
    from card_mono [OF _ this]
    have "card ((\<lambda>x. unat (fst x)) ` set (bl_sources b)) \<le> unat k"
      by simp
    moreover have "inj_on (\<lambda>x. unat (fst x)) (set (bl_sources b))"
      using om_ok_distinct [of "bl_sources b"] ok
      by (auto simp: block_ok_def distinct_map inj_on_def unat_inject_iff)
    moreover have "distinct (bl_sources b)"
      using om_ok_distinct [of "bl_sources b"] ok by (auto simp: block_ok_def distinct_map)
    ultimately show ?thesis
      by (simp add: card_image distinct_card)
  qed
  then show "bl_repairs b \<noteq> []" if "length (bl_sources b) \<noteq> unat k" "unat k \<le> card (held k b)"
    using that card_held [OF ok] by auto
qed

definition finished :: "u32 \<Rightarrow> FrameReassembler \<Rightarrow> FrameReassembler \<Rightarrow> bool" where
  "finished i st st' \<longleftrightarrow> ra_cfg st' = ra_cfg st \<and> ra_blocks st' = ra_blocks st
     \<and> ra_highest_block st' = ra_highest_block st \<and> ra_have_highest st' = ra_have_highest st
     \<and> ra_have_finalized st'
     \<and> ((ra_have_finalized st \<longrightarrow> 0 < bid_diff i (ra_finalized_upto st)) \<longrightarrow> ra_finalized_upto st' = i)"

lemma observe_shadow_frame [simp]:
  "ra_cfg (observe_shadow i b st) = ra_cfg st" "ra_blocks (observe_shadow i b st) = ra_blocks st"
  "ra_highest_block (observe_shadow i b st) = ra_highest_block st"
  "ra_have_highest (observe_shadow i b st) = ra_have_highest st"
  "ra_finalized_upto (observe_shadow i b st) = ra_finalized_upto st"
  "ra_have_finalized (observe_shadow i b st) = ra_have_finalized st"
  "ra_last_emitted (observe_shadow i b st) = ra_last_emitted st"
  "ra_have_emitted (observe_shadow i b st) = ra_have_emitted st"
  "ra_salvage (observe_shadow i b st) = ra_salvage st"
  by (simp_all add: observe_shadow_def Let_def)

lemma emit_complete_result:
  "\<exists>st'. emit_complete i b frame emit g st = (True, st', [(i, frame, emit frame)]) \<and> finished i st st'"
  by (auto simp: emit_complete_def Let_def ra_finalize_def finished_def note_emitted_def)

lemma try_complete_ok:
  assumes fl: "in_flight f blob k r cap" and ok: "block_ok f blob k r b" and kb: "bl_k b = k"
    and cap: "unat (rc_max_frame_bytes (ra_cfg st)) = cap"
  shows "if unat k \<le> card (held k b)
    then \<exists>st'. try_complete i b emit st = (True, st', [(i, blob, emit blob)]) \<and> finished i st st'
    else try_complete i b emit st = (False, st, [])"
proof -
  have k0: "(bl_k b = 0) = False" and blob: "8 \<le> length blob" "length blob \<le> cap" "length blob < 2 ^ 32"
    using fl kb by (auto simp: in_flight_def frame_k_def sendable_def)
  note small = held_small [OF fl ok]
  have total: "unat (of_nat (length (bl_sources b) + length (bl_repairs b)) :: u16) = card (held k b)"
    unfolding card_held [OF ok, symmetric] using small(1) by (intro unat_of_nat_small) simp
  consider (all) "length (bl_sources b) = unat k" | (few) "card (held k b) < unat k"
    | (fec) "length (bl_sources b) \<noteq> unat k" "unat k \<le> card (held k b)"
    by linarith
  then show ?thesis
  proof cases
    case all
    have "chunks_fit cap 0 (map snd (bl_sources b))"
      using all_sources [OF fl ok all] blob by (intro chunks_fit_concat) simp
    then have "try_complete i b emit st = emit_complete i b blob emit
        (\<lambda>x. x\<lparr>rs_frames_delivered := rs_frames_delivered x + 1, rs_frames_fast := rs_frames_fast x + 1\<rparr>) st"
      using all k0 all_sources [OF fl ok all] blob by (simp add: try_complete_def Let_def kb cap)
    then show ?thesis
      using emit_complete_result all card_held [OF ok] by simp
  next
    case few
    then have "length (bl_sources b) \<noteq> unat k"
      using card_held [OF ok] by linarith
    then show ?thesis
      unfolding try_complete_def Let_def k0 if_False kb total using few by simp
  next
    case fec
    have "bl_repairs b \<noteq> []"
      using small(2) fec by blast
    then have sb: "bl_s b = symbol_size f" "bl_frame_len b = of_nat (length blob)"
      using ok by (simp_all add: block_ok_def)
    have flen: "unat (bl_frame_len b) = length blob"
      unfolding sb using blob by (intro unat_of_nat_small) simp
    have pos: "0 < bl_s b" "0 < bl_frame_len b"
      using symbol_size_pos [of f] flen blob by (auto simp: sb word_less_nat_alt)
    obtain out where "can_decode (fill_decoder b)" "rlc_decode (fill_decoder b) = Some out"
      "resize (length blob) out = blob"
      using decode_held_block [OF fl ok kb sb(1) fec(2)] by blast
    then show ?thesis
      unfolding try_complete_def Let_def k0 if_False kb total
      using fec pos flen blob cap k0 kb emit_complete_result by simp
  qed
qed


section \<open>Pushing symbols\<close>

text \<open>Waiting for more of block \<open>i\<close>, with the symbols \<open>H\<close> of the frame held so far; and done with
  it, so that any further symbol of it is dropped.\<close>

definition waiting ::
    "FrameFramer \<Rightarrow> bytes \<Rightarrow> u16 \<Rightarrow> u16 \<Rightarrow> nat \<Rightarrow> u32 \<Rightarrow> nat set \<Rightarrow> FrameReassembler \<Rightarrow> bool" where
  "waiting f blob k r cap i H st \<longleftrightarrow>
     unat (rc_max_frame_bytes (ra_cfg st)) = cap
     \<and> 0 \<le> sint (rc_max_blocks_ahead (ra_cfg st))
     \<and> (ra_have_finalized st \<longrightarrow> 0 < bid_diff i (ra_finalized_upto st))
     \<and> (if H = {} then ra_blocks st = [] \<and> (ra_have_highest st \<longrightarrow> 0 < bid_diff i (ra_highest_block st))
        else ra_have_highest st \<and> ra_highest_block st = i
          \<and> (\<exists>b. ra_blocks st = [(i, b)] \<and> block_ok f blob k r b \<and> bl_k b = k \<and> held k b = H))"

definition done_with :: "u32 \<Rightarrow> FrameReassembler \<Rightarrow> bool" where
  "done_with i st \<longleftrightarrow> ra_have_finalized st \<and> bid_diff i (ra_finalized_upto st) \<le> 0"

lemma bid_diff_self [simp]: "bid_diff i i = 0"
  by (simp add: bid_diff_def)

lemma push_done: "done_with i st \<Longrightarrow> ra_push st i flags payload now emit air = (False, st, [])"
  by (simp add: ra_push_def done_with_def)

lemma symbol_flags_repair:
  "\<not> has_flag (fr_extra_flags f) kFecRepair \<Longrightarrow> has_flag (symbol_flags f k r j) kFecRepair = (unat k \<le> j)"
proof -
  assume "\<not> has_flag (fr_extra_flags f) kFecRepair"
  moreover have "has_flag kFecRepair kFecRepair" "\<not> has_flag kEndOfBlock kFecRepair" "\<not> has_flag 0 kFecRepair"
    by (simp_all add: has_flag_def)
  ultimately show ?thesis
    by (auto simp: symbol_flags_def source_flags_def repair_flags_def has_flag_or)
qed

lemma take_symbol_ok:
  assumes fl: "in_flight f blob k r cap" and ok: "block_ok f blob k r b" and j: "j < unat k + unat r"
  shows "\<exists>b'. (if has_flag (symbol_flags f k r j) kFecRepair
       then take_repair cap (symbol_payload f blob k j) eob now air b
       else take_source cap (symbol_payload f blob k j) eob now air b) = (True, b')
     \<and> block_ok f blob k r b' \<and> held k b' = insert j (held k b) \<and> bl_k b' = k"
proof -
  have fr: "has_flag (symbol_flags f k r j) kFecRepair = (unat k \<le> j)"
    using fl by (intro symbol_flags_repair) (simp add: in_flight_def)
  show ?thesis
  proof (cases "j < unat k")
    case True
    then show ?thesis
      using take_source_ok [OF fl ok True] by (simp add: fr symbol_payload_def)
  next
    case False
    then have "j - unat k < unat r" "unat k + (j - unat k) = j"
      using j by linarith+
    then show ?thesis
      using take_repair_ok [OF fl ok, of "j - unat k"] False by (simp add: fr symbol_payload_def)
  qed
qed

lemma arm_shadow_fields [simp]:
  "bl_k (arm_shadow st b) = bl_k b" "bl_sources (arm_shadow st b) = bl_sources b"
  "bl_repairs (arm_shadow st b) = bl_repairs b" "bl_s (arm_shadow st b) = bl_s b"
  "bl_frame_len (arm_shadow st b) = bl_frame_len b"
  by (simp_all add: arm_shadow_def)

lemma block_ok_arm [simp]: "block_ok f blob k r (arm_shadow st b) = block_ok f blob k r b"
  and held_arm [simp]: "held k (arm_shadow st b) = held k b"
  by (simp_all add: block_ok_def held_def)

lemma supersede_newest:
  assumes "ra_blocks st = [(i, b)]" and "0 \<le> sint (rc_max_blocks_ahead (ra_cfg st))"
  shows "supersede i emit st = (st, [])"
  using assms by (simp add: supersede_def)

text \<open>A push whose symbol is well formed and whose block survives the window update.\<close>

lemma push_taken:
  assumes fresh: "(ra_have_finalized st \<and> bid_diff i (ra_finalized_upto st) \<le> 0) = False"
    and b: "b = (case map_of (ra_blocks st) i of Some b \<Rightarrow> b | None \<Rightarrow> empty_block\<lparr>bl_first_ms := now\<rparr>)"
    and taken: "(if has_flag flags kFecRepair
        then take_repair (unat (rc_max_frame_bytes (ra_cfg st))) payload (has_flag flags kEndOfBlock) now air b
        else take_source (unat (rc_max_frame_bytes (ra_cfg st))) payload (has_flag flags kEndOfBlock) now air b)
      = (True, b1)"
    and st1: "st1 = st\<lparr>ra_blocks := om_update i b1 (ra_blocks st)\<rparr>"
    and window: "(if \<not> ra_have_highest st1 \<or> 0 < bid_diff i (ra_highest_block st1)
        then supersede i emit (st1\<lparr>ra_highest_block := i, ra_have_highest := True\<rparr>) else (st1, [])) = (st2, es2)"
    and b2: "map_of (ra_blocks st2) i = Some b2" and b3: "b3 = arm_shadow st2 b2"
    and tc: "try_complete i b3 emit (st2\<lparr>ra_blocks := om_update i b3 (ra_blocks st2)\<rparr>) = (d, st4, es4)"
  shows "ra_push st i flags payload now emit air
    = (es2 @ es4 \<noteq> [], if d then st4\<lparr>ra_blocks := om_erase i (ra_blocks st4)\<rparr> else st4, es2 @ es4)"
  unfolding ra_push_def Let_def fresh if_False b [symmetric] taken prod.case st1 [symmetric] window b2
    option.case b3 [symmetric] tc not_True_eq_False
  by (rule refl)

lemma push_symbol:
  assumes fl: "in_flight f blob k r cap" and w: "waiting f blob k r cap i H st"
    and j: "j < unat k + unat r"
  shows "case ra_push st i (symbol_flags f k r j) (symbol_payload f blob k j) now emit air of (b, st', es) \<Rightarrow>
    if unat k \<le> card (insert j H) then es = [(i, blob, emit blob)] \<and> done_with i st'
    else es = [] \<and> waiting f blob k r cap i (insert j H) st'"
proof -
  define b where "b = (case map_of (ra_blocks st) i of Some b \<Rightarrow> b | None \<Rightarrow> empty_block\<lparr>bl_first_ms := now\<rparr>)"
  have b0: "block_ok f blob k r b" "held k b = H"
    using w by (auto simp: b_def waiting_def block_ok_empty held_empty split: if_splits)
  have fresh: "(ra_have_finalized st \<and> bid_diff i (ra_finalized_upto st) \<le> 0) = False"
    and cap: "unat (rc_max_frame_bytes (ra_cfg st)) = cap" and ahead: "0 \<le> sint (rc_max_blocks_ahead (ra_cfg st))"
    using w by (auto simp: waiting_def)
  obtain b1 where b1: "(if has_flag (symbol_flags f k r j) kFecRepair
       then take_repair cap (symbol_payload f blob k j) (has_flag (symbol_flags f k r j) kEndOfBlock) now air b
       else take_source cap (symbol_payload f blob k j) (has_flag (symbol_flags f k r j) kEndOfBlock) now air b)
     = (True, b1)" and ok1: "block_ok f blob k r b1" "held k b1 = insert j H" "bl_k b1 = k"
    using take_symbol_ok [OF fl b0(1) j] b0(2) by blast
  define st1 where "st1 = st\<lparr>ra_blocks := om_update i b1 (ra_blocks st)\<rparr>"
  define st2 where "st2 = st1\<lparr>ra_highest_block := i, ra_have_highest := True\<rparr>"
  define b3 where "b3 = arm_shadow st2 b1"
  define st3 where "st3 = st2\<lparr>ra_blocks := om_update i b3 (ra_blocks st2)\<rparr>"
  have up: "om_update i x (ra_blocks st) = [(i, x)]" for x
    using w by (auto simp: waiting_def split: if_splits)
  have sup: "supersede i emit st2 = (st2, [])"
    by (rule supersede_newest) (simp_all add: st2_def st1_def up ahead)
  have same: "st1 = st2" if "\<not> (\<not> ra_have_highest st1 \<or> 0 < bid_diff i (ra_highest_block st1))"
    using that w by (simp add: waiting_def st2_def st1_def split: if_splits)
  have window: "(if \<not> ra_have_highest st1 \<or> 0 < bid_diff i (ra_highest_block st1)
      then supersede i emit (st1\<lparr>ra_highest_block := i, ra_have_highest := True\<rparr>) else (st1, [])) = (st2, [])"
    unfolding st2_def [symmetric] sup using same by simp
  have b2: "map_of (ra_blocks st2) i = Some b1"
    by (simp add: st2_def st1_def up)
  obtain d st4 es where tc: "try_complete i b3 emit st3 = (d, st4, es)"
    by (cases "try_complete i b3 emit st3") auto
  note push = push_taken [OF fresh b_def b1 [folded cap] st1_def window b2 b3_def tc [unfolded st3_def]]
  have b3: "block_ok f blob k r b3" "bl_k b3 = k" "held k b3 = insert j H"
    "unat (rc_max_frame_bytes (ra_cfg st3)) = cap"
    using ok1 cap by (simp_all add: b3_def st3_def st2_def st1_def)
  have tc': "if unat k \<le> card (insert j H) then d \<and> es = [(i, blob, emit blob)] \<and> finished i st3 st4
      else \<not> d \<and> st4 = st3 \<and> es = []"
    using try_complete_ok [OF fl b3(1,2,4), of i emit] unfolding b3(3) tc by auto
  have "done_with i (st4\<lparr>ra_blocks := x\<rparr>)" if "finished i st3 st4" for x
    using that fresh by (auto simp: finished_def done_with_def st3_def st2_def st1_def)
  moreover have "waiting f blob k r cap i (insert j H) st3"
    using b3 fresh ahead by (auto simp: waiting_def st3_def st2_def st1_def up)
  ultimately show ?thesis
    unfolding push prod.case using tc' by (simp split: if_splits)
qed

section \<open>The whole path\<close>

text \<open>A received packet (with its arrival time and whether it came over the air) is decoded and,
  when it is a data packet, its symbol pushed.\<close>

type_synonym arrival = "bytes \<times> u64 \<times> bool"

definition receive :: "egress \<Rightarrow> arrival \<Rightarrow> FrameReassembler \<times> emission list \<Rightarrow> FrameReassembler \<times> emission list" where
  "receive emit a se =
     (case a of (pkt, now, air) \<Rightarrow>
        case decode (Some (ptr_of pkt)) (length pkt) of
          Inr (PData v) \<Rightarrow>
            (case ra_push (fst se) (block_id (dv_hdr v)) (data_flags (dv_hdr v)) (dv_payload v) now emit air of
               (_, st', es) \<Rightarrow> (st', snd se @ es))
        | _ \<Rightarrow> se)"

definition ready_for :: "u32 \<Rightarrow> nat \<Rightarrow> FrameReassembler \<Rightarrow> bool" where
  "ready_for i len st \<longleftrightarrow> ra_blocks st = [] \<and> len \<le> unat (rc_max_frame_bytes (ra_cfg st))
     \<and> 0 \<le> sint (rc_max_blocks_ahead (ra_cfg st))
     \<and> (ra_have_finalized st \<longrightarrow> 0 < bid_diff i (ra_finalized_upto st))
     \<and> (ra_have_highest st \<longrightarrow> 0 < bid_diff i (ra_highest_block st))"

lemma receive_symbol:
  assumes fl: "in_flight f blob k r cap" and j: "j < unat k + unat r"
    and pkt: "fst a = fst (frame_symbols f blob k r ! j)"
  shows "receive emit a (st, es) =
    (case ra_push st (fr_block_id f) (symbol_flags f k r j) (symbol_payload f blob k j)
        (fst (snd a)) emit (snd (snd a)) of (_, st', es') \<Rightarrow> (st', es @ es'))"
proof -
  have "length (symbol_payload f blob k j) \<le> kMaxDataPayload"
    using fl by (intro length_symbol_payload) (simp_all add: in_flight_def)
  from decode_data_packet [OF this] show ?thesis
    using pkt frame_symbols_nth [OF j, of f blob]
    by (cases a) (simp add: receive_def header_at_def symbol_header_def)
qed

lemma receive_done:
  assumes "in_flight f blob k r cap" and "\<forall>a\<in>set rx. \<exists>j<unat k + unat r. fst a = fst (frame_symbols f blob k r ! j)"
    and "done_with (fr_block_id f) st"
  shows "snd (fold (receive emit) rx (st, es)) = es"
  using assms by (induction rx) (auto simp: receive_symbol push_done)

lemma receive_waiting:
  assumes fl: "in_flight f blob k r cap"
    and rx: "\<forall>a\<in>set rx. n a < unat k + unat r \<and> fst a = fst (frame_symbols f blob k r ! n a)"
    and w: "waiting f blob k r cap (fr_block_id f) H st" and H: "card H < unat k" "finite H"
  shows "snd (fold (receive emit) rx (st, [])) =
    (if unat k \<le> card (H \<union> n ` set rx) then [(fr_block_id f, blob, emit blob)] else [])"
  using rx w H
proof (induction rx arbitrary: H st)
  case (Cons a rx)
  let ?i = "fr_block_id f"
  have a: "n a < unat k + unat r" "fst a = fst (frame_symbols f blob k r ! n a)"
    using Cons.prems(1) by simp_all
  obtain b st' es where p: "ra_push st ?i (symbol_flags f k r (n a)) (symbol_payload f blob k (n a))
      (fst (snd a)) emit (snd (snd a)) = (b, st', es)"
    by (cases "ra_push st ?i (symbol_flags f k r (n a)) (symbol_payload f blob k (n a))
      (fst (snd a)) emit (snd (snd a))") auto
  have r: "receive emit a (st, []) = (st', es)"
    using receive_symbol [OF fl a] p by simp
  have sym: "if unat k \<le> card (insert (n a) H) then es = [(?i, blob, emit blob)] \<and> done_with ?i st'
      else es = [] \<and> waiting f blob k r cap ?i (insert (n a) H) st'"
    using push_symbol [OF fl Cons.prems(2) a(1), where now = "fst (snd a)" and emit = emit and air = "snd (snd a)"]
    by (simp add: p)
  show ?case
  proof (cases "unat k \<le> card (insert (n a) H)")
    case True
    have "card (insert (n a) H) \<le> card (H \<union> n ` set (a # rx))"
      using Cons.prems(4) by (intro card_mono) auto
    then have "unat k \<le> card (H \<union> n ` set (a # rx))"
      using True by linarith
    moreover have "snd (fold (receive emit) rx (st', es)) = es"
      using Cons.prems(1) sym True by (intro receive_done [OF fl]) auto
    ultimately show ?thesis
      using r sym True by simp
  next
    case False
    have "snd (fold (receive emit) rx (st', [])) =
        (if unat k \<le> card (insert (n a) H \<union> n ` set rx) then [(?i, blob, emit blob)] else [])"
      using Cons.prems sym False by (intro Cons.IH) auto
    then show ?thesis
      using r sym False by simp
  qed
qed simp

lemma frame_symbols_inj:
  assumes fl: "in_flight f blob k r cap" and "i < unat k + unat r" "j < unat k + unat r"
    and eq: "fst (frame_symbols f blob k r ! i) = fst (frame_symbols f blob k r ! j)"
  shows "i = j"
proof -
  have pay: "length (symbol_payload f blob k x) \<le> kMaxDataPayload" for x
    using fl by (intro length_symbol_payload) (simp_all add: in_flight_def)
  have "Inr (PData \<lparr>dv_hdr = header_at f (fr_block_id f) i (symbol_flags f k r i), dv_payload = symbol_payload f blob k i\<rparr>)
      = (Inr (PData \<lparr>dv_hdr = header_at f (fr_block_id f) j (symbol_flags f k r j), dv_payload = symbol_payload f blob k j\<rparr>)
          :: decoded)"
    using eq decode_data_packet [OF pay [of i], of "header_at f (fr_block_id f) i (symbol_flags f k r i)"]
      decode_data_packet [OF pay [of j], of "header_at f (fr_block_id f) j (symbol_flags f k r j)"]
    unfolding frame_symbols_nth [OF assms(2)] frame_symbols_nth [OF assms(3)] by argo
  then have "(of_nat i :: u32) = of_nat j"
    by (simp add: header_at_def symbol_header_def)
  moreover have "unat k + unat r < 2 ^ 17"
    using fl unat_u16_less [of k] by (auto simp: in_flight_def capped_def)
  then have "unat (of_nat i :: u32) = i" "unat (of_nat j :: u32) = j"
    using assms(2,3) by (auto intro!: unat_of_nat_small)
  ultimately show ?thesis
    by metis
qed

text \<open>C1: Transfer of one frame, end to end. The packets that FrameFramer::on_frame emits for a frame
  are received in any order, with any repetitions and any losses, over the air or not; each is
  decoded by decode and its symbol pushed into a FrameReassembler that is ready for the block.
  Then the reassembler attempts exactly one emission, of the byte-identical frame, as soon as k
  distinct packets have arrived, and none when fewer arrive; later symbols of the block are
  dropped.\<close>

theorem frame_delivered_from_any_k_symbols:
  assumes sent: "sendable f blob" "on_frame f (Some blob) = (True, g, out)"
    and plain: "\<not> has_flag (fr_extra_flags f) kFecRepair" "kMinFrameSymbolSize \<le> unat (symbol_size f)"
    and ready: "ready_for (fr_block_id f) (length blob) st"
    and rx: "fst ` set rx \<subseteq> fst ` set out"
  shows "snd (fold (receive emit) rx (st, [])) =
    (if frame_k (unat (symbol_size f)) (length blob) \<le> card (fst ` set rx)
     then [(fr_block_id f, blob, emit blob)] else [])"
proof -
  from sent(1) obtain k r g' where kr: "unat k = frame_k (unat (symbol_size f)) (length blob)" "capped k r"
    "on_frame f (Some blob) = (True, g', frame_symbols f blob k r)"
    by (rule on_frame_emits)
  define cap where "cap = unat (rc_max_frame_bytes (ra_cfg st))"
  have fl: "in_flight f blob k r cap"
    using sent(1) kr plain ready unsigned_less [of "rc_max_frame_bytes (ra_cfg st)"]
    by (simp add: in_flight_def cap_def ready_for_def)
  have out: "set out = (\<lambda>j. frame_symbols f blob k r ! j) ` {..<unat k + unat r}"
    using sent(2) kr(3) by (auto simp: set_conv_nth)
  define n where "n a = (SOME j. j < unat k + unat r \<and> fst a = fst (frame_symbols f blob k r ! j))" for a :: arrival
  have n: "n a < unat k + unat r \<and> fst a = fst (frame_symbols f blob k r ! n a)" if "a \<in> set rx" for a
    unfolding n_def by (rule someI_ex) (use rx that in \<open>auto simp: out\<close>)
  have "fst ` set rx = (\<lambda>j. fst (frame_symbols f blob k r ! j)) ` n ` set rx"
    using n by (auto simp: image_image)
  moreover have "inj_on (\<lambda>j. fst (frame_symbols f blob k r ! j)) (n ` set rx)"
    using n frame_symbols_inj [OF fl] by (auto simp: inj_on_def)
  ultimately have "card (fst ` set rx) = card (n ` set rx)"
    by (simp add: card_image)
  moreover have "waiting f blob k r cap (fr_block_id f) {} st"
    using ready by (simp add: ready_for_def waiting_def cap_def)
  moreover have "0 < unat k"
    by (simp add: kr(1) frame_k_def)
  ultimately show ?thesis
    using receive_waiting [OF fl, of rx n "{}" st emit] n kr(1) by simp
qed

text \<open>A concrete exchange: two source symbols and one repair symbol.\<close>

definition demo_cfg :: FrameReassemblerConfig where
  "demo_cfg = \<lparr>rc_deadline_ms = 50, rc_max_blocks_ahead = 4, rc_max_frame_bytes = 65536\<rparr>"


theorem frame_delivered_from_any_k_symbols_witness:
  "snd (fold (receive (\<lambda>_. True)) [(fst (demo_out ! 2), 10, True), (fst (demo_out ! 1), 11, True)]
     (new_reassembler demo_cfg None, [])) = [(0, replicate 30 0, True)]"
proof -
  have s: "sendable demo_framer (replicate 30 0)"
    by (simp add: sendable_def demo_symbol_size frame_k_def)
  have f: "\<not> has_flag (fr_extra_flags demo_framer) kFecRepair" "fr_block_id demo_framer = 0"
    by (simp_all add: demo_eval)
  from s obtain k r g where kr: "unat k = frame_k (unat (symbol_size demo_framer)) 30" "capped k r"
    "on_frame demo_framer (Some (replicate 30 0)) = (True, g, frame_symbols demo_framer (replicate 30 0) k r)"
    by (rule on_frame_emits) simp
  have fs: "demo_out = frame_symbols demo_framer (replicate 30 0) k r" "unat k + unat r = 3"
    using kr(3) length_demo_out by (simp_all add: demo_out_def)
  have "in_flight demo_framer (replicate 30 0) k r 65536"
    using s kr f(1) by (simp add: in_flight_def demo_symbol_size)
  then have d: "fst (demo_out ! 1) \<noteq> fst (demo_out ! 2)" "fst (demo_out ! 2) \<noteq> fst (demo_out ! 1)"
    using frame_symbols_inj [of demo_framer "replicate 30 0" k r 65536 1 2] fs by auto
  have rx: "fst ` set [(fst (demo_out ! 2), 10 :: u64, True), (fst (demo_out ! 1), 11, True)] \<subseteq> fst ` set demo_out"
    using length_demo_out by simp
  have r: "ready_for (fr_block_id demo_framer) (length (replicate 30 (0::u8))) (new_reassembler demo_cfg None)"
    by (simp add: ready_for_def new_reassembler_def demo_cfg_def)
  show ?thesis
    using frame_delivered_from_any_k_symbols [OF s demo_sent f(1) _ r rx, of "\<lambda>_. True"] d f(2)
    by (simp add: demo_symbol_size frame_k_def)
qed

end
