(* ===== verification/In_Order_Delivery.thy ===== *)
theory In_Order_Delivery
  imports Prelude
begin

text \<open>
  The contract of a stage that releases numbered items in ascending order, however they came in:
  the receive engine releases packets by sequence number, the frame reassembler frames by block
  number. A step may start the numbering afresh (a resynchronisation); between two such steps
  nothing is released twice or out of order.
\<close>

fun run_steps :: "('ev \<Rightarrow> 's \<Rightarrow> 's \<times> 'out list) \<Rightarrow> 'ev list \<Rightarrow> 's \<Rightarrow> 's \<times> 'out list" where
  "run_steps step [] s = (s, [])"
| "run_steps step (ev # evs) s =
     (let (s1, out) = step ev s; (s2, out') = run_steps step evs s1 in (s2, out @ out'))"

text \<open>No event of the run starts the numbering afresh.\<close>

fun steady :: "('ev \<Rightarrow> 's \<Rightarrow> 's \<times> 'out list) \<Rightarrow> ('ev \<Rightarrow> 's \<Rightarrow> bool) \<Rightarrow> 'ev list \<Rightarrow> 's \<Rightarrow> bool" where
  "steady step refloors [] s \<longleftrightarrow> True"
| "steady step refloors (ev # evs) s \<longleftrightarrow> \<not> refloors ev s \<and> steady step refloors evs (fst (step ev s))"

lemma run_steps_Cons:
  "fst (run_steps step (ev # evs) s) = fst (run_steps step evs (fst (step ev s)))"
  "snd (run_steps step (ev # evs) s) = snd (step ev s) @ snd (run_steps step evs (fst (step ev s)))"
  by (simp_all add: split_def Let_def)

locale in_order_delivery =
  fixes step :: "'ev \<Rightarrow> 's \<Rightarrow> 's \<times> 'out list"
    and ok :: "'s \<Rightarrow> bool"
    and cursor :: "'s \<Rightarrow> nat"
    and pos :: "'out \<Rightarrow> nat"
    and refloors :: "'ev \<Rightarrow> 's \<Rightarrow> bool"
  assumes ok_step: "ok s \<Longrightarrow> ok (fst (step ev s))"
    and out_sorted: "ok s \<Longrightarrow> sorted_wrt (<) (map pos (snd (step ev s)))"
    and out_between: "ok s \<Longrightarrow> \<not> refloors ev s \<Longrightarrow> d \<in> set (snd (step ev s)) \<Longrightarrow>
      cursor s \<le> pos d \<and> pos d < cursor (fst (step ev s))"
    and cursor_mono: "ok s \<Longrightarrow> \<not> refloors ev s \<Longrightarrow> cursor s \<le> cursor (fst (step ev s))"
begin

lemma run_ok: "ok s \<Longrightarrow> ok (fst (run_steps step evs s))"
  by (induction evs arbitrary: s) (simp_all add: run_steps_Cons ok_step del: run_steps.simps(2))

lemma run_cursor_mono:
  "ok s \<Longrightarrow> steady step refloors evs s \<Longrightarrow> cursor s \<le> cursor (fst (run_steps step evs s))"
proof (induction evs arbitrary: s)
  case (Cons ev evs)
  then have "cursor s \<le> cursor (fst (step ev s))"
    by (intro cursor_mono) simp_all
  also have "\<dots> \<le> cursor (fst (run_steps step evs (fst (step ev s))))"
    using Cons by (simp add: ok_step)
  finally show ?case
    by (simp only: run_steps_Cons)
qed simp

lemma run_between:
  "ok s \<Longrightarrow> steady step refloors evs s \<Longrightarrow> d \<in> set (snd (run_steps step evs s)) \<Longrightarrow>
   cursor s \<le> pos d \<and> pos d < cursor (fst (run_steps step evs s))"
proof (induction evs arbitrary: s)
  case (Cons ev evs)
  let ?s1 = "fst (step ev s)"
  have mono: "cursor s \<le> cursor ?s1" "cursor ?s1 \<le> cursor (fst (run_steps step evs ?s1))"
    using Cons.prems by (auto intro: cursor_mono run_cursor_mono ok_step)
  from Cons.prems(3) consider "d \<in> set (snd (step ev s))" | "d \<in> set (snd (run_steps step evs ?s1))"
    by (auto simp: run_steps_Cons simp del: run_steps.simps(2))
  then show ?case
  proof cases
    case 1
    then show ?thesis
      using out_between [of s ev d] Cons.prems mono by (simp add: run_steps_Cons del: run_steps.simps(2))
  next
    case 2
    then show ?thesis
      using Cons.IH [of ?s1] Cons.prems mono by (simp add: run_steps_Cons ok_step del: run_steps.simps(2))
  qed
qed simp

text \<open>What a steady run releases comes out in strictly ascending order, so nothing twice.\<close>

lemma run_sorted:
  "ok s \<Longrightarrow> steady step refloors evs s \<Longrightarrow> sorted_wrt (<) (map pos (snd (run_steps step evs s)))"
proof (induction evs arbitrary: s)
  case (Cons ev evs)
  let ?s1 = "fst (step ev s)"
  have "pos a < pos b" if "a \<in> set (snd (step ev s))" "b \<in> set (snd (run_steps step evs ?s1))" for a b
    using out_between [of s ev a] run_between [of ?s1 evs b] that Cons.prems by (auto simp: ok_step)
  then show ?case
    using Cons out_sorted [of s ev] by (auto simp: run_steps_Cons ok_step sorted_wrt_append simp del: run_steps.simps(2))
qed simp

lemma run_distinct: "ok s \<Longrightarrow> steady step refloors evs s \<Longrightarrow> distinct (map pos (snd (run_steps step evs s)))"
  using run_sorted strict_sorted_iff by blast

end

end
