(* ===== verification/Frame_Order.thy ===== *)
theory Frame_Order
  imports Frame_Transfer In_Order_Delivery
begin

text \<open>
  The reassembler's zero-reorder rule: no frame is handed to the egress at or before a block that
  the egress has accepted, so the accepted frames are in strictly ascending block order, whichever of the three ways (all sources, FEC, salvage) completes them.
  Block numbers are below \<open>2 ^ 31\<close> here, the half of the number space in which the code's signed
  distance orders them as numbers.
\<close>

section \<open>Block numbers\<close>

definition bid :: "31 word \<Rightarrow> u32" where
  "bid i = ucast i"

lemma bid_less: "unat (bid i) < 2 ^ 31"
  using unsigned_less [of i] by (simp add: bid_def)

lemma bid_diff_order:
  assumes "unat a < 2 ^ 31" and "unat b < 2 ^ 31"
  shows "0 < bid_diff a b \<longleftrightarrow> unat b < unat a" "bid_diff a b \<le> 0 \<longleftrightarrow> unat a \<le> unat b"
proof -
  have "int (unat a) < int (2 ^ 31)" "int (unat b) < int (2 ^ 31)"
    using assms by (simp_all only: of_nat_less_iff)
  then have bounds: "uint a < 2 ^ 31" "uint b < 2 ^ 31" "0 \<le> uint a" "0 \<le> uint b"
    by simp_all
  have "sint (a - b) = signed_take_bit 31 (uint a - uint b)"
    by (simp add: sint_uint uint_word_arith_bintrs(2) signed_take_bit_take_bit)
  also have "\<dots> = uint a - uint b"
    by (intro signed_take_bit_int_eq_self) (use bounds in linarith)+
  finally have "bid_diff a b = uint a - uint b"
    by (simp add: bid_diff_def)
  then show "0 < bid_diff a b \<longleftrightarrow> unat b < unat a" "bid_diff a b \<le> 0 \<longleftrightarrow> unat a \<le> unat b"
    by (auto simp: word_less_nat_alt [symmetric] word_le_nat_alt [symmetric] word_less_def word_le_def)
qed

section \<open>State\<close>

text \<open>The documented contract of the salvage hook: it returns true if and only if it emitted a
  repaired frame, and it emits at most one.\<close>

definition hook_ok :: "salvage_hook \<Rightarrow> bool" where
  "hook_ok hook \<longleftrightarrow> (\<forall>v. length (fst (hook v)) \<le> 1 \<and> (snd (hook v) \<longleftrightarrow> fst (hook v) \<noteq> []))"

definition next_frame :: "FrameReassembler \<Rightarrow> nat" where
  "next_frame st = (if ra_have_emitted st then unat (ra_last_emitted st) + 1 else 0)"

definition ra_ok :: "FrameReassembler \<Rightarrow> bool" where
  "ra_ok st \<longleftrightarrow> (\<forall>hook. ra_salvage st = Some hook \<longrightarrow> hook_ok hook)
     \<and> 0 \<le> sint (rc_max_blocks_ahead (ra_cfg st))
     \<and> (\<forall>i \<in> om_keys (ra_blocks st). unat i < 2 ^ 31)
     \<and> unat (ra_finalized_upto st) < 2 ^ 31
     \<and> (ra_have_emitted st \<longrightarrow> ra_have_finalized st \<and> unat (ra_last_emitted st) \<le> unat (ra_finalized_upto st))"

definition accepted :: "emission list \<Rightarrow> emission list" where
  "accepted es = filter (\<lambda>(i, frame, ok). ok) es"

text \<open>\<open>b\<close> is handed over after \<open>a\<close>: if the egress accepted \<open>a\<close>, the block of \<open>b\<close> is a later one.\<close>

definition not_late :: "emission \<Rightarrow> emission \<Rightarrow> bool" where
  "not_late a b \<longleftrightarrow> (snd (snd a) \<longrightarrow> unat (fst a) < unat (fst b))"

text \<open>What a part of an operation does to the order: no frame it hands over lies before the first
  state, and the accepted frames lie before the second.\<close>

definition ordered_part :: "FrameReassembler \<Rightarrow> FrameReassembler \<Rightarrow> emission list \<Rightarrow> bool" where
  "ordered_part st st' es \<longleftrightarrow> ra_ok st' \<and> next_frame st \<le> next_frame st'
     \<and> sorted_wrt not_late es
     \<and> (\<forall>e \<in> set es. next_frame st \<le> unat (fst e) \<and> (snd (snd e) \<longrightarrow> unat (fst e) < next_frame st'))"

lemma ordered_part_refl: "ra_ok st \<Longrightarrow> ordered_part st st []"
  by (simp add: ordered_part_def)

lemma ordered_part_trans:
  assumes "ordered_part a b es" and "ordered_part b c es'"
  shows "ordered_part a c (es @ es')"
  using assms unfolding ordered_part_def
  by (fastforce simp: sorted_wrt_append not_late_def intro: le_less_trans less_le_trans)

section \<open>Parts of an operation\<close>

lemma ra_okD:
  assumes "ra_ok st"
  shows "ra_salvage st = Some hook \<Longrightarrow> hook_ok hook" "0 \<le> sint (rc_max_blocks_ahead (ra_cfg st))"
    "i \<in> om_keys (ra_blocks st) \<Longrightarrow> unat i < 2 ^ 31" "unat (ra_finalized_upto st) < 2 ^ 31"
    "ra_have_emitted st \<Longrightarrow> ra_have_finalized st"
    "ra_have_emitted st \<Longrightarrow> unat (ra_last_emitted st) \<le> unat (ra_finalized_upto st)"
    "ra_have_emitted st \<Longrightarrow> unat (ra_last_emitted st) < 2 ^ 31"
  using assms unfolding ra_ok_def by (blast, blast, blast, blast, blast, blast, linarith)

text \<open>Recording the number \<open>i\<close> as emitted and final.\<close>

definition settle :: "bool \<Rightarrow> u32 \<Rightarrow> FrameReassembler \<Rightarrow> FrameReassembler" where
  "settle emitted i st = ra_finalize i (if emitted then note_emitted i st else st)"

lemma settle_ok:
  assumes "ra_ok st" and "unat i < 2 ^ 31" and "emitted \<Longrightarrow> next_frame st \<le> unat i"
  shows "ra_ok (settle emitted i st)" "next_frame (settle emitted i st) = (if emitted then unat i + 1 else next_frame st)"
proof -
  note d = ra_okD [OF assms(1)]
  have e: "note_emitted i st = st\<lparr>ra_last_emitted := i, ra_have_emitted := True\<rparr>" if emitted
    using assms(3) [OF that] bid_diff_order(1) [OF assms(2) d(7)] by (auto simp: note_emitted_def next_frame_def)
  have f: "0 < bid_diff i (ra_finalized_upto st) \<longleftrightarrow> unat (ra_finalized_upto st) < unat i"
    by (rule bid_diff_order(1) [OF assms(2) d(4)])
  show "next_frame (settle emitted i st) = (if emitted then unat i + 1 else next_frame st)"
    by (simp add: settle_def e ra_finalize_def next_frame_def)
  show "ra_ok (settle emitted i st)"
    using assms(1,2) d(6) by (auto simp: settle_def e ra_finalize_def f ra_ok_def)
qed

text \<open>At most one frame is handed over, of the block \<open>i\<close>, which is not late; an accepted one is noted.\<close>

definition one_attempt :: "FrameReassembler \<Rightarrow> bool \<Rightarrow> u32 \<Rightarrow> emission list \<Rightarrow> bool" where
  "one_attempt st emitted i es \<longleftrightarrow> length es \<le> 1 \<and> (emitted \<or> es \<noteq> [] \<longrightarrow> next_frame st \<le> unat i)
     \<and> (\<forall>e \<in> set es. fst e = i \<and> (snd (snd e) \<longrightarrow> emitted))"

lemma no_attempt [simp]: "one_attempt st False i []"
  by (simp add: one_attempt_def)

lemma settle_part:
  assumes "ra_ok st" and "unat i < 2 ^ 31" and "one_attempt st emitted i es"
  shows "ordered_part st (settle emitted i st) es"
proof -
  have "sorted_wrt not_late es"
    using assms(3) by (cases es) (auto simp: one_attempt_def)
  then show ?thesis
    using settle_ok [OF assms(1,2), of emitted] assms(3) unfolding ordered_part_def one_attempt_def
    by (auto split: if_splits)
qed

text \<open>States that agree on what the order depends on.\<close>

definition order_view :: "FrameReassembler \<Rightarrow> salvage_hook option \<times> FrameReassemblerConfig \<times> bool \<times> u32 \<times> bool \<times> u32" where
  "order_view st = (ra_salvage st, ra_cfg st, ra_have_emitted st, ra_last_emitted st, ra_have_finalized st, ra_finalized_upto st)"

lemma ra_ok_cong:
  assumes "order_view st' = order_view st" and "om_keys (ra_blocks st') \<subseteq> om_keys (ra_blocks st)"
  shows "ra_ok st \<Longrightarrow> ra_ok st'" "next_frame st' = next_frame st"
proof -
  have f: "ra_salvage st' = ra_salvage st" "ra_cfg st' = ra_cfg st" "ra_have_emitted st' = ra_have_emitted st"
      "ra_last_emitted st' = ra_last_emitted st" "ra_have_finalized st' = ra_have_finalized st"
      "ra_finalized_upto st' = ra_finalized_upto st"
    using assms(1) by (simp_all add: order_view_def)
  show "ra_ok st'" if "ra_ok st"
    using that assms(2) unfolding ra_ok_def f by blast
  show "next_frame st' = next_frame st"
    unfolding next_frame_def f ..
qed

lemma ordered_part_cong:
  assumes "order_view st' = order_view st" and "om_keys (ra_blocks st') \<subseteq> om_keys (ra_blocks st)" and "ordered_part st0 st es"
  shows "ordered_part st0 st' es"
  using assms ra_ok_cong [OF assms(1,2)] unfolding ordered_part_def by simp

text \<open>A salvage: at most one frame, of this block, and only behind no newer one.\<close>

lemma try_salvage_cases:
  assumes "ra_ok st" and "unat i < 2 ^ 31" and "try_salvage i b emit st = (outcome, st1, es)"
  shows "\<exists>emitted. order_view st1 = order_view (if emitted then note_emitted i st else st)
    \<and> ra_blocks st1 = ra_blocks st \<and> one_attempt st emitted i es"
proof -
  note d = ra_okD [OF assms(1)]
  show ?thesis
  proof (cases "st1 = st \<and> es = []")
    case True
    then show ?thesis
      by (intro exI [of _ False]) simp
  next
    case False
    then obtain hook where hook: "ra_salvage st = Some hook"
      using assms(3) by (auto simp: try_salvage_def split: option.splits)
    have free: "\<not> (bl_k b = 0 \<or> bl_sources b = [])" "\<not> (ra_have_emitted st \<and> bid_diff i (ra_last_emitted st) \<le> 0)"
      using False assms(3) hook by (auto simp: try_salvage_def split: if_splits)
    let ?v = "\<lparr>sv_block_id = i, sv_k = bl_k b, sv_s = bl_s b, sv_frame_len = bl_frame_len b, sv_sources = bl_sources b\<rparr>"
    obtain frames r where fr: "hook ?v = (frames, r)"
      by fastforce
    have h: "length frames \<le> 1" "r \<longleftrightarrow> frames \<noteq> []"
      using d(1) [OF hook] fr unfolding hook_ok_def by (metis fst_conv, metis fst_conv snd_conv)
    have nx: "next_frame st \<le> unat i"
      using free(2) bid_diff_order(2) [OF assms(2) d(7)] by (auto simp: next_frame_def)
    have es: "es = map (\<lambda>fr. (i, fr, emit fr)) frames"
        "order_view st1 = order_view (if frames \<noteq> [] \<and> emit (last frames) then note_emitted i st else st)"
        "ra_blocks st1 = ra_blocks st"
      using assms(3) unfolding try_salvage_def hook option.case if_not_P [OF free(1)] if_not_P [OF free(2)] fr Let_def prod.case
      by (auto simp: order_view_def note_emitted_def h(2) split: if_splits)
    have "one_attempt st (frames \<noteq> [] \<and> emit (last frames)) i es"
      using h(1) nx unfolding es(1) one_attempt_def by (cases frames) auto
    then show ?thesis
      using es by (intro exI [of _ "frames \<noteq> [] \<and> emit (last frames)"]) simp
  qed
qed

lemma finalize_view:
  "order_view st' = order_view st \<Longrightarrow> order_view (ra_finalize i st') = order_view (ra_finalize i st)"
  "ra_blocks (ra_finalize i st) = ra_blocks st"
  by (auto simp: order_view_def ra_finalize_def)

lemma observe_shadow_view: "order_view (observe_shadow i b st) = order_view st"
  by (simp add: order_view_def)

lemma note_emitted_blocks [simp]: "ra_blocks (note_emitted i st) = ra_blocks st"
  by (simp add: note_emitted_def)

lemma retire_block_part:
  assumes "ra_ok st" and "unat i < 2 ^ 31" and "retire_block reason emit i b (st, es) = (st', es')"
  shows "\<exists>es1. es' = es @ es1 \<and> ordered_part st st' es1 \<and> om_keys (ra_blocks st') \<subseteq> om_keys (ra_blocks st)
    \<and> next_frame st' \<le> max (next_frame st) (unat i + 1) \<and> ra_cfg st' = ra_cfg st"
proof -
  obtain outcome st0 es0 where salv: "try_salvage i b emit st = (outcome, st0, es0)"
    by (cases "try_salvage i b emit st")
  let ?give_up = "bl_k b = 0 \<or> length (bl_sources b) + length (bl_repairs b) < unat (bl_k b)"
  obtain st1 es1 where mid: "(if ?give_up
             then let (outcome, st', es') = try_salvage i b emit st
                  in (if outcome = so_kUnavailable
                      then upd_stats (\<lambda>x. reason (x\<lparr>rs_frames_unrecoverable := rs_frames_unrecoverable x + 1\<rparr>)) st'
                      else st', es')
             else (upd_stats reason st, [])) = (st1, es1)"
    by fastforce
  have "\<exists>emitted. order_view st1 = order_view (if emitted then note_emitted i st else st) \<and> ra_blocks st1 = ra_blocks st
      \<and> one_attempt st emitted i es1"
  proof (cases ?give_up)
    case True
    then have "es1 = es0" "order_view st1 = order_view st0" "ra_blocks st1 = ra_blocks st0"
      using mid salv by (auto simp: order_view_def split: if_splits)
    then show ?thesis
      using try_salvage_cases [OF assms(1,2) salv] by simp
  next
    case False
    then show ?thesis
      using mid by (intro exI [of _ False]) (auto simp: order_view_def)
  qed
  then obtain emitted where view: "order_view st1 = order_view (if emitted then note_emitted i st else st)" "ra_blocks st1 = ra_blocks st"
      and em: "one_attempt st emitted i es1"
    by blast
  have res: "st' = (ra_finalize i (observe_shadow i b st1))\<lparr>ra_blocks := om_erase i (ra_blocks st)\<rparr>" "es' = es @ es1"
    using assms(3) mid view(2) by (simp_all add: retire_block_def Let_def finalize_view(2) split: prod.splits)
  have "order_view st' = order_view (ra_finalize i (observe_shadow i b st1))"
    unfolding res(1) by (simp add: order_view_def)
  also have "\<dots> = order_view (settle emitted i st)"
    unfolding settle_def using view(1) by (intro finalize_view(1)) (simp add: observe_shadow_view)
  finally have same: "order_view st' = order_view (settle emitted i st)" .
  have keys: "om_keys (ra_blocks st') \<subseteq> om_keys (ra_blocks st)"
    unfolding res(1) by (auto simp: om_erase_def)
  have blocks: "ra_blocks (settle emitted i st) = ra_blocks st"
    by (simp add: settle_def finalize_view(2))
  have part: "ordered_part st (settle emitted i st) es1"
    by (rule settle_part [OF assms(1,2) em])
  have "ordered_part st st' es1"
    using ordered_part_cong [OF same _ part] keys blocks by simp
  moreover have "next_frame st' \<le> max (next_frame st) (unat i + 1)"
    using ra_ok_cong(2) [OF same] keys blocks settle_ok(2) [OF assms(1,2), of emitted] em by (auto simp: one_attempt_def)
  moreover have "ra_cfg st' = ra_cfg st"
    using same by (simp add: order_view_def settle_def ra_finalize_def note_emitted_def split: if_splits)
  ultimately show ?thesis
    using keys res(2) by blast
qed

lemma fold_retire_part:
  assumes "ra_ok st" and "\<forall>ib \<in> set ibs. unat (fst ib) < 2 ^ 31"
    and "fold (\<lambda>ib se. if P ib then retire_block reason emit (fst ib) (snd ib) se else se) ibs (st, es) = (st', es')"
  shows "\<exists>es1. es' = es @ es1 \<and> ordered_part st st' es1 \<and> om_keys (ra_blocks st') \<subseteq> om_keys (ra_blocks st)
    \<and> (\<forall>n. next_frame st \<le> n \<and> (\<forall>ib \<in> set ibs. P ib \<longrightarrow> unat (fst ib) < n) \<longrightarrow> next_frame st' \<le> n)"
  using assms
proof (induction ibs arbitrary: st es)
  case Nil
  then show ?case
    by (simp add: ordered_part_refl)
next
  case (Cons ib ibs)
  show ?case
  proof (cases "P ib")
    case False
    then show ?thesis
      using Cons.IH [OF Cons.prems(1), of es] Cons.prems(2,3) by auto
  next
    case True
    obtain st1 es1 where r: "retire_block reason emit (fst ib) (snd ib) (st, es) = (st1, es1)"
      by fastforce
    obtain fs where fs: "es1 = es @ fs" "ordered_part st st1 fs" "om_keys (ra_blocks st1) \<subseteq> om_keys (ra_blocks st)"
        "next_frame st1 \<le> max (next_frame st) (unat (fst ib) + 1)"
      using retire_block_part [OF Cons.prems(1) _ r] Cons.prems(2) by auto
    have "ra_ok st1"
      using fs(2) by (simp add: ordered_part_def)
    then obtain gs where gs: "es' = es1 @ gs" "ordered_part st1 st' gs" "om_keys (ra_blocks st') \<subseteq> om_keys (ra_blocks st1)"
        "\<forall>n. next_frame st1 \<le> n \<and> (\<forall>ib \<in> set ibs. P ib \<longrightarrow> unat (fst ib) < n) \<longrightarrow> next_frame st' \<le> n"
      using Cons.IH [of st1 es1] Cons.prems(2,3) r True by auto
    have bound: "next_frame st' \<le> n" if "next_frame st \<le> n" "\<forall>jb \<in> set (ib # ibs). P jb \<longrightarrow> unat (fst jb) < n" for n
      using gs(4) fs(4) that True by auto
    show ?thesis
      using fs gs ordered_part_trans [OF fs(2) gs(2)] bound by (intro exI [of _ "fs @ gs"]) auto
  qed
qed

lemma try_complete_shapes:
  assumes "try_complete i b emit st = (done, st', es)"
  shows "es = [] \<and> order_view st' = order_view st \<and> ra_blocks st' = ra_blocks st
    \<or> es = [] \<and> st' = ra_finalize i (bump_malformed st)
    \<or> (\<exists>frame g. emit_complete i b frame emit g st = (done, st', es))"
proof -
  have stats: "order_view (upd_stats g st) = order_view st \<and> ra_blocks (upd_stats g st) = ra_blocks st" for g
    by (simp add: order_view_def)
  let ?k = "unat (bl_k b)" and ?cap = "unat (rc_max_frame_bytes (ra_cfg st))" and ?chunks = "map snd (bl_sources b)"
  consider (none) "bl_k b = 0" | (all) "bl_k b \<noteq> 0" "length (bl_sources b) = ?k" | (some) "bl_k b \<noteq> 0" "length (bl_sources b) \<noteq> ?k"
    by blast
  then show ?thesis
  proof cases
    case none
    then show ?thesis
      using assms by (simp add: try_complete_def)
  next
    case all
    show ?thesis
    proof (cases "\<not> chunks_fit ?cap 0 ?chunks \<or> length (concat ?chunks) < kVencFrameMetaSize")
      case True
      then show ?thesis
        using assms unfolding try_complete_def Let_def if_not_P [OF all(1)] if_P [OF all(2)] if_P [OF True] by simp
    next
      case False
      then show ?thesis
        using assms unfolding try_complete_def Let_def if_not_P [OF all(1)] if_P [OF all(2)] if_not_P [OF False] by blast
    qed
  next
    case some
    let ?enough = "?k \<le> unat (of_nat (length (bl_sources b) + length (bl_repairs b)) :: u16)
              \<and> 0 < bl_s b \<and> 0 < bl_frame_len b \<and> unat (bl_frame_len b) \<le> ?cap"
    show ?thesis
    proof (cases "?enough \<and> can_decode (fill_decoder b)")
      case False
      then have "(done, st', es) = (False, st, [])"
        using assms unfolding try_complete_def Let_def if_not_P [OF some(1)] if_not_P [OF some(2)] by (auto split: if_splits)
      then show ?thesis
        by simp
    next
      case True
      show ?thesis
      proof (cases "rlc_decode (fill_decoder b)")
        case None
        then show ?thesis
          using assms stats True unfolding try_complete_def Let_def if_not_P [OF some(1)] if_not_P [OF some(2)]
            if_P [OF conjunct1 [OF True]] if_P [OF conjunct2 [OF True]] None option.case by auto
      next
        case (Some out)
        then show ?thesis
          using assms unfolding try_complete_def Let_def if_not_P [OF some(1)] if_not_P [OF some(2)]
            if_P [OF conjunct1 [OF True]] if_P [OF conjunct2 [OF True]] Some option.case by blast
      qed
    qed
  qed
qed

lemma emit_complete_view:
  assumes "emit_complete i b frame emit g st = (d, st', es)"
  shows "es = [(i, frame, emit frame)]" "ra_blocks st' = ra_blocks st" "order_view st' = order_view (settle (emit frame) i st)"
proof -
  have "order_view (ra_finalize i (if emit frame then upd_stats g (note_emitted i (observe_shadow i b st))
      else upd_stats h (observe_shadow i b st))) = order_view (settle (emit frame) i st)" for h
    unfolding settle_def by (rule finalize_view(1)) (simp add: order_view_def note_emitted_def)
  then show "order_view st' = order_view (settle (emit frame) i st)"
    using assms unfolding emit_complete_def Let_def by blast
  show "es = [(i, frame, emit frame)]" "ra_blocks st' = ra_blocks st"
    using assms by (auto simp: emit_complete_def Let_def finalize_view(2))
qed

lemma try_complete_part:
  assumes "ra_ok st" and "unat i < 2 ^ 31" and "next_frame st \<le> unat i" and "try_complete i b emit st = (done, st', es)"
  shows "ordered_part st st' es" "om_keys (ra_blocks st') = om_keys (ra_blocks st)"
proof -
  have fin: "order_view (ra_finalize i (bump_malformed st)) = order_view (settle False i st)"
    by (simp add: settle_def bump_malformed_def order_view_def ra_finalize_def)
  have "ra_blocks st' = ra_blocks st \<and> (\<exists>emitted. one_attempt st emitted i es
      \<and> (order_view st' = order_view (settle emitted i st) \<or> es = [] \<and> order_view st' = order_view st))"
    using try_complete_shapes [OF assms(4)]
  proof (elim disjE conjE exE)
    fix frame g assume "emit_complete i b frame emit g st = (done, st', es)"
    note v = emit_complete_view [OF this]
    then show ?thesis
      using assms(3) by (intro conjI exI [of _ "emit frame"]) (auto simp: one_attempt_def)
  next
    assume "es = []" "st' = ra_finalize i (bump_malformed st)"
    then show ?thesis
      using fin by (intro conjI exI [of _ False]) (simp_all add: finalize_view(2) bump_malformed_def)
  qed (auto intro!: exI [of _ False])
  then obtain emitted where bl: "ra_blocks st' = ra_blocks st" and att: "one_attempt st emitted i es"
      and view: "order_view st' = order_view (settle emitted i st) \<or> es = [] \<and> order_view st' = order_view st"
    by blast
  show "om_keys (ra_blocks st') = om_keys (ra_blocks st)"
    using bl by simp
  have blocks: "ra_blocks (settle emitted i st) = ra_blocks st"
    by (simp add: settle_def finalize_view(2))
  from view show "ordered_part st st' es"
  proof
    assume v: "order_view st' = order_view (settle emitted i st)"
    have "ordered_part st (settle emitted i st) es"
      by (rule settle_part [OF assms(1,2) att])
    then show ?thesis
      using ordered_part_cong [OF v] bl blocks by simp
  next
    assume v: "es = [] \<and> order_view st' = order_view st"
    then show ?thesis
      using ra_ok_cong [OF conjunct2 [OF v]] assms(1) bl by (simp add: ordered_part_def)
  qed
qed

section \<open>Operations\<close>

lemma ra_ok_blocks:
  assumes "ra_ok st" and "\<forall>i \<in> om_keys bs. unat i < 2 ^ 31"
  shows "ra_ok (st\<lparr>ra_blocks := bs\<rparr>)" "next_frame (st\<lparr>ra_blocks := bs\<rparr>) = next_frame st"
  using assms by (simp_all add: ra_ok_def next_frame_def)

lemma supersede_part:
  assumes "ra_ok st" and "unat i < 2 ^ 31" and "next_frame st \<le> unat i" and "supersede i emit st = (st', es)"
  shows "ordered_part st st' es" "next_frame st' \<le> unat i" "om_keys (ra_blocks st') \<subseteq> om_keys (ra_blocks st)"
proof -
  note d = ra_okD [OF assms(1)]
  let ?P = "\<lambda>ib. sint (rc_max_blocks_ahead (ra_cfg st)) < bid_diff i (fst ib)"
  have ids: "\<forall>ib \<in> set (ra_blocks st). unat (fst ib) < 2 ^ 31"
    using d(3) by auto
  obtain es1 where r: "es = [] @ es1" "ordered_part st st' es1" "om_keys (ra_blocks st') \<subseteq> om_keys (ra_blocks st)"
      "\<forall>n. next_frame st \<le> n \<and> (\<forall>ib \<in> set (ra_blocks st). ?P ib \<longrightarrow> unat (fst ib) < n) \<longrightarrow> next_frame st' \<le> n"
    using fold_retire_part [OF assms(1) ids assms(4) [unfolded supersede_def]] by blast
  have "unat (fst ib) < unat i" if "ib \<in> set (ra_blocks st)" "?P ib" for ib
  proof -
    have "0 < bid_diff i (fst ib)"
      using that(2) d(2) by linarith
    then show ?thesis
      using bid_diff_order(1) [OF assms(2), of "fst ib"] ids that(1) by blast
  qed
  then show "next_frame st' \<le> unat i"
    using r(4) assms(3) by blast
  show "ordered_part st st' es" "om_keys (ra_blocks st') \<subseteq> om_keys (ra_blocks st)"
    using r by simp_all
qed

lemma tick_part:
  assumes "ra_ok st" and "ra_tick now_ms emit st = (st', es)"
  shows "ordered_part st st' es"
proof -
  have ids: "\<forall>ib \<in> set (ra_blocks st). unat (fst ib) < 2 ^ 31"
    using ra_okD(3) [OF assms(1)] by auto
  show ?thesis
    using fold_retire_part [OF assms(1) ids assms(2) [unfolded ra_tick_def]] by auto
qed

lemma push_part:
  assumes "ra_ok st" and "unat i < 2 ^ 31" and "ra_push st i flags payload now_ms emit air = (r, st', es)"
  shows "ordered_part st st' es"
proof (cases "ra_have_finalized st \<and> bid_diff i (ra_finalized_upto st) \<le> 0")
  case True
  then show ?thesis
    using assms(1,3) by (simp add: ra_push_def ordered_part_refl)
next
  case False
  note d = ra_okD [OF assms(1)]
  have fresh: "(ra_have_finalized st \<and> bid_diff i (ra_finalized_upto st) \<le> 0) = False"
    using False by simp
  have nx: "next_frame st \<le> unat i"
    using False bid_diff_order(2) [OF assms(2) d(4)] d(5,6) by (force simp: next_frame_def)
  define b where "b = (case map_of (ra_blocks st) i of Some b \<Rightarrow> b | None \<Rightarrow> empty_block\<lparr>bl_first_ms := now_ms\<rparr>)"
  obtain ok b1 where taken: "(if has_flag flags kFecRepair
        then take_repair (unat (rc_max_frame_bytes (ra_cfg st))) payload (has_flag flags kEndOfBlock) now_ms air b
        else take_source (unat (rc_max_frame_bytes (ra_cfg st))) payload (has_flag flags kEndOfBlock) now_ms air b) = (ok, b1)"
    by fastforce
  define st1 where "st1 = st\<lparr>ra_blocks := om_update i b1 (ra_blocks st)\<rparr>"
  have st1: "ra_ok st1" "next_frame st1 = next_frame st"
    unfolding st1_def using d(3) assms(2) by (intro ra_ok_blocks [OF assms(1)]; simp add: fst_set_update)+
  show ?thesis
  proof (cases ok)
    case ok: False
    have "ra_push st i flags payload now_ms emit air = (False, bump_malformed st1, [])"
      unfolding ra_push_def Let_def fresh if_False b_def [symmetric] taken prod.case st1_def [symmetric] using ok by simp
    moreover have "ordered_part st (bump_malformed st1) []"
      using st1 ra_ok_cong [of "bump_malformed st1" st1]
      by (auto simp: ordered_part_def bump_malformed_def order_view_def)
    ultimately show ?thesis
      using assms(3) by simp
  next
    case True
    then have taken': "(if has_flag flags kFecRepair
        then take_repair (unat (rc_max_frame_bytes (ra_cfg st))) payload (has_flag flags kEndOfBlock) now_ms air b
        else take_source (unat (rc_max_frame_bytes (ra_cfg st))) payload (has_flag flags kEndOfBlock) now_ms air b) = (True, b1)"
      using taken by simp
    obtain st2 es2 where window: "(if \<not> ra_have_highest st1 \<or> 0 < bid_diff i (ra_highest_block st1)
        then supersede i emit (st1\<lparr>ra_highest_block := i, ra_have_highest := True\<rparr>) else (st1, [])) = (st2, es2)"
      by fastforce
    have p2: "ordered_part st st2 es2" "next_frame st2 \<le> unat i"
    proof -
      let ?h = "st1\<lparr>ra_highest_block := i, ra_have_highest := True\<rparr>"
      have h: "ra_ok ?h" "next_frame ?h = next_frame st"
        using st1 ra_ok_cong [of ?h st1] by (simp_all add: order_view_def)
      have "ordered_part st st2 es2 \<and> next_frame st2 \<le> unat i"
        using window supersede_part [OF h(1) assms(2)] h(2) nx ordered_part_refl [OF st1(1)] st1(2)
        by (auto simp: ordered_part_def split: if_splits)
      then show "ordered_part st st2 es2" "next_frame st2 \<le> unat i"
        by simp_all
    qed
    have ok2: "ra_ok st2"
      using p2(1) by (simp add: ordered_part_def)
    show ?thesis
    proof (cases "map_of (ra_blocks st2) i")
      case None
      have "ra_push st i flags payload now_ms emit air = (es2 \<noteq> [], st2, es2)"
        unfolding ra_push_def Let_def fresh if_False b_def [symmetric] taken' prod.case st1_def [symmetric] window None
          option.case not_True_eq_False by (rule refl)
      then show ?thesis
        using assms(3) p2(1) by simp
    next
      case (Some b2)
      define st3 where "st3 = st2\<lparr>ra_blocks := om_update i (arm_shadow st2 b2) (ra_blocks st2)\<rparr>"
      have st3: "ra_ok st3" "next_frame st3 = next_frame st2"
        unfolding st3_def using ra_okD(3) [OF ok2] assms(2) by (intro ra_ok_blocks [OF ok2]; simp add: fst_set_update)+
      obtain dn st4 es4 where tc: "try_complete i (arm_shadow st2 b2) emit st3 = (dn, st4, es4)"
        by (cases "try_complete i (arm_shadow st2 b2) emit st3")
      have p4: "ordered_part st3 st4 es4"
        using try_complete_part(1) [OF st3(1) assms(2) _ tc] st3(2) p2(2) by simp
      let ?st5 = "if dn then st4\<lparr>ra_blocks := om_erase i (ra_blocks st4)\<rparr> else st4"
      have "ordered_part st3 ?st5 es4"
        by (rule ordered_part_cong [OF _ _ p4]) (auto simp: order_view_def om_erase_def)
      then have p5: "ordered_part st2 ?st5 es4"
        using st3(2) by (simp add: ordered_part_def)
      have "ra_push st i flags payload now_ms emit air = (es2 @ es4 \<noteq> [], ?st5, es2 @ es4)"
        using push_taken [OF fresh b_def taken' st1_def window Some refl tc [unfolded st3_def]] .
      then show ?thesis
        using assms(3) ordered_part_trans [OF p2(1) p5] by simp
    qed
  qed
qed

datatype ra_event =
    RaPush "31 word" u8 bytes u64 egress bool
  | RaTick u64 egress
  | RaResetStats
  | RaResetStream

text \<open>A step and everything it hands to the egress, with the answer of the egress.\<close>

fun ra_step :: "ra_event \<Rightarrow> FrameReassembler \<Rightarrow> FrameReassembler \<times> emission list" where
  "ra_step (RaPush i flags payload now_ms emit air) st =
     (case ra_push st (bid i) flags payload now_ms emit air of (_, st', es) \<Rightarrow> (st', es))"
| "ra_step (RaTick now_ms emit) st = ra_tick now_ms emit st"
| "ra_step RaResetStats st = (ra_reset_stats st, [])"
| "ra_step RaResetStream st = (ra_reset_stream st, [])"

definition ra_accepting :: "ra_event \<Rightarrow> FrameReassembler \<Rightarrow> FrameReassembler \<times> emission list" where
  "ra_accepting ev st = (fst (ra_step ev st), accepted (snd (ra_step ev st)))"

definition restarts :: "ra_event \<Rightarrow> FrameReassembler \<Rightarrow> bool" where
  "restarts ev st \<longleftrightarrow> ev = RaResetStream"

lemma ra_step_part:
  assumes "ra_ok st" and "\<not> restarts ev st"
  shows "ordered_part st (fst (ra_step ev st)) (snd (ra_step ev st))"
proof (cases ev)
  case (RaPush i flags payload now_ms emit air)
  obtain r st' es where "ra_push st (bid i) flags payload now_ms emit air = (r, st', es)"
    by (cases "ra_push st (bid i) flags payload now_ms emit air")
  then show ?thesis
    using push_part [OF assms(1) bid_less] RaPush by simp
next
  case (RaTick now_ms emit)
  then show ?thesis
    using tick_part [OF assms(1)] by simp
next
  case RaResetStats
  have "ordered_part st (ra_reset_stats st) []"
    using assms(1) by (intro ordered_part_cong [OF _ _ ordered_part_refl [OF assms(1)]])
      (simp add: ra_reset_stats_def order_view_def, force simp: ra_reset_stats_def)
  then show ?thesis
    using RaResetStats by simp
qed (use assms in \<open>simp add: restarts_def\<close>)

lemma accepted_sorted:
  "sorted_wrt not_late es \<Longrightarrow> sorted_wrt (<) (map (\<lambda>e. unat (fst e)) (accepted es))"
  by (induction es) (auto simp: accepted_def not_late_def split: if_splits)

lemma reset_ok: "ra_ok st \<Longrightarrow> ra_ok (ra_reset_stream st)"
  by (simp add: ra_ok_def ra_reset_stream_def)

interpretation reassembly: in_order_delivery ra_accepting ra_ok next_frame "\<lambda>e. unat (fst e)" restarts
proof
  fix st ev assume ok: "ra_ok st"
  show "ra_ok (fst (ra_accepting ev st))"
    using ra_step_part [OF ok, of ev] reset_ok [OF ok]
    by (cases "restarts ev st") (auto simp: ordered_part_def ra_accepting_def restarts_def)
  show "sorted_wrt (<) (map (\<lambda>e. unat (fst e)) (snd (ra_accepting ev st)))"
    using ra_step_part [OF ok, of ev]
    by (cases "restarts ev st")
      (simp_all add: ordered_part_def ra_accepting_def accepted_sorted, simp add: restarts_def accepted_def)
next
  fix st ev d assume "ra_ok st" and "\<not> restarts ev st"
  then have part: "ordered_part st (fst (ra_step ev st)) (snd (ra_step ev st))"
    by (rule ra_step_part)
  show "next_frame st \<le> next_frame (fst (ra_accepting ev st))"
    using part by (simp add: ordered_part_def ra_accepting_def)
  show "next_frame st \<le> unat (fst d) \<and> unat (fst d) < next_frame (fst (ra_accepting ev st))"
    if "d \<in> set (snd (ra_accepting ev st))"
    using part that by (auto simp: ordered_part_def ra_accepting_def accepted_def)
qed

text \<open>A whole run hands over in order, and its accepted frames are those of the accepting run.\<close>

lemma run_part:
  "ra_ok st \<Longrightarrow> steady ra_step restarts evs st \<Longrightarrow>
   ordered_part st (fst (run_steps ra_step evs st)) (snd (run_steps ra_step evs st))"
proof (induction evs arbitrary: st)
  case (Cons ev evs)
  have part: "ordered_part st (fst (ra_step ev st)) (snd (ra_step ev st))"
    using Cons.prems by (intro ra_step_part) simp_all
  then have "ra_ok (fst (ra_step ev st))"
    by (simp add: ordered_part_def)
  then show ?case
    using ordered_part_trans [OF part Cons.IH] Cons.prems(2) by (simp only: run_steps_Cons steady.simps)
qed (simp add: ordered_part_refl)

lemma accepting_run:
  "accepted (snd (run_steps ra_step evs st)) = snd (run_steps ra_accepting evs st)"
  "steady ra_accepting restarts evs st = steady ra_step restarts evs st"
proof (induction evs arbitrary: st)
  case (Cons ev evs)
  have s: "fst (ra_accepting ev s) = fst (ra_step ev s)"
    "snd (ra_accepting ev s) = accepted (snd (ra_step ev s))" for s
    by (simp_all add: ra_accepting_def)
  case 1
  show ?case
    using Cons.IH(1) [of "fst (ra_step ev st)"] by (simp only: run_steps_Cons s) (simp add: accepted_def)
  case 2
  show ?case
    using Cons.IH(2) [of "fst (ra_step ev st)"] by (simp add: s)
qed (simp_all add: accepted_def)

lemma new_reassembler_ok:
  "(\<forall>h. hook = Some h \<longrightarrow> hook_ok h) \<Longrightarrow> 0 \<le> sint (rc_max_blocks_ahead cfg) \<Longrightarrow> ra_ok (new_reassembler cfg hook)"
  by (simp add: ra_ok_def new_reassembler_def)

text \<open>C22: Whatever symbols (of blocks below 2^31), ticks and counter resets a FrameReassembler sees
  until a stream reset: once the egress has accepted a frame, no frame of that block or an
  earlier one is handed to it again; so the frames the egress accepts leave in strictly
  ascending block order, each block at most once (a frame it refused may be followed by an
  earlier block). The configuration has a max_blocks_ahead that is not negative, and the salvage
  hook keeps its contract: it emits at most one frame and returns true exactly when it did; a
  new reassembler with these is in the state assumed.\<close>

theorem frames_leave_in_order_once:
  assumes "ra_ok st" and "steady ra_step restarts evs st"
  shows "sorted_wrt not_late (snd (run_steps ra_step evs st))
    \<and> sorted_wrt (<) (map (\<lambda>e. unat (fst e)) (accepted (snd (run_steps ra_step evs st))))
    \<and> distinct (map (\<lambda>e. unat (fst e)) (accepted (snd (run_steps ra_step evs st))))"
proof -
  have "steady ra_accepting restarts evs st"
    using assms(2) by (simp add: accepting_run(2))
  then show ?thesis
    using run_part [OF assms] reassembly.run_sorted [OF assms(1)] reassembly.run_distinct [OF assms(1)]
    unfolding accepting_run(1) ordered_part_def by blast
qed

section \<open>A malformed symbol\<close>

text \<open>A fresh reassembler that has seen one symbol too short to carry its header, and ticked at the
  deadline.\<close>

definition after_malformed ::
    "FrameReassemblerConfig \<Rightarrow> salvage_hook option \<Rightarrow> u32 \<Rightarrow> u8 \<Rightarrow> bytes \<Rightarrow> u64 \<Rightarrow> egress \<Rightarrow> FrameReassembler" where
  "after_malformed cfg hook i flags payload now_ms emit =
     fst (ra_tick (now_ms + ucast (rc_deadline_ms cfg)) emit
            (fst (snd (ra_push (new_reassembler cfg hook) i flags payload now_ms emit True))))"

lemma malformed_push:
  assumes "length payload < kFecSourceSubheaderSize"
  shows "ra_push (new_reassembler cfg hook) i flags payload now_ms emit True =
    (False, bump_malformed ((new_reassembler cfg hook)\<lparr>ra_blocks := [(i, empty_block\<lparr>bl_first_ms := now_ms\<rparr>)]\<rparr>), [])"
proof -
  let ?b = "empty_block\<lparr>bl_first_ms := now_ms\<rparr>"
  have taken: "(if has_flag flags kFecRepair then take_repair cap payload eob now_ms air ?b
      else take_source cap payload eob now_ms air ?b) = (False, ?b)" for cap eob air
    using assms by (simp add: take_repair_def take_source_def)
  have st: "ra_have_finalized (new_reassembler cfg hook) = False" "ra_blocks (new_reassembler cfg hook) = []"
    by (simp_all add: new_reassembler_def)
  show ?thesis
    unfolding ra_push_def Let_def st simp_thms if_False map_of.simps option.case taken prod.case by simp
qed

lemma after_malformed_finalized:
  assumes "length payload < kFecSourceSubheaderSize"
  shows "ra_have_finalized (after_malformed cfg hook i flags payload now_ms emit)"
    "ra_finalized_upto (after_malformed cfg hook i flags payload now_ms emit) = i"
  unfolding after_malformed_def malformed_push [OF assms]
  by (simp_all add: bump_malformed_def new_reassembler_def ra_tick_def retire_block_def try_salvage_def empty_block_def
      ra_finalize_def observe_shadow_def Let_def split: option.splits)

text \<open>A truncated source symbol that opens a block poisons the reassembler: the block stays
  without geometry, the deadline tick finalizes it, and from then on every symbol of a block up
  to that id is dropped.\<close>

theorem malformed_symbol_discards_blocks:
  assumes "length payload < kFecSourceSubheaderSize" and "bid_diff j i \<le> 0"
  shows "ra_push (after_malformed cfg hook i flags payload now_ms emit) j flags' payload' now' emit' air'
    = (False, after_malformed cfg hook i flags payload now_ms emit, [])"
  using assms(2) after_malformed_finalized [OF assms(1)] by (simp add: ra_push_def)

section \<open>Examples\<close>

definition ra_demo_cfg :: FrameReassemblerConfig where
  "ra_demo_cfg = \<lparr>rc_deadline_ms = 50, rc_max_blocks_ahead = 4, rc_max_frame_bytes = 100000\<rparr>"

text \<open>A frame of one source symbol.\<close>

definition ra_demo_symbol :: bytes where
  "ra_demo_symbol = [0, 1, 0, 0] @ replicate 9 7"

definition ra_demo_events :: "ra_event list" where
  "ra_demo_events = [RaPush 5 0 ra_demo_symbol 10 (\<lambda>_. True) True, RaPush 3 0 ra_demo_symbol 11 (\<lambda>_. True) True,
     RaPush 6 0 ra_demo_symbol 12 (\<lambda>_. True) True]"

theorem frames_leave_in_order_once_witness:
  "distinct (map (\<lambda>e. unat (fst e)) (accepted (snd (run_steps ra_step ra_demo_events (new_reassembler ra_demo_cfg None)))))"
proof -
  have "ra_ok (new_reassembler ra_demo_cfg None)"
    by (rule new_reassembler_ok) (simp_all add: ra_demo_cfg_def)
  moreover have "steady ra_step restarts ra_demo_events (new_reassembler ra_demo_cfg None)"
    by (simp add: ra_demo_events_def restarts_def)
  ultimately show ?thesis
    using frames_leave_in_order_once by blast
qed

theorem malformed_symbol_discards_blocks_witness:
  "ra_push (after_malformed ra_demo_cfg None 100 0 [] 10 (\<lambda>_. True)) 99 0 ra_demo_symbol 70 (\<lambda>_. True) True
   = (False, after_malformed ra_demo_cfg None 100 0 [] 10 (\<lambda>_. True), [])"
proof -
  have "bid_diff 99 100 \<le> 0"
    by (simp add: bid_diff_def)
  then show ?thesis
    using malformed_symbol_discards_blocks [of "[]" 99 100] by simp
qed

end
