(* ===== verification/Rx_Engine.thy ===== *)
theory Rx_Engine
  imports Wire Ordered_Map Profile_Table "HOL-Library.Signed_Division"
begin

text \<open>
  core/include/wblink/rx.h and core/src/rx.cpp: the merged receive state machine. The delivery
  callback is modelled by the list of its calls, each with the sequence number of the packet
  (which the callback does not see) in front; the early-delivery callback is a parameter that
  gives the answer of the one call an ingest makes.
\<close>

section \<open>Parameters and state\<close>

record RxPolicy =
  fwd_clamp_pkts :: u32
  fwd_clamp_blocks :: u32
  stall_timeout_ms :: u32
  dwell_ceiling_ms :: u32
  admit_n :: u8
  admit_window_ms :: u32
  idle_teardown_ms :: u32
  clamp_resync_ms :: u32
  default_deadline_iframe_ms :: u16
  default_deadline_pframe_ms :: u16
  discovery_cache_cap :: nat

record WantSpec =
  ws_local_stream_id :: u8
  ws_stream_type :: u8
  ws_originator :: "u16 option"

record RxStreamCounters =
  ct_uniq :: u64
  ct_diversity :: u64
  ct_delivered :: u64
  ct_lost_declared :: u64
  ct_dropped_superseded :: u64
  ct_dropped_deadline :: u64
  ct_dropped_unrecoverable :: u64
  ct_clamp_rejected :: u64
  ct_resyncs :: u64
  ct_table_mismatch :: u64
  ct_prediv_expected :: u64
  ct_prediv_lost :: u64
  ct_highest_seq :: u32

record Held =
  hl_payload :: bytes
  hl_block_id :: u32
  hl_flags :: u8
  hl_delivered_early :: bool

record BlockInfo =
  bi_first_seen_ms :: u64
  bi_deadline_ms :: u64

record Gap =
  gp_first_missing_ms :: u64
  gp_declared_lost :: bool
  gp_superseded :: bool
  gp_fec_satisfied :: bool

record AdapterSeq =
  as_have :: bool
  as_highest :: u32
  as_expected :: u64
  as_received :: u64
  as_missing :: "u32 oset"

record Stream =
  st_key :: StreamKey
  st_local_stream_id :: u8
  st_stream_type :: u8
  st_best_effort :: bool
  st_active_profile :: u8
  st_peer_table_version :: u8
  st_cursor :: u32
  st_max_seq :: u32
  st_max_block :: u32
  st_last_delivered_block :: u32
  st_last_activity_ms :: u64
  st_first_clamp_ms :: u64
  st_held :: "(u32, Held) omap"
  st_blocks :: "(u32, BlockInfo) omap"
  st_gaps :: "(u32, Gap) omap"
  st_completed_blocks :: "u32 oset"
  st_adapter_last_seq :: "(u8, u32) omap"
  st_adapter_seq :: "(u8, AdapterSeq) omap"
  st_counters :: RxStreamCounters

record Adapter =
  ad_last_seq :: u32
  ad_last_rx_ms :: u64
  ad_rx :: u64
  ad_rssi_last :: int
  ad_rssi_ewma_q4 :: int
  ad_have_rssi :: bool

record RxAdapterCounters =
  ac_rx :: u64
  ac_stalled :: bool
  ac_last_rx_ms :: u64
  ac_rssi_last :: int
  ac_rssi_ewma :: int
  ac_have_rssi :: bool

record AdapterLoss =
  al_adapter_id :: u8
  al_expected :: u64
  al_lost :: u64

record RxStreamInfo =
  si_key :: StreamKey
  si_local_stream_id :: u8
  si_stream_type :: u8
  si_best_effort :: bool
  si_active_profile :: u8
  si_peer_table_version :: u8
  si_per_adapter :: "AdapterLoss list"
  si_counters :: RxStreamCounters

record Candidate =
  cd_count :: u8
  cd_first_ms :: u64
  cd_last_ms :: u64
  cd_stream_type :: u8
  cd_stream_id :: u8

record RxEngine =
  rx_policy :: RxPolicy
  rx_wants :: "WantSpec list"
  rx_table :: "ProfileTable option"
  rx_local_table_version :: "u8 option"
  rx_streams :: "(u64, Stream) omap"
  rx_adapters :: "(u8, Adapter) omap"
  rx_discovery :: "(u64, Candidate) omap"

type_synonym delivery = "u32 \<times> u8 \<times> u32 \<times> u8 \<times> bytes"

text \<open>The answer of the early-delivery callback: handled, block complete.\<close>

type_synonym early_deliver = "(StreamKey \<Rightarrow> u8 \<Rightarrow> u32 \<Rightarrow> u8 \<Rightarrow> bytes \<Rightarrow> bool \<times> bool) option"

definition zero_rx_counters :: RxStreamCounters where
  "zero_rx_counters = \<lparr>ct_uniq = 0, ct_diversity = 0, ct_delivered = 0, ct_lost_declared = 0,
     ct_dropped_superseded = 0, ct_dropped_deadline = 0, ct_dropped_unrecoverable = 0,
     ct_clamp_rejected = 0, ct_resyncs = 0, ct_table_mismatch = 0, ct_prediv_expected = 0,
     ct_prediv_lost = 0, ct_highest_seq = 0\<rparr>"

definition new_rx :: "RxPolicy \<Rightarrow> WantSpec list \<Rightarrow> ProfileTable option \<Rightarrow> u8 option \<Rightarrow> RxEngine" where
  "new_rx policy wants table ver = \<lparr>rx_policy = policy, rx_wants = wants, rx_table = table,
     rx_local_table_version = ver, rx_streams = [], rx_adapters = [], rx_discovery = []\<rparr>"

definition pack_key :: "StreamKey \<Rightarrow> u64" where
  "pack_key k = push_bit 40 (ucast (sk_originator k)) OR push_bit 8 (ucast (sk_session_id k))
     OR ucast (sk_stream_id k)"

definition key_of :: "data_header \<Rightarrow> StreamKey" where
  "key_of h = \<lparr>sk_originator = originator (dh_prefix h), sk_session_id = session_id (dh_prefix h),
     sk_stream_id = stream_id h\<rparr>"

abbreviation upd_counters :: "(RxStreamCounters \<Rightarrow> RxStreamCounters) \<Rightarrow> Stream \<Rightarrow> Stream" where
  "upd_counters g s \<equiv> s\<lparr>st_counters := g (st_counters s)\<rparr>"

section \<open>Adapters and deadlines\<close>

definition quiet :: "RxPolicy \<Rightarrow> Adapter \<Rightarrow> u64 \<Rightarrow> bool" where
  "quiet pol a now_ms \<longleftrightarrow> ucast (stall_timeout_ms pol) < now_ms - ad_last_rx_ms a"

definition adapter_stalled :: "RxEngine \<Rightarrow> u8 \<Rightarrow> Adapter \<Rightarrow> u64 \<Rightarrow> bool" where
  "adapter_stalled e i a now_ms =
     (if \<not> quiet (rx_policy e) a now_ms then False
      else list_ex (\<lambda>(j, sib). j \<noteq> i \<and> \<not> quiet (rx_policy e) sib now_ms) (rx_adapters e))"

definition min_live_adapter_seq :: "RxEngine \<Rightarrow> Stream \<Rightarrow> u64 \<Rightarrow> u32 option" where
  "min_live_adapter_seq e s now_ms =
     fold (\<lambda>(i, last_seq) min_seq.
       case map_of (rx_adapters e) i of
         None \<Rightarrow> min_seq
       | Some a \<Rightarrow>
           if adapter_stalled e i a now_ms then min_seq
           else case min_seq of
                  None \<Rightarrow> Some last_seq
                | Some m \<Rightarrow> if last_seq < m then Some last_seq else Some m)
       (st_adapter_last_seq s) None"

definition profile_budget :: "RxEngine \<Rightarrow> u8 \<Rightarrow> u16" where
  "profile_budget e profile =
     (let default_budget = min (default_deadline_iframe_ms (rx_policy e)) (default_deadline_pframe_ms (rx_policy e))
      in case rx_table e of
           None \<Rightarrow> default_budget
         | Some t \<Rightarrow>
             (case find (\<lambda>p. pf_id p = profile) (pt_profiles t) of
                None \<Rightarrow> default_budget
              | Some p \<Rightarrow> min (pf_arq_deadline_iframe_ms p) (pf_arq_deadline_pframe_ms p)))"

definition block_deadline :: "RxEngine \<Rightarrow> Stream \<Rightarrow> u64 \<Rightarrow> u64" where
  "block_deadline e s first_seen_ms = first_seen_ms + ucast (profile_budget e (st_active_profile s))"

section \<open>Admission\<close>

text \<open>The first want that the packet may satisfy, with the stream it replaces.\<close>

fun find_want :: "(u64, Stream) omap \<Rightarrow> data_header \<Rightarrow> WantSpec list \<Rightarrow> (WantSpec \<times> u64 option) option" where
  "find_want streams h [] = None"
| "find_want streams h (w # ws) =
     (if ws_stream_type w \<noteq> stream_type h then find_want streams h ws
      else if ws_originator w \<noteq> None \<and> ws_originator w \<noteq> Some (originator (dh_prefix h))
      then find_want streams h ws
      else case find (\<lambda>(key, s). st_local_stream_id s = ws_local_stream_id w) streams of
             None \<Rightarrow> Some (w, None)
           | Some (key, s) \<Rightarrow>
               if sk_originator (st_key s) = originator (dh_prefix h)
                  \<and> sk_session_id (st_key s) \<noteq> session_id (dh_prefix h)
               then Some (w, Some key)
               else find_want streams h ws)"

definition touch_candidate :: "RxPolicy \<Rightarrow> data_header \<Rightarrow> u64 \<Rightarrow> Candidate option \<Rightarrow> Candidate" where
  "touch_candidate pol h now_ms c =
     (let c0 = (case c of
                  Some c \<Rightarrow> if cd_count c = 0 \<or> ucast (admit_window_ms pol) < now_ms - cd_first_ms c
                            then \<lparr>cd_count = 0, cd_first_ms = now_ms, cd_last_ms = 0,
                                  cd_stream_type = 0, cd_stream_id = 0\<rparr> else c
                | None \<Rightarrow> \<lparr>cd_count = 0, cd_first_ms = now_ms, cd_last_ms = 0,
                            cd_stream_type = 0, cd_stream_id = 0\<rparr>)
      in c0\<lparr>cd_count := cd_count c0 + 1, cd_last_ms := now_ms, cd_stream_type := stream_type h,
            cd_stream_id := stream_id h\<rparr>)"

text \<open>The least recently touched candidate other than \<open>key\<close>, the first one on a tie.\<close>

definition oldest_other :: "u64 \<Rightarrow> (u64, Candidate) omap \<Rightarrow> (u64 \<times> Candidate) option" where
  "oldest_other key ds =
     fold (\<lambda>(k, c) oldest.
       if k = key then oldest
       else case oldest of
              None \<Rightarrow> Some (k, c)
            | Some (k', c') \<Rightarrow> if cd_last_ms c < cd_last_ms c' then Some (k, c) else oldest)
       ds None"

lemma oldest_other_mem:
  assumes "oldest_other key ds = Some (k, c)"
  shows "(k, c) \<in> set ds \<and> k \<noteq> key"
proof -
  let ?f = "\<lambda>(k, c) oldest. if k = key then oldest else case oldest of
      None \<Rightarrow> Some (k, c) | Some (k', c') \<Rightarrow> if cd_last_ms c < cd_last_ms c' then Some (k, c) else oldest"
  let ?P = "\<lambda>old. case old of None \<Rightarrow> True | Some (k, c) \<Rightarrow> (k, c) \<in> set ds \<and> k \<noteq> key"
  have "?P (fold ?f ds None)"
    by (rule fold_invariant [where Q = "\<lambda>x. x \<in> set ds"]) (auto split: option.splits if_splits)
  then show ?thesis
    using assms by (simp add: oldest_other_def)
qed

function evict :: "nat \<Rightarrow> u64 \<Rightarrow> (u64, Candidate) omap \<Rightarrow> (u64, Candidate) omap" where
  "evict cap key ds =
     (if length ds \<le> cap then ds
      else case oldest_other key ds of
             None \<Rightarrow> ds
           | Some (k, c) \<Rightarrow> evict cap key (om_erase k ds))"
  by pat_completeness auto
termination
proof (relation "measure (\<lambda>(cap, key, ds). length ds)")
  fix cap :: nat and key ds x k c
  assume "oldest_other key ds = Some x" "(k, c) = x"
  then have "(k, c) \<in> set ds"
    using oldest_other_mem by blast
  then have "length (om_erase k ds) < length ds"
    unfolding om_erase_def by (intro length_filter_less [of "(k, c)"]) auto
  then show "((cap, key, om_erase k ds), cap, key, ds) \<in> measure (\<lambda>(cap, key, ds). length ds)"
    by simp
qed simp

declare evict.simps [simp del]

definition latch_stream :: "WantSpec \<Rightarrow> data_header \<Rightarrow> u64 \<Rightarrow> Stream" where
  "latch_stream w h now_ms =
     \<lparr>st_key = key_of h, st_local_stream_id = ws_local_stream_id w, st_stream_type = stream_type h,
      st_best_effort = False, st_active_profile = 0, st_peer_table_version = 0, st_cursor = seq_no h,
      st_max_seq = seq_no h, st_max_block = block_id h, st_last_delivered_block = block_id h,
      st_last_activity_ms = now_ms, st_first_clamp_ms = 0, st_held = [], st_blocks = [], st_gaps = [],
      st_completed_blocks = [], st_adapter_last_seq = [], st_adapter_seq = [],
      st_counters = zero_rx_counters\<rparr>"

definition try_latch :: "RxEngine \<Rightarrow> data_header \<Rightarrow> u64 \<Rightarrow> Stream option \<times> RxEngine" where
  "try_latch e h now_ms =
     (case find_want (rx_streams e) h (rx_wants e) of
        None \<Rightarrow> (None, e)
      | Some (w, replace_key) \<Rightarrow>
          let pol = rx_policy e;
              key = pack_key (key_of h);
              ds = om_update key (touch_candidate pol h now_ms (map_of (rx_discovery e) key)) (rx_discovery e);
              ds1 = evict (discovery_cache_cap pol) key ds
          in if (case map_of ds1 key of None \<Rightarrow> True | Some c \<Rightarrow> cd_count c < admit_n pol)
             then (None, e\<lparr>rx_discovery := ds1\<rparr>)
             else let s = latch_stream w h now_ms;
                      streams = (case replace_key of None \<Rightarrow> rx_streams e | Some k \<Rightarrow> om_erase k (rx_streams e))
                  in (Some s, e\<lparr>rx_discovery := om_erase key ds1, rx_streams := om_emplace key s streams\<rparr>))"

section \<open>Gaps\<close>

definition gap_block :: "Stream \<Rightarrow> u32 \<Rightarrow> u32 option" where
  "gap_block s q =
     (case (om_lower_bound q (st_held s), om_before q (st_held s)) of
        (Some (uq, u), Some (lq, l)) \<Rightarrow>
          if uq = q then Some (hl_block_id u)
          else if hl_block_id u = hl_block_id l then Some (hl_block_id u)
          else if has_flag (hl_flags l) kEndOfBlock then Some (hl_block_id u) else Some (hl_block_id l)
      | (Some (uq, u), None) \<Rightarrow> Some (hl_block_id u)
      | (None, Some (lq, l)) \<Rightarrow> Some (hl_block_id l)
      | (None, None) \<Rightarrow> None)"

definition new_gap :: "Stream \<Rightarrow> u64 \<Rightarrow> u32 \<Rightarrow> Gap" where
  "new_gap s now_ms q = \<lparr>gp_first_missing_ms = now_ms, gp_declared_lost = False, gp_superseded = False,
     gp_fec_satisfied = (case gap_block s q of None \<Rightarrow> False | Some b \<Rightarrow> om_has b (st_completed_blocks s))\<rparr>"

definition note_gaps :: "RxPolicy \<Rightarrow> u64 \<Rightarrow> Stream \<Rightarrow> Stream" where
  "note_gaps pol now_ms s =
     (let span = st_max_seq s - st_cursor s
      in if fwd_clamp_pkts pol < span then s
         else fold (\<lambda>n s. let q = st_cursor s + of_nat n
                in if om_has q (st_held s) \<or> om_has q (st_gaps s) then s
                   else s\<lparr>st_gaps := om_emplace q (new_gap s now_ms q) (st_gaps s)\<rparr>)
                [0..<unat span] s)"

definition mark_frame_complete :: "RxPolicy \<Rightarrow> u32 \<Rightarrow> Stream \<Rightarrow> Stream" where
  "mark_frame_complete pol b s =
     (let done = om_insert b (st_completed_blocks s)
      in s\<lparr>st_completed_blocks := drop (length done - unat (fwd_clamp_blocks pol + 2)) done,
           st_gaps := map (\<lambda>(q, g). (q, if gap_block s q = Some b then g\<lparr>gp_fec_satisfied := True\<rparr> else g))
             (st_gaps s)\<rparr>)"

definition evaluate_gap :: "RxPolicy \<Rightarrow> u32 option \<Rightarrow> u64 \<Rightarrow> u32 \<times> Gap \<Rightarrow> Stream \<Rightarrow> Stream" where
  "evaluate_gap pol min_live now_ms qg s =
     (let (q, g) = qg in
      if gp_fec_satisfied g then s
      else let g1 = (case om_upper_bound q (st_held s) of
                       None \<Rightarrow> g
                     | Some (_, h) \<Rightarrow>
                         if \<not> st_best_effort s \<and> \<not> gp_superseded g \<and> hl_block_id h < st_max_block s
                         then g\<lparr>gp_superseded := True\<rparr> else g);
               declare_lost = (\<not> gp_declared_lost g1 \<and>
                  ((case min_live of None \<Rightarrow> False | Some m \<Rightarrow> q < m)
                   \<or> ucast (dwell_ceiling_ms pol) \<le> now_ms - gp_first_missing_ms g1));
               s1 = s\<lparr>st_gaps := om_update q (if declare_lost then g1\<lparr>gp_declared_lost := True\<rparr> else g1) (st_gaps s)\<rparr>
           in if declare_lost
              then upd_counters (\<lambda>c. c\<lparr>ct_lost_declared := ct_lost_declared c + 1\<rparr>) s1 else s1)"

definition evaluate_gaps :: "RxEngine \<Rightarrow> u64 \<Rightarrow> Stream \<Rightarrow> Stream" where
  "evaluate_gaps e now_ms s =
     (let min_live = min_live_adapter_seq e s now_ms
      in fold (evaluate_gap (rx_policy e) min_live now_ms) (st_gaps s) s)"

section \<open>Delivery\<close>

definition refloor_on_wrap :: "Stream \<Rightarrow> Stream" where
  "refloor_on_wrap s =
     upd_counters (\<lambda>c. c\<lparr>ct_resyncs := ct_resyncs c + 1\<rparr>)
       (s\<lparr>st_max_seq := st_cursor s, st_max_block := st_last_delivered_block s, st_held := [], st_gaps := [],
          st_blocks := [], st_completed_blocks := [], st_adapter_last_seq := [], st_first_clamp_ms := 0\<rparr>)"

text \<open>The verdict on a gap at the cursor: the drop counter it charges, or \<open>None\<close> to wait.\<close>

definition gap_verdict :: "u64 \<Rightarrow> Stream \<Rightarrow> Gap \<Rightarrow> (RxStreamCounters \<Rightarrow> RxStreamCounters) option" where
  "gap_verdict now_ms s g =
     (if gp_fec_satisfied g then Some (\<lambda>c. c)
      else if gp_superseded g
      then Some (\<lambda>c. c\<lparr>ct_dropped_superseded := ct_dropped_superseded c + 1\<rparr>)
      else if \<not> st_best_effort s
      then (case om_upper_bound (st_cursor s) (st_held s) of
              None \<Rightarrow> None
            | Some (_, h) \<Rightarrow>
                (case map_of (st_blocks s) (hl_block_id h) of
                   None \<Rightarrow> None
                 | Some bi \<Rightarrow>
                     if bi_deadline_ms bi \<le> now_ms
                     then Some (\<lambda>c. c\<lparr>ct_dropped_deadline := ct_dropped_deadline c + 1\<rparr>) else None))
      else if gp_declared_lost g
      then Some (\<lambda>c. c\<lparr>ct_dropped_unrecoverable := ct_dropped_unrecoverable c + 1\<rparr>)
      else None)"

definition deliver_held :: "Held \<Rightarrow> Stream \<Rightarrow> Stream \<times> delivery list" where
  "deliver_held h s =
     (let s1 = (if hl_delivered_early h then s
                else upd_counters (\<lambda>c. c\<lparr>ct_delivered := ct_delivered c + 1\<rparr>) s)
      in (s1\<lparr>st_last_delivered_block := hl_block_id h, st_held := om_erase (st_cursor s) (st_held s),
            st_gaps := om_erase (st_cursor s) (st_gaps s), st_cursor := st_cursor s + 1\<rparr>,
          if hl_delivered_early h then []
          else [(st_cursor s, st_local_stream_id s, hl_block_id h, hl_flags h, hl_payload h)]))"

text \<open>One pass of the loop: \<open>None\<close> leaves it.\<close>

definition cursor_step :: "u64 \<Rightarrow> Stream \<Rightarrow> (Stream \<times> delivery list) option" where
  "cursor_step now_ms s =
     (case map_of (st_held s) (st_cursor s) of
        Some h \<Rightarrow> Some (deliver_held h s)
      | None \<Rightarrow>
          (case map_of (st_gaps s) (st_cursor s) of
             None \<Rightarrow> None
           | Some g \<Rightarrow>
               (case gap_verdict now_ms s g of
                  None \<Rightarrow> None
                | Some charge \<Rightarrow>
                    Some (upd_counters charge
                            (s\<lparr>st_gaps := om_erase (st_cursor s) (st_gaps s), st_cursor := st_cursor s + 1\<rparr>), []))))"

definition prune_blocks :: "Stream \<Rightarrow> Stream" where
  "prune_blocks s = s\<lparr>st_blocks := dropWhile (\<lambda>(b, _). b < st_last_delivered_block s) (st_blocks s)\<rparr>"

lemma cursor_step_fields:
  assumes "cursor_step now_ms s = Some (s', ds)"
  shows "st_cursor s' = st_cursor s + 1" "st_max_seq s' = st_max_seq s"
  using assms by (auto simp: cursor_step_def deliver_held_def Let_def split: option.splits)

lemma unat_Suc_word: "(w :: u32) + 1 \<noteq> 0 \<Longrightarrow> unat (w + 1) = unat w + 1"
  by (simp add: unatSuc add.commute)

text \<open>The loop. The blocks are pruned after a delivery, not after a skipped gap.\<close>

function advance_cursor :: "u64 \<Rightarrow> Stream \<Rightarrow> Stream \<times> delivery list" where
  "advance_cursor now_ms s =
     (if st_max_seq s < st_cursor s then (s, [])
      else case cursor_step now_ms s of
             None \<Rightarrow> (s, [])
           | Some (s1, ds) \<Rightarrow>
               if st_cursor s1 = 0 then (refloor_on_wrap s1, ds)
               else let (s2, ds') = advance_cursor now_ms
                          (if om_has (st_cursor s) (st_held s) then prune_blocks s1 else s1)
                    in (s2, ds @ ds'))"
  by pat_completeness auto
termination
proof (relation "measure (\<lambda>(now_ms, s). Suc (unat (st_max_seq s)) - unat (st_cursor s))")
  fix now_ms s and x :: "Stream \<times> delivery list" and s1 ds
  assume le: "\<not> st_max_seq s < st_cursor s" and step: "cursor_step now_ms s = Some x" "(s1, ds) = x"
    and nz: "st_cursor s1 \<noteq> 0"
  then have f: "st_cursor s1 = st_cursor s + 1" "st_max_seq s1 = st_max_seq s"
    using cursor_step_fields by auto
  then have "unat (st_cursor s1) = unat (st_cursor s) + 1"
    using nz unat_Suc_word by simp
  moreover have "unat (st_cursor s) \<le> unat (st_max_seq s)"
    using le by (simp add: word_le_nat_alt not_less)
  ultimately show "((now_ms, if om_has (st_cursor s) (st_held s) then prune_blocks s1 else s1), now_ms, s)
      \<in> measure (\<lambda>(now_ms, s). Suc (unat (st_max_seq s)) - unat (st_cursor s))"
    using f by (auto simp: prune_blocks_def)
qed simp

declare advance_cursor.simps [simp del]

section \<open>Ingest\<close>

definition zero_adapter :: Adapter where
  "zero_adapter = \<lparr>ad_last_seq = 0, ad_last_rx_ms = 0, ad_rx = 0, ad_rssi_last = 0, ad_rssi_ewma_q4 = 0,
     ad_have_rssi = False\<rparr>"

definition hear_adapter :: "u64 \<Rightarrow> int \<Rightarrow> Adapter \<Rightarrow> Adapter" where
  "hear_adapter now_ms rssi a0 =
     (let a = a0\<lparr>ad_last_rx_ms := now_ms, ad_rx := ad_rx a0 + 1\<rparr>
      in if rssi \<noteq> 0
         then let q4 = rssi * 16
              in a\<lparr>ad_rssi_last := rssi,
                   ad_rssi_ewma_q4 := if ad_have_rssi a
                     then ad_rssi_ewma_q4 a + (q4 - ad_rssi_ewma_q4 a) sdiv 4 else q4,
                   ad_have_rssi := True\<rparr>
         else a)"

definition zero_adapter_seq :: AdapterSeq where
  "zero_adapter_seq = \<lparr>as_have = False, as_highest = 0, as_expected = 0, as_received = 0, as_missing = []\<rparr>"

text \<open>\<open>m\<close> from \<open>highest + 1\<close> while below \<open>seq\<close>.\<close>

definition between :: "u32 \<Rightarrow> u32 \<Rightarrow> u32 list" where
  "between lo hi = map of_nat [unat lo + 1..<unat hi]"

definition count_adapter_seq :: "RxPolicy \<Rightarrow> u32 \<Rightarrow> AdapterSeq \<Rightarrow> AdapterSeq" where
  "count_adapter_seq pol q a =
     (if \<not> as_have a
      then a\<lparr>as_have := True, as_highest := q, as_expected := as_expected a + 1, as_received := as_received a + 1\<rparr>
      else if as_highest a < q
      then let delta = q - as_highest a
           in if fwd_clamp_pkts pol < delta
              then a\<lparr>as_highest := q, as_missing := [], as_expected := as_expected a + 1,
                     as_received := as_received a + 1\<rparr>
              else a\<lparr>as_missing := fold om_insert (between (as_highest a) q) (as_missing a),
                     as_expected := as_expected a + ucast delta, as_received := as_received a + 1,
                     as_highest := q\<rparr>
      else if om_has q (as_missing a)
      then a\<lparr>as_missing := om_erase q (as_missing a), as_received := as_received a + 1\<rparr>
      else a)"

definition note_adapter_seq :: "RxPolicy \<Rightarrow> u8 \<Rightarrow> u32 \<Rightarrow> Stream \<Rightarrow> Stream" where
  "note_adapter_seq pol adapter_id q s =
     s\<lparr>st_adapter_seq := om_update adapter_id
         (count_adapter_seq pol q
            (case map_of (st_adapter_seq s) adapter_id of None \<Rightarrow> zero_adapter_seq | Some a \<Rightarrow> a))
         (st_adapter_seq s)\<rparr>"

definition note_header :: "u8 option \<Rightarrow> data_header \<Rightarrow> u64 \<Rightarrow> Stream \<Rightarrow> Stream" where
  "note_header local_version h now_ms s =
     (let s1 = s\<lparr>st_last_activity_ms := now_ms, st_active_profile := active_profile h,
                  st_peer_table_version := table_version h\<rparr>
      in if local_version \<noteq> None \<and> local_version \<noteq> Some (table_version h)
         then upd_counters (\<lambda>c. c\<lparr>ct_table_mismatch := ct_table_mismatch c + 1\<rparr>) (s1\<lparr>st_best_effort := True\<rparr>)
         else s1)"

definition implausible :: "RxPolicy \<Rightarrow> data_header \<Rightarrow> Stream \<Rightarrow> bool" where
  "implausible pol h s \<longleftrightarrow>
     \<not> plausible_forward (st_cursor s) (seq_no h) (fwd_clamp_pkts pol)
     \<or> \<not> plausible_forward (st_max_block s) (block_id h) (fwd_clamp_blocks pol)"

definition resync :: "data_header \<Rightarrow> Stream \<Rightarrow> Stream" where
  "resync h s =
     upd_counters (\<lambda>c. c\<lparr>ct_resyncs := ct_resyncs c + 1\<rparr>)
       (s\<lparr>st_cursor := seq_no h, st_max_seq := seq_no h, st_max_block := block_id h,
          st_last_delivered_block := block_id h, st_held := [], st_gaps := [], st_blocks := [],
          st_completed_blocks := [], st_adapter_last_seq := []\<rparr>)"

text \<open>The plausible-forward gate: whether the packet goes on, and the stream.\<close>

definition clamp_gate :: "RxPolicy \<Rightarrow> data_header \<Rightarrow> u64 \<Rightarrow> Stream \<Rightarrow> bool \<times> Stream" where
  "clamp_gate pol h now_ms s =
     (if implausible pol h s
      then let s1 = upd_counters (\<lambda>c. c\<lparr>ct_clamp_rejected := ct_clamp_rejected c + 1\<rparr>) s
           in if st_first_clamp_ms s1 = 0 then (False, s1\<lparr>st_first_clamp_ms := now_ms\<rparr>)
              else if now_ms \<le> st_first_clamp_ms s1
                      \<or> now_ms - st_first_clamp_ms s1 < ucast (clamp_resync_ms pol)
              then (False, s1)
              else (True, (resync h s1)\<lparr>st_first_clamp_ms := 0\<rparr>)
      else (True, s\<lparr>st_first_clamp_ms := 0\<rparr>))"

definition bump_last_seq :: "u8 \<Rightarrow> u32 \<Rightarrow> Stream \<Rightarrow> Stream" where
  "bump_last_seq adapter_id q s =
     s\<lparr>st_adapter_last_seq := om_update adapter_id
         (max (case map_of (st_adapter_last_seq s) adapter_id of None \<Rightarrow> 0 | Some l \<Rightarrow> l) q)
         (st_adapter_last_seq s)\<rparr>"

definition touch_block :: "RxEngine \<Rightarrow> u32 \<Rightarrow> u64 \<Rightarrow> Stream \<Rightarrow> Stream" where
  "touch_block e b now_ms s =
     (if st_best_effort s then s
      else let first = (case map_of (st_blocks s) b of None \<Rightarrow> 0 | Some bi \<Rightarrow> bi_first_seen_ms bi);
               seen = (if first = 0 then now_ms else first)
           in s\<lparr>st_blocks := om_update b
                  \<lparr>bi_first_seen_ms = seen, bi_deadline_ms = block_deadline e s seen\<rparr> (st_blocks s)\<rparr>)"

text \<open>A packet that is neither old nor a duplicate is stored.\<close>

definition store_packet :: "RxEngine \<Rightarrow> u8 \<Rightarrow> data_view \<Rightarrow> u64 \<Rightarrow> Stream \<Rightarrow> Stream" where
  "store_packet e adapter_id v now_ms s =
     (let h = dv_hdr v; q = seq_no h;
          s1 = s\<lparr>st_gaps := om_erase q (st_gaps s)\<rparr>;
          s2 = s1\<lparr>st_max_seq := max (st_max_seq s1) q\<rparr>;
          s3 = upd_counters (\<lambda>c. c\<lparr>ct_uniq := ct_uniq c + 1, ct_highest_seq := st_max_seq s2\<rparr>) s2;
          s4 = bump_last_seq adapter_id q s3;
          s5 = s4\<lparr>st_max_block := max (st_max_block s4) (block_id h)\<rparr>;
          s6 = touch_block e (block_id h) now_ms s5
      in s6\<lparr>st_held := om_emplace q \<lparr>hl_payload = dv_payload v, hl_block_id = block_id h,
             hl_flags = data_flags h, hl_delivered_early = False\<rparr> (st_held s6)\<rparr>)"

definition early_step :: "RxPolicy \<Rightarrow> early_deliver \<Rightarrow> data_view \<Rightarrow> Stream \<Rightarrow> Stream" where
  "early_step pol early v s =
     (case early of
        None \<Rightarrow> s
      | Some f \<Rightarrow>
          let h = dv_hdr v;
              (handled, block_complete) =
                f (st_key s) (st_local_stream_id s) (block_id h) (data_flags h) (dv_payload v);
              s1 = s\<lparr>st_held := map (\<lambda>(q, x). (q, if q = seq_no h then x\<lparr>hl_delivered_early := handled\<rparr> else x))
                       (st_held s)\<rparr>;
              s2 = (if handled then upd_counters (\<lambda>c. c\<lparr>ct_delivered := ct_delivered c + 1\<rparr>) s1 else s1)
          in if block_complete then mark_frame_complete pol (block_id h) s2 else s2)"

definition ingest :: "RxEngine \<Rightarrow> u8 \<Rightarrow> data_view \<Rightarrow> u64 \<Rightarrow> early_deliver \<Rightarrow> Stream \<Rightarrow> Stream \<times> delivery list" where
  "ingest e adapter_id v now_ms early s =
     (let h = dv_hdr v; pol = rx_policy e;
          (pass, s1) = clamp_gate pol h now_ms (note_header (rx_local_table_version e) h now_ms s)
      in if \<not> pass then (s1, [])
         else let s2 = (if data_flags h AND kRetransmit = 0
                        then note_adapter_seq pol adapter_id (seq_no h) s1 else s1)
              in if seq_no h < st_cursor s2 \<or> om_has (seq_no h) (st_held s2)
                 then (bump_last_seq adapter_id (seq_no h)
                         (upd_counters (\<lambda>c. c\<lparr>ct_diversity := ct_diversity c + 1\<rparr>) s2), [])
                 else advance_cursor now_ms
                        (evaluate_gaps e now_ms
                           (early_step pol early v
                              (note_gaps pol now_ms (store_packet e adapter_id v now_ms s2)))))"

definition on_data :: "RxEngine \<Rightarrow> u8 \<Rightarrow> data_view \<Rightarrow> u64 \<Rightarrow> int \<Rightarrow> early_deliver \<Rightarrow> RxEngine \<times> delivery list" where
  "on_data e0 adapter_id v now_ms rssi early =
     (let a = (case map_of (rx_adapters e0) adapter_id of None \<Rightarrow> zero_adapter | Some a \<Rightarrow> a);
          e = e0\<lparr>rx_adapters := om_update adapter_id (hear_adapter now_ms rssi a) (rx_adapters e0)\<rparr>;
          key = pack_key (key_of (dv_hdr v));
          (found, e1) = (case map_of (rx_streams e) key of
                           Some s \<Rightarrow> (Some s, e)
                         | None \<Rightarrow> try_latch e (dv_hdr v) now_ms)
      in case found of
           None \<Rightarrow> (e1, [])
         | Some s \<Rightarrow>
             let (s1, ds) = ingest e1 adapter_id v now_ms early s
             in (e1\<lparr>rx_streams := om_update key s1 (rx_streams e1)\<rparr>, ds))"

section \<open>Completion, ticks, introspection\<close>

definition complete_stream :: "RxEngine \<Rightarrow> u32 \<Rightarrow> u64 \<Rightarrow> Stream \<Rightarrow> Stream \<times> delivery list" where
  "complete_stream e b now_ms s =
     advance_cursor now_ms (evaluate_gaps e now_ms (mark_frame_complete (rx_policy e) b s))"

definition complete_frame :: "RxEngine \<Rightarrow> u8 \<Rightarrow> u32 \<Rightarrow> u64 \<Rightarrow> RxEngine \<times> delivery list" where
  "complete_frame e local_id b now_ms =
     (case find (\<lambda>(key, s). st_local_stream_id s = local_id) (rx_streams e) of
        None \<Rightarrow> (e, [])
      | Some (key, s) \<Rightarrow>
          let (s1, ds) = complete_stream e b now_ms s
          in (e\<lparr>rx_streams := om_update key s1 (rx_streams e)\<rparr>, ds))"

definition idle :: "RxPolicy \<Rightarrow> u64 \<Rightarrow> Stream \<Rightarrow> bool" where
  "idle pol now_ms s \<longleftrightarrow>
     st_last_activity_ms s < now_ms \<and> ucast (idle_teardown_ms pol) < now_ms - st_last_activity_ms s"

definition tick_stream :: "RxEngine \<Rightarrow> u64 \<Rightarrow> Stream \<Rightarrow> Stream \<times> delivery list" where
  "tick_stream e now_ms s = advance_cursor now_ms (evaluate_gaps e now_ms s)"

definition rx_tick :: "RxEngine \<Rightarrow> u64 \<Rightarrow> RxEngine \<times> delivery list" where
  "rx_tick e now_ms =
     (let live = filter (\<lambda>(key, s). \<not> idle (rx_policy e) now_ms s) (rx_streams e)
      in (e\<lparr>rx_streams := map (\<lambda>(key, s). (key, fst (tick_stream e now_ms s))) live,
            rx_discovery := filter (\<lambda>(key, c).
              \<not> 4 * ucast (admit_window_ms (rx_policy e)) < now_ms - cd_last_ms c) (rx_discovery e)\<rparr>,
          concat (map (\<lambda>(key, s). snd (tick_stream e now_ms s)) live)))"

definition adapter_loss :: "u8 \<times> AdapterSeq \<Rightarrow> AdapterLoss" where
  "adapter_loss ia = \<lparr>al_adapter_id = fst ia, al_expected = as_expected (snd ia),
     al_lost = as_expected (snd ia) - as_received (snd ia)\<rparr>"

definition stream_info :: "Stream \<Rightarrow> RxStreamInfo" where
  "stream_info s =
     (let losses = map adapter_loss (st_adapter_seq s); c = st_counters s
      in \<lparr>si_key = st_key s, si_local_stream_id = st_local_stream_id s, si_stream_type = st_stream_type s,
          si_best_effort = st_best_effort s, si_active_profile = st_active_profile s,
          si_peer_table_version = st_peer_table_version s, si_per_adapter = losses,
          si_counters = c\<lparr>ct_prediv_expected := ct_prediv_expected c + sum_list (map al_expected losses),
                           ct_prediv_lost := ct_prediv_lost c + sum_list (map al_lost losses)\<rparr>\<rparr>)"

definition rx_stream_infos :: "RxEngine \<Rightarrow> RxStreamInfo list" where
  "rx_stream_infos e = map (\<lambda>(key, s). stream_info s) (rx_streams e)"

text \<open>The conversion to \<open>int8_t\<close>.\<close>

definition to_int8 :: "int \<Rightarrow> int" where
  "to_int8 x = signed_take_bit 7 x"

definition adapter_counters :: "RxPolicy \<Rightarrow> u64 \<Rightarrow> Adapter \<Rightarrow> RxAdapterCounters" where
  "adapter_counters pol newest a =
     \<lparr>ac_rx = ad_rx a,
      ac_stalled = (ad_last_rx_ms a < newest \<and> ucast (stall_timeout_ms pol) < newest - ad_last_rx_ms a),
      ac_last_rx_ms = ad_last_rx_ms a, ac_rssi_last = ad_rssi_last a,
      ac_rssi_ewma = to_int8 (ad_rssi_ewma_q4 a sdiv 16), ac_have_rssi = ad_have_rssi a\<rparr>"

definition rx_adapter_infos :: "RxEngine \<Rightarrow> (u8, RxAdapterCounters) omap" where
  "rx_adapter_infos e =
     (let newest = fold (\<lambda>(i, a) m. max m (ad_last_rx_ms a)) (rx_adapters e) 0
      in map (\<lambda>(i, a). (i, adapter_counters (rx_policy e) newest a)) (rx_adapters e))"

definition live_adapter_count :: "RxEngine \<Rightarrow> u8" where
  "live_adapter_count e = fold (\<lambda>(i, c) live. live + (if ac_stalled c then 0 else 1)) (rx_adapter_infos e) 0"

definition reset_stream_stats :: "Stream \<Rightarrow> Stream" where
  "reset_stream_stats s =
     s\<lparr>st_counters := zero_rx_counters,
       st_adapter_seq := map (\<lambda>(i, a). (i, a\<lparr>as_expected := 0, as_received := 0, as_missing := []\<rparr>)) (st_adapter_seq s)\<rparr>"

definition rx_reset_stats :: "RxEngine \<Rightarrow> RxEngine" where
  "rx_reset_stats e =
     e\<lparr>rx_streams := map (\<lambda>(key, s). (key, reset_stream_stats s)) (rx_streams e),
       rx_adapters := map (\<lambda>(i, a). (i, a\<lparr>ad_rx := 0\<rparr>)) (rx_adapters e)\<rparr>"

definition select_originator :: "u16 \<Rightarrow> RxEngine \<Rightarrow> RxEngine" where
  "select_originator orig e =
     (if orig = 0 then e
      else if list_ex (\<lambda>w. ws_originator w \<noteq> Some orig) (rx_wants e)
      then e\<lparr>rx_wants := map (\<lambda>w. w\<lparr>ws_originator := Some orig\<rparr>) (rx_wants e), rx_streams := [], rx_discovery := []\<rparr>
      else e)"

fun common_originator :: "u16 option \<Rightarrow> WantSpec list \<Rightarrow> u16 option" where
  "common_originator selected [] = selected"
| "common_originator selected (w # ws) =
     (case ws_originator w of
        None \<Rightarrow> None
      | Some o1 \<Rightarrow>
          if selected \<noteq> None \<and> selected \<noteq> Some o1 then None else common_originator (Some o1) ws)"

definition selected_originator :: "RxEngine \<Rightarrow> u16 option" where
  "selected_originator e = common_originator None (rx_wants e)"

definition unpin_originator :: "RxEngine \<Rightarrow> RxEngine" where
  "unpin_originator e =
     e\<lparr>rx_wants := map (\<lambda>w. w\<lparr>ws_originator := None\<rparr>) (rx_wants e), rx_streams := [], rx_discovery := []\<rparr>"

end
