(* ===== verification/Rx_Props.thy ===== *)
theory Rx_Props
  imports Rx_Engine In_Order_Delivery
begin

text \<open>
  The receive window of a stream: its invariant and that every operation keeps it, the exact
  effect of the delivery loop, and from these order, conservation, bounds and progress.
\<close>

section \<open>What the gap evaluation does\<close>

definition judged_gap :: "RxPolicy \<Rightarrow> u32 option \<Rightarrow> u64 \<Rightarrow> Stream \<Rightarrow> u32 \<Rightarrow> Gap \<Rightarrow> Gap" where
  "judged_gap pol min_live now_ms s q g =
     (if gp_fec_satisfied g then g
      else g\<lparr>gp_superseded := gp_superseded g \<or> \<not> st_best_effort s \<and>
               (case om_upper_bound q (st_held s) of None \<Rightarrow> False | Some (_, h) \<Rightarrow> hl_block_id h < st_max_block s),
             gp_declared_lost := gp_declared_lost g
               \<or> (case min_live of None \<Rightarrow> False | Some m \<Rightarrow> q < m)
               \<or> ucast (dwell_ceiling_ms pol) \<le> now_ms - gp_first_missing_ms g\<rparr>)"

text \<open>Two streams that differ at most in the verdicts on the gaps and in the loss counter.\<close>

definition only_gaps_differ :: "Stream \<Rightarrow> Stream \<Rightarrow> bool" where
  "only_gaps_differ s s' \<longleftrightarrow>
     (\<exists>gs n. s' = s\<lparr>st_gaps := gs, st_counters := (st_counters s)\<lparr>ct_lost_declared := n\<rparr>\<rparr>)"

lemma only_gaps_differ_trans: "only_gaps_differ s t \<Longrightarrow> only_gaps_differ t u \<Longrightarrow> only_gaps_differ s u"
  unfolding only_gaps_differ_def
proof (elim exE)
  fix gs n gs' n'
  assume "t = s\<lparr>st_gaps := gs, st_counters := (st_counters s)\<lparr>ct_lost_declared := n\<rparr>\<rparr>"
    and "u = t\<lparr>st_gaps := gs', st_counters := (st_counters t)\<lparr>ct_lost_declared := n'\<rparr>\<rparr>"
  then show "\<exists>gs n. u = s\<lparr>st_gaps := gs, st_counters := (st_counters s)\<lparr>ct_lost_declared := n\<rparr>\<rparr>"
    by (intro exI [of _ gs'] exI [of _ n']) simp
qed

lemma only_gaps_differ_refl: "only_gaps_differ s s"
  unfolding only_gaps_differ_def
  by (rule exI [of _ "st_gaps s"], rule exI [of _ "ct_lost_declared (st_counters s)"]) simp

lemma evaluate_gap_eq:
  assumes "om_ok (st_gaps s)" and "(q, g) \<in> set (st_gaps s)"
  shows "st_gaps (evaluate_gap pol min_live now_ms (q, g) s) = om_update q (judged_gap pol min_live now_ms s q g) (st_gaps s)"
    and "only_gaps_differ s (evaluate_gap pol min_live now_ms (q, g) s)"
proof -
  have same: "om_update q g (st_gaps s) = st_gaps s"
    using assms om_update_in_place by (metis split_list)
  show "st_gaps (evaluate_gap pol min_live now_ms (q, g) s) = om_update q (judged_gap pol min_live now_ms s q g) (st_gaps s)"
  proof (cases "gp_fec_satisfied g")
    case True
    then show ?thesis
      by (simp add: evaluate_gap_def judged_gap_def same)
  next
    case False
    then show ?thesis
      unfolding evaluate_gap_def judged_gap_def Let_def prod.case if_False
      by (cases "om_upper_bound q (st_held s)"; cases g)
        (auto intro!: arg_cong [where f = "\<lambda>g. om_update q g (st_gaps s)"])
  qed
  show "only_gaps_differ s (evaluate_gap pol min_live now_ms (q, g) s)"
  proof (cases "gp_fec_satisfied g")
    case True
    then show ?thesis
      by (simp add: evaluate_gap_def only_gaps_differ_refl)
  next
    case False
    have "only_gaps_differ s (s\<lparr>st_gaps := gs, st_counters := c\<rparr>)"
      if "c = (st_counters s)\<lparr>ct_lost_declared := n\<rparr>" for gs c n
      using that by (auto simp: only_gaps_differ_def)
    moreover have "only_gaps_differ s (s\<lparr>st_gaps := gs\<rparr>)" for gs
      unfolding only_gaps_differ_def
      by (rule exI [of _ gs], rule exI [of _ "ct_lost_declared (st_counters s)"]) simp
    ultimately show ?thesis
      using False by (simp add: evaluate_gap_def Let_def)
  qed
qed

lemma judged_gap_cong: "only_gaps_differ s s' \<Longrightarrow> judged_gap pol min_live now_ms s' q g = judged_gap pol min_live now_ms s q g"
  by (auto simp: only_gaps_differ_def judged_gap_def split: option.splits)

lemma fold_evaluate_gap:
  assumes "om_ok (ys @ zs)" and "only_gaps_differ s0 s"
    and "st_gaps s = map (\<lambda>(q, g). (q, judged_gap pol min_live now_ms s0 q g)) ys @ zs"
  shows "only_gaps_differ s0 (fold (evaluate_gap pol min_live now_ms) zs s)
    \<and> st_gaps (fold (evaluate_gap pol min_live now_ms) zs s)
       = map (\<lambda>(q, g). (q, judged_gap pol min_live now_ms s0 q g)) (ys @ zs)"
  using assms
proof (induction zs arbitrary: ys s)
  case (Cons z zs)
  obtain q g where z: "z = (q, g)"
    by (cases z)
  let ?J = "\<lambda>(q, g). (q, judged_gap pol min_live now_ms s0 q g)"
  let ?s = "evaluate_gap pol min_live now_ms z s"
  have ok: "om_ok (map ?J ys @ (q, g) # zs)"
    using Cons.prems(1) om_ok_same_keys [of "map ?J ys @ (q, g) # zs" "ys @ z # zs"] z by (simp add: o_def split_def)
  have in_s: "om_ok (st_gaps s)" "(q, g) \<in> set (st_gaps s)"
    using Cons.prems(3) ok z by auto
  have gaps: "st_gaps ?s = map ?J (ys @ [z]) @ zs"
    using evaluate_gap_eq(1) [OF in_s, of pol min_live now_ms] om_update_in_place [OF ok]
      judged_gap_cong [OF Cons.prems(2)] Cons.prems(3) z by simp
  have diff: "only_gaps_differ s0 ?s"
    using only_gaps_differ_trans [OF Cons.prems(2)] evaluate_gap_eq(2) [OF in_s] z by simp
  show ?case
    using Cons.IH [of "ys @ [z]" ?s] Cons.prems(1) gaps diff by simp
qed simp

lemma evaluate_gaps_eq:
  assumes "om_ok (st_gaps s)"
  shows "only_gaps_differ s (evaluate_gaps e now_ms s)"
    and "st_gaps (evaluate_gaps e now_ms s) =
      map (\<lambda>(q, g). (q, judged_gap (rx_policy e) (min_live_adapter_seq e s now_ms) now_ms s q g)) (st_gaps s)"
  using fold_evaluate_gap [of "[]" "st_gaps s" s s "rx_policy e" "min_live_adapter_seq e s now_ms" now_ms] assms
  by (simp_all add: evaluate_gaps_def Let_def only_gaps_differ_refl)

section \<open>The window invariant\<close>

definition block_known :: "Stream \<Rightarrow> Held \<Rightarrow> bool" where
  "block_known s h \<longleftrightarrow> hl_block_id h \<le> st_max_block s \<and>
     (st_best_effort s \<or> hl_block_id h \<in> om_keys (st_blocks s) \<or> hl_block_id h < st_max_block s)"

definition window_pre :: "RxPolicy \<Rightarrow> Stream \<Rightarrow> bool" where
  "window_pre pol s \<longleftrightarrow>
     om_ok (st_held s) \<and> om_ok (st_gaps s) \<and> om_ok (st_blocks s)
     \<and> (\<forall>q \<in> om_keys (st_held s). unat (st_cursor s) \<le> unat q \<and> unat q \<le> unat (st_max_seq s))
     \<and> (\<forall>q \<in> om_keys (st_gaps s). unat (st_cursor s) \<le> unat q \<and> unat q < unat (st_max_seq s))
     \<and> om_keys (st_held s) \<inter> om_keys (st_gaps s) = {}
     \<and> (st_cursor s < st_max_seq s \<longrightarrow> st_max_seq s \<in> om_keys (st_held s))
     \<and> unat (st_max_seq s) \<le> unat (st_cursor s) + unat (fwd_clamp_pkts pol)
     \<and> unat (st_cursor s) \<le> unat (st_max_seq s) + 1
     \<and> st_last_delivered_block s \<le> st_max_block s
     \<and> (\<forall>(q, h) \<in> set (st_held s). block_known s h)"

text \<open>Between the cursor and the newest packet every number is held or a gap.\<close>

definition covered :: "Stream \<Rightarrow> bool" where
  "covered s \<longleftrightarrow> (\<forall>q. st_cursor s \<le> q \<and> q < st_max_seq s \<longrightarrow> q \<in> om_keys (st_held s) \<union> om_keys (st_gaps s))"

definition window_ok :: "RxPolicy \<Rightarrow> Stream \<Rightarrow> bool" where
  "window_ok pol s \<longleftrightarrow> window_pre pol s \<and> covered s"

text \<open>The window depends on these fields only.\<close>

definition window_view :: "Stream \<Rightarrow> u32 \<times> u32 \<times> u32 \<times> u32 \<times> bool \<times> (u32 \<times> u32) list \<times> u32 list \<times> u32 list" where
  "window_view s = (st_cursor s, st_max_seq s, st_max_block s, st_last_delivered_block s, st_best_effort s,
     map (\<lambda>(q, h). (q, hl_block_id h)) (st_held s), map fst (st_gaps s), map fst (st_blocks s))"

lemma window_ok_cong:
  assumes "window_view s' = window_view s"
  shows "window_ok pol s' = window_ok pol s" "window_pre pol s' = window_pre pol s"
proof -
  have keys: "map fst (st_held s') = map fst (st_held s)"
    using arg_cong [OF assms, of "\<lambda>(_, _, _, _, _, hs, _). map fst hs"] by (simp add: window_view_def o_def split_def)
  have known: "(\<forall>(q, h) \<in> set (st_held t). block_known t h) \<longleftrightarrow>
      (case window_view t of (_, _, mb, _, be, hs, _, bs) \<Rightarrow>
         \<forall>(q, b) \<in> set hs. b \<le> mb \<and> (be \<or> b \<in> set bs \<or> b < mb))" for t
    by (auto simp: window_view_def block_known_def)
  have sets: "om_keys (st_held s') = om_keys (st_held s)" "om_keys (st_gaps s') = om_keys (st_gaps s)"
    using keys assms by (metis list.set_map, simp add: window_view_def, metis list.set_map)
  have fields: "st_cursor s' = st_cursor s" "st_max_seq s' = st_max_seq s" "st_max_block s' = st_max_block s"
      "st_last_delivered_block s' = st_last_delivered_block s"
      "om_ok (st_held s') = om_ok (st_held s)" "om_ok (st_gaps s') = om_ok (st_gaps s)"
      "om_ok (st_blocks s') = om_ok (st_blocks s)"
    using assms keys by (simp_all add: window_view_def om_ok_def)
  show pre: "window_pre pol s' = window_pre pol s"
    unfolding window_pre_def fields sets known assms ..
  show "window_ok pol s' = window_ok pol s"
    unfolding window_ok_def pre covered_def fields sets ..
qed

lemma window_ok_transfer: "window_ok pol s \<Longrightarrow> window_view s' = window_view s \<Longrightarrow> window_ok pol s'"
  and window_pre_transfer: "window_pre pol s \<Longrightarrow> window_view s' = window_view s \<Longrightarrow> window_pre pol s'"
  using window_ok_cong by blast+

lemma evaluate_gaps_view:
  assumes "om_ok (st_gaps s)"
  shows "window_view (evaluate_gaps e now_ms s) = window_view s"
proof -
  have "map fst (st_gaps (evaluate_gaps e now_ms s)) = map fst (st_gaps s)"
    using evaluate_gaps_eq(2) [OF assms] by (simp add: o_def split_def)
  moreover obtain gs n where "evaluate_gaps e now_ms s = s\<lparr>st_gaps := gs, st_counters := (st_counters s)\<lparr>ct_lost_declared := n\<rparr>\<rparr>"
    using evaluate_gaps_eq(1) [OF assms] unfolding only_gaps_differ_def by blast
  ultimately show ?thesis
    by (simp add: window_view_def)
qed

lemma mark_frame_complete_view: "window_view (mark_frame_complete pol b s) = window_view s"
  by (simp add: mark_frame_complete_def window_view_def Let_def o_def split_def)

lemma early_step_view: "window_view (early_step pol early v s) = window_view s"
proof -
  have "window_view (s\<lparr>st_held := map (\<lambda>(q, x). (q, if q = k then x\<lparr>hl_delivered_early := d\<rparr> else x)) (st_held s)\<rparr>) = window_view s" for k d
    by (auto simp: window_view_def)
  moreover have "window_view (s\<lparr>st_held := hs, st_counters := c\<rparr>) = window_view (s\<lparr>st_held := hs\<rparr>)" for hs c
    by (simp add: window_view_def)
  ultimately show ?thesis
    by (auto simp: early_step_def Let_def mark_frame_complete_view split: option.splits prod.splits)
qed

lemma note_adapter_seq_view: "window_view (note_adapter_seq pol i q s) = window_view s"
  by (simp add: note_adapter_seq_def window_view_def)

lemma bump_last_seq_view: "window_view (bump_last_seq i q s) = window_view s"
  by (simp add: bump_last_seq_def window_view_def)

lemma counters_view: "window_view (upd_counters f s) = window_view s"
  by (simp add: window_view_def)

lemmas view_simps = mark_frame_complete_view early_step_view note_adapter_seq_view bump_last_seq_view counters_view

section \<open>Every operation keeps the window\<close>

lemma window_ok_floor:
  assumes "st_held s = []" "st_gaps s = []" "st_blocks s = []" "st_max_seq s = st_cursor s"
    and "st_last_delivered_block s \<le> st_max_block s"
  shows "window_ok pol s"
  using assms by (auto simp: window_ok_def window_pre_def covered_def)

lemma latch_stream_ok: "window_ok pol (latch_stream w h now_ms)"
  by (rule window_ok_floor) (simp_all add: latch_stream_def)

lemma best_effort_ok:
  assumes "window_ok pol s"
  shows "window_ok pol (s\<lparr>st_best_effort := True\<rparr>)"
proof -
  have "\<forall>(q, h) \<in> set (st_held s). block_known (s\<lparr>st_best_effort := True\<rparr>) h"
    using assms by (fastforce simp: window_ok_def window_pre_def block_known_def)
  then show ?thesis
    using assms unfolding window_ok_def window_pre_def covered_def by simp
qed

lemma note_header_ok:
  assumes "window_ok pol s"
  shows "window_ok pol (note_header ver h now_ms s)"
proof (cases "ver \<noteq> None \<and> ver \<noteq> Some (table_version h)")
  case True
  show ?thesis
    by (rule window_ok_transfer [OF best_effort_ok [OF assms]]) (use True in \<open>simp add: note_header_def window_view_def Let_def\<close>)
next
  case False
  show ?thesis
    by (rule window_ok_transfer [OF assms]) (use False in \<open>auto simp: note_header_def window_view_def Let_def\<close>)
qed

lemma clamp_gate_ok:
  assumes "window_ok pol s"
  shows "window_ok pol (snd (clamp_gate pol h now_ms s))"
proof (cases "implausible pol h s \<and> snd (clamp_gate pol h now_ms s)
    = (resync h (upd_counters (\<lambda>c. c\<lparr>ct_clamp_rejected := ct_clamp_rejected c + 1\<rparr>) s))\<lparr>st_first_clamp_ms := 0\<rparr>")
  case True
  show ?thesis
    unfolding conjunct2 [OF True] by (rule window_ok_floor) (simp_all add: resync_def)
next
  case False
  show ?thesis
  proof (rule window_ok_transfer [OF assms])
    show "window_view (snd (clamp_gate pol h now_ms s)) = window_view s"
      using False by (auto simp: clamp_gate_def window_view_def Let_def split: if_splits)
  qed
qed

text \<open>A packet that passed the gate is not beyond the clamp.\<close>

lemma clamp_gate_pass:
  assumes "clamp_gate pol h now_ms s = (True, s')"
  shows "plausible_forward (st_cursor s') (seq_no h) (fwd_clamp_pkts pol)"
  using assms
  by (auto simp: clamp_gate_def implausible_def resync_def Let_def plausible_forward_def split: if_splits)

lemma store_packet_fields:
  "st_cursor (store_packet e i v now_ms s) = st_cursor s"
  "st_max_seq (store_packet e i v now_ms s) = max (st_max_seq s) (seq_no (dv_hdr v))"
  "st_gaps (store_packet e i v now_ms s) = om_erase (seq_no (dv_hdr v)) (st_gaps s)"
  "st_max_block (store_packet e i v now_ms s) = max (st_max_block s) (block_id (dv_hdr v))"
  "st_last_delivered_block (store_packet e i v now_ms s) = st_last_delivered_block s"
  "st_best_effort (store_packet e i v now_ms s) = st_best_effort s"
  "st_held (store_packet e i v now_ms s) = om_emplace (seq_no (dv_hdr v)) \<lparr>hl_payload = dv_payload v,
     hl_block_id = block_id (dv_hdr v), hl_flags = data_flags (dv_hdr v), hl_delivered_early = False\<rparr> (st_held s)"
  by (simp_all add: store_packet_def touch_block_def bump_last_seq_def Let_def)

lemma store_packet_blocks:
  "om_ok (st_blocks s) \<Longrightarrow> om_ok (st_blocks (store_packet e i v now_ms s))"
  "om_keys (st_blocks (store_packet e i v now_ms s)) =
     (if st_best_effort s then om_keys (st_blocks s) else insert (block_id (dv_hdr v)) (om_keys (st_blocks s)))"
  by (simp_all add: store_packet_def touch_block_def bump_last_seq_def Let_def fst_set_update)

lemma store_packet_pre:
  assumes "window_pre pol s" and "\<not> seq_no (dv_hdr v) < st_cursor s"
    and "plausible_forward (st_cursor s) (seq_no (dv_hdr v)) (fwd_clamp_pkts pol)"
  shows "window_pre pol (store_packet e i v now_ms s)"
proof -
  let ?q = "seq_no (dv_hdr v)" and ?s = "store_packet e i v now_ms s"
  have q: "unat (st_cursor s) \<le> unat ?q" "unat ?q \<le> unat (st_cursor s) + unat (fwd_clamp_pkts pol)"
    using assms(2,3) by (simp_all add: plausible_forward_iff word_less_nat_alt)
  have max: "unat (st_max_seq ?s) = max (unat (st_max_seq s)) (unat ?q)"
    by (simp add: store_packet_fields max_def word_le_nat_alt)
  have known: "\<forall>(q, h) \<in> set (st_held ?s). block_known ?s h"
  proof -
    have "block_known ?s h" if "block_known s h" for h
      using that by (auto simp: block_known_def store_packet_fields store_packet_blocks max_def)
    moreover have "block_known ?s \<lparr>hl_payload = p, hl_block_id = block_id (dv_hdr v), hl_flags = f, hl_delivered_early = d\<rparr>" for p f d
      by (auto simp: block_known_def store_packet_fields store_packet_blocks)
    moreover have "\<forall>(q, h) \<in> set (st_held s). block_known s h"
      using assms(1) unfolding window_pre_def by (elim conjE)
    ultimately show ?thesis
      using set_om_emplace [of ?q _ "st_held s"] unfolding store_packet_fields(7) by fast
  qed
  have held: "om_keys (st_held ?s) = insert ?q (om_keys (st_held s))"
    by (simp add: store_packet_fields fst_set_emplace)
  have top: "st_max_seq ?s \<in> om_keys (st_held ?s)" if "st_cursor s < st_max_seq ?s"
  proof (cases "st_max_seq s \<le> ?q")
    case False
    then have "st_cursor s < st_max_seq s"
      using that by (simp add: store_packet_fields max_def)
    then have "st_max_seq s \<in> om_keys (st_held s)"
      using assms(1) unfolding window_pre_def by (elim conjE mp)
    then show ?thesis
      using False unfolding held by (simp add: store_packet_fields max_def)
  qed (simp add: store_packet_fields fst_set_emplace max_def)
  note old = assms(1) [unfolded window_pre_def]
  have range: "\<forall>q \<in> om_keys (st_held ?s). unat (st_cursor s) \<le> unat q \<and> unat q \<le> unat (st_max_seq ?s)"
    using old q unfolding held max by auto
  have gaps: "\<forall>q \<in> om_keys (st_gaps ?s). unat (st_cursor s) \<le> unat q \<and> unat q < unat (st_max_seq ?s)"
    using old unfolding max by (auto simp: store_packet_fields keys_erase)
  have disj: "om_keys (st_held ?s) \<inter> om_keys (st_gaps ?s) = {}"
    using old unfolding held by (auto simp: store_packet_fields keys_erase)
  have oks: "om_ok (st_held ?s)" "om_ok (st_gaps ?s)" "om_ok (st_blocks ?s)"
    using old by (simp_all add: store_packet_fields store_packet_blocks)
  have bounds: "unat (st_max_seq ?s) \<le> unat (st_cursor s) + unat (fwd_clamp_pkts pol)"
      "unat (st_cursor s) \<le> unat (st_max_seq ?s) + 1"
    using old q unfolding max by auto
  have last: "st_last_delivered_block s \<le> st_max_block ?s"
    using old by (simp add: store_packet_fields le_max_iff_disj)
  show ?thesis
    unfolding window_pre_def
    unfolding store_packet_fields(1,5)
    using range gaps disj oks bounds last known top by (intro conjI impI) assumption+
qed

text \<open>Noting the gaps fills the window.\<close>

definition noted :: "RxPolicy \<Rightarrow> Stream \<Rightarrow> nat \<Rightarrow> Stream \<Rightarrow> bool" where
  "noted pol s n t \<longleftrightarrow> (\<exists>gs. t = s\<lparr>st_gaps := gs\<rparr> \<and> om_ok gs
     \<and> om_keys gs = om_keys (st_gaps s) \<union> {q. \<exists>k < n. q = st_cursor s + of_nat k \<and> q \<notin> om_keys (st_held s)})"

lemma note_gaps_noted:
  assumes "om_ok (st_gaps s)" and "\<not> fwd_clamp_pkts pol < st_max_seq s - st_cursor s"
  shows "noted pol s (unat (st_max_seq s - st_cursor s)) (note_gaps pol now_ms s)"
proof -
  let ?f = "\<lambda>n s. let q = st_cursor s + of_nat n
                in if om_has q (st_held s) \<or> om_has q (st_gaps s) then s
                   else s\<lparr>st_gaps := om_emplace q (new_gap s now_ms q) (st_gaps s)\<rparr>"
  have "noted pol s n (fold ?f [0..<n] s)" for n
  proof (induction n)
    case 0
    show ?case
      unfolding noted_def using assms(1) by (intro exI [of _ "st_gaps s"]) simp
  next
    case (Suc n)
    then obtain gs where gs: "fold ?f [0..<n] s = s\<lparr>st_gaps := gs\<rparr>" "om_ok gs"
        "om_keys gs = om_keys (st_gaps s) \<union> {q. \<exists>k < n. q = st_cursor s + of_nat k \<and> q \<notin> om_keys (st_held s)}"
      unfolding noted_def by blast
    let ?q = "st_cursor s + of_nat n" and ?t = "s\<lparr>st_gaps := gs\<rparr>"
    have step: "fold ?f [0..<Suc n] s = (if ?q \<in> om_keys (st_held s) \<or> ?q \<in> om_keys gs then ?t
        else s\<lparr>st_gaps := om_emplace ?q (new_gap ?t now_ms ?q) gs\<rparr>)"
      using gs(1) by (simp add: om_has_iff Let_def)
    show ?case
    proof (cases "?q \<in> om_keys (st_held s) \<or> ?q \<in> om_keys gs")
      case True
      then show ?thesis
        unfolding noted_def step using gs(2,3) by (intro exI [of _ gs]) (auto simp: less_Suc_eq)
    next
      case False
      then show ?thesis
        unfolding noted_def step using gs(2,3)
        by (intro exI [of _ "om_emplace ?q (new_gap ?t now_ms ?q) gs"]) (auto simp: less_Suc_eq fst_set_emplace)
    qed
  qed
  then show ?thesis
    using assms(2) by (simp add: note_gaps_def)
qed

lemma word_in_span:
  fixes c m q :: u32
  assumes "c \<le> m"
  shows "(\<exists>k < unat (m - c). q = c + of_nat k) \<longleftrightarrow> c \<le> q \<and> q < m"
proof
  assume "\<exists>k < unat (m - c). q = c + of_nat k"
  then obtain k where k: "k < unat m - unat c" "q = c + of_nat k"
    using assms by (auto simp: unat_diff_le)
  have "unat m < 2 ^ LENGTH(32)"
    by (rule unsigned_less)
  then have "unat c + k < 2 ^ LENGTH(32)"
    using k(1) by linarith
  then have "unat q = unat c + k"
    unfolding k(2) by (simp add: unat_add_lem [THEN iffD1] unat_of_nat_small)
  then show "c \<le> q \<and> q < m"
    using k(1) by (simp add: word_le_nat_alt word_less_nat_alt)
next
  assume "c \<le> q \<and> q < m"
  then show "\<exists>k < unat (m - c). q = c + of_nat k"
    using assms by (intro exI [of _ "unat (q - c)"]) (auto simp: unat_diff_le word_le_nat_alt word_less_nat_alt intro: diff_less_mono)
qed

lemma note_gaps_ok:
  assumes "window_pre pol s" and "st_cursor s \<le> st_max_seq s"
  shows "window_ok pol (note_gaps pol now_ms s)"
proof -
  note old = assms(1) [unfolded window_pre_def]
  have "unat (st_max_seq s - st_cursor s) \<le> unat (fwd_clamp_pkts pol)"
    using old unat_diff_le [OF assms(2)] by linarith
  then have "\<not> fwd_clamp_pkts pol < st_max_seq s - st_cursor s"
    by (simp add: word_less_nat_alt)
  then have "noted pol s (unat (st_max_seq s - st_cursor s)) (note_gaps pol now_ms s)"
    using old by (intro note_gaps_noted) (elim conjE)
  moreover have "{q. \<exists>k < unat (st_max_seq s - st_cursor s). q = st_cursor s + of_nat k \<and> q \<notin> om_keys (st_held s)}
      = {q. (st_cursor s \<le> q \<and> q < st_max_seq s) \<and> q \<notin> om_keys (st_held s)}"
    using word_in_span [OF assms(2)] by blast
  ultimately obtain gs where gs: "note_gaps pol now_ms s = s\<lparr>st_gaps := gs\<rparr>" "om_ok gs"
      "om_keys gs = om_keys (st_gaps s) \<union> {q. (st_cursor s \<le> q \<and> q < st_max_seq s) \<and> q \<notin> om_keys (st_held s)}"
    unfolding noted_def by auto
  have known: "\<forall>(q, h) \<in> set (st_held s). block_known (s\<lparr>st_gaps := gs\<rparr>) h"
    using old unfolding block_known_def by simp
  have gaps: "\<forall>q \<in> om_keys gs. unat (st_cursor s) \<le> unat q \<and> unat q < unat (st_max_seq s)"
    using old unfolding gs(3) by (auto simp: word_le_nat_alt word_less_nat_alt)
  have disj: "om_keys (st_held s) \<inter> om_keys gs = {}"
    using old unfolding gs(3) by auto
  have pre: "window_pre pol (s\<lparr>st_gaps := gs\<rparr>)"
    unfolding window_pre_def using old known gaps disj gs(2) by simp
  have "covered (s\<lparr>st_gaps := gs\<rparr>)"
    unfolding covered_def using gs(3) by auto
  then show ?thesis
    unfolding gs(1) window_ok_def using pre by simp
qed

section \<open>The delivery loop\<close>

lemma unat_u32_less: "unat (w :: u32) < 4294967296"
  using unsigned_less [of w] by simp

definition release :: "Stream \<Rightarrow> u32 \<times> Held \<Rightarrow> delivery" where
  "release s qh = (fst qh, st_local_stream_id s, hl_block_id (snd qh), hl_flags (snd qh), hl_payload (snd qh))"

definition unreleased :: "(u32, Held) omap \<Rightarrow> (u32, Held) omap" where
  "unreleased hs = filter (\<lambda>(q, h). \<not> hl_delivered_early h) hs"

abbreviation resyncs :: "Stream \<Rightarrow> u64" where
  "resyncs s \<equiv> ct_resyncs (st_counters s)"

lemma not_in_erase [simp]: "(k, v) \<notin> set (om_erase k xs)"
  by (simp add: om_erase_def)

lemma om_head:
  assumes "om_ok xs" and "(k, v) \<in> set xs" and "\<forall>j \<in> om_keys xs. k \<le> j"
  shows "xs = (k, v) # om_erase k xs"
proof (cases xs)
  case (Cons a ys)
  obtain k' v' where a: "a = (k', v')"
    by (cases a)
  have "k' = k" "v' = v"
    using assms Cons a by (auto simp: om_ok_Cons)
  moreover have "om_erase k ys = ys"
    using assms(1) Cons a \<open>k' = k\<close> by (intro om_erase_absent) (auto simp: om_ok_Cons)
  ultimately show ?thesis
    using Cons a by (simp add: om_erase_def)
qed (use assms in simp)

definition after_step :: "Stream \<Rightarrow> Stream \<Rightarrow> Stream" where
  "after_step s s1 = (if om_has (st_cursor s) (st_held s) then prune_blocks s1 else s1)"

lemma after_step_fields [simp]:
  "st_cursor (after_step s s1) = st_cursor s1" "st_max_seq (after_step s s1) = st_max_seq s1"
  "st_held (after_step s s1) = st_held s1" "st_gaps (after_step s s1) = st_gaps s1"
  "st_counters (after_step s s1) = st_counters s1" "st_local_stream_id (after_step s s1) = st_local_stream_id s1"
  "st_max_block (after_step s s1) = st_max_block s1" "st_best_effort (after_step s s1) = st_best_effort s1"
  "st_last_delivered_block (after_step s s1) = st_last_delivered_block s1"
  by (simp_all add: after_step_def prune_blocks_def)

text \<open>What one pass does, for a held packet and for a gap at the cursor.\<close>

definition passed :: "Stream \<Rightarrow> Stream \<Rightarrow> delivery list \<Rightarrow> (u32, Held) omap \<Rightarrow> bool" where
  "passed s s1 ds hs \<longleftrightarrow>
     st_held s = hs @ st_held s1 \<and> om_keys hs \<subseteq> {st_cursor s} \<and> st_cursor s \<notin> om_keys (st_held s1)
     \<and> st_gaps s1 = om_erase (st_cursor s) (st_gaps s) \<and> ds = map (release s) (unreleased hs)
     \<and> st_cursor s1 = st_cursor s + 1 \<and> st_max_seq s1 = st_max_seq s \<and> st_max_block s1 = st_max_block s
     \<and> st_blocks s1 = st_blocks s \<and> st_best_effort s1 = st_best_effort s
     \<and> st_local_stream_id s1 = st_local_stream_id s
     \<and> ct_uniq (st_counters s1) = ct_uniq (st_counters s)
     \<and> ct_delivered (st_counters s1) = ct_delivered (st_counters s) + of_nat (length ds)
     \<and> resyncs s1 = resyncs s
     \<and> (st_last_delivered_block s1 = st_last_delivered_block s
        \<or> (\<exists>h. (st_cursor s, h) \<in> set (st_held s) \<and> st_last_delivered_block s1 = hl_block_id h))"

lemma gap_verdict_counters:
  assumes "gap_verdict now_ms s g = Some charge"
  shows "ct_uniq (charge c) = ct_uniq c" "ct_delivered (charge c) = ct_delivered c" "ct_resyncs (charge c) = ct_resyncs c"
  using assms by (auto simp: gap_verdict_def split: if_splits option.splits)

lemma cursor_step_passed:
  assumes "window_pre pol s" and "cursor_step now_ms s = Some (s1, ds)"
  shows "\<exists>hs. passed s s1 ds hs"
proof (cases "map_of (st_held s) (st_cursor s)")
  case None
  then obtain g charge where g: "gap_verdict now_ms s g = Some charge"
      "s1 = upd_counters charge (s\<lparr>st_gaps := om_erase (st_cursor s) (st_gaps s), st_cursor := st_cursor s + 1\<rparr>)" "ds = []"
    using assms(2) by (auto simp: cursor_step_def split: option.splits)
  have "st_cursor s \<notin> om_keys (st_held s)"
    using None by (simp add: map_of_eq_None_iff)
  then show ?thesis
    using g gap_verdict_counters [OF g(1)] by (intro exI [of _ "[]"]) (simp add: passed_def unreleased_def)
next
  case (Some h)
  have h: "(st_cursor s, h) \<in> set (st_held s)"
    using Some by (rule map_of_SomeD)
  have "\<forall>j \<in> om_keys (st_held s). st_cursor s \<le> j"
    using assms(1) unfolding window_pre_def word_le_nat_alt by blast
  then have "st_held s = (st_cursor s, h) # om_erase (st_cursor s) (st_held s)"
    using h assms(1) by (intro om_head) (auto simp: window_pre_def)
  moreover have "deliver_held h s = (s1, ds)"
    using assms(2) Some by (simp add: cursor_step_def)
  ultimately show ?thesis
    using h by (intro exI [of _ "[(st_cursor s, h)]"])
      (auto simp: passed_def deliver_held_def unreleased_def release_def keys_erase Let_def split: if_splits)
qed

lemma dropWhile_ok:
  "om_ok xs \<Longrightarrow> dropWhile (\<lambda>(b, _). b < k) xs = filter (\<lambda>(b, _). k \<le> b) xs"
proof (induction xs)
  case (Cons a xs)
  then show ?case
  proof (cases "fst a < k")
    case False
    then have "filter (\<lambda>(b, _). k \<le> b) xs = xs"
      using Cons.prems by (intro filter_True) (auto simp: om_ok_def)
    then show ?thesis
      using False by (auto simp: split_def)
  qed (auto simp: om_ok_def)
qed simp

lemma after_step_blocks:
  assumes "om_ok (st_blocks s1)"
  shows "om_ok (st_blocks (after_step s s1))"
    and "b \<in> om_keys (st_blocks s1) \<Longrightarrow> b \<in> om_keys (st_blocks (after_step s s1)) \<or> b < st_last_delivered_block s1"
  using assms by (force simp: after_step_def prune_blocks_def dropWhile_ok om_ok_filter)+

lemma passedD:
  assumes "passed s s1 ds hs"
  shows "st_held s = hs @ st_held s1" "om_keys hs \<subseteq> {st_cursor s}" "st_cursor s \<notin> om_keys (st_held s1)"
    "st_gaps s1 = om_erase (st_cursor s) (st_gaps s)" "ds = map (release s) (unreleased hs)"
    "st_cursor s1 = st_cursor s + 1" "st_max_seq s1 = st_max_seq s" "st_max_block s1 = st_max_block s"
    "st_blocks s1 = st_blocks s" "st_best_effort s1 = st_best_effort s"
    "st_last_delivered_block s1 = st_last_delivered_block s
        \<or> (\<exists>h. (st_cursor s, h) \<in> set (st_held s) \<and> st_last_delivered_block s1 = hl_block_id h)"
  using assms unfolding passed_def by blast+

lemma window_preD:
  assumes "window_pre pol s"
  shows "om_ok (st_held s)" "om_ok (st_gaps s)" "om_ok (st_blocks s)"
    "q \<in> om_keys (st_held s) \<Longrightarrow> unat (st_cursor s) \<le> unat q \<and> unat q \<le> unat (st_max_seq s)"
    "q \<in> om_keys (st_gaps s) \<Longrightarrow> unat (st_cursor s) \<le> unat q \<and> unat q < unat (st_max_seq s)"
    "om_keys (st_held s) \<inter> om_keys (st_gaps s) = {}"
    "st_cursor s < st_max_seq s \<Longrightarrow> st_max_seq s \<in> om_keys (st_held s)"
    "unat (st_max_seq s) \<le> unat (st_cursor s) + unat (fwd_clamp_pkts pol)"
    "unat (st_cursor s) \<le> unat (st_max_seq s) + 1"
    "st_last_delivered_block s \<le> st_max_block s"
    "(q, h) \<in> set (st_held s) \<Longrightarrow> block_known s h"
  using assms unfolding window_pre_def by blast+

lemma passed_ok:
  assumes "window_ok pol s" and "st_cursor s \<le> st_max_seq s" and "passed s s1 ds hs" and "st_cursor s1 \<noteq> 0"
  shows "window_ok pol (after_step s s1)"
proof -
  have pre: "window_pre pol s" and covered: "covered s"
    using assms(1) by (simp_all add: window_ok_def)
  note old = window_preD [OF pre] and p = passedD [OF assms(3)]
  have c1: "unat (st_cursor s1) = unat (st_cursor s) + 1"
    using assms(4) p(6) unat_Suc_word by simp
  have c: "unat (st_cursor s) \<le> unat (st_max_seq s)"
    using assms(2) by (simp add: word_le_nat_alt)
  have "om_keys (st_held s) = om_keys hs \<union> om_keys (st_held s1)"
    using p(1) by (simp add: image_Un)
  then have keys: "om_keys (st_held s) - {st_cursor s} = om_keys (st_held s1)"
    using p(2,3) by blast
  have gaps: "om_keys (st_gaps s1) = om_keys (st_gaps s) - {st_cursor s}"
    using p(4) by (simp add: keys_erase)
  have oks: "om_ok (st_held s1)" "om_ok (st_gaps s1)" "om_ok (st_blocks s1)"
    using old(1-3) p(1,4,9) om_ok_append [of hs "st_held s1"] by simp_all
  have beyond: "unat (st_cursor s1) \<le> unat q" if "unat (st_cursor s) \<le> unat q" "q \<noteq> st_cursor s" for q
    using that c1 unat_inject_iff [of q "st_cursor s"] by simp
  have held_in: "\<forall>q \<in> om_keys (st_held s1). unat (st_cursor s1) \<le> unat q \<and> unat q \<le> unat (st_max_seq s)"
    unfolding keys [symmetric] using old(4) beyond by blast
  have gaps_in: "\<forall>q \<in> om_keys (st_gaps s1). unat (st_cursor s1) \<le> unat q \<and> unat q < unat (st_max_seq s)"
    unfolding gaps using old(5) beyond by blast
  have disj: "om_keys (st_held s1) \<inter> om_keys (st_gaps s1) = {}"
    unfolding keys [symmetric] gaps using old(6) by blast
  have top: "st_cursor s1 < st_max_seq s \<longrightarrow> st_max_seq s \<in> om_keys (st_held s1)"
    unfolding keys [symmetric] using old(7) c1 by (auto simp: word_less_nat_alt simp del: image_iff)
  have last: "st_last_delivered_block s1 \<le> st_max_block s"
    using p(11) old(10,11) unfolding block_known_def by auto
  have known: "\<forall>(q, h) \<in> set (st_held s1). block_known (after_step s s1) h"
  proof (clarify)
    fix q h assume "(q, h) \<in> set (st_held s1)"
    then have "block_known s h"
      using old(11) p(1) by (metis in_set_conv_decomp append_assoc)
    then show "block_known (after_step s s1) h"
      using after_step_blocks(2) [OF oks(3), of "hl_block_id h" s] last p(8,9,10)
      unfolding block_known_def after_step_fields by (metis order.strict_trans2)
  qed
  have cov: "covered (after_step s s1)"
    unfolding covered_def after_step_fields p(7)
  proof (intro allI impI, elim conjE)
    fix q assume q: "st_cursor s1 \<le> q" "q < st_max_seq s"
    then have "st_cursor s \<le> q" "q \<noteq> st_cursor s"
      using c1 by (auto simp: word_le_nat_alt)
    then show "q \<in> om_keys (st_held s1) \<union> om_keys (st_gaps s1)"
      using covered q(2) unfolding covered_def keys [symmetric] gaps by blast
  qed
  have bounds: "unat (st_max_seq s) \<le> unat (st_cursor s1) + unat (fwd_clamp_pkts pol)"
      "unat (st_cursor s1) \<le> unat (st_max_seq s) + 1"
    using old(8) c c1 by simp_all
  show ?thesis
    unfolding window_ok_def window_pre_def
    using oks held_in gaps_in disj top last known cov bounds after_step_blocks(1) [OF oks(3), of s] p(7,8)
    by (simp only: after_step_fields)
qed

text \<open>
  The loop: it releases, in order, the held packets below its end that were not taken early, and
  keeps the rest. It ends at the new cursor, or past the last sequence number when the cursor
  wraps and the stream is floored afresh.
\<close>

definition released_below :: "nat \<Rightarrow> Stream \<Rightarrow> delivery list" where
  "released_below n s = map (release s) (unreleased (filter (\<lambda>(q, h). unat q < n) (st_held s)))"

definition loop_result :: "RxPolicy \<Rightarrow> Stream \<Rightarrow> Stream \<Rightarrow> delivery list \<Rightarrow> bool" where
  "loop_result pol s s' ds \<longleftrightarrow>
     window_ok pol s'
     \<and> (if resyncs s' = resyncs s
        then ds = released_below (unat (st_cursor s')) s \<and> unat (st_cursor s) \<le> unat (st_cursor s')
          \<and> st_max_seq s' = st_max_seq s
          \<and> st_held s' = filter (\<lambda>(q, h). unat (st_cursor s') \<le> unat q) (st_held s)
        else resyncs s' = resyncs s + 1 \<and> ds = released_below (2 ^ 32) s \<and> st_held s' = [] \<and> st_cursor s' = 0)
     \<and> ct_uniq (st_counters s') = ct_uniq (st_counters s)
     \<and> ct_delivered (st_counters s') = ct_delivered (st_counters s) + of_nat (length ds)"

lemma loop_stays:
  assumes "window_ok pol s"
  shows "loop_result pol s s []"
proof -
  have low: "\<not> unat q < unat (st_cursor s)" if "(q, h) \<in> set (st_held s)" for q h
    using window_preD(4) [of pol s q] assms that by (force simp: window_ok_def)
  then have "filter (\<lambda>(q, h). unat q < unat (st_cursor s)) (st_held s) = []"
    by (auto simp: filter_empty_conv)
  moreover have "filter (\<lambda>(q, h). unat (st_cursor s) \<le> unat q) (st_held s) = st_held s"
    using low by (intro filter_True) force
  ultimately show ?thesis
    using assms by (simp add: loop_result_def released_below_def unreleased_def)
qed

lemma released_below_step:
  assumes "passed s s1 ds hs" and "unat (st_cursor s) < n"
  shows "released_below n s = ds @ released_below n s1"
proof -
  have "filter (\<lambda>(q, h). unat q < n) hs = hs"
    using passedD(2) [OF assms(1)] assms(2) by (intro filter_True) force
  moreover have "release s1 = release s"
    using assms(1) by (simp add: release_def passed_def fun_eq_iff)
  ultimately show ?thesis
    using passedD(1,5) [OF assms(1)] by (simp add: released_below_def unreleased_def)
qed

lemma loop_result_step:
  assumes "passed s s1 ds hs" and "st_cursor s1 \<noteq> 0" and "loop_result pol (after_step s s1) s' ds'"
  shows "loop_result pol s s' (ds @ ds')"
proof -
  have c1: "unat (st_cursor s1) = unat (st_cursor s) + 1"
    using assms(2) passedD(6) [OF assms(1)] unat_Suc_word by simp
  have same: "resyncs s1 = resyncs s" "ct_uniq (st_counters s1) = ct_uniq (st_counters s)"
      "ct_delivered (st_counters s1) = ct_delivered (st_counters s) + of_nat (length ds)" "st_max_seq s1 = st_max_seq s"
    using assms(1) unfolding passed_def by blast+
  have below: "released_below n (after_step s s1) = released_below n s1" for n
    by (simp add: released_below_def release_def)
  have keep: "filter (\<lambda>(q, h). n \<le> unat q) (st_held s) = filter (\<lambda>(q, h). n \<le> unat q) (st_held s1)" if "unat (st_cursor s) < n" for n
    using passedD(1,2) [OF assms(1)] that by (force simp: filter_empty_conv)
  have big: "unat (st_cursor s) < 2 ^ 32"
    using unat_u32_less [of "st_cursor s"] by simp
  show ?thesis
  proof (cases "resyncs s' = resyncs s")
    case True
    then have "unat (st_cursor s) < unat (st_cursor s')"
      using assms(3) c1 same(1) by (simp add: loop_result_def)
    then show ?thesis
      using True assms(3) same released_below_step [OF assms(1), of "unat (st_cursor s')"] keep
      by (simp add: loop_result_def below)
  next
    case False
    then show ?thesis
      using assms(3) same released_below_step [OF assms(1) big] by (simp add: loop_result_def below)
  qed
qed

lemma loop_result_wrap:
  assumes "passed s s1 ds hs" and "st_cursor s1 = 0" and "window_ok pol s" and "st_cursor s \<le> st_max_seq s"
  shows "loop_result pol s (refloor_on_wrap s1) ds"
proof -
  have "st_cursor s = - 1"
    using assms(2) passedD(6) [OF assms(1)] by (simp add: eq_neg_iff_add_eq_0)
  then have last: "unat (st_cursor s) = 2 ^ 32 - 1"
    by (simp add: unsigned_minus_1_eq_mask mask_eq_exp_minus_1)
  have "st_held s1 = []"
  proof (rule ccontr)
    assume "st_held s1 \<noteq> []"
    then obtain q where q: "q \<in> om_keys (st_held s1)"
      by (cases "st_held s1") auto
    then have "unat (st_cursor s) \<le> unat q"
      using window_preD(4) [of pol s q] assms(3) passedD(1) [OF assms(1)] by (auto simp: window_ok_def)
    then have "unat q = unat (st_cursor s)"
      using last unat_u32_less [of q] by simp
    then show False
      using q passedD(3) [OF assms(1)] by (simp add: unat_inject_iff)
  qed
  moreover have "released_below (2 ^ 32) s = ds @ released_below (2 ^ 32) s1"
    using last by (intro released_below_step [OF assms(1)]) simp
  ultimately have "released_below (2 ^ 32) s = ds"
    by (simp add: released_below_def unreleased_def)
  moreover have "window_ok pol (refloor_on_wrap s1)"
    by (rule window_ok_floor) (simp_all add: refloor_on_wrap_def)
  ultimately show ?thesis
    using assms(1,2) by (simp add: loop_result_def refloor_on_wrap_def passed_def)
qed

lemma advance_cursor_result:
  "window_ok pol s \<Longrightarrow> advance_cursor now_ms s = (s', ds) \<Longrightarrow> loop_result pol s s' ds"
proof (induction now_ms s arbitrary: s' ds rule: advance_cursor.induct)
  case (1 now_ms s)
  show ?case
  proof (cases "st_max_seq s < st_cursor s \<or> cursor_step now_ms s = None")
    case True
    then have "s' = s" "ds = []"
      using "1.prems"(2) by (auto simp: advance_cursor.simps [of now_ms s] split: if_splits)
    then show ?thesis
      using loop_stays [OF "1.prems"(1)] by simp
  next
    case False
    then obtain s1 ds1 where step: "cursor_step now_ms s = Some (s1, ds1)" and le: "\<not> st_max_seq s < st_cursor s"
      by (cases "cursor_step now_ms s") auto
    obtain hs where p: "passed s s1 ds1 hs"
      using cursor_step_passed [OF _ step] "1.prems"(1) unfolding window_ok_def by blast
    show ?thesis
    proof (cases "st_cursor s1 = 0")
      case True
      then have "s' = refloor_on_wrap s1" "ds = ds1"
        using "1.prems"(2) step le by (simp_all add: advance_cursor.simps [of now_ms s])
      then show ?thesis
        using loop_result_wrap [OF p True "1.prems"(1)] le by simp
    next
      case nz: False
      obtain s2 ds2 where rest: "advance_cursor now_ms (after_step s s1) = (s2, ds2)"
        by (cases "advance_cursor now_ms (after_step s s1)")
      then have "s' = s2" "ds = ds1 @ ds2"
        using "1.prems"(2) step le nz by (simp_all add: advance_cursor.simps [of now_ms s] after_step_def)
      moreover have "loop_result pol (after_step s s1) s2 ds2"
        using "1.IH" [OF le step refl nz] passed_ok [OF "1.prems"(1) _ p nz] le rest
        by (simp add: after_step_def)
      ultimately show ?thesis
        using loop_result_step [OF p nz] by simp
    qed
  qed
qed

section \<open>Counters\<close>

definition pending :: "Stream \<Rightarrow> nat" where
  "pending s = length (unreleased (st_held s))"

text \<open>Packets accepted, less those handed on, less those waiting: in 64-bit arithmetic, as the
  counters are kept.\<close>

definition unaccounted :: "Stream \<Rightarrow> u64" where
  "unaccounted s = ct_uniq (st_counters s) - ct_delivered (st_counters s) - of_nat (pending s)"

lemma unreleased_emplace:
  "q \<notin> om_keys hs \<Longrightarrow> \<not> hl_delivered_early h \<Longrightarrow> length (unreleased (om_emplace q h hs)) = Suc (length (unreleased hs))"
  by (induction q h hs rule: om_emplace.induct) (auto simp: unreleased_def)

lemma unreleased_mark:
  assumes "om_ok hs" and "(q, h) \<in> set hs" and "\<not> hl_delivered_early h"
  shows "length (unreleased (map (\<lambda>(q', x). (q', if q' = q then x\<lparr>hl_delivered_early := d\<rparr> else x)) hs)) + (if d then 1 else 0)
    = length (unreleased hs)"
proof -
  obtain ys zs where hs: "hs = ys @ (q, h) # zs"
    using assms(2) by (meson split_list)
  have "q \<notin> om_keys ys" "q \<notin> om_keys zs"
    using assms(1) unfolding hs om_ok_append om_ok_Cons by auto
  then have same: "map (\<lambda>(q', x). (q', if q' = q then x\<lparr>hl_delivered_early := d\<rparr> else x)) xs = xs" if "xs = ys \<or> xs = zs" for xs
    using that by (intro map_idI) force
  show ?thesis
    using same [of ys] same [of zs] assms(3) by (simp add: hs unreleased_def)
qed

lemma note_gaps_fields: "\<exists>gs. note_gaps pol now_ms s = s\<lparr>st_gaps := gs\<rparr>"
proof -
  have "\<exists>gs. t = s\<lparr>st_gaps := gs\<rparr>" if "t = s" for t
    using that by (intro exI [of _ "st_gaps s"]) simp
  moreover have "\<exists>gs. fold (\<lambda>n s. let q = st_cursor s + of_nat n
      in if om_has q (st_held s) \<or> om_has q (st_gaps s) then s
         else s\<lparr>st_gaps := om_emplace q (new_gap s now_ms q) (st_gaps s)\<rparr>) ns s = s\<lparr>st_gaps := gs\<rparr>" for ns
    by (rule fold_invariant [where Q = "\<lambda>_. True"]) (auto simp: Let_def intro: calculation)
  ultimately show ?thesis
    by (simp add: note_gaps_def Let_def)
qed

lemma gaps_unaccounted: "unaccounted (s\<lparr>st_gaps := gs\<rparr>) = unaccounted s"
  by (simp add: unaccounted_def pending_def)

lemma evaluate_gaps_counters:
  assumes "om_ok (st_gaps s)"
  shows "pending (evaluate_gaps e now_ms s) = pending s" "resyncs (evaluate_gaps e now_ms s) = resyncs s"
    "unaccounted (evaluate_gaps e now_ms s) = unaccounted s" "st_cursor (evaluate_gaps e now_ms s) = st_cursor s"
  using evaluate_gaps_eq(1) [OF assms, of e now_ms] by (auto simp: only_gaps_differ_def pending_def unaccounted_def)

lemma mark_frame_complete_counters:
  "unaccounted (mark_frame_complete pol b s) = unaccounted s" "resyncs (mark_frame_complete pol b s) = resyncs s"
  "st_cursor (mark_frame_complete pol b s) = st_cursor s"
  by (simp_all add: mark_frame_complete_def unaccounted_def pending_def Let_def)

lemma early_step_counters:
  assumes "om_ok (st_held s)" and "(seq_no (dv_hdr v), h) \<in> set (st_held s)" and "\<not> hl_delivered_early h"
  shows "unaccounted (early_step pol early v s) = unaccounted s" "resyncs (early_step pol early v s) = resyncs s"
proof -
  let ?h = "\<lambda>d. map (\<lambda>(q, x). (q, if q = seq_no (dv_hdr v) then x\<lparr>hl_delivered_early := d\<rparr> else x)) (st_held s)"
  have pend: "of_nat (pending s) = ((if d then 1 else 0) + of_nat (length (unreleased (?h d))) :: u64)" for d
    using arg_cong [OF unreleased_mark [OF assms, of d], of "of_nat :: nat \<Rightarrow> u64"]
    by (cases d) (simp_all add: pending_def)
  have held: "pending (s\<lparr>st_held := hs\<rparr>) = length (unreleased hs)"
      "pending (s\<lparr>st_held := hs, st_counters := c\<rparr>) = length (unreleased hs)" for hs c
    by (simp_all add: pending_def)
  have acc: "unaccounted (if d then upd_counters (\<lambda>c. c\<lparr>ct_delivered := ct_delivered c + 1\<rparr>) (s\<lparr>st_held := ?h d\<rparr>) else s\<lparr>st_held := ?h d\<rparr>)
      = unaccounted s" for d
    by (cases d) (simp_all add: unaccounted_def held pend [of d])
  have "unaccounted (early_step pol early v s) = unaccounted s \<and> resyncs (early_step pol early v s) = resyncs s"
  proof (cases early)
    case (Some f)
    obtain d c where f: "f (st_key s) (st_local_stream_id s) (block_id (dv_hdr v)) (data_flags (dv_hdr v)) (dv_payload v) = (d, c)"
      by fastforce
    let ?t = "if d then upd_counters (\<lambda>c. c\<lparr>ct_delivered := ct_delivered c + 1\<rparr>) (s\<lparr>st_held := ?h d\<rparr>) else s\<lparr>st_held := ?h d\<rparr>"
    have "early_step pol early v s = (if c then mark_frame_complete pol (block_id (dv_hdr v)) ?t else ?t)"
      unfolding early_step_def Some option.case Let_def f prod.case ..
    moreover have "unaccounted ?t = unaccounted s" "resyncs ?t = resyncs s"
      using acc [of d] by simp_all
    ultimately show ?thesis
      using mark_frame_complete_counters(1,2) [of pol "block_id (dv_hdr v)" ?t] by presburger
  qed (simp add: early_step_def)
  then show "unaccounted (early_step pol early v s) = unaccounted s" "resyncs (early_step pol early v s) = resyncs s"
    by blast+
qed

section \<open>Events on a stream\<close>

datatype rx_event =
    RxPacket RxEngine u8 data_view u64 early_deliver
  | RxComplete RxEngine u32 u64
  | RxTick RxEngine u64

text \<open>The engine of an event supplies the adapters and the table; the policy does not change.\<close>

fun stream_step :: "RxPolicy \<Rightarrow> rx_event \<Rightarrow> Stream \<Rightarrow> Stream \<times> delivery list" where
  "stream_step pol (RxPacket e i v now_ms early) s = ingest (e\<lparr>rx_policy := pol\<rparr>) i v now_ms early s"
| "stream_step pol (RxComplete e b now_ms) s = complete_stream (e\<lparr>rx_policy := pol\<rparr>) b now_ms s"
| "stream_step pol (RxTick e now_ms) s = tick_stream (e\<lparr>rx_policy := pol\<rparr>) now_ms s"

definition refloors :: "RxPolicy \<Rightarrow> rx_event \<Rightarrow> Stream \<Rightarrow> bool" where
  "refloors pol ev s \<longleftrightarrow> resyncs (fst (stream_step pol ev s)) \<noteq> resyncs s"

text \<open>Every event that is not stopped at the gate or by the duplicate check runs the loop on a
  window that differs from the stream's in the stored packet only.\<close>

definition prepared :: "RxPolicy \<Rightarrow> Stream \<Rightarrow> Stream \<Rightarrow> bool" where
  "prepared pol s t \<longleftrightarrow> window_ok pol t
     \<and> (resyncs t = resyncs s \<and> st_cursor t = st_cursor s \<and> unaccounted t = unaccounted s \<or> resyncs t = resyncs s + 1)"

lemma prepared_transfer:
  assumes "prepared pol s t" and "window_view t' = window_view t" and "unaccounted t' = unaccounted t" and "resyncs t' = resyncs t"
  shows "prepared pol s t'"
proof -
  have "st_cursor t' = st_cursor t"
    using assms(2) by (simp add: window_view_def)
  then show ?thesis
    using assms window_ok_transfer [OF _ assms(2)] unfolding prepared_def by simp
qed

lemma prepared_evaluate:
  assumes "prepared pol s t"
  shows "prepared pol s (evaluate_gaps e now_ms t)"
proof -
  have "om_ok (st_gaps t)"
    using assms window_preD(2) by (auto simp: prepared_def window_ok_def)
  then show ?thesis
    by (intro prepared_transfer [OF assms] evaluate_gaps_view evaluate_gaps_counters)
qed

lemma tick_prepared: "window_ok pol s \<Longrightarrow> prepared pol s (evaluate_gaps e now_ms s)"
  by (rule prepared_evaluate) (simp add: prepared_def)

lemma complete_prepared:
  "window_ok pol s \<Longrightarrow> prepared pol s (evaluate_gaps e now_ms (mark_frame_complete pol b s))"
  by (rule prepared_evaluate)
    (simp add: prepared_def mark_frame_complete_counters window_ok_transfer [OF _ mark_frame_complete_view])

lemma note_header_counters:
  "unaccounted (note_header ver h now_ms s) = unaccounted s" "resyncs (note_header ver h now_ms s) = resyncs s"
  "st_cursor (note_header ver h now_ms s) = st_cursor s"
  by (simp_all add: note_header_def unaccounted_def pending_def Let_def)

lemma clamp_gate_prepared:
  assumes "window_ok pol s" and "clamp_gate pol h now_ms s = (pass, t)"
  shows "prepared pol s t" and "\<not> pass \<Longrightarrow> resyncs t = resyncs s"
proof -
  have "window_ok pol t"
    using clamp_gate_ok [OF assms(1), of h now_ms] assms(2) by simp
  then show "prepared pol s t"
    using assms(2)
    by (auto simp: prepared_def clamp_gate_def resync_def unaccounted_def pending_def Let_def split: if_splits)
  show "resyncs t = resyncs s" if "\<not> pass"
    using that assms(2) by (auto simp: clamp_gate_def resync_def Let_def split: if_splits)
qed

lemma store_packet_counters:
  assumes "seq_no (dv_hdr v) \<notin> om_keys (st_held s)"
  shows "unaccounted (store_packet e i v now_ms s) = unaccounted s" "resyncs (store_packet e i v now_ms s) = resyncs s"
proof -
  have "of_nat (pending (store_packet e i v now_ms s)) = (of_nat (pending s) + 1 :: u64)"
    using unreleased_emplace [OF assms] by (simp add: pending_def store_packet_fields)
  then show "unaccounted (store_packet e i v now_ms s) = unaccounted s"
    by (simp add: unaccounted_def) (simp add: store_packet_def bump_last_seq_def touch_block_def Let_def)
  show "resyncs (store_packet e i v now_ms s) = resyncs s"
    by (simp add: store_packet_def bump_last_seq_def touch_block_def Let_def)
qed

lemma ingest_cases:
  assumes "window_ok (rx_policy e) s"
  shows "(prepared (rx_policy e) s (fst (ingest e i v now_ms early s)) \<and> snd (ingest e i v now_ms early s) = [])
    \<or> (\<exists>t. prepared (rx_policy e) s t \<and> ingest e i v now_ms early s = advance_cursor now_ms t)"
proof -
  let ?pol = "rx_policy e" and ?h = "dv_hdr v"
  let ?s0 = "note_header (rx_local_table_version e) ?h now_ms s"
  obtain pass s1 where gate: "clamp_gate ?pol ?h now_ms ?s0 = (pass, s1)"
    by (cases "clamp_gate ?pol ?h now_ms ?s0")
  have p1: "prepared ?pol s s1"
    using clamp_gate_prepared(1) [OF note_header_ok [OF assms] gate] by (simp add: prepared_def note_header_counters)
  define s2 where "s2 = (if data_flags ?h AND kRetransmit = 0 then note_adapter_seq ?pol i (seq_no ?h) s1 else s1)"
  have run: "ingest e i v now_ms early s =
      (if \<not> pass then (s1, [])
       else if seq_no ?h < st_cursor s2 \<or> om_has (seq_no ?h) (st_held s2)
       then (bump_last_seq i (seq_no ?h) (upd_counters (\<lambda>c. c\<lparr>ct_diversity := ct_diversity c + 1\<rparr>) s2), [])
       else advance_cursor now_ms (evaluate_gaps e now_ms
              (early_step ?pol early v (note_gaps ?pol now_ms (store_packet e i v now_ms s2)))))"
    unfolding ingest_def Let_def gate prod.case s2_def [symmetric] ..
  have s2: "window_view s2 = window_view s1" "unaccounted s2 = unaccounted s1" "resyncs s2 = resyncs s1" "st_cursor s2 = st_cursor s1"
    by (simp_all add: s2_def note_adapter_seq_view) (simp_all add: note_adapter_seq_def unaccounted_def pending_def)
  have p2: "prepared ?pol s s2"
    by (intro prepared_transfer [OF p1] s2)
  show ?thesis
  proof (cases "\<not> pass \<or> seq_no ?h < st_cursor s2 \<or> om_has (seq_no ?h) (st_held s2)")
    case True
    let ?d = "bump_last_seq i (seq_no ?h) (upd_counters (\<lambda>c. c\<lparr>ct_diversity := ct_diversity c + 1\<rparr>) s2)"
    have "window_view ?d = window_view s2" "unaccounted ?d = unaccounted s2" "resyncs ?d = resyncs s2"
      by (simp_all add: bump_last_seq_view counters_view) (simp_all add: bump_last_seq_def unaccounted_def pending_def)
    then have "prepared ?pol s ?d"
      by (intro prepared_transfer [OF p2])
    moreover have "ingest e i v now_ms early s = (if pass then (?d, []) else (s1, []))"
      using True unfolding run by simp
    ultimately show ?thesis
      using p1 by simp
  next
    case False
    let ?t1 = "store_packet e i v now_ms s2"
    let ?t2 = "note_gaps ?pol now_ms ?t1"
    let ?t3 = "early_step ?pol early v ?t2"
    have fresh: "seq_no ?h \<notin> om_keys (st_held s2)" and ge: "\<not> seq_no ?h < st_cursor s2"
      using False by (simp_all add: om_has_iff)
    have pre2: "window_pre ?pol s2"
      using p2 by (simp add: prepared_def window_ok_def)
    have "clamp_gate ?pol ?h now_ms ?s0 = (True, s1)"
      using False gate by simp
    then have "plausible_forward (st_cursor s2) (seq_no ?h) (fwd_clamp_pkts ?pol)"
      unfolding s2(4) by (rule clamp_gate_pass)
    then have "window_pre ?pol ?t1"
      by (rule store_packet_pre [OF pre2 ge])
    moreover have "st_cursor ?t1 \<le> st_max_seq ?t1"
      using ge by (simp add: store_packet_fields le_max_iff_disj not_less)
    ultimately have ok2: "window_ok ?pol ?t2"
      by (rule note_gaps_ok)
    obtain gs where t2: "?t2 = ?t1\<lparr>st_gaps := gs\<rparr>"
      using note_gaps_fields by blast
    have "map_of (st_held ?t2) (seq_no ?h) = Some \<lparr>hl_payload = dv_payload v, hl_block_id = block_id ?h,
        hl_flags = data_flags ?h, hl_delivered_early = False\<rparr>"
      using fresh window_preD(1) [OF pre2] by (simp add: t2 store_packet_fields map_of_emplace om_has_iff)
    then have in_held: "(seq_no ?h, \<lparr>hl_payload = dv_payload v, hl_block_id = block_id ?h,
        hl_flags = data_flags ?h, hl_delivered_early = False\<rparr>) \<in> set (st_held ?t2)"
      by (rule map_of_SomeD)
    have "unaccounted ?t2 = unaccounted s2" "resyncs ?t2 = resyncs s2" "st_cursor ?t2 = st_cursor s2"
      unfolding t2 using store_packet_counters [OF fresh] by (simp_all add: gaps_unaccounted store_packet_fields(1))
    then have p3: "prepared ?pol s ?t2"
      using p2 ok2 unfolding prepared_def by simp
    have "om_ok (st_held ?t2)"
      using ok2 window_preD(1) unfolding window_ok_def by blast
    then have "prepared ?pol s ?t3"
      by (intro prepared_transfer [OF p3] early_step_view early_step_counters [OF _ in_held]) simp_all
    moreover have "ingest e i v now_ms early s = advance_cursor now_ms (evaluate_gaps e now_ms ?t3)"
      using False unfolding run by simp
    ultimately show ?thesis
      using prepared_evaluate by blast
  qed
qed

lemma stream_step_cases:
  assumes "window_ok pol s"
  shows "(prepared pol s (fst (stream_step pol ev s)) \<and> snd (stream_step pol ev s) = [])
    \<or> (\<exists>t now_ms. prepared pol s t \<and> stream_step pol ev s = advance_cursor now_ms t)"
proof (cases ev)
  case (RxPacket e i v now_ms early)
  then show ?thesis
    using ingest_cases [of "e\<lparr>rx_policy := pol\<rparr>" s i v now_ms early] assms by auto
next
  case (RxComplete e b now_ms)
  then show ?thesis
    using complete_prepared [OF assms, of "e\<lparr>rx_policy := pol\<rparr>" now_ms b] by (auto simp: complete_stream_def)
next
  case (RxTick e now_ms)
  then show ?thesis
    using tick_prepared [OF assms, of "e\<lparr>rx_policy := pol\<rparr>" now_ms] by (auto simp: tick_stream_def)
qed

end
