(* ===== verification/Rx_Delivery.thy ===== *)
theory Rx_Delivery
  imports Rx_Props
begin

text \<open>
  What the receive engine promises its client: packets of a stream come out in order and at
  most once, every accepted packet is handed on or still waiting, the reorder window is bounded,
  and a passed deadline releases everything behind a gap.
\<close>

section \<open>In-order delivery\<close>

lemma released_below_in:
  "d \<in> set (released_below n s) \<Longrightarrow> fst d \<in> om_keys (st_held s) \<and> unat (fst d) < n"
  by (force simp: released_below_def unreleased_def release_def)

lemma released_below_sorted:
  assumes "om_ok (st_held s)"
  shows "sorted_wrt (<) (map (\<lambda>d. unat (fst d)) (released_below n s))"
proof -
  have "sorted_wrt (<) (map fst (unreleased (filter (\<lambda>(q, h). unat q < n) (st_held s))))"
    using assms om_ok_filter unfolding unreleased_def om_ok_def by blast
  then show ?thesis
    by (simp add: released_below_def release_def sorted_wrt_map o_def word_less_nat_alt)
qed

text \<open>An event in one of its two forms: nothing released, or a run of the loop.\<close>

lemma stream_step_result:
  assumes "window_ok pol s"
  shows "\<exists>t. prepared pol s t \<and> loop_result pol t (fst (stream_step pol ev s)) (snd (stream_step pol ev s))"
  using stream_step_cases [OF assms, of ev]
proof (elim disjE exE conjE)
  assume p: "prepared pol s (fst (stream_step pol ev s))" and "snd (stream_step pol ev s) = []"
  then show ?thesis
    using loop_stays [of pol "fst (stream_step pol ev s)"] by (auto simp: prepared_def)
next
  fix t now_ms assume "prepared pol s t" "stream_step pol ev s = advance_cursor now_ms t"
  then show ?thesis
    using advance_cursor_result [of pol t now_ms] by (auto simp: prepared_def intro!: exI [of _ t])
qed

lemma word_bump_neq: "(x :: u64) + 1 \<noteq> x" "(x :: u64) + 1 + 1 \<noteq> x"
proof -
  show "x + 1 \<noteq> x"
    by simp
  have "x + 2 \<noteq> x"
    by simp
  then show "x + 1 + 1 \<noteq> x"
    by (simp add: add.assoc)
qed

lemma steady_step:
  assumes "window_ok pol s" and "\<not> refloors pol ev s"
  obtains t where "window_ok pol t" "st_cursor t = st_cursor s" "unaccounted t = unaccounted s"
    "loop_result pol t (fst (stream_step pol ev s)) (snd (stream_step pol ev s))"
    "resyncs (fst (stream_step pol ev s)) = resyncs t"
proof -
  let ?s = "fst (stream_step pol ev s)"
  obtain t where t: "prepared pol s t" "loop_result pol t ?s (snd (stream_step pol ev s))"
    using stream_step_result [OF assms(1)] by blast
  have same: "resyncs ?s = resyncs s"
    using assms(2) by (simp add: refloors_def)
  have loop: "resyncs ?s = resyncs t \<or> resyncs ?s = resyncs t + 1"
    using t(2) unfolding loop_result_def by metis
  have not_up: "resyncs t \<noteq> resyncs s + 1"
    using loop same word_bump_neq [of "resyncs s"] by metis
  then have "window_ok pol t" "st_cursor t = st_cursor s" "unaccounted t = unaccounted s" "resyncs t = resyncs s"
    using t(1) unfolding prepared_def by blast+
  then show thesis
    using that [OF _ _ _ t(2)] same by simp
qed

lemma loop_conserves:
  assumes "loop_result pol t s' ds"
  shows "unaccounted s' = unaccounted t"
proof -
  have split: "length (unreleased hs) = length (unreleased (filter (\<lambda>(q, h). unat q < n) hs))
      + length (unreleased (filter (\<lambda>(q, h). n \<le> unat q) hs))" for n hs
    by (induction hs) (auto simp: unreleased_def)
  have all: "filter (\<lambda>(q, h). unat q < 2 ^ 32) hs = hs" for hs :: "(u32, Held) omap"
    using unat_u32_less by (intro filter_True) auto
  have "pending t = length ds + pending s'"
  proof (cases "resyncs s' = resyncs t")
    case True
    then show ?thesis
      using assms split [of "st_held t" "unat (st_cursor s')"] by (simp add: loop_result_def pending_def released_below_def)
  next
    case False
    then have "ds = released_below (2 ^ 32) t" "st_held s' = []"
      using assms by (simp_all add: loop_result_def)
    then show ?thesis
      unfolding released_below_def all by (simp add: pending_def unreleased_def)
  qed
  then have "of_nat (pending t) = (of_nat (length ds) + of_nat (pending s') :: u64)"
    by simp
  then show ?thesis
    using assms by (simp add: unaccounted_def loop_result_def)
qed

interpretation rx: in_order_delivery "stream_step pol" "window_ok pol" "\<lambda>s. unat (st_cursor s)" "\<lambda>d. unat (fst d)" "refloors pol"
  for pol
proof
  fix s ev assume ok: "window_ok pol s"
  obtain t where t: "prepared pol s t" "loop_result pol t (fst (stream_step pol ev s)) (snd (stream_step pol ev s))"
    using stream_step_result [OF ok] by blast
  show "window_ok pol (fst (stream_step pol ev s))"
    using t(2) by (simp add: loop_result_def)
  have "om_ok (st_held t)"
    using t(1) window_preD(1) by (auto simp: prepared_def window_ok_def)
  then show "sorted_wrt (<) (map (\<lambda>d. unat (fst d)) (snd (stream_step pol ev s)))"
    using t(2) released_below_sorted by (simp add: loop_result_def split: if_splits)
next
  fix s ev assume "window_ok pol s" "\<not> refloors pol ev s"
  then obtain t where t: "window_ok pol t" "st_cursor t = st_cursor s"
      "loop_result pol t (fst (stream_step pol ev s)) (snd (stream_step pol ev s))"
      "resyncs (fst (stream_step pol ev s)) = resyncs t"
    by (rule steady_step)
  show "unat (st_cursor s) \<le> unat (st_cursor (fst (stream_step pol ev s)))"
    using t by (simp add: loop_result_def)
  fix d assume "d \<in> set (snd (stream_step pol ev s))"
  then have "fst d \<in> om_keys (st_held t)" "unat (fst d) < unat (st_cursor (fst (stream_step pol ev s)))"
    using t(3,4) released_below_in by (auto simp: loop_result_def)
  then show "unat (st_cursor s) \<le> unat (fst d) \<and> unat (fst d) < unat (st_cursor (fst (stream_step pol ev s)))"
    using window_preD(4) [of pol t "fst d"] t(1,2) by (simp add: window_ok_def)
qed

text \<open>C2: Whatever packets, frame completions and ticks a latched stream sees, between two
  resynchronisations the receive engine hands packets to its client in strictly ascending
  sequence order, so none twice, and the cursor never moves back.\<close>

theorem rx_delivers_in_order_once:
  assumes "window_ok pol s" and "steady (stream_step pol) (refloors pol) evs s"
  shows "sorted_wrt (<) (map (\<lambda>d. unat (fst d)) (snd (run_steps (stream_step pol) evs s)))
    \<and> distinct (map (\<lambda>d. unat (fst d)) (snd (run_steps (stream_step pol) evs s)))
    \<and> unat (st_cursor s) \<le> unat (st_cursor (fst (run_steps (stream_step pol) evs s)))"
  using rx.run_sorted [OF assms] rx.run_distinct [OF assms] rx.run_cursor_mono [OF assms] by blast

lemma window_length:
  assumes "window_ok pol s"
  shows "length (st_held s) + length (st_gaps s) \<le> unat (fwd_clamp_pkts pol) + 1"
proof -
  have pre: "window_pre pol s"
    using assms by (simp add: window_ok_def)
  note w = window_preD [OF pre]
  let ?K = "unat ` (om_keys (st_held s) \<union> om_keys (st_gaps s))"
  have "length (st_held s) + length (st_gaps s) = card (om_keys (st_held s) \<union> om_keys (st_gaps s))"
    using w(1,2,6) by (simp add: om_length_card card_Un_disjoint)
  also have "\<dots> = card ?K"
    by (rule card_image [symmetric]) (auto simp: inj_on_def word_unat_eq_iff)
  also have "\<dots> \<le> card {unat (st_cursor s)..unat (st_max_seq s)}"
    using w(4,5) by (intro card_mono) force+
  also have "\<dots> \<le> unat (fwd_clamp_pkts pol) + 1"
    using w(8) by simp
  finally show ?thesis .
qed

text \<open>C4: Conservation: between two resynchronisations every packet counted as unique is counted as
  delivered or is still held, in the 64-bit arithmetic of the counters, whatever events follow
  and whichever packets the early-delivery callback takes.\<close>

theorem rx_conserves_packets:
  assumes "window_ok pol s" and "steady (stream_step pol) (refloors pol) evs s"
  shows "unaccounted (fst (run_steps (stream_step pol) evs s)) = unaccounted s"
  using assms
proof (induction evs arbitrary: s)
  case (Cons ev evs)
  let ?s = "fst (stream_step pol ev s)"
  obtain t where t: "window_ok pol t" "unaccounted t = unaccounted s" "loop_result pol t ?s (snd (stream_step pol ev s))"
      "resyncs ?s = resyncs t"
    using Cons.prems by (auto elim: steady_step)
  have "unaccounted ?s = unaccounted t"
    using loop_conserves [OF t(3)] .
  then show ?case
    using Cons t(2) rx.ok_step by (simp add: run_steps_Cons del: run_steps.simps(2))
qed simp

section \<open>Progress\<close>

text \<open>A gap the loop does not wait for at time \<open>now_ms\<close>.\<close>

definition gap_clear :: "Stream \<Rightarrow> u32 \<Rightarrow> Gap \<Rightarrow> bool" where
  "gap_clear s q g \<longleftrightarrow> gp_fec_satisfied g \<or> gp_superseded g
     \<or> (if st_best_effort s then gp_declared_lost g
        else case om_upper_bound q (st_held s) of
               None \<Rightarrow> False
             | Some (_, h) \<Rightarrow> hl_block_id h \<in> om_keys (st_blocks s) \<and> st_max_block s \<le> hl_block_id h)"

definition deadlines_passed :: "u64 \<Rightarrow> Stream \<Rightarrow> bool" where
  "deadlines_passed now_ms s \<longleftrightarrow> (\<forall>(b, bi) \<in> set (st_blocks s). bi_deadline_ms bi \<le> now_ms)"

definition clear :: "u64 \<Rightarrow> Stream \<Rightarrow> bool" where
  "clear now_ms s \<longleftrightarrow> (\<forall>(q, g) \<in> set (st_gaps s). gap_clear s q g) \<and> deadlines_passed now_ms s"

lemma gap_verdict_clear:
  assumes "gap_clear s (st_cursor s) g" and "deadlines_passed now_ms s"
  shows "gap_verdict now_ms s g \<noteq> None"
proof -
  have "\<exists>bi. map_of (st_blocks s) b = Some bi \<and> bi_deadline_ms bi \<le> now_ms" if "b \<in> om_keys (st_blocks s)" for b
    using that assms(2) map_of_SomeD [of "st_blocks s" b] map_of_eq_None_iff [of "st_blocks s" b]
    by (fastforce simp: deadlines_passed_def)
  then show ?thesis
    using assms(1) by (fastforce simp: gap_clear_def gap_verdict_def split: option.splits if_splits)
qed

lemma find_skip: "(\<And>x. x \<in> set xs \<Longrightarrow> \<not> P x) \<Longrightarrow> find P (xs @ ys) = find P ys"
  by (induction xs) auto

lemma clear_step:
  assumes "window_pre pol s" and "clear now_ms s" and "passed s s1 ds hs"
  shows "clear now_ms (after_step s s1)"
proof -
  note p = passedD [OF assms(3)] and w = window_preD [OF assms(1)]
  have ok: "om_ok (st_blocks s1)"
    using w(3) p(9) by simp
  have dead: "deadlines_passed now_ms (after_step s s1)"
    using assms(2) p(9) set_dropWhileD
    by (fastforce simp: clear_def deadlines_passed_def after_step_def prune_blocks_def)
  have last: "st_last_delivered_block s1 \<le> st_max_block s"
    using p(11) w(10,11) unfolding block_known_def by auto
  have "gap_clear (after_step s s1) q g" if qg: "(q, g) \<in> set (st_gaps s1)" for q g
  proof -
    have q: "(q, g) \<in> set (st_gaps s)" "q \<noteq> st_cursor s"
      using qg p(4) by (auto simp: om_erase_def)
    then have "gap_clear s q g"
      using assms(2) by (auto simp: clear_def)
    moreover have "st_cursor s \<le> q"
      using w(5) [of q] q(1) by (force simp: word_le_nat_alt)
    then have "om_upper_bound q (st_held s) = om_upper_bound q (st_held s1)"
      using p(1,2) unfolding om_upper_bound_def by (auto intro!: find_skip)
    ultimately show ?thesis
      using p(8,9,10) last after_step_blocks(2) [OF ok, of _ s]
      by (fastforce simp: gap_clear_def split: option.splits if_splits)
  qed
  then show ?thesis
    using dead by (auto simp: clear_def)
qed

lemma window_empty:
  assumes "window_pre pol s" and "\<not> st_cursor s < st_max_seq s" and "st_cursor s \<notin> om_keys (st_held s)"
  shows "q \<notin> om_keys (st_held s) \<union> om_keys (st_gaps s)"
proof
  assume "q \<in> om_keys (st_held s) \<union> om_keys (st_gaps s)"
  then have "unat (st_cursor s) \<le> unat q" "unat q \<le> unat (st_max_seq s)" "q \<in> om_keys (st_held s) \<or> unat q < unat (st_max_seq s)"
    using window_preD(4,5) [OF assms(1), of q] by (metis Un_iff less_imp_le_nat)+
  moreover have "unat (st_max_seq s) \<le> unat (st_cursor s)"
    using assms(2) by (simp add: word_less_nat_alt)
  ultimately have "unat q = unat (st_cursor s)" "q \<in> om_keys (st_held s)"
    by linarith+
  then show False
    using assms(3) by (simp add: unat_inject_iff)
qed

lemma cursor_step_NoneD:
  assumes "cursor_step now_ms s = None"
  shows "st_cursor s \<notin> om_keys (st_held s)"
    and "map_of (st_gaps s) (st_cursor s) = Some g \<Longrightarrow> gap_verdict now_ms s g = None"
proof -
  have "map_of (st_held s) (st_cursor s) = None"
    using assms by (auto simp: cursor_step_def split: option.splits)
  then show "st_cursor s \<notin> om_keys (st_held s)"
    by (simp add: map_of_eq_None_iff)
  show "gap_verdict now_ms s g = None" if "map_of (st_gaps s) (st_cursor s) = Some g"
    using assms that \<open>map_of (st_held s) (st_cursor s) = None\<close> by (auto simp: cursor_step_def split: option.splits)
qed

lemma advance_cursor_drains:
  "window_ok pol s \<Longrightarrow> clear now_ms s \<Longrightarrow> advance_cursor now_ms s = (s', ds) \<Longrightarrow> st_held s' = [] \<and> st_gaps s' = []"
proof (induction now_ms s arbitrary: s' ds rule: advance_cursor.induct)
  case (1 now_ms s)
  have pre: "window_pre pol s"
    using "1.prems"(1) by (simp add: window_ok_def)
  note w = window_preD [OF pre]
  have stuck: "st_held s = [] \<and> st_gaps s = []" if "\<forall>q. q \<notin> om_keys (st_held s) \<union> om_keys (st_gaps s)"
    using that by (cases "st_held s"; cases "st_gaps s") auto
  show ?case
  proof (cases "cursor_step now_ms s")
    case None
    note none = cursor_step_NoneD [OF None]
    have "st_cursor s \<notin> om_keys (st_gaps s)"
    proof
      assume "st_cursor s \<in> om_keys (st_gaps s)"
      then obtain g where g: "(st_cursor s, g) \<in> set (st_gaps s)" "map_of (st_gaps s) (st_cursor s) = Some g"
        using w(2) map_of_ok_iff by fastforce
      then show False
        using "1.prems"(2) gap_verdict_clear [of s g now_ms] none(2) [of g] by (auto simp: clear_def)
    qed
    note nc = none(1) this
    then have "\<not> st_cursor s < st_max_seq s"
      using "1.prems"(1) unfolding window_ok_def covered_def by (metis UnE order_refl)
    then have "q \<notin> om_keys (st_held s) \<union> om_keys (st_gaps s)" for q
      using window_empty [OF pre _ nc(1)] by blast
    then have "st_held s = [] \<and> st_gaps s = []"
      by (intro stuck allI)
    moreover have "s' = s"
      using "1.prems"(3) None by (simp add: advance_cursor.simps [of now_ms s] split: if_splits)
    ultimately show ?thesis
      by simp
  next
    case (Some x)
    obtain s1 ds1 where step: "cursor_step now_ms s = Some (s1, ds1)"
      using Some by (cases x) auto
    obtain hs where p: "passed s s1 ds1 hs"
      using cursor_step_passed [OF pre step] by blast
    show ?thesis
    proof (cases "st_max_seq s < st_cursor s")
      case True
      then have "\<not> st_cursor s < st_max_seq s" "st_cursor s \<notin> om_keys (st_held s)"
        using w(4) [of "st_cursor s"] by (auto simp: word_less_nat_alt)
      then have "q \<notin> om_keys (st_held s) \<union> om_keys (st_gaps s)" for q
        using window_empty [OF pre] by blast
      then have "st_held s = [] \<and> st_gaps s = []"
        by (intro stuck allI)
      moreover have "s' = s"
        using "1.prems"(3) True by (simp add: advance_cursor.simps [of now_ms s])
      ultimately show ?thesis
        by simp
    next
      case le: False
      show ?thesis
      proof (cases "st_cursor s1 = 0")
        case True
        then show ?thesis
          using "1.prems"(3) step le by (simp add: advance_cursor.simps [of now_ms s] refloor_on_wrap_def) force
      next
        case nz: False
        obtain s2 ds2 where rest: "advance_cursor now_ms (after_step s s1) = (s2, ds2)"
          by (cases "advance_cursor now_ms (after_step s s1)")
        then have "s' = s2"
          using "1.prems"(3) step le nz by (simp add: advance_cursor.simps [of now_ms s] after_step_def)
        then show ?thesis
          using "1.IH" [OF le step refl nz, folded after_step_def, OF _ clear_step [OF pre "1.prems"(2) p] rest]
            passed_ok [OF "1.prems"(1) _ p nz] le by simp
      qed
    qed
  qed
qed

text \<open>After the evaluation at a time past the deadlines (and, best effort, past the dwell time of
  every gap) the loop waits for nothing.\<close>

definition dwelt :: "RxPolicy \<Rightarrow> u64 \<Rightarrow> Stream \<Rightarrow> bool" where
  "dwelt pol now_ms s \<longleftrightarrow> (\<forall>(q, g) \<in> set (st_gaps s). ucast (dwell_ceiling_ms pol) \<le> now_ms - gp_first_missing_ms g)"

lemma evaluate_gaps_clear:
  assumes "window_ok (rx_policy e) s" and "deadlines_passed now_ms s" and "st_best_effort s \<Longrightarrow> dwelt (rx_policy e) now_ms s"
  shows "clear now_ms (evaluate_gaps e now_ms s)"
proof -
  have pre: "window_pre (rx_policy e) s"
    using assms(1) by (simp add: window_ok_def)
  note w = window_preD [OF pre]
  let ?J = "judged_gap (rx_policy e) (min_live_adapter_seq e s now_ms) now_ms s"
  let ?t = "evaluate_gaps e now_ms s"
  have fields: "st_best_effort ?t = st_best_effort s" "st_held ?t = st_held s" "st_blocks ?t = st_blocks s"
      "st_max_block ?t = st_max_block s"
    using evaluate_gaps_eq(1) [OF w(2), of e now_ms] by (auto simp: only_gaps_differ_def)
  have "gap_clear s q (?J q g)" if qg: "(q, g) \<in> set (st_gaps s)" for q g
  proof (cases "st_best_effort s")
    case True
    then show ?thesis
      using assms(3) qg by (auto simp: gap_clear_def judged_gap_def dwelt_def)
  next
    case False
    have "unat q < unat (st_max_seq s)" "unat (st_cursor s) \<le> unat q"
      using w(5) [of q] qg by force+
    then have "st_max_seq s \<in> om_keys (st_held s)" "q < st_max_seq s"
      using w(7) by (simp_all add: word_less_nat_alt)
    then have "om_upper_bound q (st_held s) \<noteq> None"
      unfolding om_upper_bound_None by (meson linorder_not_less)
    then obtain uq h where ub: "om_upper_bound q (st_held s) = Some (uq, h)"
      by fastforce
    then have "block_known s h"
      using om_upper_bound_SomeD [OF w(1) ub] w(11) by blast
    then show ?thesis
      using ub False by (auto simp: gap_clear_def judged_gap_def block_known_def)
  qed
  moreover have "gap_clear ?t q g \<longleftrightarrow> gap_clear s q g" for q g
    unfolding gap_clear_def fields ..
  moreover have "deadlines_passed now_ms ?t"
    using assms(2) by (simp add: deadlines_passed_def fields)
  ultimately show ?thesis
    unfolding clear_def evaluate_gaps_eq(2) [OF w(2)] by auto
qed

text \<open>C3: No head-of-line blocking past the deadline: in every stream with an intact window, a tick at
  or after the deadlines of its blocks (and, for a best-effort stream, after the dwell time of
  its gaps) releases every held packet not taken early, in order, and leaves neither packets nor
  gaps behind.\<close>

theorem rx_deadline_releases_everything:
  assumes "window_ok (rx_policy e) s" and "deadlines_passed now_ms s"
    and "st_best_effort s \<Longrightarrow> dwelt (rx_policy e) now_ms s"
  shows "st_held (fst (tick_stream e now_ms s)) = [] \<and> st_gaps (fst (tick_stream e now_ms s)) = []
    \<and> snd (tick_stream e now_ms s) = map (release s) (unreleased (st_held s))"
proof -
  let ?t = "evaluate_gaps e now_ms s"
  obtain s' ds where run: "advance_cursor now_ms ?t = (s', ds)"
    by (cases "advance_cursor now_ms ?t")
  have ok: "window_ok (rx_policy e) ?t"
    using tick_prepared [OF assms(1)] by (simp add: prepared_def)
  have drained: "st_held s' = [] \<and> st_gaps s' = []"
    using advance_cursor_drains [OF ok evaluate_gaps_clear [OF assms] run] by simp
  have "om_ok (st_gaps s)"
    using window_preD(2) assms(1) unfolding window_ok_def by blast
  then have held: "st_held ?t = st_held s" "release ?t = release s"
    using evaluate_gaps_eq(1) [of s e now_ms] by (auto simp: only_gaps_differ_def release_def fun_eq_iff)
  have loop: "loop_result (rx_policy e) ?t s' ds"
    by (rule advance_cursor_result [OF ok run])
  have "ds = map (release s) (unreleased (st_held s))"
  proof (cases "resyncs s' = resyncs ?t")
    case True
    then have "filter (\<lambda>(q, h). unat (st_cursor s') \<le> unat q) (st_held s) = []" "ds = released_below (unat (st_cursor s')) ?t"
      using loop drained held by (simp_all add: loop_result_def)
    then have "\<forall>(q, h) \<in> set (st_held s). unat q < unat (st_cursor s')" "ds = released_below (unat (st_cursor s')) ?t"
      by (auto simp: filter_empty_conv not_le)
    then show ?thesis
      by (simp add: released_below_def held filter_id_conv)
  next
    case False
    have "filter (\<lambda>(q, h). unat q < 2 ^ 32) (st_held s) = st_held s"
      using unat_u32_less by (intro filter_True) auto
    moreover have "ds = released_below (2 ^ 32) ?t"
      using False loop by (simp add: loop_result_def)
    ultimately show ?thesis
      by (simp add: released_below_def held)
  qed
  then show ?thesis
    using drained run by (simp add: tick_stream_def)
qed

section \<open>An example stream\<close>

definition rx_demo_policy :: RxPolicy where
  "rx_demo_policy = \<lparr>fwd_clamp_pkts = 256, fwd_clamp_blocks = 4, stall_timeout_ms = 200, dwell_ceiling_ms = 20,
     admit_n = 3, admit_window_ms = 1000, idle_teardown_ms = 5000, clamp_resync_ms = 500,
     default_deadline_iframe_ms = 50, default_deadline_pframe_ms = 16, discovery_cache_cap = 64\<rparr>"

definition rx_demo_engine :: RxEngine where
  "rx_demo_engine = new_rx rx_demo_policy [\<lparr>ws_local_stream_id = 7, ws_stream_type = 1, ws_originator = None\<rparr>] None None"

definition rx_demo_packet :: "u32 \<Rightarrow> u32 \<Rightarrow> data_view" where
  "rx_demo_packet q b = \<lparr>dv_hdr = \<lparr>dh_prefix = \<lparr>originator = 5, destination = 0, session_id = 9\<rparr>, stream_id = 1,
     stream_type = 1, seq_no = q, block_id = b, data_flags = 0, active_profile = 0, table_version = 0\<rparr>,
     dv_payload = [0xAB]\<rparr>"

text \<open>Latched at packet 10; packet 11 comes first.\<close>

definition rx_demo_stream :: Stream where
  "rx_demo_stream = latch_stream \<lparr>ws_local_stream_id = 7, ws_stream_type = 1, ws_originator = None\<rparr>
     (dv_hdr (rx_demo_packet 10 3)) 1000"

definition rx_demo_events :: "rx_event list" where
  "rx_demo_events = [RxPacket rx_demo_engine 0 (rx_demo_packet 11 3) 1000 None,
     RxPacket rx_demo_engine 0 (rx_demo_packet 10 3) 1001 None]"

lemmas rx_demo_defs = rx_demo_policy_def rx_demo_engine_def rx_demo_packet_def rx_demo_stream_def rx_demo_events_def
  latch_stream_def key_of_def new_rx_def zero_rx_counters_def

lemmas rx_eval = ingest_def note_header_def clamp_gate_def implausible_def plausible_forward_def note_adapter_seq_def
  count_adapter_seq_def zero_adapter_seq_def bump_last_seq_def touch_block_def block_deadline_def profile_budget_def
  store_packet_def early_step_def note_gaps_def new_gap_def gap_block_def om_lower_bound_def om_before_def
  om_upper_bound_def om_has_def om_erase_def om_insert_def evaluate_gaps_def evaluate_gap_def min_live_adapter_seq_def
  cursor_step_def deliver_held_def prune_blocks_def gap_verdict_def has_flag_def

lemma rx_demo_ok: "window_ok rx_demo_policy rx_demo_stream"
  unfolding rx_demo_stream_def by (rule latch_stream_ok)

text \<open>The stream while packet 10 is missing.\<close>

definition rx_demo_waiting :: Stream where
  "rx_demo_waiting = fst (stream_step rx_demo_policy (RxPacket rx_demo_engine 0 (rx_demo_packet 11 3) 1000 None) rx_demo_stream)"

lemma rx_demo_run:
  "steady (stream_step rx_demo_policy) (refloors rx_demo_policy) rx_demo_events rx_demo_stream"
  "map fst (snd (run_steps (stream_step rx_demo_policy) rx_demo_events rx_demo_stream)) = [10, 11]"
  "unaccounted rx_demo_stream = 0"
  by (simp_all add: rx_demo_defs rx_eval Let_def advance_cursor.simps refloors_def unaccounted_def pending_def unreleased_def)

lemma rx_demo_waiting_ok: "window_ok rx_demo_policy rx_demo_waiting"
  unfolding rx_demo_waiting_def by (rule rx.ok_step [OF rx_demo_ok])

lemma rx_demo_waiting_held:
  "deadlines_passed 1016 rx_demo_waiting" "\<not> st_best_effort rx_demo_waiting" "length (st_held rx_demo_waiting) = 1"
  "length (unreleased (st_held rx_demo_waiting)) = 1"
  by (simp_all add: rx_demo_waiting_def rx_demo_defs rx_eval Let_def advance_cursor.simps deadlines_passed_def unreleased_def)

theorem rx_delivers_in_order_once_witness:
  "map fst (snd (run_steps (stream_step rx_demo_policy) rx_demo_events rx_demo_stream)) = [10, 11]
   \<and> distinct (map (\<lambda>d. unat (fst d)) (snd (run_steps (stream_step rx_demo_policy) rx_demo_events rx_demo_stream)))"
  using rx_delivers_in_order_once [OF rx_demo_ok rx_demo_run(1)] rx_demo_run(2) by blast

theorem rx_conserves_packets_witness:
  "unaccounted (fst (run_steps (stream_step rx_demo_policy) rx_demo_events rx_demo_stream)) = 0"
  using rx_conserves_packets [OF rx_demo_ok rx_demo_run(1)] rx_demo_run(3) by simp

theorem rx_deadline_releases_everything_witness:
  "st_held (fst (tick_stream rx_demo_engine 1016 rx_demo_waiting)) = []
   \<and> length (snd (tick_stream rx_demo_engine 1016 rx_demo_waiting)) = 1"
proof -
  have pol: "rx_policy rx_demo_engine = rx_demo_policy"
    by (simp add: rx_demo_engine_def new_rx_def)
  show ?thesis
    using rx_deadline_releases_everything [of rx_demo_engine rx_demo_waiting 1016] rx_demo_waiting_ok rx_demo_waiting_held pol
    by simp
qed

end
