(* ===== verification/Rx_Engine_Props.thy ===== *)
theory Rx_Engine_Props
  imports Rx_Delivery
begin

text \<open>
  The engine around the streams: admission of new streams, the invariant of the whole engine in
  every reachable state, and the bounds on its memory.
\<close>

section \<open>Identity of a stream\<close>

definition ident :: "Stream \<Rightarrow> StreamKey \<times> u8" where
  "ident s = (st_key s, st_local_stream_id s)"

lemma advance_cursor_ident: "ident (fst (advance_cursor now_ms s)) = ident s"
proof (induction now_ms s rule: advance_cursor.induct)
  case (1 now_ms s)
  have step: "ident s1 = ident s" if "cursor_step now_ms s = Some (s1, ds)" for s1 ds
    using that by (auto simp: cursor_step_def deliver_held_def ident_def Let_def split: option.splits if_splits)
  have prune: "ident (if b then prune_blocks s1 else s1) = ident s1" "ident (refloor_on_wrap s1) = ident s1" for b s1
    by (simp_all add: ident_def prune_blocks_def refloor_on_wrap_def)
  show ?case
  proof (cases "st_max_seq s < st_cursor s \<or> cursor_step now_ms s = None")
    case True
    then show ?thesis
      by (auto simp: advance_cursor.simps [of now_ms s])
  next
    case False
    then obtain s1 ds where s1: "cursor_step now_ms s = Some (s1, ds)" "\<not> st_max_seq s < st_cursor s"
      by (cases "cursor_step now_ms s") auto
    show ?thesis
    proof (cases "st_cursor s1 = 0")
      case True
      then show ?thesis
        using s1 step prune by (simp add: advance_cursor.simps [of now_ms s])
    next
      case nz: False
      have "fst (advance_cursor now_ms s) = fst (advance_cursor now_ms
          (if om_has (st_cursor s) (st_held s) then prune_blocks s1 else s1))"
        using s1 nz by (simp add: advance_cursor.simps [of now_ms s] split_def Let_def)
      then show ?thesis
        using "1.IH" [OF s1(2,1) refl nz] step [OF s1(1)] prune(1) by simp
    qed
  qed
qed

lemma evaluate_gaps_ident [simp]: "ident (evaluate_gaps e now_ms s) = ident s"
  unfolding evaluate_gaps_def Let_def
  by (rule fold_invariant [where Q = "\<lambda>_. True"]) (auto simp: evaluate_gap_def ident_def Let_def)

lemma mark_frame_complete_ident [simp]: "ident (mark_frame_complete pol b s) = ident s"
  by (simp add: mark_frame_complete_def ident_def Let_def)

lemma tick_stream_ident: "ident (fst (tick_stream e now_ms s)) = ident s"
  by (simp add: tick_stream_def advance_cursor_ident)

lemma complete_stream_ident: "ident (fst (complete_stream e b now_ms s)) = ident s"
  by (simp add: complete_stream_def advance_cursor_ident)

lemma early_step_ident [simp]: "ident (early_step pol early v s) = ident s"
proof (cases early)
  case (Some f)
  obtain d c where f: "f (st_key s) (st_local_stream_id s) (block_id (dv_hdr v)) (data_flags (dv_hdr v)) (dv_payload v) = (d, c)"
    by fastforce
  show ?thesis
    unfolding early_step_def Some option.case Let_def f prod.case by (simp add: ident_def mark_frame_complete_def Let_def)
qed (simp add: early_step_def)

lemma ingest_ident: "ident (fst (ingest e i v now_ms early s)) = ident s"
proof -
  have gate: "ident (snd (clamp_gate pol h now_ms t)) = ident t" for pol h t
    by (simp add: clamp_gate_def resync_def ident_def Let_def)
  have header: "ident (note_header ver h now_ms t) = ident t" for ver h t
    by (simp add: note_header_def ident_def Let_def)
  have store: "ident (store_packet e i v now_ms t) = ident t" for t
    by (simp add: store_packet_def bump_last_seq_def touch_block_def ident_def Let_def)
  have gaps: "ident (note_gaps pol now_ms t) = ident t" for pol t
    using note_gaps_fields [of pol now_ms t] by (auto simp: ident_def)
  have dup: "ident (bump_last_seq i q (upd_counters f t)) = ident t" "ident (note_adapter_seq pol i q t) = ident t" for q f pol t
    by (simp_all add: bump_last_seq_def note_adapter_seq_def ident_def)
  obtain pass t where t: "clamp_gate (rx_policy e) (dv_hdr v) now_ms
      (note_header (rx_local_table_version e) (dv_hdr v) now_ms s) = (pass, t)"
    by fastforce
  have "ident t = ident s"
    using gate [of "rx_policy e" "dv_hdr v" "note_header (rx_local_table_version e) (dv_hdr v) now_ms s"] header t by simp
  then show ?thesis
    unfolding ingest_def Let_def t prod.case
    by (simp add: advance_cursor_ident store gaps dup)
qed

section \<open>Admission\<close>

lemma find_want_SomeD:
  assumes "find_want streams h ws = Some (w, r)"
  shows "w \<in> set ws" and "ws_stream_type w = stream_type h"
    and "ws_originator w = None \<or> ws_originator w = Some (originator (dh_prefix h))"
    and "case find (\<lambda>(key, s). st_local_stream_id s = ws_local_stream_id w) streams of
           None \<Rightarrow> r = None
         | Some (key, s) \<Rightarrow> r = Some key \<and> sk_originator (st_key s) = originator (dh_prefix h)
             \<and> sk_session_id (st_key s) \<noteq> session_id (dh_prefix h)"
  using assms by (induction ws) (auto split: if_splits option.splits)

text \<open>The discovery cache stays within its cap: only the tuple just heard is spared.\<close>

lemma oldest_other_None:
  assumes "oldest_other key ds = None"
  shows "\<forall>k \<in> om_keys ds. k = key"
proof -
  let ?f = "\<lambda>(k, c) oldest. if k = key then oldest else case oldest of
      None \<Rightarrow> Some (k, c) | Some (k', c') \<Rightarrow> if cd_last_ms c < cd_last_ms c' then Some (k, c) else oldest"
  have keeps: "fold ?f xs (Some y) \<noteq> None" for xs :: "(u64, Candidate) omap" and y
    by (induction xs arbitrary: y) (auto split: prod.splits)
  have "(\<forall>k \<in> om_keys ds. k = key)" if "fold ?f ds None = None"
    using that
  proof (induction ds)
    case (Cons a ds)
    obtain k c where a: "a = (k, c)"
      by (cases a)
    have "k = key"
      using Cons.prems keeps [of ds "(k, c)"] by (cases "k = key") (simp_all add: a)
    then show ?case
      using Cons by (simp add: a)
  qed simp
  then show ?thesis
    using assms by (simp add: oldest_other_def)
qed

lemma evict_bound:
  assumes "om_ok ds"
  shows "om_ok (evict cap key ds) \<and> length (evict cap key ds) \<le> max cap 1"
  using assms
proof (induction cap key ds rule: evict.induct)
  case (1 cap key ds)
  show ?case
  proof (cases "length ds \<le> cap")
    case True
    then show ?thesis
      using 1(2) by (simp add: evict.simps [of cap key ds])
  next
    case False
    show ?thesis
    proof (cases "oldest_other key ds")
      case None
      have "om_keys ds \<subseteq> {key}"
        using oldest_other_None [OF None] by auto
      then have "length ds \<le> 1"
        using om_length_card [OF 1(2)] card_mono [of "{key}" "om_keys ds"] by simp
      moreover have "evict cap key ds = ds"
        using None by (simp add: evict.simps [of cap key ds])
      ultimately show ?thesis
        using 1(2) by simp
    next
      case (Some x)
      then show ?thesis
        using 1 False by (cases x) (simp add: evict.simps [of cap key ds])
    qed
  qed
qed

section \<open>The invariant of the engine\<close>

definition streams_ok :: "RxPolicy \<Rightarrow> u8 set \<Rightarrow> (u64, Stream) omap \<Rightarrow> bool" where
  "streams_ok pol locals ss \<longleftrightarrow> om_ok ss
     \<and> (\<forall>(k, s) \<in> set ss. window_ok pol s \<and> k = pack_key (st_key s) \<and> st_local_stream_id s \<in> locals)
     \<and> (\<forall>(k, s) \<in> set ss. \<forall>(k', s') \<in> set ss. st_local_stream_id s = st_local_stream_id s' \<longrightarrow> k = k')"

abbreviation want_ids :: "RxEngine \<Rightarrow> u8 set" where
  "want_ids e \<equiv> ws_local_stream_id ` set (rx_wants e)"

definition rx_ok :: "RxEngine \<Rightarrow> bool" where
  "rx_ok e \<longleftrightarrow> streams_ok (rx_policy e) (want_ids e) (rx_streams e)
     \<and> om_ok (rx_discovery e) \<and> length (rx_discovery e) \<le> max (discovery_cache_cap (rx_policy e)) 1"

lemma set_om_emplace_new: "k \<notin> om_keys xs \<Longrightarrow> set (om_emplace k v xs) = insert (k, v) (set xs)"
  by (induction k v xs rule: om_emplace.induct) auto

lemma streams_ok_empty: "streams_ok pol locals []"
  by (simp add: streams_ok_def)

lemma streams_ok_update:
  assumes "streams_ok pol locals ss" and "(k, s) \<in> set ss" and "window_ok pol s1" and "ident s1 = ident s"
  shows "streams_ok pol locals (om_update k s1 ss)"
proof -
  have "om_ok ss"
    using assms(1) by (simp add: streams_ok_def)
  moreover have "st_key s1 = st_key s" "st_local_stream_id s1 = st_local_stream_id s"
    using assms(4) by (simp_all add: ident_def)
  ultimately show ?thesis
    using assms(1-3) unfolding streams_ok_def set_om_update [OF \<open>om_ok ss\<close>] by fastforce
qed

lemma streams_ok_map:
  assumes "streams_ok pol locals ss" and "\<And>s. window_ok pol s \<Longrightarrow> window_ok pol (f s) \<and> ident (f s) = ident s"
  shows "streams_ok pol locals (map (\<lambda>(k, s). (k, f s)) (filter P ss))"
proof -
  let ?ss = "map (\<lambda>(k, s). (k, f s)) (filter P ss)"
  have ok: "om_ok ?ss"
    using assms(1) om_ok_filter [of ss P] by (simp add: streams_ok_def om_ok_def o_def split_def)
  have old: "\<exists>s. (k, s) \<in> set ss \<and> window_ok pol t \<and> st_key t = st_key s \<and> st_local_stream_id t = st_local_stream_id s"
    if kt: "(k, t) \<in> set ?ss" for k t
  proof -
    obtain s where "(k, s) \<in> set ss" "t = f s"
      using kt by auto
    then show ?thesis
      using assms unfolding streams_ok_def ident_def by fast
  qed
  have uniq: "k = k'" if "(k, t) \<in> set ?ss" "(k', t') \<in> set ?ss" "st_local_stream_id t = st_local_stream_id t'" for k t k' t'
    using old [OF that(1)] old [OF that(2)] that(3) assms(1) unfolding streams_ok_def by fastforce
  have each: "window_ok pol t \<and> k = pack_key (st_key t) \<and> st_local_stream_id t \<in> locals" if "(k, t) \<in> set ?ss" for k t
    using old [OF that] assms(1) unfolding streams_ok_def by fastforce
  show ?thesis
    unfolding streams_ok_def using ok uniq each by blast
qed

lemma streams_ok_erase: "streams_ok pol locals ss \<Longrightarrow> streams_ok pol locals (om_erase k ss)"
  unfolding streams_ok_def by (auto simp: om_erase_def om_ok_filter)

lemma streams_ok_latch:
  assumes "streams_ok pol locals ss" and "k \<notin> om_keys ss" and "window_ok pol s" and "k = pack_key (st_key s)"
    and "st_local_stream_id s \<in> locals" and "\<forall>(k', s') \<in> set ss. st_local_stream_id s' \<noteq> st_local_stream_id s"
  shows "streams_ok pol locals (om_emplace k s ss)"
  using assms unfolding streams_ok_def set_om_emplace_new [OF assms(2)] by fastforce

lemma latch_stream_fields [simp]:
  "st_key (latch_stream w h now_ms) = key_of h" "st_local_stream_id (latch_stream w h now_ms) = ws_local_stream_id w"
  by (simp_all add: latch_stream_def)

lemma try_latch_ok:
  assumes "rx_ok e" and "pack_key (key_of h) \<notin> om_keys (rx_streams e)"
  shows "rx_ok (snd (try_latch e h now_ms))"
    and "fst (try_latch e h now_ms) = Some s \<Longrightarrow> (pack_key (key_of h), s) \<in> set (rx_streams (snd (try_latch e h now_ms)))"
proof -
  let ?key = "pack_key (key_of h)"
  let ?ds = "om_update ?key (touch_candidate (rx_policy e) h now_ms (map_of (rx_discovery e) ?key)) (rx_discovery e)"
  let ?ds1 = "evict (discovery_cache_cap (rx_policy e)) ?key ?ds"
  have ds1: "om_ok ?ds1" "length ?ds1 \<le> max (discovery_cache_cap (rx_policy e)) 1"
    using assms(1) evict_bound [of ?ds] by (simp_all add: rx_ok_def)
  have er: "om_ok (om_erase ?key ?ds1)" "length (om_erase ?key ?ds1) \<le> max (discovery_cache_cap (rx_policy e)) 1"
    unfolding om_erase_def using om_ok_filter [OF ds1(1)] order_trans [OF length_filter_le ds1(2)] by blast+
  have ok: "streams_ok (rx_policy e) (want_ids e) (rx_streams e)"
    using assms(1) by (simp add: rx_ok_def)
  have latch: "streams_ok (rx_policy e) (want_ids e) (om_emplace ?key (latch_stream w h now_ms) ss)
      \<and> ?key \<notin> om_keys ss"
    if w: "find_want (rx_streams e) h (rx_wants e) = Some (w, r)"
      and ss: "ss = (case r of None \<Rightarrow> rx_streams e | Some k \<Rightarrow> om_erase k (rx_streams e))" for w r ss
  proof -
    note f = find_want_SomeD [OF w]
    have oks: "streams_ok (rx_policy e) (want_ids e) ss"
      using ok streams_ok_erase ss by (auto split: option.splits)
    have new: "?key \<notin> om_keys ss"
      using assms(2) ss by (auto simp: keys_erase split: option.splits)
    have free: "st_local_stream_id s' \<noteq> ws_local_stream_id w" if s': "(k', s') \<in> set ss" for k' s'
    proof
      assume eq: "st_local_stream_id s' = ws_local_stream_id w"
      have mem: "(k', s') \<in> set (rx_streams e)"
        using s' ss by (auto simp: om_erase_def split: option.splits)
      then have "find (\<lambda>(key, s). st_local_stream_id s = ws_local_stream_id w) (rx_streams e) \<noteq> None"
        using eq by (auto simp: find_None_iff)
      then obtain k0 s0 where fnd: "find (\<lambda>(key, s). st_local_stream_id s = ws_local_stream_id w) (rx_streams e) = Some (k0, s0)"
        by fastforce
      then have "(k0, s0) \<in> set (rx_streams e)" "st_local_stream_id s0 = ws_local_stream_id w"
        by (auto simp: find_Some_iff) (metis nth_mem)
      then have "k' = k0"
        using ok mem eq unfolding streams_ok_def by fastforce
      moreover have "r = Some k0"
        using f(4) fnd by simp
      ultimately show False
        using s' ss by simp
    qed
    show ?thesis
      using f(1) new free by (auto intro!: streams_ok_latch [OF oks new latch_stream_ok])
  qed
  have "rx_ok (snd (try_latch e h now_ms))
      \<and> (\<forall>s. fst (try_latch e h now_ms) = Some s \<longrightarrow> (?key, s) \<in> set (rx_streams (snd (try_latch e h now_ms))))"
  proof (cases "find_want (rx_streams e) h (rx_wants e)")
    case None
    then show ?thesis
      using assms(1) by (simp add: try_latch_def)
  next
    case (Some wr)
    obtain w r where wr: "find_want (rx_streams e) h (rx_wants e) = Some (w, r)"
      using Some by (cases wr) simp
    note l = latch [OF wr refl]
    show ?thesis
      using assms(1) ds1 er l set_om_emplace_new [OF conjunct2 [OF l]]
      unfolding try_latch_def wr Let_def by (simp add: rx_ok_def)
  qed
  then show "rx_ok (snd (try_latch e h now_ms))"
    "fst (try_latch e h now_ms) = Some s \<Longrightarrow> (?key, s) \<in> set (rx_streams (snd (try_latch e h now_ms)))"
    by blast+
qed

lemma try_latch_fields:
  "rx_policy (snd (try_latch e h now_ms)) = rx_policy e" "rx_wants (snd (try_latch e h now_ms)) = rx_wants e"
  by (auto simp: try_latch_def Let_def split: option.splits)

lemma ingest_ok: "window_ok (rx_policy e) s \<Longrightarrow> window_ok (rx_policy e) (fst (ingest e i v now_ms early s))"
  using rx.ok_step [of "rx_policy e" s "RxPacket e i v now_ms early"] by simp

lemma on_data_ok:
  assumes "rx_ok e0"
  shows "rx_ok (fst (on_data e0 i v now_ms rssi early))"
proof -
  let ?key = "pack_key (key_of (dv_hdr v))"
  let ?a = "case map_of (rx_adapters e0) i of None \<Rightarrow> zero_adapter | Some a \<Rightarrow> a"
  let ?e = "e0\<lparr>rx_adapters := om_update i (hear_adapter now_ms rssi ?a) (rx_adapters e0)\<rparr>"
  let ?r = "case map_of (rx_streams ?e) ?key of Some s \<Rightarrow> (Some s, ?e) | None \<Rightarrow> try_latch ?e (dv_hdr v) now_ms"
  have ok: "rx_ok ?e"
    using assms by (simp add: rx_ok_def)
  have r: "rx_ok (snd ?r)" "fst ?r = Some s \<Longrightarrow> (?key, s) \<in> set (rx_streams (snd ?r))" for s
    using ok try_latch_ok [OF ok] map_of_eq_None_iff [of "rx_streams ?e" ?key]
    by (auto split: option.splits dest: map_of_SomeD)
  have run: "on_data e0 i v now_ms rssi early = (case ?r of (found, e1) \<Rightarrow>
      case found of None \<Rightarrow> (e1, [])
      | Some s \<Rightarrow> (case ingest e1 i v now_ms early s of (s1, ds) \<Rightarrow> (e1\<lparr>rx_streams := om_update ?key s1 (rx_streams e1)\<rparr>, ds)))"
    unfolding on_data_def Let_def ..
  obtain found e1 where fe: "?r = (found, e1)"
    by (cases ?r)
  show ?thesis
  proof (cases found)
    case None
    then show ?thesis
      using r(1) fe unfolding run by simp
  next
    case (Some s)
    have mem: "(?key, s) \<in> set (rx_streams e1)" and ok1: "rx_ok e1"
      using r fe Some by simp_all
    then have "window_ok (rx_policy e1) s"
      unfolding rx_ok_def streams_ok_def by blast
    then have "streams_ok (rx_policy e1) (want_ids e1) (om_update ?key (fst (ingest e1 i v now_ms early s)) (rx_streams e1))"
      using ok1 mem by (intro streams_ok_update [where s = s] ingest_ok ingest_ident) (simp_all add: rx_ok_def)
    then show ?thesis
      using ok1 Some fe unfolding run by (simp add: rx_ok_def split_def)
  qed
qed

lemma complete_frame_ok:
  assumes "rx_ok e"
  shows "rx_ok (fst (complete_frame e l b now_ms))"
proof (cases "find (\<lambda>(key, s). st_local_stream_id s = l) (rx_streams e)")
  case (Some ks)
  obtain k s where ks: "ks = (k, s)"
    by (cases ks)
  have mem: "(k, s) \<in> set (rx_streams e)"
    using Some ks by (auto simp: find_Some_iff) (metis nth_mem)
  then have w: "window_ok (rx_policy e) s"
    using assms unfolding rx_ok_def streams_ok_def by blast
  have "window_ok (rx_policy e) (fst (complete_stream e b now_ms s))"
    using rx.ok_step [OF w, of "RxComplete e b now_ms"] by simp
  then have "streams_ok (rx_policy e) (want_ids e) (om_update k (fst (complete_stream e b now_ms s)) (rx_streams e))"
    using assms mem by (intro streams_ok_update [where s = s] complete_stream_ident) (simp_all add: rx_ok_def)
  then show ?thesis
    using assms Some ks by (simp add: complete_frame_def rx_ok_def split_def Let_def)
qed (use assms in \<open>simp add: complete_frame_def\<close>)

lemma rx_tick_ok:
  assumes "rx_ok e"
  shows "rx_ok (fst (rx_tick e now_ms))"
proof -
  have "window_ok (rx_policy e) (fst (tick_stream e now_ms s))" if "window_ok (rx_policy e) s" for s
    using rx.ok_step [OF that, of "RxTick e now_ms"] by simp
  then have "streams_ok (rx_policy e) (want_ids e) (map (\<lambda>(k, s). (k, fst (tick_stream e now_ms s)))
      (filter (\<lambda>(key, s). \<not> idle (rx_policy e) now_ms s) (rx_streams e)))"
    using assms tick_stream_ident by (intro streams_ok_map) (simp_all add: rx_ok_def)
  moreover have "length (filter P (rx_discovery e)) \<le> max (discovery_cache_cap (rx_policy e)) 1" for P
    using assms order_trans [OF length_filter_le] unfolding rx_ok_def by blast
  ultimately show ?thesis
    using assms by (simp add: rx_tick_def rx_ok_def Let_def om_ok_filter)
qed

lemma rx_reset_stats_ok:
  assumes "rx_ok e"
  shows "rx_ok (rx_reset_stats e)"
proof -
  have "window_ok pol (reset_stream_stats s) \<and> ident (reset_stream_stats s) = ident s" if "window_ok pol s" for pol s
    using window_ok_transfer [OF that, of "reset_stream_stats s"]
    by (simp add: reset_stream_stats_def window_view_def ident_def)
  then have "streams_ok (rx_policy e) (want_ids e) (map (\<lambda>(k, s). (k, reset_stream_stats s)) (filter (\<lambda>_. True) (rx_streams e)))"
    using assms by (intro streams_ok_map) (simp_all add: rx_ok_def)
  then show ?thesis
    using assms by (simp add: rx_reset_stats_def rx_ok_def)
qed

lemma originator_ok: "rx_ok e \<Longrightarrow> rx_ok (select_originator o1 e)" "rx_ok e \<Longrightarrow> rx_ok (unpin_originator e)"
  by (auto simp: select_originator_def unpin_originator_def rx_ok_def streams_ok_empty)

section \<open>Reachable engines\<close>

inductive rx_reach :: "RxPolicy \<Rightarrow> WantSpec list \<Rightarrow> RxEngine \<Rightarrow> bool" for pol wants where
  start: "rx_reach pol wants (new_rx pol wants table ver)"
| data: "rx_reach pol wants e \<Longrightarrow> rx_reach pol wants (fst (on_data e i v now_ms rssi early))"
| complete: "rx_reach pol wants e \<Longrightarrow> rx_reach pol wants (fst (complete_frame e l b now_ms))"
| tick: "rx_reach pol wants e \<Longrightarrow> rx_reach pol wants (fst (rx_tick e now_ms))"
| reset: "rx_reach pol wants e \<Longrightarrow> rx_reach pol wants (rx_reset_stats e)"
| select: "rx_reach pol wants e \<Longrightarrow> rx_reach pol wants (select_originator o1 e)"
| unpin: "rx_reach pol wants e \<Longrightarrow> rx_reach pol wants (unpin_originator e)"

lemma on_data_fields:
  "rx_policy (fst (on_data e i v now_ms rssi early)) = rx_policy e"
  "rx_wants (fst (on_data e i v now_ms rssi early)) = rx_wants e"
  using try_latch_fields [where h = "dv_hdr v" and now_ms = now_ms]
  by (auto simp: on_data_def Let_def split_def split: option.splits)

lemma other_fields:
  "rx_policy (fst (rx_tick e now_ms)) = rx_policy e" "rx_wants (fst (rx_tick e now_ms)) = rx_wants e"
  "rx_policy (rx_reset_stats e) = rx_policy e" "rx_wants (rx_reset_stats e) = rx_wants e"
  "rx_policy (select_originator o1 e) = rx_policy e" "length (rx_wants (select_originator o1 e)) = length (rx_wants e)"
  "rx_policy (unpin_originator e) = rx_policy e" "length (rx_wants (unpin_originator e)) = length (rx_wants e)"
  by (simp_all add: rx_tick_def rx_reset_stats_def select_originator_def unpin_originator_def Let_def)

lemma complete_frame_fields:
  "rx_policy (fst (complete_frame e l b now_ms)) = rx_policy e" "rx_wants (fst (complete_frame e l b now_ms)) = rx_wants e"
  by (auto simp: complete_frame_def split_def Let_def split: option.splits)

lemma rx_reach_ok:
  "rx_reach pol wants e \<Longrightarrow> rx_ok e \<and> rx_policy e = pol \<and> length (rx_wants e) = length wants"
proof (induction rule: rx_reach.induct)
  case (start table ver)
  then show ?case
    by (simp add: rx_ok_def new_rx_def streams_ok_empty)
qed (simp_all add: on_data_ok on_data_fields complete_frame_ok complete_frame_fields rx_tick_ok rx_reset_stats_ok
    originator_ok other_fields)

text \<open>C5: In every reachable state of the receive engine there are at most as many streams as wants,
  the discovery cache is within its cap (at least the tuple just heard), and each stream holds
  at most fwd_clamp_pkts + 1 packets and gaps together.\<close>

theorem rx_memory_bounded:
  assumes "rx_reach pol wants e"
  shows "length (rx_streams e) \<le> length wants
    \<and> length (rx_discovery e) \<le> max (discovery_cache_cap pol) 1
    \<and> (\<forall>(k, s) \<in> set (rx_streams e). length (st_held s) + length (st_gaps s) \<le> unat (fwd_clamp_pkts pol) + 1)"
proof -
  have e: "rx_ok e" "rx_policy e = pol" "length (rx_wants e) = length wants"
    using rx_reach_ok [OF assms] by simp_all
  then have ok: "streams_ok pol (want_ids e) (rx_streams e)"
    by (simp add: rx_ok_def)
  have each: "\<forall>(k, s) \<in> set (rx_streams e). window_ok pol s \<and> k = pack_key (st_key s) \<and> st_local_stream_id s \<in> want_ids e"
    using ok unfolding streams_ok_def by (elim conjE)
  have inj: "inj_on (\<lambda>ks. st_local_stream_id (snd ks)) (set (rx_streams e))"
  proof (rule inj_onI)
    fix x y assume xy: "x \<in> set (rx_streams e)" "y \<in> set (rx_streams e)"
      "st_local_stream_id (snd x) = st_local_stream_id (snd y)"
    obtain k t k' t' where kt: "x = (k, t)" "y = (k', t')"
      by (cases x; cases y)
    have "\<forall>(k, s) \<in> set (rx_streams e). \<forall>(k', s') \<in> set (rx_streams e).
        st_local_stream_id s = st_local_stream_id s' \<longrightarrow> k = k'"
      using ok unfolding streams_ok_def by (elim conjE)
    then have "k = k'"
      using xy kt by fastforce
    moreover have "map_of (rx_streams e) k = Some t" "map_of (rx_streams e) k' = Some t'"
      using ok xy(1,2) kt map_of_ok_iff [of "rx_streams e"] by (simp_all add: streams_ok_def)
    ultimately show "x = y"
      using kt by simp
  qed
  have "distinct (rx_streams e)"
    using ok om_ok_distinct [of "rx_streams e"] by (simp add: streams_ok_def distinct_map)
  then have "length (rx_streams e) = card (set (rx_streams e))"
    by (simp add: distinct_card)
  also have "\<dots> = card ((\<lambda>ks. st_local_stream_id (snd ks)) ` set (rx_streams e))"
    using inj by (simp add: card_image)
  also have "\<dots> \<le> card (want_ids e)"
    using each by (intro card_mono) auto
  also have "\<dots> \<le> length wants"
    using card_image_le [of "set (rx_wants e)" ws_local_stream_id] card_length [of "rx_wants e"] e(3) by simp
  finally have streams: "length (rx_streams e) \<le> length wants" .
  have window: "\<forall>(k, s) \<in> set (rx_streams e). length (st_held s) + length (st_gaps s) \<le> unat (fwd_clamp_pkts pol) + 1"
    using each window_length by fast
  show ?thesis
    using streams window e(1,2) unfolding rx_ok_def by simp
qed

section \<open>Forged packets\<close>

lemma map_of_evict: "map_of (evict cap key ds) key = map_of ds key"
proof (induction cap key ds rule: evict.induct)
  case (1 cap key ds)
  have "map_of (om_erase k ds) key = map_of ds key" if "oldest_other key ds = Some (k, c)" for k c
    using oldest_other_mem [OF that] by (auto simp: map_of_erase)
  then show ?case
    using 1 by (auto simp: evict.simps [of cap key ds] split: option.splits)
qed

text \<open>A one-shot forged packet is never admitted: with an admission count above one, the first
  packet of a tuple that is neither latched nor known changes no stream and delivers nothing.\<close>

theorem rx_first_packet_never_latches:
  assumes "rx_ok e" and "1 < admit_n (rx_policy e)"
    and "pack_key (key_of (dv_hdr v)) \<notin> om_keys (rx_streams e)"
    and "pack_key (key_of (dv_hdr v)) \<notin> om_keys (rx_discovery e)"
  shows "rx_streams (fst (on_data e i v now_ms rssi early)) = rx_streams e
    \<and> snd (on_data e i v now_ms rssi early) = []"
proof -
  let ?key = "pack_key (key_of (dv_hdr v))"
  let ?a = "case map_of (rx_adapters e) i of None \<Rightarrow> zero_adapter | Some a \<Rightarrow> a"
  let ?e = "e\<lparr>rx_adapters := om_update i (hear_adapter now_ms rssi ?a) (rx_adapters e)\<rparr>"
  have none: "map_of (rx_streams e) ?key = None" "map_of (rx_discovery e) ?key = None"
    using assms(3,4) by (simp_all add: map_of_eq_None_iff)
  have ds: "om_ok (rx_discovery e)"
    using assms(1) by (simp add: rx_ok_def)
  have first: "cd_count (touch_candidate pol h now_ms None) = 1" for pol h
    by (simp add: touch_candidate_def)
  have "fst (try_latch ?e (dv_hdr v) now_ms) = None \<and> rx_streams (snd (try_latch ?e (dv_hdr v) now_ms)) = rx_streams e"
    using assms(2) none(2)
    by (auto simp: try_latch_def map_of_evict map_of_update [OF ds] first Let_def split: option.splits)
  then show ?thesis
    using none(1) by (simp add: on_data_def Let_def split_def)
qed

text \<open>A packet beyond the plausible-forward clamps delivers nothing and moves neither cursor,
  newest packet, newest block, held packets, gaps nor block deadlines, unless clamped packets
  have gone on for the resynchronisation time; it is counted.\<close>

theorem rx_implausible_packet_harmless:
  assumes "implausible (rx_policy e) (dv_hdr v) s"
    and "st_first_clamp_ms s = 0 \<or> now_ms \<le> st_first_clamp_ms s
      \<or> now_ms - st_first_clamp_ms s < ucast (clamp_resync_ms (rx_policy e))"
  shows "snd (ingest e i v now_ms early s) = []
    \<and> st_cursor (fst (ingest e i v now_ms early s)) = st_cursor s
    \<and> st_max_seq (fst (ingest e i v now_ms early s)) = st_max_seq s
    \<and> st_max_block (fst (ingest e i v now_ms early s)) = st_max_block s
    \<and> st_held (fst (ingest e i v now_ms early s)) = st_held s
    \<and> st_gaps (fst (ingest e i v now_ms early s)) = st_gaps s
    \<and> st_blocks (fst (ingest e i v now_ms early s)) = st_blocks s
    \<and> ct_clamp_rejected (st_counters (fst (ingest e i v now_ms early s))) = ct_clamp_rejected (st_counters s) + 1"
proof -
  let ?s0 = "note_header (rx_local_table_version e) (dv_hdr v) now_ms s"
  let ?g = "clamp_gate (rx_policy e) (dv_hdr v) now_ms ?s0"
  have f: "st_first_clamp_ms ?s0 = st_first_clamp_ms s" "st_cursor ?s0 = st_cursor s" "st_max_seq ?s0 = st_max_seq s"
      "st_max_block ?s0 = st_max_block s" "st_held ?s0 = st_held s" "st_gaps ?s0 = st_gaps s" "st_blocks ?s0 = st_blocks s"
      "ct_clamp_rejected (st_counters ?s0) = ct_clamp_rejected (st_counters s)"
    by (simp_all add: note_header_def Let_def)
  have imp: "implausible (rx_policy e) (dv_hdr v) ?s0"
    using assms(1) by (simp add: implausible_def f)
  have g: "fst ?g = False" "st_cursor (snd ?g) = st_cursor ?s0" "st_max_seq (snd ?g) = st_max_seq ?s0"
      "st_max_block (snd ?g) = st_max_block ?s0" "st_held (snd ?g) = st_held ?s0" "st_gaps (snd ?g) = st_gaps ?s0"
      "st_blocks (snd ?g) = st_blocks ?s0"
      "ct_clamp_rejected (st_counters (snd ?g)) = ct_clamp_rejected (st_counters ?s0) + 1"
    using assms(2) imp f(1) by (auto simp: clamp_gate_def Let_def)
  have "ingest e i v now_ms early s = (snd ?g, [])"
    using g(1) by (simp add: ingest_def Let_def split_def)
  then show ?thesis
    using f g by simp
qed

section \<open>Adapter accounting\<close>

definition rssi_in_range :: "Adapter \<Rightarrow> bool" where
  "rssi_in_range a \<longleftrightarrow> - 2048 \<le> ad_rssi_ewma_q4 a \<and> ad_rssi_ewma_q4 a \<le> 2032"

text \<open>The RSSI average of an adapter stays in the range of the RSSI values it has heard, so its
  conversion to int8_t loses nothing.\<close>

theorem rssi_ewma_never_truncated:
  assumes "rssi_in_range a" and "- 128 \<le> rssi" and "rssi \<le> 127"
  shows "rssi_in_range (hear_adapter now_ms rssi a)
    \<and> ac_rssi_ewma (adapter_counters pol newest (hear_adapter now_ms rssi a))
        = ad_rssi_ewma_q4 (hear_adapter now_ms rssi a) sdiv 16"
proof -
  have quarter: "(x :: int) sdiv 4 = (if 0 \<le> x then x div 4 else - ((- x) div 4))"
      "x sdiv 16 = (if 0 \<le> x then x div 16 else - ((- x) div 16))" for x
    by (auto simp: signed_divide_int_def sgn_if)
  have r: "rssi_in_range (hear_adapter now_ms rssi a)"
    using assms by (auto simp: hear_adapter_def rssi_in_range_def Let_def quarter(1))
  let ?x = "ad_rssi_ewma_q4 (hear_adapter now_ms rssi a) sdiv 16"
  have "- 128 \<le> ?x \<and> ?x \<le> 127"
    using r unfolding rssi_in_range_def quarter(2) by auto
  then have "to_int8 ?x = ?x"
    unfolding to_int8_def by (intro signed_take_bit_int_eq_self) simp_all
  then show ?thesis
    using r by (simp add: adapter_counters_def)
qed

text \<open>An adapter that hears every other packet: each loss stays in the set of missing numbers.\<close>

definition every_other :: "nat \<Rightarrow> u32 list" where
  "every_other n = map (\<lambda>k. of_nat (2 * k)) [0..<n + 1]"

lemma om_emplace_last: "\<forall>k' \<in> om_keys xs. k' < k \<Longrightarrow> om_emplace k v xs = xs @ [(k, v)]"
  by (induction k v xs rule: om_emplace.induct) auto

lemma every_other_state:
  assumes "2 \<le> fwd_clamp_pkts pol" and "2 * n < 2 ^ 32"
  shows "fold (count_adapter_seq pol) (every_other n) zero_adapter_seq =
    \<lparr>as_have = True, as_highest = of_nat (2 * n), as_expected = of_nat (2 * n) + 1, as_received = of_nat n + 1,
     as_missing = map (\<lambda>j. (of_nat (2 * j + 1), ())) [0..<n]\<rparr>"
  using assms(2)
proof (induction n)
  case 0
  then show ?case
    by (simp add: every_other_def count_adapter_seq_def zero_adapter_seq_def)
next
  case (Suc n)
  let ?m = "map (\<lambda>j. (of_nat (2 * j + 1) :: u32, ())) [0..<n]"
  let ?a = "\<lparr>as_have = True, as_highest = of_nat (2 * n), as_expected = of_nat (2 * n) + 1, as_received = of_nat n + 1, as_missing = ?m\<rparr>"
  have u: "unat (of_nat j :: u32) = j" if "j \<le> 2 * n + 2" for j
    using that Suc.prems by (intro unat_of_nat_small) simp
  have run: "fold (count_adapter_seq pol) (every_other (Suc n)) zero_adapter_seq = count_adapter_seq pol (of_nat (2 * n + 2)) ?a"
    using Suc by (simp add: every_other_def)
  have gt: "(of_nat (2 * n) :: u32) < of_nat (2 * n + 2)"
    unfolding word_less_nat_alt using u [of "2 * n"] u [of "2 * n + 2"] by simp
  have delta: "(of_nat (2 * n + 2) :: u32) - of_nat (2 * n) = 2"
    by simp
  have clamp: "\<not> fwd_clamp_pkts pol < 2"
    using assms(1) by simp
  have between: "between (of_nat (2 * n)) (of_nat (2 * n + 2)) = [of_nat (2 * n + 1)]"
    using u [of "2 * n"] u [of "2 * n + 2"] by (simp add: between_def)
  have "\<forall>k' \<in> om_keys ?m. k' < of_nat (2 * n + 1)"
    using u by (auto simp: word_less_nat_alt simp del: of_nat_add of_nat_Suc of_nat_mult)
  then have ins: "om_insert (of_nat (2 * n + 1)) ?m = ?m @ [(of_nat (2 * n + 1), ())]"
    unfolding om_insert_def by (rule om_emplace_last)
  show ?case
    unfolding run unfolding count_adapter_seq_def AdapterSeq.simps delta between Let_def using gt clamp ins by simp
qed

text \<open>The set of missing sequence numbers that loss accounting keeps per adapter has no bound: an
  adapter that hears every other packet leaves one entry per loss, however long it runs.\<close>

theorem adapter_missing_grows_without_bound:
  assumes "2 \<le> fwd_clamp_pkts pol" and "2 * n < 2 ^ 32"
  shows "length (as_missing (fold (count_adapter_seq pol) (every_other n) zero_adapter_seq)) = n"
  unfolding every_other_state [OF assms] by simp

section \<open>Examples\<close>

lemma rx_demo_reach: "rx_reach rx_demo_policy (rx_wants rx_demo_engine) rx_demo_engine"
  using rx_reach.start [of rx_demo_policy "rx_wants rx_demo_engine" None None] by (simp add: rx_demo_engine_def new_rx_def)

text \<open>Three packets of one sender: the third latches the stream, and is delivered.\<close>

definition rx_demo_latched :: RxEngine where
  "rx_demo_latched = fst (on_data (fst (on_data (fst (on_data rx_demo_engine 0 (rx_demo_packet 8 3) 990 (- 60) None))
     0 (rx_demo_packet 9 3) 991 (- 60) None)) 0 (rx_demo_packet 10 3) 992 (- 60) None)"

lemma rx_demo_latched_eval: "length (rx_streams rx_demo_latched) = 1"
  by (simp add: rx_demo_latched_def on_data_def try_latch_def touch_candidate_def evict.simps hear_adapter_def zero_adapter_def
      pack_key_def rx_demo_defs rx_eval Let_def advance_cursor.simps)

theorem rx_memory_bounded_witness:
  "length (rx_streams rx_demo_latched) = 1 \<and> length (rx_discovery rx_demo_latched) \<le> 64"
proof -
  have "rx_reach rx_demo_policy (rx_wants rx_demo_engine) rx_demo_latched"
    unfolding rx_demo_latched_def by (intro rx_reach.data rx_demo_reach)
  then show ?thesis
    using rx_memory_bounded rx_demo_latched_eval by (fastforce simp: rx_demo_policy_def)
qed

theorem rx_first_packet_never_latches_witness:
  "rx_streams (fst (on_data rx_demo_engine 0 (rx_demo_packet 10 3) 1000 (- 60) None)) = []
   \<and> snd (on_data rx_demo_engine 0 (rx_demo_packet 10 3) 1000 (- 60) None) = []"
  using rx_first_packet_never_latches [of rx_demo_engine "rx_demo_packet 10 3" 0 1000 "- 60" None]
    rx_reach_ok [OF rx_demo_reach]
  by (simp add: rx_demo_engine_def new_rx_def rx_demo_policy_def)

theorem rx_implausible_packet_harmless_witness:
  "snd (ingest rx_demo_engine 0 (rx_demo_packet 100000 3) 1000 None rx_demo_stream) = []
   \<and> st_cursor (fst (ingest rx_demo_engine 0 (rx_demo_packet 100000 3) 1000 None rx_demo_stream)) = 10"
proof -
  have "implausible (rx_policy rx_demo_engine) (dv_hdr (rx_demo_packet 100000 3)) rx_demo_stream"
    "st_first_clamp_ms rx_demo_stream = 0" "st_cursor rx_demo_stream = 10"
    by (simp_all add: implausible_def plausible_forward_def rx_demo_defs)
  then show ?thesis
    using rx_implausible_packet_harmless [of rx_demo_engine "rx_demo_packet 100000 3" rx_demo_stream 1000 0 None] by simp
qed

theorem rssi_ewma_never_truncated_witness:
  "ac_rssi_ewma (adapter_counters rx_demo_policy 0 (hear_adapter 5 (- 60) zero_adapter)) = - 60"
  using rssi_ewma_never_truncated [of zero_adapter "- 60" 5 rx_demo_policy 0]
  by (simp add: rssi_in_range_def zero_adapter_def hear_adapter_def signed_divide_int_def)

theorem adapter_missing_grows_without_bound_witness:
  "length (as_missing (fold (count_adapter_seq rx_demo_policy) (every_other 1000000) zero_adapter_seq)) = 1000000"
  using adapter_missing_grows_without_bound [of rx_demo_policy 1000000] by (simp add: rx_demo_policy_def)

end
