(* ===== verification/Cache_Store.thy ===== *)
theory Cache_Store
  imports Wire Ordered_Map
begin

text \<open>
  core/include/wblink/cache_store.h and core/src/cache_store.cpp: the cache node's symbol store,
  which retains the packets it heard and answers bounded requests with them; and the replay gate
  for cache assignments of cache_assignment.h and cache_assignment.cpp.
\<close>

section \<open>State\<close>

record CacheStoreConfig =
  cg_self_originator :: u16
  cg_target_originator :: u16
  cg_stream_ids :: "u8 list"
  cg_blocks :: u16
  cg_reply_limit :: u8
  cg_max_requests_per_s :: u16
  cg_health_window_blocks :: u16

record CacheStoreStats =
  ct_requests_received :: u64
  ct_requests_answered :: u64
  ct_requests_rejected :: u64
  ct_symbols_sent :: u64
  ct_status_sent :: u64
  ct_blocks_held :: u32
  ct_health_permille :: u16

record BlockEntry =
  be_k :: u16
  be_symbols :: "(u16, bytes) omap"
  be_sources_held :: u16

record StreamState =
  sw_key :: StreamKey
  sw_blocks :: "(u32, BlockEntry) omap"
  sw_order :: "u32 list"

record RequesterState =
  rq_session_id :: u32
  rq_window_start_ms :: u64
  rq_window_count :: u16
  rq_recent_ids :: "u32 list"

record CacheStore =
  cache_cfg :: CacheStoreConfig
  cache_stats :: CacheStoreStats
  cache_streams :: "(u8, StreamState) omap"
  cache_requesters :: "(u16, RequesterState) omap"

datatype CacheVerdict = cv_kAnswered | cv_kNotOurs | cv_kUnknownStream | cv_kNoWindow | cv_kRateLimited | cv_kDuplicate

definition zero_cache_stats :: CacheStoreStats where
  "zero_cache_stats = \<lparr>ct_requests_received = 0, ct_requests_answered = 0, ct_requests_rejected = 0,
     ct_symbols_sent = 0, ct_status_sent = 0, ct_blocks_held = 0, ct_health_permille = 0\<rparr>"

definition new_cache_store :: "CacheStoreConfig \<Rightarrow> CacheStore" where
  "new_cache_store cfg = \<lparr>cache_cfg = cfg, cache_stats = zero_cache_stats, cache_streams = [], cache_requesters = []\<rparr>"

definition empty_block_entry :: BlockEntry where
  "empty_block_entry = \<lparr>be_k = 0, be_symbols = [], be_sources_held = 0\<rparr>"

definition empty_stream_state :: StreamState where
  "empty_stream_state = \<lparr>sw_key = \<lparr>sk_originator = 0, sk_session_id = 0, sk_stream_id = 0\<rparr>, sw_blocks = [], sw_order = []\<rparr>"

definition empty_requester :: RequesterState where
  "empty_requester = \<lparr>rq_session_id = 0, rq_window_start_ms = 0, rq_window_count = 0, rq_recent_ids = []\<rparr>"

abbreviation upd_cache_stats :: "(CacheStoreStats \<Rightarrow> CacheStoreStats) \<Rightarrow> CacheStore \<Rightarrow> CacheStore" where
  "upd_cache_stats g c \<equiv> c\<lparr>cache_stats := g (cache_stats c)\<rparr>"

section \<open>Storing\<close>

definition bm_bit_set :: "bytes \<Rightarrow> nat \<Rightarrow> nat \<Rightarrow> bool" where
  "bm_bit_set bm len i \<longleftrightarrow> i div 8 < len \<and> bit (bm ! (i div 8)) (i mod 8)"

definition assign_target :: "u16 \<Rightarrow> CacheStore \<Rightarrow> CacheStore" where
  "assign_target orig c =
     (if orig = 0 \<or> orig = cg_target_originator (cache_cfg c) then c
      else c\<lparr>cache_cfg := (cache_cfg c)\<lparr>cg_target_originator := orig\<rparr>, cache_streams := [], cache_requesters := [],
             cache_stats := (cache_stats c)\<lparr>ct_blocks_held := 0, ct_health_permille := 0\<rparr>\<rparr>)"

definition tracked :: "CacheStore \<Rightarrow> u8 \<Rightarrow> bool" where
  "tracked c sid \<longleftrightarrow> sid \<in> set (cg_stream_ids (cache_cfg c))"

text \<open>The unified index of the symbol a packet carries, with its \<open>k\<close>.\<close>

definition symbol_index :: "data_view \<Rightarrow> (u16 \<times> u16) option" where
  "symbol_index v =
     (let p = ptr_of (dv_payload v); len = length (dv_payload v) in
      if has_flag (data_flags (dv_hdr v)) kFecRepair
      then if len \<le> kFecRepairSubheaderSize then None
           else let k = be16_read (padd p 1); ridx = p 0
                in if k = 0 \<or> kFecMaxSymbols < unat k \<or> kFecMaxSymbols \<le> unat k + unat ridx then None
                   else Some (k, k + ucast ridx)
      else if len < kFecSourceSubheaderSize then None
           else let k = be16_read (padd p 0); idx = be16_read (padd p 2)
                in if k = 0 \<or> kFecMaxSymbols < unat k \<or> k \<le> idx then None else Some (k, idx))"

text \<open>The mean of unique symbols over \<open>k\<close>, newest blocks first. The sum stays below
  \<open>1000 * 2 ^ 16\<close>, so 32 bits are enough.\<close>

fun health_sum :: "nat \<Rightarrow> (u32, BlockEntry) omap \<Rightarrow> u32 list \<Rightarrow> nat \<Rightarrow> nat \<Rightarrow> nat \<times> nat" where
  "health_sum window blocks [] acc n = (acc, n)"
| "health_sum window blocks (i # is) acc n =
     (if \<not> n < window then (acc, n)
      else case map_of blocks i of
             None \<Rightarrow> health_sum window blocks is acc n
           | Some be \<Rightarrow>
               if be_k be = 0 then health_sum window blocks is acc n
               else let uniq = min (length (be_symbols be)) (unat (be_k be))
                    in health_sum window blocks is (acc + uniq * 1000 div unat (be_k be)) (n + 1))"

definition health_permille :: "CacheStoreConfig \<Rightarrow> StreamState \<Rightarrow> u16" where
  "health_permille cfg st =
     (let (acc, n) = health_sum (unat (cg_health_window_blocks cfg)) (sw_blocks st) (rev (sw_order st)) 0 0
      in if n = 0 then 0 else of_nat (min 1000 (acc div n)))"

text \<open>A block is opened; the oldest blocks beyond the retention window are dropped.\<close>

definition open_block :: "nat \<Rightarrow> u32 \<Rightarrow> StreamState \<Rightarrow> StreamState" where
  "open_block cap b st =
     (if om_has b (sw_blocks st) then st
      else let order = sw_order st @ [b];
               gone = take (length order - cap) order
           in st\<lparr>sw_blocks := fold om_erase gone (om_emplace b empty_block_entry (sw_blocks st)),
                 sw_order := drop (length order - cap) order\<rparr>)"

definition store_symbol :: "u16 \<Rightarrow> u16 \<Rightarrow> bytes \<Rightarrow> BlockEntry \<Rightarrow> BlockEntry" where
  "store_symbol k idx frame be =
     (let fresh = \<not> om_has idx (be_symbols be)
      in be\<lparr>be_k := k, be_symbols := om_emplace idx frame (be_symbols be),
            be_sources_held := if fresh \<and> idx < k then be_sources_held be + 1 else be_sources_held be\<rparr>)"

definition refresh_gauges :: "CacheStore \<Rightarrow> CacheStore" where
  "refresh_gauges c =
     upd_cache_stats (\<lambda>x. x\<lparr>ct_blocks_held := of_nat (sum_list (map (\<lambda>s. length (sw_blocks (snd s))) (cache_streams c))),
       ct_health_permille := (case cache_streams c of [] \<Rightarrow> ct_health_permille x
                              | s # _ \<Rightarrow> health_permille (cache_cfg c) (snd s))\<rparr>) c"

text \<open>What a packet of key \<open>key\<close> does to its stream: \<open>None\<close> when it is not the stream's sender.\<close>

definition own_stream :: "u16 \<Rightarrow> StreamKey \<Rightarrow> StreamState \<Rightarrow> StreamState option" where
  "own_stream target key st =
     (if target \<noteq> 0 \<and> sk_originator key \<noteq> target then None
      else if sk_originator (sw_key st) \<noteq> 0 \<and> sk_originator (sw_key st) \<noteq> sk_originator key then None
      else Some (if sw_key st = key then st else st\<lparr>sw_key := key, sw_blocks := [], sw_order := []\<rparr>))"

definition note_data :: "data_view \<Rightarrow> bytes \<Rightarrow> CacheStore \<Rightarrow> CacheStore" where
  "note_data v frame c =
     (let h = dv_hdr v; sid = stream_id h; cfg = cache_cfg c in
      if frame = [] \<or> \<not> tracked c sid then c
      else case symbol_index v of
             None \<Rightarrow> c
           | Some (k, idx) \<Rightarrow>
               let st = (case map_of (cache_streams c) sid of None \<Rightarrow> empty_stream_state | Some st \<Rightarrow> st);
                   key = \<lparr>sk_originator = originator (dh_prefix h), sk_session_id = session_id (dh_prefix h), sk_stream_id = sid\<rparr>;
                   put = (\<lambda>st. c\<lparr>cache_streams := om_update sid st (cache_streams c)\<rparr>)
               in case own_stream (cg_target_originator cfg) key st of
                    None \<Rightarrow> put st
                  | Some st1 \<Rightarrow>
                      let st2 = open_block (unat (cg_blocks cfg)) (block_id h) st1
                      in case map_of (sw_blocks st2) (block_id h) of
                           None \<Rightarrow> put st2
                         | Some be \<Rightarrow>
                             if be_k be \<noteq> 0 \<and> be_k be \<noteq> k then put st2
                             else refresh_gauges (put (st2\<lparr>sw_blocks :=
                                    om_update (block_id h) (store_symbol k idx frame be) (sw_blocks st2)\<rparr>)))"

section \<open>Answering\<close>

definition touch_requester :: "cache_request_header \<Rightarrow> RequesterState option \<Rightarrow> RequesterState" where
  "touch_requester h rq =
     (let r = (case rq of None \<Rightarrow> empty_requester | Some r \<Rightarrow> r)
      in if rq_session_id r \<noteq> session_id (cr_prefix h)
         then empty_requester\<lparr>rq_session_id := session_id (cr_prefix h)\<rparr> else r)"

definition roll_window :: "u64 \<Rightarrow> RequesterState \<Rightarrow> RequesterState" where
  "roll_window now_ms r =
     (if 1000 \<le> now_ms - rq_window_start_ms r then r\<lparr>rq_window_start_ms := now_ms, rq_window_count := 0\<rparr> else r)"

definition admit_request :: "u32 \<Rightarrow> RequesterState \<Rightarrow> RequesterState" where
  "admit_request rid r =
     (let ids = rq_recent_ids r @ [rid]
      in r\<lparr>rq_window_count := rq_window_count r + 1, rq_recent_ids := drop (length ids - 32) ids\<rparr>)"

text \<open>A held symbol the request asks for.\<close>

definition wanted :: "cache_request_view \<Rightarrow> u16 \<Rightarrow> u16 \<Rightarrow> bool" where
  "wanted req k idx \<longleftrightarrow>
     (if idx < k then bm_bit_set (crv_missing_sources req) ((unat (cr_window_len (crv_hdr req)) + 7) div 8) (unat idx)
      else \<not> bm_bit_set (crv_repair_have req) (length (crv_repair_have req)) (unat (idx - k)))"

definition answer :: "CacheStore \<Rightarrow> cache_request_view \<Rightarrow> u64 \<Rightarrow> CacheVerdict \<times> CacheStore \<times> bytes list" where
  "answer c0 req now_ms =
     (let h = crv_hdr req;
          c = upd_cache_stats (\<lambda>x. x\<lparr>ct_requests_received := ct_requests_received x + 1\<rparr>) c0;
          reject = upd_cache_stats (\<lambda>x. x\<lparr>ct_requests_rejected := ct_requests_rejected x + 1\<rparr>);
          cfg = cache_cfg c
      in if cr_target_cache h \<noteq> cg_self_originator cfg then (cv_kNotOurs, reject c, [])
      else let who = originator (cr_prefix h);
               r = touch_requester h (map_of (cache_requesters c) who);
               put = (\<lambda>r c. c\<lparr>cache_requesters := om_update who r (cache_requesters c)\<rparr>)
      in if cr_request_id h \<in> set (rq_recent_ids r) then (cv_kDuplicate, put r c, [])
      else let r1 = roll_window now_ms r
      in if cg_max_requests_per_s cfg \<noteq> 0 \<and> cg_max_requests_per_s cfg \<le> rq_window_count r1
         then (cv_kRateLimited, reject (put r1 c), [])
      else let c1 = put (admit_request (cr_request_id h) r1) c;
               want = \<lparr>sk_originator = cr_target_originator h, sk_session_id = cr_target_session h,
                       sk_stream_id = cr_target_stream_id h\<rparr>
      in case map_of (cache_streams c1) (cr_target_stream_id h) of
           None \<Rightarrow> (cv_kUnknownStream, reject c1, [])
         | Some st \<Rightarrow>
             if sw_key st \<noteq> want then (cv_kUnknownStream, reject c1, [])
             else case map_of (sw_blocks st) (cr_block_id h) of
                    None \<Rightarrow> (cv_kNoWindow, reject c1, [])
                  | Some be \<Rightarrow>
                      if be_k be = 0 \<or> be_k be \<noteq> cr_window_len h then (cv_kNoWindow, reject c1, [])
                      else let allowance = unat (min (cr_max_symbols h) (cg_reply_limit cfg));
                               out = take allowance (map snd (filter (\<lambda>s. wanted req (be_k be) (fst s)) (be_symbols be)))
                           in (cv_kAnswered, upd_cache_stats (\<lambda>x. x\<lparr>ct_requests_answered := ct_requests_answered x + 1,
                                 ct_symbols_sent := ct_symbols_sent x + of_nat (length out)\<rparr>) c1, out))"

record StatusEntry =
  se_key :: StreamKey
  se_stream_id :: u8
  se_oldest_block :: u32
  se_newest_block :: u32
  se_rx_health_permille :: u16

definition cache_status_entries :: "CacheStore \<Rightarrow> StatusEntry list" where
  "cache_status_entries c =
     map (\<lambda>(sid, st). \<lparr>se_key = sw_key st, se_stream_id = sid, se_oldest_block = hd (sw_order st),
            se_newest_block = last (sw_order st), se_rx_health_permille = health_permille (cache_cfg c) st\<rparr>)
       (filter (\<lambda>(sid, st). sw_order st \<noteq> []) (cache_streams c))"

definition cache_reset_stats :: "CacheStore \<Rightarrow> CacheStore" where
  "cache_reset_stats c =
     c\<lparr>cache_stats := zero_cache_stats\<lparr>ct_blocks_held := ct_blocks_held (cache_stats c),
         ct_health_permille := ct_health_permille (cache_stats c)\<rparr>\<rparr>"

section \<open>The assignment gate\<close>

datatype AssignVerdict = av_kApply | av_kDuplicate | av_kWrongController | av_kWrongCache | av_kStale | av_kEpochConflict

record CacheAssignmentGate =
  ag_self :: u16
  ag_controller :: u16
  ag_current :: "cache_assign option"
  ag_retired_sessions :: "u32 list"

definition new_assignment_gate :: "u16 \<Rightarrow> u16 \<Rightarrow> CacheAssignmentGate" where
  "new_assignment_gate self controller = \<lparr>ag_self = self, ag_controller = controller, ag_current = None, ag_retired_sessions = []\<rparr>"

definition retired :: "CacheAssignmentGate \<Rightarrow> u32 \<Rightarrow> bool" where
  "retired g session \<longleftrightarrow> session \<in> set (ag_retired_sessions g)"

definition ag_evaluate :: "CacheAssignmentGate \<Rightarrow> cache_assign \<Rightarrow> AssignVerdict" where
  "ag_evaluate g a =
     (if originator (ca_prefix a) \<noteq> ag_controller g then av_kWrongController
      else if destination (ca_prefix a) \<noteq> ag_self g \<or> ca_target_cache a \<noteq> ag_self g then av_kWrongCache
      else case ag_current g of
             None \<Rightarrow> av_kApply
           | Some cur \<Rightarrow>
               if session_id (ca_prefix a) \<noteq> session_id (ca_prefix cur)
               then if retired g (session_id (ca_prefix a)) then av_kStale else av_kApply
               else if ca_assignment_epoch a < ca_assignment_epoch cur then av_kStale
               else if ca_assignment_epoch cur < ca_assignment_epoch a then av_kApply
               else if a = cur then av_kDuplicate else av_kEpochConflict)"

definition ag_commit :: "cache_assign \<Rightarrow> CacheAssignmentGate \<Rightarrow> CacheAssignmentGate" where
  "ag_commit a g =
     (let g1 = (case ag_current g of
                  None \<Rightarrow> g
                | Some cur \<Rightarrow>
                    if session_id (ca_prefix cur) \<noteq> session_id (ca_prefix a)
                    then let rs = ag_retired_sessions g @ [session_id (ca_prefix cur)]
                         in g\<lparr>ag_retired_sessions := drop (length rs - 8) rs\<rparr>
                    else g)
      in g1\<lparr>ag_current := Some a\<rparr>)"

end
