(* ===== verification/Cache_Store_Props.thy ===== *)
theory Cache_Store_Props
  imports Cache_Store Wire_Props
begin

text \<open>
  The cache store's well-formedness: what it retains is bounded, filed under the right stream,
  block and index, and every retained frame is a packet that carries that symbol. Every operation
  keeps it. What an answer contains follows from it.
\<close>

section \<open>Well-formedness\<close>

text \<open>The data packet a frame is, if it is one.\<close>

definition wrapped :: "bytes \<Rightarrow> data_view option" where
  "wrapped f = (case decode (Some (ptr_of f)) (length f) of Inr (PData v) \<Rightarrow> Some v | _ \<Rightarrow> None)"

definition sender_key :: "data_view \<Rightarrow> StreamKey" where
  "sender_key v = \<lparr>sk_originator = originator (dh_prefix (dv_hdr v)), sk_session_id = session_id (dh_prefix (dv_hdr v)),
     sk_stream_id = stream_id (dv_hdr v)\<rparr>"

text \<open>A frame that carries symbol \<open>idx\<close> of block \<open>b\<close> (of \<open>k\<close> sources) of the stream.\<close>

definition carries :: "StreamKey \<Rightarrow> u32 \<Rightarrow> u16 \<Rightarrow> u16 \<Rightarrow> bytes \<Rightarrow> bool" where
  "carries key b k idx f = (case wrapped f of None \<Rightarrow> False
     | Some v \<Rightarrow> sender_key v = key \<and> block_id (dv_hdr v) = b \<and> symbol_index v = Some (k, idx))"

definition sources_of :: "BlockEntry \<Rightarrow> nat" where
  "sources_of be = length (filter (\<lambda>s. fst s < be_k be) (be_symbols be))"

definition entry_ok :: "StreamKey \<Rightarrow> u32 \<Rightarrow> BlockEntry \<Rightarrow> bool" where
  "entry_ok key b be \<longleftrightarrow> be_k be \<noteq> 0 \<and> unat (be_k be) \<le> kFecMaxSymbols \<and> om_ok (be_symbols be)
     \<and> (\<forall>(idx, f) \<in> set (be_symbols be). carries key b (be_k be) idx f)
     \<and> unat (be_sources_held be) = sources_of be"

definition retention_ok :: "nat \<Rightarrow> StreamState \<Rightarrow> bool" where
  "retention_ok cap st \<longleftrightarrow> om_ok (sw_blocks st) \<and> distinct (sw_order st)
     \<and> set (sw_order st) = om_keys (sw_blocks st) \<and> length (sw_order st) \<le> cap"

definition stream_ok :: "CacheStoreConfig \<Rightarrow> u8 \<Rightarrow> StreamState \<Rightarrow> bool" where
  "stream_ok cfg sid st \<longleftrightarrow> retention_ok (unat (cg_blocks cfg)) st
     \<and> (sw_blocks st \<noteq> [] \<longrightarrow> sk_stream_id (sw_key st) = sid
          \<and> (cg_target_originator cfg = 0 \<or> sk_originator (sw_key st) = cg_target_originator cfg))
     \<and> (\<forall>(b, be) \<in> set (sw_blocks st). entry_ok (sw_key st) b be)"

definition requester_ok :: "CacheStoreConfig \<Rightarrow> RequesterState \<Rightarrow> bool" where
  "requester_ok cfg r \<longleftrightarrow> distinct (rq_recent_ids r) \<and> length (rq_recent_ids r) \<le> 32
     \<and> (cg_max_requests_per_s cfg \<noteq> 0 \<longrightarrow> rq_window_count r \<le> cg_max_requests_per_s cfg)"

definition cache_ok :: "CacheStore \<Rightarrow> bool" where
  "cache_ok c \<longleftrightarrow> om_ok (cache_streams c) \<and> om_ok (cache_requesters c)
     \<and> (\<forall>(sid, st) \<in> set (cache_streams c). tracked c sid \<and> stream_ok (cache_cfg c) sid st)
     \<and> (\<forall>(who, r) \<in> set (cache_requesters c). requester_ok (cache_cfg c) r)"

lemma cache_okD:
  assumes "cache_ok c"
  shows "om_ok (cache_streams c)" and "om_ok (cache_requesters c)"
    and "map_of (cache_streams c) sid = Some st \<Longrightarrow> stream_ok (cache_cfg c) sid st"
    and "map_of (cache_requesters c) who = Some r \<Longrightarrow> requester_ok (cache_cfg c) r"
  using assms unfolding cache_ok_def by (auto dest!: map_of_SomeD)

lemma stream_okD:
  assumes "stream_ok cfg sid st"
  shows "om_ok (sw_blocks st)" and "distinct (sw_order st)" and "set (sw_order st) = om_keys (sw_blocks st)"
    and "length (sw_order st) \<le> unat (cg_blocks cfg)"
    and "map_of (sw_blocks st) b = Some be \<Longrightarrow> entry_ok (sw_key st) b be"
    and "map_of (sw_blocks st) b = Some be \<Longrightarrow> sk_stream_id (sw_key st) = sid"
  using assms unfolding stream_ok_def retention_ok_def by (fastforce dest!: map_of_SomeD)+

lemma set_om_emplace_absent: "\<not> om_has k xs \<Longrightarrow> set (om_emplace k v xs) = insert (k, v) (set xs)"
  by (induction k v xs rule: om_emplace.induct) (auto simp: om_has_def split: if_splits)

section \<open>Storing\<close>

lemma symbol_indexD:
  assumes "symbol_index v = Some (k, idx)"
  shows "k \<noteq> 0 \<and> unat k \<le> kFecMaxSymbols \<and> unat idx < kFecMaxSymbols"
proof -
  have "unat (k' + ucast (r :: u8)) = unat k' + unat r" if "unat k' + unat r < 256" for k' :: u16 and r
    using that by (simp add: unat_word_ariths)
  then show ?thesis
    using assms by (auto simp: symbol_index_def Let_def word_le_nat_alt not_le split: if_splits)
qed

text \<open>At most \<open>k\<close> of the indices are sources, so the 16-bit count does not wrap.\<close>

lemma sources_of_bound:
  assumes "om_ok (be_symbols be)"
  shows "sources_of be \<le> unat (be_k be)"
proof -
  let ?s = "filter (\<lambda>s. fst s < be_k be) (be_symbols be)"
  have "length ?s = card (fst ` set ?s)"
    by (rule om_length_card) (simp add: om_ok_filter assms)
  also have "\<dots> = card (unat ` fst ` set ?s)"
    by (rule card_image [symmetric]) (simp add: inj_on_def unat_inject_iff)
  also have "\<dots> \<le> card {..< unat (be_k be)}"
    by (rule card_mono) (auto simp: word_less_nat_alt)
  finally show ?thesis
    by (simp add: sources_of_def)
qed

lemma length_filter_emplace:
  assumes "om_ok xs" and "\<not> om_has k xs"
  shows "length (filter P (om_emplace k v xs)) = length (filter P xs) + (if P (k, v) then 1 else 0)"
  using assms
  by (induction k v xs rule: om_emplace.induct) (auto simp: om_has_def om_ok_Cons split: if_splits)

lemma entry_ok_store_symbol:
  assumes be: "entry_ok key b be \<or> be = empty_block_entry" and k: "be_k be = 0 \<or> be_k be = k"
    and new: "carries key b k idx f"
  shows "entry_ok key b (store_symbol k idx f be)"
proof -
  have kk: "k \<noteq> 0" "unat k \<le> kFecMaxSymbols"
    using new symbol_indexD by (auto simp: carries_def split: option.splits)
  have ok: "om_ok (be_symbols be)"
    and all: "(i, g) \<in> set (be_symbols be) \<Longrightarrow> carries key b k i g"
    and held: "unat (be_sources_held be) = length (filter (\<lambda>s. fst s < k) (be_symbols be))" for i g
    using be k by (auto simp: entry_ok_def empty_block_entry_def sources_of_def)
  let ?be = "store_symbol k idx f be"
  have bk: "be_k ?be = k" and sy: "be_symbols ?be = om_emplace idx f (be_symbols be)"
    by (simp_all add: store_symbol_def Let_def)
  have ok': "om_ok (be_symbols ?be)"
    by (simp add: sy ok)
  have bound: "sources_of ?be \<le> 256"
    using sources_of_bound [OF ok'] kk by (simp add: bk)
  have "unat (be_sources_held ?be) = sources_of ?be"
  proof (cases "om_has idx (be_symbols be)")
    case True
    then show ?thesis
      by (simp add: store_symbol_def Let_def sources_of_def om_emplace_same ok held)
  next
    case False
    have eq: "sources_of ?be = unat (be_sources_held be) + (if idx < k then 1 else 0)"
      by (simp add: sources_of_def bk sy length_filter_emplace ok False held)
    show ?thesis
      using bound eq False by (auto simp: store_symbol_def Let_def unat_word_ariths)
  qed
  moreover have "\<forall>(i, g) \<in> set (be_symbols ?be). carries key b k i g"
    using set_om_emplace [of idx f "be_symbols be"] all new by (auto simp: sy)
  ultimately show ?thesis
    using kk ok' by (simp add: entry_ok_def bk)
qed

lemma fold_erase_ok: "om_ok xs \<Longrightarrow> om_ok (fold om_erase ks xs)"
  by (induction ks arbitrary: xs) simp_all

lemma set_fold_erase: "set (fold om_erase ks xs) = {kv \<in> set xs. fst kv \<notin> set ks}"
  by (induction ks arbitrary: xs) (auto simp: om_erase_def)

text \<open>Opening a block keeps the order list, the blocks and the retention window in step; the new
  block is the only one that may be empty.\<close>

lemma open_block_window:
  assumes "retention_ok cap st"
  shows "retention_ok cap (open_block cap b st)"
proof (cases "om_has b (sw_blocks st)")
  case True
  then show ?thesis
    using assms by (simp add: open_block_def)
next
  case False
  define order where "order = sw_order st @ [b]"
  define n where "n = length order - cap"
  have d: "distinct order" and s: "set order = insert b (om_keys (sw_blocks st))"
    using assms False by (auto simp: retention_ok_def order_def om_has_iff)
  have "set order = set (take n order) \<union> set (drop n order)"
    by (metis append_take_drop_id set_append)
  then have "set (drop n order) = set order - set (take n order)"
    using set_take_disj_set_drop_if_distinct [OF d, of n n] by blast
  note tail = this
  let ?st = "open_block cap b st"
  have eqs: "sw_order ?st = drop n order" "sw_blocks ?st = fold om_erase (take n order) (om_emplace b empty_block_entry (sw_blocks st))"
    using False by (simp_all add: open_block_def Let_def order_def n_def)
  have "om_keys (sw_blocks ?st) = set order - set (take n order)"
    unfolding eqs set_fold_erase set_om_emplace_absent [OF False] s by force
  then show ?thesis
    using assms d tail by (simp add: retention_ok_def eqs fold_erase_ok n_def)
qed

lemma open_block_entries:
  "(b', be) \<in> set (sw_blocks (open_block cap b st)) \<Longrightarrow> (b', be) \<in> set (sw_blocks st) \<or> (b' = b \<and> be = empty_block_entry)"
  using set_om_emplace [of b empty_block_entry "sw_blocks st"]
  by (auto simp: open_block_def Let_def set_fold_erase split: if_splits)

lemma open_block_key [simp]: "sw_key (open_block cap b st) = sw_key st"
  by (simp add: open_block_def Let_def)

lemma cache_ok_put:
  assumes "cache_ok c" and "tracked c sid" and "stream_ok (cache_cfg c) sid st"
  shows "cache_ok (c\<lparr>cache_streams := om_update sid st (cache_streams c)\<rparr>)"
  using assms by (auto simp: cache_ok_def set_om_update tracked_def)

lemma cache_ok_stats [simp]: "cache_ok (c\<lparr>cache_stats := x\<rparr>) = cache_ok c"
  by (simp add: cache_ok_def tracked_def)

lemma cache_ok_gauges [simp]: "cache_ok (refresh_gauges c) = cache_ok c"
  by (simp add: refresh_gauges_def cache_ok_def tracked_def)

lemma stream_ok_empty: "stream_ok cfg sid empty_stream_state"
  by (simp add: stream_ok_def retention_ok_def empty_stream_state_def)

text \<open>A stream whose blocks are filled but for one that was just opened.\<close>

lemma own_stream_SomeD:
  assumes "own_stream target key st = Some st1" and "stream_ok cfg sid st" and "sk_stream_id key = sid"
    and "target = cg_target_originator cfg"
  shows "sw_key st1 = key" and "retention_ok (unat (cg_blocks cfg)) st1"
    and "target = 0 \<or> sk_originator key = target"
    and "\<forall>(b, be) \<in> set (sw_blocks st1). entry_ok key b be"
proof -
  have "st1 = (if sw_key st = key then st else st\<lparr>sw_key := key, sw_blocks := [], sw_order := []\<rparr>)"
    using assms(1) by (simp add: own_stream_def split: if_splits)
  then show "sw_key st1 = key" "retention_ok (unat (cg_blocks cfg)) st1" "\<forall>(b, be) \<in> set (sw_blocks st1). entry_ok key b be"
    using assms(2) by (auto simp: stream_ok_def retention_ok_def)
  show "target = 0 \<or> sk_originator key = target"
    using assms(1) by (auto simp: own_stream_def split: if_splits)
qed

text \<open>The block the packet belongs to is opened and either gets the symbol, or it was there before
  and is left alone.\<close>

lemma stream_ok_store:
  assumes st: "sw_key st1 = key" "retention_ok (unat (cg_blocks cfg)) st1"
      "cg_target_originator cfg = 0 \<or> sk_originator key = cg_target_originator cfg"
      "\<forall>(b, be) \<in> set (sw_blocks st1). entry_ok key b be" "sk_stream_id key = sid"
    and st2: "st2 = open_block (unat (cg_blocks cfg)) b st1"
  shows "map_of (sw_blocks st2) b = None \<Longrightarrow> stream_ok cfg sid st2"
    and "map_of (sw_blocks st2) b = Some be \<Longrightarrow> be_k be \<noteq> 0 \<Longrightarrow> stream_ok cfg sid st2"
    and "map_of (sw_blocks st2) b = Some be \<Longrightarrow> be_k be = 0 \<or> be_k be = k \<Longrightarrow> carries key b k idx f \<Longrightarrow>
           stream_ok cfg sid (st2\<lparr>sw_blocks := om_update b (store_symbol k idx f be) (sw_blocks st2)\<rparr>)"
proof -
  have w: "retention_ok (unat (cg_blocks cfg)) st2" and key: "sw_key st2 = key"
    using open_block_window [OF st(2)] st(1) by (simp_all add: st2)
  have ok: "om_ok (sw_blocks st2)"
    using w by (simp add: retention_ok_def)
  have entry: "entry_ok key b' e \<or> (b' = b \<and> e = empty_block_entry)" if "(b', e) \<in> set (sw_blocks st2)" for b' e
    using open_block_entries [OF that [unfolded st2]] st(4) by auto
  show "stream_ok cfg sid st2" if "map_of (sw_blocks st2) b = None"
  proof -
    have "b' \<noteq> b" if "(b', e) \<in> set (sw_blocks st2)" for b' e
      using that \<open>map_of (sw_blocks st2) b = None\<close> by (auto simp: map_of_eq_None_iff image_iff)
    then show ?thesis
      using w entry st(3,5) by (auto simp: stream_ok_def key)
  qed
  show "stream_ok cfg sid st2" if "map_of (sw_blocks st2) b = Some be" "be_k be \<noteq> 0"
  proof -
    have "e \<noteq> empty_block_entry" if "(b, e) \<in> set (sw_blocks st2)" for e
      using that map_of_ok_iff [OF ok, of b e] \<open>map_of (sw_blocks st2) b = Some be\<close> \<open>be_k be \<noteq> 0\<close>
      by (auto simp: empty_block_entry_def)
    then show ?thesis
      using w entry st(3,5) by (fastforce simp: stream_ok_def key)
  qed
  show "stream_ok cfg sid (st2\<lparr>sw_blocks := om_update b (store_symbol k idx f be) (sw_blocks st2)\<rparr>)"
    if m: "map_of (sw_blocks st2) b = Some be" and k: "be_k be = 0 \<or> be_k be = k" and new: "carries key b k idx f"
  proof -
    have in_st2: "(b, be) \<in> set (sw_blocks st2)"
      using m by (rule map_of_SomeD)
    have "entry_ok key b (store_symbol k idx f be)"
      using entry [OF in_st2] by (intro entry_ok_store_symbol [OF _ k new]) auto
    moreover have "insert b (om_keys (sw_blocks st2)) = om_keys (sw_blocks st2)"
      using in_st2 by force
    ultimately show ?thesis
      using w entry st(3,5) by (auto simp: stream_ok_def retention_ok_def key set_om_update fst_set_update)
  qed
qed

lemma cache_ok_note_data:
  assumes c: "cache_ok c" and f: "wrapped f = Some v"
  shows "cache_ok (note_data v f c)"
proof (cases "f = [] \<or> \<not> tracked c (stream_id (dv_hdr v)) \<or> symbol_index v = None")
  case True
  then show ?thesis
    using c by (auto simp: note_data_def Let_def)
next
  case False
  then obtain k idx where s: "symbol_index v = Some (k, idx)" and tr: "tracked c (stream_id (dv_hdr v))" and ne: "f \<noteq> []"
    by auto
  define sid where "sid = stream_id (dv_hdr v)"
  define cfg where "cfg = cache_cfg c"
  define st where "st = (case map_of (cache_streams c) sid of None \<Rightarrow> empty_stream_state | Some st \<Rightarrow> st)"
  have st: "stream_ok cfg sid st"
    using cache_okD(3) [OF c] by (auto simp: st_def cfg_def stream_ok_empty split: option.splits)
  note put = cache_ok_put [OF c tr [folded sid_def], folded cfg_def]
  have key: "sk_stream_id (sender_key v) = sid" and new: "carries (sender_key v) (block_id (dv_hdr v)) k idx f"
    by (simp_all add: sender_key_def sid_def carries_def f s)
  show ?thesis
  proof (cases "own_stream (cg_target_originator cfg) (sender_key v) st")
    case None
    then show ?thesis
      using put [OF st] ne tr s by (simp add: note_data_def Let_def cfg_def st_def sid_def sender_key_def)
  next
    case (Some st1)
    define st2 where "st2 = open_block (unat (cg_blocks cfg)) (block_id (dv_hdr v)) st1"
    note rules = stream_ok_store [OF own_stream_SomeD [OF Some st key refl] key st2_def]
    have eq: "note_data v f c = (case map_of (sw_blocks st2) (block_id (dv_hdr v)) of
        None \<Rightarrow> c\<lparr>cache_streams := om_update sid st2 (cache_streams c)\<rparr>
      | Some be \<Rightarrow> if be_k be \<noteq> 0 \<and> be_k be \<noteq> k then c\<lparr>cache_streams := om_update sid st2 (cache_streams c)\<rparr>
          else refresh_gauges (c\<lparr>cache_streams := om_update sid (st2\<lparr>sw_blocks :=
            om_update (block_id (dv_hdr v)) (store_symbol k idx f be) (sw_blocks st2)\<rparr>) (cache_streams c)\<rparr>))"
      using ne tr s Some by (simp add: note_data_def Let_def cfg_def st_def sid_def sender_key_def st2_def split: option.split)
    show ?thesis
      unfolding eq using put rules new by (auto split: option.splits)
  qed
qed

section \<open>Answering\<close>

lemma requester_ok_touch:
  assumes "\<And>r. rq = Some r \<Longrightarrow> requester_ok cfg r"
  shows "requester_ok cfg (roll_window now_ms (touch_requester h rq))" and "requester_ok cfg (touch_requester h rq)"
  using assms by (auto simp: touch_requester_def roll_window_def requester_ok_def empty_requester_def Let_def split: option.splits)

lemma requester_ok_admit:
  assumes "requester_ok cfg r" and "rid \<notin> set (rq_recent_ids r)"
    and "cg_max_requests_per_s cfg = 0 \<or> rq_window_count r < cg_max_requests_per_s cfg"
  shows "requester_ok cfg (admit_request rid r)"
proof -
  have "rq_window_count r + 1 \<le> cg_max_requests_per_s cfg" if "rq_window_count r < cg_max_requests_per_s cfg"
    using that by (rule inc_le)
  then show ?thesis
    using assms by (auto simp: requester_ok_def admit_request_def Let_def distinct_drop dest: in_set_dropD)
qed

lemma cache_ok_put_requester:
  assumes "cache_ok c" and "requester_ok (cache_cfg c) r"
  shows "cache_ok (c\<lparr>cache_requesters := om_update who r (cache_requesters c)\<rparr>)"
  using assms by (auto simp: cache_ok_def set_om_update tracked_def)

text \<open>Every answer leaves the retained blocks alone: the store differs in the requester's entry and
  in the counters only.\<close>

lemma answer_cases:
  assumes "answer c req now_ms = (v, c', out)" and "cache_ok c"
  obtains (same) g where "c' = upd_cache_stats g c"
  | (req) g r where "c' = upd_cache_stats g (c\<lparr>cache_requesters := om_update (originator (cr_prefix (crv_hdr req))) r (cache_requesters c)\<rparr>)"
      and "requester_ok (cache_cfg c) r"
proof -
  define h where "h = crv_hdr req"
  define t where "t = touch_requester h (map_of (cache_requesters c) (originator (cr_prefix h)))"
  define r1 where "r1 = roll_window now_ms t"
  have t: "requester_ok (cache_cfg c) t" and r1: "requester_ok (cache_cfg c) r1"
    unfolding t_def r1_def by (rule requester_ok_touch, rule cache_okD(4) [OF assms(2)], assumption)+
  have rids: "rq_recent_ids r1 = rq_recent_ids t"
    by (simp add: r1_def roll_window_def)
  show ?thesis
  proof (cases "cr_target_cache h \<noteq> cg_self_originator (cache_cfg c)")
    case True
    then show ?thesis
      using assms(1) by (intro same [of "\<lambda>_. cache_stats c'"]) (auto simp: answer_def Let_def h_def)
  next
    case ours: False
    show ?thesis
    proof (cases "cr_request_id h \<in> set (rq_recent_ids t)")
      case True
      then show ?thesis
        using assms(1) ours t
        by (intro req [of "\<lambda>_. cache_stats c'" t, folded h_def]) (auto simp: answer_def Let_def t_def h_def)
    next
      case fresh: False
      show ?thesis
      proof (cases "cg_max_requests_per_s (cache_cfg c) \<noteq> 0 \<and> cg_max_requests_per_s (cache_cfg c) \<le> rq_window_count r1")
        case True
        then show ?thesis
          using assms(1) ours fresh r1
          by (intro req [of "\<lambda>_. cache_stats c'" r1, folded h_def]) (auto simp: answer_def Let_def t_def r1_def h_def)
      next
        case False
        have "requester_ok (cache_cfg c) (admit_request (cr_request_id h) r1)"
          using False fresh by (intro requester_ok_admit [OF r1]) (auto simp: rids)
        then show ?thesis
          using assms(1) ours fresh False
          by (intro req [of "\<lambda>_. cache_stats c'" "admit_request (cr_request_id h) r1", folded h_def])
            (auto simp: answer_def Let_def t_def r1_def h_def split: option.splits if_splits)
      qed
    qed
  qed
qed

lemma cache_ok_answer:
  assumes "cache_ok c" and "answer c req now_ms = (v, c', out)"
  shows "cache_ok c'"
  using assms(2,1)
proof (cases rule: answer_cases)
  case same
  then show ?thesis
    using assms(1) by simp
next
  case req
  then show ?thesis
    using cache_ok_put_requester [OF assms(1)] by simp
qed

lemma answeredD:
  assumes "answer c req now_ms = (cv_kAnswered, c', out)"
  obtains st be where "map_of (cache_streams c) (cr_target_stream_id (crv_hdr req)) = Some st"
    and "sw_key st = \<lparr>sk_originator = cr_target_originator (crv_hdr req), sk_session_id = cr_target_session (crv_hdr req),
           sk_stream_id = cr_target_stream_id (crv_hdr req)\<rparr>"
    and "map_of (sw_blocks st) (cr_block_id (crv_hdr req)) = Some be" and "be_k be = cr_window_len (crv_hdr req)"
    and "out = take (unat (min (cr_max_symbols (crv_hdr req)) (cg_reply_limit (cache_cfg c))))
           (map snd (filter (\<lambda>s. wanted req (be_k be) (fst s)) (be_symbols be)))"
  using assms by (auto simp: answer_def Let_def split: if_splits option.splits)

text \<open>What an answer holds: at most the allowance, in ascending order of the symbols' indices, each a
  retained frame of the requested block that the request asks for; and everything asked for that
  is retained, when the allowance is not used up.\<close>

definition symbol_no :: "bytes \<Rightarrow> u16" where
  "symbol_no f = (case wrapped f of None \<Rightarrow> 0 | Some v \<Rightarrow> (case symbol_index v of None \<Rightarrow> 0 | Some (k, idx) \<Rightarrow> idx))"

lemma carries_symbol_no: "carries key b k idx f \<Longrightarrow> symbol_no f = idx"
  by (auto simp: carries_def symbol_no_def split: option.splits)

lemma sorted_wrt_take: "sorted_wrt P xs \<Longrightarrow> sorted_wrt P (take n xs)"
  by (metis append_take_drop_id sorted_wrt_append)

lemma answer_exact:
  assumes c: "cache_ok c" and a: "answer c req now_ms = (cv_kAnswered, c', out)"
  defines "h \<equiv> crv_hdr req"
  shows "length out \<le> unat (cr_max_symbols h)" and "length out \<le> unat (cg_reply_limit (cache_cfg c))"
    and "sorted_wrt (<) (map symbol_no out)"
    and "f \<in> set out \<Longrightarrow> wanted req (cr_window_len h) (symbol_no f)
           \<and> carries \<lparr>sk_originator = cr_target_originator h, sk_session_id = cr_target_session h,
                sk_stream_id = cr_target_stream_id h\<rparr> (cr_block_id h) (cr_window_len h) (symbol_no f) f"
proof -
  obtain st be where st: "map_of (cache_streams c) (cr_target_stream_id h) = Some st"
    and key: "sw_key st = \<lparr>sk_originator = cr_target_originator h, sk_session_id = cr_target_session h,
                sk_stream_id = cr_target_stream_id h\<rparr>"
    and be: "map_of (sw_blocks st) (cr_block_id h) = Some be" and k: "be_k be = cr_window_len h"
    and out: "out = take (unat (min (cr_max_symbols h) (cg_reply_limit (cache_cfg c))))
           (map snd (filter (\<lambda>s. wanted req (be_k be) (fst s)) (be_symbols be)))"
    using answeredD [OF a] unfolding h_def by metis
  have ok: "entry_ok (sw_key st) (cr_block_id h) be"
    using stream_okD(5) [OF cache_okD(3) [OF c st] be] .
  have "length out \<le> unat (min (cr_max_symbols h) (cg_reply_limit (cache_cfg c)))"
    by (simp add: out)
  then show "length out \<le> unat (cr_max_symbols h)" "length out \<le> unat (cg_reply_limit (cache_cfg c))"
    by (auto simp: min_def word_le_nat_alt split: if_splits)
  define ws where "ws = filter (\<lambda>s. wanted req (be_k be) (fst s)) (be_symbols be)"
  have ws: "carries (sw_key st) (cr_block_id h) (be_k be) idx g \<and> wanted req (be_k be) idx" if "(idx, g) \<in> set ws" for idx g
    using that ok by (auto simp: ws_def entry_ok_def)
  have "map symbol_no (map snd ws) = map fst ws"
    using ws carries_symbol_no by (force intro: map_cong)
  moreover have "sorted_wrt (<) (map fst ws)"
    using om_ok_filter [of "be_symbols be"] ok by (simp add: ws_def entry_ok_def om_ok_def)
  ultimately have "sorted_wrt (<) (map symbol_no (map snd ws))"
    by (simp only:)
  then show "sorted_wrt (<) (map symbol_no out)"
    unfolding out ws_def [symmetric] take_map [symmetric] by (rule sorted_wrt_take)
  show "wanted req (cr_window_len h) (symbol_no f)
           \<and> carries \<lparr>sk_originator = cr_target_originator h, sk_session_id = cr_target_session h,
                sk_stream_id = cr_target_stream_id h\<rparr> (cr_block_id h) (cr_window_len h) (symbol_no f) f"
    if f: "f \<in> set out"
  proof -
    obtain idx where "(idx, f) \<in> set ws"
      using f by (auto simp: out ws_def [symmetric] dest!: in_set_takeD)
    from ws [OF this] show ?thesis
      using carries_symbol_no by (auto simp: key k)
  qed
qed

section \<open>Runs of the store\<close>

datatype store_event = Heard bytes | Asked cache_request_view u64 | Assigned u16 | StatsReset

fun store_step :: "store_event \<Rightarrow> CacheStore \<Rightarrow> CacheStore" where
  "store_step (Heard f) c = (case wrapped f of None \<Rightarrow> c | Some v \<Rightarrow> note_data v f c)"
| "store_step (Asked req now_ms) c = fst (snd (answer c req now_ms))"
| "store_step (Assigned orig) c = assign_target orig c"
| "store_step StatsReset c = cache_reset_stats c"

lemma cache_ok_new: "cache_ok (new_cache_store cfg)"
  by (simp add: cache_ok_def new_cache_store_def)

lemma cache_ok_step: "cache_ok c \<Longrightarrow> cache_ok (store_step ev c)"
proof (cases ev)
  case (Heard f)
  then show "cache_ok c \<Longrightarrow> ?thesis"
    using cache_ok_note_data by (auto split: option.split)
next
  case (Asked req now_ms)
  then show "cache_ok c \<Longrightarrow> ?thesis"
    using cache_ok_answer by (cases "answer c req now_ms") auto
next
  case (Assigned orig)
  then show "cache_ok c \<Longrightarrow> ?thesis"
    by (auto simp: assign_target_def cache_ok_def)
qed (simp add: cache_reset_stats_def)

lemma cache_ok_run: "cache_ok c \<Longrightarrow> cache_ok (fold store_step evs c)"
  by (induction evs arbitrary: c) (simp_all add: cache_ok_step)

text \<open>C26: Whatever a cache hears, is asked and is assigned, its store is well-formed: at most the
  configured number of blocks per tracked stream, each filed frame a packet that carries exactly
  the symbol, block and sender it is filed under, source counts exact, and per-requester state
  within the deduplication window and the rate cap.\<close>

theorem cache_store_well_formed: "cache_ok (fold store_step evs (new_cache_store cfg))"
  by (rule cache_ok_run) (rule cache_ok_new)

end
