(* ===== verification/Cache_Controller.thy ===== *)
theory Cache_Controller
  imports Cache_Store Frame_Reassembler
begin

text \<open>
  core/include/wblink/cache_controller.h and core/src/cache_controller.cpp: the receiver's side of
  cooperative repair. Blocks that stay incomplete are closed, a bounded number of requests goes to
  the caches that advertise the stream, and each reply is checked against the request it answers.
\<close>

section \<open>State\<close>

record CacheControllerConfig =
  cc_self_originator :: u16
  cc_self_session :: u32
  cc_caches :: "u16 list"
  cc_tail_grace_ms :: u32
  cc_local_quiet_ms :: u32
  cc_min_collect_ms :: u32
  cc_hard_close_ms :: u32
  cc_request_timeout_ms :: u32
  cc_repair_fraction_permille :: u16
  cc_absolute_symbol_limit :: u8
  cc_max_cache_attempts :: u8
  cc_reply_limit :: u8
  cc_health_floor_permille :: u16
  cc_status_timeout_ms :: u32

record CacheTimingStats =
  tm_samples :: u64
  tm_p95_us :: u32
  tm_max_us :: u32

record CacheRepairStats =
  cp_requests :: u64
  cp_replies :: u64
  cp_symbols_accepted :: u64
  cp_symbols_rejected :: u64
  cp_blocks_closed_deficit :: u64
  cp_blocks_repaired :: u64
  cp_blocks_futile :: u64
  cp_requests_suppressed :: u64
  cp_caches_fresh :: u32
  cp_request_to_first_reply :: CacheTimingStats
  cp_request_to_completion :: CacheTimingStats

record CacheRequestOut =
  ro_cache_originator :: u16
  ro_request_id :: u32
  ro_block_id :: u32
  ro_frame :: bytes

record Registry =
  rg_status :: cache_status
  rg_last_seen_ms :: u64

record Outstanding =
  os_cache_originator :: u16
  os_block_id :: u32
  os_issued_ms :: u64
  os_sent_us :: "u64 option"
  os_first_reply_seen :: bool
  os_allowance :: u8
  os_accepted :: u8
  os_k :: u16
  os_missing_sources :: bytes
  os_have_repairs :: bytes

record BlockState =
  bk_closed :: bool
  bk_futile :: bool
  bk_suppressed :: bool
  bk_attempts :: u8
  bk_budget_used :: u8
  bk_last_request_ms :: u64
  bk_first_request_us :: "u64 option"
  bk_tried :: "u16 list"

record TimingSeries =
  ts_samples :: u64
  ts_max_us :: u32
  ts_recent :: "u32 list"

record CacheController =
  ctl_cfg :: CacheControllerConfig
  ctl_stats :: CacheRepairStats
  ctl_registry :: "(u16, Registry list) omap"
  ctl_blocks :: "(u32, BlockState) omap"
  ctl_outstanding :: "(u32, Outstanding) omap"
  ctl_first_reply_timing :: TimingSeries
  ctl_completion_timing :: TimingSeries
  ctl_next_request_id :: u32

datatype ReplyVerdict = rv_kAccept | rv_kUnknownRequest | rv_kWrongCache | rv_kWrongBlock | rv_kNotRequested
  | rv_kOverAllowance | rv_kMalformed

definition zero_timing :: CacheTimingStats where
  "zero_timing = \<lparr>tm_samples = 0, tm_p95_us = 0, tm_max_us = 0\<rparr>"

definition zero_repair_stats :: CacheRepairStats where
  "zero_repair_stats = \<lparr>cp_requests = 0, cp_replies = 0, cp_symbols_accepted = 0, cp_symbols_rejected = 0,
     cp_blocks_closed_deficit = 0, cp_blocks_repaired = 0, cp_blocks_futile = 0, cp_requests_suppressed = 0,
     cp_caches_fresh = 0, cp_request_to_first_reply = zero_timing, cp_request_to_completion = zero_timing\<rparr>"

definition empty_series :: TimingSeries where
  "empty_series = \<lparr>ts_samples = 0, ts_max_us = 0, ts_recent = []\<rparr>"

definition empty_block_state :: BlockState where
  "empty_block_state = \<lparr>bk_closed = False, bk_futile = False, bk_suppressed = False, bk_attempts = 0,
     bk_budget_used = 0, bk_last_request_ms = 0, bk_first_request_us = None, bk_tried = []\<rparr>"

definition new_cache_controller :: "CacheControllerConfig \<Rightarrow> CacheController" where
  "new_cache_controller cfg = \<lparr>ctl_cfg = cfg, ctl_stats = zero_repair_stats, ctl_registry = [], ctl_blocks = [],
     ctl_outstanding = [], ctl_first_reply_timing = empty_series, ctl_completion_timing = empty_series,
     ctl_next_request_id = 1\<rparr>"

abbreviation upd_ctl_stats :: "(CacheRepairStats \<Rightarrow> CacheRepairStats) \<Rightarrow> CacheController \<Rightarrow> CacheController" where
  "upd_ctl_stats g c \<equiv> c\<lparr>ctl_stats := g (ctl_stats c)\<rparr>"

definition kOutstandingPruneMs :: u64 where
  "kOutstandingPruneMs = 1000"

definition kTimingWindow :: nat where
  "kTimingWindow = 512"

text \<open>\<open>bit_set\<close> of this file: the bitmap is a 32-byte array.\<close>

definition bm32_bit_set :: "bytes \<Rightarrow> nat \<Rightarrow> bool" where
  "bm32_bit_set bm i \<longleftrightarrow> i < 256 \<and> bit (bm ! (i div 8)) (i mod 8)"

section \<open>Timing\<close>

definition ts_observe :: "u64 \<Rightarrow> TimingSeries \<Rightarrow> TimingSeries" where
  "ts_observe delta_us t =
     (let sample = (ucast (min delta_us 0xFFFFFFFF) :: u32);
          recent = ts_recent t @ [sample]
      in t\<lparr>ts_samples := ts_samples t + 1, ts_max_us := max (ts_max_us t) sample,
           ts_recent := if kTimingWindow < length recent then tl recent else recent\<rparr>)"

definition ts_snapshot :: "TimingSeries \<Rightarrow> CacheTimingStats" where
  "ts_snapshot t =
     (let rank = (length (ts_recent t) * 95 + 99) div 100
      in \<lparr>tm_samples = ts_samples t,
          tm_p95_us = (if ts_recent t = [] then 0 else sort (ts_recent t) ! (rank - 1)),
          tm_max_us = ts_max_us t\<rparr>)"

section \<open>Cache status\<close>

definition same_target :: "cache_status \<Rightarrow> Registry \<Rightarrow> bool" where
  "same_target st r \<longleftrightarrow> cs_target_originator (rg_status r) = cs_target_originator st
     \<and> cs_target_stream_id (rg_status r) = cs_target_stream_id st"

fun put_registry :: "cache_status \<Rightarrow> u64 \<Rightarrow> Registry list \<Rightarrow> Registry list" where
  "put_registry st now_ms [] = [\<lparr>rg_status = st, rg_last_seen_ms = now_ms\<rparr>]"
| "put_registry st now_ms (r # rs) =
     (if same_target st r then \<lparr>rg_status = st, rg_last_seen_ms = now_ms\<rparr> # rs
      else r # put_registry st now_ms rs)"

definition registry_of :: "CacheController \<Rightarrow> u16 \<Rightarrow> Registry list" where
  "registry_of c orig = (case map_of (ctl_registry c) orig of None \<Rightarrow> [] | Some rs \<Rightarrow> rs)"

definition on_status :: "cache_status \<Rightarrow> u64 \<Rightarrow> CacheController \<Rightarrow> CacheController" where
  "on_status st now_ms c =
     (let orig = originator (cs_prefix st)
      in if orig \<notin> set (cc_caches (ctl_cfg c)) then c
         else c\<lparr>ctl_registry := om_update orig (put_registry st now_ms (registry_of c orig)) (ctl_registry c)\<rparr>)"

definition fresh_status :: "CacheController \<Rightarrow> u64 \<Rightarrow> Registry \<Rightarrow> bool" where
  "fresh_status c now_ms r \<longleftrightarrow> now_ms - rg_last_seen_ms r \<le> ucast (cc_status_timeout_ms (ctl_cfg c))"

definition has_fresh_target :: "CacheController \<Rightarrow> u16 \<Rightarrow> u16 \<Rightarrow> u64 \<Rightarrow> bool" where
  "has_fresh_target c cache target now_ms \<longleftrightarrow>
     list_ex (\<lambda>r. cs_target_originator (rg_status r) = target \<and> fresh_status c now_ms r) (registry_of c cache)"

definition status_for :: "StreamKey \<Rightarrow> cache_status \<Rightarrow> bool" where
  "status_for target s \<longleftrightarrow> cs_target_originator s = sk_originator target \<and> cs_target_session s = sk_session_id target
     \<and> cs_target_stream_id s = sk_stream_id target"

definition eligible :: "CacheController \<Rightarrow> Registry \<Rightarrow> StreamKey \<Rightarrow> u32 \<Rightarrow> u64 \<Rightarrow> bool" where
  "eligible c r target bid now_ms \<longleftrightarrow> fresh_status c now_ms r \<and> status_for target (rg_status r)
     \<and> \<not> cs_rx_health_permille (rg_status r) < cc_health_floor_permille (ctl_cfg c)
     \<and> 0 \<le> bid_diff bid (cs_oldest_block (rg_status r))"

definition close_due :: "CacheControllerConfig \<Rightarrow> RepairCandidate \<Rightarrow> u64 \<Rightarrow> bool" where
  "close_due cfg c now_ms \<longleftrightarrow>
     (rp_have_eob c \<and> rp_eob_ms c + ucast (cc_tail_grace_ms cfg) \<le> now_ms)
     \<or> max (rp_first_ms c + ucast (cc_min_collect_ms cfg)) (rp_last_new_ms c + ucast (cc_local_quiet_ms cfg)) \<le> now_ms
     \<or> rp_first_ms c + ucast (cc_hard_close_ms cfg) \<le> now_ms"

section \<open>Requests\<close>

text \<open>The symbols a block may ask for in all.\<close>

definition repair_cap :: "CacheControllerConfig \<Rightarrow> u16 \<Rightarrow> u16" where
  "repair_cap cfg k =
     min (ucast ((ucast k * ucast (cc_repair_fraction_permille cfg) + 999 :: u32) div 1000)) (ucast (cc_absolute_symbol_limit cfg))"

definition better :: "Registry \<Rightarrow> (u16 \<times> Registry) option \<Rightarrow> bool" where
  "better r best = (case best of None \<Rightarrow> True
     | Some (_, b) \<Rightarrow> cs_rx_health_permille (rg_status b) < cs_rx_health_permille (rg_status r)
         \<or> (cs_rx_health_permille (rg_status r) = cs_rx_health_permille (rg_status b)
            \<and> rg_last_seen_ms b < rg_last_seen_ms r))"

definition best_cache :: "CacheController \<Rightarrow> u16 list \<Rightarrow> StreamKey \<Rightarrow> u32 \<Rightarrow> u64 \<Rightarrow> (u16 \<times> Registry) option" where
  "best_cache c tried target bid now_ms =
     fold (\<lambda>orig best. if orig \<in> set tried then best
        else case find (\<lambda>r. eligible c r target bid now_ms) (registry_of c orig) of
               None \<Rightarrow> best
             | Some r \<Rightarrow> if better r best then Some (orig, r) else best)
       (cc_caches (ctl_cfg c)) None"

text \<open>The length of a bitmap up to its last non-zero byte.\<close>

fun trimmed :: "bytes \<Rightarrow> nat \<Rightarrow> nat" where
  "trimmed bm 0 = 0"
| "trimmed bm (Suc n) = (if bm ! n = 0 then trimmed bm n else Suc n)"

definition request_header :: "CacheController \<Rightarrow> StreamKey \<Rightarrow> RepairCandidate \<Rightarrow> u16 \<Rightarrow> u8 \<Rightarrow> cache_request_header" where
  "request_header c target cand orig allowance =
     \<lparr>cr_prefix = \<lparr>originator = cc_self_originator (ctl_cfg c), destination = orig, session_id = cc_self_session (ctl_cfg c)\<rparr>,
      cr_target_originator = sk_originator target, cr_target_session = sk_session_id target,
      cr_target_stream_id = sk_stream_id target, cr_target_cache = orig,
      cr_request_id = ctl_next_request_id c, cr_block_id = rp_block_id cand,
      cr_window_len = rp_k cand, cr_max_symbols = allowance\<rparr>"

text \<open>The whole of the loop body from the choice of the cache on. \<open>st\<close> is the block's state.\<close>

definition issue_request :: "u64 \<Rightarrow> StreamKey \<Rightarrow> RepairCandidate \<Rightarrow> u16 \<Rightarrow> u16 \<Rightarrow> BlockState \<Rightarrow> CacheController
    \<Rightarrow> CacheController \<times> CacheRequestOut list" where
  "issue_request now_ms target cand deficit remaining st c =
     (let bid = rp_block_id cand;
          put = (\<lambda>st c. c\<lparr>ctl_blocks := om_update bid st (ctl_blocks c)\<rparr>)
      in case best_cache c (bk_tried st) target bid now_ms of
           None \<Rightarrow>
             if bk_suppressed st then (put st c, [])
             else (upd_ctl_stats (\<lambda>x. x\<lparr>cp_requests_suppressed := cp_requests_suppressed x + 1\<rparr>)
                     (put (st\<lparr>bk_suppressed := True\<rparr>) c), [])
         | Some (orig, _) \<Rightarrow>
             let st1 = st\<lparr>bk_suppressed := False\<rparr>;
                 allowance = (ucast (min (ucast (cc_reply_limit (ctl_cfg c))) (min deficit remaining)) :: u8);
                 hdr = request_header c target cand orig allowance;
                 c1 = c\<lparr>ctl_next_request_id := ctl_next_request_id c + 1\<rparr>;
                 rh_len = trimmed (rp_have_repairs cand) 32
             in case encode_cache_request hdr (Some (rp_missing_sources cand))
                       (if 0 < rh_len then Some (rp_have_repairs cand) else None) (of_nat rh_len)
                       (Some (kCacheRequestFixedSize + 32 + 32)) of
                  None \<Rightarrow> (put st1 c1, [])
                | Some frame \<Rightarrow>
                    let oreq = \<lparr>os_cache_originator = orig, os_block_id = bid, os_issued_ms = now_ms, os_sent_us = None,
                                os_first_reply_seen = False, os_allowance = allowance, os_accepted = 0, os_k = rp_k cand,
                                os_missing_sources = rp_missing_sources cand, os_have_repairs = rp_have_repairs cand\<rparr>;
                        st2 = st1\<lparr>bk_attempts := bk_attempts st1 + 1, bk_budget_used := bk_budget_used st1 + allowance,
                                  bk_last_request_ms := now_ms, bk_tried := bk_tried st1 @ [orig]\<rparr>
                    in (upd_ctl_stats (\<lambda>x. x\<lparr>cp_requests := cp_requests x + 1\<rparr>)
                          (put st2 (c1\<lparr>ctl_outstanding := om_emplace (cr_request_id hdr) oreq (ctl_outstanding c1)\<rparr>)),
                        [\<lparr>ro_cache_originator = orig, ro_request_id = cr_request_id hdr, ro_block_id = bid, ro_frame = frame\<rparr>]))"

definition tick_candidate :: "u64 \<Rightarrow> StreamKey \<Rightarrow> RepairCandidate \<Rightarrow> CacheController \<Rightarrow> CacheController \<times> CacheRequestOut list" where
  "tick_candidate now_ms target cand c0 =
     (if rp_k cand = 0 \<or> rp_k cand \<le> rp_unique cand then (c0, [])
      else let bid = rp_block_id cand;
               st0 = (case map_of (ctl_blocks c0) bid of None \<Rightarrow> empty_block_state | Some st \<Rightarrow> st);
               put = (\<lambda>st c. c\<lparr>ctl_blocks := om_update bid st (ctl_blocks c)\<rparr>);
               cfg = ctl_cfg c0
      in if bk_futile st0 then (put st0 c0, [])
      else if \<not> bk_closed st0 \<and> \<not> close_due cfg cand now_ms then (put st0 c0, [])
      else let c = (if bk_closed st0 then c0
                    else upd_ctl_stats (\<lambda>x. x\<lparr>cp_blocks_closed_deficit := cp_blocks_closed_deficit x + 1\<rparr>) c0);
               st = st0\<lparr>bk_closed := True\<rparr>;
               deficit = rp_k cand - rp_unique cand;
               cap = repair_cap cfg (rp_k cand)
      in if bk_attempts st = 0 \<and> cap < deficit
         then (upd_ctl_stats (\<lambda>x. x\<lparr>cp_blocks_futile := cp_blocks_futile x + 1\<rparr>) (put (st\<lparr>bk_futile := True\<rparr>) c), [])
      else if cc_max_cache_attempts cfg \<le> bk_attempts st then (put st c, [])
      else if 0 < bk_attempts st \<and> now_ms - bk_last_request_ms st < ucast (cc_request_timeout_ms cfg) then (put st c, [])
      else let remaining = (if ucast (bk_budget_used st) < cap then cap - ucast (bk_budget_used st) else 0)
      in if remaining = 0 then (put st c, [])
      else issue_request now_ms target cand deficit remaining st c)"

definition prune :: "u64 \<Rightarrow> RepairCandidate list \<Rightarrow> CacheController \<Rightarrow> CacheController" where
  "prune now_ms cands c =
     c\<lparr>ctl_blocks := filter (\<lambda>b. fst b \<in> rp_block_id ` set cands) (ctl_blocks c),
       ctl_outstanding := filter (\<lambda>q. \<not> kOutstandingPruneMs < now_ms - os_issued_ms (snd q)) (ctl_outstanding c)\<rparr>"

definition count_fresh :: "CacheController \<Rightarrow> StreamKey \<Rightarrow> u64 \<Rightarrow> u32" where
  "count_fresh c target now_ms =
     of_nat (length (filter (\<lambda>orig. list_ex (\<lambda>r. status_for target (rg_status r) \<and> fresh_status c now_ms r) (registry_of c orig))
       (cc_caches (ctl_cfg c))))"

fun tick_all :: "u64 \<Rightarrow> StreamKey \<Rightarrow> RepairCandidate list \<Rightarrow> CacheController \<Rightarrow> CacheController \<times> CacheRequestOut list" where
  "tick_all now_ms target [] c = (c, [])"
| "tick_all now_ms target (cand # cands) c =
     (let (c1, out1) = tick_candidate now_ms target cand c;
          (c2, out2) = tick_all now_ms target cands c1
      in (c2, out1 @ out2))"

definition ctl_tick :: "u64 \<Rightarrow> StreamKey \<Rightarrow> RepairCandidate list \<Rightarrow> CacheController \<Rightarrow> CacheController \<times> CacheRequestOut list" where
  "ctl_tick now_ms target cands c =
     (let c1 = prune now_ms cands c
      in tick_all now_ms target cands (upd_ctl_stats (\<lambda>x. x\<lparr>cp_caches_fresh := count_fresh c1 target now_ms\<rparr>) c1))"

definition note_request_sent :: "u32 \<Rightarrow> u64 \<Rightarrow> CacheController \<Rightarrow> CacheController" where
  "note_request_sent rid now_us c =
     (case map_of (ctl_outstanding c) rid of
        None \<Rightarrow> c
      | Some oreq \<Rightarrow>
          let c1 = (if os_sent_us oreq = None
                    then c\<lparr>ctl_outstanding := om_update rid (oreq\<lparr>os_sent_us := Some now_us\<rparr>) (ctl_outstanding c)\<rparr> else c)
          in case map_of (ctl_blocks c1) (os_block_id oreq) of
               None \<Rightarrow> c1
             | Some b \<Rightarrow>
                 if bk_first_request_us b = None
                 then c1\<lparr>ctl_blocks := om_update (os_block_id oreq) (b\<lparr>bk_first_request_us := Some now_us\<rparr>) (ctl_blocks c1)\<rparr>
                 else c1)"

section \<open>Replies\<close>

text \<open>The checks on the wrapped symbol: malformed, not asked for, or good.\<close>

definition check_symbol :: "Outstanding \<Rightarrow> data_view \<Rightarrow> ReplyVerdict" where
  "check_symbol oreq v =
     (let p = ptr_of (dv_payload v); len = length (dv_payload v) in
      if has_flag (data_flags (dv_hdr v)) kFecRepair
      then if len \<le> kFecRepairSubheaderSize \<or> be16_read (padd p 1) \<noteq> os_k oreq then rv_kMalformed
           else if bm32_bit_set (os_have_repairs oreq) (unat (p 0)) then rv_kNotRequested else rv_kAccept
      else if len < kFecSourceSubheaderSize \<or> be16_read (padd p 0) \<noteq> os_k oreq then rv_kMalformed
           else let idx = be16_read (padd p 2)
                in if os_k oreq \<le> idx \<or> \<not> bm32_bit_set (os_missing_sources oreq) (unat idx) then rv_kNotRequested
                   else rv_kAccept)"

definition on_reply :: "u16 \<Rightarrow> u32 \<Rightarrow> data_view \<Rightarrow> u64 \<Rightarrow> CacheController \<Rightarrow> ReplyVerdict \<times> CacheController" where
  "on_reply from rid v now_us c0 =
     (let c = upd_ctl_stats (\<lambda>x. x\<lparr>cp_replies := cp_replies x + 1\<rparr>) c0;
          reject = (\<lambda>verdict. (verdict, upd_ctl_stats (\<lambda>x. x\<lparr>cp_symbols_rejected := cp_symbols_rejected x + 1\<rparr>) c))
      in case map_of (ctl_outstanding c) rid of
           None \<Rightarrow> reject rv_kUnknownRequest
         | Some oreq \<Rightarrow>
             if from \<noteq> os_cache_originator oreq then reject rv_kWrongCache
             else if block_id (dv_hdr v) \<noteq> os_block_id oreq then reject rv_kWrongBlock
             else if check_symbol oreq v \<noteq> rv_kAccept then reject (check_symbol oreq v)
             else if os_allowance oreq \<le> os_accepted oreq then reject rv_kOverAllowance
             else let c1 = upd_ctl_stats (\<lambda>x. x\<lparr>cp_symbols_accepted := cp_symbols_accepted x + 1\<rparr>)
                        (c\<lparr>ctl_outstanding := om_update rid (oreq\<lparr>os_accepted := os_accepted oreq + 1, os_first_reply_seen := True\<rparr>)
                             (ctl_outstanding c)\<rparr>)
                  in (rv_kAccept,
                      (case (os_first_reply_seen oreq, os_sent_us oreq) of
                         (False, Some sent) \<Rightarrow>
                           if sent \<le> now_us
                           then c1\<lparr>ctl_first_reply_timing := ts_observe (now_us - sent) (ctl_first_reply_timing c1)\<rparr> else c1
                       | _ \<Rightarrow> c1)))"

definition note_completed :: "u32 \<Rightarrow> u64 \<Rightarrow> CacheController \<Rightarrow> CacheController" where
  "note_completed bid now_us c0 =
     (let c = upd_ctl_stats (\<lambda>x. x\<lparr>cp_blocks_repaired := cp_blocks_repaired x + 1\<rparr>) c0;
          c1 = (case Option.bind (map_of (ctl_blocks c) bid) bk_first_request_us of
                  None \<Rightarrow> c
                | Some first \<Rightarrow>
                    if first \<le> now_us
                    then c\<lparr>ctl_completion_timing := ts_observe (now_us - first) (ctl_completion_timing c)\<rparr> else c)
      in c1\<lparr>ctl_blocks := om_erase bid (ctl_blocks c1),
            ctl_outstanding := filter (\<lambda>q. os_block_id (snd q) \<noteq> bid) (ctl_outstanding c1)\<rparr>)"

definition ctl_get_stats :: "CacheController \<Rightarrow> CacheRepairStats" where
  "ctl_get_stats c = (ctl_stats c)\<lparr>cp_request_to_first_reply := ts_snapshot (ctl_first_reply_timing c),
     cp_request_to_completion := ts_snapshot (ctl_completion_timing c)\<rparr>"

definition ctl_reset_stats :: "CacheController \<Rightarrow> CacheController" where
  "ctl_reset_stats c = c\<lparr>ctl_stats := zero_repair_stats, ctl_first_reply_timing := empty_series,
     ctl_completion_timing := empty_series,
     ctl_outstanding := map (\<lambda>(i, q). (i, q\<lparr>os_sent_us := None, os_first_reply_seen := True\<rparr>)) (ctl_outstanding c),
     ctl_blocks := map (\<lambda>(i, b). (i, b\<lparr>bk_first_request_us := None\<rparr>)) (ctl_blocks c)\<rparr>"

definition ctl_reset_link :: "CacheController \<Rightarrow> CacheController" where
  "ctl_reset_link c = upd_ctl_stats (\<lambda>x. x\<lparr>cp_caches_fresh := 0\<rparr>)
     (c\<lparr>ctl_registry := [], ctl_blocks := [], ctl_outstanding := []\<rparr>)"

end
