(* ===== verification/Cache_Controller_Props.thy ===== *)
theory Cache_Controller_Props
  imports Cache_Controller Wire_Props
begin

text \<open>
  Properties of the cache controller: what one pass over a candidate may do, how many requests a
  block can cause, and what a rejected reply changes.
\<close>

section \<open>The request on the wire\<close>

lemma trimmed_le: "trimmed bm n \<le> n"
  by (induction bm n rule: trimmed.induct) auto

lemma trimmed_zero: "trimmed bm n \<le> i \<Longrightarrow> i < n \<Longrightarrow> bm ! i = 0"
proof (induction bm n rule: trimmed.induct)
  case (2 bm n)
  then show ?case
    by (cases "i = n") (auto split: if_splits)
qed simp

lemma request_decodes:
  assumes e: "encode_cache_request hdr (Some missing) (if 0 < n then Some have else None) (of_nat n) out = Some frame"
    and n: "n \<le> 32" and lens: "length missing = 32" "length have = 32"
  shows "decode (Some (ptr_of frame)) (length frame) = Inr (PCacheRequest \<lparr>crv_hdr = hdr,
    crv_missing_sources = take ((unat (cr_window_len hdr) + 7) div 8) missing, crv_repair_have = take n have\<rparr>)"
    and "cr_window_len hdr \<noteq> 0" and "unat (cr_window_len hdr) \<le> kFecMaxSymbols" and "cr_max_symbols hdr \<noteq> 0"
proof -
  let ?len = "(unat (cr_window_len hdr) + 7) div 8"
  show w: "cr_window_len hdr \<noteq> 0" "unat (cr_window_len hdr) \<le> kFecMaxSymbols" "cr_max_symbols hdr \<noteq> 0"
    using e by (auto simp: encode_cache_request_def split: if_splits)
  have n8: "unat (of_nat n :: u8) = n"
    using n by (simp add: unat_of_nat_small)
  have "encode_cache_request hdr (Some (take ?len missing)) (Some (take n have)) (of_nat n) out = Some frame"
    using e lens n8 by (simp add: encode_cache_request_def memcpy_def null_with_len_def Let_def split: if_splits)
  moreover have "roundtrips (encode_cache_request hdr (Some (take ?len missing)) (Some (take n have)) (of_nat n) out)
      (PCacheRequest \<lparr>crv_hdr = hdr, crv_missing_sources = take ?len missing, crv_repair_have = take n have\<rparr>)"
    using w(2) n lens n8 by (intro roundtrip_cache_request) (simp_all add: min_def, linarith)
  ultimately show "decode (Some (ptr_of frame)) (length frame) = Inr (PCacheRequest \<lparr>crv_hdr = hdr,
    crv_missing_sources = take ?len missing, crv_repair_have = take n have\<rparr>)"
    by (simp add: roundtrips_def)
qed

section \<open>One candidate\<close>

definition candidate_arrays :: "RepairCandidate \<Rightarrow> bool" where
  "candidate_arrays cand \<longleftrightarrow> length (rp_missing_sources cand) = 32 \<and> length (rp_have_repairs cand) = 32"

lemma length_set_bit_at [simp]: "length (set_bit_at i bm) = length bm"
  by (simp add: set_bit_at_def)

lemma candidate_arrays_of: "candidate_arrays (candidate_of i b)"
proof -
  have "length (fold (\<lambda>j bm. if om_has (of_nat j) (bl_sources b) then bm else set_bit_at j bm) js bm) = length bm" for js bm
    by (induction js arbitrary: bm) auto
  moreover have "length (fold (\<lambda>kv bm. set_bit_at (unat (fst kv)) bm) kvs bm) = length bm" for kvs :: "(u8 \<times> bytes) list" and bm
    by (induction kvs arbitrary: bm) auto
  ultimately show ?thesis
    by (simp add: candidate_arrays_def candidate_of_def)
qed

definition block_state :: "CacheController \<Rightarrow> u32 \<Rightarrow> BlockState" where
  "block_state c b = (case map_of (ctl_blocks c) b of None \<Rightarrow> empty_block_state | Some st \<Rightarrow> st)"

text \<open>What the requests of a block have used up.\<close>

definition usage :: "BlockState \<Rightarrow> u8 \<times> u8 \<times> u16 list" where
  "usage st = (bk_attempts st, bk_budget_used st, bk_tried st)"

definition allowance_of :: "CacheControllerConfig \<Rightarrow> RepairCandidate \<Rightarrow> u8 \<Rightarrow> u8" where
  "allowance_of cfg cand used =
     ucast (min (ucast (cc_reply_limit cfg)) (min (rp_k cand - rp_unique cand) (repair_cap cfg (rp_k cand) - ucast used)))"

lemma best_cacheD:
  assumes "best_cache c tried target bid now_ms = Some (orig, r)"
  shows "orig \<in> set (cc_caches (ctl_cfg c)) \<and> orig \<notin> set tried \<and> eligible c r target bid now_ms"
proof -
  define P where "P best = (case best of None \<Rightarrow> True
    | Some (orig, r) \<Rightarrow> orig \<in> set (cc_caches (ctl_cfg c)) \<and> orig \<notin> set tried \<and> eligible c r target bid now_ms)" for best
  have "P (best_cache c tried target bid now_ms)"
    unfolding best_cache_def
  proof (rule fold_invariant [where Q = "\<lambda>orig. orig \<in> set (cc_caches (ctl_cfg c))" and P = P])
    show "P None"
      by (simp add: P_def)
    show "P (if orig \<in> set tried then best
        else case find (\<lambda>r. eligible c r target bid now_ms) (registry_of c orig) of
               None \<Rightarrow> best | Some r \<Rightarrow> if better r best then Some (orig, r) else best)"
      if "orig \<in> set (cc_caches (ctl_cfg c))" "P best" for orig best
    proof (cases "find (\<lambda>r. eligible c r target bid now_ms) (registry_of c orig)")
      case (Some r)
      then have "eligible c r target bid now_ms"
        by (auto simp: find_Some_iff)
      then show ?thesis
        using that Some by (simp add: P_def)
    qed (use that in simp)
  qed simp
  then show ?thesis
    using assms by (simp add: P_def)
qed

text \<open>The one way a request leaves, and what it leaves behind.\<close>

definition asks :: "u64 \<Rightarrow> StreamKey \<Rightarrow> RepairCandidate \<Rightarrow> CacheController \<Rightarrow> CacheController \<Rightarrow> CacheRequestOut \<Rightarrow> bool" where
  "asks now_ms target cand c c' r \<longleftrightarrow>
     (let st = block_state c (rp_block_id cand); cfg = ctl_cfg c; orig = ro_cache_originator r;
          a = allowance_of cfg cand (bk_budget_used st);
          hdr = request_header c target cand orig a; n = trimmed (rp_have_repairs cand) 32
      in orig \<in> set (cc_caches cfg) \<and> orig \<notin> set (bk_tried st) \<and> bk_attempts st < cc_max_cache_attempts cfg
       \<and> ucast (bk_budget_used st) < repair_cap cfg (rp_k cand) \<and> rp_unique cand < rp_k cand
       \<and> ro_block_id r = rp_block_id cand \<and> ro_request_id r = ctl_next_request_id c
       \<and> encode_cache_request hdr (Some (rp_missing_sources cand)) (if 0 < n then Some (rp_have_repairs cand) else None)
           (of_nat n) (Some (kCacheRequestFixedSize + 32 + 32)) = Some (ro_frame r)
       \<and> usage (block_state c' (rp_block_id cand)) = (bk_attempts st + 1, bk_budget_used st + a, bk_tried st @ [orig])
       \<and> ctl_outstanding c' = om_emplace (ro_request_id r) \<lparr>os_cache_originator = orig, os_block_id = rp_block_id cand,
           os_issued_ms = now_ms, os_sent_us = None, os_first_reply_seen = False, os_allowance = a, os_accepted = 0,
           os_k = rp_k cand, os_missing_sources = rp_missing_sources cand, os_have_repairs = rp_have_repairs cand\<rparr>
           (ctl_outstanding c))"

lemma block_state_put:
  "om_ok (ctl_blocks c) \<Longrightarrow> block_state (c\<lparr>ctl_blocks := om_update b st (ctl_blocks c)\<rparr>) b' = (if b' = b then st else block_state c b')"
  by (simp add: block_state_def map_of_update)

lemma issue_request_cases:
  assumes i: "issue_request now_ms target cand (rp_k cand - rp_unique cand)
      (repair_cap (ctl_cfg c) (rp_k cand) - ucast (bk_budget_used st)) st c = (c', out)"
    and ok: "om_ok (ctl_blocks c)" and u: "usage st = usage (block_state c (rp_block_id cand))"
    and pre: "bk_attempts st < cc_max_cache_attempts (ctl_cfg c)" "ucast (bk_budget_used st) < repair_cap (ctl_cfg c) (rp_k cand)"
      "rp_unique cand < rp_k cand"
  shows "ctl_cfg c' = ctl_cfg c" and "om_ok (ctl_blocks c')"
    and "b \<noteq> rp_block_id cand \<Longrightarrow> block_state c' b = block_state c b"
    and "out = [] \<Longrightarrow> usage (block_state c' (rp_block_id cand)) = usage st \<and> ctl_outstanding c' = ctl_outstanding c"
    and "out \<noteq> [] \<Longrightarrow> \<exists>r. out = [r] \<and> asks now_ms target cand c c' r"
proof -
  have us: "bk_attempts st = bk_attempts (block_state c (rp_block_id cand))"
      "bk_budget_used st = bk_budget_used (block_state c (rp_block_id cand))" "bk_tried st = bk_tried (block_state c (rp_block_id cand))"
    using u by (simp_all add: usage_def)
  show "ctl_cfg c' = ctl_cfg c" "om_ok (ctl_blocks c')"
    using i ok by (auto simp: issue_request_def Let_def split: option.splits if_splits)
  show "block_state c' b = block_state c b" if "b \<noteq> rp_block_id cand"
    using i ok that by (auto simp: issue_request_def Let_def block_state_def map_of_update split: option.splits if_splits)
  show "usage (block_state c' (rp_block_id cand)) = usage st \<and> ctl_outstanding c' = ctl_outstanding c" if "out = []"
    using i ok that
    by (auto simp: issue_request_def Let_def block_state_def map_of_update usage_def split: option.splits if_splits)
  show "\<exists>r. out = [r] \<and> asks now_ms target cand c c' r" if ne: "out \<noteq> []"
  proof -
    obtain orig reg where best: "best_cache c (bk_tried st) target (rp_block_id cand) now_ms = Some (orig, reg)"
      using i ne by (auto simp: issue_request_def Let_def split: option.splits if_splits)
    show ?thesis
      using i ne ok pre best_cacheD [OF best]
      unfolding asks_def allowance_of_def us [symmetric] Let_def issue_request_def best
      by (auto simp: block_state_def map_of_update usage_def request_header_def split: option.splits)
  qed
qed

text \<open>The two outcomes of a pass over one candidate: no request, and the block has used up no more
  than before; or one request.\<close>

definition pass_outcome :: "u64 \<Rightarrow> StreamKey \<Rightarrow> RepairCandidate \<Rightarrow> CacheController \<Rightarrow> CacheController \<times> CacheRequestOut list \<Rightarrow> bool" where
  "pass_outcome now_ms target cand c = (\<lambda>(c', out). ctl_cfg c' = ctl_cfg c \<and> om_ok (ctl_blocks c')
     \<and> (\<forall>b. b \<noteq> rp_block_id cand \<longrightarrow> block_state c' b = block_state c b)
     \<and> (out = [] \<longrightarrow> usage (block_state c' (rp_block_id cand)) = usage (block_state c (rp_block_id cand))
          \<and> ctl_outstanding c' = ctl_outstanding c)
     \<and> (out \<noteq> [] \<longrightarrow> (\<exists>r. out = [r] \<and> asks now_ms target cand c c' r)))"

lemma pass_outcome_quiet:
  assumes "om_ok (ctl_blocks c)" and "usage st = usage (block_state c (rp_block_id cand))"
  shows "pass_outcome now_ms target cand c (c\<lparr>ctl_stats := x, ctl_blocks := om_update (rp_block_id cand) st (ctl_blocks c)\<rparr>, [])"
  using assms by (simp add: pass_outcome_def block_state_def map_of_update)

lemma asks_stats: "asks now_ms target cand (c\<lparr>ctl_stats := x\<rparr>) c' r = asks now_ms target cand c c' r"
  by (simp add: asks_def block_state_def request_header_def Let_def)

lemma tick_candidate_outcome:
  assumes "om_ok (ctl_blocks c)"
  shows "pass_outcome now_ms target cand c (tick_candidate now_ms target cand c)"
proof -
  define st0 where "st0 = block_state c (rp_block_id cand)"
  define st where "st = st0\<lparr>bk_closed := True\<rparr>"
  define cfg where "cfg = ctl_cfg c"
  define cap where "cap = repair_cap cfg (rp_k cand)"
  define stats where "stats = (if bk_closed st0 then ctl_stats c
    else (ctl_stats c)\<lparr>cp_blocks_closed_deficit := cp_blocks_closed_deficit (ctl_stats c) + 1\<rparr>)"
  define deficit where "deficit = rp_k cand - rp_unique cand"
  define put where "put st x = c\<lparr>ctl_stats := x, ctl_blocks := om_update (rp_block_id cand) st (ctl_blocks c)\<rparr>" for st x
  have eq: "tick_candidate now_ms target cand c =
    (if rp_k cand = 0 \<or> rp_k cand \<le> rp_unique cand then (c, [])
     else if bk_futile st0 then (put st0 (ctl_stats c), [])
     else if \<not> bk_closed st0 \<and> \<not> close_due cfg cand now_ms then (put st0 (ctl_stats c), [])
     else if bk_attempts st = 0 \<and> cap < deficit
       then (put (st\<lparr>bk_futile := True\<rparr>) (stats\<lparr>cp_blocks_futile := cp_blocks_futile stats + 1\<rparr>), [])
     else if cc_max_cache_attempts cfg \<le> bk_attempts st then (put st stats, [])
     else if 0 < bk_attempts st \<and> now_ms - bk_last_request_ms st < ucast (cc_request_timeout_ms cfg) then (put st stats, [])
     else if \<not> ucast (bk_budget_used st) < cap then (put st stats, [])
     else issue_request now_ms target cand deficit (cap - ucast (bk_budget_used st)) st (c\<lparr>ctl_stats := stats\<rparr>))"
    unfolding tick_candidate_def Let_def put_def stats_def st_def st0_def block_state_def cfg_def cap_def deficit_def
    by (simp split: if_split)
  have quiet: "pass_outcome now_ms target cand c (put s x, [])" if "usage s = usage st0" for s x
    unfolding put_def by (rule pass_outcome_quiet [OF assms]) (simp add: that st0_def)
  have same: "pass_outcome now_ms target cand c (c, [])"
    by (simp add: pass_outcome_def assms)
  have u': "usage (st\<lparr>bk_futile := True\<rparr>) = usage st0"
    by (simp add: usage_def st_def)
  have u: "usage st = usage st0"
    by (simp add: usage_def st_def)
  have issue: "pass_outcome now_ms target cand c
      (issue_request now_ms target cand deficit (cap - ucast (bk_budget_used st)) st (c\<lparr>ctl_stats := stats\<rparr>))"
    if pre: "\<not> (rp_k cand = 0 \<or> rp_k cand \<le> rp_unique cand)" "\<not> cc_max_cache_attempts cfg \<le> bk_attempts st"
      "ucast (bk_budget_used st) < cap"
  proof (cases "issue_request now_ms target cand deficit (cap - ucast (bk_budget_used st)) st (c\<lparr>ctl_stats := stats\<rparr>)")
    case (Pair c' out)
    have "usage st = usage (block_state (c\<lparr>ctl_stats := stats\<rparr>) (rp_block_id cand))"
      using u by (simp add: st0_def block_state_def)
    note facts = issue_request_cases [of now_ms target cand "c\<lparr>ctl_stats := stats\<rparr>" st c' out, OF _ _ this]
    show ?thesis
      unfolding Pair pass_outcome_def
      using facts Pair pre assms u
      by (simp add: deficit_def cap_def cfg_def not_le asks_stats block_state_def st0_def)
  qed
  show ?thesis
    unfolding eq using same quiet [OF refl] quiet [OF u] quiet [OF u'] issue by presburger
qed

section \<open>What a block may ask for\<close>

definition request_of :: "CacheRequestOut \<Rightarrow> cache_request_view option" where
  "request_of r = (case decode (Some (ptr_of (ro_frame r))) (length (ro_frame r)) of
     Inr (PCacheRequest v) \<Rightarrow> Some v | _ \<Rightarrow> None)"

definition symbols_asked :: "CacheRequestOut \<Rightarrow> nat" where
  "symbols_asked r = (case request_of r of None \<Rightarrow> 0 | Some v \<Rightarrow> unat (cr_max_symbols (crv_hdr v)))"

lemma request_of_asks:
  assumes "asks now_ms target cand c c' r" and "candidate_arrays cand"
  shows "request_of r = Some \<lparr>crv_hdr = request_header c target cand (ro_cache_originator r)
           (allowance_of (ctl_cfg c) cand (bk_budget_used (block_state c (rp_block_id cand)))),
         crv_missing_sources = take ((unat (rp_k cand) + 7) div 8) (rp_missing_sources cand),
         crv_repair_have = take (trimmed (rp_have_repairs cand) 32) (rp_have_repairs cand)\<rparr>"
    and "unat (rp_k cand) \<le> kFecMaxSymbols"
proof -
  note e = assms(1) [unfolded asks_def Let_def, THEN conjunct2, THEN conjunct2, THEN conjunct2, THEN conjunct2,
      THEN conjunct2, THEN conjunct2, THEN conjunct2, THEN conjunct1]
  have lens: "length (rp_missing_sources cand) = 32" "length (rp_have_repairs cand) = 32"
    using assms(2) by (simp_all add: candidate_arrays_def)
  note d = request_decodes [OF e trimmed_le lens]
  show "unat (rp_k cand) \<le> kFecMaxSymbols"
    using d(3) by (simp add: request_header_def)
  show "request_of r = Some \<lparr>crv_hdr = request_header c target cand (ro_cache_originator r)
           (allowance_of (ctl_cfg c) cand (bk_budget_used (block_state c (rp_block_id cand)))),
         crv_missing_sources = take ((unat (rp_k cand) + 7) div 8) (rp_missing_sources cand),
         crv_repair_have = take (trimmed (rp_have_repairs cand) 32) (rp_have_repairs cand)\<rparr>"
    unfolding request_of_def d(1) by (simp add: request_header_def)
qed

lemma repair_cap_le: "unat (repair_cap cfg k) \<le> unat (cc_absolute_symbol_limit cfg)"
proof -
  have "repair_cap cfg k \<le> (ucast (cc_absolute_symbol_limit cfg) :: u16)"
    by (simp add: repair_cap_def)
  then show ?thesis
    by (simp add: word_le_nat_alt)
qed

lemma unat_allowance:
  assumes "ucast used < repair_cap cfg (rp_k cand)"
  shows "unat (allowance_of cfg cand used) = min (unat (cc_reply_limit cfg))
    (min (unat (rp_k cand - rp_unique cand)) (unat (repair_cap cfg (rp_k cand)) - unat used))"
proof -
  have d: "unat (repair_cap cfg (rp_k cand) - ucast used) = unat (repair_cap cfg (rp_k cand)) - unat used"
    using unat_diff_le [OF order.strict_implies_order, OF assms] by simp
  have m: "unat (min x y) = min (unat x) (unat y)" for x y :: u16
    by (simp add: min_def word_le_nat_alt)
  define z where "z = min (ucast (cc_reply_limit cfg) :: u16)
    (min (rp_k cand - rp_unique cand) (repair_cap cfg (rp_k cand) - ucast used))"
  have z: "unat z = min (unat (cc_reply_limit cfg)) (min (unat (rp_k cand - rp_unique cand)) (unat (repair_cap cfg (rp_k cand)) - unat used))"
    unfolding z_def m d by simp
  then have "unat z < 256"
    using unat_u8_less [of "cc_reply_limit cfg"] by linarith
  then have "unat (ucast z :: u8) = unat z"
    by (simp add: unsigned_ucast_eq take_bit_nat_eq_self)
  then show ?thesis
    unfolding allowance_of_def z_def [symmetric] z .
qed

definition within_budget :: "u32 \<Rightarrow> CacheRequestOut list \<Rightarrow> CacheController \<Rightarrow> bool" where
  "within_budget b log c \<longleftrightarrow>
     (let st = block_state c b; rs = filter (\<lambda>r. ro_block_id r = b) log
      in map ro_cache_originator rs = bk_tried st \<and> distinct (bk_tried st)
       \<and> unat (bk_attempts st) = length rs \<and> bk_attempts st \<le> cc_max_cache_attempts (ctl_cfg c)
       \<and> sum_list (map symbols_asked rs) = unat (bk_budget_used st)
       \<and> unat (bk_budget_used st) \<le> unat (cc_absolute_symbol_limit (ctl_cfg c)))"

lemma within_budget_cong:
  "usage (block_state c' b) = usage (block_state c b) \<Longrightarrow> ctl_cfg c' = ctl_cfg c \<Longrightarrow> \<forall>r \<in> set out. ro_block_id r \<noteq> b
     \<Longrightarrow> within_budget b (log @ out) c' = within_budget b log c"
  by (simp add: within_budget_def Let_def usage_def filter_empty_conv)

lemma within_budget_asks:
  assumes a: "asks now_ms target cand c c' r" and arr: "candidate_arrays cand" and cfg: "ctl_cfg c' = ctl_cfg c"
    and w: "within_budget (rp_block_id cand) log c"
  shows "within_budget (rp_block_id cand) (log @ [r]) c'"
proof -
  let ?b = "rp_block_id cand"
  define st where "st = block_state c ?b"
  define st' where "st' = block_state c' ?b"
  define al where "al = allowance_of (ctl_cfg c) cand (bk_budget_used st)"
  have orig: "ro_cache_originator r \<notin> set (bk_tried st)" and att: "bk_attempts st < cc_max_cache_attempts (ctl_cfg c)"
    and bud: "ucast (bk_budget_used st) < repair_cap (ctl_cfg c) (rp_k cand)" and rb: "ro_block_id r = ?b"
    and u: "usage st' = (bk_attempts st + 1, bk_budget_used st + al, bk_tried st @ [ro_cache_originator r])"
    using a by (simp_all add: asks_def Let_def st_def st'_def al_def)
  have asked: "symbols_asked r = unat al"
    using request_of_asks(1) [OF a arr] by (simp add: symbols_asked_def request_header_def al_def st_def)
  have used: "unat (bk_budget_used st) < unat (repair_cap (ctl_cfg c) (rp_k cand))"
    using bud by (simp add: word_less_nat_alt)
  have sum: "unat (bk_budget_used st) + unat al \<le> unat (cc_absolute_symbol_limit (ctl_cfg c))"
    using unat_allowance [OF bud] used repair_cap_le [of "ctl_cfg c" "rp_k cand"] by (simp add: al_def)
  have bu: "unat (bk_budget_used st + al) = unat (bk_budget_used st) + unat al"
    using sum unat_u8_less [of "cc_absolute_symbol_limit (ctl_cfg c)"] by (simp add: unat_word_ariths)
  have at: "unat (bk_attempts st + 1) = unat (bk_attempts st) + 1"
    using att unat_u8_less [of "cc_max_cache_attempts (ctl_cfg c)"] by (simp add: unat_word_ariths word_less_nat_alt)
  have "bk_attempts st + 1 \<le> cc_max_cache_attempts (ctl_cfg c)"
    using att by (rule inc_le)
  then show ?thesis
    using w u orig sum bu at asked rb
    by (simp add: within_budget_def Let_def usage_def cfg st_def [symmetric] st'_def [symmetric])
qed

lemma within_budget_pass:
  assumes ok: "om_ok (ctl_blocks c)" and arr: "candidate_arrays cand" and w: "within_budget b log c"
    and t: "tick_candidate now_ms target cand c = (c', out)"
  shows "within_budget b (log @ out) c'" and "om_ok (ctl_blocks c')" and "ctl_cfg c' = ctl_cfg c"
proof -
  note p = tick_candidate_outcome [OF ok, of now_ms target cand, unfolded t pass_outcome_def prod.case]
  show cfg: "ctl_cfg c' = ctl_cfg c" and "om_ok (ctl_blocks c')"
    using p by blast+
  show "within_budget b (log @ out) c'"
  proof (cases "out = []")
    case True
    then have "usage (block_state c' b) = usage (block_state c b)"
      using p by (cases "b = rp_block_id cand") simp_all
    from within_budget_cong [OF this cfg, of "[]" log] show ?thesis
      using w by (simp add: True)
  next
    case False
    then obtain r where r: "out = [r]" "asks now_ms target cand c c' r"
      using p by blast
    show ?thesis
    proof (cases "b = rp_block_id cand")
      case True
      then show ?thesis
        using within_budget_asks [OF r(2) arr cfg] w by (simp add: r(1))
    next
      case other: False
      have "ro_block_id r = rp_block_id cand"
        using r(2) by (simp add: asks_def Let_def)
      then show ?thesis
        using p other w by (subst within_budget_cong) (auto simp: r(1))
    qed
  qed
qed

lemma within_budget_tick_all:
  assumes "om_ok (ctl_blocks c)" and "\<forall>cand \<in> set cands. candidate_arrays cand" and "within_budget b log c"
    and "tick_all now_ms target cands c = (c', out)"
  shows "within_budget b (log @ out) c' \<and> om_ok (ctl_blocks c') \<and> ctl_cfg c' = ctl_cfg c"
  using assms
proof (induction cands arbitrary: c c' log out)
  case (Cons cand cands)
  obtain c1 out1 where t: "tick_candidate now_ms target cand c = (c1, out1)"
    by fastforce
  obtain c2 out2 where t2: "tick_all now_ms target cands c1 = (c2, out2)"
    by fastforce
  have w: "within_budget b (log @ out1) c1" "om_ok (ctl_blocks c1)" "ctl_cfg c1 = ctl_cfg c"
    using within_budget_pass [OF Cons.prems(1) _ Cons.prems(3) t] Cons.prems(2) by simp_all
  have "c' = c2" "out = out1 @ out2"
    using Cons.prems(4) by (simp_all add: t t2)
  then show ?case
    using Cons.IH [OF w(2) _ w(1) t2] Cons.prems(2) w(3) by simp
qed simp

section \<open>Runs of the controller\<close>

text \<open>The candidates a tick works on come from the reassembler.\<close>

datatype ctl_event =
    Status cache_status u64
  | Tick u64 StreamKey FrameReassembler
  | Sent u32 u64
  | Reply u16 u32 data_view u64
  | Completed u32 u64
  | ResetStats
  | ResetLink

definition cands_of :: "FrameReassembler \<Rightarrow> RepairCandidate list" where
  "cands_of ra = repair_candidates ra 16"

fun ctl_step :: "ctl_event \<Rightarrow> CacheController \<Rightarrow> CacheController \<times> CacheRequestOut list" where
  "ctl_step (Status st now_ms) c = (on_status st now_ms c, [])"
| "ctl_step (Tick now_ms target ra) c = ctl_tick now_ms target (cands_of ra) c"
| "ctl_step (Sent rid now_us) c = (note_request_sent rid now_us c, [])"
| "ctl_step (Reply frm rid v now_us) c = (snd (on_reply frm rid v now_us c), [])"
| "ctl_step (Completed b now_us) c = (note_completed b now_us c, [])"
| "ctl_step ResetStats c = (ctl_reset_stats c, [])"
| "ctl_step ResetLink c = (ctl_reset_link c, [])"

fun ctl_run :: "ctl_event list \<Rightarrow> CacheController \<Rightarrow> CacheController \<times> CacheRequestOut list" where
  "ctl_run [] c = (c, [])"
| "ctl_run (ev # evs) c = (let (c1, out1) = ctl_step ev c; (c2, out2) = ctl_run evs c1 in (c2, out1 @ out2))"

text \<open>The events that leave a block's account open: it stays a candidate, is not completed, and the
  link is not reset.\<close>

fun keeps_block :: "u32 \<Rightarrow> ctl_event \<Rightarrow> bool" where
  "keeps_block b (Tick now_ms target ra) = (b \<in> rp_block_id ` set (cands_of ra))"
| "keeps_block b (Completed b' now_us) = (b' \<noteq> b)"
| "keeps_block b ResetLink = False"
| "keeps_block b _ = True"

lemma cands_arrays: "\<forall>cand \<in> set (cands_of ra). candidate_arrays cand"
  using candidate_arrays_of by (auto simp: cands_of_def repair_candidates_def dest!: in_set_takeD)

lemma map_of_filter_keys: "P k \<Longrightarrow> map_of (filter (\<lambda>kv. P (fst kv)) xs) k = map_of xs k"
  by (induction xs) auto

lemma ctl_tick_budget:
  assumes ok: "om_ok (ctl_blocks c)" and b: "b \<in> rp_block_id ` set (cands_of ra)" and w: "within_budget b log c"
    and t: "ctl_tick now_ms target (cands_of ra) c = (c', out)"
  shows "within_budget b (log @ out) c' \<and> om_ok (ctl_blocks c') \<and> ctl_cfg c' = ctl_cfg c"
proof -
  define c1 where "c1 = prune now_ms (cands_of ra) c"
  define c2 where "c2 = upd_ctl_stats (\<lambda>x. x\<lparr>cp_caches_fresh := count_fresh c1 target now_ms\<rparr>) c1"
  have "block_state c2 b = block_state c b" and cfg: "ctl_cfg c2 = ctl_cfg c"
    using map_of_filter_keys [of "\<lambda>k. k \<in> rp_block_id ` set (cands_of ra)" b "ctl_blocks c"] b
    by (simp_all add: c2_def c1_def prune_def block_state_def)
  then have "within_budget b log c2"
    using w within_budget_cong [of c2 b c "[]" log] by simp
  moreover have "om_ok (ctl_blocks c2)"
    using ok by (simp add: c2_def c1_def prune_def om_ok_filter)
  moreover have "tick_all now_ms target (cands_of ra) c2 = (c', out)"
    using t by (simp add: ctl_tick_def Let_def c1_def c2_def)
  ultimately show ?thesis
    using within_budget_tick_all [OF _ cands_arrays] cfg by metis
qed

lemma map_of_map_snd: "map_of (map (\<lambda>(i, b). (i, f b)) xs) k = map_option f (map_of xs k)"
  by (induction xs) auto

lemma keeps_block_quiet:
  assumes ok: "om_ok (ctl_blocks c)" and k: "keeps_block b ev" and s: "ctl_step ev c = (c', out)" and nt: "\<nexists>n t r. ev = Tick n t r"
  shows "usage (block_state c' b) = usage (block_state c b) \<and> om_ok (ctl_blocks c') \<and> ctl_cfg c' = ctl_cfg c \<and> out = []"
proof (cases ev)
  case (Status st now_ms)
  then show ?thesis
    using ok s by (auto simp: on_status_def Let_def block_state_def)
next
  case (Sent rid now_us)
  then show ?thesis
    using ok s by (auto simp: note_request_sent_def Let_def block_state_def map_of_update usage_def split: option.splits if_splits)
next
  case (Reply frm rid v now_us)
  then show ?thesis
    using ok s by (auto simp: on_reply_def Let_def block_state_def split: option.splits if_splits bool.splits)
next
  case (Completed b' now_us)
  then show ?thesis
    using ok s k by (auto simp: note_completed_def Let_def block_state_def map_of_erase split: option.splits if_splits)
next
  case ResetStats
  have "om_ok (map (\<lambda>(i, b). (i, b\<lparr>bk_first_request_us := None\<rparr>)) (ctl_blocks c))"
    using ok om_ok_same_keys [of "map (\<lambda>(i, b). (i, b\<lparr>bk_first_request_us := None\<rparr>)) (ctl_blocks c)" "ctl_blocks c"]
    by (simp add: comp_def case_prod_beta)
  then show ?thesis
    using ResetStats ok s
    by (auto simp: ctl_reset_stats_def block_state_def map_of_map_snd usage_def split: option.splits)
qed (use k nt in auto)

lemma ctl_run_budget:
  assumes "om_ok (ctl_blocks c)" and "\<forall>ev \<in> set evs. keeps_block b ev" and "within_budget b log c" and "ctl_run evs c = (c', out)"
  shows "within_budget b (log @ out) c' \<and> ctl_cfg c' = ctl_cfg c"
  using assms
proof (induction evs arbitrary: c c' log out)
  case (Cons ev evs)
  obtain c1 out1 where s: "ctl_step ev c = (c1, out1)"
    by fastforce
  obtain out2 where r: "ctl_run evs c1 = (c', out2)" and out: "out = out1 @ out2"
    using Cons.prems(4) by (auto simp: s split: prod.splits)
  have "within_budget b (log @ out1) c1 \<and> om_ok (ctl_blocks c1) \<and> ctl_cfg c1 = ctl_cfg c"
  proof (cases "\<exists>n t r. ev = Tick n t r")
    case True
    then show ?thesis
      using ctl_tick_budget [OF Cons.prems(1) _ Cons.prems(3)] Cons.prems(2) s by fastforce
  next
    case False
    have "keeps_block b ev"
      using Cons.prems(2) by simp
    from keeps_block_quiet [OF Cons.prems(1) this s False] show ?thesis
      using within_budget_cong [of c1 b c "[]" log] Cons.prems(3) by simp
  qed
  then show ?case
    using Cons.IH [OF _ _ _ r, of "log @ out1"] Cons.prems(2) out by simp
qed simp

lemma within_budget_new: "within_budget b [] (new_cache_controller cfg)"
  by (simp add: within_budget_def Let_def new_cache_controller_def block_state_def empty_block_state_def)

section \<open>Replies\<close>

type_synonym reply = "u16 \<times> u32 \<times> data_view \<times> u64"

fun reply_run :: "reply list \<Rightarrow> CacheController \<Rightarrow> ReplyVerdict list \<times> CacheController" where
  "reply_run [] c = ([], c)"
| "reply_run ((frm, rid, v, now_us) # rs) c =
     (let (verdict, c1) = on_reply frm rid v now_us c; (vs, c2) = reply_run rs c1 in (verdict # vs, c2))"

text \<open>The members of a 32-byte bitmap.\<close>

definition bitmap_members :: "bytes \<Rightarrow> nat set" where
  "bitmap_members bm = {i. i < 256 \<and> odd (unat (bm ! (i div 8)) div 2 ^ (i mod 8))}"

text \<open>The symbol that a reply carries was asked for. A source symbol starts with the window length
  \<open>k\<close> of the request and an index inside the window that the request listed as missing. A repair
  symbol starts with its index, which the request did not list as held, and that \<open>k\<close>, and is
  longer than the repair header.\<close>

definition requested_symbol :: "Outstanding \<Rightarrow> data_view \<Rightarrow> bool" where
  "requested_symbol oreq v \<longleftrightarrow>
     (if has_flag (data_flags (dv_hdr v)) kFecRepair
      then \<exists>ridx rest. dv_payload v = ridx # be16_write (os_k oreq) @ rest \<and> 9 \<le> length rest
        \<and> unat ridx \<notin> bitmap_members (os_have_repairs oreq)
      else \<exists>idx chunk. dv_payload v = be16_write (os_k oreq) @ be16_write idx @ chunk
        \<and> unat idx < unat (os_k oreq) \<and> unat idx \<in> bitmap_members (os_missing_sources oreq))"

lemma bm32_members: "bm32_bit_set bm i \<longleftrightarrow> i \<in> bitmap_members bm"
  by (simp add: bm32_bit_set_def bitmap_members_def bit_iff_odd [symmetric] bit_unsigned_iff)

lemma be16_read_eq: "be16_read q = w \<longleftrightarrow> [q 0, q 1] = be16_write w"
  by (metis be16_write_read be16_of_write be16_read_write list.sel(1) list.sel(3))

lemma be16_write_eq_iff: "be16_write a = be16_write b \<longleftrightarrow> a = b"
  by (metis be16_of_write)

lemma two_bytes: "2 \<le> length p \<Longrightarrow> be16_read (padd (ptr_of p) 0) = w \<longleftrightarrow> (\<exists>rest. p = be16_write w @ rest)"
  unfolding be16_read_eq be16_write_def
  by (cases p; cases "tl p") (auto simp: padd_def ptr_of_def)

lemma padd_ptr_of_drop: "padd (ptr_of p) n = ptr_of (drop n p)"
  by (rule ext) (auto simp: padd_def ptr_of_def add.commute)

lemma check_symbol_accepts: "check_symbol oreq v = rv_kAccept \<longleftrightarrow> requested_symbol oreq v"
proof (cases "has_flag (data_flags (dv_hdr v)) kFecRepair")
  case True
  show ?thesis
  proof (cases "kFecRepairSubheaderSize < length (dv_payload v)")
    case long: True
    then obtain r p where p: "dv_payload v = r # p" "11 \<le> length p"
      by (cases "dv_payload v") auto
    have "be16_read (padd (ptr_of (dv_payload v)) 1) = os_k oreq \<longleftrightarrow> (\<exists>rest. p = be16_write (os_k oreq) @ rest)"
      using two_bytes [of p] p by (simp add: padd_ptr_of_drop)
    then show ?thesis
      using True p by (auto simp: check_symbol_def requested_symbol_def Let_def bm32_members ptr_of_def not_le)
  next
    case False
    then show ?thesis
      using True by (auto simp: check_symbol_def requested_symbol_def Let_def)
  qed
next
  case False
  show ?thesis
  proof (cases "kFecSourceSubheaderSize \<le> length (dv_payload v)")
    case long: True
    have k: "be16_read (padd (ptr_of (dv_payload v)) 0) = os_k oreq \<longleftrightarrow> (\<exists>rest. dv_payload v = be16_write (os_k oreq) @ rest)"
      using two_bytes [of "dv_payload v"] long by simp
    have idx: "be16_read (padd (ptr_of (dv_payload v)) 2) = w \<longleftrightarrow> (\<exists>rest. drop 2 (dv_payload v) = be16_write w @ rest)" for w
      using two_bytes [of "drop 2 (dv_payload v)" w] long by (simp add: padd_ptr_of_drop)
    show ?thesis
    proof (cases "\<exists>rest. dv_payload v = be16_write (os_k oreq) @ rest")
      case True
      then obtain p where p: "dv_payload v = be16_write (os_k oreq) @ p" "2 \<le> length p"
        using long by auto
      obtain chunk where "p = be16_write (be16_read (padd (ptr_of (dv_payload v)) 2)) @ chunk"
        using idx [of "be16_read (padd (ptr_of (dv_payload v)) 2)"] p by auto
      then show ?thesis
        using False long k p idx
        by (auto simp: check_symbol_def requested_symbol_def Let_def bm32_members be16_write_eq_iff
            word_less_nat_alt word_le_nat_alt)
    next
      case bad: False
      then show ?thesis
        using False long k by (auto simp: check_symbol_def requested_symbol_def Let_def)
    qed
  next
    case short: False
    then show ?thesis
      using False by (auto simp: check_symbol_def requested_symbol_def Let_def)
  qed
qed

text \<open>A reply is accepted only for a symbol that was asked for, from the cache that was asked. A
  reply that is not accepted changes the counters only.\<close>

definition reply_fits :: "Outstanding \<Rightarrow> u16 \<Rightarrow> data_view \<Rightarrow> bool" where
  "reply_fits oreq frm v \<longleftrightarrow> frm = os_cache_originator oreq \<and> block_id (dv_hdr v) = os_block_id oreq
     \<and> requested_symbol oreq v"

lemma on_reply_reject:
  assumes "on_reply frm rid v now_us c = (verdict, c')" and "verdict \<noteq> rv_kAccept"
  shows "c' = upd_ctl_stats (\<lambda>x. x\<lparr>cp_replies := cp_replies x + 1, cp_symbols_rejected := cp_symbols_rejected x + 1\<rparr>) c"
  using assms by (auto simp: on_reply_def Let_def split: option.splits if_splits)

lemma on_reply_accept:
  assumes "on_reply frm rid v now_us c = (rv_kAccept, c')"
  obtains oreq where "map_of (ctl_outstanding c) rid = Some oreq" and "reply_fits oreq frm v"
    and "os_accepted oreq < os_allowance oreq"
    and "ctl_outstanding c' = om_update rid (oreq\<lparr>os_accepted := os_accepted oreq + 1, os_first_reply_seen := True\<rparr>) (ctl_outstanding c)"
    and "ctl_blocks c' = ctl_blocks c"
  using assms by (auto simp: on_reply_def Let_def reply_fits_def check_symbol_accepts not_le split: option.splits if_splits bool.splits)

lemma on_reply_fits:
  assumes "map_of (ctl_outstanding c) rid = Some oreq" and "reply_fits oreq frm v" and "os_accepted oreq < os_allowance oreq"
  shows "fst (on_reply frm rid v now_us c) = rv_kAccept"
  using assms by (auto simp: on_reply_def Let_def reply_fits_def check_symbol_accepts not_le)

text \<open>What \<open>reply_fits\<close> looks at is never changed by a reply.\<close>

definition request_view :: "Outstanding \<Rightarrow> u16 \<times> u32 \<times> u8 \<times> u16 \<times> bytes \<times> bytes" where
  "request_view oreq = (os_cache_originator oreq, os_block_id oreq, os_allowance oreq, os_k oreq,
     os_missing_sources oreq, os_have_repairs oreq)"

lemma reply_fits_view: "request_view o1 = request_view o2 \<Longrightarrow> reply_fits o1 frm v = reply_fits o2 frm v"
  by (simp add: request_view_def reply_fits_def requested_symbol_def)

lemma on_reply_request:
  assumes r: "on_reply frm rid' v now_us c = (verdict, c')" and ok: "om_ok (ctl_outstanding c)"
    and o: "map_of (ctl_outstanding c) rid = Some oreq"
  obtains oreq' where "map_of (ctl_outstanding c') rid = Some oreq'" and "request_view oreq' = request_view oreq"
    and "om_ok (ctl_outstanding c')" and "ctl_blocks c' = ctl_blocks c"
    and "os_accepted oreq' = (if rid' = rid \<and> verdict = rv_kAccept then os_accepted oreq + 1 else os_accepted oreq)"
    and "rid' = rid \<and> verdict = rv_kAccept \<longrightarrow> reply_fits oreq frm v \<and> os_accepted oreq < os_allowance oreq"
proof (cases "verdict = rv_kAccept")
  case True
  obtain q where q: "map_of (ctl_outstanding c) rid' = Some q" "reply_fits q frm v" "os_accepted q < os_allowance q"
    "ctl_outstanding c' = om_update rid' (q\<lparr>os_accepted := os_accepted q + 1, os_first_reply_seen := True\<rparr>) (ctl_outstanding c)"
    "ctl_blocks c' = ctl_blocks c"
    using on_reply_accept [OF r [unfolded True]] .
  show ?thesis
  proof (cases "rid' = rid")
    case same: True
    then have "q = oreq"
      using q(1) o by simp
    with q ok show ?thesis
      by (intro that [of "q\<lparr>os_accepted := os_accepted q + 1, os_first_reply_seen := True\<rparr>"])
        (simp_all add: map_of_update same True request_view_def)
  next
    case False
    with q ok o show ?thesis
      by (intro that [of oreq]) (simp_all add: map_of_update)
  qed
next
  case False
  have "ctl_outstanding c' = ctl_outstanding c" "ctl_blocks c' = ctl_blocks c"
    unfolding on_reply_reject [OF r False] by simp_all
  with False ok o show ?thesis
    by (intro that [of oreq]) simp_all
qed

definition accepted_for :: "u32 \<Rightarrow> reply list \<Rightarrow> ReplyVerdict list \<Rightarrow> reply list" where
  "accepted_for rid rs vs = map fst (filter (\<lambda>((frm, rid', v, t), verdict). rid' = rid \<and> verdict = rv_kAccept) (zip rs vs))"

lemma accepted_for_bounded:
  assumes "om_ok (ctl_outstanding c)" and "map_of (ctl_outstanding c) rid = Some oreq" and "os_accepted oreq \<le> os_allowance oreq"
    and "reply_run rs c = (vs, c')"
  shows "length (accepted_for rid rs vs) \<le> unat (os_allowance oreq) - unat (os_accepted oreq)
    \<and> (\<forall>(frm, rid', v, t) \<in> set (accepted_for rid rs vs). reply_fits oreq frm v) \<and> ctl_blocks c' = ctl_blocks c"
  using assms
proof (induction rs arbitrary: c oreq vs)
  case (Cons r rs)
  obtain frm rid' v t where r: "r = (frm, rid', v, t)"
    by (cases r) auto
  obtain verdict c1 where s: "on_reply frm rid' v t c = (verdict, c1)"
    by fastforce
  obtain vs1 where r1: "reply_run rs c1 = (vs1, c')" and vs: "vs = verdict # vs1"
    using Cons.prems(4) by (auto simp: r s split: prod.splits)
  obtain q where q: "map_of (ctl_outstanding c1) rid = Some q" "request_view q = request_view oreq" "om_ok (ctl_outstanding c1)"
    "ctl_blocks c1 = ctl_blocks c"
    "os_accepted q = (if rid' = rid \<and> verdict = rv_kAccept then os_accepted oreq + 1 else os_accepted oreq)"
    and fits: "rid' = rid \<and> verdict = rv_kAccept \<longrightarrow> reply_fits oreq frm v \<and> os_accepted oreq < os_allowance oreq"
    using on_reply_request [OF s Cons.prems(1,2)] .
  have al: "os_allowance q = os_allowance oreq"
    using q(2) by (simp add: request_view_def)
  show ?case
  proof (cases "rid' = rid \<and> verdict = rv_kAccept")
    case True
    note f = fits [rule_format, OF True]
    have inc: "unat (os_accepted q) = unat (os_accepted oreq) + 1"
      using f unat_u8_less [of "os_allowance oreq"] True by (simp add: q(5) unat_word_ariths word_less_nat_alt)
    have "os_accepted q \<le> os_allowance q"
      using inc f by (simp add: al word_le_nat_alt word_less_nat_alt)
    note ih = Cons.IH [OF q(3) q(1) this r1]
    then show ?thesis
      using True f inc al reply_fits_view [OF q(2)] q(4)
      by (simp add: accepted_for_def r vs word_less_nat_alt) linarith
  next
    case False
    have "os_accepted q \<le> os_allowance q"
      using Cons.prems(3) False by (auto simp: q(5) al)
    note ih = Cons.IH [OF q(3) q(1) this r1]
    then show ?thesis
      using False al reply_fits_view [OF q(2)] q(4,5)
      by (auto simp: accepted_for_def r vs)
  qed
qed (simp add: accepted_for_def)

lemma reply_run_all_accepted:
  assumes "om_ok (ctl_outstanding c)" and "map_of (ctl_outstanding c) rid = Some oreq"
    and "unat (os_accepted oreq) + length rs \<le> unat (os_allowance oreq)"
    and "\<forall>(frm, rid', v, t) \<in> set rs. rid' = rid \<and> reply_fits oreq frm v"
  shows "fst (reply_run rs c) = replicate (length rs) rv_kAccept"
  using assms
proof (induction rs arbitrary: c oreq)
  case (Cons r rs)
  obtain frm v t where r: "r = (frm, rid, v, t)" and f: "reply_fits oreq frm v"
    using Cons.prems(4) by (cases r) auto
  have lt: "os_accepted oreq < os_allowance oreq"
    using Cons.prems(3) by (simp add: word_less_nat_alt)
  obtain c1 where s: "on_reply frm rid v t c = (rv_kAccept, c1)"
    using on_reply_fits [OF Cons.prems(2) f lt, of t] by (metis prod.collapse)
  obtain q where q: "map_of (ctl_outstanding c1) rid = Some q" "request_view q = request_view oreq" "om_ok (ctl_outstanding c1)"
    "os_accepted q = os_accepted oreq + 1"
    using on_reply_request [OF s Cons.prems(1,2)] by simp metis
  have inc: "unat (os_accepted q) = unat (os_accepted oreq) + 1"
    using lt unat_u8_less [of "os_allowance oreq"] by (simp add: q(4) unat_word_ariths word_less_nat_alt)
  have "os_allowance q = os_allowance oreq"
    using q(2) by (simp add: request_view_def)
  then have "fst (reply_run rs c1) = replicate (length rs) rv_kAccept"
    using Cons.prems(3,4) inc reply_fits_view [OF q(2)] by (intro Cons.IH [OF q(3) q(1)]) auto
  then show ?case
    by (cases "reply_run rs c1") (simp add: r s)
qed simp

text \<open>C24: While a block stays a repair candidate, whatever statuses, ticks, replies and counter
  resets occur, the requests issued for it are at most max_cache_attempts, go to different
  caches, and ask for at most absolute_symbol_limit symbols in all.\<close>

theorem cache_requests_bounded:
  assumes "\<forall>ev \<in> set evs. keeps_block b ev" and "ctl_run evs (new_cache_controller cfg) = (c', log)"
  shows "let rs = filter (\<lambda>r. ro_block_id r = b) log
         in length rs \<le> unat (cc_max_cache_attempts cfg) \<and> distinct (map ro_cache_originator rs)
          \<and> sum_list (map symbols_asked rs) \<le> unat (cc_absolute_symbol_limit cfg)"
proof -
  have "within_budget b log c'" "ctl_cfg c' = cfg"
    using ctl_run_budget [OF _ assms(1) within_budget_new assms(2)] by (simp_all add: new_cache_controller_def)
  then show ?thesis
    by (auto simp: within_budget_def Let_def word_le_nat_alt)
qed

text \<open>C25: Whatever replies arrive, from whom and with whatever content, at most the allowance of a
  request is accepted for it, and the block accounts do not change. Every accepted reply is from
  the cache that was asked, names the block of the request, and its payload starts with the
  header of a requested symbol: a source symbol with the window length of the request and an
  index inside that window that the request lists as missing, or a repair symbol with that
  window length and an index that the request does not list as held, longer than its header.\<close>

theorem cache_replies_cannot_exceed_request:
  assumes "om_ok (ctl_outstanding c)" and "map_of (ctl_outstanding c) rid = Some oreq" and "os_accepted oreq \<le> os_allowance oreq"
    and "reply_run rs c = (vs, c')"
  shows "length (accepted_for rid rs vs) \<le> unat (os_allowance oreq) - unat (os_accepted oreq)
    \<and> (\<forall>(frm, rid', v, t) \<in> set (accepted_for rid rs vs). frm = os_cache_originator oreq
         \<and> block_id (dv_hdr v) = os_block_id oreq \<and> requested_symbol oreq v)
    \<and> ctl_blocks c' = ctl_blocks c"
  using accepted_for_bounded [OF assms] unfolding reply_fits_def by blast

section \<open>Examples\<close>

text \<open>One cache, one block of one symbol that nobody sent.\<close>

definition rep_cfg :: CacheControllerConfig where
  "rep_cfg = \<lparr>cc_self_originator = 3, cc_self_session = 4, cc_caches = [9], cc_tail_grace_ms = 1, cc_local_quiet_ms = 2,
     cc_min_collect_ms = 4, cc_hard_close_ms = 8, cc_request_timeout_ms = 4, cc_repair_fraction_permille = 1000,
     cc_absolute_symbol_limit = 8, cc_max_cache_attempts = 2, cc_reply_limit = 4, cc_health_floor_permille = 0,
     cc_status_timeout_ms = 1500\<rparr>"

definition rep_key :: StreamKey where
  "rep_key = \<lparr>sk_originator = 5, sk_session_id = 6, sk_stream_id = 1\<rparr>"

definition rep_status :: cache_status where
  "rep_status = \<lparr>cs_prefix = \<lparr>originator = 9, destination = 3, session_id = 8\<rparr>, cs_target_originator = 5, cs_target_session = 6,
     cs_target_stream_id = 1, cs_oldest_block = 2, cs_newest_block = 6, cs_rx_health_permille = 900, cs_capability_flags = 1\<rparr>"

definition rep_ra :: FrameReassembler where
  "rep_ra = (new_reassembler \<lparr>rc_deadline_ms = 50, rc_max_blocks_ahead = 4, rc_max_frame_bytes = 1000\<rparr> None)
     \<lparr>ra_blocks := [(7, empty_block\<lparr>bl_k := 1\<rparr>)]\<rparr>"

definition rep_hdr :: cache_request_header where
  "rep_hdr = \<lparr>cr_prefix = \<lparr>originator = 3, destination = 9, session_id = 4\<rparr>, cr_target_originator = 5, cr_target_session = 6,
     cr_target_stream_id = 1, cr_target_cache = 9, cr_request_id = 1, cr_block_id = 7, cr_window_len = 1, cr_max_symbols = 1\<rparr>"

definition rep_frame :: bytes where
  "rep_frame = encode_prefix (cr_prefix rep_hdr) kCacheRequest
           @ be16_write 5 @ be32_write 6 @ [1] @ be16_write 9 @ be32_write 1 @ be32_write 7
           @ be16_write 1 @ [1, 0] @ [1]"

definition rep_ctl :: CacheController where
  "rep_ctl = (new_cache_controller rep_cfg)\<lparr>ctl_registry := [(9, [\<lparr>rg_status = rep_status, rg_last_seen_ms = 95\<rparr>])]\<rparr>"

lemma set_first_bit: "set_bit_at 0 (replicate 32 0) = 1 # replicate 31 0"
  using replicate_Suc [of 31 "0 :: u8"] by (simp add: set_bit_at_def)

lemma rep_hdr_id: "cr_request_id rep_hdr = 1"
  by (simp add: rep_hdr_def)

lemma rep_cands: "cands_of rep_ra = [\<lparr>rp_block_id = 7, rp_k = 1, rp_unique = 0, rp_have_eob = False, rp_first_ms = 0,
    rp_last_new_ms = 0, rp_eob_ms = 0, rp_missing_sources = 1 # replicate 31 0, rp_have_repairs = replicate 32 0\<rparr>]"
  by (simp add: cands_of_def repair_candidates_def rep_ra_def is_candidate_def empty_block_def candidate_of_def om_has_def
      set_first_bit)

lemma trimmed_zeros: "trimmed (replicate 32 0) 32 = 0"
proof -
  have "n \<le> 32 \<Longrightarrow> trimmed (replicate 32 0) n = 0" for n
    by (induction n) auto
  then show ?thesis by simp
qed

lemma rep_run: "ctl_run [Status rep_status 95] (new_cache_controller rep_cfg) = (rep_ctl, [])"
  by (simp add: on_status_def rep_ctl_def rep_status_def rep_cfg_def new_cache_controller_def registry_of_def)

lemma rep_encode: "encode_cache_request rep_hdr (Some (1 # replicate 31 0)) None 0 (Some (kCacheRequestFixedSize + 32 + 32)) = Some rep_frame"
  by (simp add: encode_cache_request_def rep_hdr_def rep_frame_def out_ok_def null_with_len_def memcpy_def)

lemma rep_tick: "snd (ctl_tick 100 rep_key (cands_of rep_ra) rep_ctl) =
    [\<lparr>ro_cache_originator = 9, ro_request_id = 1, ro_block_id = 7, ro_frame = rep_frame\<rparr>]"
  unfolding ctl_tick_def rep_cands Let_def
  using rep_encode rep_hdr_id by (simp add: prune_def tick_candidate_def rep_ctl_def new_cache_controller_def empty_block_state_def
      close_due_def rep_cfg_def repair_cap_def issue_request_def best_cache_def registry_of_def eligible_def fresh_status_def status_for_def 
      rep_status_def rep_key_def better_def request_header_def bid_diff_def rep_hdr_def [symmetric] trimmed_zeros Let_def)

lemma rep_request: "request_of \<lparr>ro_cache_originator = 9, ro_request_id = 1, ro_block_id = 7, ro_frame = rep_frame\<rparr>
    = Some \<lparr>crv_hdr = rep_hdr, crv_missing_sources = [1], crv_repair_have = []\<rparr>"
  using request_decodes(1) [of rep_hdr "1 # replicate 31 0" 0 "replicate 32 0"] rep_encode
  by (simp add: request_of_def rep_hdr_def)

theorem cache_requests_bounded_witness:
  "let rs = filter (\<lambda>r. ro_block_id r = 7) (snd (ctl_run [Status rep_status 95, Tick 100 rep_key rep_ra] (new_cache_controller rep_cfg)))
   in length rs = 1 \<and> sum_list (map symbols_asked rs) \<le> 8"
proof -
  have out: "snd (ctl_run [Status rep_status 95, Tick 100 rep_key rep_ra] (new_cache_controller rep_cfg)) =
    [\<lparr>ro_cache_originator = 9, ro_request_id = 1, ro_block_id = 7, ro_frame = rep_frame\<rparr>]"
    using rep_run rep_tick by (simp split: prod.splits)
  have "\<forall>ev \<in> set [Status rep_status 95, Tick 100 rep_key rep_ra]. keeps_block 7 ev"
    by (simp add: rep_cands)
  from cache_requests_bounded [OF this prod.collapse [symmetric], of rep_cfg] show ?thesis
    unfolding out by (simp add: Let_def rep_cfg_def)
qed

definition rep_outstanding :: Outstanding where
  "rep_outstanding = \<lparr>os_cache_originator = 9, os_block_id = 7, os_issued_ms = 100, os_sent_us = None, os_first_reply_seen = False,
     os_allowance = 1, os_accepted = 0, os_k = 1, os_missing_sources = 1 # replicate 31 0, os_have_repairs = replicate 32 0\<rparr>"

text \<open>The same good reply twice: the second one is over the allowance.\<close>

definition rep_reply :: reply where
  "rep_reply = (9, 1, \<lparr>dv_hdr = \<lparr>dh_prefix = \<lparr>originator = 5, destination = 0, session_id = 6\<rparr>, stream_id = 1, stream_type = 0,
     seq_no = 20, block_id = 7, data_flags = 0, active_profile = 0, table_version = 0\<rparr>, dv_payload = [0, 1, 0, 0, 42]\<rparr>, 0)"

theorem cache_replies_cannot_exceed_request_witness:
  "let (vs, c') = reply_run [rep_reply, rep_reply] (rep_ctl\<lparr>ctl_outstanding := [(1, rep_outstanding)]\<rparr>)
   in vs = [rv_kAccept, rv_kOverAllowance] \<and> length (accepted_for 1 [rep_reply, rep_reply] vs) \<le> 1"
proof -
  let ?c = "rep_ctl\<lparr>ctl_outstanding := [(1, rep_outstanding)]\<rparr>"
  obtain vs c' where run: "reply_run [rep_reply, rep_reply] ?c = (vs, c')"
    by fastforce
  have "fst (reply_run [rep_reply, rep_reply] ?c) = [rv_kAccept, rv_kOverAllowance]"
    by (simp add: rep_reply_def on_reply_def rep_outstanding_def check_symbol_def has_flag_def Let_def ptr_of_def padd_def
        be16_read_def bm32_bit_set_def)
  then have vs: "vs = [rv_kAccept, rv_kOverAllowance]"
    by (simp only: run fst_conv)
  have "length (accepted_for 1 [rep_reply, rep_reply] vs) \<le> unat (os_allowance rep_outstanding) - unat (os_accepted rep_outstanding)"
    using cache_replies_cannot_exceed_request [OF _ _ _ run, of 1 rep_outstanding] by (simp add: om_ok_def rep_outstanding_def)
  then have "length (accepted_for 1 [rep_reply, rep_reply] vs) \<le> 1"
    by (simp add: rep_outstanding_def)
  then show ?thesis
    unfolding run Let_def prod.case using vs by blast
qed

end
