(* ===== verification/Cache_Repair.thy ===== *)
theory Cache_Repair
  imports Cache_Store_Props Cache_Controller_Props
begin

text \<open>
  Cooperative repair from end to end: the request a controller issues, read back from the wire by a
  cache, answered from its store, and checked by the controller. The glue is that of rx_node.cpp.
\<close>

section \<open>Outstanding requests\<close>

definition outstanding_for :: "u64 \<Rightarrow> RepairCandidate \<Rightarrow> cache_request_header \<Rightarrow> Outstanding" where
  "outstanding_for now_ms cand h = \<lparr>os_cache_originator = cr_target_cache h, os_block_id = cr_block_id h,
     os_issued_ms = now_ms, os_sent_us = None, os_first_reply_seen = False, os_allowance = cr_max_symbols h,
     os_accepted = 0, os_k = cr_window_len h, os_missing_sources = rp_missing_sources cand, os_have_repairs = rp_have_repairs cand\<rparr>"

text \<open>A request on its way, and the entry that waits for its replies.\<close>

definition awaiting :: "u64 \<Rightarrow> StreamKey \<Rightarrow> RepairCandidate \<Rightarrow> CacheController \<Rightarrow> CacheRequestOut \<Rightarrow> bool" where
  "awaiting now_ms target cand c r \<longleftrightarrow> (\<exists>v. request_of r = Some v \<and> candidate_arrays cand
     \<and> crv_missing_sources v = take ((unat (cr_window_len (crv_hdr v)) + 7) div 8) (rp_missing_sources cand)
     \<and> crv_repair_have v = take (trimmed (rp_have_repairs cand) 32) (rp_have_repairs cand)
     \<and> unat (cr_window_len (crv_hdr v)) \<le> kFecMaxSymbols
     \<and> cr_target_cache (crv_hdr v) = ro_cache_originator r \<and> cr_request_id (crv_hdr v) = ro_request_id r
     \<and> map_of (ctl_outstanding c) (ro_request_id r) = Some (outstanding_for now_ms cand (crv_hdr v)))"

definition ids_ok :: "CacheController \<Rightarrow> bool" where
  "ids_ok c \<longleftrightarrow> om_ok (ctl_outstanding c) \<and> (\<forall>i \<in> om_keys (ctl_outstanding c). unat i < unat (ctl_next_request_id c))"

lemma tick_candidate_ids:
  assumes "tick_candidate now_ms target cand c = (c', out)"
  shows "ctl_next_request_id c' = ctl_next_request_id c \<and> ctl_outstanding c' = ctl_outstanding c \<and> out = []
    \<or> ctl_next_request_id c' = ctl_next_request_id c + 1 \<and> ctl_outstanding c' = ctl_outstanding c \<and> out = []
    \<or> ctl_next_request_id c' = ctl_next_request_id c + 1 \<and> out \<noteq> []"
proof -
  have issue: "ctl_next_request_id d' = ctl_next_request_id d \<and> ctl_outstanding d' = ctl_outstanding d \<and> o' = []
    \<or> ctl_next_request_id d' = ctl_next_request_id d + 1 \<and> ctl_outstanding d' = ctl_outstanding d \<and> o' = []
    \<or> ctl_next_request_id d' = ctl_next_request_id d + 1 \<and> o' \<noteq> []"
    if "issue_request now_ms target cand df rm st d = (d', o')" for df rm st d d' o'
    using that by (auto simp: issue_request_def Let_def split: option.splits if_splits)
  show ?thesis
    using assms by (auto simp: tick_candidate_def Let_def split: if_splits dest!: issue)
qed

lemma unat_Suc_small: "unat (x :: u32) + 1 < 2 ^ 32 \<Longrightarrow> unat (x + 1) = unat x + 1"
  by (simp add: unat_word_ariths)

lemma ids_ok_pass:
  assumes ids: "ids_ok c" and ok: "om_ok (ctl_blocks c)" and arr: "candidate_arrays cand"
    and room: "unat (ctl_next_request_id c) + 1 < 2 ^ 32" and t: "tick_candidate now_ms target cand c = (c', out)"
  shows "ids_ok c'" and "om_ok (ctl_blocks c')"
    and "unat (ctl_next_request_id c') \<le> unat (ctl_next_request_id c) + 1"
    and "map_of (ctl_outstanding c) i = Some q \<Longrightarrow> map_of (ctl_outstanding c') i = Some q"
    and "\<forall>r \<in> set out. awaiting now_ms target cand c' r"
proof -
  note p = tick_candidate_outcome [OF ok, of now_ms target cand, unfolded t pass_outcome_def prod.case]
  note n = tick_candidate_ids [OF t]
  show "om_ok (ctl_blocks c')"
    using p by blast
  show "unat (ctl_next_request_id c') \<le> unat (ctl_next_request_id c) + 1"
    using n unat_Suc_small [OF room] by auto
  have keys: "unat i < unat (ctl_next_request_id c)" if "i \<in> om_keys (ctl_outstanding c)" for i
    using ids that unfolding ids_ok_def by blast
  have okO: "om_ok (ctl_outstanding c)"
    using ids by (simp add: ids_ok_def)
  have "ids_ok c' \<and> (map_of (ctl_outstanding c) i = Some q \<longrightarrow> map_of (ctl_outstanding c') i = Some q)
    \<and> (\<forall>r \<in> set out. awaiting now_ms target cand c' r)"
  proof (cases "out = []")
    case True
    have same: "ctl_outstanding c' = ctl_outstanding c"
      using p True by blast
    have "unat (ctl_next_request_id c) \<le> unat (ctl_next_request_id c')"
      using n unat_Suc_small [OF room] by auto
    then have "\<forall>i \<in> om_keys (ctl_outstanding c). unat i < unat (ctl_next_request_id c')"
      using keys order_less_le_trans by blast
    then show ?thesis
      using okO True unfolding ids_ok_def same by simp
  next
    case False
    then obtain r where r: "out = [r]" "asks now_ms target cand c c' r"
      using p by blast
    have nx: "ctl_next_request_id c' = ctl_next_request_id c + 1"
      using n False by blast
    define al where "al = allowance_of (ctl_cfg c) cand (bk_budget_used (block_state c (rp_block_id cand)))"
    define h where "h = request_header c target cand (ro_cache_originator r) al"
    have rid: "ro_request_id r = ctl_next_request_id c"
      and os: "ctl_outstanding c' = om_emplace (ctl_next_request_id c) (outstanding_for now_ms cand h) (ctl_outstanding c)"
      using r(2) by (simp_all add: asks_def Let_def outstanding_for_def h_def request_header_def al_def)
    have new: "\<not> om_has (ctl_next_request_id c) (ctl_outstanding c)"
      using keys by (auto simp: om_has_iff)
    have lookup: "map_of (ctl_outstanding c') = (map_of (ctl_outstanding c))(ctl_next_request_id c \<mapsto> outstanding_for now_ms cand h)"
      by (simp add: os map_of_emplace okO new)
    have "awaiting now_ms target cand c' r"
      unfolding awaiting_def using request_of_asks [OF r(2) arr] arr
      by (simp add: lookup rid h_def request_header_def al_def)
    moreover have "ids_ok c'"
      using okO keys unat_Suc_small [OF room] by (auto simp: ids_ok_def os nx fst_set_emplace less_SucI)
    moreover have "i \<noteq> ctl_next_request_id c" if "map_of (ctl_outstanding c) i = Some q"
      using that new by (auto simp: om_has_def)
    ultimately show ?thesis
      by (simp add: lookup r(1))
  qed
  then show "ids_ok c'" "map_of (ctl_outstanding c) i = Some q \<Longrightarrow> map_of (ctl_outstanding c') i = Some q"
    "\<forall>r \<in> set out. awaiting now_ms target cand c' r"
    by blast+
qed

lemma awaiting_mono:
  assumes "awaiting now_ms target cand c r" and "\<And>i q. map_of (ctl_outstanding c) i = Some q \<Longrightarrow> map_of (ctl_outstanding c') i = Some q"
  shows "awaiting now_ms target cand c' r"
  using assms unfolding awaiting_def by blast

lemma ids_ok_tick_all:
  assumes "ids_ok c" and "om_ok (ctl_blocks c)" and "\<forall>cand \<in> set cands. candidate_arrays cand"
    and "unat (ctl_next_request_id c) + length cands < 2 ^ 32" and "tick_all now_ms target cands c = (c', out)"
  shows "ids_ok c' \<and> om_ok (ctl_blocks c') \<and> unat (ctl_next_request_id c') \<le> unat (ctl_next_request_id c) + length cands
    \<and> (\<forall>i q. map_of (ctl_outstanding c) i = Some q \<longrightarrow> map_of (ctl_outstanding c') i = Some q)
    \<and> (\<forall>r \<in> set out. \<exists>cand \<in> set cands. awaiting now_ms target cand c' r)"
  using assms
proof (induction cands arbitrary: c c' out)
  case (Cons cand cands)
  obtain c1 out1 where t: "tick_candidate now_ms target cand c = (c1, out1)"
    by fastforce
  obtain out2 where t2: "tick_all now_ms target cands c1 = (c', out2)" and out: "out = out1 @ out2"
    using Cons.prems(5) by (auto simp: t split: prod.splits)
  have arr: "candidate_arrays cand" and room: "unat (ctl_next_request_id c) + 1 < 2 ^ 32"
    using Cons.prems(3,4) by simp_all
  note s = ids_ok_pass [OF Cons.prems(1,2) arr room t]
  have arr': "\<forall>cand \<in> set cands. candidate_arrays cand" and room': "unat (ctl_next_request_id c1) + length cands < 2 ^ 32"
    using Cons.prems(3,4) s(3) by simp_all
  note ih = Cons.IH [OF s(1) s(2) arr' room' t2]
  note ih_old = ih [THEN conjunct2, THEN conjunct2, THEN conjunct2, THEN conjunct1, rule_format]
  note ih_new = ih [THEN conjunct2, THEN conjunct2, THEN conjunct2, THEN conjunct2, rule_format]
  have "awaiting now_ms target cand c' r" if "r \<in> set out1" for r
    by (rule awaiting_mono [OF s(5) [rule_format, OF that] ih_old])
  then have new: "\<forall>r \<in> set out. \<exists>cand \<in> set (cand # cands). awaiting now_ms target cand c' r"
    using ih_new unfolding out set_append list.set by blast
  have len: "unat (ctl_next_request_id c') \<le> unat (ctl_next_request_id c) + length (cand # cands)"
    using s(3) ih by simp
  show ?case
    using ih len new ih_old [OF s(4)] by blast
qed simp

lemma ids_ok_shrink:
  assumes "ids_ok c" and "ctl_next_request_id c' = ctl_next_request_id c" and "om_ok (ctl_outstanding c')"
    and "om_keys (ctl_outstanding c') \<subseteq> om_keys (ctl_outstanding c)"
  shows "ids_ok c'"
  using assms(1,3,4) unfolding ids_ok_def assms(2) by blast

text \<open>Every event but a tick leaves the next id alone and adds no request.\<close>

lemma ctl_step_other_ids:
  assumes ids: "ids_ok c" and ok: "om_ok (ctl_blocks c)" and s: "ctl_step ev c = (c', out)" and nt: "\<nexists>n t r. ev = Tick n t r"
  shows "ids_ok c' \<and> om_ok (ctl_blocks c') \<and> ctl_next_request_id c' = ctl_next_request_id c"
proof -
  have okO: "om_ok (ctl_outstanding c)"
    using ids by (simp add: ids_ok_def)
  have reset: "om_ok (map (\<lambda>(i, b). (i, f b)) xs) = om_ok xs" for f :: "'b \<Rightarrow> 'b" and xs :: "(u32, 'b) omap"
    by (rule om_ok_same_keys) (simp add: comp_def case_prod_beta)
  have upd: "om_keys (om_update i q xs) = om_keys xs" if "map_of xs i \<noteq> None" for i q and xs :: "(u32, 'b) omap"
    using that unfolding fst_set_update map_of_eq_None_iff by (simp only: not_not insert_absorb)
  have "om_ok (ctl_blocks c') \<and> ctl_next_request_id c' = ctl_next_request_id c \<and> om_ok (ctl_outstanding c')
     \<and> om_keys (ctl_outstanding c') \<subseteq> om_keys (ctl_outstanding c)"
  proof (cases ev)
    case (Status st now_ms)
    then have "ctl_outstanding c' = ctl_outstanding c \<and> ctl_blocks c' = ctl_blocks c \<and> ctl_next_request_id c' = ctl_next_request_id c"
      using s by (auto simp: on_status_def Let_def)
    then show ?thesis
      using ok okO by simp
  next
    case (Sent rid now_us)
    then have c': "c' = note_request_sent rid now_us c"
      using s by simp
    show ?thesis
      using ok okO upd [of "ctl_outstanding c" rid] unfolding c' note_request_sent_def Let_def
      by (cases "map_of (ctl_outstanding c) rid") (simp_all split: option.split)
  next
    case (Reply frm rid v now_us)
    obtain verdict where r: "on_reply frm rid v now_us c = (verdict, c')"
      using s Reply by (cases "on_reply frm rid v now_us c") auto
    have "ctl_next_request_id c' = ctl_next_request_id c \<and> ctl_blocks c' = ctl_blocks c"
      using r by (auto simp: on_reply_def Let_def split: option.splits if_splits bool.splits)
    moreover have "om_ok (ctl_outstanding c') \<and> om_keys (ctl_outstanding c') \<subseteq> om_keys (ctl_outstanding c)"
    proof (cases "verdict = rv_kAccept")
      case True
      obtain q where "map_of (ctl_outstanding c) rid = Some q"
        "ctl_outstanding c' = om_update rid (q\<lparr>os_accepted := os_accepted q + 1, os_first_reply_seen := True\<rparr>) (ctl_outstanding c)"
        using on_reply_accept [OF r [unfolded True]] .
      then show ?thesis
        using okO upd [of "ctl_outstanding c" rid] by simp
    next
      case False
      then show ?thesis
        using on_reply_reject [OF r False] okO by simp
    qed
    ultimately show ?thesis
      using ok by simp
  next
    case (Completed b now_us)
    then show ?thesis
      using s ok okO by (auto simp: note_completed_def Let_def om_ok_filter split: option.splits if_splits)
  next
    case ResetStats
    then have c': "c' = ctl_reset_stats c"
      using s by simp
    have "om_keys (ctl_outstanding c') = om_keys (ctl_outstanding c)"
      by (force simp: c' ctl_reset_stats_def)
    then show ?thesis
      using ok okO by (simp add: c' ctl_reset_stats_def reset)
  next
    case ResetLink
    then show ?thesis
      using s by (auto simp: ctl_reset_link_def)
  qed (use nt in simp)
  then show ?thesis
    using ids_ok_shrink [OF ids] by blast
qed

lemma length_cands_of: "length (cands_of ra) \<le> 16"
  by (simp add: cands_of_def repair_candidates_def)

lemma ctl_tick_ids:
  assumes ids: "ids_ok c" and ok: "om_ok (ctl_blocks c)" and room: "unat (ctl_next_request_id c) + 16 < 2 ^ 32"
    and t: "ctl_tick now_ms target (cands_of ra) c = (c', out)"
  shows "ids_ok c' \<and> om_ok (ctl_blocks c') \<and> unat (ctl_next_request_id c') \<le> unat (ctl_next_request_id c) + 16
    \<and> (\<forall>r \<in> set out. \<exists>cand \<in> set (cands_of ra). awaiting now_ms target cand c' r)"
proof -
  define c1 where "c1 = prune now_ms (cands_of ra) c"
  define c2 where "c2 = upd_ctl_stats (\<lambda>x. x\<lparr>cp_caches_fresh := count_fresh c1 target now_ms\<rparr>) c1"
  have nx: "ctl_next_request_id c2 = ctl_next_request_id c"
    by (simp add: c2_def c1_def prune_def)
  have okO: "om_ok (ctl_outstanding c)"
    using ids by (simp add: ids_ok_def)
  have "ids_ok c2"
    using okO by (intro ids_ok_shrink [OF ids nx]) (auto simp: c2_def c1_def prune_def om_ok_filter)
  moreover have "om_ok (ctl_blocks c2)"
    using ok by (simp add: c2_def c1_def prune_def om_ok_filter)
  moreover have "unat (ctl_next_request_id c2) + length (cands_of ra) < 2 ^ 32"
    using room length_cands_of [of ra] by (simp add: nx)
  moreover have "tick_all now_ms target (cands_of ra) c2 = (c', out)"
    using t by (simp add: ctl_tick_def Let_def c1_def c2_def)
  ultimately show ?thesis
    using ids_ok_tick_all [OF _ _ cands_arrays, of c2 ra now_ms target c' out] length_cands_of [of ra] nx by auto
qed

lemma ctl_run_ids:
  assumes "ids_ok c" and "om_ok (ctl_blocks c)" and "unat (ctl_next_request_id c) + 16 * length evs < 2 ^ 32" and "ctl_run evs c = (c', out)"
  shows "ids_ok c' \<and> om_ok (ctl_blocks c') \<and> unat (ctl_next_request_id c') \<le> unat (ctl_next_request_id c) + 16 * length evs"
  using assms
proof (induction evs arbitrary: c c' out)
  case (Cons ev evs)
  obtain c1 out1 where s: "ctl_step ev c = (c1, out1)"
    by fastforce
  obtain out2 where r: "ctl_run evs c1 = (c', out2)"
    using Cons.prems(4) by (auto simp: s split: prod.splits)
  have "ids_ok c1 \<and> om_ok (ctl_blocks c1) \<and> unat (ctl_next_request_id c1) \<le> unat (ctl_next_request_id c) + 16"
  proof (cases "\<exists>n t r. ev = Tick n t r")
    case True
    then obtain n t ra where "ctl_tick n t (cands_of ra) c = (c1, out1)"
      using s by auto
    from ctl_tick_ids [OF Cons.prems(1,2) _ this] show ?thesis
      using Cons.prems(3) by simp
  next
    case False
    from ctl_step_other_ids [OF Cons.prems(1,2) s False] show ?thesis
      by simp
  qed
  then show ?case
    using Cons.IH [OF _ _ _ r] Cons.prems(3) by simp
qed simp

lemma ids_ok_new: "ids_ok (new_cache_controller cfg)" "om_ok (ctl_blocks (new_cache_controller cfg))"
  "unat (ctl_next_request_id (new_cache_controller cfg)) = 1"
  by (simp_all add: ids_ok_def new_cache_controller_def)

section \<open>Asked for and accepted\<close>

lemma wanted_fits:
  assumes s: "symbol_index w = Some (k, idx)" and wt: "wanted v k idx" and k: "k = cr_window_len (crv_hdr v)"
    and b: "block_id (dv_hdr w) = cr_block_id (crv_hdr v)" and arr: "candidate_arrays cand"
    and ms: "crv_missing_sources v = take ((unat k + 7) div 8) (rp_missing_sources cand)"
    and hv: "crv_repair_have v = take (trimmed (rp_have_repairs cand) 32) (rp_have_repairs cand)"
  shows "reply_fits (outstanding_for now_ms cand (crv_hdr v)) (cr_target_cache (crv_hdr v)) w"
proof -
  let ?o = "outstanding_for now_ms cand (crv_hdr v)"
  have "check_symbol ?o w = rv_kAccept"
  proof (cases "has_flag (data_flags (dv_hdr w)) kFecRepair")
    case True
    define ridx where "ridx = ptr_of (dv_payload w) 0"
    have i: "11 < length (dv_payload w)" "be16_read (padd (ptr_of (dv_payload w)) 1) = k" "idx = k + ucast ridx"
      "unat k + unat ridx < kFecMaxSymbols"
      using s True by (auto simp: symbol_index_def Let_def ridx_def not_le split: if_splits)
    have u: "unat idx = unat k + unat ridx"
      using i(3,4) by (simp add: unat_word_ariths)
    have nb: "\<not> bm_bit_set (crv_repair_have v) (length (crv_repair_have v)) (unat ridx)"
      using wt u by (simp add: wanted_def word_less_nat_alt i(3))
    have "\<not> bm32_bit_set (rp_have_repairs cand) (unat ridx)"
    proof (cases "unat ridx div 8 < trimmed (rp_have_repairs cand) 32")
      case True
      then show ?thesis
        using nb arr trimmed_le [of "rp_have_repairs cand" 32]
        by (auto simp: bm_bit_set_def bm32_bit_set_def hv candidate_arrays_def)
    next
      case False
      then have "rp_have_repairs cand ! (unat ridx div 8) = 0"
        using unat_u8_less [of ridx] by (intro trimmed_zero [of _ 32]) auto
      then show ?thesis
        by (simp add: bm32_bit_set_def)
    qed
    then show ?thesis
      using True i(1,2) by (simp add: check_symbol_def Let_def outstanding_for_def ridx_def k)
  next
    case False
    have i: "4 \<le> length (dv_payload w)" "be16_read (padd (ptr_of (dv_payload w)) 0) = k"
      "be16_read (padd (ptr_of (dv_payload w)) 2) = idx" "idx < k" "unat k \<le> kFecMaxSymbols"
      using s False by (auto simp: symbol_index_def Let_def not_le not_less split: if_splits)
    have "bm_bit_set (crv_missing_sources v) ((unat k + 7) div 8) (unat idx)"
      using wt i(4) by (simp add: wanted_def k)
    then have "bm32_bit_set (rp_missing_sources cand) (unat idx)"
      using i(4,5) by (auto simp: bm_bit_set_def bm32_bit_set_def ms word_less_nat_alt)
    then show ?thesis
      using False i by (auto simp: check_symbol_def Let_def outstanding_for_def k)
  qed
  then show ?thesis
    using b by (simp add: reply_fits_def check_symbol_accepts outstanding_for_def)
qed

section \<open>The node's side\<close>

text \<open>The cache answers a request with one reply packet per symbol.\<close>

definition reply_frame :: "u16 \<Rightarrow> u32 \<Rightarrow> cache_request_header \<Rightarrow> bytes \<Rightarrow> bytes option" where
  "reply_frame self session h p =
     encode_cache_reply \<lparr>originator = self, destination = originator (cr_prefix h), session_id = session\<rparr> (cr_request_id h)
       (Some p) (of_nat (length p)) (Some (kCacheReplyFixedSize + kDataHeaderSize + kMaxDataPayload))"

definition serve_request :: "u16 \<Rightarrow> u32 \<Rightarrow> cache_request_view \<Rightarrow> u64 \<Rightarrow> CacheStore \<Rightarrow> CacheStore \<times> bytes list" where
  "serve_request self session rq now_ms c =
     (case answer c rq now_ms of
        (verdict, c1, pkts) \<Rightarrow>
          if verdict \<noteq> cv_kAnswered then (c1, [])
          else (c1, List.map_filter (reply_frame self session (crv_hdr rq)) pkts))"

text \<open>The receiver reads a status or a reply off the repair socket. \<open>known\<close> says whether an
  originator's endpoint is the sender; \<open>keys\<close> are the latched streams. The last component is
  the block the receive engine is told to be complete.\<close>

definition handle_cache_datagram :: "(u16 \<Rightarrow> bool) \<Rightarrow> u8 \<Rightarrow> StreamKey list \<Rightarrow> egress \<Rightarrow> u64 \<Rightarrow> u64 \<Rightarrow> bytes
    \<Rightarrow> CacheController \<Rightarrow> FrameReassembler \<Rightarrow> CacheController \<times> FrameReassembler \<times> emission list \<times> u32 option" where
  "handle_cache_datagram known sid keys emit service_ms reply_us dg ctl ra =
     (let skip = (ctl, ra, [], None) in
      case decode (Some (ptr_of dg)) (length dg) of
        Inr (PCacheStatus st) \<Rightarrow>
          if known (originator (cs_prefix st)) then (on_status st service_ms ctl, ra, [], None) else skip
      | Inr (PCacheReply rv) \<Rightarrow>
          if \<not> known (originator (cp_prefix rv)) then skip
          else (case wrapped (cp_wrapped rv) of
                  None \<Rightarrow> skip
                | Some wv \<Rightarrow>
                    if stream_id (dv_hdr wv) \<noteq> sid \<or> sender_key wv \<notin> set keys then skip
                    else (case on_reply (originator (cp_prefix rv)) (cp_request_id rv) wv reply_us ctl of
                            (verdict, ctl1) \<Rightarrow>
                              if verdict \<noteq> rv_kAccept then (ctl1, ra, [], None)
                              else (case ra_push ra (block_id (dv_hdr wv)) (data_flags (dv_hdr wv)) (dv_payload wv)
                                           service_ms emit False of
                                      (emitted, ra1, es) \<Rightarrow>
                                        if emitted then (note_completed (block_id (dv_hdr wv)) reply_us ctl1, ra1, es,
                                                         Some (block_id (dv_hdr wv)))
                                        else (ctl1, ra1, es, None))))
      | _ \<Rightarrow> skip)"

text \<open>Requests go out for the configured stream; \<open>send\<close> says whether the datagram left.\<close>

definition request_repairs :: "u8 \<Rightarrow> StreamKey list \<Rightarrow> (CacheRequestOut \<Rightarrow> bool) \<Rightarrow> u64 \<Rightarrow> u64 \<Rightarrow> FrameReassembler
    \<Rightarrow> CacheController \<Rightarrow> CacheController \<times> CacheRequestOut list" where
  "request_repairs sid keys send service_ms now_us ra ctl =
     (case find (\<lambda>k. sk_stream_id k = sid) keys of
        None \<Rightarrow> (ctl, [])
      | Some k \<Rightarrow>
          (case ctl_tick service_ms k (cands_of ra) ctl of
             (ctl1, out) \<Rightarrow>
               let sent = filter send out
               in (fold (\<lambda>r c. note_request_sent (ro_request_id r) now_us c) sent ctl1, sent)))"

text \<open>The cache is moved to another vehicle when the gate, the channel list and the radio agree.\<close>

definition apply_assignment :: "(u16 \<Rightarrow> bool) \<Rightarrow> (u16 \<Rightarrow> u8 \<Rightarrow> bool) \<Rightarrow> cache_assign \<Rightarrow> CacheAssignmentGate \<Rightarrow> CacheStore
    \<Rightarrow> CacheAssignmentGate \<times> CacheStore" where
  "apply_assignment allowed retune a g c =
     (if ag_evaluate g a \<noteq> av_kApply \<or> \<not> allowed (ca_target_chan a) then (g, c)
      else if \<not> retune (ca_target_chan a) (ca_target_bw a) then (g, c)
      else (ag_commit a g, assign_target (ca_target_originator a) c))"

definition kIpTransport :: u8 where
  "kIpTransport = 1"

definition status_packet :: "u16 \<Rightarrow> u32 \<Rightarrow> StatusEntry \<Rightarrow> cache_status" where
  "status_packet self session se =
     \<lparr>cs_prefix = \<lparr>originator = self, destination = 0, session_id = session\<rparr>,
      cs_target_originator = sk_originator (se_key se), cs_target_session = sk_session_id (se_key se),
      cs_target_stream_id = se_stream_id se, cs_oldest_block = se_oldest_block se, cs_newest_block = se_newest_block se,
      cs_rx_health_permille = se_rx_health_permille se, cs_capability_flags = kIpTransport\<rparr>"

section \<open>From end to end\<close>

text \<open>A reply as the receiver reads it.\<close>

definition reply_of :: "u64 \<Rightarrow> bytes \<Rightarrow> reply" where
  "reply_of now_us f = (case decode (Some (ptr_of f)) (length f) of
     Inr (PCacheReply rv) \<Rightarrow> (case wrapped (cp_wrapped rv) of
        Some v \<Rightarrow> (originator (cp_prefix rv), cp_request_id rv, v, now_us)))"

lemma decode_Data_length:
  assumes "wrapped p = Some v"
  shows "kDataHeaderSize \<le> length p" and "length p \<le> kDataHeaderSize + kMaxDataPayload"
proof -
  have d: "decode (Some (ptr_of p)) (length p) = Inr (PData v)"
    using assms by (auto simp: wrapped_def split: sum.splits packet.splits)
  have c: "canonical (PData v) (ptr_of p) (length p)"
    by (rule decode_canonical_aux [OF d]) simp
  then have "length (dv_payload v) \<le> kMaxDataPayload"
    by (simp add: canonical_def)
  moreover have "length p = kDataHeaderSize + length (dv_payload v)"
    using c arg_cong [of "Some (read_bytes (ptr_of p) 0 (length p))" _ "map_option length"]
    by (auto simp: canonical_def encode_data_def Let_def memcpy_def unat_of_nat_small split: if_splits dest!: arg_cong [of _ _ length])
  ultimately show "kDataHeaderSize \<le> length p" "length p \<le> kDataHeaderSize + kMaxDataPayload"
    by simp_all
qed

lemma reply_frame_wrapped:
  assumes "wrapped p = Some v"
  obtains f where "reply_frame self session h p = Some f" and "reply_of now_us f = (self, cr_request_id h, v, now_us)"
proof -
  note l = decode_Data_length [OF assms]
  have n: "unat (of_nat (length p) :: u16) = length p"
    using l by (simp add: unat_of_nat_small)
  obtain f where f: "reply_frame self session h p = Some f"
    using l n by (simp add: reply_frame_def encode_cache_reply_def out_ok_def Let_def)
  have "roundtrips (reply_frame self session h p) (PCacheReply \<lparr>cp_prefix = \<lparr>originator = self,
      destination = originator (cr_prefix h), session_id = session\<rparr>, cp_request_id = cr_request_id h, cp_wrapped = p\<rparr>)"
    unfolding reply_frame_def by (rule roundtrip_cache_reply) (simp add: n)
  then show ?thesis
    using that [OF f] assms f by (simp add: roundtrips_def reply_of_def)
qed

lemma answer_cfg: "cache_cfg (fst (snd (answer c rq now_ms))) = cache_cfg c"
  by (simp add: answer_def Let_def split: option.split)

lemma note_data_cfg: "cache_cfg (note_data v f c) = cache_cfg c"
  by (simp add: note_data_def Let_def refresh_gauges_def split: option.split prod.split)

lemma store_step_self: "cg_self_originator (cache_cfg (store_step ev c)) = cg_self_originator (cache_cfg c)"
  by (cases ev) (simp_all add: answer_cfg note_data_cfg assign_target_def cache_reset_stats_def split: option.split)

lemma store_run_self: "cg_self_originator (cache_cfg (fold store_step evs c)) = cg_self_originator (cache_cfg c)"
  by (induction evs arbitrary: c) (simp_all add: store_step_self)

lemma answered_self: "answer c rq now_ms = (cv_kAnswered, c', out) \<Longrightarrow> cr_target_cache (crv_hdr rq) = cg_self_originator (cache_cfg c)"
  by (auto simp: answer_def Let_def split: if_splits)

text \<open>Every reply frame of an answered request is read back and accepted.\<close>

lemma served_replies:
  assumes "cache_ok c" and a: "answer c rq now_ms = (cv_kAnswered, c', out)"
    and fs_def: "fs = List.map_filter (reply_frame self session (crv_hdr rq)) out"
  shows "length fs = length out"
    and "\<forall>(frm, rid, v, t) \<in> set (map (reply_of now_us) fs). frm = self \<and> rid = cr_request_id (crv_hdr rq)
      \<and> block_id (dv_hdr v) = cr_block_id (crv_hdr rq)
      \<and> (\<exists>idx. symbol_index v = Some (cr_window_len (crv_hdr rq), idx) \<and> wanted rq (cr_window_len (crv_hdr rq)) idx)"
proof -
  have each: "\<exists>v f. wrapped p = Some v \<and> reply_frame self session (crv_hdr rq) p = Some f
      \<and> reply_of now_us f = (self, cr_request_id (crv_hdr rq), v, now_us) \<and> block_id (dv_hdr v) = cr_block_id (crv_hdr rq)
      \<and> (\<exists>idx. symbol_index v = Some (cr_window_len (crv_hdr rq), idx) \<and> wanted rq (cr_window_len (crv_hdr rq)) idx)"
    if p: "p \<in> set out" for p
  proof -
    obtain v where v: "wrapped p = Some v" "block_id (dv_hdr v) = cr_block_id (crv_hdr rq)"
      "symbol_index v = Some (cr_window_len (crv_hdr rq), symbol_no p)" "wanted rq (cr_window_len (crv_hdr rq)) (symbol_no p)"
      using answer_exact(4) [OF assms(1) a p] by (auto simp: carries_def split: option.splits)
    obtain f where "reply_frame self session (crv_hdr rq) p = Some f" "reply_of now_us f = (self, cr_request_id (crv_hdr rq), v, now_us)"
      using reply_frame_wrapped [OF v(1)] .
    with v show ?thesis
      by blast
  qed
  then have "\<forall>p \<in> set out. reply_frame self session (crv_hdr rq) p \<noteq> None"
    by blast
  then show "length fs = length out"
    by (simp add: fs_def List.map_filter_def filter_id_conv [THEN iffD2])
  show "\<forall>(frm, rid, v, t) \<in> set (map (reply_of now_us) fs). frm = self \<and> rid = cr_request_id (crv_hdr rq)
      \<and> block_id (dv_hdr v) = cr_block_id (crv_hdr rq)
      \<and> (\<exists>idx. symbol_index v = Some (cr_window_len (crv_hdr rq), idx) \<and> wanted rq (cr_window_len (crv_hdr rq)) idx)"
    using each by (fastforce simp: fs_def List.map_filter_def)
qed

text \<open>C23: Cooperative repair, end to end: a request that a CacheController issues at a tick (after
  any run of n events with 16 n + 17 below 2^32, so that request ids have not wrapped) is read
  back from the wire by a cache, whose CacheStore (after any run of heard frames, requests and
  assignments) answers it; the node wraps every answered frame in a reply packet, none is lost,
  and the controller accepts every one of the replies.\<close>

theorem cache_repair_end_to_end:
  assumes run: "ctl_run evs (new_cache_controller cfg) = (ctl, log)" and few: "16 * length evs + 17 < 2 ^ 32"
    and tick: "ctl_tick now_ms target (cands_of ra) ctl = (ctl', out)" and r: "r \<in> set out"
    and rq: "request_of r = Some rq"
    and store: "store = fold store_step sevs (new_cache_store scfg)"
    and ans: "answer store rq cache_ms = (cv_kAnswered, store', pkts)"
  shows "let fs = snd (serve_request (cg_self_originator scfg) session rq cache_ms store)
         in length fs = length pkts \<and> fst (reply_run (map (reply_of now_us) fs) ctl') = replicate (length fs) rv_kAccept"
proof -
  have ids: "ids_ok ctl \<and> om_ok (ctl_blocks ctl) \<and> unat (ctl_next_request_id ctl) \<le> 1 + 16 * length evs"
    using ctl_run_ids [OF ids_ok_new(1,2) _ run] few by (simp add: ids_ok_new)
  obtain cand where "awaiting now_ms target cand ctl' r" and okO: "om_ok (ctl_outstanding ctl')"
    using ctl_tick_ids [OF _ _ _ tick] ids few r by (auto simp: ids_ok_def)
  then have p: "candidate_arrays cand"
     "crv_missing_sources rq = take ((unat (cr_window_len (crv_hdr rq)) + 7) div 8) (rp_missing_sources cand)"
     "crv_repair_have rq = take (trimmed (rp_have_repairs cand) 32) (rp_have_repairs cand)"
     "cr_request_id (crv_hdr rq) = ro_request_id r"
     "map_of (ctl_outstanding ctl') (ro_request_id r) = Some (outstanding_for now_ms cand (crv_hdr rq))"
    using rq by (simp_all add: awaiting_def)
  have ok: "cache_ok store"
    unfolding store by (rule cache_ok_run) (rule cache_ok_new)
  have self: "cr_target_cache (crv_hdr rq) = cg_self_originator scfg"
    using answered_self [OF ans] store_run_self by (simp add: store new_cache_store_def)
  define fs where "fs = List.map_filter (reply_frame (cg_self_originator scfg) session (crv_hdr rq)) pkts"
  note served = served_replies [OF ok ans fs_def]
  have "fst (reply_run (map (reply_of now_us) fs) ctl') = replicate (length (map (reply_of now_us) fs)) rv_kAccept"
  proof (rule reply_run_all_accepted [OF okO p(5)])
    show "unat (os_accepted (outstanding_for now_ms cand (crv_hdr rq))) + length (map (reply_of now_us) fs)
      \<le> unat (os_allowance (outstanding_for now_ms cand (crv_hdr rq)))"
      using answer_exact(1) [OF ok ans] served(1) by (simp add: outstanding_for_def)
    show "\<forall>(frm, rid', v, t) \<in> set (map (reply_of now_us) fs). rid' = ro_request_id r
      \<and> reply_fits (outstanding_for now_ms cand (crv_hdr rq)) frm v"
      using served(2) [of now_us] p(4) wanted_fits [OF _ _ refl _ p(1,2,3)] self by fastforce
  qed
  moreover have "snd (serve_request (cg_self_originator scfg) session rq cache_ms store) = fs"
    by (simp add: serve_request_def ans fs_def)
  ultimately show ?thesis
    using served(1) by (simp add: Let_def)
qed

section \<open>Assignments\<close>

text \<open>An assignment that takes effect is newer than the current one of the same controller session,
  and is not of one of the last eight sessions that were replaced. The store moves with the gate.\<close>

lemma apply_assignment_epoch:
  assumes a: "apply_assignment allowed retune a g c = (g', c')" and cur: "ag_current g = Some cur"
    and change: "g' \<noteq> g"
  shows "ag_current g' = Some a" and "c' = assign_target (ca_target_originator a) c"
    and "session_id (ca_prefix a) = session_id (ca_prefix cur) \<Longrightarrow> ca_assignment_epoch cur < ca_assignment_epoch a"
    and "session_id (ca_prefix a) \<noteq> session_id (ca_prefix cur) \<Longrightarrow> \<not> retired g (session_id (ca_prefix a))
      \<and> retired g' (session_id (ca_prefix cur))"
proof -
  have ev: "ag_evaluate g a = av_kApply" and g': "g' = ag_commit a g" and c': "c' = assign_target (ca_target_originator a) c"
    using a change by (auto simp: apply_assignment_def split: if_splits)
  show "ag_current g' = Some a" "c' = assign_target (ca_target_originator a) c"
    by (simp_all add: g' c' ag_commit_def Let_def)
  have ev': "if session_id (ca_prefix a) \<noteq> session_id (ca_prefix cur) then \<not> retired g (session_id (ca_prefix a))
      else ca_assignment_epoch cur < ca_assignment_epoch a"
    using ev by (simp add: ag_evaluate_def cur split: if_splits)
  then show "ca_assignment_epoch cur < ca_assignment_epoch a" if "session_id (ca_prefix a) = session_id (ca_prefix cur)"
    using that by simp
  show "\<not> retired g (session_id (ca_prefix a)) \<and> retired g' (session_id (ca_prefix cur))"
    if other: "session_id (ca_prefix a) \<noteq> session_id (ca_prefix cur)"
  proof -
    have "session_id (ca_prefix cur) \<in> set (drop (length xs + 1 - 8) (xs @ [session_id (ca_prefix cur)]))" for xs :: "u32 list"
      by (simp add: drop_Cons' split: nat.split)
    then show ?thesis
      using other ev' by (simp add: g' ag_commit_def cur Let_def retired_def)
  qed
qed

section \<open>Example\<close>

definition rep_store_cfg :: CacheStoreConfig where
  "rep_store_cfg = \<lparr>cg_self_originator = 9, cg_target_originator = 0, cg_stream_ids = [1], cg_blocks = 96, cg_reply_limit = 4,
     cg_max_requests_per_s = 400, cg_health_window_blocks = 90\<rparr>"

definition rep_view :: data_view where
  "rep_view = \<lparr>dv_hdr = \<lparr>dh_prefix = \<lparr>originator = 5, destination = 0, session_id = 6\<rparr>, stream_id = 1, stream_type = 0, seq_no = 20,
     block_id = 7, data_flags = 0, active_profile = 0, table_version = 0\<rparr>, dv_payload = [0, 1, 0, 0, 42]\<rparr>"

definition rep_packet :: bytes where
  "rep_packet = the (encode_data (dv_hdr rep_view) (Some (dv_payload rep_view)) 5 (Some 31))"

lemma rep_wrapped: "wrapped rep_packet = Some rep_view"
proof -
  have "encode_data (dv_hdr rep_view) (Some (dv_payload rep_view)) 5 (Some 31) = Some rep_packet"
    by (simp add: rep_packet_def encode_data_def out_ok_def null_with_len_def)
  then show ?thesis
    using roundtrip_data [of "dv_payload rep_view" 5 "dv_hdr rep_view" "Some 31"]
    by (simp add: roundtrips_def wrapped_def rep_view_def)
qed

lemma rep_packet_ne: "rep_packet \<noteq> []"
  by (simp add: rep_packet_def encode_data_def out_ok_def null_with_len_def)

lemma rep_answer: "fst (answer (fold store_step [Heard rep_packet] (new_cache_store rep_store_cfg))
    \<lparr>crv_hdr = rep_hdr, crv_missing_sources = [1], crv_repair_have = []\<rparr> 101) = cv_kAnswered
  \<and> snd (snd (answer (fold store_step [Heard rep_packet] (new_cache_store rep_store_cfg))
    \<lparr>crv_hdr = rep_hdr, crv_missing_sources = [1], crv_repair_have = []\<rparr> 101)) = [rep_packet]"
  using rep_packet_ne
  by (simp add: rep_wrapped note_data_def rep_view_def rep_store_cfg_def new_cache_store_def tracked_def symbol_index_def has_flag_def
      be16_read_def padd_def ptr_of_def Let_def own_stream_def empty_stream_state_def open_block_def om_has_def empty_block_entry_def
      store_symbol_def refresh_gauges_def answer_def rep_hdr_def touch_requester_def empty_requester_def roll_window_def admit_request_def
      wanted_def bm_bit_set_def)

theorem cache_repair_end_to_end_witness:
  "fst (reply_run (map (reply_of 0) (snd (serve_request 9 8 \<lparr>crv_hdr = rep_hdr, crv_missing_sources = [1], crv_repair_have = []\<rparr> 101
     (fold store_step [Heard rep_packet] (new_cache_store rep_store_cfg)))))
     (fst (ctl_tick 100 rep_key (cands_of rep_ra) rep_ctl))) = [rv_kAccept]"
proof -
  obtain store' where a: "answer (fold store_step [Heard rep_packet] (new_cache_store rep_store_cfg))
    \<lparr>crv_hdr = rep_hdr, crv_missing_sources = [1], crv_repair_have = []\<rparr> 101 = (cv_kAnswered, store', [rep_packet])"
    using rep_answer by (metis prod.collapse)
  have t: "ctl_tick 100 rep_key (cands_of rep_ra) rep_ctl = (fst (ctl_tick 100 rep_key (cands_of rep_ra) rep_ctl),
    [\<lparr>ro_cache_originator = 9, ro_request_id = 1, ro_block_id = 7, ro_frame = rep_frame\<rparr>])"
    using rep_tick by (metis prod.collapse)
  have self: "cg_self_originator rep_store_cfg = 9"
    by (simp add: rep_store_cfg_def)
  show ?thesis
    using cache_repair_end_to_end [OF rep_run _ t _ rep_request refl a, of 8 0] by (simp add: self Let_def)
qed

end
