(* ===== verification/Selector.thy ===== *)
theory Selector
  imports Profile_Table Wire_Types
begin

text \<open>
  core/include/wblink/selector.h and core/src/selector.cpp: the transmitter's adaptive rate
  selector. It climbs and descends the ladder of profiles on the receiver's reports, sequences the
  bitrate against the modulation, and falls back to a safe floor when reports stop.

  The smoothing filters of the selector are \<open>double\<close> arithmetic. The operations on \<open>double\<close> are an
  argument of the model (\<open>fp\<close>); nothing is assumed of them, so every theorem holds for IEEE
  arithmetic with its rounding. Times are 64-bit words and wrap.
\<close>

section \<open>Floating point\<close>

record 'd fp =
  fp_of_int :: "int \<Rightarrow> 'd"
  fp_add :: "'d \<Rightarrow> 'd \<Rightarrow> 'd"
  fp_sub :: "'d \<Rightarrow> 'd \<Rightarrow> 'd"
  fp_mul :: "'d \<Rightarrow> 'd \<Rightarrow> 'd"
  fp_div :: "'d \<Rightarrow> 'd \<Rightarrow> 'd"
  fp_neg :: "'d \<Rightarrow> 'd"
  fp_le :: "'d \<Rightarrow> 'd \<Rightarrow> bool"
  fp_lt :: "'d \<Rightarrow> 'd \<Rightarrow> bool"
  fp_trunc :: "'d \<Rightarrow> int"

section \<open>Policy and state\<close>

record 'd SelectorPolicy =
  sp_demote_milli :: u16
  sp_emergency_loss_milli :: u16
  sp_loss_min_uniq :: u32
  sp_loss_persist_score :: u8
  sp_rung_lockout_ms :: u32
  sp_rung_lockout_latch_count :: u8
  sp_rssi_floor_dbm :: u8
  sp_rssi_fade_db_per_s :: 'd
  sp_rssi_fade_arm_dbm :: u8
  sp_fade_ticks :: u8
  sp_down_cooldown_ms :: u32
  sp_ewma_alpha :: 'd
  sp_slope_alpha :: 'd
  sp_rung_rssi_floor_dbm :: "u8 list"
  sp_promote_rssi_hyst_db :: 'd
  sp_promote_dwell_ms :: u32
  sp_verdict_ttl_ms :: u32
  sp_probe_veto_permille :: u16
  sp_probe_veto_ttl_ms :: u32
  sp_bitrate_lead_ms :: u32
  sp_mcs_up_grace_ms :: u32
  sp_mcs_settle_ms :: u32
  sp_reentry_backoff_ms :: u32
  sp_reentry_dwell_ms :: u32
  sp_flap_freeze_count :: u8
  sp_flap_freeze_window_ms :: u32
  sp_flap_freeze_ms :: u32
  sp_min_profile :: u8
  sp_max_profile :: u8
  sp_max_bitrate_kbps :: u32
  sp_report_timeout_ms :: u32
  sp_failsafe_hold_ms :: u32
  sp_failsafe_step_ms :: u32
  sp_pressure_escape_ms :: u32

datatype SelectorReason = sr_kNone | sr_kBoot | sr_kLossEmergency | sr_kLossPersistent | sr_kReportTimeout
  | sr_kRssiFloor | sr_kRssiFade | sr_kBackpressure | sr_kPromote | sr_kRepin | sr_kEnvironmentReset

datatype Phase = ph_kBoot | ph_kIdle | ph_kBitrateLead | ph_kMcsGrace

record SelectorLockout =
  lk_active :: bool
  lk_latched :: bool
  lk_conflict :: bool
  lk_profile :: u8
  lk_ceiling_profile :: u8
  lk_strikes :: u8
  lk_remaining_ms :: u32
  lk_active_mask :: u8
  lk_latched_mask :: u8

record ProfileCommit =
  pc_profile_id :: u8
  pc_mcs :: u8
  pc_gi :: GuardInterval
  pc_tx_power_level :: u8

record SelectorActions =
  sa_commit :: "ProfileCommit option"
  sa_bitrate_kbps :: "u32 option"

record RungLossState =
  rl_score :: u8
  rl_strikes :: u8
  rl_blocked_until_ms :: u64
  rl_latched :: bool

text \<open>\<open>sl_profiles\<close> and \<open>sl_floor_profile\<close> are the table behind the pointer; a null table is an empty
  ladder.\<close>

record 'd Selector =
  sl_policy :: "'d SelectorPolicy"
  sl_profiles :: "Profile list"
  sl_floor_profile :: u8
  sl_rung :: nat
  sl_phase :: Phase
  sl_pending_target :: nat
  sl_phase_deadline_ms :: u64
  sl_last_change_ms :: u64
  sl_last_demote_ms :: u64
  sl_bitrate_kbps :: u32
  sl_report_source :: "(u16 \<times> u32) option"
  sl_last_epoch :: u32
  sl_last_report_ms :: u64
  sl_have_report :: bool
  sl_have_smoothing :: bool
  sl_rssi_ewma :: 'd
  sl_loss_ewma_milli :: 'd
  sl_slope_ewma :: 'd
  sl_prev_rssi :: 'd
  sl_prev_report_ms :: u64
  sl_fade_ticks :: u8
  sl_rung_loss :: "RungLossState list"
  sl_loss_window_milli :: u16
  sl_loss_uniq :: u32
  sl_loss_observed_rung :: nat
  sl_emergency_pending :: bool
  sl_demote_times :: "u64 list"
  sl_freeze_until_ms :: u64
  sl_demoted_from_ms :: "u64 list"
  sl_promoted_into_ms :: "u64 list"
  sl_verdict :: u8
  sl_verdict_ms :: u64
  sl_promote_blocked_saturated :: u64
  sl_probe_per :: u16
  sl_probe_per_ms :: u64
  sl_promote_blocked_probe :: u64
  sl_csa_freeze_until_ms :: u64
  sl_failsafe_next_step_ms :: u64
  sl_pressure :: bool
  sl_pressure_since_ms :: u64
  sl_rf_environment :: "(u16 \<times> u8) option"
  sl_state :: string
  sl_reason :: SelectorReason

definition kNoProbe :: u16 where
  "kNoProbe = 0xFFFF"

definition kSaturated :: u8 where
  "kSaturated = 2"

definition no_actions :: SelectorActions where
  "no_actions = \<lparr>sa_commit = None, sa_bitrate_kbps = None\<rparr>"

definition zero_rung_loss :: RungLossState where
  "zero_rung_loss = \<lparr>rl_score = 0, rl_strikes = 0, rl_blocked_until_ms = 0, rl_latched = False\<rparr>"

section \<open>The bitrate budget\<close>

definition kHt20LgiKbps :: "u64 list" where
  "kHt20LgiKbps = [6500, 13000, 19500, 26000, 39000, 52000, 58500, 65000]"

text \<open>The subtraction \<open>1000 - fec_overhead_permille\<close> is a signed one whose result is converted to
  64 bits.\<close>

definition derive_bitrate_kbps :: "Profile \<Rightarrow> u32" where
  "derive_bitrate_kbps p =
     (if 8 \<le> pf_mcs p then pf_bitrate_min_kbps p
      else let k0 = kHt20LgiKbps ! unat (pf_mcs p);
               k1 = (if pf_gi p = gi_kShort then k0 * 10 div 9 else k0);
               k2 = k1 * ucast (pf_airtime_budget_permille p) div 1000;
               k3 = k2 * of_int (1000 - uint (pf_fec_overhead_permille p)) div 1000;
               reserve = ((ucast (pf_reserve_control_bps p) + ucast (pf_reserve_telemetry_bps p)) :: u64) div 1000;
               k4 = (if reserve < k3 then k3 - reserve else 0)
           in ucast (max k4 (ucast (pf_bitrate_min_kbps p))))"

definition clamp_bitrate_kbps :: "u32 \<Rightarrow> u32 \<Rightarrow> u32" where
  "clamp_bitrate_kbps derived mx = (if mx \<noteq> 0 \<and> mx < derived then mx else derived)"

section \<open>The ladder\<close>

definition ladder_size :: "'d Selector \<Rightarrow> nat" where
  "ladder_size s = length (sl_profiles s)"

fun rung_of_id_from :: "Profile list \<Rightarrow> u8 \<Rightarrow> nat \<Rightarrow> nat \<Rightarrow> nat" where
  "rung_of_id_from [] i r fallback = fallback"
| "rung_of_id_from (p # ps) i r fallback = (if pf_id p = i then r else rung_of_id_from ps i (r + 1) fallback)"

definition rung_of_id :: "'d Selector \<Rightarrow> u8 \<Rightarrow> nat \<Rightarrow> nat" where
  "rung_of_id s i fallback = rung_of_id_from (sl_profiles s) i 0 fallback"

definition clamp_rung :: "'d Selector \<Rightarrow> nat \<Rightarrow> nat" where
  "clamp_rung s r =
     (let n = ladder_size s in
      if n = 0 then 0
      else let lo0 = rung_of_id s (sp_min_profile (sl_policy s)) 0;
               hi = rung_of_id s (sp_max_profile (sl_policy s)) (n - 1);
               lo = (if hi < lo0 then hi else lo0)
           in if r < lo then lo else if hi < r then hi else r)"

definition floor_rung :: "'d Selector \<Rightarrow> nat" where
  "floor_rung s = rung_of_id_from (sl_profiles s) (sl_floor_profile s) 0 0"

definition safe_floor_rung :: "'d Selector \<Rightarrow> nat" where
  "safe_floor_rung s = max (clamp_rung s 0) (clamp_rung s (floor_rung s))"

definition rung_locked :: "'d Selector \<Rightarrow> nat \<Rightarrow> u64 \<Rightarrow> bool" where
  "rung_locked s r now_ms \<longleftrightarrow> r < length (sl_rung_loss s)
     \<and> (rl_latched (sl_rung_loss s ! r) \<or> now_ms < rl_blocked_until_ms (sl_rung_loss s ! r))"

text \<open>The ceiling below the lowest locked rung, and whether the lockout conflicts with the pin.\<close>

definition lockout_ceiling_rung :: "'d Selector \<Rightarrow> u64 \<Rightarrow> nat \<Rightarrow> nat \<Rightarrow> nat \<times> bool" where
  "lockout_ceiling_rung s now_ms lo hi =
     (case find (\<lambda>r. rung_locked s r now_ms) [0..<min (Suc hi) (length (sl_rung_loss s))] of
        None \<Rightarrow> (hi, False)
      | Some r \<Rightarrow> if r \<le> lo then (hi, True) else (r - 1, False))"

text \<open>The ceiling the climbing rules honour.\<close>

definition adaptive_hi :: "'d Selector \<Rightarrow> u64 \<Rightarrow> nat \<Rightarrow> nat \<Rightarrow> nat" where
  "adaptive_hi s now_ms lo hi =
     (let (ceiling, conflict) = lockout_ceiling_rung s now_ms lo hi in if conflict then hi else min hi ceiling)"

definition effective_ceiling_profile :: "'d Selector \<Rightarrow> u64 \<Rightarrow> u8" where
  "effective_ceiling_profile s now_ms =
     (if ladder_size s = 0 then sp_max_profile (sl_policy s)
      else pf_id (sl_profiles s ! adaptive_hi s now_ms (clamp_rung s 0) (clamp_rung s (ladder_size s - 1))))"

definition blank_selector :: "'d fp \<Rightarrow> 'd SelectorPolicy \<Rightarrow> Profile list \<Rightarrow> u8 \<Rightarrow> 'd Selector" where
  "blank_selector F policy ps floor_profile =
     (let zero = fp_of_int F 0 in
      \<lparr>sl_policy = policy, sl_profiles = ps,
               sl_floor_profile = floor_profile,
               sl_rung = 0, sl_phase = ph_kBoot, sl_pending_target = 0, sl_phase_deadline_ms = 0, sl_last_change_ms = 0,
               sl_last_demote_ms = 0, sl_bitrate_kbps = 0, sl_report_source = None, sl_last_epoch = 0,
               sl_last_report_ms = 0, sl_have_report = False, sl_have_smoothing = False, sl_rssi_ewma = zero,
               sl_loss_ewma_milli = zero, sl_slope_ewma = zero, sl_prev_rssi = zero, sl_prev_report_ms = 0,
               sl_fade_ticks = 0, sl_rung_loss = replicate (length ps) zero_rung_loss, sl_loss_window_milli = 0,
               sl_loss_uniq = 0, sl_loss_observed_rung = 0, sl_emergency_pending = False, sl_demote_times = [],
               sl_freeze_until_ms = 0, sl_demoted_from_ms = replicate (length ps) 0,
               sl_promoted_into_ms = replicate (length ps) 0, sl_verdict = 0, sl_verdict_ms = 0,
               sl_promote_blocked_saturated = 0, sl_probe_per = kNoProbe, sl_probe_per_ms = 0,
               sl_promote_blocked_probe = 0, sl_csa_freeze_until_ms = 0, sl_failsafe_next_step_ms = 0,
               sl_pressure = False, sl_pressure_since_ms = 0, sl_rf_environment = None, sl_state = ''BOOT'',
               sl_reason = sr_kBoot\<rparr>)"

definition new_selector :: "'d fp \<Rightarrow> 'd SelectorPolicy \<Rightarrow> ProfileTable option \<Rightarrow> 'd Selector" where
  "new_selector F policy table =
     (let s = (case table of None \<Rightarrow> blank_selector F policy [] 0
               | Some t \<Rightarrow> blank_selector F policy (pt_profiles t) (pt_floor_profile t))
      in s\<lparr>sl_rung := safe_floor_rung s\<rparr>)"

section \<open>Observation\<close>

definition sl_profile_id :: "'d Selector \<Rightarrow> u8" where
  "sl_profile_id s = (if 0 < ladder_size s then pf_id (sl_profiles s ! sl_rung s) else 0)"

definition sl_mcs :: "'d Selector \<Rightarrow> u8" where
  "sl_mcs s = (if 0 < ladder_size s then pf_mcs (sl_profiles s ! sl_rung s) else 0)"

definition sl_tx_power_level :: "'d Selector \<Rightarrow> u8" where
  "sl_tx_power_level s = (if 0 < ladder_size s then pf_tx_power_level (sl_profiles s ! sl_rung s) else 0)"

definition loss_ewma_milli :: "'d fp \<Rightarrow> 'd Selector \<Rightarrow> u16" where
  "loss_ewma_milli F s =
     (let x = sl_loss_ewma_milli s; lo = fp_of_int F 0; hi = fp_of_int F 1000;
          bounded = (if fp_lt F x lo then lo else if fp_lt F hi x then hi else x)
      in of_int (fp_trunc F (fp_add F bounded (fp_div F (fp_of_int F 1) (fp_of_int F 2)))))"

definition loss_score :: "'d Selector \<Rightarrow> u8" where
  "loss_score s = (if sl_rung s < length (sl_rung_loss s) then rl_score (sl_rung_loss s ! sl_rung s) else 0)"

definition safe_floor_profile :: "'d Selector \<Rightarrow> u8" where
  "safe_floor_profile s =
     (if safe_floor_rung s < ladder_size s then pf_id (sl_profiles s ! safe_floor_rung s) else 0)"

definition rung_mask :: "(nat \<Rightarrow> bool) \<Rightarrow> nat \<Rightarrow> u8" where
  "rung_mask P n = fold (\<lambda>r m. if P r then m OR push_bit r 1 else m) [0..<min n 8] 0"

definition sl_lockout :: "'d Selector \<Rightarrow> u64 \<Rightarrow> SelectorLockout" where
  "sl_lockout s now_ms =
     (let n = length (sl_rung_loss s);
          out = \<lparr>lk_active = False, lk_latched = False, lk_conflict = False, lk_profile = 0xFF, lk_ceiling_profile = 0,
                 lk_strikes = 0, lk_remaining_ms = 0, lk_active_mask = rung_mask (\<lambda>r. rung_locked s r now_ms) n,
                 lk_latched_mask = rung_mask (\<lambda>r. rl_latched (sl_rung_loss s ! r)) n\<rparr>
      in if ladder_size s = 0 then out
      else let lo = clamp_rung s 0; hi = clamp_rung s (ladder_size s - 1);
               (ceiling, conflict) = lockout_ceiling_rung s now_ms lo hi;
               out1 = out\<lparr>lk_conflict := conflict, lk_ceiling_profile := pf_id (sl_profiles s ! ceiling)\<rparr>
      in case find (\<lambda>r. rung_locked s r now_ms) [0..<min (Suc hi) n] of
           None \<Rightarrow> out1
         | Some r \<Rightarrow>
             let rs = sl_rung_loss s ! r
             in out1\<lparr>lk_active := True, lk_latched := rl_latched rs, lk_profile := pf_id (sl_profiles s ! r),
                     lk_strikes := rl_strikes rs,
                     lk_remaining_ms := (if \<not> rl_latched rs \<and> now_ms < rl_blocked_until_ms rs
                        then ucast (min (rl_blocked_until_ms rs - now_ms) 0xFFFFFFFF) else 0)\<rparr>)"

definition report_age_ms :: "'d Selector \<Rightarrow> u64 \<Rightarrow> u64" where
  "report_age_ms s now_ms = (if \<not> sl_have_report s \<or> now_ms \<le> sl_last_report_ms s then 0 else now_ms - sl_last_report_ms s)"

definition flap_frozen :: "'d Selector \<Rightarrow> u64 \<Rightarrow> bool" where
  "flap_frozen s now_ms \<longleftrightarrow> now_ms < sl_freeze_until_ms s"

definition saturated_fresh :: "'d Selector \<Rightarrow> u64 \<Rightarrow> bool" where
  "saturated_fresh s now_ms \<longleftrightarrow> sl_verdict s = kSaturated \<and> sl_verdict_ms s \<noteq> 0 \<and> sl_verdict_ms s \<le> now_ms
     \<and> now_ms - sl_verdict_ms s < ucast (sp_verdict_ttl_ms (sl_policy s))"

definition probe_veto_fresh :: "'d Selector \<Rightarrow> u64 \<Rightarrow> bool" where
  "probe_veto_fresh s now_ms \<longleftrightarrow> sl_probe_per s \<noteq> kNoProbe \<and> sp_probe_veto_permille (sl_policy s) \<le> sl_probe_per s
     \<and> sl_probe_per_ms s \<noteq> 0 \<and> sl_probe_per_ms s \<le> now_ms
     \<and> now_ms - sl_probe_per_ms s < ucast (sp_probe_veto_ttl_ms (sl_policy s))"

section \<open>Intake\<close>

definition on_verdict :: "u8 \<Rightarrow> u64 \<Rightarrow> 'd Selector \<Rightarrow> 'd Selector" where
  "on_verdict v now_ms s = s\<lparr>sl_verdict := v, sl_verdict_ms := now_ms\<rparr>"

definition reset_environment_state :: "'d fp \<Rightarrow> u64 \<Rightarrow> 'd Selector \<Rightarrow> 'd Selector" where
  "reset_environment_state F now_ms s =
     (let zero = fp_of_int F 0
      in s\<lparr>sl_rung_loss := map (\<lambda>_. zero_rung_loss) (sl_rung_loss s), sl_loss_window_milli := 0, sl_loss_uniq := 0,
           sl_loss_observed_rung := sl_rung s, sl_emergency_pending := False, sl_have_smoothing := False,
           sl_rssi_ewma := zero, sl_loss_ewma_milli := zero, sl_slope_ewma := zero, sl_prev_rssi := zero,
           sl_prev_report_ms := 0, sl_fade_ticks := 0, sl_demote_times := [], sl_freeze_until_ms := 0,
           sl_demoted_from_ms := map (\<lambda>_. 0) (sl_demoted_from_ms s),
           sl_promoted_into_ms := map (\<lambda>_. 0) (sl_promoted_into_ms s),
           sl_failsafe_next_step_ms := 0, sl_last_demote_ms := 0, sl_last_change_ms := now_ms,
           sl_probe_per := kNoProbe, sl_probe_per_ms := 0\<rparr>)"

text \<open>The smoothing filters.\<close>

definition smooth_report :: "'d fp \<Rightarrow> link_report \<Rightarrow> u64 \<Rightarrow> 'd Selector \<Rightarrow> 'd Selector" where
  "smooth_report F r now_ms s =
     (let rssi = fp_of_int F (sint (lr_rssi_mean r)); loss = fp_of_int F (uint (lr_loss_postdiv_prearq r));
          pol = sl_policy s
      in if \<not> sl_have_smoothing s
         then s\<lparr>sl_rssi_ewma := rssi, sl_loss_ewma_milli := loss, sl_prev_rssi := rssi, sl_prev_report_ms := now_ms,
                sl_have_smoothing := True\<rparr>
         else let s1 = s\<lparr>sl_rssi_ewma := fp_add F (sl_rssi_ewma s) (fp_mul F (sp_ewma_alpha pol) (fp_sub F rssi (sl_rssi_ewma s))),
                         sl_loss_ewma_milli := fp_add F (sl_loss_ewma_milli s)
                           (fp_mul F (sp_ewma_alpha pol) (fp_sub F loss (sl_loss_ewma_milli s)))\<rparr>;
                  s2 = (if sl_prev_report_ms s < now_ms
                        then let dt_s = fp_div F (fp_of_int F (uint (now_ms - sl_prev_report_ms s))) (fp_of_int F 1000);
                                 slope = fp_div F (fp_sub F rssi (sl_prev_rssi s)) dt_s
                             in s1\<lparr>sl_slope_ewma := fp_add F (sl_slope_ewma s)
                                     (fp_mul F (sp_slope_alpha pol) (fp_sub F slope (sl_slope_ewma s)))\<rparr>
                        else s1)
              in s2\<lparr>sl_prev_rssi := rssi, sl_prev_report_ms := now_ms\<rparr>)"

definition arm_fade :: "'d fp \<Rightarrow> 'd Selector \<Rightarrow> 'd Selector" where
  "arm_fade F s =
     (let pol = sl_policy s
      in if fp_le F (sl_rssi_ewma s) (fp_of_int F (sint (sp_rssi_fade_arm_dbm pol)))
            \<and> fp_le F (sl_slope_ewma s) (fp_neg F (sp_rssi_fade_db_per_s pol))
         then s\<lparr>sl_fade_ticks := if sl_fade_ticks s < 255 then sl_fade_ticks s + 1 else sl_fade_ticks s\<rparr>
         else s\<lparr>sl_fade_ticks := 0\<rparr>)"

text \<open>The raw loss window and the leaky score of the current rung.\<close>

definition bump_score :: "u16 \<Rightarrow> u8 \<Rightarrow> u16 \<Rightarrow> RungLossState \<Rightarrow> RungLossState" where
  "bump_score demote_milli persist loss rs =
     (if demote_milli \<le> loss then (if rl_score rs < persist then rs\<lparr>rl_score := rl_score rs + 1\<rparr> else rs)
      else if 0 < rl_score rs then rs\<lparr>rl_score := rl_score rs - 1\<rparr> else rs)"

definition classify_loss :: "link_report \<Rightarrow> u64 \<Rightarrow> 'd Selector \<Rightarrow> 'd Selector" where
  "classify_loss r now_ms s =
     (let pol = sl_policy s; loss = lr_loss_postdiv_prearq r;
          s1 = s\<lparr>sl_loss_window_milli := loss, sl_loss_uniq := lr_uniq r, sl_loss_observed_rung := sl_rung s,
                 sl_emergency_pending := (sp_loss_min_uniq pol \<le> lr_uniq r \<and> sp_emergency_loss_milli pol \<le> loss)\<rparr>
      in if sl_rung s < length (sl_rung_loss s) \<and> sp_loss_min_uniq pol \<le> lr_uniq r \<and> \<not> rung_locked s (sl_rung s) now_ms
         then s1\<lparr>sl_rung_loss := (sl_rung_loss s)[sl_rung s :=
                bump_score (sp_demote_milli pol) (sp_loss_persist_score pol) loss (sl_rung_loss s ! sl_rung s)]\<rparr>
         else s1)"

definition note_reporter :: "'d fp \<Rightarrow> link_report \<Rightarrow> u64 \<Rightarrow> 'd Selector \<Rightarrow> 'd Selector" where
  "note_reporter F r now_ms s =
     (let identity = (originator (lr_prefix r), session_id (lr_prefix r))
      in if sl_report_source s = Some identity then s
         else let s1 = reset_environment_state F now_ms
                    (s\<lparr>sl_report_source := Some identity, sl_have_report := False, sl_last_epoch := 0\<rparr>)
              in if sl_report_source s \<noteq> None then s1\<lparr>sl_reason := sr_kEnvironmentReset\<rparr> else s1)"

definition on_report :: "'d fp \<Rightarrow> link_report \<Rightarrow> u64 \<Rightarrow> 'd Selector \<Rightarrow> bool \<times> 'd Selector" where
  "on_report F r now_ms s0 =
     (let s = note_reporter F r now_ms s0
      in if sl_have_report s \<and> lr_report_epoch r \<le> sl_last_epoch s then (False, s)
         else let s1 = s\<lparr>sl_last_epoch := lr_report_epoch r\<rparr>;
                  s2 = (if lr_probe_per r \<noteq> kNoProbe then s1\<lparr>sl_probe_per := lr_probe_per r, sl_probe_per_ms := now_ms\<rparr> else s1);
                  s3 = classify_loss r now_ms (arm_fade F (smooth_report F r now_ms s2))
              in (True, s3\<lparr>sl_have_report := True, sl_last_report_ms := now_ms, sl_failsafe_next_step_ms := 0\<rparr>))"

definition on_rf_environment :: "'d fp \<Rightarrow> u16 \<Rightarrow> u8 \<Rightarrow> u64 \<Rightarrow> 'd Selector \<Rightarrow> bool \<times> 'd Selector" where
  "on_rf_environment F channel_mhz bw now_ms s =
     (let env = (channel_mhz, bw) in
      case sl_rf_environment s of
        None \<Rightarrow> (False, s\<lparr>sl_rf_environment := Some env\<rparr>)
      | Some e \<Rightarrow>
          if e = env then (False, s)
          else (True, (reset_environment_state F now_ms (s\<lparr>sl_rf_environment := Some env\<rparr>))\<lparr>sl_reason := sr_kEnvironmentReset\<rparr>))"

definition set_pressure :: "bool \<Rightarrow> u64 \<Rightarrow> 'd Selector \<Rightarrow> 'd Selector" where
  "set_pressure on now_ms s =
     (let s1 = (if on \<and> \<not> sl_pressure s then s\<lparr>sl_pressure_since_ms := now_ms\<rparr> else s) in s1\<lparr>sl_pressure := on\<rparr>)"

definition csa_freeze :: "u64 \<Rightarrow> 'd Selector \<Rightarrow> 'd Selector" where
  "csa_freeze until_ms s = (if sl_csa_freeze_until_ms s < until_ms then s\<lparr>sl_csa_freeze_until_ms := until_ms\<rparr> else s)"

definition set_profile_pin :: "u8 \<Rightarrow> u8 \<Rightarrow> 'd Selector \<Rightarrow> 'd Selector" where
  "set_profile_pin mn mx s = s\<lparr>sl_policy := (sl_policy s)\<lparr>sp_min_profile := mn, sp_max_profile := mx\<rparr>\<rparr>"

section \<open>Transitions\<close>

definition charge_lockout :: "nat \<Rightarrow> u64 \<Rightarrow> 'd Selector \<Rightarrow> 'd Selector" where
  "charge_lockout rung now_ms s =
     (let pol = sl_policy s in
      if length (sl_rung_loss s) \<le> rung \<or> rung \<le> safe_floor_rung s \<or> rung_locked s rung now_ms then s
      else let rs0 = sl_rung_loss s ! rung;
               strikes = (if rl_strikes rs0 < sp_rung_lockout_latch_count pol then rl_strikes rs0 + 1 else rl_strikes rs0);
               rs = rs0\<lparr>rl_strikes := strikes, rl_score := 0\<rparr>;
               room = 0xFFFFFFFFFFFFFFFF - now_ms;
               rs1 = (if sp_rung_lockout_latch_count pol \<le> strikes then rs\<lparr>rl_latched := True, rl_blocked_until_ms := 0\<rparr>
                      else rs\<lparr>rl_blocked_until_ms := (if room < ucast (sp_rung_lockout_ms pol) then 0xFFFFFFFFFFFFFFFF
                                                      else now_ms + ucast (sp_rung_lockout_ms pol))\<rparr>)
           in s\<lparr>sl_rung_loss := (sl_rung_loss s)[rung := rs1]\<rparr>)"

definition rssi_guard_active :: "'d fp \<Rightarrow> 'd Selector \<Rightarrow> bool" where
  "rssi_guard_active F s \<longleftrightarrow> fp_le F (sl_rssi_ewma s) (fp_of_int F (sint (sp_rssi_floor_dbm (sl_policy s))))
     \<or> sp_fade_ticks (sl_policy s) \<le> sl_fade_ticks s"

definition note_demote_for_flap :: "u64 \<Rightarrow> 'd Selector \<Rightarrow> 'd Selector" where
  "note_demote_for_flap now_ms s =
     (let pol = sl_policy s;
          promoted = sl_promoted_into_ms s ! sl_rung s;
          times1 = (if promoted \<noteq> 0 \<and> promoted \<le> now_ms \<and> now_ms - promoted < ucast (sp_flap_freeze_window_ms pol)
                    then sl_demote_times s @ [now_ms] else sl_demote_times s);
          times2 = dropWhile (\<lambda>t. ucast (sp_flap_freeze_window_ms pol) < now_ms - t) times1
      in if unat (sp_flap_freeze_count pol) \<le> length times2
         then s\<lparr>sl_freeze_until_ms := now_ms + ucast (sp_flap_freeze_ms pol), sl_demote_times := []\<rparr>
         else s\<lparr>sl_demote_times := times2\<rparr>)"

definition target_bitrate :: "'d Selector \<Rightarrow> nat \<Rightarrow> u32" where
  "target_bitrate s r = clamp_bitrate_kbps (derive_bitrate_kbps (sl_profiles s ! r)) (sp_max_bitrate_kbps (sl_policy s))"

definition move_bitrate :: "nat \<Rightarrow> 'd Selector \<Rightarrow> 'd Selector \<times> u32 option" where
  "move_bitrate r s =
     (let br = target_bitrate s r
      in if br \<noteq> sl_bitrate_kbps s then (s\<lparr>sl_bitrate_kbps := br\<rparr>, Some br) else (s, None))"

definition commit_of :: "'d Selector \<Rightarrow> nat \<Rightarrow> ProfileCommit" where
  "commit_of s r = (let p = sl_profiles s ! r
     in \<lparr>pc_profile_id = pf_id p, pc_mcs = pf_mcs p, pc_gi = pf_gi p, pc_tx_power_level = pf_tx_power_level p\<rparr>)"

definition start_demote :: "nat \<Rightarrow> u64 \<Rightarrow> SelectorReason \<Rightarrow> bool \<Rightarrow> 'd Selector \<Rightarrow> 'd Selector \<times> SelectorActions" where
  "start_demote target now_ms reason charge_rung s =
     (let s1 = s\<lparr>sl_probe_per := kNoProbe, sl_probe_per_ms := 0\<rparr>;
          s2 = (if charge_rung then charge_lockout (sl_rung s1) now_ms s1 else s1);
          s3 = note_demote_for_flap now_ms s2;
          s4 = s3\<lparr>sl_demoted_from_ms := map (\<lambda>r. if target < r \<and> r \<le> sl_rung s3 then now_ms else sl_demoted_from_ms s3 ! r)
                   [0..<length (sl_demoted_from_ms s3)],
                 sl_last_demote_ms := now_ms, sl_pending_target := target, sl_phase := ph_kBitrateLead,
                 sl_phase_deadline_ms := now_ms + ucast (sp_bitrate_lead_ms (sl_policy s3)),
                 sl_state := ''DEMOTE'', sl_reason := reason\<rparr>;
          (s5, br) = move_bitrate target s4
      in (s5, no_actions\<lparr>sa_bitrate_kbps := br\<rparr>))"

definition start_promote :: "nat \<Rightarrow> u64 \<Rightarrow> SelectorReason \<Rightarrow> 'd Selector \<Rightarrow> 'd Selector \<times> SelectorActions" where
  "start_promote target now_ms reason s =
     (s\<lparr>sl_probe_per := kNoProbe, sl_probe_per_ms := 0, sl_pending_target := target, sl_phase := ph_kMcsGrace,
        sl_phase_deadline_ms := now_ms + ucast (sp_mcs_up_grace_ms (sl_policy s)), sl_state := ''PROMOTE'',
        sl_reason := reason, sl_promoted_into_ms := (sl_promoted_into_ms s)[target := now_ms],
        sl_rung := target, sl_last_change_ms := now_ms\<rparr>,
      no_actions\<lparr>sa_commit := Some (commit_of s target)\<rparr>)"

section \<open>The cascade\<close>

text \<open>A pin moves modulation and bitrate together.\<close>

definition jump_to :: "nat \<Rightarrow> u64 \<Rightarrow> 'd Selector \<Rightarrow> 'd Selector \<times> SelectorActions" where
  "jump_to r now_ms s =
     (let (s1, br) = move_bitrate r (s\<lparr>sl_rung := r, sl_last_change_ms := now_ms, sl_reason := sr_kRepin\<rparr>)
      in (s1, \<lparr>sa_commit = Some (commit_of s r), sa_bitrate_kbps = br\<rparr>))"

definition eval_pinned :: "nat \<Rightarrow> u64 \<Rightarrow> 'd Selector \<Rightarrow> 'd Selector \<times> SelectorActions" where
  "eval_pinned lo now_ms s0 =
     (let s = s0\<lparr>sl_state := ''PINNED''\<rparr> in if sl_rung s \<noteq> lo then jump_to lo now_ms s else (s, no_actions))"

definition eval_repin :: "nat \<Rightarrow> u64 \<Rightarrow> 'd Selector \<Rightarrow> 'd Selector \<times> SelectorActions" where
  "eval_repin target now_ms s = (let (s1, a) = jump_to target now_ms s in (s1\<lparr>sl_state := ''REPIN''\<rparr>, a))"

definition eval_failsafe :: "nat \<Rightarrow> u64 \<Rightarrow> 'd Selector \<Rightarrow> 'd Selector \<times> SelectorActions" where
  "eval_failsafe floor now_ms s0 =
     (let s = s0\<lparr>sl_state := ''FAILSAFE''\<rparr>; pol = sl_policy s
      in if report_age_ms s now_ms < ucast (sp_report_timeout_ms pol + sp_failsafe_hold_ms pol) then (s, no_actions)
         else if floor < sl_rung s \<and> sl_failsafe_next_step_ms s \<le> now_ms
         then start_demote (sl_rung s - 1) now_ms sr_kReportTimeout False
                (s\<lparr>sl_failsafe_next_step_ms := now_ms + ucast (sp_failsafe_step_ms pol)\<rparr>)
         else (s, no_actions))"

definition cooled_down :: "'d Selector \<Rightarrow> u64 \<Rightarrow> bool" where
  "cooled_down s now_ms \<longleftrightarrow> ucast (sp_down_cooldown_ms (sl_policy s)) \<le> now_ms - sl_last_demote_ms s"

text \<open>Rule 5: sustained pressure with clean RF.\<close>

definition wants_escape :: "'d fp \<Rightarrow> nat \<Rightarrow> u64 \<Rightarrow> 'd Selector \<Rightarrow> bool" where
  "wants_escape F high now_ms s \<longleftrightarrow> sl_pressure s \<and> \<not> rssi_guard_active F s
     \<and> ucast (sp_pressure_escape_ms (sl_policy s)) \<le> now_ms - sl_pressure_since_ms s \<and> cooled_down s now_ms
     \<and> sl_rung s < high \<and> \<not> flap_frozen s now_ms"

text \<open>Rule 6: the margin over the next rung's floor.\<close>

definition recent_demote :: "u64 \<Rightarrow> 'd Selector \<Rightarrow> bool" where
  "recent_demote now_ms s \<longleftrightarrow>
     (let demoted = sl_demoted_from_ms s ! (sl_rung s + 1)
      in demoted \<noteq> 0 \<and> demoted \<le> now_ms \<and> now_ms - demoted < ucast (sp_reentry_backoff_ms (sl_policy s)))"

definition wants_promote :: "'d fp \<Rightarrow> nat \<Rightarrow> u64 \<Rightarrow> 'd Selector \<Rightarrow> bool" where
  "wants_promote F high now_ms s \<longleftrightarrow>
     (let pol = sl_policy s; floors = sp_rung_rssi_floor_dbm pol
      in sl_rung s < high \<and> \<not> rssi_guard_active F s \<and> \<not> flap_frozen s now_ms
       \<and> fp_lt F (sl_loss_ewma_milli s) (fp_of_int F (uint (sp_demote_milli pol)))
       \<and> fp_le F (fp_add F (fp_of_int F (sint (floors ! min (sl_rung s + 1) (length floors - 1)))) (sp_promote_rssi_hyst_db pol))
            (sl_rssi_ewma s)
       \<and> ucast (if recent_demote now_ms s then sp_reentry_dwell_ms pol else sp_promote_dwell_ms pol)
            \<le> now_ms - sl_last_change_ms s)"

text \<open>Rules 5, 6 and 7. A climb that is warranted is still suppressed by a fresh saturation verdict
  or a fresh probe veto; the suppression is counted once.\<close>

definition eval_climb :: "'d fp \<Rightarrow> nat \<Rightarrow> u64 \<Rightarrow> 'd Selector \<Rightarrow> 'd Selector \<times> SelectorActions" where
  "eval_climb F high now_ms s =
     (let blocked = saturated_fresh s now_ms \<or> probe_veto_fresh s now_ms
      in if wants_escape F high now_ms s \<and> \<not> blocked
         then start_promote (sl_rung s + 1) now_ms sr_kBackpressure (s\<lparr>sl_last_demote_ms := now_ms\<rparr>)
         else if wants_promote F high now_ms s \<and> \<not> blocked
         then start_promote (sl_rung s + 1) now_ms sr_kPromote s
         else let tried = wants_escape F high now_ms s \<or> wants_promote F high now_ms s;
                  s1 = (if tried \<and> saturated_fresh s now_ms
                        then s\<lparr>sl_promote_blocked_saturated := sl_promote_blocked_saturated s + 1\<rparr> else s);
                  s2 = (if tried \<and> \<not> saturated_fresh s now_ms \<and> probe_veto_fresh s now_ms
                        then s1\<lparr>sl_promote_blocked_probe := sl_promote_blocked_probe s1 + 1\<rparr> else s1)
              in (s2\<lparr>sl_state := if flap_frozen s2 now_ms then ''FREEZE'' else ''HOLD''\<rparr>, no_actions))"

text \<open>Rules 2, 3 and 4: each goes down by one rung.\<close>

definition persistent_loss :: "'d Selector \<Rightarrow> bool" where
  "persistent_loss s \<longleftrightarrow> \<not> sl_pressure s \<and> sl_loss_observed_rung s = sl_rung s \<and> sl_rung s < length (sl_rung_loss s)
     \<and> sp_loss_persist_score (sl_policy s) \<le> rl_score (sl_rung_loss s ! sl_rung s)"

definition eval_cascade :: "'d fp \<Rightarrow> nat \<Rightarrow> nat \<Rightarrow> nat \<Rightarrow> u64 \<Rightarrow> 'd Selector \<Rightarrow> 'd Selector \<times> SelectorActions" where
  "eval_cascade F lo hi floor now_ms s0 =
     (let acute = sl_emergency_pending s0 \<and> sl_loss_observed_rung s0 = sl_rung s0;
          s1 = s0\<lparr>sl_emergency_pending := False\<rparr>;
          s = (if acute then s1\<lparr>sl_reason := sr_kLossEmergency\<rparr> else s1);
          down = floor < sl_rung s; ok = cooled_down s now_ms
      in if acute \<and> down then start_demote floor now_ms sr_kLossEmergency True s
         else if ok \<and> persistent_loss s \<and> down then start_demote (sl_rung s - 1) now_ms sr_kLossPersistent True s
         else if ok \<and> fp_le F (sl_rssi_ewma s) (fp_of_int F (sint (sp_rssi_floor_dbm (sl_policy s)))) \<and> down
         then start_demote (sl_rung s - 1) now_ms sr_kRssiFloor False s
         else if ok \<and> sp_fade_ticks (sl_policy s) \<le> sl_fade_ticks s \<and> down
         then start_demote (sl_rung s - 1) now_ms sr_kRssiFade False (s\<lparr>sl_fade_ticks := 0\<rparr>)
         else eval_climb F (adaptive_hi s now_ms lo hi) now_ms s)"

text \<open>At the end of a channel-switch freeze the blackout is excused from the report's age.\<close>

definition thaw :: "'d Selector \<Rightarrow> 'd Selector" where
  "thaw s =
     (if sl_csa_freeze_until_ms s = 0 then s
      else let s1 = (if sl_have_report s \<and> sl_last_report_ms s < sl_csa_freeze_until_ms s
                     then s\<lparr>sl_last_report_ms := sl_csa_freeze_until_ms s\<rparr> else s)
           in s1\<lparr>sl_csa_freeze_until_ms := 0\<rparr>)"

definition stale :: "'d Selector \<Rightarrow> u64 \<Rightarrow> bool" where
  "stale s now_ms \<longleftrightarrow> \<not> sl_have_report s \<or> ucast (sp_report_timeout_ms (sl_policy s)) < report_age_ms s now_ms"

definition evaluate :: "'d fp \<Rightarrow> u64 \<Rightarrow> 'd Selector \<Rightarrow> 'd Selector \<times> SelectorActions" where
  "evaluate F now_ms s0 =
     (if sl_csa_freeze_until_ms s0 \<noteq> 0 \<and> now_ms < sl_csa_freeze_until_ms s0 then (s0\<lparr>sl_state := ''CSA_FREEZE''\<rparr>, no_actions)
      else let s = thaw s0; lo = clamp_rung s 0; hi = clamp_rung s (ladder_size s - 1); floor = safe_floor_rung s
      in if lo = hi then eval_pinned lo now_ms s
         else if hi < sl_rung s \<or> (sl_rung s < lo \<and> \<not> stale s now_ms)
         then eval_repin (if hi < sl_rung s then hi else lo) now_ms s
         else if stale s now_ms then eval_failsafe floor now_ms s
         else eval_cascade F lo hi floor now_ms s)"

definition sl_tick :: "'d fp \<Rightarrow> u64 \<Rightarrow> 'd Selector \<Rightarrow> 'd Selector \<times> SelectorActions" where
  "sl_tick F now_ms s =
     (if ladder_size s = 0 then (s, no_actions)
      else case sl_phase s of
        ph_kBoot \<Rightarrow>
          let br = target_bitrate s (sl_rung s)
          in (s\<lparr>sl_phase := ph_kIdle, sl_last_change_ms := now_ms, sl_bitrate_kbps := br, sl_state := ''HOLD''\<rparr>,
              \<lparr>sa_commit = Some (commit_of s (sl_rung s)), sa_bitrate_kbps = Some br\<rparr>)
      | ph_kBitrateLead \<Rightarrow>
          if sl_phase_deadline_ms s \<le> now_ms
          then (s\<lparr>sl_phase := ph_kIdle, sl_rung := sl_pending_target s, sl_last_change_ms := now_ms\<rparr>,
                no_actions\<lparr>sa_commit := Some (commit_of s (sl_pending_target s))\<rparr>)
          else (s, no_actions)
      | ph_kMcsGrace \<Rightarrow>
          if sl_phase_deadline_ms s \<le> now_ms
          then let (s1, br) = move_bitrate (sl_rung s) (s\<lparr>sl_phase := ph_kIdle\<rparr>) in (s1, no_actions\<lparr>sa_bitrate_kbps := br\<rparr>)
          else (s, no_actions)
      | ph_kIdle \<Rightarrow> evaluate F now_ms s)"

end
