(* ===== verification/Selector_Props.thy ===== *)
theory Selector_Props
  imports Selector
begin

text \<open>
  Properties of the rate selector, for any floating-point arithmetic: it stays on its ladder, what it
  commits is what it runs, the bitrate follows the rung, it climbs only when the feedback warrants
  it, and it comes down to the safe floor when the feedback stops.
\<close>

section \<open>The ladder\<close>

lemma rung_of_id_from_less: "fallback < m \<Longrightarrow> r + length ps \<le> m \<Longrightarrow> rung_of_id_from ps i r fallback < m"
  by (induction ps i r fallback rule: rung_of_id_from.induct) auto

lemma rung_of_id_less: "fallback < ladder_size s \<Longrightarrow> rung_of_id s i fallback < ladder_size s"
  unfolding rung_of_id_def ladder_size_def by (rule rung_of_id_from_less) simp_all

lemma clamp_rung_less:
  assumes "0 < ladder_size s"
  shows "clamp_rung s r < ladder_size s"
proof -
  have "rung_of_id s (sp_max_profile (sl_policy s)) (ladder_size s - 1) < ladder_size s"
    using assms by (intro rung_of_id_less) simp
  then show ?thesis
    using assms by (auto simp: clamp_rung_def Let_def)
qed

lemma safe_floor_less: "0 < ladder_size s \<Longrightarrow> safe_floor_rung s < ladder_size s"
  by (simp add: safe_floor_rung_def clamp_rung_less)

lemma clamp_rung_mono: "r \<le> r' \<Longrightarrow> clamp_rung s r \<le> clamp_rung s r'"
  by (simp add: clamp_rung_def Let_def)

text \<open>The pin and the floor depend on the policy and the table alone.\<close>

lemma clamp_rung_cong:
  "sl_policy s' = sl_policy s \<Longrightarrow> sl_profiles s' = sl_profiles s \<Longrightarrow> clamp_rung s' r = clamp_rung s r"
  by (simp add: clamp_rung_def ladder_size_def rung_of_id_def)

lemma safe_floor_cong:
  "sl_policy s' = sl_policy s \<Longrightarrow> sl_profiles s' = sl_profiles s \<Longrightarrow> sl_floor_profile s' = sl_floor_profile s
     \<Longrightarrow> safe_floor_rung s' = safe_floor_rung s"
  by (simp add: safe_floor_rung_def clamp_rung_cong [of s' s] floor_rung_def)

lemma adaptive_hi_le: "lo \<le> hi \<Longrightarrow> adaptive_hi s now_ms lo hi \<le> hi"
  by (auto simp: adaptive_hi_def split: prod.splits)

text \<open>Below the adaptive ceiling no rung is locked, unless the lockout reaches into the pin's floor.\<close>

lemma adaptive_hi_unlocked:
  assumes "rung_locked s r now_ms" and "r \<le> adaptive_hi s now_ms lo hi"
  shows "\<exists>r' \<le> lo. rung_locked s r' now_ms"
proof -
  let ?rs = "[0..<min (Suc hi) (length (sl_rung_loss s))]"
  have hi: "adaptive_hi s now_ms lo hi \<le> hi"
    by (auto simp: adaptive_hi_def split: prod.splits)
  have r: "r \<in> set ?rs"
    using assms hi by (auto simp: rung_locked_def)
  then obtain q where q: "find (\<lambda>r. rung_locked s r now_ms) ?rs = Some q"
    using assms(1) by (cases "find (\<lambda>r. rung_locked s r now_ms) ?rs") (auto simp: find_None_iff)
  then have locked: "rung_locked s q now_ms" and first: "\<forall>j < q. \<not> rung_locked s j now_ms"
    by (auto simp: find_Some_iff)
  have "q \<le> r"
    using first assms(1) by (meson not_le)
  then have "q \<le> lo"
    using assms(2) q by (auto simp: adaptive_hi_def lockout_ceiling_rung_def split: if_splits)
  then show ?thesis
    using locked by blast
qed

section \<open>The operating point\<close>

text \<open>What the transitions keep: the vectors have the length of the ladder, the rung is on it, a
  descent in progress goes down, and outside a climb the bitrate is the one of the rung the
  selector runs or is about to run.\<close>

definition sel_ok :: "'d Selector \<Rightarrow> bool" where
  "sel_ok s \<longleftrightarrow> (let n = ladder_size s in
     length (sl_rung_loss s) = n \<and> length (sl_demoted_from_ms s) = n \<and> length (sl_promoted_into_ms s) = n
     \<and> (n \<noteq> 0 \<longrightarrow> sl_rung s < n)
     \<and> (sl_phase s = ph_kBitrateLead \<longrightarrow> sl_pending_target s < sl_rung s \<and> sl_bitrate_kbps s = target_bitrate s (sl_pending_target s))
     \<and> (sl_phase s = ph_kIdle \<longrightarrow> sl_bitrate_kbps s = target_bitrate s (sl_rung s)))"

text \<open>The part of the state the operating point consists of.\<close>

definition point_view where
  "point_view s = (ladder_size s, length (sl_rung_loss s), length (sl_demoted_from_ms s), length (sl_promoted_into_ms s),
     sl_rung s, sl_phase s, sl_pending_target s, sl_bitrate_kbps s, sl_profiles s, sp_max_bitrate_kbps (sl_policy s))"

lemma sel_ok_view: "point_view s' = point_view s \<Longrightarrow> sel_ok s' = sel_ok s"
  by (simp add: point_view_def sel_ok_def target_bitrate_def Let_def)

lemma view_reset_environment [simp]: "point_view (reset_environment_state F now_ms s) = point_view s"
  by (simp add: reset_environment_state_def point_view_def ladder_size_def Let_def)

lemma view_note_reporter: "point_view (note_reporter F r now_ms s) = point_view s"
proof -
  have "point_view (s\<lparr>sl_report_source := a, sl_have_report := b, sl_last_epoch := c\<rparr>) = point_view s"
    "point_view (s'\<lparr>sl_reason := d\<rparr>) = point_view s'" for a b c d and s' :: "'a Selector"
    by (simp_all add: point_view_def ladder_size_def)
  then show ?thesis
    by (simp add: note_reporter_def Let_def)
qed

lemma view_on_report: "point_view (snd (on_report F r now_ms s)) = point_view s"
proof -
  have "point_view (smooth_report F r now_ms s) = point_view s" for s :: "'a Selector"
    by (simp add: smooth_report_def point_view_def ladder_size_def Let_def)
  moreover have "point_view (arm_fade F s) = point_view s" for s :: "'a Selector"
    by (simp add: arm_fade_def point_view_def ladder_size_def Let_def)
  moreover have "point_view (classify_loss r now_ms s) = point_view s" for s :: "'a Selector"
    by (simp add: classify_loss_def point_view_def ladder_size_def Let_def)
  moreover have "point_view (s\<lparr>sl_last_epoch := a\<rparr>) = point_view s"
    "point_view (s\<lparr>sl_probe_per := b, sl_probe_per_ms := c\<rparr>) = point_view s"
    "point_view (s\<lparr>sl_have_report := d, sl_last_report_ms := e, sl_failsafe_next_step_ms := f\<rparr>) = point_view s"
    for s :: "'a Selector" and a b c d e f
    by (simp_all add: point_view_def ladder_size_def)
  ultimately show ?thesis
    using view_note_reporter [of F r now_ms s] by (simp add: on_report_def Let_def)
qed

lemma view_on_rf_environment: "point_view (snd (on_rf_environment F ch bw now_ms s)) = point_view s"
proof -
  have "point_view (s\<lparr>sl_rf_environment := a\<rparr>) = point_view s" "point_view (s'\<lparr>sl_reason := d\<rparr>) = point_view s'"
    for a d and s' :: "'a Selector"
    by (simp_all add: point_view_def ladder_size_def)
  then show ?thesis
    by (simp add: on_rf_environment_def Let_def split: option.split)
qed

lemma view_others:
  "point_view (on_verdict v now_ms s) = point_view s" "point_view (set_pressure on now_ms s) = point_view s"
  "point_view (csa_freeze u s) = point_view s" "point_view (set_profile_pin mn mx s) = point_view s"
  "point_view (thaw s) = point_view s"
  by (simp_all add: on_verdict_def set_pressure_def csa_freeze_def set_profile_pin_def thaw_def point_view_def
      ladder_size_def Let_def)

section \<open>One tick\<close>

text \<open>What every step of the machine guarantees: the invariant, the table and the policy stay, and the
  actions tell the actuators exactly how the operating point moved.\<close>

definition step_ok :: "'d Selector \<Rightarrow> 'd Selector \<times> SelectorActions \<Rightarrow> bool" where
  "step_ok s = (\<lambda>(s', a). sel_ok s' \<and> sl_profiles s' = sl_profiles s \<and> sl_policy s' = sl_policy s
     \<and> sl_floor_profile s' = sl_floor_profile s
     \<and> (sl_rung s' \<noteq> sl_rung s \<longrightarrow> sa_commit a \<noteq> None)
     \<and> (\<forall>c. sa_commit a = Some c \<longrightarrow> c = commit_of s' (sl_rung s'))
     \<and> (sl_bitrate_kbps s' \<noteq> sl_bitrate_kbps s \<longrightarrow> sa_bitrate_kbps a \<noteq> None)
     \<and> (\<forall>b. sa_bitrate_kbps a = Some b \<longrightarrow> b = sl_bitrate_kbps s'))"

lemma step_ok_quiet: "sel_ok s' \<Longrightarrow> sl_profiles s' = sl_profiles s \<Longrightarrow> sl_policy s' = sl_policy s
   \<Longrightarrow> sl_floor_profile s' = sl_floor_profile s \<Longrightarrow> sl_rung s' = sl_rung s \<Longrightarrow> sl_bitrate_kbps s' = sl_bitrate_kbps s
   \<Longrightarrow> step_ok s (s', no_actions)"
  by (simp add: step_ok_def no_actions_def)

definition keeps_table :: "'d Selector \<Rightarrow> 'd Selector \<Rightarrow> bool" where
  "keeps_table s s' \<longleftrightarrow> sl_profiles s' = sl_profiles s \<and> sl_policy s' = sl_policy s \<and> sl_floor_profile s' = sl_floor_profile s
     \<and> sl_bitrate_kbps s' = sl_bitrate_kbps s \<and> sl_rung s' = sl_rung s"

lemma step_ok_from: "step_ok s1 r \<Longrightarrow> keeps_table s s1 \<Longrightarrow> step_ok s r"
  by (auto simp: step_ok_def keeps_table_def)

lemma charge_lockout_view: "point_view (charge_lockout r now_ms s) = point_view s" "keeps_table s (charge_lockout r now_ms s)"
  by (simp_all add: charge_lockout_def point_view_def ladder_size_def keeps_table_def Let_def)

lemma note_demote_view: "point_view (note_demote_for_flap now_ms s) = point_view s" "keeps_table s (note_demote_for_flap now_ms s)"
  by (simp_all add: note_demote_for_flap_def point_view_def ladder_size_def keeps_table_def Let_def)

text \<open>The fields the fail-safe depends on.\<close>

definition watch_view where
  "watch_view s = (sl_have_report s, sl_last_report_ms s, sl_csa_freeze_until_ms s, sl_failsafe_next_step_ms s)"

lemma demote_watch: "watch_view (charge_lockout r now_ms s) = watch_view s" "watch_view (note_demote_for_flap now_ms s) = watch_view s"
  by (simp_all add: charge_lockout_def note_demote_for_flap_def watch_view_def Let_def)

text \<open>A descent is announced by its bitrate; the rung follows at the deadline.\<close>

lemma start_demote_parts:
  assumes "start_demote target now_ms reason ch s = (s', a)"
  obtains s3 where "point_view s3 = point_view s" and "keeps_table s s3" and "watch_view s3 = watch_view s"
    and "s' = s3\<lparr>sl_demoted_from_ms := sl_demoted_from_ms s', sl_last_demote_ms := now_ms, sl_pending_target := target,
           sl_phase := ph_kBitrateLead, sl_phase_deadline_ms := now_ms + ucast (sp_bitrate_lead_ms (sl_policy s)),
           sl_state := ''DEMOTE'', sl_reason := reason, sl_bitrate_kbps := target_bitrate s target\<rparr>"
    and "length (sl_demoted_from_ms s') = length (sl_demoted_from_ms s)"
    and "a = no_actions\<lparr>sa_bitrate_kbps := if target_bitrate s target \<noteq> sl_bitrate_kbps s then Some (target_bitrate s target) else None\<rparr>"
proof -
  define s1 where "s1 = s\<lparr>sl_probe_per := kNoProbe, sl_probe_per_ms := 0\<rparr>"
  define s2 where "s2 = (if ch then charge_lockout (sl_rung s1) now_ms s1 else s1)"
  define s3 where "s3 = note_demote_for_flap now_ms s2"
  have v1: "point_view s1 = point_view s" "keeps_table s s1" "watch_view s1 = watch_view s"
    by (simp_all add: s1_def point_view_def ladder_size_def keeps_table_def watch_view_def)
  have v2: "point_view s2 = point_view s" "keeps_table s s2" "watch_view s2 = watch_view s"
    using v1 charge_lockout_view [where s = s1] demote_watch(1) [where s = s1] by (simp_all add: s2_def keeps_table_def)
  have v3: "point_view s3 = point_view s" "keeps_table s s3" "watch_view s3 = watch_view s"
    using v2 note_demote_view [where s = s2] demote_watch(2) [where s = s2] by (simp_all add: s3_def keeps_table_def)
  have b: "target_bitrate s3 target = target_bitrate s target" "sl_bitrate_kbps s3 = sl_bitrate_kbps s" "sl_policy s3 = sl_policy s"
    "length (sl_demoted_from_ms s3) = length (sl_demoted_from_ms s)"
    using v3 by (simp_all add: target_bitrate_def keeps_table_def point_view_def)
  have eq: "start_demote target now_ms reason ch s =
     (let s4 = s3\<lparr>sl_demoted_from_ms := map (\<lambda>r. if target < r \<and> r \<le> sl_rung s3 then now_ms else sl_demoted_from_ms s3 ! r)
                   [0..<length (sl_demoted_from_ms s3)],
                 sl_last_demote_ms := now_ms, sl_pending_target := target, sl_phase := ph_kBitrateLead,
                 sl_phase_deadline_ms := now_ms + ucast (sp_bitrate_lead_ms (sl_policy s3)),
                 sl_state := ''DEMOTE'', sl_reason := reason\<rparr>;
          (s5, br) = move_bitrate target s4
      in (s5, no_actions\<lparr>sa_bitrate_kbps := br\<rparr>))"
    unfolding start_demote_def s1_def [symmetric] s2_def [symmetric] s3_def [symmetric] Let_def ..
  show ?thesis
    using assms b unfolding eq by (intro that [OF v3])
      (auto simp: move_bitrate_def Let_def target_bitrate_def split: if_splits)
qed

lemma start_demote_ok:
  assumes ok: "sel_ok s" and t: "target < sl_rung s" and n: "0 < ladder_size s"
    and d: "start_demote target now_ms reason ch s = (s', a)"
  shows "step_ok s (s', a)" and "sl_rung s' = sl_rung s" and "sl_phase s' = ph_kBitrateLead" and "sl_pending_target s' = target"
    and "sl_phase_deadline_ms s' = now_ms + ucast (sp_bitrate_lead_ms (sl_policy s))" and "watch_view s' = watch_view s"
proof -
  obtain s3 where v: "point_view s3 = point_view s" "keeps_table s s3" "watch_view s3 = watch_view s"
    and s': "s' = s3\<lparr>sl_demoted_from_ms := sl_demoted_from_ms s', sl_last_demote_ms := now_ms, sl_pending_target := target,
           sl_phase := ph_kBitrateLead, sl_phase_deadline_ms := now_ms + ucast (sp_bitrate_lead_ms (sl_policy s)),
           sl_state := ''DEMOTE'', sl_reason := reason, sl_bitrate_kbps := target_bitrate s target\<rparr>"
    and len: "length (sl_demoted_from_ms s') = length (sl_demoted_from_ms s)"
    and a: "a = no_actions\<lparr>sa_bitrate_kbps := if target_bitrate s target \<noteq> sl_bitrate_kbps s then Some (target_bitrate s target) else None\<rparr>"
    using start_demote_parts [OF d] .
  define dm where "dm = sl_demoted_from_ms s'"
  note s'' = s' [folded dm_def] and ldm = len [folded dm_def]
  show "sl_rung s' = sl_rung s" "sl_phase s' = ph_kBitrateLead" "sl_pending_target s' = target"
    "sl_phase_deadline_ms s' = now_ms + ucast (sp_bitrate_lead_ms (sl_policy s))" "watch_view s' = watch_view s"
    using v by (simp_all add: s'' keeps_table_def watch_view_def)
  have "sel_ok s'"
    using ok v ldm t by (simp add: sel_ok_def s'' keeps_table_def point_view_def ladder_size_def target_bitrate_def Let_def)
  then show "step_ok s (s', a)"
    using v by (simp add: step_ok_def s'' a keeps_table_def no_actions_def)
qed

lemma jump_to_ok:
  assumes "sel_ok s" and "sl_phase s = ph_kIdle" and "r < ladder_size s"
  shows "step_ok s (jump_to r now_ms s)" and "sl_rung (fst (jump_to r now_ms s)) = r"
proof -
  show "sl_rung (fst (jump_to r now_ms s)) = r"
    by (simp add: jump_to_def move_bitrate_def Let_def)
  show "step_ok s (jump_to r now_ms s)"
    using assms by (auto simp: step_ok_def jump_to_def move_bitrate_def sel_ok_def ladder_size_def target_bitrate_def
        commit_of_def Let_def)
qed

lemma start_promote_ok:
  assumes "sel_ok s" and "target < ladder_size s"
  shows "step_ok s (start_promote target now_ms reason s)" and "sl_rung (fst (start_promote target now_ms reason s)) = target"
  using assms by (auto simp: start_promote_def step_ok_def sel_ok_def ladder_size_def target_bitrate_def commit_of_def
      no_actions_def Let_def)

text \<open>When a tick may raise the rung by itself.\<close>

definition warranted :: "'d fp \<Rightarrow> u64 \<Rightarrow> nat \<Rightarrow> nat \<Rightarrow> 'd Selector \<Rightarrow> bool" where
  "warranted F now_ms lo hi s \<longleftrightarrow> \<not> stale s now_ms \<and> \<not> flap_frozen s now_ms \<and> \<not> rssi_guard_active F s
     \<and> \<not> saturated_fresh s now_ms \<and> \<not> probe_veto_fresh s now_ms \<and> sl_rung s + 1 \<le> hi
     \<and> (\<forall>r \<le> sl_rung s + 1. rung_locked s r now_ms \<longrightarrow> (\<exists>r' \<le> lo. rung_locked s r' now_ms))"

text \<open>The outcome of an evaluation: a move that is in order, or a climb by one rung that is warranted.\<close>

definition no_climb :: "'d Selector \<Rightarrow> 'd Selector \<times> SelectorActions \<Rightarrow> bool" where
  "no_climb s = (\<lambda>(s', a). sl_rung s' \<le> sl_rung s)"

lemma demote_no_climb:
  assumes "sel_ok s" and "target < sl_rung s" and "0 < ladder_size s"
  shows "step_ok s (start_demote target now_ms reason ch s) \<and> no_climb s (start_demote target now_ms reason ch s)"
proof (cases "start_demote target now_ms reason ch s")
  case (Pair s' a)
  show ?thesis
    using start_demote_ok(1,2) [OF assms Pair] by (simp add: Pair no_climb_def)
qed

lemma eval_climb_outcome:
  assumes ok: "sel_ok s" and idle: "sl_phase s = ph_kIdle" and n: "hi < ladder_size s" and lo: "lo \<le> hi" and fresh: "\<not> stale s now_ms"
    and r_def: "r = eval_climb F (adaptive_hi s now_ms lo hi) now_ms s"
  shows "step_ok s r \<and> (no_climb s r \<or> (sl_rung (fst r) = sl_rung s + 1 \<and> warranted F now_ms lo hi s))"
proof -
  let ?h = "adaptive_hi s now_ms lo hi"
  have up: "warranted F now_ms lo hi s \<and> sl_rung s + 1 < ladder_size s"
    if "sl_rung s < ?h" "\<not> rssi_guard_active F s" "\<not> flap_frozen s now_ms" "\<not> (saturated_fresh s now_ms \<or> probe_veto_fresh s now_ms)"
  proof -
    have le: "sl_rung s + 1 \<le> ?h" "?h \<le> hi"
      using that(1) adaptive_hi_le [OF lo] by simp_all
    then have "\<exists>r' \<le> lo. rung_locked s r' now_ms" if "q \<le> sl_rung s + 1" "rung_locked s q now_ms" for q
      using that by (intro adaptive_hi_unlocked [of s q now_ms lo hi]) simp_all
    then show ?thesis
      using that le n fresh unfolding warranted_def by auto
  qed
  define blocked where "blocked \<longleftrightarrow> saturated_fresh s now_ms \<or> probe_veto_fresh s now_ms"
  note up = up [folded blocked_def]
  note r = r_def [unfolded eval_climb_def Let_def, folded blocked_def]
  show ?thesis
  proof (cases "wants_escape F ?h now_ms s \<and> \<not> blocked")
    case escape: True
    have w: "warranted F now_ms lo hi s \<and> sl_rung s + 1 < ladder_size s"
      using escape by (intro up) (simp_all add: wants_escape_def)
    have r: "r = start_promote (sl_rung s + 1) now_ms sr_kBackpressure (s\<lparr>sl_last_demote_ms := now_ms\<rparr>)"
      by (simp only: r if_P [OF escape])
    have "sel_ok (s\<lparr>sl_last_demote_ms := now_ms\<rparr>)"
      using ok by (simp add: sel_ok_def ladder_size_def target_bitrate_def)
    then have "step_ok (s\<lparr>sl_last_demote_ms := now_ms\<rparr>) r"
      unfolding r using w by (intro start_promote_ok(1)) (simp_all add: ladder_size_def)
    then have "step_ok s r"
      by (rule step_ok_from) (simp add: keeps_table_def)
    then show ?thesis
      using w by (simp add: r start_promote_def)
  next
    case no_escape: False
    show ?thesis
    proof (cases "wants_promote F ?h now_ms s \<and> \<not> blocked")
      case promote: True
      have w: "warranted F now_ms lo hi s \<and> sl_rung s + 1 < ladder_size s"
        using promote by (intro up) (simp_all add: wants_promote_def Let_def)
      have r: "r = start_promote (sl_rung s + 1) now_ms sr_kPromote s"
        by (simp only: r if_not_P [OF no_escape] if_P [OF promote])
      show ?thesis
        using w start_promote_ok [OF ok, of "sl_rung s + 1"] by (simp add: r)
    next
      case hold: False
      have v: "point_view (fst r) = point_view s" "keeps_table s (fst r)" "snd r = no_actions"
        unfolding r if_not_P [OF no_escape] if_not_P [OF hold] by (simp_all add: point_view_def ladder_size_def keeps_table_def)
      have "sel_ok (fst r)"
        using ok sel_ok_view [OF v(1)] by simp
      then have "step_ok s (fst r, no_actions)"
        using v(2) by (intro step_ok_quiet) (simp_all add: keeps_table_def)
      then show ?thesis
        using v(2,3) by (cases r) (simp add: no_climb_def keeps_table_def)
    qed
  qed
qed

text \<open>The rules look at neither the pending emergency nor the reason.\<close>

definition rule_view where
  "rule_view s = (sl_policy s, sl_profiles s, sl_rung s, sl_have_report s, sl_last_report_ms s, sl_freeze_until_ms s,
     sl_rssi_ewma s, sl_fade_ticks s, sl_verdict s, sl_verdict_ms s, sl_probe_per s, sl_probe_per_ms s, sl_rung_loss s)"

lemma rule_view_cong:
  assumes "rule_view s' = rule_view s"
  shows "warranted F now_ms lo hi s' = warranted F now_ms lo hi s" and "stale s' now_ms = stale s now_ms"
proof -
  note v = assms [unfolded rule_view_def prod.inject]
  have "report_age_ms s' now_ms = report_age_ms s now_ms" "rung_locked s' r now_ms = rung_locked s r now_ms" for r
    using v by (simp_all add: report_age_ms_def rung_locked_def)
  then show "stale s' now_ms = stale s now_ms" "warranted F now_ms lo hi s' = warranted F now_ms lo hi s"
    using v by (simp_all add: warranted_def stale_def flap_frozen_def rssi_guard_active_def saturated_fresh_def probe_veto_fresh_def)
qed

definition eval_outcome :: "'d fp \<Rightarrow> u64 \<Rightarrow> nat \<Rightarrow> nat \<Rightarrow> 'd Selector \<Rightarrow> 'd Selector \<times> SelectorActions \<Rightarrow> bool" where
  "eval_outcome F now_ms lo hi s r \<longleftrightarrow> step_ok s r
     \<and> (no_climb s r \<or> (sl_rung (fst r) = sl_rung s + 1 \<and> warranted F now_ms lo hi s))"

lemma eval_outcome_from:
  "eval_outcome F now_ms lo hi s1 r \<Longrightarrow> keeps_table s s1 \<Longrightarrow> rule_view s1 = rule_view s \<Longrightarrow> eval_outcome F now_ms lo hi s r"
  using rule_view_cong(1) [of s1 s F now_ms lo hi] step_ok_from [of s1 r s]
  by (auto simp: eval_outcome_def no_climb_def keeps_table_def)

lemma eval_outcome_demote:
  assumes "sel_ok s" and "target < sl_rung s" and "0 < ladder_size s"
  shows "eval_outcome F now_ms lo hi s (start_demote target now_ms reason ch s)"
  using demote_no_climb [OF assms, of now_ms reason ch] by (simp add: eval_outcome_def)

lemma eval_cascade_outcome:
  assumes ok: "sel_ok s0" and idle: "sl_phase s0 = ph_kIdle" and n: "hi < ladder_size s0" and lo: "lo \<le> hi" and fresh: "\<not> stale s0 now_ms"
  shows "eval_outcome F now_ms lo hi s0 (eval_cascade F lo hi floor now_ms s0)"
proof -
  define acute where "acute \<longleftrightarrow> sl_emergency_pending s0 \<and> sl_loss_observed_rung s0 = sl_rung s0"
  define s where "s = (if acute then s0\<lparr>sl_emergency_pending := False\<rparr>\<lparr>sl_reason := sr_kLossEmergency\<rparr> else s0\<lparr>sl_emergency_pending := False\<rparr>)"
  define down where "down \<longleftrightarrow> floor < sl_rung s"
  have v: "point_view s = point_view s0" "keeps_table s0 s" "rule_view s = rule_view s0"
    by (simp_all add: s_def point_view_def ladder_size_def keeps_table_def rule_view_def)
  have ok': "sel_ok s"
    using ok sel_ok_view [OF v(1)] by simp
  have n': "hi < ladder_size s" and idle': "sl_phase s = ph_kIdle"
    using n idle v(1) by (simp_all add: point_view_def)
  have fresh': "\<not> stale s now_ms"
    using fresh rule_view_cong(2) [OF v(3)] by simp
  have dem: "eval_outcome F now_ms lo hi s0 (start_demote t now_ms reason ch s)"
    if "t < sl_rung s" for t reason ch
    using eval_outcome_from [OF eval_outcome_demote [OF ok' that] v(2,3)] n' by simp
  have fade: "eval_outcome F now_ms lo hi s0 (start_demote t now_ms reason ch (s\<lparr>sl_fade_ticks := 0\<rparr>))"
    if "t < sl_rung s" for t reason ch
  proof -
    have "sel_ok (s\<lparr>sl_fade_ticks := 0\<rparr>)"
      using ok' sel_ok_view [of "s\<lparr>sl_fade_ticks := 0\<rparr>" s] by (simp add: point_view_def ladder_size_def)
    moreover have "0 < ladder_size (s\<lparr>sl_fade_ticks := 0\<rparr>)" "t < sl_rung (s\<lparr>sl_fade_ticks := 0\<rparr>)"
      using n' that by (auto simp: ladder_size_def)
    ultimately have d: "step_ok (s\<lparr>sl_fade_ticks := 0\<rparr>) (start_demote t now_ms reason ch (s\<lparr>sl_fade_ticks := 0\<rparr>))"
      "no_climb (s\<lparr>sl_fade_ticks := 0\<rparr>) (start_demote t now_ms reason ch (s\<lparr>sl_fade_ticks := 0\<rparr>))"
      using demote_no_climb by blast+
    have st: "keeps_table s0 (s\<lparr>sl_fade_ticks := 0\<rparr>)"
      using v(2) by (simp add: keeps_table_def)
    show ?thesis
      using step_ok_from [OF d(1) st] d(2) st by (simp add: eval_outcome_def no_climb_def keeps_table_def)
  qed
  have climb: "eval_outcome F now_ms lo hi s0 (eval_climb F (adaptive_hi s now_ms lo hi) now_ms s)"
    using eval_outcome_from [OF eval_climb_outcome [OF ok' idle' n' lo fresh' refl, folded eval_outcome_def] v(2,3)] .
  have eq: "eval_cascade F lo hi floor now_ms s0 =
     (if acute \<and> down then start_demote floor now_ms sr_kLossEmergency True s
      else if cooled_down s now_ms \<and> persistent_loss s \<and> down then start_demote (sl_rung s - 1) now_ms sr_kLossPersistent True s
      else if cooled_down s now_ms \<and> fp_le F (sl_rssi_ewma s) (fp_of_int F (sint (sp_rssi_floor_dbm (sl_policy s)))) \<and> down
      then start_demote (sl_rung s - 1) now_ms sr_kRssiFloor False s
      else if cooled_down s now_ms \<and> sp_fade_ticks (sl_policy s) \<le> sl_fade_ticks s \<and> down
      then start_demote (sl_rung s - 1) now_ms sr_kRssiFade False (s\<lparr>sl_fade_ticks := 0\<rparr>)
      else eval_climb F (adaptive_hi s now_ms lo hi) now_ms s)"
    unfolding eval_cascade_def Let_def acute_def [symmetric] s_def [symmetric] down_def [symmetric] ..
  have one: "sl_rung s - 1 < sl_rung s" if down
    using that by (simp add: down_def)
  show ?thesis
    unfolding eq using dem fade climb one by (simp add: down_def)
qed

lemma eval_failsafe_ok:
  assumes ok: "sel_ok s" and n: "0 < ladder_size s"
  shows "step_ok s (eval_failsafe floor now_ms s) \<and> no_climb s (eval_failsafe floor now_ms s)"
proof -
  define s1 where "s1 = s\<lparr>sl_state := ''FAILSAFE''\<rparr>"
  have q: "step_ok s (s1, no_actions) \<and> no_climb s (s1, no_actions)"
    using ok sel_ok_view [of s1 s] by (simp add: s1_def no_climb_def point_view_def ladder_size_def step_ok_quiet)
  have d: "step_ok s r \<and> no_climb s r"
    if "r = start_demote (sl_rung s - 1) now_ms reason ch (s1\<lparr>sl_failsafe_next_step_ms := x\<rparr>)" "0 < sl_rung s" for r reason ch x
  proof -
    let ?s = "s1\<lparr>sl_failsafe_next_step_ms := x\<rparr>"
    have "sel_ok ?s"
      using ok sel_ok_view [of ?s s] by (simp add: s1_def point_view_def ladder_size_def)
    from demote_no_climb [OF this, of "sl_rung s - 1" now_ms reason ch] that n have "step_ok ?s r \<and> no_climb ?s r"
      by (simp add: s1_def ladder_size_def)
    then show ?thesis
      by (auto simp: no_climb_def s1_def keeps_table_def intro: step_ok_from)
  qed
  show ?thesis
    unfolding eval_failsafe_def Let_def s1_def [symmetric] using q d by (simp add: s1_def)
qed

text \<open>The three ways a tick can raise the rung: the pin leaves one rung only; the pin moved up and the
  feedback is fresh; or a warranted climb by one rung.\<close>

definition climbs_lawfully :: "'d fp \<Rightarrow> u64 \<Rightarrow> 'd Selector \<Rightarrow> nat \<Rightarrow> bool" where
  "climbs_lawfully F now_ms s r' \<longleftrightarrow>
     (let t = thaw s; lo = clamp_rung t 0; hi = clamp_rung t (ladder_size t - 1)
      in sl_phase s = ph_kIdle \<and> (sl_csa_freeze_until_ms s = 0 \<or> sl_csa_freeze_until_ms s \<le> now_ms)
       \<and> (lo = hi \<and> r' = lo
          \<or> sl_rung s < lo \<and> \<not> stale t now_ms \<and> r' = lo
          \<or> r' = sl_rung s + 1 \<and> warranted F now_ms lo hi t))"

lemma thaw_table: "keeps_table s (thaw s)" "sl_phase (thaw s) = sl_phase s" "ladder_size (thaw s) = ladder_size s"
  by (simp_all add: thaw_def keeps_table_def ladder_size_def Let_def)

lemma eval_pinned_ok:
  assumes "sel_ok s" and "sl_phase s = ph_kIdle" and "lo < ladder_size s"
  shows "step_ok s (eval_pinned lo now_ms s)" and "sl_rung (fst (eval_pinned lo now_ms s)) = lo"
proof -
  let ?s = "s\<lparr>sl_state := ''PINNED''\<rparr>"
  have ok: "sel_ok ?s"
    using assms(1) sel_ok_view [of ?s s] by (simp add: point_view_def ladder_size_def)
  have j: "step_ok ?s (jump_to lo now_ms ?s)" "sl_rung (fst (jump_to lo now_ms ?s)) = lo"
    using jump_to_ok [OF ok] assms by (simp_all add: ladder_size_def)
  have "step_ok s (jump_to lo now_ms ?s)"
    using j(1) by (rule step_ok_from) (simp add: keeps_table_def)
  then show "step_ok s (eval_pinned lo now_ms s)" "sl_rung (fst (eval_pinned lo now_ms s)) = lo"
    using j ok by (auto simp: eval_pinned_def Let_def intro: step_ok_quiet)
qed

lemma eval_repin_ok:
  assumes "sel_ok s" and "sl_phase s = ph_kIdle" and "r < ladder_size s"
  shows "step_ok s (eval_repin r now_ms s)" and "sl_rung (fst (eval_repin r now_ms s)) = r"
proof -
  obtain s1 a where j: "jump_to r now_ms s = (s1, a)"
    by fastforce
  have k: "step_ok s (s1, a)" "sl_rung s1 = r"
    using jump_to_ok [OF assms, of now_ms] by (simp_all add: j)
  have "sel_ok (s1\<lparr>sl_state := ''REPIN''\<rparr>) = sel_ok s1"
    by (rule sel_ok_view) (simp add: point_view_def ladder_size_def)
  then show "step_ok s (eval_repin r now_ms s)" "sl_rung (fst (eval_repin r now_ms s)) = r"
    using k by (auto simp: eval_repin_def j step_ok_def commit_of_def)
qed

lemma evaluate_outcome:
  assumes ok: "sel_ok s0" and idle: "sl_phase s0 = ph_kIdle" and n: "0 < ladder_size s0"
  shows "step_ok s0 (evaluate F now_ms s0)
    \<and> (no_climb s0 (evaluate F now_ms s0) \<or> climbs_lawfully F now_ms s0 (sl_rung (fst (evaluate F now_ms s0))))"
proof (cases "sl_csa_freeze_until_ms s0 \<noteq> 0 \<and> now_ms < sl_csa_freeze_until_ms s0")
  case True
  have "sel_ok (s0\<lparr>sl_state := ''CSA_FREEZE''\<rparr>) = sel_ok s0"
    by (rule sel_ok_view) (simp add: point_view_def ladder_size_def)
  then show ?thesis
    using ok unfolding evaluate_def if_P [OF True] by (simp add: step_ok_quiet no_climb_def)
next
  case free: False
  define s where "s = thaw s0"
  define lo where "lo = clamp_rung s 0"
  define hi where "hi = clamp_rung s (ladder_size s - 1)"
  have ok': "sel_ok s"
    using ok sel_ok_view [OF view_others(5) [of s0]] by (simp add: s_def)
  have st: "keeps_table s0 s" and ph: "sl_phase s = ph_kIdle" and n': "0 < ladder_size s"
    using thaw_table [of s0] idle n by (simp_all add: s_def)
  have rung: "sl_rung s = sl_rung s0"
    using st by (simp add: keeps_table_def)
  have b: "lo < ladder_size s" "hi < ladder_size s" "lo \<le> hi"
    unfolding lo_def hi_def using n' by (simp_all add: clamp_rung_less clamp_rung_mono)
  have lawful: "climbs_lawfully F now_ms s0 r' \<longleftrightarrow> (lo = hi \<and> r' = lo \<or> sl_rung s0 < lo \<and> \<not> stale s now_ms \<and> r' = lo
      \<or> r' = sl_rung s0 + 1 \<and> warranted F now_ms lo hi s)" for r'
    using free idle unfolding climbs_lawfully_def Let_def s_def [symmetric] lo_def [symmetric] hi_def [symmetric] by auto
  have eq: "evaluate F now_ms s0 = (if lo = hi then eval_pinned lo now_ms s
         else if hi < sl_rung s \<or> (sl_rung s < lo \<and> \<not> stale s now_ms)
         then eval_repin (if hi < sl_rung s then hi else lo) now_ms s
         else if stale s now_ms then eval_failsafe (safe_floor_rung s) now_ms s
         else eval_cascade F lo hi (safe_floor_rung s) now_ms s)"
    unfolding evaluate_def if_not_P [OF free] Let_def s_def [symmetric] lo_def [symmetric] hi_def [symmetric] ..
  define r where "r = evaluate F now_ms s0"
  have "step_ok s r \<and> (no_climb s r \<or> climbs_lawfully F now_ms s0 (sl_rung (fst r)))"
  proof (cases "lo = hi")
    case True
    then have "r = eval_pinned lo now_ms s"
      by (simp add: r_def eq)
    then show ?thesis
      using eval_pinned_ok [OF ok' ph b(1), of now_ms] True lawful by simp
  next
    case wide: False
    show ?thesis
    proof (cases "hi < sl_rung s \<or> (sl_rung s < lo \<and> \<not> stale s now_ms)")
      case True
      define t where "t = (if hi < sl_rung s then hi else lo)"
      have "r = eval_repin t now_ms s"
        using True wide by (simp add: r_def eq t_def)
      moreover have "t < ladder_size s"
        using b by (simp add: t_def)
      ultimately have j: "step_ok s r" "sl_rung (fst r) = t"
        using eval_repin_ok [OF ok' ph] by simp_all
      show ?thesis
      proof (cases "hi < sl_rung s")
        case True
        then show ?thesis
          using j by (auto simp: no_climb_def t_def split: prod.splits)
      next
        case False
        then have "sl_rung s0 < lo \<and> \<not> stale s now_ms \<and> sl_rung (fst r) = lo"
          using True j rung by (simp add: t_def)
        then show ?thesis
          using j lawful by blast
      qed
    next
      case inside: False
      show ?thesis
      proof (cases "stale s now_ms")
        case True
        then show ?thesis
          using eval_failsafe_ok [OF ok' n', of "safe_floor_rung s" now_ms] wide inside by (simp add: r_def eq)
      next
        case False
        have "r = eval_cascade F lo hi (safe_floor_rung s) now_ms s"
          using wide inside False by (simp add: r_def eq)
        then show ?thesis
          using eval_cascade_outcome [OF ok' ph b(2,3) False, of F "safe_floor_rung s"] rung
          unfolding eval_outcome_def lawful by auto
      qed
    qed
  qed
  then show ?thesis
    using step_ok_from [OF _ st] rung by (auto simp: r_def [symmetric] no_climb_def)
qed

lemma tick_outcome:
  assumes ok: "sel_ok s"
  shows "step_ok s (sl_tick F now_ms s)
    \<and> (no_climb s (sl_tick F now_ms s) \<or> climbs_lawfully F now_ms s (sl_rung (fst (sl_tick F now_ms s))))"
proof (cases "ladder_size s = 0")
  case True
  then show ?thesis
    using ok by (simp add: sl_tick_def step_ok_quiet no_climb_def)
next
  case n: False
  note t = sl_tick_def [of F now_ms s, unfolded if_not_P [OF n]]
  show ?thesis
  proof (cases "sl_phase s")
    case ph_kBoot
    then show ?thesis
      using ok n by (auto simp: t sel_ok_def step_ok_def no_climb_def ladder_size_def target_bitrate_def commit_of_def Let_def)
  next
    case ph_kBitrateLead
    then show ?thesis
      using ok n
      by (auto simp: t sel_ok_def step_ok_def no_climb_def ladder_size_def target_bitrate_def commit_of_def no_actions_def Let_def)
  next
    case ph_kMcsGrace
    then show ?thesis
      using ok n
      by (auto simp: t sel_ok_def step_ok_def no_climb_def ladder_size_def target_bitrate_def move_bitrate_def no_actions_def Let_def)
  next
    case ph_kIdle
    then show ?thesis
      using evaluate_outcome [OF ok, of F now_ms] n by (simp add: t)
  qed
qed

section \<open>Runs\<close>

datatype sel_event =
    SelReport link_report u64
  | SelVerdict u8 u64
  | SelPressure bool u64
  | SelEnvironment u16 u8 u64
  | SelFreeze u64
  | SelPin u8 u8
  | SelTick u64

fun sel_step :: "'d fp \<Rightarrow> sel_event \<Rightarrow> 'd Selector \<Rightarrow> 'd Selector" where
  "sel_step F (SelReport r now_ms) s = snd (on_report F r now_ms s)"
| "sel_step F (SelVerdict v now_ms) s = on_verdict v now_ms s"
| "sel_step F (SelPressure on now_ms) s = set_pressure on now_ms s"
| "sel_step F (SelEnvironment ch bw now_ms) s = snd (on_rf_environment F ch bw now_ms s)"
| "sel_step F (SelFreeze u) s = csa_freeze u s"
| "sel_step F (SelPin mn mx) s = set_profile_pin mn mx s"
| "sel_step F (SelTick now_ms) s = fst (sl_tick F now_ms s)"

lemma sel_ok_new: "sel_ok (new_selector F pol table)"
proof -
  have b: "sel_ok (s\<lparr>sl_rung := safe_floor_rung s\<rparr>)" if "s = blank_selector F pol ps fl" for s ps fl
    using safe_floor_less [of s] by (simp add: that blank_selector_def sel_ok_def ladder_size_def Let_def)
  show ?thesis
    unfolding new_selector_def Let_def by (cases table) (simp_all add: b)
qed

lemma sel_ok_step: "sel_ok s \<Longrightarrow> sel_ok (sel_step F ev s)"
proof (cases ev)
  case (SelReport r now_ms)
  then show "sel_ok s \<Longrightarrow> ?thesis"
    using sel_ok_view [OF view_on_report [of F r now_ms s]] by simp
next
  case (SelEnvironment ch bw now_ms)
  then show "sel_ok s \<Longrightarrow> ?thesis"
    using sel_ok_view [OF view_on_rf_environment [of F ch bw now_ms s]] by simp
next
  case (SelTick now_ms)
  then show "sel_ok s \<Longrightarrow> ?thesis"
    using tick_outcome [of s F now_ms] by (auto simp: step_ok_def split: prod.splits)
qed (simp_all add: sel_ok_view [OF view_others(1)] sel_ok_view [OF view_others(2)] sel_ok_view [OF view_others(3)]
    sel_ok_view [OF view_others(4)])

lemma sel_ok_run: "sel_ok (fold (sel_step F) evs (new_selector F pol table))"
proof -
  have "sel_ok s \<Longrightarrow> sel_ok (fold (sel_step F) evs s)" for s
    by (induction evs arbitrary: s) (simp_all add: sel_ok_step)
  then show ?thesis
    by (simp add: sel_ok_new)
qed

section \<open>The fail-safe\<close>

text \<open>No feedback: at \<open>t\<close> the last report, or the end of a channel-switch freeze, which the code
  excuses, lies back by more than the timeout and the hold.\<close>

definition silent :: "'d Selector \<Rightarrow> nat \<Rightarrow> bool" where
  "silent s t \<longleftrightarrow> sl_have_report s
     \<and> max (unat (sl_last_report_ms s)) (unat (sl_csa_freeze_until_ms s))
         + unat (sp_report_timeout_ms (sl_policy s)) + unat (sp_failsafe_hold_ms (sl_policy s)) < t
     \<and> unat (sp_report_timeout_ms (sl_policy s)) + unat (sp_failsafe_hold_ms (sl_policy s)) < 2 ^ 32"

text \<open>The running timers end by \<open>t\<close>: the transition under way and the pace of the fail-safe.\<close>

definition timers_out :: "'d Selector \<Rightarrow> nat \<Rightarrow> bool" where
  "timers_out s t \<longleftrightarrow> (sl_phase s \<in> {ph_kBitrateLead, ph_kMcsGrace} \<longrightarrow> unat (sl_phase_deadline_ms s) \<le> t)
     \<and> unat (sl_failsafe_next_step_ms s) \<le> t"

text \<open>The rung a selector is on its way to.\<close>

definition heading :: "'d Selector \<Rightarrow> nat" where
  "heading s = (if sl_phase s = ph_kBitrateLead then sl_pending_target s else sl_rung s)"

text \<open>How many ticks it takes at most to come to rest at the floor.\<close>

definition ticks_left :: "'d Selector \<Rightarrow> nat" where
  "ticks_left s = (let hi = clamp_rung s (ladder_size s - 1); floor = safe_floor_rung s
     in (if sl_phase s = ph_kIdle then 0 else 1)
      + (if hi < heading s then 1 + 2 * (hi - floor) else 2 * (heading s - floor)))"

lemma unat_u64_less: "unat (x :: u64) < 2 ^ 64"
  using unsigned_less [of x] by simp

lemma silent_stale:
  assumes s: "silent s (unat t)"
  shows "stale s t" and "\<not> report_age_ms s t < ucast (sp_report_timeout_ms (sl_policy s) + sp_failsafe_hold_ms (sl_policy s))"
    and "\<not> t < sl_csa_freeze_until_ms s"
proof -
  let ?to = "sp_report_timeout_ms (sl_policy s)" and ?ho = "sp_failsafe_hold_ms (sl_policy s)"
  have lt: "unat (sl_last_report_ms s) + unat ?to + unat ?ho < unat t" and nw: "unat ?to + unat ?ho < 2 ^ 32"
    and fz: "unat (sl_csa_freeze_until_ms s) < unat t"
    using s by (auto simp: silent_def max_def split: if_splits)
  have "sl_last_report_ms s \<le> t" "\<not> t \<le> sl_last_report_ms s"
    using lt by (simp_all add: word_le_nat_alt)
  then have age: "unat (report_age_ms s t) = unat t - unat (sl_last_report_ms s)"
    using s by (simp add: report_age_ms_def silent_def unat_diff_le)
  have sum: "unat (?to + ?ho) = unat ?to + unat ?ho"
    using nw by (simp add: unat_word_ariths)
  have "unat ?to < unat t - unat (sl_last_report_ms s)" "unat ?to + unat ?ho < unat t - unat (sl_last_report_ms s)"
    using lt by linarith+
  then show "stale s t" "\<not> report_age_ms s t < ucast (?to + ?ho)"
    by (simp_all add: stale_def word_less_nat_alt age sum)
  show "\<not> t < sl_csa_freeze_until_ms s"
    using fz by (simp add: word_less_nat_alt)
qed

lemma silent_thaw: "silent s t \<Longrightarrow> silent (thaw s) t"
  by (auto simp: silent_def thaw_def word_less_nat_alt Let_def)

lemma silent_later: "silent s t \<Longrightarrow> t \<le> t' \<Longrightarrow> silent s t'"
  by (simp add: silent_def)

lemma clamp_rung_top: "0 < ladder_size s \<Longrightarrow> clamp_rung s r \<le> clamp_rung s (ladder_size s - 1)"
  using rung_of_id_less [of "ladder_size s - 1" s "sp_max_profile (sl_policy s)"] by (auto simp: clamp_rung_def Let_def)

lemma floor_below_hi: "0 < ladder_size s \<Longrightarrow> safe_floor_rung s \<le> clamp_rung s (ladder_size s - 1)"
  using clamp_rung_top [of s 0] clamp_rung_top [of s "floor_rung s"] by (simp add: safe_floor_rung_def)

lemma unat_add_small: "unat (t1 :: u64) + unat (x :: u32) \<le> unat (t2 :: u64) \<Longrightarrow> unat (t1 + ucast x) = unat t1 + unat x"
  using unat_u64_less [of t2] by (simp add: unat_word_ariths)

text \<open>The clamps and the floor depend on the table and the pins only.\<close>

lemma same_ladder:
  assumes "sl_policy s' = sl_policy s" and "sl_profiles s' = sl_profiles s" and "sl_floor_profile s' = sl_floor_profile s"
  shows "ladder_size s' = ladder_size s" and "clamp_rung s' r = clamp_rung s r" and "safe_floor_rung s' = safe_floor_rung s"
  using assms clamp_rung_cong [of s' s] safe_floor_cong [of s' s] by (simp_all add: ladder_size_def)

text \<open>What one tick of a silent selector does.\<close>

definition descends :: "nat \<Rightarrow> u64 \<Rightarrow> 'd Selector \<Rightarrow> 'd Selector \<Rightarrow> bool" where
  "descends gap t s s' \<longleftrightarrow> (\<forall>t'. t' \<ge> unat t \<longrightarrow> silent s' t')
     \<and> (\<forall>t' :: u64. unat t + gap \<le> unat t' \<longrightarrow> timers_out s' (unat t'))
     \<and> min (heading s') (safe_floor_rung s) = min (heading s) (safe_floor_rung s)
     \<and> ticks_left s' \<le> ticks_left s - 1"

abbreviation failsafe_gap :: "'d Selector \<Rightarrow> nat" where
  "failsafe_gap s \<equiv> max (unat (sp_bitrate_lead_ms (sl_policy s))) (unat (sp_failsafe_step_ms (sl_policy s)))"

text \<open>A transition, or the boot, that ends.\<close>

lemma settles_descends:
  assumes ph: "sl_phase s \<noteq> ph_kIdle" and n: "0 < ladder_size s" and si: "silent s (unat t)" and ti: "timers_out s (unat t)"
  shows "descends gap t s (fst (sl_tick F t s))"
proof -
  define s' where "s' = fst (sl_tick F t s)"
  have dl: "sl_phase s \<in> {ph_kBitrateLead, ph_kMcsGrace} \<Longrightarrow> sl_phase_deadline_ms s \<le> t"
    using ti by (simp add: timers_out_def word_le_nat_alt)
  have f: "sl_phase s' = ph_kIdle" "sl_rung s' = heading s" "watch_view s' = watch_view s"
    "sl_policy s' = sl_policy s" "sl_profiles s' = sl_profiles s" "sl_floor_profile s' = sl_floor_profile s"
    using ph n dl
    by (cases "sl_phase s"; simp add: s'_def sl_tick_def heading_def watch_view_def move_bitrate_def Let_def split: if_splits)+
  have h: "heading s' = heading s"
    using f by (simp add: heading_def)
  have "silent s' t'" if "unat t \<le> t'" for t'
    using silent_later [OF si that] f by (simp add: silent_def watch_view_def)
  moreover have "timers_out s' (unat t')" if "unat t + gap \<le> unat t'" for t' :: u64
    using ti f that by (simp add: timers_out_def watch_view_def)
  moreover have "ticks_left s' = ticks_left s - 1"
    using ph h same_ladder [OF f(4-6)] by (simp add: ticks_left_def f(1) Let_def)
  ultimately show ?thesis
    using h unfolding descends_def s'_def [symmetric] by simp
qed

text \<open>An idle one: back into the pins, one rung down, or at rest.\<close>

lemma idle_descends:
  assumes ok: "sel_ok s" and ph: "sl_phase s = ph_kIdle" and si: "silent s (unat t)" and ti: "timers_out s (unat t)"
    and wide: "clamp_rung s 0 \<noteq> clamp_rung s (ladder_size s - 1)" and gap: "failsafe_gap s \<le> gap"
  shows "descends gap t s (fst (sl_tick F t s))"
proof -
  define u where "u = thaw s"
  define lo where "lo = clamp_rung u 0"
  define hi where "hi = clamp_rung u (ladder_size u - 1)"
  define fl where "fl = safe_floor_rung u"
  have st: "keeps_table s u" and phu: "sl_phase u = ph_kIdle"
    using thaw_table [of s] ph by (simp_all add: u_def)
  have tab: "sl_policy u = sl_policy s" "sl_profiles u = sl_profiles s" "sl_floor_profile u = sl_floor_profile s" "sl_rung u = sl_rung s"
    using st by (simp_all add: keeps_table_def)
  note same = same_ladder [OF tab(1-3)]
  have n: "0 < ladder_size s"
    using wide by (auto simp: clamp_rung_def Let_def split: if_splits)
  have siu: "silent u (unat t)"
    unfolding u_def using si by (rule silent_thaw)
  have fzu: "sl_csa_freeze_until_ms u = 0" "sl_failsafe_next_step_ms u = sl_failsafe_next_step_ms s"
    by (simp_all add: u_def thaw_def Let_def)
  have nx: "sl_failsafe_next_step_ms u \<le> t"
    using ti by (simp add: timers_out_def word_le_nat_alt fzu(2))
  have ne: "lo \<noteq> hi"
    using wide by (simp add: lo_def hi_def same)
  have flhi: "fl \<le> hi"
    using floor_below_hi [OF n] by (simp add: fl_def hi_def same)
  have ok': "sel_ok u"
    using ok sel_ok_view [OF view_others(5) [of s]] by (simp add: u_def)
  have tick: "sl_tick F t s = (if hi < sl_rung u then eval_repin hi t u else eval_failsafe fl t u)"
  proof -
    have "evaluate F t s = (if lo = hi then eval_pinned lo t u
         else if hi < sl_rung u \<or> (sl_rung u < lo \<and> \<not> stale u t) then eval_repin (if hi < sl_rung u then hi else lo) t u
         else if stale u t then eval_failsafe fl t u else eval_cascade F lo hi fl t u)"
      using silent_stale(3) [OF si]
      unfolding evaluate_def Let_def u_def [symmetric] lo_def [symmetric] hi_def [symmetric] fl_def [symmetric] by simp
    then show ?thesis
      using n ph ne silent_stale(1) [OF siu] by (simp add: sl_tick_def)
  qed
  have left: "ticks_left s = (if hi < sl_rung u then 1 + 2 * (hi - fl) else 2 * (sl_rung u - fl))"
    using ph by (simp add: ticks_left_def heading_def same [symmetric] hi_def fl_def tab(4))
  have head: "heading s = sl_rung u"
    using ph by (simp add: heading_def tab(4))
  show ?thesis
  proof (cases "hi < sl_rung u")
    case True
    define s' where "s' = fst (eval_repin hi t u)"
    have f: "sl_phase s' = ph_kIdle" "sl_rung s' = hi" "watch_view s' = watch_view u" "sl_policy s' = sl_policy u"
      "sl_profiles s' = sl_profiles u" "sl_floor_profile s' = sl_floor_profile u"
      using phu by (simp_all add: s'_def eval_repin_def jump_to_def move_bitrate_def watch_view_def Let_def)
    note same' = same_ladder [OF f(4-6)]
    have "silent s' t'" if "unat t \<le> t'" for t'
      using silent_later [OF siu that] f by (simp add: silent_def watch_view_def)
    moreover have "timers_out s' (unat t')" if "unat t + gap \<le> unat t'" for t' :: u64
      using nx that f by (simp add: timers_out_def watch_view_def word_le_nat_alt)
    moreover have "heading s' = hi"
      using f by (simp add: heading_def)
    moreover have "ticks_left s' = 2 * (hi - fl)"
      using f hi_def fl_def by (simp add: ticks_left_def heading_def same' Let_def)
    ultimately show ?thesis
      using True flhi left head tick unfolding descends_def by (simp add: s'_def same [symmetric] fl_def [symmetric])
  next
    case low: False
    show ?thesis
    proof (cases "fl < sl_rung u")
      case True
      define v where "v = u\<lparr>sl_state := ''FAILSAFE'', sl_failsafe_next_step_ms := t + ucast (sp_failsafe_step_ms (sl_policy u))\<rparr>"
      obtain s' a where d: "start_demote (sl_rung u - 1) t sr_kReportTimeout False v = (s', a)"
        by fastforce
      have age: "report_age_ms (u\<lparr>sl_state := x\<rparr>) t = report_age_ms u t" for x
        by (simp add: report_age_ms_def)
      have tk: "sl_tick F t s = (s', a)"
        using low True silent_stale(2) [OF siu] nx d by (simp add: tick eval_failsafe_def age v_def Let_def)
      have okv: "sel_ok v"
        using ok' sel_ok_view [of v u] by (simp add: v_def point_view_def ladder_size_def)
      have "sl_rung u - 1 < sl_rung v" "0 < ladder_size v"
        using True n same(1) by (simp_all add: v_def ladder_size_def)
      note sd = start_demote_ok [OF okv this d]
      have f: "sl_policy s' = sl_policy u" "sl_profiles s' = sl_profiles u" "sl_floor_profile s' = sl_floor_profile u"
        using sd(1) by (simp_all add: step_ok_def v_def)
      note same' = same_ladder [OF f]
      have "silent s' t'" if "unat t \<le> t'" for t'
        using silent_later [OF siu that] sd(6) f by (simp add: silent_def watch_view_def v_def)
      moreover have "timers_out s' (unat t')" if le: "unat t + gap \<le> unat t'" for t' :: u64
      proof -
        have "unat t + unat (sp_bitrate_lead_ms (sl_policy u)) \<le> unat t'" "unat t + unat (sp_failsafe_step_ms (sl_policy u)) \<le> unat t'"
          using le gap tab(1) by simp_all
        then show ?thesis
          using sd(5,6) unat_add_small [of t _ t'] by (simp add: timers_out_def watch_view_def v_def)
      qed
      moreover have h: "heading s' = sl_rung u - 1"
        using sd by (simp add: heading_def)
      moreover have "ticks_left s' = 1 + 2 * (sl_rung u - 1 - fl)"
        using sd(3) low True h hi_def fl_def by (simp add: ticks_left_def same' Let_def)
      ultimately show ?thesis
        using True low left head tk unfolding descends_def by (simp add: same [symmetric] fl_def [symmetric])
    next
      case False
      have tk: "fst (sl_tick F t s) = u\<lparr>sl_state := ''FAILSAFE''\<rparr>"
        using low False by (simp add: tick eval_failsafe_def Let_def)
      have "silent (u\<lparr>sl_state := x\<rparr>) t' = silent u t'" "heading (u\<lparr>sl_state := x\<rparr>) = heading u"
        "ticks_left (u\<lparr>sl_state := x\<rparr>) = ticks_left u" "timers_out (u\<lparr>sl_state := x\<rparr>) t' = timers_out u t'" for x t'
        using same_ladder [of "u\<lparr>sl_state := x\<rparr>" u] by (simp_all add: silent_def heading_def ticks_left_def timers_out_def Let_def)
      moreover have "heading u = sl_rung u"
        using phu by (simp add: heading_def)
      moreover have "ticks_left u = 0"
        using low False phu hi_def fl_def by (simp add: ticks_left_def heading_def Let_def)
      moreover have "timers_out u (unat t')" if "unat t + gap \<le> unat t'" for t' :: u64
        using nx that phu by (simp add: timers_out_def word_le_nat_alt)
      ultimately show ?thesis
        using silent_later [OF siu] head unfolding descends_def tk by simp
    qed
  qed
qed

text \<open>Tick times from \<open>t\<close> on, at least \<open>gap\<close> apart.\<close>

fun spaced_apart :: "nat \<Rightarrow> nat \<Rightarrow> u64 list \<Rightarrow> bool" where
  "spaced_apart gap t [] = True"
| "spaced_apart gap t (x # xs) = (t \<le> unat x \<and> spaced_apart gap (unat x + gap) xs)"

definition sel_ticks :: "'d fp \<Rightarrow> u64 list \<Rightarrow> 'd Selector \<Rightarrow> 'd Selector" where
  "sel_ticks F ts s = fold (\<lambda>t s. fst (sl_tick F t s)) ts s"

lemma ticks_descend:
  assumes "sel_ok s" and "clamp_rung s 0 \<noteq> clamp_rung s (ladder_size s - 1)"
    and "\<forall>t'. t0 \<le> t' \<longrightarrow> silent s t'" and "\<forall>t' :: u64. t0 \<le> unat t' \<longrightarrow> timers_out s (unat t')"
    and "failsafe_gap s \<le> gap" and "spaced_apart gap t0 ts"
  shows "min (heading (sel_ticks F ts s)) (safe_floor_rung s) = min (heading s) (safe_floor_rung s)
    \<and> safe_floor_rung (sel_ticks F ts s) = safe_floor_rung s \<and> ticks_left (sel_ticks F ts s) \<le> ticks_left s - length ts"
  using assms
proof (induction ts arbitrary: s t0)
  case Nil
  then show ?case
    by (simp add: sel_ticks_def)
next
  case (Cons t ts)
  define s' where "s' = fst (sl_tick F t s)"
  have t: "t0 \<le> unat t" "spaced_apart gap (unat t + gap) ts"
    using Cons.prems(6) by simp_all
  have n: "0 < ladder_size s"
    using Cons.prems(2) by (auto simp: clamp_rung_def Let_def split: if_splits)
  have D: "descends gap t s s'"
    using settles_descends [of s t gap F] idle_descends [of s t gap F] Cons.prems(1-5) t(1) n unfolding s'_def by blast
  have "step_ok s (s', snd (sl_tick F t s))"
    using tick_outcome [OF Cons.prems(1), of F t] by (auto simp: s'_def split: prod.splits)
  then have ok: "sel_ok s'" and tab: "sl_policy s' = sl_policy s" "sl_profiles s' = sl_profiles s" "sl_floor_profile s' = sl_floor_profile s"
    by (simp_all add: step_ok_def)
  note same = same_ladder [OF tab]
  have "min (heading (sel_ticks F ts s')) (safe_floor_rung s') = min (heading s') (safe_floor_rung s')
    \<and> safe_floor_rung (sel_ticks F ts s') = safe_floor_rung s' \<and> ticks_left (sel_ticks F ts s') \<le> ticks_left s' - length ts"
  proof (rule Cons.IH)
    show "\<forall>t'. unat t + gap \<le> t' \<longrightarrow> silent s' t'" "\<forall>t' :: u64. unat t + gap \<le> unat t' \<longrightarrow> timers_out s' (unat t')"
      using D by (simp_all add: descends_def)
    show "clamp_rung s' 0 \<noteq> clamp_rung s' (ladder_size s' - 1)" "failsafe_gap s' \<le> gap"
      using Cons.prems(2,5) by (simp_all add: same tab)
  qed (rule ok t(2))+
  moreover have "ticks_left s' - length ts \<le> ticks_left s - length (t # ts)"
    using diff_le_mono [of "ticks_left s'" "ticks_left s - 1" "length ts"] D by (simp add: descends_def)
  ultimately show ?case
    using D same(3) by (simp add: descends_def sel_ticks_def s'_def)
qed

lemma ticks_left_bound:
  assumes "0 < ladder_size s"
  shows "ticks_left s \<le> 2 * ladder_size s"
proof -
  have "clamp_rung s (ladder_size s - 1) < ladder_size s"
    using assms by (rule clamp_rung_less)
  then show ?thesis
    by (auto simp: ticks_left_def Let_def)
qed

lemma at_rest:
  assumes "ticks_left s = 0"
  shows "sl_phase s = ph_kIdle" and "sl_rung s = min (heading s) (safe_floor_rung s)"
  using assms by (auto simp: ticks_left_def heading_def Let_def split: if_splits)

section \<open>Theorems\<close>

text \<open>C8: In every reachable state of the rate selector, whatever reports, verdicts, pins, freezes and
  ticks came before, a tick leaves the operating point on the ladder; it moves the rung only
  together with a commit of exactly that rung's profile and the bitrate only together with a
  bitrate command; and when no transition is under way the bitrate is the one derived for the
  rung.\<close>

theorem selector_commits_what_it_runs:
  assumes "s = fold (sel_step F) evs (new_selector F pol table)" and "sl_tick F now_ms s = (s', a)" and "ladder_size s \<noteq> 0"
  shows "sl_rung s' < ladder_size s'
    \<and> (sl_rung s' \<noteq> sl_rung s \<longrightarrow> sa_commit a \<noteq> None) \<and> (\<forall>c. sa_commit a = Some c \<longrightarrow> c = commit_of s' (sl_rung s'))
    \<and> (sl_bitrate_kbps s' \<noteq> sl_bitrate_kbps s \<longrightarrow> sa_bitrate_kbps a \<noteq> None)
    \<and> (\<forall>b. sa_bitrate_kbps a = Some b \<longrightarrow> b = sl_bitrate_kbps s')
    \<and> (sl_phase s' = ph_kIdle \<longrightarrow> sl_bitrate_kbps s' = target_bitrate s' (sl_rung s'))"
proof -
  have "step_ok s (s', a)"
    using tick_outcome [of s F now_ms] sel_ok_run [of F evs pol table] by (simp add: assms(1) [symmetric] assms(2))
  then show ?thesis
    using assms(3) by (auto simp: step_ok_def sel_ok_def ladder_size_def Let_def)
qed

text \<open>C6: The selector never climbs optimistically: a tick that raises the rung is idle and not
  frozen, and either follows an operator pin, or climbs by one rung with fresh feedback, no flap
  freeze, no RSSI guard, no fresh saturation verdict, no fresh probe veto and no locked rung up
  to the target, except where a lockout collides with the operator's lower bound.\<close>

theorem selector_climbs_only_when_warranted:
  assumes "s = fold (sel_step F) evs (new_selector F pol table)" and "sl_rung s < sl_rung (fst (sl_tick F now_ms s))"
  shows "climbs_lawfully F now_ms s (sl_rung (fst (sl_tick F now_ms s)))"
  using tick_outcome [of s F now_ms] sel_ok_run [of F evs pol table] assms(2)
  by (auto simp: assms(1) [symmetric] no_climb_def split: prod.splits)

text \<open>C7: Whatever a selector has been through (any run of events, any phase, a transition under way,
  a channel-switch freeze, a rung above its range): if it is not pinned (its range has more than
  one rung), has heard at least one report, and the silence since the last report or the end of
  the freeze exceeds timeout plus hold (a sum below 2^32), then, once the running transition and
  fail-safe timers are out, two ticks per ladder rung, spaced by at least the fail-safe step and
  the bitrate lead, leave it idle at the lower of its safe floor and the rung it was heading
  for.\<close>

theorem selector_failsafe_reaches_floor:
  assumes "s = fold (sel_step F) evs (new_selector F pol table)"
    and "clamp_rung s 0 \<noteq> clamp_rung s (ladder_size s - 1)"
    and "silent s t0" and "timers_out s t0"
    and "spaced_apart (max (unat (sp_bitrate_lead_ms (sl_policy s))) (unat (sp_failsafe_step_ms (sl_policy s)))) t0 ts"
    and "2 * ladder_size s \<le> length ts"
  shows "sl_rung (sel_ticks F ts s) = min (heading s) (safe_floor_rung s) \<and> sl_phase (sel_ticks F ts s) = ph_kIdle"
proof -
  have ok: "sel_ok s"
    using sel_ok_run [of F evs pol table] by (simp add: assms(1))
  have n: "0 < ladder_size s"
    using assms(2) by (auto simp: clamp_rung_def Let_def split: if_splits)
  have "\<forall>t'. t0 \<le> t' \<longrightarrow> silent s t'" "\<forall>t' :: u64. t0 \<le> unat t' \<longrightarrow> timers_out s (unat t')"
    using assms(3,4) silent_later by (auto simp: timers_out_def)
  from ticks_descend [OF ok assms(2) this order.refl assms(5)]
  have D: "min (heading (sel_ticks F ts s)) (safe_floor_rung s) = min (heading s) (safe_floor_rung s)"
    "safe_floor_rung (sel_ticks F ts s) = safe_floor_rung s" "ticks_left (sel_ticks F ts s) = 0"
    using ticks_left_bound [OF n] assms(6) by (auto intro: le_zero_eq [THEN iffD1] order_trans)
  show ?thesis
    using at_rest [OF D(3)] D(1,2) by simp
qed

section \<open>Examples\<close>

text \<open>Integers stand in for \<open>double\<close>.\<close>

definition fp_demo :: "int fp" where
  "fp_demo = \<lparr>fp_of_int = (\<lambda>x. x), fp_add = (+), fp_sub = (-), fp_mul = (*), fp_div = (div), fp_neg = uminus,
     fp_le = (\<le>), fp_lt = (<), fp_trunc = (\<lambda>x. x)\<rparr>"

definition sel_profile :: "u8 \<Rightarrow> Profile" where
  "sel_profile i = \<lparr>pf_id = i, pf_mcs = i, pf_gi = gi_kLong, pf_tx_power_level = 4, pf_airtime_budget_permille = 700,
     pf_max_payload = 1400, pf_fec_scheme = fec_kRlc256, pf_fec_overhead_permille = 200, pf_arq_deadline_iframe_ms = 30,
     pf_arq_deadline_pframe_ms = 20, pf_bitrate_min_kbps = 1000, pf_reserve_control_bps = 10000, pf_reserve_telemetry_bps = 10000\<rparr>"

definition sel_table :: ProfileTable where
  "sel_table = \<lparr>pt_profiles = [sel_profile 0, sel_profile 1], pt_floor_profile = 0, pt_probe_period = 0, pt_probe_slot = 0\<rparr>"

definition sel_policy :: "int SelectorPolicy" where
  "sel_policy = \<lparr>sp_demote_milli = 45, sp_emergency_loss_milli = 200, sp_loss_min_uniq = 32, sp_loss_persist_score = 5,
     sp_rung_lockout_ms = 30000, sp_rung_lockout_latch_count = 4, sp_rssi_floor_dbm = 171, sp_rssi_fade_db_per_s = 10,
     sp_rssi_fade_arm_dbm = 191, sp_fade_ticks = 3, sp_down_cooldown_ms = 200, sp_ewma_alpha = 1, sp_slope_alpha = 1,
     sp_rung_rssi_floor_dbm = [168, 171, 173, 176, 179, 183, 185, 186], sp_promote_rssi_hyst_db = 6, sp_promote_dwell_ms = 500,
     sp_verdict_ttl_ms = 3000, sp_probe_veto_permille = 50, sp_probe_veto_ttl_ms = 3000, sp_bitrate_lead_ms = 500,
     sp_mcs_up_grace_ms = 250, sp_mcs_settle_ms = 5000, sp_reentry_backoff_ms = 5000, sp_reentry_dwell_ms = 2000,
     sp_flap_freeze_count = 3, sp_flap_freeze_window_ms = 10000, sp_flap_freeze_ms = 10000, sp_min_profile = 0, sp_max_profile = 255,
     sp_max_bitrate_kbps = 0, sp_report_timeout_ms = 1000, sp_failsafe_hold_ms = 500, sp_failsafe_step_ms = 1000,
     sp_pressure_escape_ms = 2000\<rparr>"

definition sel_report :: link_report where
  "sel_report = \<lparr>lr_prefix = \<lparr>originator = 2, destination = 1, session_id = 7\<rparr>, lr_target_originator = 1, lr_target_session = 5,
     lr_target_stream_id = 0, lr_report_epoch = 1, lr_table_version = 0, lr_rssi_best = 206, lr_rssi_mean = 206,
     lr_loss_postdiv_prearq = 0, lr_uniq = 100, lr_diversity = 0, lr_adapters = 1, lr_probe_per = 0xFFFF, lr_recommended_prof = 0\<rparr>"

definition sel_events :: "sel_event list" where
  "sel_events = [SelTick 1000, SelReport sel_report 1100]"

lemmas sel_eval = sel_events_def sl_tick_def new_selector_def blank_selector_def sel_table_def sel_profile_def sel_policy_def
  safe_floor_rung_def clamp_rung_def rung_of_id_def floor_rung_def ladder_size_def target_bitrate_def clamp_bitrate_kbps_def
  derive_bitrate_kbps_def kHt20LgiKbps_def on_report_def note_reporter_def reset_environment_state_def sel_report_def
  smooth_report_def arm_fade_def classify_loss_def rung_locked_def bump_score_def zero_rung_loss_def fp_demo_def kNoProbe_def Let_def

abbreviation sel_demo :: "sel_event list \<Rightarrow> int Selector" where
  "sel_demo evs \<equiv> fold (sel_step fp_demo) evs (new_selector fp_demo sel_policy (Some sel_table))"

lemmas sel_climb_eval = sel_eval evaluate_def thaw_def stale_def report_age_ms_def eval_cascade_def cooled_down_def persistent_loss_def
  eval_climb_def adaptive_hi_def lockout_ceiling_rung_def wants_escape_def wants_promote_def rssi_guard_active_def flap_frozen_def
  recent_demote_def saturated_fresh_def probe_veto_fresh_def kSaturated_def start_promote_def move_bitrate_def

lemma sel_demo_climb: "sl_rung (sel_demo sel_events) = 0" "ladder_size (sel_demo sel_events) = 2"
    "sl_rung (fst (sl_tick fp_demo 1700 (sel_demo sel_events))) = 1"
  by (simp_all add: sel_climb_eval)

theorem selector_commits_what_it_runs_witness:
  "sa_commit (snd (sl_tick fp_demo 1700 (sel_demo sel_events)))
     = Some (commit_of (fst (sl_tick fp_demo 1700 (sel_demo sel_events))) 1)"
proof -
  obtain s' a where t: "sl_tick fp_demo 1700 (sel_demo sel_events) = (s', a)"
    by fastforce
  have "ladder_size (sel_demo sel_events) \<noteq> 0"
    by (simp only: sel_demo_climb(2))
  from selector_commits_what_it_runs [OF refl t this] show ?thesis
    using sel_demo_climb(1,3) unfolding t by auto
qed

theorem selector_climbs_only_when_warranted_witness:
  "climbs_lawfully fp_demo 1700 (sel_demo sel_events) 1 \<and> sl_rung (sel_demo sel_events) = 0"
  using selector_climbs_only_when_warranted [of "sel_demo sel_events", OF refl, of 1700] sel_demo_climb(1,3) by simp

text \<open>After the climb the reports stop.\<close>

definition sel_silence :: "sel_event list" where
  "sel_silence = sel_events @ [SelTick 1700, SelTick 2000]"

lemma sel_demo_silence:
  "sl_rung (sel_demo sel_silence) = 1" "sl_phase (sel_demo sel_silence) = ph_kIdle"
  "sl_csa_freeze_until_ms (sel_demo sel_silence) = 0" "sl_policy (sel_demo sel_silence) = sel_policy"
  "sl_profiles (sel_demo sel_silence) = [sel_profile 0, sel_profile 1]" "sl_floor_profile (sel_demo sel_silence) = 0"
  "sl_have_report (sel_demo sel_silence)" "sl_last_report_ms (sel_demo sel_silence) = 1100"
  "sl_failsafe_next_step_ms (sel_demo sel_silence) = 0"
  by (simp_all add: sel_silence_def sel_climb_eval)

theorem selector_failsafe_reaches_floor_witness:
  "sl_rung (sel_demo sel_silence) = 1 \<and> sl_rung (sel_ticks fp_demo [3000, 4000, 5000, 6000] (sel_demo sel_silence)) = 0"
proof -
  define s where "s = sel_demo sel_silence"
  note f = sel_demo_silence [folded s_def]
  have c: "clamp_rung s 0 = 0" "clamp_rung s (ladder_size s - 1) = 1" "safe_floor_rung s = 0" "ladder_size s = 2"
    by (simp_all add: clamp_rung_def safe_floor_rung_def ladder_size_def rung_of_id_def floor_rung_def f sel_policy_def sel_profile_def Let_def)
  have "silent s 3000" "timers_out s 3000"
    by (simp_all add: silent_def timers_out_def f sel_policy_def)
  moreover have "spaced_apart (max (unat (sp_bitrate_lead_ms (sl_policy s))) (unat (sp_failsafe_step_ms (sl_policy s)))) 3000 [3000, 4000, 5000, 6000]"
    by (simp add: f(4) sel_policy_def)
  ultimately show ?thesis
    using selector_failsafe_reaches_floor [OF s_def, of 3000 "[3000, 4000, 5000, 6000]"] c f(1) unfolding s_def [symmetric] by simp
qed

end
