(* ===== verification/Reporter.thy ===== *)
theory Reporter
  imports Rx_Engine Selector
begin

text \<open>
  core/include/wblink/reporter.h and core/src/reporter.cpp: the receiver's metric reporter. One
  LINK_REPORT per latched RTP stream at the report cadence; the loss of a report is windowed, the
  difference of the stream's counters since the previous report.
\<close>

section \<open>The reporter\<close>

record Snap =
  sn_uniq :: u64
  sn_lost :: u64

record Reporter =
  rp_interval_ms :: u32
  rp_tv :: "u8 option"
  rp_epoch :: u32
  rp_next_ms :: u64
  rp_last :: "(u64, Snap) omap"
  rp_probe :: "(StreamKey \<times> u16) option"

definition new_reporter :: "u32 \<Rightarrow> u8 option \<Rightarrow> Reporter" where
  "new_reporter interval tv = \<lparr>rp_interval_ms = interval, rp_tv = tv, rp_epoch = 0, rp_next_ms = 0, rp_last = [], rp_probe = None\<rparr>"

definition next_epoch :: "Reporter \<Rightarrow> u32" where
  "next_epoch r = rp_epoch r + 1"

definition commit_epoch :: "Reporter \<Rightarrow> Reporter" where
  "commit_epoch r = r\<lparr>rp_epoch := rp_epoch r + 1\<rparr>"

definition reporter_reset_link :: "Reporter \<Rightarrow> Reporter" where
  "reporter_reset_link r = r\<lparr>rp_last := []\<rparr>"

definition set_probe_per :: "StreamKey \<Rightarrow> u16 option \<Rightarrow> Reporter \<Rightarrow> Reporter" where
  "set_probe_per key per r = r\<lparr>rp_probe := (case per of Some p \<Rightarrow> Some (key, p) | None \<Rightarrow> None)\<rparr>"

text \<open>The adapters' signal strengths: the best last packet, the sum of the averages and their number.\<close>

definition rssi_summary :: "(u8, RxAdapterCounters) omap \<Rightarrow> int \<times> int \<times> nat" where
  "rssi_summary adapters =
     fold (\<lambda>(i, a) (best, mean_sum, mean_n).
             if ac_stalled a \<or> \<not> ac_have_rssi a then (best, mean_sum, mean_n)
             else (if mean_n = 0 \<or> best < ac_rssi_last a then ac_rssi_last a else best, mean_sum + ac_rssi_ewma a, mean_n + 1))
       adapters (0, 0, 0)"

definition rssi_mean :: "int \<Rightarrow> nat \<Rightarrow> int" where
  "rssi_mean mean_sum mean_n = (if 0 < mean_n then to_int8 (mean_sum sdiv int mean_n) else 0)"

definition zero_snap :: Snap where
  "zero_snap = \<lparr>sn_uniq = 0, sn_lost = 0\<rparr>"

definition loss_permille :: "u64 \<Rightarrow> u64 \<Rightarrow> u16" where
  "loss_permille d_lost denom = (if denom = 0 then 0 else ucast (d_lost * 1000 div denom))"

definition stream_report :: "Reporter \<Rightarrow> int \<Rightarrow> int \<Rightarrow> u8 \<Rightarrow> RxStreamInfo \<Rightarrow> Snap \<Rightarrow> link_report" where
  "stream_report r best mean live s prev =
     (let d_uniq = ct_uniq (si_counters s) - sn_uniq prev;
          d_lost = ct_lost_declared (si_counters s) - sn_lost prev;
          denom = d_uniq + d_lost
      in \<lparr>lr_prefix = \<lparr>originator = 0, destination = 0, session_id = 0\<rparr>,
          lr_target_originator = sk_originator (si_key s), lr_target_session = sk_session_id (si_key s),
          lr_target_stream_id = sk_stream_id (si_key s), lr_report_epoch = 0,
          lr_table_version = (case rp_tv r of None \<Rightarrow> 0 | Some v \<Rightarrow> v),
          lr_rssi_best = word_of_int best, lr_rssi_mean = word_of_int mean,
          lr_loss_postdiv_prearq = loss_permille d_lost denom, lr_uniq = ucast (min denom 0xFFFFFFFF),
          lr_diversity = ucast (ct_diversity (si_counters s)), lr_adapters = live,
          lr_probe_per = (case rp_probe r of Some (k, per) \<Rightarrow> (if k = si_key s then per else kNoProbe) | None \<Rightarrow> kNoProbe),
          lr_recommended_prof = 0\<rparr>)"

definition report_stream :: "int \<Rightarrow> int \<Rightarrow> u8 \<Rightarrow> RxStreamInfo \<Rightarrow> Reporter \<times> link_report list \<Rightarrow> Reporter \<times> link_report list" where
  "report_stream best mean live s ro =
     (case ro of (r, out) \<Rightarrow>
        if si_stream_type s \<noteq> 0x01 then (r, out)
        else (let key = pack_key (si_key s);
                  prev = (case map_of (rp_last r) key of None \<Rightarrow> zero_snap | Some sn \<Rightarrow> sn)
              in (r\<lparr>rp_last := om_update key \<lparr>sn_uniq = ct_uniq (si_counters s), sn_lost = ct_lost_declared (si_counters s)\<rparr> (rp_last r)\<rparr>,
                  out @ [stream_report r best mean live s prev])))"

definition reporter_build :: "RxEngine \<Rightarrow> u64 \<Rightarrow> Reporter \<Rightarrow> Reporter \<times> link_report list" where
  "reporter_build e now_ms r =
     (if now_ms < rp_next_ms r then (r, [])
      else (let r = r\<lparr>rp_next_ms := now_ms + ucast (rp_interval_ms r)\<rparr>;
                (best, mean_sum, mean_n) = rssi_summary (rx_adapter_infos e)
            in fold (report_stream best (rssi_mean mean_sum mean_n) (live_adapter_count e)) (rx_stream_infos e) (r, [])))"

section \<open>The windowed loss\<close>

text \<open>As long as the counters have grown since the snapshot, the report is the loss of the window.\<close>

lemma permille_le: "1000 * l div (u + l) \<le> (1000 :: nat)"
proof (cases "u + l = 0")
  case False
  have "1000 * l div (u + l) \<le> 1000 * (u + l) div (u + l)"
    by (intro div_le_mono) simp
  also have "\<dots> = 1000"
    using False by (rule nonzero_mult_div_cancel_right)
  finally show ?thesis .
qed simp

lemma loss_permille_exact:
  assumes "unat l + unat u < 2 ^ 54"
  shows "unat (loss_permille l (u + l)) = 1000 * unat l div (unat u + unat l)"
proof (cases "u + l = 0")
  case True
  have "unat (u + l) = unat u + unat l"
    using assms by (simp add: unat_word_ariths)
  then show ?thesis
    using True by (simp add: loss_permille_def)
next
  case False
  have s: "unat (u + l) = unat u + unat l"
    using assms by (simp add: unat_word_ariths)
  have "unat (l * 1000) = unat l * 1000"
    using assms by (simp add: unat_word_ariths)
  then have q: "unat (l * 1000 div (u + l)) = 1000 * unat l div (unat u + unat l)"
    by (simp add: unat_div s mult.commute)
  have "1000 * unat l div (unat u + unat l) < 2 ^ 16"
    using permille_le [of "unat l" "unat u"] by simp
  then show ?thesis
    using False q by (simp add: loss_permille_def unsigned_ucast_eq take_bit_nat_eq_self)
qed

text \<open>When the counters did not go back, a report states exactly the loss and the packets of the
  window since the last one.\<close>

theorem report_is_the_window:
  assumes "sn_uniq prev \<le> ct_uniq (si_counters s)" and "sn_lost prev \<le> ct_lost_declared (si_counters s)"
    and "u = unat (ct_uniq (si_counters s)) - unat (sn_uniq prev)"
    and "l = unat (ct_lost_declared (si_counters s)) - unat (sn_lost prev)"
    and "u + l < 2 ^ 54"
  shows "unat (lr_loss_postdiv_prearq (stream_report r best mean live s prev)) = 1000 * l div (u + l)
     \<and> unat (lr_uniq (stream_report r best mean live s prev)) = min (u + l) (2 ^ 32 - 1)"
proof -
  define du where "du = ct_uniq (si_counters s) - sn_uniq prev"
  define dl where "dl = ct_lost_declared (si_counters s) - sn_lost prev"
  have d: "unat du = u" "unat dl = l"
    using assms(1-4) by (simp_all add: du_def dl_def unat_diff_le)
  have r: "lr_loss_postdiv_prearq (stream_report r best mean live s prev) = loss_permille dl (du + dl)"
    "lr_uniq (stream_report r best mean live s prev) = ucast (min (du + dl) 0xFFFFFFFF)"
    by (simp_all add: stream_report_def Let_def du_def dl_def)
  have sm: "unat (du + dl) = u + l"
    using assms(5) d by (simp add: unat_word_ariths)
  then have "unat (min (du + dl) 0xFFFFFFFF) = min (u + l) (2 ^ 32 - 1)"
    by (simp add: min_def word_le_nat_alt)
  moreover have "min (u + l) (2 ^ 32 - 1) < 2 ^ 32"
    by simp
  ultimately have "unat (ucast (min (du + dl) 0xFFFFFFFF) :: u32) = min (u + l) (2 ^ 32 - 1)"
    by (simp only: unsigned_ucast_eq take_bit_nat_eq_self) (simp add: take_bit_nat_eq_self)
  then show ?thesis
    using loss_permille_exact [of dl du] assms(5) d unfolding r by (simp add: add.commute)
qed

theorem report_is_the_window_witness:
  "unat (lr_loss_postdiv_prearq (stream_report (new_reporter 100 (Some 7)) (-50) (-52) 2
       \<lparr>si_key = \<lparr>sk_originator = 1, sk_session_id = 2, sk_stream_id = 3\<rparr>, si_local_stream_id = 0, si_stream_type = 1,
        si_best_effort = False, si_active_profile = 0, si_peer_table_version = 7, si_per_adapter = [],
        si_counters = zero_rx_counters\<lparr>ct_uniq := 190, ct_lost_declared := 15\<rparr>\<rparr> \<lparr>sn_uniq = 100, sn_lost = 5\<rparr>)) = 100"
  using report_is_the_window [of "\<lparr>sn_uniq = 100, sn_lost = 5\<rparr>"
      "\<lparr>si_key = \<lparr>sk_originator = 1, sk_session_id = 2, sk_stream_id = 3\<rparr>, si_local_stream_id = 0, si_stream_type = 1,
        si_best_effort = False, si_active_profile = 0, si_peer_table_version = 7, si_per_adapter = [],
        si_counters = zero_rx_counters\<lparr>ct_uniq := 190, ct_lost_declared := 15\<rparr>\<rparr>" 90 10 "new_reporter 100 (Some 7)" "-50" "-52" 2]
  by (simp add: zero_rx_counters_def)

text \<open>A stream that is torn down and latched again counts from zero; the snapshot of its key stays.
  Half of the new window was lost, the report says nothing was.\<close>

lemma stale_snapshot_hides_loss:
  assumes "si_counters s = zero_rx_counters\<lparr>ct_uniq := 50, ct_lost_declared := 50\<rparr>"
  shows "lr_loss_postdiv_prearq (stream_report r best mean live s \<lparr>sn_uniq = 10000, sn_lost = 100\<rparr>) = 0
     \<and> lr_uniq (stream_report r best mean live s \<lparr>sn_uniq = 10000, sn_lost = 100\<rparr>) = 0xFFFFFFFF"
  using assms by (simp add: stream_report_def loss_permille_def zero_rx_counters_def Let_def)

end
