(* ===== verification/Recovery.thy ===== *)
theory Recovery
  imports Wire_Types
begin

text \<open>
  core/include/wblink/recovery.h and core/src/recovery.cpp: the schedule of decoder bootstrap
  requests. A stream that latches is asked for a fresh start point at most five times, a second
  apart; damage re-arms the schedule, after a back-off when the last round was never answered.
\<close>

section \<open>The schedule\<close>

record LatchStream =
  ls_key :: StreamKey
  ls_local_stream_id :: u8

record LatchEntry =
  le_key :: StreamKey
  le_local_stream_id :: u8
  le_attempts :: u8
  le_next_ms :: u64
  le_done :: bool
  le_answered :: bool
  le_rearm_not_before_ms :: u64

definition kAttempts :: u8 where
  "kAttempts = 5"

definition kPeriodMs :: u64 where
  "kPeriodMs = 1000"

definition kRearmBackoffMs :: u64 where
  "kRearmBackoffMs = 10000"

text \<open>One latched stream against its entry: the updated entry and whether a request is due.\<close>

definition due_entry :: "LatchStream \<Rightarrow> u64 \<Rightarrow> LatchEntry \<Rightarrow> LatchEntry \<times> bool" where
  "due_entry s now_ms e =
     (let e = e\<lparr>le_local_stream_id := ls_local_stream_id s\<rparr>
      in if le_done e \<or> kAttempts \<le> le_attempts e \<or> now_ms < le_next_ms e then (e, False)
         else (let e = e\<lparr>le_attempts := le_attempts e + 1, le_next_ms := now_ms + kPeriodMs\<rparr>;
                   e = (if kAttempts \<le> le_attempts e then e\<lparr>le_rearm_not_before_ms := now_ms + kRearmBackoffMs\<rparr> else e)
               in (e, True)))"

definition fresh_entry :: "LatchStream \<Rightarrow> u64 \<Rightarrow> LatchEntry" where
  "fresh_entry s now_ms = \<lparr>le_key = ls_key s, le_local_stream_id = ls_local_stream_id s, le_attempts = 0,
     le_next_ms = now_ms, le_done = False, le_answered = False, le_rearm_not_before_ms = 0\<rparr>"

fun due_stream :: "LatchStream \<Rightarrow> u64 \<Rightarrow> LatchEntry list \<Rightarrow> LatchEntry list \<times> bool" where
  "due_stream s now_ms [] = (let (e, d) = due_entry s now_ms (fresh_entry s now_ms) in ([e], d))"
| "due_stream s now_ms (e # es) =
     (if le_key e = ls_key s then (let (e, d) = due_entry s now_ms e in (e # es, d))
      else (let (es, d) = due_stream s now_ms es in (e # es, d)))"

fun due_streams :: "LatchStream list \<Rightarrow> u64 \<Rightarrow> LatchEntry list \<Rightarrow> LatchEntry list \<times> StreamKey list" where
  "due_streams [] now_ms es = (es, [])"
| "due_streams (s # ss) now_ms es =
     (let (es, d) = due_stream s now_ms es;
          (es, ks) = due_streams ss now_ms es
      in (es, if d then ls_key s # ks else ks))"

definition due :: "LatchStream list \<Rightarrow> u64 \<Rightarrow> LatchEntry list \<Rightarrow> LatchEntry list \<times> StreamKey list" where
  "due latched now_ms es = due_streams latched now_ms (filter (\<lambda>e. \<exists>s\<in>set latched. ls_key s = le_key e) es)"

definition note_irap :: "u8 \<Rightarrow> LatchEntry list \<Rightarrow> LatchEntry list" where
  "note_irap local_stream_id =
     map (\<lambda>e. if le_local_stream_id e = local_stream_id then e\<lparr>le_done := True, le_answered := True\<rparr> else e)"

definition damage_entry :: "u8 \<Rightarrow> u64 \<Rightarrow> LatchEntry \<Rightarrow> LatchEntry" where
  "damage_entry local_stream_id now_ms e =
     (if le_local_stream_id e \<noteq> local_stream_id then e
      else if \<not> le_done e \<and> le_attempts e < kAttempts then e
      else if \<not> le_answered e \<and> now_ms < le_rearm_not_before_ms e then e
      else e\<lparr>le_attempts := 0, le_done := False, le_next_ms := now_ms, le_answered := False\<rparr>)"

definition note_damage :: "u8 \<Rightarrow> u64 \<Rightarrow> LatchEntry list \<Rightarrow> LatchEntry list" where
  "note_damage local_stream_id now_ms = map (damage_entry local_stream_id now_ms)"

fun find_entry :: "StreamKey \<Rightarrow> LatchEntry list \<Rightarrow> LatchEntry option" where
  "find_entry k [] = None"
| "find_entry k (e # es) = (if le_key e = k then Some e else find_entry k es)"

definition latch_attempts :: "StreamKey \<Rightarrow> LatchEntry list \<Rightarrow> u8" where
  "latch_attempts k es = (case find_entry k es of None \<Rightarrow> 0 | Some e \<Rightarrow> le_attempts e)"

definition latch_settled :: "StreamKey \<Rightarrow> LatchEntry list \<Rightarrow> bool" where
  "latch_settled k es = (case find_entry k es of None \<Rightarrow> False | Some e \<Rightarrow> le_done e \<or> kAttempts \<le> le_attempts e)"

section \<open>Runs\<close>

datatype LatchEvent = LDue "LatchStream list" u64 | LIrap u8 | LDamage u8 u64

fun latch_step :: "LatchEvent \<Rightarrow> LatchEntry list \<Rightarrow> LatchEntry list \<times> StreamKey list" where
  "latch_step (LDue latched now_ms) es = due latched now_ms es"
| "latch_step (LIrap i) es = (note_irap i es, [])"
| "latch_step (LDamage i now_ms) es = (note_damage i now_ms es, [])"

text \<open>The requests a run of the schedule emits.\<close>

fun latch_requests :: "LatchEvent list \<Rightarrow> LatchEntry list \<Rightarrow> StreamKey list" where
  "latch_requests [] es = []"
| "latch_requests (ev # evs) es = (let (es, ks) = latch_step ev es in ks @ latch_requests evs es)"

fun latch_run :: "LatchEvent list \<Rightarrow> LatchEntry list \<Rightarrow> LatchEntry list" where
  "latch_run [] es = es"
| "latch_run (ev # evs) es = latch_run evs (fst (latch_step ev es))"

section \<open>An unanswered stream is asked at most five times per back-off\<close>

text \<open>An answer stands the schedule down.\<close>

definition latch_entry_ok :: "LatchEntry \<Rightarrow> bool" where
  "latch_entry_ok e = (le_answered e \<longrightarrow> le_done e)"

definition entries_ok :: "LatchEntry list \<Rightarrow> bool" where
  "entries_ok es = (\<forall>e\<in>set es. latch_entry_ok e)"

lemma due_entry_keeps_ok: "latch_entry_ok e \<Longrightarrow> latch_entry_ok (fst (due_entry s now e))"
  by (auto simp: latch_entry_ok_def due_entry_def Let_def)

lemma due_stream_ok: "entries_ok es \<Longrightarrow> entries_ok (fst (due_stream s now es))"
proof (induction es)
  case Nil
  have "latch_entry_ok (fresh_entry s now)"
    by (simp add: latch_entry_ok_def fresh_entry_def)
  then show ?case
    by (simp add: entries_ok_def split_beta due_entry_keeps_ok)
qed (auto simp: entries_ok_def split_beta due_entry_keeps_ok)

lemma due_streams_ok: "entries_ok es \<Longrightarrow> entries_ok (fst (due_streams ss now es))"
  by (induction ss arbitrary: es) (simp_all add: split_beta Let_def due_stream_ok)

lemma latch_step_ok:
  assumes "entries_ok es"
  shows "entries_ok (fst (latch_step ev es))"
proof (cases ev)
  case (LDue latched now)
  then show ?thesis
    using assms due_streams_ok [of "filter (\<lambda>e. \<exists>s\<in>set latched. ls_key s = le_key e) es" latched now]
    by (simp add: due_def entries_ok_def)
qed (use assms in \<open>auto simp: entries_ok_def latch_entry_ok_def note_irap_def note_damage_def damage_entry_def\<close>)

lemma latch_run_ok: "entries_ok es \<Longrightarrow> entries_ok (latch_run evs es)"
  by (induction evs arbitrary: es) (simp_all add: latch_step_ok)

lemma find_entry_ok: "entries_ok es \<Longrightarrow> find_entry k es = Some e \<Longrightarrow> latch_entry_ok e"
  by (induction es) (auto simp: entries_ok_def split: if_splits)

text \<open>A stretch of time in which the stream stays latched and is never answered.\<close>

fun unanswered_event :: "StreamKey \<Rightarrow> u64 \<Rightarrow> LatchEvent \<Rightarrow> bool" where
  "unanswered_event k t0 (LDue latched now_ms) = (t0 \<le> now_ms \<and> now_ms - t0 < kRearmBackoffMs \<and> (\<exists>s\<in>set latched. ls_key s = k))"
| "unanswered_event k t0 (LIrap i) = False"
| "unanswered_event k t0 (LDamage i now_ms) = (t0 \<le> now_ms \<and> now_ms - t0 < kRearmBackoffMs)"

text \<open>How many requests an entry can still draw before \<open>t0 + kRearmBackoffMs\<close>.\<close>

definition entry_budget :: "u64 \<Rightarrow> LatchEntry \<Rightarrow> nat" where
  "entry_budget t0 e =
     (if le_done e then 5
      else if le_attempts e < kAttempts then 5 - unat (le_attempts e)
      else if unat (le_rearm_not_before_ms e) < unat t0 + 10000 then 5 else 0)"

definition latch_budget :: "u64 \<Rightarrow> StreamKey \<Rightarrow> LatchEntry list \<Rightarrow> nat" where
  "latch_budget t0 k es = (case find_entry k es of None \<Rightarrow> 5 | Some e \<Rightarrow> entry_budget t0 e)"

lemma entry_budget_le: "entry_budget t0 e \<le> 5"
  by (simp add: entry_budget_def)

lemma latch_budget_le: "latch_budget t0 k es \<le> 5"
  by (simp add: latch_budget_def entry_budget_le split: option.split)

lemma in_window:
  assumes "t0 \<le> now" and "now - t0 < (kRearmBackoffMs :: u64)" and "unat t0 + 20000 < 2 ^ 64"
  shows "unat t0 \<le> unat now" and "unat now < unat t0 + 10000" and "unat (now + kRearmBackoffMs) = unat now + 10000"
proof -
  show "unat t0 \<le> unat now"
    using assms(1) by (simp add: word_le_nat_alt)
  then show lt: "unat now < unat t0 + 10000"
    using assms(2) unat_diff_le [OF assms(1)] by (simp add: word_less_nat_alt kRearmBackoffMs_def)
  show "unat (now + kRearmBackoffMs) = unat now + 10000"
    using assms(3) lt by (simp add: unat_word_ariths kRearmBackoffMs_def)
qed

lemma due_entry_budget:
  assumes "t0 \<le> now" and "now - t0 < kRearmBackoffMs" and "unat t0 + 20000 < 2 ^ 64"
  shows "entry_budget t0 (fst (due_entry s now e)) + of_bool (snd (due_entry s now e)) \<le> entry_budget t0 e"
    and "le_key (fst (due_entry s now e)) = le_key e"
proof -
  show "le_key (fst (due_entry s now e)) = le_key e"
    by (simp add: due_entry_def Let_def)
  show "entry_budget t0 (fst (due_entry s now e)) + of_bool (snd (due_entry s now e)) \<le> entry_budget t0 e"
  proof (cases "le_done e \<or> kAttempts \<le> le_attempts e \<or> now < le_next_ms e")
    case True
    then show ?thesis
      by (simp add: due_entry_def Let_def entry_budget_def)
  next
    case False
    then have a: "unat (le_attempts e) < 5" "\<not> le_done e"
      by (simp_all add: kAttempts_def word_le_nat_alt not_le)
    then have "unat (le_attempts e + 1) = unat (le_attempts e) + 1"
      by (simp add: unat_word_ariths)
    then show ?thesis
      using False a in_window [OF assms]
      by (auto simp: due_entry_def Let_def entry_budget_def kAttempts_def word_le_nat_alt word_less_nat_alt)
  qed
qed

lemma damage_entry_budget:
  assumes "t0 \<le> now" and "now - t0 < kRearmBackoffMs" and "unat t0 + 20000 < 2 ^ 64"
    and "latch_entry_ok e"
  shows "entry_budget t0 (damage_entry i now e) \<le> entry_budget t0 e"
  using in_window [OF assms(1-3)] assms(4)
  by (auto simp: latch_entry_ok_def damage_entry_def entry_budget_def kAttempts_def word_le_nat_alt word_less_nat_alt)

lemma find_due_stream:
  "find_entry k (fst (due_stream s now es)) =
     (if ls_key s = k
      then Some (fst (due_entry s now (case find_entry k es of None \<Rightarrow> fresh_entry s now | Some e \<Rightarrow> e)))
      else find_entry k es)"
  "snd (due_stream s now es) =
     snd (due_entry s now (case find_entry (ls_key s) es of None \<Rightarrow> fresh_entry s now | Some e \<Rightarrow> e))"
  by (induction es) (auto simp: split_beta due_entry_def fresh_entry_def Let_def)

lemma due_stream_budget:
  assumes "t0 \<le> now" and "now - t0 < kRearmBackoffMs" and "unat t0 + 20000 < 2 ^ 64"
  shows "latch_budget t0 k (fst (due_stream s now es)) + of_bool (snd (due_stream s now es) \<and> ls_key s = k)
      \<le> latch_budget t0 k es"
proof (cases "ls_key s = k")
  case True
  define e where "e = (case find_entry k es of None \<Rightarrow> fresh_entry s now | Some e \<Rightarrow> e)"
  have "entry_budget t0 e \<le> latch_budget t0 k es"
    by (simp add: e_def latch_budget_def entry_budget_le split: option.split)
  then show ?thesis
    using True due_entry_budget(1) [OF assms, of s e]
    by (simp add: latch_budget_def find_due_stream e_def)
qed (simp add: latch_budget_def find_due_stream)

lemma due_streams_budget:
  assumes "t0 \<le> now" and "now - t0 < kRearmBackoffMs" and "unat t0 + 20000 < 2 ^ 64"
  shows "latch_budget t0 k (fst (due_streams ss now es)) + count_list (snd (due_streams ss now es)) k
      \<le> latch_budget t0 k es"
proof (induction ss arbitrary: es)
  case (Cons s ss)
  show ?case
    using Cons.IH [of "fst (due_stream s now es)"] due_stream_budget [OF assms, of k s es]
    by (auto simp: split_beta Let_def split: if_splits)
qed simp

lemma find_entry_filter:
  "(\<And>e. le_key e = k \<Longrightarrow> P e) \<Longrightarrow> find_entry k (filter P es) = find_entry k es"
  by (induction es) auto

lemma find_entry_map:
  "(\<And>e. le_key (f e) = le_key e) \<Longrightarrow> find_entry k (map f es) = map_option f (find_entry k es)"
  by (induction es) auto

lemma latch_step_budget:
  assumes "unanswered_event k t0 ev" and "unat t0 + 20000 < 2 ^ 64" and "entries_ok es"
  shows "latch_budget t0 k (fst (latch_step ev es)) + count_list (snd (latch_step ev es)) k \<le> latch_budget t0 k es"
proof (cases ev)
  case (LDue latched now)
  have "find_entry k (filter (\<lambda>e. \<exists>s\<in>set latched. ls_key s = le_key e) es) = find_entry k es"
    using assms(1) LDue by (intro find_entry_filter) auto
  then show ?thesis
    using assms LDue due_streams_budget [of t0 now k latched "filter (\<lambda>e. \<exists>s\<in>set latched. ls_key s = le_key e) es"]
    by (simp add: due_def latch_budget_def)
next
  case (LDamage i now)
  then show ?thesis
    using assms damage_entry_budget [of t0 now _ i] find_entry_ok [OF assms(3), of k]
    by (simp add: note_damage_def latch_budget_def find_entry_map damage_entry_def split: option.split)
qed (use assms in simp)

lemma latch_requests_budget:
  assumes "\<forall>ev\<in>set evs. unanswered_event k t0 ev" and "unat t0 + 20000 < 2 ^ 64" and "entries_ok es"
  shows "count_list (latch_requests evs es) k \<le> latch_budget t0 k es"
  using assms(1,3)
proof (induction evs arbitrary: es)
  case (Cons ev evs)
  have "count_list (latch_requests evs (fst (latch_step ev es))) k \<le> latch_budget t0 k (fst (latch_step ev es))"
    using Cons.prems by (intro Cons.IH latch_step_ok) simp_all
  moreover have "latch_budget t0 k (fst (latch_step ev es)) + count_list (snd (latch_step ev es)) k \<le> latch_budget t0 k es"
    using Cons.prems by (intro latch_step_budget assms(2)) simp_all
  ultimately show ?case
    by (simp add: split_beta Let_def)
qed simp

text \<open>C35: After any history of latches, IRAPs and damage, a stream whose recovery requests stay
  unanswered is asked for at most five times within the rearm backoff, whatever damage is
  reported, unless it is torn down.\<close>

theorem unanswered_requests_bounded:
  assumes "\<forall>ev\<in>set evs. unanswered_event k t0 ev" and "unat t0 + 20000 < 2 ^ 64"
  shows "count_list (latch_requests evs (latch_run history [])) k \<le> 5"
proof -
  have "entries_ok (latch_run history [])"
    by (rule latch_run_ok) (simp add: entries_ok_def)
  then show ?thesis
    using latch_requests_budget [OF assms] latch_budget_le order_trans by blast
qed

text \<open>Damage in every frame, and only the first round is asked for.\<close>

definition latch_demo :: "LatchEvent list" where
  "latch_demo = [LDue [\<lparr>ls_key = \<lparr>sk_originator = 1, sk_session_id = 2, sk_stream_id = 3\<rparr>, ls_local_stream_id = 0\<rparr>] 5000, LDamage 0 5010,
     LDue [\<lparr>ls_key = \<lparr>sk_originator = 1, sk_session_id = 2, sk_stream_id = 3\<rparr>, ls_local_stream_id = 0\<rparr>] 6000, LDamage 0 6010]"

theorem unanswered_requests_bounded_witness:
  "count_list (latch_requests latch_demo (latch_run [] [])) \<lparr>sk_originator = 1, sk_session_id = 2, sk_stream_id = 3\<rparr> = 2
   \<and> count_list (latch_requests latch_demo (latch_run [] [])) \<lparr>sk_originator = 1, sk_session_id = 2, sk_stream_id = 3\<rparr> \<le> 5"
proof
  show "count_list (latch_requests latch_demo (latch_run [] [])) \<lparr>sk_originator = 1, sk_session_id = 2, sk_stream_id = 3\<rparr> = 2"
    by (simp add: latch_demo_def Let_def due_def due_entry_def fresh_entry_def note_damage_def damage_entry_def kAttempts_def
        kPeriodMs_def kRearmBackoffMs_def word_le_nat_alt)
  show "count_list (latch_requests latch_demo (latch_run [] [])) \<lparr>sk_originator = 1, sk_session_id = 2, sk_stream_id = 3\<rparr> \<le> 5"
    by (rule unanswered_requests_bounded [of _ _ 5000])
      (simp_all add: latch_demo_def kRearmBackoffMs_def)
qed

end
