(* ===== verification/Mcs_Probe.thy ===== *)
theory Mcs_Probe
  imports Profile_Table
begin

text \<open>
  core/include/wblink/mcs_probe.h and core/src/mcs_probe.cpp: the sequence-derived rate probe.
  Both ends derive the probe schedule from the sequence number; the receiver collects evidence on
  the next higher rate in a window with a bitmap of the last 1024 sequence numbers, and reports a
  failure rate only once it has seen the candidate rate in the air.
\<close>

section \<open>Schedule and candidate\<close>

definition kUplinkRxMcsUnknown :: u8 where
  "kUplinkRxMcsUnknown = 0xFF"

definition probe_slot_hit :: "u32 \<Rightarrow> u16 \<Rightarrow> u16 \<Rightarrow> bool" where
  "probe_slot_hit seq period slot = (period \<noteq> 0 \<and> seq mod ucast period = ucast slot)"

record ProbeScan =
  ps_cur :: "Profile option"
  ps_next :: "Profile option"
  ps_top_id :: u8
  ps_ceiling_in_table :: bool

definition probe_scan :: "u8 \<Rightarrow> u8 \<Rightarrow> Profile \<Rightarrow> ProbeScan \<Rightarrow> ProbeScan" where
  "probe_scan active_profile max_profile p st =
     (let st = (if pf_id p = active_profile then st\<lparr>ps_cur := Some p\<rparr>
                else if active_profile < pf_id p \<and> (case ps_next st of None \<Rightarrow> True | Some n \<Rightarrow> pf_id p < pf_id n)
                then st\<lparr>ps_next := Some p\<rparr> else st);
          st = (if pf_id p = max_profile then st\<lparr>ps_ceiling_in_table := True\<rparr> else st)
      in (if ps_top_id st < pf_id p then st\<lparr>ps_top_id := pf_id p\<rparr> else st))"

definition probe_up_candidate_mcs :: "ProfileTable \<Rightarrow> u8 \<Rightarrow> u8 \<Rightarrow> u8 option" where
  "probe_up_candidate_mcs table active_profile max_profile =
     (let st = fold (probe_scan active_profile max_profile) (pt_profiles table)
                 \<lparr>ps_cur = None, ps_next = None, ps_top_id = 0, ps_ceiling_in_table = False\<rparr>
      in case (ps_cur st, ps_next st) of
           (Some cur, Some nxt) \<Rightarrow>
             if pf_mcs nxt = pf_mcs cur then None
             else (let ceiling = (if ps_ceiling_in_table st then max_profile else ps_top_id st)
                   in if ceiling < pf_id nxt then None else Some (pf_mcs nxt))
         | _ \<Rightarrow> None)"

section \<open>The bitmap of seen sequence numbers\<close>

definition kSeenBits :: u32 where
  "kSeenBits = 1024"

definition seen_word :: "u32 \<Rightarrow> nat" where
  "seen_word seq = unat (seq mod kSeenBits) div 64"

definition seen_bit :: "u32 \<Rightarrow> nat" where
  "seen_bit seq = unat (seq mod kSeenBits) mod 64"

definition bm_seen :: "u64 list \<Rightarrow> u32 \<Rightarrow> bool" where
  "bm_seen bm seq = (drop_bit (seen_bit seq) (bm ! seen_word seq) AND 1 \<noteq> 0)"

definition mark_seen :: "u64 list \<Rightarrow> u32 \<Rightarrow> u64 list" where
  "mark_seen bm seq = bm[seen_word seq := (bm ! seen_word seq) OR push_bit (seen_bit seq) 1]"

definition clear_seen :: "u64 list \<Rightarrow> u32 \<Rightarrow> u64 list" where
  "clear_seen bm seq = bm[seen_word seq := (bm ! seen_word seq) AND NOT (push_bit (seen_bit seq) 1)]"

text \<open>\<open>for (s = head + 1; s != seq + 1; ++s)\<close>: the bits of the numbers that enter the window.\<close>

function recycle :: "u32 \<Rightarrow> u32 \<Rightarrow> u64 list \<Rightarrow> u64 list" where
  "recycle s e bm = (if s = e then bm else recycle (s + 1) e (clear_seen bm s))"
  by auto
termination
proof (relation "measure (\<lambda>(s, e, bm). unat (e - s))")
  fix s e :: u32 and bm :: "u64 list"
  assume "s \<noteq> e"
  then have "e - s \<noteq> 0"
    by simp
  then show "((s + 1, e, clear_seen bm s), s, e, bm) \<in> measure (\<lambda>(s, e, bm). unat (e - s))"
    by (simp add: diff_diff_eq [symmetric] unat_minus_one unat_gt_0)
qed simp

definition empty_bitmap :: "u64 list" where
  "empty_bitmap = replicate 16 0"

section \<open>The evidence window\<close>

record ProbeParams =
  pp_min_samples :: u32
  pp_max_age_ms :: u32
  pp_gap_horizon :: u32

record McsProbeWindow =
  mw_table :: "ProfileTable option"
  mw_tv :: "u8 option"
  mw_p :: ProbeParams
  mw_have_context :: bool
  mw_profile :: u8
  mw_selected_mcs :: u8
  mw_candidate :: "u8 option"
  mw_confirmed :: bool
  mw_window_start_ms :: u64
  mw_successes :: u32
  mw_failures :: u32
  mw_candidate_observed :: u32
  mw_have_head :: bool
  mw_head_seq :: u32
  mw_walked_seq :: u32
  mw_seen :: "u64 list"

definition default_probe_params :: ProbeParams where
  "default_probe_params = \<lparr>pp_min_samples = 32, pp_max_age_ms = 8000, pp_gap_horizon = 128\<rparr>"

definition new_probe_window :: "ProfileTable option \<Rightarrow> u8 option \<Rightarrow> ProbeParams \<Rightarrow> McsProbeWindow" where
  "new_probe_window table tv p =
     \<lparr>mw_table = table, mw_tv = tv, mw_p = p, mw_have_context = False, mw_profile = 0, mw_selected_mcs = 0,
      mw_candidate = None, mw_confirmed = False, mw_window_start_ms = 0, mw_successes = 0, mw_failures = 0,
      mw_candidate_observed = 0, mw_have_head = False, mw_head_seq = 0, mw_walked_seq = 0, mw_seen = empty_bitmap\<rparr>"

definition probe_reset :: "McsProbeWindow \<Rightarrow> McsProbeWindow" where
  "probe_reset w = w\<lparr>mw_have_context := False, mw_candidate := None, mw_confirmed := False, mw_successes := 0,
     mw_failures := 0, mw_candidate_observed := 0, mw_have_head := False\<rparr>"

text \<open>The scan keeps the last profile with the id.\<close>

definition last_profile :: "ProfileTable \<Rightarrow> u8 \<Rightarrow> Profile option" where
  "last_profile table i = fold (\<lambda>p cur. if pf_id p = i then Some p else cur) (pt_profiles table) None"

definition reset_context :: "ProfileTable \<Rightarrow> u8 \<Rightarrow> u64 \<Rightarrow> McsProbeWindow \<Rightarrow> McsProbeWindow" where
  "reset_context table active_profile now_ms w =
     (let w = (probe_reset w)\<lparr>mw_profile := active_profile\<rparr>
      in case last_profile table active_profile of
           None \<Rightarrow> w
         | Some cur \<Rightarrow> w\<lparr>mw_have_context := True, mw_selected_mcs := pf_mcs cur,
                         mw_candidate := probe_up_candidate_mcs table active_profile 255,
                         mw_window_start_ms := now_ms\<rparr>)"

definition enter_context :: "ProfileTable \<Rightarrow> u8 \<Rightarrow> u64 \<Rightarrow> McsProbeWindow \<Rightarrow> McsProbeWindow" where
  "enter_context table active_profile now_ms w =
     (if \<not> mw_have_context w \<or> active_profile \<noteq> mw_profile w
      then reset_context table active_profile now_ms w else w)"

definition slot_of :: "ProfileTable \<Rightarrow> u32 \<Rightarrow> bool" where
  "slot_of table seq = probe_slot_hit seq (pt_probe_period table) (pt_probe_slot table)"

definition charge_slot :: "ProfileTable \<Rightarrow> u32 \<Rightarrow> McsProbeWindow \<Rightarrow> McsProbeWindow" where
  "charge_slot table s w =
     (if mw_candidate w \<noteq> None \<and> mw_confirmed w \<and> \<not> bm_seen (mw_seen w) s \<and> slot_of table s
      then w\<lparr>mw_failures := mw_failures w + 1\<rparr> else w)"

lemma charge_slot_frame [simp]:
  "mw_head_seq (charge_slot t s w) = mw_head_seq w" "mw_walked_seq (charge_slot t s w) = mw_walked_seq w"
  "mw_p (charge_slot t s w) = mw_p w"
  by (simp_all add: charge_slot_def)

function gap_walk :: "ProfileTable \<Rightarrow> McsProbeWindow \<Rightarrow> McsProbeWindow" where
  "gap_walk table w =
     (if pp_gap_horizon (mw_p w) < mw_head_seq w - mw_walked_seq w
      then (let s = mw_walked_seq w + 1
            in gap_walk table (charge_slot table s (w\<lparr>mw_walked_seq := s\<rparr>)))
      else w)"
  by auto
termination
proof (relation "measure (\<lambda>(t, w). unat (mw_head_seq w - mw_walked_seq w))")
  fix t :: ProfileTable and w :: McsProbeWindow and s
  assume "pp_gap_horizon (mw_p w) < mw_head_seq w - mw_walked_seq w" and "s = mw_walked_seq w + 1"
  moreover then have "mw_head_seq w - mw_walked_seq w \<noteq> 0"
    by (metis word_not_simps(1))
  ultimately show "((t, charge_slot t s (w\<lparr>mw_walked_seq := s\<rparr>)), t, w)
      \<in> measure (\<lambda>(t, w). unat (mw_head_seq w - mw_walked_seq w))"
    by (simp add: diff_diff_eq [symmetric] unat_minus_one unat_gt_0)
qed simp

definition advance_gap_walk :: "ProfileTable \<Rightarrow> McsProbeWindow \<Rightarrow> McsProbeWindow" where
  "advance_gap_walk table w =
     gap_walk table
       (if kSeenBits < mw_head_seq w - mw_walked_seq w
        then w\<lparr>mw_walked_seq := mw_head_seq w - kSeenBits\<rparr> else w)"

definition refresh_window :: "u64 \<Rightarrow> McsProbeWindow \<Rightarrow> McsProbeWindow" where
  "refresh_window now_ms w =
     (if ucast (pp_max_age_ms (mw_p w)) < now_ms - mw_window_start_ms w
      then w\<lparr>mw_successes := 0, mw_failures := 0, mw_candidate_observed := 0, mw_window_start_ms := now_ms\<rparr>
      else w)"

text \<open>Placing a sequence number: the window with it, and whether this is its first arrival; \<open>None\<close>
  when it can no longer be classified.\<close>

definition place_seq :: "ProfileTable \<Rightarrow> u32 \<Rightarrow> McsProbeWindow \<Rightarrow> (McsProbeWindow \<times> bool) option" where
  "place_seq table seq w =
     (if \<not> mw_have_head w
      then Some (w\<lparr>mw_have_head := True, mw_head_seq := seq, mw_walked_seq := seq,
                   mw_seen := mark_seen empty_bitmap seq\<rparr>, True)
      else if mw_head_seq w < seq
      then (let delta = seq - mw_head_seq w;
                w = (if kSeenBits \<le> delta then w\<lparr>mw_seen := empty_bitmap, mw_walked_seq := seq\<rparr>
                     else w\<lparr>mw_seen := recycle (mw_head_seq w + 1) (seq + 1) (mw_seen w)\<rparr>);
                w = w\<lparr>mw_head_seq := seq, mw_seen := mark_seen (mw_seen w) seq\<rparr>
            in Some (advance_gap_walk table w, True))
      else if kSeenBits \<le> mw_head_seq w - seq \<or> seq \<le> mw_walked_seq w then None
      else Some (w\<lparr>mw_seen := mark_seen (mw_seen w) seq\<rparr>, \<not> bm_seen (mw_seen w) seq))"

definition score_frame :: "ProfileTable \<Rightarrow> u32 \<Rightarrow> u8 \<Rightarrow> bool \<Rightarrow> McsProbeWindow \<Rightarrow> McsProbeWindow" where
  "score_frame table seq rx_mcs first_arrival w =
     (if slot_of table seq
      then (if first_arrival \<and> mw_candidate w = Some rx_mcs
            then w\<lparr>mw_successes := mw_successes w + 1, mw_candidate_observed := mw_candidate_observed w + 1\<rparr>
            else w)
      else if rx_mcs = mw_selected_mcs w then w\<lparr>mw_confirmed := True\<rparr>
      else if rx_mcs \<noteq> kUplinkRxMcsUnknown then w\<lparr>mw_confirmed := False\<rparr>
      else w)"

definition probe_on_data :: "u32 \<Rightarrow> u8 \<Rightarrow> u8 \<Rightarrow> u8 \<Rightarrow> u64 \<Rightarrow> McsProbeWindow \<Rightarrow> McsProbeWindow" where
  "probe_on_data seq active_profile table_version rx_mcs now_ms w =
     (case mw_table w of
        None \<Rightarrow> w
      | Some table \<Rightarrow>
          if pt_probe_period table = 0 then w
          else if (case mw_tv w of None \<Rightarrow> False | Some v \<Rightarrow> table_version \<noteq> v) then w
          else (let w = enter_context table active_profile now_ms w
                in if \<not> mw_have_context w then w
                   else (let w = refresh_window now_ms w
                         in case place_seq table seq w of
                              None \<Rightarrow> w
                            | Some (w, first_arrival) \<Rightarrow> score_frame table seq rx_mcs first_arrival w)))"

definition on_crc_frames :: "u8 \<Rightarrow> u32 \<Rightarrow> u64 \<Rightarrow> McsProbeWindow \<Rightarrow> McsProbeWindow" where
  "on_crc_frames rx_mcs n_frames now_ms w =
     (if (case mw_table w of None \<Rightarrow> True | Some t \<Rightarrow> pt_probe_period t = 0) \<or> \<not> mw_have_context w
         \<or> mw_candidate w = None \<or> \<not> mw_confirmed w \<or> n_frames = 0 then w
      else (let w = refresh_window now_ms w
            in if mw_candidate w = Some rx_mcs
               then w\<lparr>mw_failures := mw_failures w + n_frames, mw_candidate_observed := mw_candidate_observed w + n_frames\<rparr>
               else w))"

definition probe_per :: "u64 \<Rightarrow> McsProbeWindow \<Rightarrow> u16 option" where
  "probe_per now_ms w =
     (if \<not> mw_have_context w \<or> mw_candidate w = None then None
      else if ucast (pp_max_age_ms (mw_p w)) < now_ms - mw_window_start_ms w then None
      else (let ttl = mw_successes w + mw_failures w
            in if ttl < pp_min_samples (mw_p w) \<or> mw_candidate_observed w = 0 then None
               else (let per = (ucast ((ucast (mw_failures w) :: u64) * 1000 div ucast ttl) :: u32)
                     in Some (ucast (if 1000 < per then 1000 else per)))))"

end
