(* ===== verification/Mcs_Probe_Props.thy ===== *)
theory Mcs_Probe_Props
  imports Mcs_Probe
begin

text \<open>
  The guards of the rate probe: the candidate is the next profile of the table, a report needs a
  direct observation of the candidate rate, and the gap walk charges only probe slots that never
  arrived.
\<close>

section \<open>The candidate\<close>

definition scan_ok :: "u8 \<Rightarrow> u8 \<Rightarrow> Profile set \<Rightarrow> ProbeScan \<Rightarrow> bool" where
  "scan_ok a m P st \<longleftrightarrow>
     (\<forall>c. ps_cur st = Some c \<longrightarrow> c \<in> P \<and> pf_id c = a)
   \<and> (\<forall>n. ps_next st = Some n \<longrightarrow> n \<in> P \<and> a < pf_id n \<and> (\<forall>p\<in>P. a < pf_id p \<longrightarrow> pf_id n \<le> pf_id p))
   \<and> (ps_next st = None \<longrightarrow> (\<forall>p\<in>P. \<not> a < pf_id p))
   \<and> (ps_ceiling_in_table st \<longleftrightarrow> (\<exists>p\<in>P. pf_id p = m))"

lemma probe_scan_fields:
  "ps_cur (probe_scan a m p st) = (if pf_id p = a then Some p else ps_cur st)"
  "ps_next (probe_scan a m p st) =
     (if a < pf_id p \<and> (case ps_next st of None \<Rightarrow> True | Some n \<Rightarrow> pf_id p < pf_id n) then Some p else ps_next st)"
  "ps_ceiling_in_table (probe_scan a m p st) = (ps_ceiling_in_table st \<or> pf_id p = m)"
  by (auto simp: probe_scan_def Let_def)

lemma scan_ok_step:
  assumes "scan_ok a m P st"
  shows "scan_ok a m (insert p P) (probe_scan a m p st)"
proof -
  have "n \<in> insert p P \<and> a < pf_id n \<and> (\<forall>q\<in>insert p P. a < pf_id q \<longrightarrow> pf_id n \<le> pf_id q)"
    if "ps_next (probe_scan a m p st) = Some n" for n
  proof (cases "ps_next st")
    case None
    then show ?thesis
      using that assms by (auto simp: scan_ok_def probe_scan_fields split: if_splits)
  next
    case (Some n0)
    then have n0: "n0 \<in> P" "a < pf_id n0" "\<forall>q\<in>P. a < pf_id q \<longrightarrow> pf_id n0 \<le> pf_id q"
      using assms by (auto simp: scan_ok_def)
    show ?thesis
    proof (cases "a < pf_id p \<and> pf_id p < pf_id n0")
      case True
      then show ?thesis
        using that Some n0 by (auto simp: probe_scan_fields intro: less_imp_le order_trans)
    next
      case False
      then show ?thesis
        using that Some n0 by (auto simp: probe_scan_fields not_less split: if_splits)
    qed
  qed
  moreover have "\<forall>q\<in>insert p P. \<not> a < pf_id q" if "ps_next (probe_scan a m p st) = None"
    using that assms by (auto simp: scan_ok_def probe_scan_fields split: if_splits)
  moreover have "\<forall>c. ps_cur (probe_scan a m p st) = Some c \<longrightarrow> c \<in> insert p P \<and> pf_id c = a"
    using assms by (simp add: scan_ok_def probe_scan_fields)
  moreover have "ps_ceiling_in_table (probe_scan a m p st) \<longleftrightarrow> (\<exists>q\<in>insert p P. pf_id q = m)"
    using assms by (auto simp: scan_ok_def probe_scan_fields)
  ultimately show ?thesis
    unfolding scan_ok_def by blast
qed

lemma scan_ok_fold:
  assumes "scan_ok a m P st"
  shows "scan_ok a m (P \<union> set ps) (fold (probe_scan a m) ps st)"
  using assms
proof (induction ps arbitrary: P st)
  case (Cons p ps)
  show ?case
    using Cons.IH [OF scan_ok_step [OF Cons.prems, of p]] by simp
qed simp

lemma up_candidateD:
  assumes "probe_up_candidate_mcs table a m = Some r"
  obtains cur nxt where "cur \<in> set (pt_profiles table)" "pf_id cur = a" "nxt \<in> set (pt_profiles table)" "a < pf_id nxt"
    "\<And>p. p \<in> set (pt_profiles table) \<Longrightarrow> a < pf_id p \<Longrightarrow> pf_id nxt \<le> pf_id p"
    "pf_mcs nxt = r" "pf_mcs cur \<noteq> r" "(\<exists>p\<in>set (pt_profiles table). pf_id p = m) \<Longrightarrow> pf_id nxt \<le> m"
proof -
  define st where "st = fold (probe_scan a m) (pt_profiles table)
      \<lparr>ps_cur = None, ps_next = None, ps_top_id = 0, ps_ceiling_in_table = False\<rparr>"
  have ok: "scan_ok a m (set (pt_profiles table)) st"
    using scan_ok_fold [of a m "{}" "\<lparr>ps_cur = None, ps_next = None, ps_top_id = 0, ps_ceiling_in_table = False\<rparr>"
        "pt_profiles table"]
    by (simp add: st_def) (simp add: scan_ok_def)
  obtain cur nxt where cn: "ps_cur st = Some cur" "ps_next st = Some nxt" "pf_mcs nxt \<noteq> pf_mcs cur" "r = pf_mcs nxt"
    and "\<not> (if ps_ceiling_in_table st then m else ps_top_id st) < pf_id nxt"
    using assms by (auto simp: probe_up_candidate_mcs_def st_def [symmetric] Let_def split: option.splits if_splits)
  note C = this
  show thesis
  proof (rule that [of cur nxt])
    show "pf_id nxt \<le> m" if "\<exists>p\<in>set (pt_profiles table). pf_id p = m"
      using ok C(5) that by (simp add: scan_ok_def not_less)
  qed (use ok C(1-4) in \<open>simp_all add: scan_ok_def\<close>)
qed

section \<open>Runs\<close>

datatype ProbeEvent = ProbeData u32 u8 u8 u8 u64 | ProbeCrc u8 u32 u64 | ProbeReset

fun probe_step :: "ProbeEvent \<Rightarrow> McsProbeWindow \<Rightarrow> McsProbeWindow" where
  "probe_step (ProbeData seq ap tv mcs now) w = probe_on_data seq ap tv mcs now w"
| "probe_step (ProbeCrc mcs n now) w = on_crc_frames mcs n now w"
| "probe_step ProbeReset w = probe_reset w"

definition probe_run :: "ProbeEvent list \<Rightarrow> McsProbeWindow \<Rightarrow> McsProbeWindow" where
  "probe_run evs w = fold probe_step evs w"

lemma probe_run_snoc: "probe_run (evs @ [e]) w = probe_step e (probe_run evs w)"
  by (simp add: probe_run_def)

section \<open>No report without a direct observation\<close>

text \<open>A frame seen in the air at the rate above the profile the sender flies.\<close>

fun observes_candidate :: "ProfileTable \<Rightarrow> u8 \<Rightarrow> ProbeEvent \<Rightarrow> bool" where
  "observes_candidate t ap (ProbeData seq ap' tv mcs now) =
     (ap' = ap \<and> slot_of t seq \<and> probe_up_candidate_mcs t ap 255 = Some mcs)"
| "observes_candidate t ap (ProbeCrc mcs n now) = (n \<noteq> 0 \<and> probe_up_candidate_mcs t ap 255 = Some mcs)"
| "observes_candidate t ap ProbeReset = False"

definition evidence_ok :: "ProfileTable \<Rightarrow> (u8 \<Rightarrow> bool) \<Rightarrow> McsProbeWindow \<Rightarrow> bool" where
  "evidence_ok t obs w \<longleftrightarrow> mw_table w = Some t
     \<and> (mw_have_context w \<longrightarrow> mw_candidate w = probe_up_candidate_mcs t (mw_profile w) 255
          \<and> (mw_candidate_observed w \<noteq> 0 \<longrightarrow> obs (mw_profile w)))"

text \<open>The gap walk changes only its position and the failures.\<close>

abbreviation walk_view :: "McsProbeWindow \<Rightarrow> McsProbeWindow" where
  "walk_view w \<equiv> w\<lparr>mw_failures := 0, mw_walked_seq := 0\<rparr>"

lemma gap_walk_view: "walk_view (gap_walk t w) = walk_view w"
proof (induction t w rule: gap_walk.induct)
  case (1 t w)
  show ?case
  proof (cases "pp_gap_horizon (mw_p w) < mw_head_seq w - mw_walked_seq w")
    case True
    define s where "s = mw_walked_seq w + 1"
    have "gap_walk t w = gap_walk t (charge_slot t s (w\<lparr>mw_walked_seq := s\<rparr>))"
      using True by (subst gap_walk.simps) (simp add: s_def Let_def)
    moreover have "walk_view (charge_slot t s (w\<lparr>mw_walked_seq := s\<rparr>)) = walk_view w"
      by (simp add: charge_slot_def)
    ultimately show ?thesis
      using 1 [OF True s_def] by simp
  qed (subst gap_walk.simps, simp)
qed

declare gap_walk.simps [simp del] recycle.simps [simp del]

lemma advance_gap_walk_view: "walk_view (advance_gap_walk t w) = walk_view w"
  by (simp add: advance_gap_walk_def gap_walk_view)

lemma walk_view_fields:
  assumes "walk_view w = walk_view w'"
  shows "mw_table w = mw_table w'" "mw_tv w = mw_tv w'" "mw_p w = mw_p w'" "mw_have_context w = mw_have_context w'"
    "mw_candidate w = mw_candidate w'" "mw_profile w = mw_profile w'" "mw_confirmed w = mw_confirmed w'"
    "mw_candidate_observed w = mw_candidate_observed w'" "mw_have_head w = mw_have_head w'"
    "mw_head_seq w = mw_head_seq w'" "mw_seen w = mw_seen w'"
  using assms by (cases w; cases w'; simp)+

lemmas walked_fields [simp] = walk_view_fields [OF advance_gap_walk_view]

lemma place_seq_frame:
  assumes "place_seq t seq w = Some (w', b)"
  shows "mw_table w' = mw_table w" "mw_have_context w' = mw_have_context w" "mw_candidate w' = mw_candidate w"
    "mw_profile w' = mw_profile w" "mw_candidate_observed w' = mw_candidate_observed w"
  using assms by (auto simp: place_seq_def Let_def split: if_splits)

lemma refresh_window_frame [simp]:
  "mw_table (refresh_window now w) = mw_table w" "mw_have_context (refresh_window now w) = mw_have_context w"
  "mw_candidate (refresh_window now w) = mw_candidate w" "mw_profile (refresh_window now w) = mw_profile w"
  "mw_confirmed (refresh_window now w) = mw_confirmed w" "mw_have_head (refresh_window now w) = mw_have_head w"
  "mw_head_seq (refresh_window now w) = mw_head_seq w" "mw_walked_seq (refresh_window now w) = mw_walked_seq w"
  "mw_seen (refresh_window now w) = mw_seen w" "mw_p (refresh_window now w) = mw_p w" "mw_tv (refresh_window now w) = mw_tv w"
  by (simp_all add: refresh_window_def)

lemma evidence_ok_mono: "evidence_ok t obs w \<Longrightarrow> (\<And>ap. obs ap \<Longrightarrow> obs' ap) \<Longrightarrow> evidence_ok t obs' w"
  by (auto simp: evidence_ok_def)

lemma evidence_ok_refresh: "evidence_ok t obs w \<Longrightarrow> evidence_ok t obs (refresh_window now w)"
  by (auto simp: evidence_ok_def refresh_window_def)

lemma evidence_ok_reset: "evidence_ok t obs w \<Longrightarrow> evidence_ok t obs (reset_context t ap now w)"
  by (auto simp: evidence_ok_def reset_context_def probe_reset_def Let_def split: option.splits)

lemma evidence_ok_place: "evidence_ok t obs w \<Longrightarrow> place_seq t seq w = Some (w', b) \<Longrightarrow> evidence_ok t obs w'"
  using place_seq_frame [of t seq w w' b] by (simp add: evidence_ok_def)

lemma evidence_ok_score:
  assumes "evidence_ok t obs w" and "mw_have_context w" and "mw_profile w = ap"
  shows "evidence_ok t (\<lambda>p. obs p \<or> observes_candidate t p (ProbeData seq ap tv mcs now)) (score_frame t seq mcs b w)"
  using assms by (auto simp: evidence_ok_def score_frame_def)

lemma reset_context_profile: "mw_profile (reset_context t ap now w) = ap"
  by (simp add: reset_context_def Let_def split: option.split)

lemma evidence_ok_on_data:
  assumes ok: "evidence_ok t obs w"
  shows "evidence_ok t (\<lambda>p. obs p \<or> observes_candidate t p (ProbeData seq ap tv mcs now)) (probe_on_data seq ap tv mcs now w)"
    (is "evidence_ok t ?obs _")
proof -
  define w1 where "w1 = enter_context t ap now w"
  have weak: "evidence_ok t ?obs v" if "evidence_ok t obs v" for v
    using that by (rule evidence_ok_mono) simp
  have w1: "evidence_ok t obs w1" "mw_profile w1 = ap"
    using ok by (auto simp: w1_def enter_context_def evidence_ok_reset reset_context_profile)
  have "evidence_ok t ?obs (case place_seq t seq (refresh_window now w1) of
      None \<Rightarrow> refresh_window now w1 | Some (w, b) \<Rightarrow> score_frame t seq mcs b w)" if "mw_have_context w1"
  proof (cases "place_seq t seq (refresh_window now w1)")
    case None
    then show ?thesis
      using w1 by (simp add: weak evidence_ok_refresh del: observes_candidate.simps)
  next
    case (Some wb)
    then obtain w2 b where w2: "place_seq t seq (refresh_window now w1) = Some (w2, b)"
      by (cases wb) auto
    then have "evidence_ok t obs w2" "mw_have_context w2" "mw_profile w2 = ap"
      using w1 that place_seq_frame [OF w2] evidence_ok_place [OF evidence_ok_refresh w2] by auto
    then show ?thesis
      using w2 by (simp add: evidence_ok_score del: observes_candidate.simps)
  qed
  moreover have "mw_table w = Some t"
    using ok by (simp add: evidence_ok_def)
  ultimately show ?thesis
    using weak [OF ok] weak [OF w1(1)]
    by (simp add: probe_on_data_def Let_def w1_def [symmetric] del: observes_candidate.simps)
qed

lemma evidence_ok_crc:
  assumes ok: "evidence_ok t obs w"
  shows "evidence_ok t (\<lambda>p. obs p \<or> observes_candidate t p (ProbeCrc mcs n now)) (on_crc_frames mcs n now w)"
  using ok by (auto simp: evidence_ok_def on_crc_frames_def Let_def refresh_window_def)

lemma evidence_ok_run:
  "evidence_ok t (\<lambda>ap. \<exists>e\<in>set evs. observes_candidate t ap e) (probe_run evs (new_probe_window (Some t) tv p))"
proof (induction evs rule: rev_induct)
  case Nil
  then show ?case
    by (simp add: probe_run_def evidence_ok_def new_probe_window_def)
next
  case (snoc e evs)
  let ?w = "probe_run evs (new_probe_window (Some t) tv p)"
  have "evidence_ok t (\<lambda>ap. (\<exists>e\<in>set evs. observes_candidate t ap e) \<or> observes_candidate t ap e) (probe_step e ?w)"
  proof (cases e)
    case ProbeReset
    then show ?thesis
      using snoc by (auto simp: evidence_ok_def probe_reset_def)
  qed (use evidence_ok_on_data [OF snoc] evidence_ok_crc [OF snoc] in \<open>simp_all del: observes_candidate.simps\<close>)
  then show ?case
    by (simp add: probe_run_snoc) (metis (mono_tags, lifting) evidence_ok_mono)
qed

lemma probe_per_some:
  assumes "probe_per now w = Some per"
  shows "mw_have_context w" "mw_candidate_observed w \<noteq> 0" "per \<le> 1000" "now - mw_window_start_ms w \<le> ucast (pp_max_age_ms (mw_p w))"
    "pp_min_samples (mw_p w) \<le> mw_successes w + mw_failures w" "mw_candidate w \<noteq> None"
proof -
  define x where "x = (ucast ((ucast (mw_failures w) :: u64) * 1000 div ucast (mw_successes w + mw_failures w)) :: u32)"
  have a: "mw_have_context w \<and> mw_candidate w \<noteq> None \<and> now - mw_window_start_ms w \<le> ucast (pp_max_age_ms (mw_p w))
      \<and> pp_min_samples (mw_p w) \<le> mw_successes w + mw_failures w \<and> mw_candidate_observed w \<noteq> 0
      \<and> per = ucast (if 1000 < x then 1000 else x)"
    using assms by (simp add: probe_per_def Let_def x_def [symmetric] not_le split: if_splits) auto
  moreover have "unat (ucast y :: u16) \<le> 1000" if "y \<le> 1000" for y :: u32
    using that by (simp add: unsigned_ucast_eq take_bit_eq_mod word_le_nat_alt)
  ultimately show "per \<le> 1000"
    by (simp add: word_le_nat_alt not_less)
  show "mw_have_context w" "mw_candidate_observed w \<noteq> 0" "now - mw_window_start_ms w \<le> ucast (pp_max_age_ms (mw_p w))"
    "pp_min_samples (mw_p w) \<le> mw_successes w + mw_failures w" "mw_candidate w \<noteq> None"
    using a by simp_all
qed

lemma evidence_at_report:
  assumes "probe_per now (probe_run evs (new_probe_window (Some t) tv p)) = Some per"
  shows "\<exists>e\<in>set evs. observes_candidate t (mw_profile (probe_run evs (new_probe_window (Some t) tv p))) e"
  using probe_per_some [OF assms] evidence_ok_run [of t evs tv p] by (simp add: evidence_ok_def)

text \<open>C34: Whenever the probe window gives an opinion, whatever it heard before, the error rate is at
  most 1000 permille and at least one frame at the candidate rate of the current profile was
  itself observed: silence alone never makes evidence.\<close>

theorem probe_reports_only_observed_rate:
  assumes "probe_per now (probe_run evs (new_probe_window (Some t) tv p)) = Some per"
  shows "per \<le> 1000 \<and> (\<exists>e\<in>set evs. observes_candidate t (mw_profile (probe_run evs (new_probe_window (Some t) tv p))) e)"
  using probe_per_some(3) [OF assms] evidence_at_report [OF assms] by blast

section \<open>The gap walk charges only slots that never arrived\<close>

subsection \<open>The bitmap\<close>

abbreviation seen_idx :: "u32 \<Rightarrow> nat" where
  "seen_idx s \<equiv> unat s mod 1024"

lemma seen_pos: "seen_word s = seen_idx s div 64" "seen_bit s = seen_idx s mod 64"
  by (simp_all add: seen_word_def seen_bit_def kSeenBits_def unat_mod)

lemma seen_pos_eq: "seen_word s = seen_word s' \<and> seen_bit s = seen_bit s' \<longleftrightarrow> seen_idx s = seen_idx s'"
  unfolding seen_pos by (metis div_mult_mod_eq)

lemma seen_word_less: "seen_word s < 16"
  unfolding seen_pos by (simp add: less_mult_imp_div_less)

lemma seen_bit_less: "seen_bit s < 64"
  by (simp add: seen_bit_def)

lemma bm_seen_bit: "bm_seen bm s = bit (bm ! seen_word s) (seen_bit s)"
  by (simp add: bm_seen_def bit_iff_odd_drop_bit and_one_eq odd_iff_mod_2_eq_one)

lemma bm_mark: "length bm = 16 \<Longrightarrow> bm_seen (mark_seen bm s) s' = (seen_idx s = seen_idx s' \<or> bm_seen bm s')"
  using seen_pos_eq [of s s'] seen_word_less [of s] seen_bit_less [of s]
  by (cases "seen_word s = seen_word s'")
    (auto simp: bm_seen_bit mark_seen_def bit_or_iff bit_push_bit_iff nth_list_update bit_exp_iff)

lemma bm_clear: "length bm = 16 \<Longrightarrow> bm_seen (clear_seen bm s) s' = (seen_idx s \<noteq> seen_idx s' \<and> bm_seen bm s')"
  using seen_pos_eq [of s s'] seen_word_less [of s] seen_bit_less [of s] seen_bit_less [of s']
  by (cases "seen_word s = seen_word s'")
    (auto simp: bm_seen_bit clear_seen_def bit_and_iff bit_not_iff bit_push_bit_iff nth_list_update bit_exp_iff)

lemma length_mark [simp]: "length (mark_seen bm s) = length bm"
  by (simp add: mark_seen_def)

lemma length_clear [simp]: "length (clear_seen bm s) = length bm"
  by (simp add: clear_seen_def)

lemma length_recycle [simp]: "length (recycle s e bm) = length bm"
  by (induction s e bm rule: recycle.induct) (subst recycle.simps, simp)

lemma length_empty_bitmap [simp]: "length empty_bitmap = 16"
  by (simp add: empty_bitmap_def)

lemma unat_succ:
  assumes "s < (e :: u32)"
  shows "unat (s + 1) = unat s + 1"
proof -
  have "unat e < 2 ^ LENGTH(32)"
    by (rule unsigned_less)
  then show ?thesis
    using assms by (simp add: unat_word_ariths word_less_nat_alt)
qed

lemma bm_recycle:
  assumes "length bm = 16" and "bm_seen bm x" and "\<And>j. j < unat (e - s) \<Longrightarrow> seen_idx (s + of_nat j) \<noteq> seen_idx x"
  shows "bm_seen (recycle s e bm) x"
  using assms
proof (induction s e bm rule: recycle.induct)
  case (1 s e bm)
  show ?case
  proof (cases "s = e")
    case False
    then have d: "0 < unat (e - s)" "unat (e - (s + 1)) = unat (e - s) - 1"
      by (simp_all add: diff_diff_eq [symmetric] unat_minus_one unat_gt_0)
    have "bm_seen (recycle (s + 1) e (clear_seen bm s)) x"
    proof (rule "1.IH" [OF False])
      show "bm_seen (clear_seen bm s) x"
        using "1.prems" "1.prems"(3) [OF d(1)] by (simp add: bm_clear)
      show "seen_idx (s + 1 + of_nat j) \<noteq> seen_idx x" if "j < unat (e - (s + 1))" for j
        using "1.prems"(3) [of "Suc j"] that d by (simp add: add.assoc)
    qed (use "1.prems" in simp)
    then show ?thesis
      using False by (subst recycle.simps) simp
  qed (use "1.prems" in \<open>subst recycle.simps, simp\<close>)
qed

subsection \<open>The walk\<close>

text \<open>Everything received in this context, at most the head, and still readable in the bitmap as long as the
  walk has not settled it.\<close>

definition tracks :: "u32 set \<Rightarrow> McsProbeWindow \<Rightarrow> bool" where
  "tracks R w \<longleftrightarrow> length (mw_seen w) = 16 \<and> mw_walked_seq w \<le> mw_head_seq w
     \<and> (\<forall>s\<in>R. s \<le> mw_head_seq w
          \<and> (mw_walked_seq w < s \<and> unat (mw_head_seq w) < unat s + 1024 \<longrightarrow> bm_seen (mw_seen w) s))"

definition missed_slots :: "ProfileTable \<Rightarrow> u32 set \<Rightarrow> u32 \<Rightarrow> u32 \<Rightarrow> u32 set" where
  "missed_slots t R lo hi = {s. lo < s \<and> s \<le> hi \<and> slot_of t s \<and> s \<notin> R}"

lemma finite_missed [simp]: "finite (missed_slots t R lo hi)"
  by simp

lemma gap_walk_step:
  assumes tr: "tracks R w" and near: "unat (mw_head_seq w) \<le> unat (mw_walked_seq w) + 1024"
    and run: "pp_gap_horizon (mw_p w) < mw_head_seq w - mw_walked_seq w" and s: "s = mw_walked_seq w + 1"
    and v: "v = charge_slot t s (w\<lparr>mw_walked_seq := s\<rparr>)"
  shows "gap_walk t w = gap_walk t v" and "tracks R v" and "unat (mw_head_seq v) \<le> unat (mw_walked_seq v) + 1024"
    and "mw_walked_seq w < s" and "s \<le> mw_head_seq w"
    and "unat (mw_failures v) \<le> unat (mw_failures w) + of_bool (mw_candidate w \<noteq> None \<and> mw_confirmed w \<and> slot_of t s \<and> s \<notin> R)"
proof -
  show "gap_walk t w = gap_walk t v"
    using run by (subst gap_walk.simps) (simp add: s v Let_def)
  have "mw_walked_seq w \<noteq> mw_head_seq w"
    using run by auto
  then have lt: "mw_walked_seq w < mw_head_seq w"
    using tr by (simp add: tracks_def order.strict_iff_order)
  note u = unat_succ [OF lt]
  show "mw_walked_seq w < s" and le: "s \<le> mw_head_seq w"
    using lt u by (simp_all add: s word_less_nat_alt word_le_nat_alt)
  show "unat (mw_head_seq v) \<le> unat (mw_walked_seq v) + 1024"
    using near u by (simp add: v s)
  have sv: "mw_seen v = mw_seen w" "mw_head_seq v = mw_head_seq w" "mw_walked_seq v = s"
    by (simp_all add: v charge_slot_def)
  show "tracks R v"
    using tr le u by (auto simp: tracks_def sv s word_less_nat_alt word_le_nat_alt)
  have "bm_seen (mw_seen w) s" if "s \<in> R"
    using tr that near lt u by (simp add: tracks_def s word_less_nat_alt)
  moreover have "unat (mw_failures w + 1) \<le> unat (mw_failures w) + 1"
    by (simp add: unat_word_ariths)
  ultimately show "unat (mw_failures v) \<le> unat (mw_failures w)
      + of_bool (mw_candidate w \<noteq> None \<and> mw_confirmed w \<and> slot_of t s \<and> s \<notin> R)"
    by (auto simp: v charge_slot_def)
qed

lemma gap_walk_charges:
  assumes "tracks R w" and "unat (mw_head_seq w) \<le> unat (mw_walked_seq w) + 1024"
  shows "tracks R (gap_walk t w) \<and> mw_walked_seq w \<le> mw_walked_seq (gap_walk t w)
    \<and> unat (mw_failures (gap_walk t w)) \<le> unat (mw_failures w)
        + (if mw_candidate w \<noteq> None \<and> mw_confirmed w then card (missed_slots t R (mw_walked_seq w) (mw_walked_seq (gap_walk t w))) else 0)"
  using assms
proof (induction t w rule: gap_walk.induct)
  case (1 t w)
  show ?case
  proof (cases "pp_gap_horizon (mw_p w) < mw_head_seq w - mw_walked_seq w")
    case True
    define s where "s = mw_walked_seq w + 1"
    define v where "v = charge_slot t s (w\<lparr>mw_walked_seq := s\<rparr>)"
    note st = gap_walk_step [OF "1.prems" True s_def v_def]
    note IH = "1.IH" [OF True s_def, folded v_def, OF st(2,3)]
    have sv: "mw_walked_seq v = s" "mw_candidate v = mw_candidate w" "mw_confirmed v = mw_confirmed w"
      by (simp_all add: v_def charge_slot_def)
    let ?hi = "mw_walked_seq (gap_walk t v)"
    have "(if slot_of t s \<and> s \<notin> R then {s} else {}) \<union> missed_slots t R s ?hi \<subseteq> missed_slots t R (mw_walked_seq w) ?hi"
      using st(4) IH sv by (auto simp: missed_slots_def)
    then have "card ((if slot_of t s \<and> s \<notin> R then {s} else {}) \<union> missed_slots t R s ?hi) \<le> card (missed_slots t R (mw_walked_seq w) ?hi)"
      by (intro card_mono) simp_all
    moreover have "s \<notin> missed_slots t R s ?hi"
      by (simp add: missed_slots_def)
    ultimately have "of_bool (slot_of t s \<and> s \<notin> R) + card (missed_slots t R s ?hi) \<le> card (missed_slots t R (mw_walked_seq w) ?hi)"
      by (auto split: if_splits)
    then show ?thesis
      using IH st(1,4,6) sv by (auto split: if_splits)
  next
    case False
    then have "gap_walk t w = w"
      by (subst gap_walk.simps) simp
    then show ?thesis
      using "1.prems" by simp
  qed
qed

lemma advance_charges:
  assumes "tracks R w"
  shows "tracks R (advance_gap_walk t w)
    \<and> unat (mw_failures (advance_gap_walk t w)) \<le> unat (mw_failures w)
        + (if mw_candidate w \<noteq> None \<and> mw_confirmed w
           then card (missed_slots t R (mw_walked_seq w) (mw_walked_seq (advance_gap_walk t w))) else 0)"
proof -
  define v where "v = (if kSeenBits < mw_head_seq w - mw_walked_seq w then w\<lparr>mw_walked_seq := mw_head_seq w - kSeenBits\<rparr> else w)"
  have diff: "unat (mw_head_seq w - mw_walked_seq w) = unat (mw_head_seq w) - unat (mw_walked_seq w)"
    "unat (mw_walked_seq w) \<le> unat (mw_head_seq w)"
    using assms by (simp_all add: tracks_def unat_diff_le word_le_nat_alt)
  have "tracks R v \<and> unat (mw_head_seq v) \<le> unat (mw_walked_seq v) + 1024 \<and> mw_walked_seq w \<le> mw_walked_seq v"
  proof (cases "kSeenBits < mw_head_seq w - mw_walked_seq w")
    case True
    then have "unat (mw_head_seq w - kSeenBits) = unat (mw_head_seq w) - 1024" "1024 + unat (mw_walked_seq w) < unat (mw_head_seq w)"
      using diff by (auto simp: word_less_nat_alt kSeenBits_def unat_diff_le word_le_nat_alt)
    then show ?thesis
      using True assms by (auto simp: v_def tracks_def word_less_nat_alt word_le_nat_alt)
  next
    case False
    then show ?thesis
      using assms diff by (auto simp: v_def word_less_nat_alt kSeenBits_def)
  qed
  note V = this
  have W: "advance_gap_walk t w = gap_walk t v" "mw_failures v = mw_failures w" "mw_candidate v = mw_candidate w" "mw_confirmed v = mw_confirmed w"
    by (simp_all add: advance_gap_walk_def v_def)
  have "missed_slots t R (mw_walked_seq v) hi \<subseteq> missed_slots t R (mw_walked_seq w) hi" for hi
    using V by (auto simp: missed_slots_def)
  then have "card (missed_slots t R (mw_walked_seq v) hi) \<le> card (missed_slots t R (mw_walked_seq w) hi)" for hi
    by (simp add: card_mono)
  then show ?thesis
    using gap_walk_charges [of R v t] V unfolding W by (force intro: order_trans split: if_splits)
qed

subsection \<open>Placing a frame\<close>

lemma idx_between:
  assumes "unat x < unat y" and "unat y < unat x + 1024"
  shows "seen_idx y \<noteq> seen_idx x"
proof
  assume "seen_idx y = seen_idx x"
  then have "1024 dvd unat y - unat x"
    using assms(1) by (simp add: mod_eq_dvd_iff_nat)
  then show False
    using assms by (auto dest: dvd_imp_le)
qed

lemma place_first:
  assumes "\<not> mw_have_head w"
  shows "place_seq t seq w = Some (w\<lparr>mw_have_head := True, mw_head_seq := seq, mw_walked_seq := seq,
      mw_seen := mark_seen empty_bitmap seq\<rparr>, True)"
  using assms by (simp add: place_seq_def)

lemma tracks_advance:
  assumes tr: "tracks R w" and lt: "mw_head_seq w < seq"
    and w1: "w1 = (if kSeenBits \<le> seq - mw_head_seq w then w\<lparr>mw_seen := empty_bitmap, mw_walked_seq := seq\<rparr>
                   else w\<lparr>mw_seen := recycle (mw_head_seq w + 1) (seq + 1) (mw_seen w)\<rparr>)"
  shows "tracks (insert seq R) (w1\<lparr>mw_head_seq := seq, mw_seen := mark_seen (mw_seen w1) seq\<rparr>)"
proof (cases "kSeenBits \<le> seq - mw_head_seq w")
  case True
  then show ?thesis
    using tr lt by (auto simp: tracks_def w1)
next
  case False
  have sd: "unat (seq - mw_head_seq w) = unat seq - unat (mw_head_seq w)" "unat (mw_head_seq w) < unat seq"
    using lt by (simp_all add: unat_diff_le less_imp_le word_less_nat_alt)
  have len: "length (recycle (mw_head_seq w + 1) (seq + 1) (mw_seen w)) = 16"
    using tr by (simp add: tracks_def)
  have "bm_seen (recycle (mw_head_seq w + 1) (seq + 1) (mw_seen w)) s"
    if s: "s \<in> R" "mw_walked_seq w < s" "unat seq < unat s + 1024" for s
  proof (rule bm_recycle)
    show "length (mw_seen w) = 16" and "bm_seen (mw_seen w) s"
      using tr s sd by (auto simp: tracks_def)
    show "seen_idx (mw_head_seq w + 1 + of_nat j) \<noteq> seen_idx s" if "j < unat (seq + 1 - (mw_head_seq w + 1))" for j
    proof (rule idx_between)
      have j: "unat (mw_head_seq w) + 1 + j \<le> unat seq"
        using that sd by simp
      moreover have "unat seq < 2 ^ LENGTH(32)"
        by (rule unsigned_less)
      ultimately have "unat (mw_head_seq w + 1 + of_nat j) = unat (mw_head_seq w) + 1 + j"
        by (simp add: unat_word_ariths unsigned_of_nat take_bit_eq_mod)
      then show "unat s < unat (mw_head_seq w + 1 + of_nat j)" and "unat (mw_head_seq w + 1 + of_nat j) < unat s + 1024"
        using tr s j by (auto simp: tracks_def word_le_nat_alt dest!: bspec [OF _ s(1)])
    qed
  qed
  then show ?thesis
    using tr lt False len by (auto simp: tracks_def w1 bm_mark)
qed

text \<open>How much one frame may add to the failures.\<close>

definition charge_bound :: "ProfileTable \<Rightarrow> u32 set \<Rightarrow> McsProbeWindow \<Rightarrow> McsProbeWindow \<Rightarrow> bool" where
  "charge_bound t R w w' \<longleftrightarrow> unat (mw_failures w') \<le> unat (mw_failures w)
     + (if mw_candidate w \<noteq> None \<and> mw_confirmed w then card (missed_slots t R (mw_walked_seq w) (mw_walked_seq w')) else 0)"

lemma place_later:
  assumes tr: "tracks R w" and hd: "mw_have_head w"
  shows "case place_seq t seq w of None \<Rightarrow> tracks (insert seq R) w
       | Some (w', b) \<Rightarrow> tracks (insert seq R) w' \<and> mw_have_head w' \<and> charge_bound t (insert seq R) w w'"
proof (cases "mw_head_seq w < seq")
  case True
  define w1 where "w1 = (if kSeenBits \<le> seq - mw_head_seq w then w\<lparr>mw_seen := empty_bitmap, mw_walked_seq := seq\<rparr>
      else w\<lparr>mw_seen := recycle (mw_head_seq w + 1) (seq + 1) (mw_seen w)\<rparr>)"
  define w2 where "w2 = w1\<lparr>mw_head_seq := seq, mw_seen := mark_seen (mw_seen w1) seq\<rparr>"
  have pl: "place_seq t seq w = Some (advance_gap_walk t w2, True)"
    unfolding place_seq_def Let_def w2_def w1_def using hd True by (simp only: if_True if_False simp_thms)
  have "tracks (insert seq R) w2"
    unfolding w2_def using tr True w1_def by (rule tracks_advance)
  note A = advance_charges [OF this, of t]
  have w2: "mw_failures w2 = mw_failures w" "mw_candidate w2 = mw_candidate w" "mw_confirmed w2 = mw_confirmed w"
    "mw_walked_seq w \<le> mw_walked_seq w2" "mw_have_head w2"
    using tr True hd by (auto simp: w2_def w1_def tracks_def)
  have "missed_slots t (insert seq R) (mw_walked_seq w2) hi \<subseteq> missed_slots t (insert seq R) (mw_walked_seq w) hi" for hi
    using w2(4) by (auto simp: missed_slots_def)
  then have "card (missed_slots t (insert seq R) (mw_walked_seq w2) hi) \<le> card (missed_slots t (insert seq R) (mw_walked_seq w) hi)" for hi
    by (simp add: card_mono)
  then have "charge_bound t (insert seq R) w (advance_gap_walk t w2)"
    using A unfolding charge_bound_def w2 by (force intro: order_trans split: if_splits)
  then show ?thesis
    using A w2(5) by (simp add: pl)
next
  case False
  then have le: "seq \<le> mw_head_seq w" "unat (mw_head_seq w - seq) = unat (mw_head_seq w) - unat seq"
    by (simp_all add: not_less unat_diff_le)
  show ?thesis
  proof (cases "kSeenBits \<le> mw_head_seq w - seq \<or> seq \<le> mw_walked_seq w")
    case True
    then have "place_seq t seq w = None"
      using hd False by (simp add: place_seq_def)
    moreover have "tracks (insert seq R) w"
      using tr True le by (auto simp: tracks_def kSeenBits_def word_le_nat_alt word_less_nat_alt)
    ultimately show ?thesis
      by simp
  next
    case F: False
    then have "place_seq t seq w = Some (w\<lparr>mw_seen := mark_seen (mw_seen w) seq\<rparr>, \<not> bm_seen (mw_seen w) seq)"
      using hd False by (simp add: place_seq_def)
    moreover have "tracks (insert seq R) (w\<lparr>mw_seen := mark_seen (mw_seen w) seq\<rparr>)"
      using tr le by (auto simp: tracks_def bm_mark)
    ultimately show ?thesis
      using hd by (simp add: charge_bound_def)
  qed
qed

subsection \<open>Runs of one sender\<close>

fun on_profile :: "u8 \<Rightarrow> u8 \<Rightarrow> ProbeEvent \<Rightarrow> bool" where
  "on_profile ap tv (ProbeData seq ap' tv' mcs now) = (ap' = ap \<and> tv' = tv)"
| "on_profile ap tv (ProbeCrc mcs n now) = True"
| "on_profile ap tv ProbeReset = False"

fun event_seqs :: "ProbeEvent \<Rightarrow> u32 set" where
  "event_seqs (ProbeData seq ap tv mcs now) = {seq}"
| "event_seqs _ = {}"

definition received :: "ProbeEvent list \<Rightarrow> u32 set" where
  "received evs = \<Union> (event_seqs ` set evs)"

definition sender_ok :: "ProfileTable \<Rightarrow> u8 \<Rightarrow> u8 \<Rightarrow> u32 set \<Rightarrow> McsProbeWindow \<Rightarrow> bool" where
  "sender_ok t ap tv R w \<longleftrightarrow> mw_table w = Some t \<and> mw_tv w = Some tv
     \<and> (mw_have_context w \<longrightarrow> mw_profile w = ap \<and> mw_have_head w \<and> tracks R w \<and> pt_probe_period t \<noteq> 0)
     \<and> (\<not> mw_have_context w \<longrightarrow> R = {} \<or> last_profile t ap = None \<or> pt_probe_period t = 0)"

lemma score_frame_frame:
  "mw_table (score_frame t seq mcs b w) = mw_table w" "mw_tv (score_frame t seq mcs b w) = mw_tv w"
  "mw_have_context (score_frame t seq mcs b w) = mw_have_context w" "mw_profile (score_frame t seq mcs b w) = mw_profile w"
  "mw_have_head (score_frame t seq mcs b w) = mw_have_head w" "tracks R (score_frame t seq mcs b w) = tracks R w"
  "mw_failures (score_frame t seq mcs b w) = mw_failures w" "mw_walked_seq (score_frame t seq mcs b w) = mw_walked_seq w"
  by (simp_all add: score_frame_def tracks_def)

lemma charge_bound_zero: "mw_failures w' = 0 \<Longrightarrow> charge_bound t R w w'"
  by (simp add: charge_bound_def)

lemma charge_bound_score: "charge_bound t R w (score_frame t' seq mcs b v) = charge_bound t R w v"
  by (simp add: charge_bound_def score_frame_frame)

lemma tracks_refresh: "tracks R (refresh_window now w) = tracks R w"
  by (simp add: tracks_def)

lemma charge_bound_refresh: "charge_bound t R (refresh_window now w) w' \<Longrightarrow> charge_bound t R w w'"
  by (auto simp: charge_bound_def refresh_window_def split: if_splits)

lemma on_data_known:
  assumes "sender_ok t ap tv R w" and "pt_probe_period t \<noteq> 0"
  shows "probe_on_data seq ap tv mcs now w =
     (let w = enter_context t ap now w
      in if \<not> mw_have_context w then w
         else (let w = refresh_window now w
               in case place_seq t seq w of None \<Rightarrow> w | Some (w, b) \<Rightarrow> score_frame t seq mcs b w))"
  using assms by (simp add: probe_on_data_def sender_ok_def Let_def)

lemma sender_first:
  assumes ok: "sender_ok t ap tv R w" and per: "pt_probe_period t \<noteq> 0" and ctx: "\<not> mw_have_context w"
  shows "sender_ok t ap tv (insert seq R) (probe_on_data seq ap tv mcs now w)"
    and "mw_failures (probe_on_data seq ap tv mcs now w) = 0"
proof -
  define w1 where "w1 = refresh_window now (reset_context t ap now w)"
  have ec: "enter_context t ap now w = reset_context t ap now w"
    using ctx by (simp add: enter_context_def)
  have w1: "mw_table w1 = Some t" "mw_tv w1 = Some tv" "\<not> mw_have_head w1" "mw_profile w1 = ap" "mw_failures w1 = 0"
    using ok by (auto simp: w1_def reset_context_def probe_reset_def refresh_window_def sender_ok_def Let_def split: option.split)
  have known: "mw_have_context (reset_context t ap now w) \<longleftrightarrow> last_profile t ap \<noteq> None" "mw_have_context w1 \<longleftrightarrow> last_profile t ap \<noteq> None"
    by (auto simp: w1_def reset_context_def probe_reset_def Let_def split: option.split)
  have R: "last_profile t ap \<noteq> None \<Longrightarrow> R = {}"
    using ok ctx per by (auto simp: sender_ok_def)
  have eq: "probe_on_data seq ap tv mcs now w =
      (if last_profile t ap = None then reset_context t ap now w
       else score_frame t seq mcs True (w1\<lparr>mw_have_head := True, mw_head_seq := seq, mw_walked_seq := seq, mw_seen := mark_seen empty_bitmap seq\<rparr>))"
    unfolding on_data_known [OF ok per] ec Let_def w1_def [symmetric] place_first [OF w1(3)] known by simp
  show "mw_failures (probe_on_data seq ap tv mcs now w) = 0"
    unfolding eq using w1 by (simp add: score_frame_frame) (simp add: reset_context_def probe_reset_def Let_def split: option.split)
  show "sender_ok t ap tv (insert seq R) (probe_on_data seq ap tv mcs now w)"
  proof (cases "last_profile t ap = None")
    case True
    then show ?thesis
      using ok known unfolding eq sender_ok_def by (simp add: reset_context_def probe_reset_def Let_def)
  next
    case False
    then show ?thesis
      using w1 known R [OF False] per unfolding eq if_not_P [OF False] sender_ok_def score_frame_frame by (simp add: tracks_def)
  qed
qed

lemma sender_on_data:
  assumes ok: "sender_ok t ap tv R w"
  shows "sender_ok t ap tv (insert seq R) (probe_on_data seq ap tv mcs now w)
    \<and> charge_bound t (insert seq R) w (probe_on_data seq ap tv mcs now w)"
proof (cases "pt_probe_period t = 0")
  case True
  then have "probe_on_data seq ap tv mcs now w = w"
    using ok by (simp add: probe_on_data_def sender_ok_def)
  then show ?thesis
    using ok True by (simp add: sender_ok_def charge_bound_def)
next
  case per: False
  show ?thesis
  proof (cases "mw_have_context w")
    case False
    then show ?thesis
      using sender_first [OF ok per False] by (simp add: charge_bound_zero)
  next
    case True
    define v where "v = refresh_window now w"
    have v: "tracks R v" "mw_have_head v" "mw_table v = Some t" "mw_tv v = Some tv" "mw_profile v = ap" "mw_have_context v"
      using ok True by (simp_all add: v_def sender_ok_def tracks_refresh)
    have eq: "probe_on_data seq ap tv mcs now w = (case place_seq t seq v of None \<Rightarrow> v | Some (w, b) \<Rightarrow> score_frame t seq mcs b w)"
      using True ok by (simp add: on_data_known [OF ok per] enter_context_def sender_ok_def Let_def v_def cong: option.case_cong)
    show ?thesis
    proof (cases "place_seq t seq v")
      case None
      moreover have "charge_bound t (insert seq R) w v"
        unfolding v_def by (rule charge_bound_refresh [of _ _ now]) (simp add: charge_bound_def)
      ultimately show ?thesis
        using place_later [OF v(1,2), of seq t] v per by (simp add: eq sender_ok_def)
    next
      case (Some wb)
      obtain w2 b where w2: "place_seq t seq v = Some (w2, b)"
        using Some by (cases wb) auto
      have "tracks (insert seq R) w2" "mw_have_head w2" "charge_bound t (insert seq R) v w2"
        using place_later [OF v(1,2), of seq t] by (simp_all add: w2)
      moreover have "mw_tv w2 = mw_tv v"
        using w2 by (auto simp: place_seq_def Let_def split: if_splits)
      ultimately show ?thesis
        using v per place_seq_frame [OF w2] charge_bound_refresh [of t "insert seq R" now w w2]
        by (simp add: eq w2 sender_ok_def score_frame_frame charge_bound_score v_def [symmetric])
    qed
  qed
qed

lemma sender_run:
  assumes "\<forall>e\<in>set evs. on_profile ap tv e"
  shows "sender_ok t ap tv (received evs) (probe_run evs (new_probe_window (Some t) (Some tv) p))"
  using assms
proof (induction evs rule: rev_induct)
  case Nil
  then show ?case
    by (simp add: probe_run_def sender_ok_def new_probe_window_def received_def)
next
  case (snoc e evs)
  let ?w = "probe_run evs (new_probe_window (Some t) (Some tv) p)"
  have IH: "sender_ok t ap tv (received evs) ?w"
    using snoc by simp
  have "sender_ok t ap tv (received evs \<union> event_seqs e) (probe_step e ?w)"
  proof (cases e)
    case (ProbeCrc mcs n now)
    then show ?thesis
      using IH by (auto simp: sender_ok_def on_crc_frames_def Let_def tracks_def)
  qed (use snoc.prems sender_on_data [OF IH] in auto)
  then show ?case
    by (simp add: probe_run_snoc received_def Un_commute)
qed

text \<open>A data frame that arrives while the sender stays on one profile adds at most as many failures as
  probe slots were passed by the gap walk without their sequence number ever being received.\<close>

theorem gap_walk_charges_only_missing_slots:
  assumes "\<forall>e\<in>set evs. on_profile ap tv e"
    and "w = probe_run evs (new_probe_window (Some t) (Some tv) p)"
    and "w' = probe_step (ProbeData seq ap tv mcs now) w"
  shows "unat (mw_failures w') \<le> unat (mw_failures w)
     + (if mw_candidate w \<noteq> None \<and> mw_confirmed w
        then card (missed_slots t (insert seq (received evs)) (mw_walked_seq w) (mw_walked_seq w')) else 0)"
  using sender_on_data [OF sender_run [OF assms(1), of t p], of seq mcs now] unfolding assms(2,3) charge_bound_def by (simp only: probe_step.simps)

section \<open>Examples\<close>

definition probe_profile :: "u8 \<Rightarrow> Profile" where
  "probe_profile i = \<lparr>pf_id = i, pf_mcs = i, pf_gi = gi_kLong, pf_tx_power_level = 4, pf_airtime_budget_permille = 700,
     pf_max_payload = 1400, pf_fec_scheme = fec_kRlc256, pf_fec_overhead_permille = 200, pf_arq_deadline_iframe_ms = 30,
     pf_arq_deadline_pframe_ms = 20, pf_bitrate_min_kbps = 1000, pf_reserve_control_bps = 10000, pf_reserve_telemetry_bps = 10000\<rparr>"

definition probe_table :: ProfileTable where
  "probe_table = \<lparr>pt_profiles = [probe_profile 0, probe_profile 1], pt_floor_profile = 0, pt_probe_period = 4, pt_probe_slot = 1\<rparr>"

definition probe_params_demo :: ProbeParams where
  "probe_params_demo = \<lparr>pp_min_samples = 1, pp_max_age_ms = 8000, pp_gap_horizon = 2\<rparr>"

lemma empty_bitmap_eval: "empty_bitmap = [0, 0, 0, 0, 0, 0, 0, 0, 0, 0, 0, 0, 0, 0, 0, 0]"
  by (simp add: empty_bitmap_def numeral_eq_Suc)

lemmas probe_eval = probe_on_data_def probe_table_def probe_profile_def
  probe_params_demo_def enter_context_def reset_context_def probe_reset_def last_profile_def probe_up_candidate_mcs_def
  probe_scan_def refresh_window_def place_seq_def score_frame_def advance_gap_walk_def kSeenBits_def slot_of_def
  probe_slot_hit_def charge_slot_def bm_seen_def mark_seen_def clear_seen_def seen_word_def seen_bit_def empty_bitmap_eval
  Let_def unat_mod kUplinkRxMcsUnknown_def

text \<open>Slot 9 arrives at the candidate rate.\<close>

lemma probe_demo_first:
  "probe_per 120 (probe_run [ProbeData 9 0 7 1 100] (new_probe_window (Some probe_table) (Some 7) probe_params_demo)) = Some 0"
  by (simp add: probe_run_def probe_eval new_probe_window_def probe_per_def)

theorem probe_reports_only_observed_rate_witness:
  "probe_per 120 (probe_run [ProbeData 9 0 7 1 100] (new_probe_window (Some probe_table) (Some 7) probe_params_demo)) = Some 0
   \<and> (0 :: u16) \<le> 1000
   \<and> (\<exists>e\<in>set [ProbeData 9 0 7 1 100]. observes_candidate probe_table
        (mw_profile (probe_run [ProbeData 9 0 7 1 100] (new_probe_window (Some probe_table) (Some 7) probe_params_demo))) e)"
  using probe_reports_only_observed_rate [OF probe_demo_first] probe_demo_first by blast

text \<open>Slot 13 is missing; frame 20 settles it.\<close>

definition probe_demo :: "ProbeEvent list" where
  "probe_demo = [ProbeData 8 0 7 0 100, ProbeData 9 0 7 1 101, ProbeData 10 0 7 0 102, ProbeData 12 0 7 0 104]"

definition probe_demo_window :: McsProbeWindow where
  "probe_demo_window = probe_run probe_demo (new_probe_window (Some probe_table) (Some 7) probe_params_demo)"

theorem gap_walk_charges_only_missing_slots_witness:
  "unat (mw_failures (probe_step (ProbeData 20 0 7 0 110) probe_demo_window)) \<le> unat (mw_failures probe_demo_window)
     + (if mw_candidate probe_demo_window \<noteq> None \<and> mw_confirmed probe_demo_window
        then card (missed_slots probe_table (insert 20 (received probe_demo)) (mw_walked_seq probe_demo_window)
               (mw_walked_seq (probe_step (ProbeData 20 0 7 0 110) probe_demo_window))) else 0)"
  by (rule gap_walk_charges_only_missing_slots [OF _ probe_demo_window_def refl]) (simp add: probe_demo_def)

end
