(* ===== verification/Selector_State.thy ===== *)
theory Selector_State
  imports Wire_Types
begin

text \<open>
  core/include/wblink/selector_state.h: which selector summaries a ground station accepts, and for
  how long one is current.
\<close>

definition kSelectorStateExpiryMs :: u64 where
  "kSelectorStateExpiryMs = 1500"

definition selector_state_admissible :: "selector_state \<Rightarrow> u8 option \<Rightarrow> u16 \<Rightarrow> u32 \<Rightarrow> bool" where
  "selector_state_admissible st local_table_version rtp_originator rtp_session =
     (local_table_version = Some (ss_table_version st) \<and> destination (ss_prefix st) = 0
      \<and> originator (ss_prefix st) = rtp_originator \<and> session_id (ss_prefix st) = rtp_session)"

definition selector_state_fresh :: "u64 \<Rightarrow> u64 \<Rightarrow> bool" where
  "selector_state_fresh now_ms received_ms = (received_ms \<le> now_ms \<and> now_ms - received_ms \<le> kSelectorStateExpiryMs)"

end
