(* ===== verification/Rx_Core.thy ===== *)
theory Rx_Core
  imports Wire_Props Rx_Engine Reporter Recovery Mcs_Probe_Props Selector_State Frame_Reassembler
begin

text \<open>
  node/include/wblink/node/rx_core.h: the receiver node, which wires the receive engine, the
  reporter, the rate probe, the recovery schedule and the mirrored selector word together. A
  callback that injects a frame is the list of frames injected; the callback for a report may
  commit a report epoch while it runs, so it is also a function on the reporter. The statistics
  snapshot and the log lines are not modelled.
\<close>

section \<open>The node\<close>

record RxCore =
  rc_originator :: u16
  rc_session :: u32
  rc_table :: "ProfileTable option"
  rc_local_table_version :: "u8 option"
  rc_engine :: RxEngine
  rc_reporter :: Reporter
  rc_probe_window :: McsProbeWindow
  rc_probe_key :: "StreamKey option"
  rc_probe_originator :: u16
  rc_verdict_emit_ms :: u64
  rc_feedback_period_ms :: u32
  rc_next_feedback_ms :: u64
  rc_feedback_epoch :: u32
  rc_recovery_on_latch :: bool
  rc_latch_recovery :: "LatchEntry list"
  rc_best_effort_warned :: "u8 list"
  rc_remote_selector_state :: "selector_state option"
  rc_remote_selector_state_ms :: u64
  rc_word_source :: "(u16 \<times> u32) option"

text \<open>What the constructor reads from the configuration.\<close>

record RxCoreCfg =
  rcc_originator :: u16
  rcc_policy :: RxPolicy
  rcc_wants :: "WantSpec list"
  rcc_report_period_ms :: u32
  rcc_recovery_on_latch :: bool
  rcc_spectator :: bool

definition new_rx_core :: "RxCoreCfg \<Rightarrow> u32 \<Rightarrow> ProfileTable option \<Rightarrow> u8 option \<Rightarrow> RxCore" where
  "new_rx_core cfg session table tv =
     \<lparr>rc_originator = rcc_originator cfg, rc_session = session, rc_table = table, rc_local_table_version = tv,
      rc_engine = new_rx (rcc_policy cfg) (rcc_wants cfg) table tv,
      rc_reporter = new_reporter (rcc_report_period_ms cfg) tv,
      rc_probe_window = new_probe_window table tv default_probe_params, rc_probe_key = None, rc_probe_originator = 0,
      rc_verdict_emit_ms = 0, rc_feedback_period_ms = rcc_report_period_ms cfg, rc_next_feedback_ms = 0,
      rc_feedback_epoch = 0, rc_recovery_on_latch = (rcc_recovery_on_latch cfg \<and> \<not> rcc_spectator cfg),
      rc_latch_recovery = [], rc_best_effort_warned = [], rc_remote_selector_state = None,
      rc_remote_selector_state_ms = 0, rc_word_source = None\<rparr>"

section \<open>Packets from the air\<close>

text \<open>Only the accepted sender's video stream feeds the probe.\<close>

definition feeds_probe :: "RxCore \<Rightarrow> data_header \<Rightarrow> bool" where
  "feeds_probe c h \<longleftrightarrow> stream_type h = 0x01 \<and> rc_probe_originator c \<noteq> 0 \<and> originator (dh_prefix h) = rc_probe_originator c"

definition feed_probe :: "data_header \<Rightarrow> u8 \<Rightarrow> u64 \<Rightarrow> RxCore \<Rightarrow> RxCore" where
  "feed_probe h rx_mcs now c =
     (if feeds_probe c h
      then (let key = key_of h;
                c = (if rc_probe_key c \<noteq> Some key
                     then c\<lparr>rc_probe_window := probe_reset (rc_probe_window c), rc_probe_key := Some key\<rparr> else c)
            in c\<lparr>rc_probe_window := probe_on_data (seq_no h) (active_profile h) (table_version h) rx_mcs now (rc_probe_window c)\<rparr>)
      else c)"

definition rtp_infos :: "RxCore \<Rightarrow> RxStreamInfo list" where
  "rtp_infos c = filter (\<lambda>i. si_stream_type i = 0x01) (rx_stream_infos (rc_engine c))"

definition admits_word :: "RxCore \<Rightarrow> selector_state \<Rightarrow> RxStreamInfo \<Rightarrow> bool" where
  "admits_word c s info =
     selector_state_admissible s (rc_local_table_version c) (sk_originator (si_key info)) (sk_session_id (si_key info))"

definition on_selector_state :: "selector_state \<Rightarrow> u64 \<Rightarrow> RxCore \<Rightarrow> RxCore" where
  "on_selector_state s now c =
     (case find (admits_word c s) (rtp_infos c) of
        Some info \<Rightarrow> c\<lparr>rc_word_source := Some (sk_originator (si_key info), sk_session_id (si_key info)),
                       rc_remote_selector_state := Some s, rc_remote_selector_state_ms := now\<rparr>
      | None \<Rightarrow>
          (case rc_word_source c of
             Some (o1, s1) \<Rightarrow>
               if rtp_infos c = [] \<and> selector_state_admissible s (rc_local_table_version c) o1 s1
               then c\<lparr>rc_remote_selector_state := Some s, rc_remote_selector_state_ms := now\<rparr> else c
           | None \<Rightarrow> c))"

definition rc_on_air :: "u8 \<Rightarrow> bytes \<Rightarrow> u64 \<Rightarrow> int \<Rightarrow> early_deliver \<Rightarrow> u8 \<Rightarrow> RxCore \<Rightarrow> RxCore \<times> delivery list" where
  "rc_on_air adapter d now rssi early rx_mcs c =
     (case decode (Some (ptr_of d)) (length d) of
        Inr (PData v) \<Rightarrow>
          (let c = feed_probe (dv_hdr v) rx_mcs now c;
               (e, ds) = on_data (rc_engine c) adapter v now rssi early
           in (c\<lparr>rc_engine := e\<rparr>, ds))
      | Inr (PSelectorState s) \<Rightarrow> (on_selector_state s now c, [])
      | _ \<Rightarrow> (c, []))"

definition rc_complete_frame :: "u8 \<Rightarrow> u32 \<Rightarrow> u64 \<Rightarrow> RxCore \<Rightarrow> RxCore \<times> delivery list" where
  "rc_complete_frame sid b now c =
     (case complete_frame (rc_engine c) sid b now of (e, ds) \<Rightarrow> (c\<lparr>rc_engine := e\<rparr>, ds))"

definition rc_on_crc_frames :: "u8 \<Rightarrow> u32 \<Rightarrow> u64 \<Rightarrow> RxCore \<Rightarrow> RxCore" where
  "rc_on_crc_frames rx_mcs n now c = c\<lparr>rc_probe_window := on_crc_frames rx_mcs n now (rc_probe_window c)\<rparr>"

definition set_probe_originator :: "u16 \<Rightarrow> RxCore \<Rightarrow> RxCore" where
  "set_probe_originator org c = c\<lparr>rc_probe_originator := org\<rparr>"

definition craft_calib_state :: "RxCore \<Rightarrow> int" where
  "craft_calib_state c =
     (case rc_remote_selector_state c of
        None \<Rightarrow> -1
      | Some s \<Rightarrow> if ss_state_flags s AND ss_kCalibPresent = 0 then -1 else uint (ss_calib_word s AND 0x03))"

definition craft_calibrating :: "RxCore \<Rightarrow> bool" where
  "craft_calibrating c = (craft_calib_state c = 1)"

definition craft_report_latch_holder :: "RxCore \<Rightarrow> int" where
  "craft_report_latch_holder c =
     (case rc_remote_selector_state c of
        None \<Rightarrow> -1
      | Some s \<Rightarrow> if ss_state_flags s AND ss_kHolderPresent = 0 then -1 else uint (ss_report_latch_holder s))"

section \<open>Returns\<close>

type_synonym injected = "bytes \<times> u16"

definition link_verdict_kUnknown :: u8 where
  "link_verdict_kUnknown = 0"

definition address_report :: "RxCore \<Rightarrow> link_report \<Rightarrow> link_report" where
  "address_report c r = r\<lparr>lr_prefix := \<lparr>originator = rc_originator c, destination = lr_target_originator r,
     session_id = rc_session c\<rparr>\<rparr>"

definition verdict_for :: "RxCore \<Rightarrow> u8 \<Rightarrow> link_report \<Rightarrow> link_verdict_pkt" where
  "verdict_for c verdict r =
     \<lparr>lv_prefix = \<lparr>originator = rc_originator c, destination = lr_target_originator r, session_id = rc_session c\<rparr>,
      lv_target_originator = lr_target_originator r, lv_target_session = lr_target_session r,
      lv_report_epoch = next_epoch (rc_reporter c), lv_verdict = verdict\<rparr>"

record TickOut =
  to_reports :: "injected list"
  to_verdicts :: "injected list"

definition emit_report ::
  "(bytes \<Rightarrow> u16 \<Rightarrow> Reporter \<Rightarrow> Reporter) \<Rightarrow> u8 \<Rightarrow> bool \<Rightarrow> u64 \<Rightarrow> link_report \<Rightarrow> RxCore \<times> TickOut \<Rightarrow> RxCore \<times> TickOut" where
  "emit_report inject_report verdict has_inject_verdict now r0 co =
     (let (c, out) = co;
          r = address_report c r0;
          (c, out) = (case encode_link_report r (Some kLinkReportSize) of
                        None \<Rightarrow> (c, out)
                      | Some frame \<Rightarrow> (c\<lparr>rc_reporter := inject_report frame (lr_target_originator r) (rc_reporter c)\<rparr>,
                                       out\<lparr>to_reports := to_reports out @ [(frame, lr_target_originator r)]\<rparr>))
      in if has_inject_verdict \<and> verdict \<noteq> link_verdict_kUnknown \<and> 1000 \<le> now - rc_verdict_emit_ms c
         then (case encode_link_verdict (verdict_for c verdict r) (Some kLinkVerdictSize) of
                 None \<Rightarrow> (c, out)
               | Some vf \<Rightarrow> (c\<lparr>rc_verdict_emit_ms := now\<rparr>,
                             out\<lparr>to_verdicts := to_verdicts out @ [(vf, lr_target_originator r)]\<rparr>))
         else (c, out))"

definition refresh_probe :: "u64 \<Rightarrow> RxCore \<Rightarrow> RxCore" where
  "refresh_probe now c =
     (case rc_probe_key c of
        None \<Rightarrow> c
      | Some key \<Rightarrow> c\<lparr>rc_reporter := set_probe_per key (probe_per now (rc_probe_window c)) (rc_reporter c)\<rparr>)"

definition rc_tick ::
  "(bytes \<Rightarrow> u16 \<Rightarrow> Reporter \<Rightarrow> Reporter) \<Rightarrow> u8 \<Rightarrow> bool \<Rightarrow> u64 \<Rightarrow> RxCore \<Rightarrow> RxCore \<times> delivery list \<times> TickOut" where
  "rc_tick inject_report verdict has_inject_verdict now c =
     (let (e, ds) = rx_tick (rc_engine c) now;
          c = refresh_probe now (c\<lparr>rc_engine := e\<rparr>);
          (rp, reports) = reporter_build (rc_engine c) now (rc_reporter c);
          (c, out) = fold (emit_report inject_report verdict has_inject_verdict now) reports
                       (c\<lparr>rc_reporter := rp\<rparr>, \<lparr>to_reports = [], to_verdicts = []\<rparr>)
      in (c, ds, out))"

definition feedback_for :: "RxCore \<Rightarrow> u32 \<Rightarrow> RxStreamInfo \<Rightarrow> JsccRepairFeedbackState \<Rightarrow> jscc_feedback" where
  "feedback_for c epoch info st =
     \<lparr>jf_prefix = \<lparr>originator = rc_originator c, destination = sk_originator (si_key info), session_id = rc_session c\<rparr>,
      jf_target_originator = sk_originator (si_key info), jf_target_session = sk_session_id (si_key info),
      jf_target_stream_id = sk_stream_id (si_key info), jf_feedback_epoch = epoch,
      jf_repair_demand_permille = jr_repair_demand_permille st, jf_rtt_p95_us = 0,
      jf_repair_samples = jr_repair_samples st, jf_rtt_samples = 0,
      jf_valid_flags = (if jr_repair_ready st then 0x01 else 0), jf_observed_block_id = jr_observed_block_id st\<rparr>"

definition feedback_stream ::
  "(u8 \<times> JsccRepairFeedbackState) list \<Rightarrow> RxStreamInfo \<Rightarrow> RxCore \<times> injected list \<Rightarrow> RxCore \<times> injected list" where
  "feedback_stream states info co =
     (case co of (c, out) \<Rightarrow>
        (case find (\<lambda>(sid, st). sid = si_local_stream_id info) states of
           None \<Rightarrow> (c, out)
         | Some (sid, st) \<Rightarrow>
             (let epoch = rc_feedback_epoch c + 1;
                  c = c\<lparr>rc_feedback_epoch := epoch\<rparr>;
                  f = feedback_for c epoch info st
              in case encode_jscc_feedback f (Some kJsccFeedbackSize) of
                   None \<Rightarrow> (c, out)
                 | Some frame \<Rightarrow> (c, out @ [(frame, jf_target_originator f)]))))"

definition emit_jscc_feedback ::
  "u64 \<Rightarrow> (u8 \<times> JsccRepairFeedbackState) list \<Rightarrow> RxCore \<Rightarrow> RxCore \<times> injected list" where
  "emit_jscc_feedback now states c =
     (if rc_feedback_period_ms c = 0 \<or> now < rc_next_feedback_ms c then (c, [])
      else fold (feedback_stream states) (rx_stream_infos (rc_engine c))
             (c\<lparr>rc_next_feedback_ms := now + ucast (rc_feedback_period_ms c)\<rparr>, []))"

definition recovery_for :: "RxCore \<Rightarrow> StreamKey \<Rightarrow> recovery_request" where
  "recovery_for c k =
     \<lparr>rr_prefix = \<lparr>originator = rc_originator c, destination = sk_originator k, session_id = rc_session c\<rparr>,
      rr_target_originator = sk_originator k, rr_target_session = sk_session_id k, rr_target_stream_id = sk_stream_id k\<rparr>"

datatype RecoveryReply = RecoveryOk | StreamIdRequired | NoMatchingStream | EncodeFailed

text \<open>The scan over the latched streams: the last match, or \<open>Inl\<close> when the choice is ambiguous.\<close>

fun select_recovery :: "int \<Rightarrow> RxStreamInfo list \<Rightarrow> RxStreamInfo option \<Rightarrow> RecoveryReply + RxStreamInfo option" where
  "select_recovery lid [] sel = Inr sel"
| "select_recovery lid (info # infos) sel =
     (if si_stream_type info \<noteq> 0x01 \<or> (0 \<le> lid \<and> si_local_stream_id info \<noteq> word_of_int lid)
      then select_recovery lid infos sel
      else if sel \<noteq> None \<and> lid < 0 then Inl StreamIdRequired
      else select_recovery lid infos (Some info))"

definition request_recovery :: "int \<Rightarrow> RxCore \<Rightarrow> RecoveryReply \<times> injected list" where
  "request_recovery local_stream_id c =
     (case select_recovery local_stream_id (rx_stream_infos (rc_engine c)) None of
        Inl err \<Rightarrow> (err, [])
      | Inr None \<Rightarrow> (NoMatchingStream, [])
      | Inr (Some info) \<Rightarrow>
          (case encode_recovery_request (recovery_for c (si_key info)) (Some kRecoveryRequestSize) of
             None \<Rightarrow> (EncodeFailed, [])
           | Some frame \<Rightarrow> (RecoveryOk, [(frame, sk_originator (si_key info))])))"

definition recovery_frame :: "RxCore \<Rightarrow> StreamKey \<Rightarrow> injected list" where
  "recovery_frame c k =
     (case encode_recovery_request (recovery_for c k) (Some kRecoveryRequestSize) of
        None \<Rightarrow> [] | Some frame \<Rightarrow> [(frame, sk_originator k)])"

definition latch_streams :: "RxCore \<Rightarrow> LatchStream list" where
  "latch_streams c = map (\<lambda>i. \<lparr>ls_key = si_key i, ls_local_stream_id = si_local_stream_id i\<rparr>) (rtp_infos c)"

definition emit_latch_recovery :: "u64 \<Rightarrow> RxCore \<Rightarrow> RxCore \<times> injected list" where
  "emit_latch_recovery now c =
     (if \<not> rc_recovery_on_latch c then (c, [])
      else (let (es, ks) = due (latch_streams c) now (rc_latch_recovery c)
            in (c\<lparr>rc_latch_recovery := es\<rparr>, concat (map (recovery_frame c) ks))))"

definition note_egress_irap :: "u8 \<Rightarrow> RxCore \<Rightarrow> RxCore" where
  "note_egress_irap sid c = c\<lparr>rc_latch_recovery := note_irap sid (rc_latch_recovery c)\<rparr>"

definition note_egress_damage :: "u8 \<Rightarrow> u64 \<Rightarrow> RxCore \<Rightarrow> RxCore" where
  "note_egress_damage sid now c =
     (if \<not> rc_recovery_on_latch c then c else c\<lparr>rc_latch_recovery := note_damage sid now (rc_latch_recovery c)\<rparr>)"

section \<open>Resets and selection\<close>

definition rc_reset_stats :: "RxCore \<Rightarrow> RxCore" where
  "rc_reset_stats c = c\<lparr>rc_engine := rx_reset_stats (rc_engine c), rc_reporter := reporter_reset_link (rc_reporter c)\<rparr>"

definition leave_craft :: "RxCore \<Rightarrow> RxCore" where
  "leave_craft c = c\<lparr>rc_reporter := reporter_reset_link (rc_reporter c), rc_next_feedback_ms := 0,
     rc_remote_selector_state := None, rc_remote_selector_state_ms := 0, rc_word_source := None\<rparr>"

definition rc_select_originator :: "u16 \<Rightarrow> RxCore \<Rightarrow> RxCore" where
  "rc_select_originator org c = leave_craft (c\<lparr>rc_engine := select_originator org (rc_engine c)\<rparr>)"

definition rc_unpin_originator :: "RxCore \<Rightarrow> RxCore" where
  "rc_unpin_originator c = leave_craft (c\<lparr>rc_engine := unpin_originator (rc_engine c)\<rparr>)"

fun agreed_originator :: "RxStreamInfo list \<Rightarrow> u16 option \<Rightarrow> u16 option" where
  "agreed_originator [] found = found"
| "agreed_originator (i # infos) found =
     (if found \<noteq> None \<and> found \<noteq> Some (sk_originator (si_key i)) then None
      else agreed_originator infos (Some (sk_originator (si_key i))))"

definition rc_latched_originator :: "RxCore \<Rightarrow> u16 option" where
  "rc_latched_originator c = agreed_originator (rx_stream_infos (rc_engine c)) None"

definition log_best_effort_edges :: "RxCore \<Rightarrow> RxCore \<times> u8 list" where
  "log_best_effort_edges c =
     fold (\<lambda>info (c, warned).
             if \<not> si_best_effort info \<or> si_local_stream_id info \<in> set (rc_best_effort_warned c) then (c, warned)
             else (c\<lparr>rc_best_effort_warned := rc_best_effort_warned c @ [si_local_stream_id info]\<rparr>, warned @ [si_local_stream_id info]))
       (rx_stream_infos (rc_engine c)) (c, [])"

definition video_best_effort :: "RxCore \<Rightarrow> bool" where
  "video_best_effort c = list_ex si_best_effort (rtp_infos c)"

definition stream_keys :: "RxCore \<Rightarrow> StreamKey list" where
  "stream_keys c = map si_key (rx_stream_infos (rc_engine c))"

end
