(* ===== verification/Rx_Core_Props.thy ===== *)
theory Rx_Core_Props
  imports Rx_Core Rx_Delivery
begin

text \<open>
  Runs of the receiver node: the mirrored selector word always belongs to the craft it was accepted
  from, and every report a tick injects is addressed to a latched video stream and carries probe
  evidence only when that evidence was observed in the air.
\<close>

section \<open>Runs\<close>

text \<open>The injector of the receive loop commits an epoch when the radio took the frame.\<close>

definition submit_report :: "(bytes \<Rightarrow> u16 \<Rightarrow> bool) \<Rightarrow> bytes \<Rightarrow> u16 \<Rightarrow> Reporter \<Rightarrow> Reporter" where
  "submit_report took frame target r = (if took frame target then commit_epoch r else r)"

datatype RxCoreEvent =
    CAir u8 bytes u64 int early_deliver u8
  | CComplete u8 u32 u64
  | CCrc u8 u32 u64
  | CProbeOriginator u16
  | CTick "bytes \<Rightarrow> u16 \<Rightarrow> bool" u8 bool u64
  | CFeedback u64 "(u8 \<times> JsccRepairFeedbackState) list"
  | CLatchRecovery u64
  | CIrap u8
  | CDamage u8 u64
  | CResetStats
  | CSelect u16
  | CUnpin
  | CWarn

fun rx_core_step :: "RxCoreEvent \<Rightarrow> RxCore \<Rightarrow> RxCore" where
  "rx_core_step (CAir a d now rssi early mcs) c = fst (rc_on_air a d now rssi early mcs c)"
| "rx_core_step (CComplete sid b now) c = fst (rc_complete_frame sid b now c)"
| "rx_core_step (CCrc mcs n now) c = rc_on_crc_frames mcs n now c"
| "rx_core_step (CProbeOriginator org) c = set_probe_originator org c"
| "rx_core_step (CTick took verdict hv now) c = fst (rc_tick (submit_report took) verdict hv now c)"
| "rx_core_step (CFeedback now states) c = fst (emit_jscc_feedback now states c)"
| "rx_core_step (CLatchRecovery now) c = fst (emit_latch_recovery now c)"
| "rx_core_step (CIrap sid) c = note_egress_irap sid c"
| "rx_core_step (CDamage sid now) c = note_egress_damage sid now c"
| "rx_core_step CResetStats c = rc_reset_stats c"
| "rx_core_step (CSelect org) c = rc_select_originator org c"
| "rx_core_step CUnpin c = rc_unpin_originator c"
| "rx_core_step CWarn c = fst (log_best_effort_edges c)"

definition rx_core_run :: "RxCoreEvent list \<Rightarrow> RxCore \<Rightarrow> RxCore" where
  "rx_core_run evs c = fold rx_core_step evs c"

lemma rx_core_run_snoc: "rx_core_run (evs @ [e]) c = rx_core_step e (rx_core_run evs c)"
  by (simp add: rx_core_run_def)

section \<open>What the emitters leave alone\<close>

lemma fold_keeps:
  assumes "\<And>x s. P (f x s) = P s"
  shows "P (fold f xs s) = P s"
  using assms by (induction xs arbitrary: s) simp_all

text \<open>The parts of the node that neither the reporter, the feedback nor the log touch.\<close>

abbreviation core_view :: "RxCore \<Rightarrow> RxCore" where
  "core_view c \<equiv> c\<lparr>rc_reporter := new_reporter 0 None, rc_verdict_emit_ms := 0, rc_feedback_epoch := 0,
     rc_next_feedback_ms := 0, rc_best_effort_warned := []\<rparr>"

lemma core_view_fields:
  assumes "core_view c = core_view c'"
  shows "rc_remote_selector_state c = rc_remote_selector_state c'" "rc_word_source c = rc_word_source c'"
    "rc_local_table_version c = rc_local_table_version c'" "rc_probe_window c = rc_probe_window c'"
    "rc_probe_key c = rc_probe_key c'" "rc_engine c = rc_engine c'" "rc_probe_originator c = rc_probe_originator c'"
    "rc_originator c = rc_originator c'" "rc_session c = rc_session c'"
  using assms by (cases c; cases c'; simp)+

lemma emit_report_view: "core_view (fst (emit_report ij v hv now r co)) = core_view (fst co)"
  by (cases co) (simp add: emit_report_def Let_def split: option.split)

lemma emit_reports_view: "core_view (fst (fold (emit_report ij v hv now) rs co)) = core_view (fst co)"
  by (rule fold_keeps) (rule emit_report_view)

lemma feedback_stream_view: "core_view (fst (feedback_stream states info co)) = core_view (fst co)"
  by (cases co) (simp add: feedback_stream_def Let_def split: option.split)

lemma feedback_view: "core_view (fst (emit_jscc_feedback now states c)) = core_view c"
  using fold_keeps [of "\<lambda>co. core_view (fst co)" "feedback_stream states", OF feedback_stream_view]
  by (simp add: emit_jscc_feedback_def)

lemma log_edges_view: "core_view (fst (log_best_effort_edges c)) = core_view c"
  unfolding log_best_effort_edges_def
  by (subst fold_keeps [of "\<lambda>co. core_view (fst co)"]) (auto split: prod.split)

lemmas feedback_fields = core_view_fields [OF feedback_view]
lemmas log_edges_fields = core_view_fields [OF log_edges_view]

lemma tick_fields:
  "rc_remote_selector_state (fst (rc_tick ij v hv now c)) = rc_remote_selector_state c"
  "rc_word_source (fst (rc_tick ij v hv now c)) = rc_word_source c"
  "rc_local_table_version (fst (rc_tick ij v hv now c)) = rc_local_table_version c"
  "rc_probe_window (fst (rc_tick ij v hv now c)) = rc_probe_window c"
  "rc_probe_key (fst (rc_tick ij v hv now c)) = rc_probe_key c"
  by (simp_all add: rc_tick_def Let_def split_beta core_view_fields [OF emit_reports_view] refresh_probe_def split: option.split)

section \<open>The mirrored word\<close>

lemma feed_probe_fields [simp]:
  "rc_remote_selector_state (feed_probe h m now c) = rc_remote_selector_state c" "rc_word_source (feed_probe h m now c) = rc_word_source c"
  "rc_local_table_version (feed_probe h m now c) = rc_local_table_version c" "rc_engine (feed_probe h m now c) = rc_engine c"
  "rc_reporter (feed_probe h m now c) = rc_reporter c" "rc_probe_originator (feed_probe h m now c) = rc_probe_originator c"
  by (simp_all add: feed_probe_def Let_def)

lemmas step_defs = rc_complete_frame_def rc_on_crc_frames_def set_probe_originator_def tick_fields
  feedback_fields log_edges_fields note_egress_irap_def note_egress_damage_def rc_reset_stats_def rc_select_originator_def
  rc_unpin_originator_def leave_craft_def emit_latch_recovery_def split_beta Let_def

lemma on_selector_state_fields [simp]:
  "rc_local_table_version (on_selector_state s now c) = rc_local_table_version c"
  "rc_probe_window (on_selector_state s now c) = rc_probe_window c" "rc_probe_key (on_selector_state s now c) = rc_probe_key c"
  "rc_reporter (on_selector_state s now c) = rc_reporter c" "rc_engine (on_selector_state s now c) = rc_engine c"
  by (simp_all add: on_selector_state_def split: option.split)

lemma local_version_step: "rc_local_table_version (rx_core_step e c) = rc_local_table_version c"
proof (cases e)
  case (CAir a d now rssi early mcs)
  then show ?thesis
    by (simp add: rc_on_air_def Let_def split: sum.split packet.split prod.split)
qed (simp_all add: step_defs)

lemma local_version_run: "rc_local_table_version (rx_core_run evs (new_rx_core cfg session table tv)) = tv"
  by (induction evs rule: rev_induct) (simp_all add: rx_core_run_snoc local_version_step rx_core_run_def new_rx_core_def)

text \<open>Events that change the craft, and events that are a selector word heard from the air.\<close>

fun changes_craft :: "RxCoreEvent \<Rightarrow> bool" where
  "changes_craft (CSelect org) = True"
| "changes_craft CUnpin = True"
| "changes_craft _ = False"

fun hears :: "RxCoreEvent \<Rightarrow> selector_state \<Rightarrow> bool" where
  "hears (CAir a d now rssi early mcs) st = (decode (Some (ptr_of d)) (length d) = Inr (PSelectorState st))"
| "hears _ st = False"

definition latched_craft :: "RxCore \<Rightarrow> u16 \<Rightarrow> u32 \<Rightarrow> bool" where
  "latched_craft c org session \<longleftrightarrow>
     (\<exists>i \<in> set (rtp_infos c). sk_originator (si_key i) = org \<and> sk_session_id (si_key i) = session)"

text \<open>In the run \<open>evs\<close> from \<open>c0\<close> a word of the craft was heard while an RTP stream of the craft was
  latched, and no event since has changed the craft.\<close>

definition accepted_craft :: "RxCore \<Rightarrow> RxCoreEvent list \<Rightarrow> u16 \<Rightarrow> u32 \<Rightarrow> bool" where
  "accepted_craft c0 evs org session \<longleftrightarrow> (\<exists>pre e post st. evs = pre @ e # post \<and> hears e st
     \<and> originator (ss_prefix st) = org \<and> session_id (ss_prefix st) = session
     \<and> latched_craft (rx_core_run pre c0) org session \<and> list_all (\<lambda>e. \<not> changes_craft e) post)"

text \<open>The word was heard from a craft latched at that moment, or, while no RTP stream was latched,
  from a craft accepted before; and no event since has changed the craft.\<close>

definition heard_from_craft :: "RxCore \<Rightarrow> RxCoreEvent list \<Rightarrow> selector_state \<Rightarrow> bool" where
  "heard_from_craft c0 evs st \<longleftrightarrow> (\<exists>pre e post. evs = pre @ e # post \<and> hears e st
     \<and> list_all (\<lambda>e. \<not> changes_craft e) post
     \<and> (latched_craft (rx_core_run pre c0) (originator (ss_prefix st)) (session_id (ss_prefix st))
        \<or> rtp_infos (rx_core_run pre c0) = []
          \<and> accepted_craft c0 pre (originator (ss_prefix st)) (session_id (ss_prefix st))))"

lemma accepted_craft_snoc:
  assumes "accepted_craft c0 evs org session" and "\<not> changes_craft e"
  shows "accepted_craft c0 (evs @ [e]) org session"
proof -
  obtain pre e1 post st where "evs = pre @ e1 # post" "hears e1 st" "originator (ss_prefix st) = org"
      "session_id (ss_prefix st) = session" "latched_craft (rx_core_run pre c0) org session"
      "list_all (\<lambda>e. \<not> changes_craft e) post"
    using assms(1) unfolding accepted_craft_def by blast
  then show ?thesis
    using assms(2) unfolding accepted_craft_def
    by (intro exI [of _ pre] exI [of _ e1] exI [of _ "post @ [e]"] exI [of _ st]) simp
qed

lemma heard_from_craft_snoc:
  assumes "heard_from_craft c0 evs st" and "\<not> changes_craft e"
  shows "heard_from_craft c0 (evs @ [e]) st"
proof -
  let ?from = "\<lambda>pre. latched_craft (rx_core_run pre c0) (originator (ss_prefix st)) (session_id (ss_prefix st))
    \<or> rtp_infos (rx_core_run pre c0) = []
      \<and> accepted_craft c0 pre (originator (ss_prefix st)) (session_id (ss_prefix st))"
  obtain pre e1 post where "evs = pre @ e1 # post" "hears e1 st" "list_all (\<lambda>e. \<not> changes_craft e) post" "?from pre"
    using assms(1) unfolding heard_from_craft_def by blast
  then show ?thesis
    using assms(2) unfolding heard_from_craft_def
    by (intro exI [of _ pre] exI [of _ e1] exI [of _ "post @ [e]"]) simp
qed

definition word_ok :: "RxCore \<Rightarrow> RxCoreEvent list \<Rightarrow> RxCore \<Rightarrow> bool" where
  "word_ok c0 evs c \<longleftrightarrow>
     (\<forall>org session. rc_word_source c = Some (org, session) \<longrightarrow> accepted_craft c0 evs org session)
     \<and> (\<forall>st. rc_remote_selector_state c = Some st \<longrightarrow> heard_from_craft c0 evs st
          \<and> rc_local_table_version c = Some (ss_table_version st) \<and> destination (ss_prefix st) = 0)"

lemma word_ok_heard:
  assumes ok: "word_ok c0 evs (rx_core_run evs c0)" and e: "hears e s" "\<not> changes_craft e"
  shows "word_ok c0 (evs @ [e]) (on_selector_state s now (rx_core_run evs c0))"
proof -
  let ?c = "rx_core_run evs c0"
  have keep: "word_ok c0 (evs @ [e]) ?c"
    using ok accepted_craft_snoc [OF _ e(2)] heard_from_craft_snoc [OF _ e(2)] by (auto simp: word_ok_def)
  show ?thesis
  proof (cases "find (admits_word ?c s) (rtp_infos ?c)")
    case (Some info)
    then have "info \<in> set (rtp_infos ?c)" and adm: "admits_word ?c s info"
      by (auto simp: find_Some_iff)
    then have l: "latched_craft ?c (originator (ss_prefix s)) (session_id (ss_prefix s))"
      by (auto simp: latched_craft_def admits_word_def selector_state_admissible_def)
    then have "accepted_craft c0 (evs @ [e]) (originator (ss_prefix s)) (session_id (ss_prefix s))"
      "heard_from_craft c0 (evs @ [e]) s"
      using e(1) unfolding accepted_craft_def heard_from_craft_def
      by (intro exI [of _ evs] exI [of _ e] exI [of _ "[]"] exI [of _ s], simp)
        (intro exI [of _ evs] exI [of _ e] exI [of _ "[]"], simp add: e(1) l)
    then show ?thesis
      using Some adm by (simp add: word_ok_def on_selector_state_def admits_word_def selector_state_admissible_def)
  next
    case None
    have "heard_from_craft c0 (evs @ [e]) s"
      if "rc_word_source ?c = Some (o1, s1)" "rtp_infos ?c = []"
        "selector_state_admissible s (rc_local_table_version ?c) o1 s1" for o1 s1
    proof -
      have "accepted_craft c0 evs (originator (ss_prefix s)) (session_id (ss_prefix s))"
        using ok that by (auto simp: word_ok_def selector_state_admissible_def)
      then show ?thesis
        using e(1) that(2) unfolding heard_from_craft_def
        by (intro exI [of _ evs] exI [of _ e] exI [of _ "[]"]) simp
    qed
    then show ?thesis
      using None keep
      by (auto simp: word_ok_def on_selector_state_def selector_state_admissible_def split: option.split)
  qed
qed

lemma word_unheard:
  assumes "\<And>s. \<not> hears e s" and "\<not> changes_craft e"
  shows "rc_word_source (rx_core_step e c) = rc_word_source c"
    "rc_remote_selector_state (rx_core_step e c) = rc_remote_selector_state c"
proof (atomize (full), cases e)
  case (CAir a d now rssi early mcs)
  then show "rc_word_source (rx_core_step e c) = rc_word_source c
      \<and> rc_remote_selector_state (rx_core_step e c) = rc_remote_selector_state c"
    using assms(1) by (auto simp: rc_on_air_def Let_def split: sum.split packet.split prod.split)
qed (use assms(2) in \<open>simp_all add: step_defs\<close>)

lemma word_ok_run: "word_ok c0 evs (rx_core_run evs c0)"
  if "rc_word_source c0 = None" "rc_remote_selector_state c0 = None"
proof (induction evs rule: rev_induct)
  case Nil
  then show ?case
    using that by (simp add: rx_core_run_def word_ok_def)
next
  case (snoc e evs)
  consider (change) "changes_craft e" | (heard) s where "hears e s" "\<not> changes_craft e"
    | (other) "\<And>s. \<not> hears e s" "\<not> changes_craft e"
    by blast
  then show ?case
  proof cases
    case change
    then show ?thesis
      by (cases e) (simp_all add: rx_core_run_snoc word_ok_def rc_select_originator_def rc_unpin_originator_def leave_craft_def)
  next
    case heard
    obtain now where "rx_core_step e (rx_core_run evs c0) = on_selector_state s now (rx_core_run evs c0)"
      using heard(1) by (cases e) (auto simp: rc_on_air_def)
    then show ?thesis
      using word_ok_heard [OF snoc.IH heard, of now] by (simp add: rx_core_run_snoc)
  next
    case other
    then show ?thesis
      using snoc.IH accepted_craft_snoc [OF _ other(2)] heard_from_craft_snoc [OF _ other(2)]
      by (auto simp: rx_core_run_snoc word_ok_def word_unheard [OF other] local_version_step)
  qed
qed

text \<open>C32: Over any history of a receive core: a selector word it mirrors was heard from the air, is a
  broadcast with the local table version, and came from a craft (originator and session) of
  which an RTP stream was latched at that moment, or, while no RTP stream was latched, from one
  from which an earlier word was heard while such a stream of it was latched; neither selecting
  nor unpinning a craft has happened since that earlier moment.\<close>

theorem mirrored_word_is_the_accepted_crafts:
  "case rc_remote_selector_state (rx_core_run evs (new_rx_core cfg session table tv)) of
     None \<Rightarrow> True
   | Some st \<Rightarrow> tv = Some (ss_table_version st) \<and> destination (ss_prefix st) = 0
       \<and> heard_from_craft (new_rx_core cfg session table tv) evs st"
  using word_ok_run [of "new_rx_core cfg session table tv" evs] local_version_run [of evs cfg session table tv]
  by (auto simp: word_ok_def new_rx_core_def split: option.split)

section \<open>What the probe window has seen\<close>

text \<open>The events a step feeds to the probe window.\<close>

fun probe_feed :: "RxCoreEvent \<Rightarrow> RxCore \<Rightarrow> ProbeEvent list" where
  "probe_feed (CAir a d now rssi early mcs) c =
     (case decode (Some (ptr_of d)) (length d) of
        Inr (PData v) \<Rightarrow>
          (let h = dv_hdr v
           in if feeds_probe c h
              then (if rc_probe_key c \<noteq> Some (key_of h) then [ProbeReset] else [])
                     @ [ProbeData (seq_no h) (active_profile h) (table_version h) mcs now]
              else [])
      | _ \<Rightarrow> [])"
| "probe_feed (CCrc mcs n now) c = [ProbeCrc mcs n now]"
| "probe_feed _ c = []"

fun probe_history :: "RxCoreEvent list \<Rightarrow> RxCore \<Rightarrow> ProbeEvent list" where
  "probe_history [] c = []"
| "probe_history (e # es) c = probe_feed e c @ probe_history es (rx_core_step e c)"

lemma probe_run_append: "probe_run (xs @ ys) w = probe_run ys (probe_run xs w)"
  by (simp add: probe_run_def)

lemma probe_window_step: "rc_probe_window (rx_core_step e c) = probe_run (probe_feed e c) (rc_probe_window c)"
proof (cases e)
  case (CAir a d now rssi early mcs)
  then show ?thesis
    by (auto simp: rc_on_air_def feed_probe_def probe_run_def Let_def split: sum.split packet.split prod.split)
qed (simp_all add: step_defs probe_run_def)

lemma probe_window_run: "rc_probe_window (rx_core_run evs c) = probe_run (probe_history evs c) (rc_probe_window c)"
  by (induction evs arbitrary: c) (simp_all add: rx_core_run_def probe_window_step probe_run_append, simp add: probe_run_def)

text \<open>The reporter holds evidence only for the stream the window tracks.\<close>

definition evidence_scoped :: "RxCore \<Rightarrow> bool" where
  "evidence_scoped c \<longleftrightarrow> (rc_probe_key c = None \<longrightarrow> rp_probe (rc_reporter c) = None)"

lemma report_stream_probe: "rp_probe (fst (report_stream best mean live s ro)) = rp_probe (fst ro)"
  by (cases ro) (simp add: report_stream_def Let_def)

lemma build_probe: "rp_probe (fst (reporter_build e now r)) = rp_probe r"
  unfolding reporter_build_def
  by (simp add: split_beta Let_def fold_keeps [of "\<lambda>ro. rp_probe (fst ro)", OF report_stream_probe])

lemma emit_report_probe:
  "rp_probe (rc_reporter (fst (emit_report (submit_report took) v hv now r co))) = rp_probe (rc_reporter (fst co))"
  by (cases co) (simp add: emit_report_def Let_def submit_report_def commit_epoch_def split: option.split)

lemma tick_probe:
  "rp_probe (rc_reporter (fst (rc_tick (submit_report took) v hv now c))) =
     (case rc_probe_key c of None \<Rightarrow> rp_probe (rc_reporter c)
      | Some key \<Rightarrow> (case probe_per now (rc_probe_window c) of None \<Rightarrow> None | Some per \<Rightarrow> Some (key, per)))"
  by (simp add: rc_tick_def split_beta Let_def fold_keeps [of "\<lambda>co. rp_probe (rc_reporter (fst co))", OF emit_report_probe]
      build_probe refresh_probe_def set_probe_per_def split: option.split)

lemma feedback_reporter: "rc_reporter (fst (emit_jscc_feedback now states c)) = rc_reporter c"
proof -
  have "rc_reporter (fst (feedback_stream states info co)) = rc_reporter (fst co)" for info co
    by (cases co) (simp add: feedback_stream_def Let_def split: option.split)
  from fold_keeps [of "\<lambda>co. rc_reporter (fst co)" "feedback_stream states", OF this]
  show ?thesis
    by (simp add: emit_jscc_feedback_def)
qed

lemma log_edges_reporter: "rc_reporter (fst (log_best_effort_edges c)) = rc_reporter c"
  unfolding log_best_effort_edges_def
  by (subst fold_keeps [of "\<lambda>co. rc_reporter (fst co)"]) (auto split: prod.split)

lemma feed_probe_key: "rc_probe_key c \<noteq> None \<Longrightarrow> rc_probe_key (feed_probe h m now c) \<noteq> None"
  by (simp add: feed_probe_def Let_def)

lemma on_air_reporter: "rc_reporter (fst (rc_on_air a d now rssi early mcs c)) = rc_reporter c"
  by (simp add: rc_on_air_def Let_def split_beta split: sum.split packet.split)

lemma on_air_probe_key: "rc_probe_key c \<noteq> None \<Longrightarrow> rc_probe_key (fst (rc_on_air a d now rssi early mcs c)) \<noteq> None"
  using feed_probe_key [of c] by (simp add: rc_on_air_def Let_def split_beta split: sum.split packet.split)

lemma evidence_scoped_step:
  assumes "evidence_scoped c"
  shows "evidence_scoped (rx_core_step e c)"
proof (cases e)
  case (CAir a d now rssi early mcs)
  then show ?thesis
    using assms on_air_probe_key [of c a d now rssi early mcs] by (auto simp: evidence_scoped_def on_air_reporter)
next
  case (CTick took v hv now)
  then show ?thesis
    using assms by (simp add: evidence_scoped_def tick_fields tick_probe)
qed (use assms in \<open>simp_all add: evidence_scoped_def step_defs feedback_reporter log_edges_reporter reporter_reset_link_def\<close>)

lemma evidence_scoped_run: "evidence_scoped (rx_core_run evs (new_rx_core cfg session table tv))"
proof (induction evs rule: rev_induct)
  case Nil
  then show ?case
    by (simp add: rx_core_run_def evidence_scoped_def new_rx_core_def new_reporter_def)
qed (simp add: rx_core_run_snoc evidence_scoped_step)

section \<open>The reports of a tick\<close>

text \<open>Every report the builder returns is the report of a latched video stream.\<close>

lemma build_reports:
  assumes "rep \<in> set (snd (reporter_build e now r))"
  shows "\<exists>i\<in>set (rx_stream_infos e). si_stream_type i = 0x01 \<and> (\<exists>r' best mean live prev. rp_probe r' = rp_probe r
           \<and> rp_tv r' = rp_tv r \<and> rep = stream_report r' best mean live i prev)"
proof -
  define P where "P = (\<lambda>rep. \<exists>i\<in>set (rx_stream_infos e). si_stream_type i = 0x01 \<and> (\<exists>r' best mean live prev. rp_probe r' = rp_probe r
      \<and> rp_tv r' = rp_tv r \<and> rep = stream_report r' best mean live i prev))"
  have PI: "P (stream_report a best mean live i prev)"
    if "i \<in> set (rx_stream_infos e)" "si_stream_type i = 0x01" "rp_probe a = rp_probe r" "rp_tv a = rp_tv r" for a best mean live i prev
    using that unfolding P_def by blast
  have "rp_probe (fst (fold (report_stream best mean live) infos ro)) = rp_probe r
      \<and> rp_tv (fst (fold (report_stream best mean live) infos ro)) = rp_tv r
      \<and> (\<forall>rep\<in>set (snd (fold (report_stream best mean live) infos ro)). P rep)"
    if "set infos \<subseteq> set (rx_stream_infos e)" "rp_probe (fst ro) = rp_probe r \<and> rp_tv (fst ro) = rp_tv r \<and> (\<forall>rep\<in>set (snd ro). P rep)"
    for best mean live infos ro
    using that
  proof (induction infos arbitrary: ro)
    case (Cons i infos)
    have "rp_probe (fst (report_stream best mean live i ro)) = rp_probe r \<and> rp_tv (fst (report_stream best mean live i ro)) = rp_tv r
        \<and> (\<forall>rep\<in>set (snd (report_stream best mean live i ro)). P rep)"
      using Cons.prems by (cases ro) (auto simp: report_stream_def Let_def intro!: PI)
    then show ?case
      using Cons by simp
  qed simp
  from this [of "rx_stream_infos e" "(r\<lparr>rp_next_ms := now + ucast (rp_interval_ms r)\<rparr>, [])"]
  show ?thesis
    using assms by (auto simp: reporter_build_def P_def split_beta Let_def split: if_splits)
qed

text \<open>The frame a report becomes.\<close>

lemma encode_report_some:
  obtains frame where "encode_link_report r (Some kLinkReportSize) = Some frame"
    "decode (Some (ptr_of frame)) (length frame) = Inr (PLinkReport r)"
proof -
  obtain frame where "encode_link_report r (Some kLinkReportSize) = Some frame"
    by (simp add: encode_link_report_def out_ok_def)
  then show thesis
    using that roundtrip_link_report [of r "Some kLinkReportSize"] by (simp add: roundtrips_def)
qed

definition report_frame_of :: "u16 \<Rightarrow> u32 \<Rightarrow> link_report \<Rightarrow> bytes \<Rightarrow> bool" where
  "report_frame_of org session rep frame \<longleftrightarrow> decode (Some (ptr_of frame)) (length frame)
     = Inr (PLinkReport (rep\<lparr>lr_prefix := \<lparr>originator = org, destination = lr_target_originator rep, session_id = session\<rparr>\<rparr>))"

lemma emit_reports_out:
  assumes "ft \<in> set (to_reports (snd (fold (emit_report ij v hv now) reps co)))"
  shows "ft \<in> set (to_reports (snd co))
    \<or> (\<exists>rep\<in>set reps. report_frame_of (rc_originator (fst co)) (rc_session (fst co)) rep (fst ft) \<and> snd ft = lr_target_originator rep)"
  using assms
proof (induction reps arbitrary: co)
  case (Cons rep reps)
  obtain frame where fr: "encode_link_report (address_report (fst co) rep) (Some kLinkReportSize) = Some frame"
    and dec: "decode (Some (ptr_of frame)) (length frame) = Inr (PLinkReport (address_report (fst co) rep))"
    by (rule encode_report_some)
  have st: "to_reports (snd (emit_report ij v hv now rep co)) = to_reports (snd co) @ [(frame, lr_target_originator rep)]"
    using fr by (cases co) (simp add: emit_report_def Let_def address_report_def split: option.split)
  have "report_frame_of (rc_originator (fst co)) (rc_session (fst co)) rep frame"
    using dec by (simp add: report_frame_of_def address_report_def)
  then show ?case
    using Cons.IH [of "emit_report ij v hv now rep co"] Cons.prems st
    by (auto simp: core_view_fields [OF emit_report_view])
qed simp

text \<open>What a tick injects, stated of one frame: it decodes to a report of this node, addressed to the craft of a latched
  video stream, and carries evidence on the next rate only for the stream the probe tracks, only below a
  thousand permille, and only when a frame was heard at that rate.\<close>

definition honest_report :: "ProfileTable \<Rightarrow> ProbeEvent list \<Rightarrow> RxCore \<Rightarrow> bytes \<times> u16 \<Rightarrow> bool" where
  "honest_report t heard c ft \<longleftrightarrow>
     (case decode (Some (ptr_of (fst ft))) (length (fst ft)) of
        Inr (PLinkReport r) \<Rightarrow>
          originator (lr_prefix r) = rc_originator c \<and> session_id (lr_prefix r) = rc_session c
          \<and> destination (lr_prefix r) = snd ft \<and> lr_target_originator r = snd ft \<and> lr_report_epoch r = 0
          \<and> \<lparr>sk_originator = lr_target_originator r, sk_session_id = lr_target_session r, sk_stream_id = lr_target_stream_id r\<rparr>
              \<in> set (map si_key (rtp_infos c))
          \<and> (lr_probe_per r = kNoProbe
             \<or> lr_probe_per r \<le> 1000
               \<and> rc_probe_key c = Some \<lparr>sk_originator = lr_target_originator r, sk_session_id = lr_target_session r,
                                       sk_stream_id = lr_target_stream_id r\<rparr>
               \<and> list_ex (observes_candidate t (mw_profile (rc_probe_window c))) heard)
      | _ \<Rightarrow> False)"

text \<open>C33: Every report frame that a tick of the receive core hands to the radio decodes to a report
  from this node and session, addressed to the craft of an RTP stream that is latched at that
  moment; a probe error rate in it is at most 1000 permille, is given only for the probed
  stream, and rests on a heard frame at the candidate rate of the current profile.\<close>

theorem injected_reports_are_honest:
  assumes "c = rx_core_run evs (new_rx_core cfg session (Some t) tv)"
    and "rc_tick (submit_report took) verdict hv now c = (c', ds, out)"
  shows "list_all (honest_report t (probe_history evs (new_rx_core cfg session (Some t) tv)) c') (to_reports out)"
proof -
  let ?c0 = "new_rx_core cfg session (Some t) tv"
  have c0: "rc_probe_window ?c0 = new_probe_window (Some t) tv default_probe_params"
    by (simp add: new_rx_core_def)
  define e where "e = fst (rx_tick (rc_engine c) now)"
  define c1 where "c1 = refresh_probe now (c\<lparr>rc_engine := e\<rparr>)"
  define rb where "rb = reporter_build e now (rc_reporter c1)"
  have c1: "rc_engine c1 = e" "rc_originator c1 = rc_originator c" "rc_session c1 = rc_session c"
    by (simp_all add: c1_def refresh_probe_def split: option.split)
  have tick: "(c', out) = fold (emit_report (submit_report took) verdict hv now) (snd rb)
      (c1\<lparr>rc_reporter := fst rb\<rparr>, \<lparr>to_reports = [], to_verdicts = []\<rparr>)"
    using assms(2) unfolding rc_tick_def Let_def split_beta e_def [symmetric] c1_def [symmetric] c1(1) rb_def [symmetric]
    by (auto simp: prod_eq_iff)
  have view: "core_view c' = core_view c1"
    using emit_reports_view [of "submit_report took" verdict hv now "snd rb" "(c1\<lparr>rc_reporter := fst rb\<rparr>, \<lparr>to_reports = [], to_verdicts = []\<rparr>)"]
    by (simp add: tick [symmetric])
  note c' = core_view_fields [OF view]
  have win: "rc_probe_window c' = probe_run (probe_history evs ?c0) (new_probe_window (Some t) tv default_probe_params)"
    using probe_window_run [of evs ?c0] c'(4) by (simp add: assms(1) c0 c1_def refresh_probe_def split: option.split)
  have probe: "rc_probe_key c' = Some k \<and> probe_per now (rc_probe_window c') = Some per"
    if "rp_probe (rc_reporter c1) = Some (k, per)" for k per
  proof (cases "rc_probe_key c")
    case None
    then show ?thesis
      using that evidence_scoped_run [of evs cfg session "Some t" tv] by (simp add: c1_def refresh_probe_def evidence_scoped_def assms(1))
  next
    case (Some key)
    then show ?thesis
      using that c'(4,5) by (simp add: c1_def refresh_probe_def set_probe_per_def split: option.splits)
  qed
  show ?thesis
    unfolding list_all_iff
  proof
    fix ft
    assume "ft \<in> set (to_reports out)"
    then obtain rep where rep: "rep \<in> set (snd rb)" "report_frame_of (rc_originator c1) (rc_session c1) rep (fst ft)"
      "snd ft = lr_target_originator rep"
      using emit_reports_out [of ft "submit_report took" verdict hv now "snd rb" "(c1\<lparr>rc_reporter := fst rb\<rparr>, \<lparr>to_reports = [], to_verdicts = []\<rparr>)"]
      by (auto simp: tick [symmetric])
    obtain i r' best mean live prev where i: "i \<in> set (rx_stream_infos e)" "si_stream_type i = 0x01"
      and r': "rp_probe r' = rp_probe (rc_reporter c1)" "rep = stream_report r' best mean live i prev"
      using build_reports [of rep e now "rc_reporter c1"] rep(1) by (auto simp: rb_def)
    have key: "\<lparr>sk_originator = lr_target_originator rep, sk_session_id = lr_target_session rep, sk_stream_id = lr_target_stream_id rep\<rparr> = si_key i"
      by (simp add: r'(2) stream_report_def Let_def)
    have ep: "lr_report_epoch rep = 0"
      by (simp add: r'(2) stream_report_def Let_def)
    have ev: "lr_probe_per rep = kNoProbe \<or> rp_probe (rc_reporter c1) = Some (si_key i, lr_probe_per rep)"
      unfolding r'(1) [symmetric] by (simp add: r'(2) stream_report_def Let_def split: option.split prod.split)
    have "lr_probe_per rep \<le> 1000 \<and> rc_probe_key c' = Some (si_key i)
        \<and> list_ex (observes_candidate t (mw_profile (rc_probe_window c'))) (probe_history evs ?c0)"
      if "rp_probe (rc_reporter c1) = Some (si_key i, lr_probe_per rep)"
      using probe [OF that] probe_per_some(3) evidence_at_report [of now "probe_history evs ?c0" t tv default_probe_params]
      by (auto simp: win list_ex_iff)
    moreover have "si_key i \<in> set (map si_key (rtp_infos c'))"
      using i c'(6) c1(1) by (auto simp: rtp_infos_def)
    ultimately show "honest_report t (probe_history evs ?c0) c' ft"
      using rep(2,3) key ep ev c'(8,9) by (auto simp: honest_report_def report_frame_of_def)
  qed
qed

section \<open>A torn-down stream leaves its snapshot behind\<close>

lemma map_of_update_other: "k \<noteq> k' \<Longrightarrow> map_of (om_update k v xs) k' = map_of xs k'"
  by (induction k v xs rule: om_update.induct) auto

lemma report_stream_snapshot:
  "si_stream_type i \<noteq> 0x01 \<or> pack_key (si_key i) \<noteq> k \<Longrightarrow>
   map_of (rp_last (fst (report_stream best mean live i ro))) k = map_of (rp_last (fst ro)) k"
  by (cases ro) (auto simp: report_stream_def Let_def map_of_update_other)

lemma build_snapshot:
  assumes "\<forall>i\<in>set (rx_stream_infos e). pack_key (si_key i) \<noteq> k"
  shows "map_of (rp_last (fst (reporter_build e now r))) k = map_of (rp_last r) k"
proof -
  have "map_of (rp_last (fst (fold (report_stream best mean live) infos ro))) k = map_of (rp_last (fst ro)) k"
    if "\<forall>i\<in>set infos. pack_key (si_key i) \<noteq> k" for best mean live infos ro
    using that by (induction infos arbitrary: ro) (simp_all add: report_stream_snapshot)
  then show ?thesis
    using assms by (simp add: reporter_build_def split_beta Let_def)
qed

text \<open>The idle teardown of the engine does not reach the reporter: the counters the stream ended with are still
  the base of the first window after it is latched again, when it counts from zero.\<close>

lemma teardown_keeps_snapshot:
  assumes "\<forall>i\<in>set (rx_stream_infos (fst (rx_tick (rc_engine c) now))). pack_key (si_key i) \<noteq> k"
  shows "map_of (rp_last (rc_reporter (fst (rc_tick (submit_report took) v hv now c)))) k = map_of (rp_last (rc_reporter c)) k"
proof -
  have "rp_last (rc_reporter (fst (emit_report (submit_report took) v hv now r co))) = rp_last (rc_reporter (fst co))" for r co
    by (cases co) (simp add: emit_report_def Let_def submit_report_def commit_epoch_def split: option.split)
  note F = fold_keeps [of "\<lambda>co. rp_last (rc_reporter (fst co))", OF this]
  show ?thesis
    using assms by (simp add: rc_tick_def split_beta Let_def F build_snapshot refresh_probe_def set_probe_per_def split: option.split)
qed

section \<open>Examples\<close>

text \<open>One packet of a wanted craft latches; the next tick reports on it.\<close>

definition core_demo_cfg :: RxCoreCfg where
  "core_demo_cfg = \<lparr>rcc_originator = 77, rcc_policy = rx_demo_policy\<lparr>admit_n := 1\<rparr>,
     rcc_wants = [\<lparr>ws_local_stream_id = 7, ws_stream_type = 1, ws_originator = None\<rparr>], rcc_report_period_ms = 100,
     rcc_recovery_on_latch = True, rcc_spectator = False\<rparr>"

definition core_demo :: RxCore where
  "core_demo = new_rx_core core_demo_cfg 4 (Some probe_table) None"

definition core_demo_frame :: bytes where
  "core_demo_frame = the (encode_data (dv_hdr (rx_demo_packet 10 3)) (Some [0xAB]) 1 (Some (kDataHeaderSize + kMaxDataPayload)))"

lemma core_demo_decode: "decode (Some (ptr_of core_demo_frame)) (length core_demo_frame) = Inr (PData (rx_demo_packet 10 3))"
proof -
  have "encode_data (dv_hdr (rx_demo_packet 10 3)) (Some [0xAB]) 1 (Some (kDataHeaderSize + kMaxDataPayload)) = Some core_demo_frame"
    by (simp add: core_demo_frame_def encode_data_def out_ok_def null_with_len_def Let_def)
  then show ?thesis
    using roundtrip_data [of "[0xAB]" 1 "dv_hdr (rx_demo_packet 10 3)" "Some (kDataHeaderSize + kMaxDataPayload)"]
    by (simp add: roundtrips_def rx_demo_packet_def)
qed

definition core_demo_events :: "RxCoreEvent list" where
  "core_demo_events = [CAir 0 core_demo_frame 1000 (- 60) None kUplinkRxMcsUnknown]"

definition core_demo_tick :: "RxCore \<times> delivery list \<times> TickOut" where
  "core_demo_tick = rc_tick (submit_report (\<lambda>f t. True)) 0 False 1100 (rx_core_run core_demo_events core_demo)"

lemma core_demo_reports: "length (to_reports (snd (snd core_demo_tick))) = 1"
  by (simp add: core_demo_tick_def core_demo_events_def rx_core_run_def rc_on_air_def core_demo_decode core_demo_def new_rx_core_def
      core_demo_cfg_def feed_probe_def feeds_probe_def
      on_data_def try_latch_def touch_candidate_def evict.simps hear_adapter_def zero_adapter_def pack_key_def rx_demo_defs rx_eval
      Let_def advance_cursor.simps rc_tick_def rx_tick_def tick_stream_def idle_def refresh_probe_def reporter_build_def new_reporter_def
      rx_stream_infos_def stream_info_def report_stream_def emit_report_def encode_link_report_def out_ok_def split_beta)

theorem injected_reports_are_honest_witness:
  "length (to_reports (snd (snd core_demo_tick))) = 1
   \<and> list_all (honest_report probe_table (probe_history core_demo_events core_demo) (fst core_demo_tick)) (to_reports (snd (snd core_demo_tick)))"
proof -
  have "rc_tick (submit_report (\<lambda>f t. True)) 0 False 1100 (rx_core_run core_demo_events core_demo)
      = (fst core_demo_tick, fst (snd core_demo_tick), snd (snd core_demo_tick))"
    by (simp add: core_demo_tick_def)
  from injected_reports_are_honest [OF refl this [unfolded core_demo_def]] core_demo_reports
  show ?thesis
    by (simp add: core_demo_def)
qed

end
