(* ===== verification/Report_Gate.thy ===== *)
theory Report_Gate
  imports Prelude
begin

text \<open>
  core/include/wblink/report_gate.h: which ground station's LINK_REPORTs a transmitter obeys. A
  configured originator, or the first one heard, until it has been silent for \<open>relatch_ms\<close>.
\<close>

section \<open>The gate\<close>

record ReportGatePolicy =
  gp_preferred_originator :: u16
  gp_relatch_ms :: u32

record ReportGate =
  rg_p :: ReportGatePolicy
  rg_latched :: "(u16 \<times> u32) option"
  rg_last_ms :: u64
  rg_rejected :: u64

definition new_report_gate :: "ReportGatePolicy \<Rightarrow> ReportGate" where
  "new_report_gate p = \<lparr>rg_p = p, rg_latched = None, rg_last_ms = 0, rg_rejected = 0\<rparr>"

definition gate_accept :: "u16 \<Rightarrow> u32 \<Rightarrow> u64 \<Rightarrow> ReportGate \<Rightarrow> ReportGate \<times> bool" where
  "gate_accept originator session now_ms g =
     (if gp_preferred_originator (rg_p g) \<noteq> 0
      then (if originator \<noteq> gp_preferred_originator (rg_p g) then (g\<lparr>rg_rejected := rg_rejected g + 1\<rparr>, False)
            else (g\<lparr>rg_last_ms := now_ms\<rparr>, True))
      else case rg_latched g of
             None \<Rightarrow> (g\<lparr>rg_latched := Some (originator, session), rg_last_ms := now_ms\<rparr>, True)
           | Some (o1, s1) \<Rightarrow>
               if o1 = originator then (g\<lparr>rg_latched := Some (o1, session), rg_last_ms := now_ms\<rparr>, True)
               else if rg_last_ms g < now_ms \<and> ucast (gp_relatch_ms (rg_p g)) < now_ms - rg_last_ms g
               then (g\<lparr>rg_latched := Some (originator, session), rg_last_ms := now_ms\<rparr>, True)
               else (g\<lparr>rg_rejected := rg_rejected g + 1\<rparr>, False))"

definition force_latch :: "u16 \<Rightarrow> u64 \<Rightarrow> ReportGate \<Rightarrow> ReportGate" where
  "force_latch originator now_ms g =
     (if gp_preferred_originator (rg_p g) \<noteq> 0 then g
      else if originator = 0 then g
      else g\<lparr>rg_latched := Some (originator, 0), rg_last_ms := now_ms\<rparr>)"

definition clear_latch :: "ReportGate \<Rightarrow> ReportGate" where
  "clear_latch g =
     (if gp_preferred_originator (rg_p g) \<noteq> 0 then g else g\<lparr>rg_latched := None, rg_last_ms := 0\<rparr>)"

definition gate_overridable :: "ReportGate \<Rightarrow> bool" where
  "gate_overridable g = (gp_preferred_originator (rg_p g) = 0)"

definition latched_originator :: "ReportGate \<Rightarrow> u16" where
  "latched_originator g =
     (if gp_preferred_originator (rg_p g) \<noteq> 0 then gp_preferred_originator (rg_p g)
      else case rg_latched g of None \<Rightarrow> 0 | Some (o1, s1) \<Rightarrow> o1)"

definition latched_session :: "ReportGate \<Rightarrow> u32" where
  "latched_session g = (case rg_latched g of None \<Rightarrow> 0 | Some (o1, s1) \<Rightarrow> s1)"

section \<open>Runs\<close>

datatype GateEvent = GReport u16 u32 u64 | GForce u16 u64 | GClear

text \<open>What a run did to the authority over the transmitter: reports obeyed, transfers, releases.\<close>

datatype GateLog = Obeyed u16 u64 | Transferred u16 u64 | Released

fun gate_event :: "GateEvent \<Rightarrow> ReportGate \<Rightarrow> ReportGate \<times> GateLog list" where
  "gate_event (GReport org session now) g =
     (case gate_accept org session now g of (g, ok) \<Rightarrow> (g, if ok then [Obeyed org now] else []))"
| "gate_event (GForce org now) g =
     (force_latch org now g, if gate_overridable g \<and> org \<noteq> 0 then [Transferred org now] else [])"
| "gate_event GClear g = (clear_latch g, if gate_overridable g then [Released] else [])"

fun authority_log :: "GateEvent list \<Rightarrow> ReportGate \<Rightarrow> GateLog list" where
  "authority_log [] g = []"
| "authority_log (ev # evs) g = (case gate_event ev g of (g, l) \<Rightarrow> l @ authority_log evs g)"

text \<open>A report is obeyed after another's only when the other has been silent.\<close>

definition silent_since :: "u32 \<Rightarrow> u64 \<Rightarrow> u64 \<Rightarrow> bool" where
  "silent_since relatch t0 t = (unat t0 + unat relatch < unat t)"

fun lawful_handover :: "u32 \<Rightarrow> GateLog \<Rightarrow> GateLog \<Rightarrow> bool" where
  "lawful_handover relatch (Obeyed o1 t1) (Obeyed o2 t2) = (o1 = o2 \<or> silent_since relatch t1 t2)"
| "lawful_handover relatch (Transferred o1 t1) (Obeyed o2 t2) = (o1 = o2 \<or> silent_since relatch t1 t2)"
| "lawful_handover relatch a b = True"

text \<open>The last log entry is what the gate remembers.\<close>

fun remembers :: "ReportGate \<Rightarrow> GateLog \<Rightarrow> bool" where
  "remembers g (Obeyed o1 t1) = (if gate_overridable g then (\<exists>s. rg_latched g = Some (o1, s)) \<and> rg_last_ms g = t1
     else o1 = gp_preferred_originator (rg_p g))"
| "remembers g (Transferred o1 t1) = (gate_overridable g \<and> (\<exists>s. rg_latched g = Some (o1, s)) \<and> rg_last_ms g = t1)"
| "remembers g Released = True"

lemma silent_since_diff:
  assumes "t0 < (t :: u64)" and "ucast (r :: u32) < t - t0"
  shows "silent_since r t0 t"
proof -
  have "unat (t - t0) = unat t - unat t0" and "unat t0 \<le> unat t"
    using assms(1) by (simp_all add: unat_diff_le less_imp_le word_le_nat_alt word_less_nat_alt)
  then show ?thesis
    using assms(2) by (simp add: silent_since_def word_less_nat_alt)
qed

lemma gate_event_log:
  assumes "remembers g l0"
  shows "case gate_event ev g of
           (g', []) \<Rightarrow> remembers g' l0
         | (g', l # ls) \<Rightarrow> ls = [] \<and> remembers g' l \<and> lawful_handover (gp_relatch_ms (rg_p g)) l0 l"
    and "rg_p (fst (gate_event ev g)) = rg_p g"
proof -
  show "rg_p (fst (gate_event ev g)) = rg_p g"
    by (cases ev) (auto simp: gate_accept_def force_latch_def clear_latch_def split: option.splits prod.splits)
  show "case gate_event ev g of
           (g', []) \<Rightarrow> remembers g' l0
         | (g', l # ls) \<Rightarrow> ls = [] \<and> remembers g' l \<and> lawful_handover (gp_relatch_ms (rg_p g)) l0 l"
    using assms
    by (cases ev; cases l0)
      (auto simp: gate_accept_def force_latch_def clear_latch_def gate_overridable_def silent_since_diff
        split: option.splits prod.splits if_splits)
qed

lemma authority_log_from:
  assumes "remembers g l0"
  shows "successively (lawful_handover (gp_relatch_ms (rg_p g))) (l0 # authority_log evs g)"
  using assms
proof (induction evs arbitrary: g l0)
  case (Cons ev evs)
  obtain g' l where st: "gate_event ev g = (g', l)"
    by fastforce
  note E = gate_event_log [OF Cons.prems, of ev, unfolded st, simplified]
  show ?case
    using E Cons.IH [of g'] by (cases l) (auto simp: st)
qed simp

text \<open>C36: The report gate obeys one reporter at a time: whenever two reports accepted one after the
  other come from different originators, the relatch time has passed since the first, unless the
  latch was handed over or cleared by command in between.\<close>

theorem authority_changes_only_after_silence:
  "successively (lawful_handover (gp_relatch_ms p)) (authority_log evs (new_report_gate p))"
proof -
  have "successively (lawful_handover (gp_relatch_ms p)) (Released # authority_log evs (new_report_gate p))"
    using authority_log_from [of "new_report_gate p" Released evs] by (simp add: new_report_gate_def)
  then show ?thesis
    by (metis successively_Cons successively.simps(1))
qed

end
