(* ===== verification/Quiet_Gap.thy ===== *)
theory Quiet_Gap
  imports Prelude
begin

text \<open>
  core/include/wblink/quietgap.h: the pacer of the half-duplex link. After an end of block the
  craft listens for a window; the ground station times its return into the middle of it.
\<close>

record QuietGapPolicy =
  qp_enabled :: bool
  qp_guard_us :: u32
  qp_window_us :: u32
  qp_skip_backlog :: u32

record QuietGap =
  qg_p :: QuietGapPolicy
  qg_gap_start_us :: u64
  qg_gap_end_us :: u64

definition new_quiet_gap :: "QuietGapPolicy \<Rightarrow> QuietGap" where
  "new_quiet_gap p = \<lparr>qg_p = p, qg_gap_start_us = 0, qg_gap_end_us = 0\<rparr>"

definition note_eob_sent :: "u64 \<Rightarrow> QuietGap \<Rightarrow> QuietGap" where
  "note_eob_sent now_us q =
     (if qp_enabled (qg_p q)
      then (let start = now_us + ucast (qp_guard_us (qg_p q))
            in q\<lparr>qg_gap_start_us := start, qg_gap_end_us := start + ucast (qp_window_us (qg_p q))\<rparr>)
      else q)"

definition can_send_video :: "u64 \<Rightarrow> u32 \<Rightarrow> QuietGap \<Rightarrow> bool" where
  "can_send_video now_us held_frames q =
     (if \<not> qp_enabled (qg_p q) \<or> qp_skip_backlog (qg_p q) \<le> held_frames then True
      else now_us < qg_gap_start_us q \<or> qg_gap_end_us q \<le> now_us)"

definition return_deadline :: "u64 \<Rightarrow> u32 \<Rightarrow> u64 option \<Rightarrow> QuietGap \<Rightarrow> u64" where
  "return_deadline now_us tsfl_eob tsf_now q =
     (if \<not> qp_enabled (qg_p q) then now_us
      else (let target = qp_guard_us (qg_p q) + qp_window_us (qg_p q) div 2;
                elapsed = (case tsf_now of None \<Rightarrow> 0 | Some t \<Rightarrow> (ucast t :: u32) - tsfl_eob)
            in if target \<le> elapsed then now_us else now_us + ucast (target - elapsed)))"

section \<open>The return falls into the gap\<close>

text \<open>The 32-bit counter may wrap between the end of block and the reading: the difference is still
  the elapsed time as long as that is below \<open>2 ^ 32\<close> microseconds.\<close>

lemma tsf_elapsed:
  assumes "d < 2 ^ 32"
  shows "unat ((ucast (t + of_nat d :: u64) :: u32) - ucast t) = d"
proof -
  have "(ucast (t + of_nat d :: u64) :: u32) = ucast t + of_nat d"
  proof (rule unat_inject_iff [THEN iffD1])
    have m: "(x mod 2 ^ 64) mod 2 ^ 32 = x mod (2 ^ 32 :: nat)" for x
      by (rule mod_mod_cancel) (simp add: le_imp_power_dvd)
    have "unat (ucast (t + of_nat d) :: u32) = (unat t + d mod 2 ^ 64) mod 2 ^ 64 mod 2 ^ 32"
      by (simp only: unsigned_ucast_eq take_bit_eq_mod unat_word_ariths unsigned_of_nat) simp
    also have "\<dots> = (unat t mod 2 ^ 32 + d mod 2 ^ 32) mod 2 ^ 32"
      by (metis m mod_add_eq)
    also have "\<dots> = unat (ucast t + of_nat d :: u32)"
      by (simp only: unsigned_ucast_eq take_bit_eq_mod unat_word_ariths unsigned_of_nat) simp
    finally show "unat (ucast (t + of_nat d) :: u32) = unat (ucast t + of_nat d :: u32)" .
  qed
  then show ?thesis
    using assms by (simp add: unat_of_nat_small)
qed

text \<open>A return transmission scheduled from the end of a block, before the middle of the gap, falls
  inside the window in which the craft holds its video back.\<close>

theorem return_falls_in_gap:
  assumes en: "qp_enabled p" and "held < qp_skip_backlog p" and "1 < unat (qp_window_us p)"
    and fits: "unat (qp_guard_us p) + unat (qp_window_us p) < 2 ^ 32" and room: "unat eob_us + 2 ^ 32 < 2 ^ 64"
    and d: "d < unat (qp_guard_us p) + unat (qp_window_us p) div 2"
  shows "\<not> can_send_video
           (return_deadline (eob_us + of_nat d) (ucast tsf_eob) (Some (tsf_eob + of_nat d)) (new_quiet_gap p))
           held (note_eob_sent eob_us (new_quiet_gap p))"
proof -
  define target where "target = qp_guard_us p + qp_window_us p div 2"
  define elapsed where "elapsed = (ucast (tsf_eob + of_nat d :: u64) :: u32) - ucast tsf_eob"
  define r where "r = return_deadline (eob_us + of_nat d) (ucast tsf_eob) (Some (tsf_eob + of_nat d)) (new_quiet_gap p)"
  have t: "unat target = unat (qp_guard_us p) + unat (qp_window_us p) div 2"
    using fits by (simp add: target_def unat_word_ariths)
  have e: "unat elapsed = d"
    using d fits by (simp add: elapsed_def tsf_elapsed)
  have lt: "elapsed < target"
    using t e d by (simp add: word_less_nat_alt)
  have te: "unat (target - elapsed) = unat target - d"
    using lt e by (simp add: unat_diff_le less_imp_le)
  have "\<not> target \<le> elapsed"
    using lt by (simp only: not_le)
  then have r_eq: "r = eob_us + of_nat d + ucast (target - elapsed)"
    using en by (simp add: r_def return_deadline_def new_quiet_gap_def target_def [symmetric] elapsed_def [symmetric])
  have "unat (of_nat d :: u64) = d"
    using d fits by (simp add: unat_of_nat_small)
  then have "unat r = unat eob_us + unat target"
    using te t d fits room by (simp add: r_eq unat_word_ariths)
  then have "\<not> r < eob_us + ucast (qp_guard_us p)"
    and "\<not> eob_us + ucast (qp_guard_us p) + ucast (qp_window_us p) \<le> r"
    using t fits room assms(3) by (simp_all add: word_less_nat_alt word_le_nat_alt unat_word_ariths)
  moreover have "\<not> qp_skip_backlog p \<le> held"
    using assms(2) by (simp only: not_le)
  ultimately show ?thesis
    using en unfolding r_def [symmetric] by (simp add: can_send_video_def note_eob_sent_def new_quiet_gap_def Let_def)
qed

theorem return_falls_in_gap_witness:
  "\<not> can_send_video
      (return_deadline (1000 + of_nat 200) (ucast (0xFFFFFFF0 :: u64)) (Some (0xFFFFFFF0 + of_nat 200))
        (new_quiet_gap \<lparr>qp_enabled = True, qp_guard_us = 300, qp_window_us = 2000, qp_skip_backlog = 32\<rparr>))
      3 (note_eob_sent 1000 (new_quiet_gap \<lparr>qp_enabled = True, qp_guard_us = 300, qp_window_us = 2000, qp_skip_backlog = 32\<rparr>))"
  by (rule return_falls_in_gap) simp_all

end
