(* ===== verification/Rtp_Framer.thy ===== *)
theory Rtp_Framer
  imports Wire_Props
begin

text \<open>
  core/include/wblink/rtp.h, core/include/wblink/framer.h and core/src/framer.cpp: the parser of
  the RTP fixed header, the locator of the RTP payload, and the framer that turns one ingress
  datagram into one DATA frame and draws the block boundaries.
\<close>

section \<open>RTP\<close>

abbreviation kRtpFixedHeaderSize :: nat where "kRtpFixedHeaderSize \<equiv> 12"

record RtpHeader =
  rtp_version :: u8
  rtp_padding :: bool
  rtp_extension :: bool
  rtp_csrc_count :: u8
  rtp_marker :: bool
  rtp_payload_type :: u8
  rtp_seq :: u16
  rtp_timestamp :: u32
  rtp_ssrc :: u32

definition parse_rtp_header :: "ptr option \<Rightarrow> nat \<Rightarrow> RtpHeader option" where
  "parse_rtp_header dp len =
     (case dp of
        None \<Rightarrow> None
      | Some d \<Rightarrow>
          if len < kRtpFixedHeaderSize then None
          else (let version = drop_bit 6 (d 0)
                in if version \<noteq> 2 then None
                   else (let csrc_count = d 0 AND 0x0F
                         in if len < kRtpFixedHeaderSize + unat csrc_count * 4 then None
                            else Some \<lparr>rtp_version = version, rtp_padding = (d 0 AND 0x20 \<noteq> 0),
                              rtp_extension = (d 0 AND 0x10 \<noteq> 0), rtp_csrc_count = csrc_count,
                              rtp_marker = (d 1 AND 0x80 \<noteq> 0), rtp_payload_type = d 1 AND 0x7F,
                              rtp_seq = be16_read (padd d 2), rtp_timestamp = be32_read (padd d 4),
                              rtp_ssrc = be32_read (padd d 8)\<rparr>)))"

text \<open>The payload is an offset into the datagram and a length.\<close>

definition rtp_payload :: "ptr \<Rightarrow> nat \<Rightarrow> RtpHeader \<Rightarrow> (nat \<times> nat) option" where
  "rtp_payload d len h =
     (let off = kRtpFixedHeaderSize + unat (rtp_csrc_count h) * 4
      in if rtp_extension h \<and> len < off + 4 then None
         else (let off = (if rtp_extension h then off + (4 + 4 * unat (be16_read (padd d (off + 2)))) else off);
                   pad = d (len - 1)
               in if rtp_padding h \<and> (pad = 0 \<or> len < unat pad) then None
                  else (let fin = (if rtp_padding h then len - unat pad else len)
                        in if fin < off then None else Some (off, fin - off))))"

section \<open>The framer\<close>

definition stream_type_kRtp :: u8 where
  "stream_type_kRtp = 0x01"

record FramerConfig =
  fc_originator :: u16
  fc_session_id :: u32
  fc_stream_id :: u8
  fc_stream_type :: u8
  fc_destination :: u16

record FramerStats =
  fms_datagrams :: u64
  fms_frames :: u64
  fms_blocks :: u64
  fms_oversize_ingress :: u64

record Framer =
  fm_cfg :: FramerConfig
  fm_stats :: FramerStats
  fm_active_profile :: u8
  fm_table_version :: u8
  fm_extra_flags :: u8
  fm_next_seq :: u32
  fm_block_id :: u32
  fm_block_open :: bool
  fm_have_rtp_ts :: bool
  fm_last_rtp_ts :: u32
  fm_prev_was_marker :: bool

definition fm_zero_stats :: FramerStats where
  "fm_zero_stats = \<lparr>fms_datagrams = 0, fms_frames = 0, fms_blocks = 0, fms_oversize_ingress = 0\<rparr>"

definition new_rtp_framer :: "FramerConfig \<Rightarrow> Framer" where
  "new_rtp_framer cfg = \<lparr>fm_cfg = cfg, fm_stats = fm_zero_stats, fm_active_profile = 0, fm_table_version = 0,
     fm_extra_flags = 0, fm_next_seq = 0, fm_block_id = 0, fm_block_open = False, fm_have_rtp_ts = False,
     fm_last_rtp_ts = 0, fm_prev_was_marker = False\<rparr>"

definition fm_set_operating_point :: "u8 \<Rightarrow> u8 \<Rightarrow> Framer \<Rightarrow> Framer" where
  "fm_set_operating_point profile version f = f\<lparr>fm_active_profile := profile, fm_table_version := version\<rparr>"

definition fm_set_extra_flags :: "u8 \<Rightarrow> Framer \<Rightarrow> Framer" where
  "fm_set_extra_flags fl f = f\<lparr>fm_extra_flags := fl\<rparr>"

definition fm_reset_stats :: "Framer \<Rightarrow> Framer" where
  "fm_reset_stats f = f\<lparr>fm_stats := fm_zero_stats\<rparr>"

abbreviation upd_framer_stats :: "(FramerStats \<Rightarrow> FramerStats) \<Rightarrow> Framer \<Rightarrow> Framer" where
  "upd_framer_stats g f \<equiv> f\<lparr>fm_stats := g (fm_stats f)\<rparr>"

definition fm_open_block :: "bool \<Rightarrow> Framer \<Rightarrow> Framer" where
  "fm_open_block new_block f =
     (let f = (if new_block \<and> fm_block_open f then f\<lparr>fm_block_id := fm_block_id f + 1\<rparr> else f)
      in if new_block
         then upd_framer_stats (\<lambda>s. s\<lparr>fms_blocks := fms_blocks s + 1\<rparr>) (f\<lparr>fm_block_open := True\<rparr>) else f)"

text \<open>Where the datagram falls: the framer with its block, and whether the datagram ends it.\<close>

definition frame_boundary :: "RtpHeader option \<Rightarrow> Framer \<Rightarrow> Framer \<times> bool" where
  "frame_boundary rtp f =
     (if fc_stream_type (fm_cfg f) = stream_type_kRtp
      then (let moved = (case rtp of None \<Rightarrow> False | Some r \<Rightarrow> fm_have_rtp_ts f \<and> rtp_timestamp r \<noteq> fm_last_rtp_ts f);
                f = fm_open_block (\<not> fm_block_open f \<or> fm_prev_was_marker f \<or> moved) f
            in case rtp of
                 Some r \<Rightarrow> (f\<lparr>fm_have_rtp_ts := True, fm_last_rtp_ts := rtp_timestamp r, fm_prev_was_marker := rtp_marker r\<rparr>,
                            rtp_marker r)
               | None \<Rightarrow> (f\<lparr>fm_prev_was_marker := True\<rparr>, True))
      else (fm_open_block True f, True))"

definition framer_header :: "bool \<Rightarrow> Framer \<Rightarrow> data_header" where
  "framer_header end_of_block f =
     \<lparr>dh_prefix = \<lparr>originator = fc_originator (fm_cfg f), destination = fc_destination (fm_cfg f),
        session_id = fc_session_id (fm_cfg f)\<rparr>,
      stream_id = fc_stream_id (fm_cfg f), stream_type = fc_stream_type (fm_cfg f), seq_no = fm_next_seq f,
      block_id = fm_block_id f, data_flags = (if end_of_block then kEndOfBlock else 0) OR fm_extra_flags f,
      active_profile = fm_active_profile f, table_version = fm_table_version f\<rparr>"

text \<open>The emission is the frame and its header; \<open>None\<close> when the datagram was dropped.\<close>

definition fm_on_datagram :: "bytes option \<Rightarrow> nat \<Rightarrow> Framer \<Rightarrow> Framer \<times> (bytes \<times> data_header) option" where
  "fm_on_datagram data len f =
     (let f = upd_framer_stats (\<lambda>s. s\<lparr>fms_datagrams := fms_datagrams s + 1\<rparr>) f
      in if kMaxDataPayload < len
         then (upd_framer_stats (\<lambda>s. s\<lparr>fms_oversize_ingress := fms_oversize_ingress s + 1\<rparr>) f, None)
         else (let (f, end_of_block) = frame_boundary (parse_rtp_header (map_option ptr_of data) len) f;
                   hdr = framer_header end_of_block f;
                   f = f\<lparr>fm_next_seq := fm_next_seq f + 1\<rparr>
               in case encode_data hdr data (of_nat len) (Some (kDataHeaderSize + kMaxDataPayload)) of
                    None \<Rightarrow> (f, None)
                  | Some frame \<Rightarrow> (upd_framer_stats (\<lambda>s. s\<lparr>fms_frames := fms_frames s + 1\<rparr>) f, Some (frame, hdr))))"

section \<open>The RTP parser stays inside the datagram\<close>

lemma padd_apply [simp]: "padd d k i = d (k + i)"
  by (simp add: padd_def add.commute)

lemma parse_rtp_SomeD:
  assumes "parse_rtp_header (Some d) len = Some h"
  shows "kRtpFixedHeaderSize \<le> len" "kRtpFixedHeaderSize + unat (rtp_csrc_count h) * 4 \<le> len"
  using assms by (auto simp: parse_rtp_header_def Let_def split: if_splits)

lemma parse_rtp_reads_inside:
  assumes "\<And>i. i < len \<Longrightarrow> d i = d' i"
  shows "parse_rtp_header (Some d) len = parse_rtp_header (Some d') len"
proof (cases "len < kRtpFixedHeaderSize")
  case False
  then have "d i = d' i" if "i < 12" for i
    using assms that by simp
  then show ?thesis
    by (simp add: parse_rtp_header_def be16_read_def be32_read_def Let_def)
qed (simp add: parse_rtp_header_def)

text \<open>Parsing an RTP header and finding its payload read no byte outside the datagram, and the payload
  found lies inside it, after the fixed header.\<close>

theorem rtp_payload_inside_datagram:
  assumes "parse_rtp_header (Some d) len = Some h" and "\<And>i. i < len \<Longrightarrow> d i = d' i"
  shows "parse_rtp_header (Some d') len = Some h \<and> rtp_payload d' len h = rtp_payload d len h
     \<and> (\<forall>off n. rtp_payload d len h = Some (off, n) \<longrightarrow> kRtpFixedHeaderSize \<le> off \<and> off + n \<le> len)"
proof (intro conjI allI impI)
  note P = parse_rtp_SomeD [OF assms(1)]
  show "parse_rtp_header (Some d') len = Some h"
    using assms parse_rtp_reads_inside by metis
  have pad: "d' (len - 1) = d (len - 1)"
    using P(1) by (intro assms(2) [symmetric]) simp
  define base where "base = kRtpFixedHeaderSize + unat (rtp_csrc_count h) * 4"
  show "rtp_payload d' len h = rtp_payload d len h"
  proof (cases "rtp_extension h \<and> len < base + 4")
    case False
    then have "rtp_extension h \<Longrightarrow> be16_read (padd d' (base + 2)) = be16_read (padd d (base + 2))"
      using assms(2) by (simp add: be16_read_def)
    then show ?thesis
      unfolding rtp_payload_def base_def [symmetric] Let_def pad by (simp cong: if_cong)
  qed (simp add: rtp_payload_def base_def)
  fix off n
  assume "rtp_payload d len h = Some (off, n)"
  then show "kRtpFixedHeaderSize \<le> off" "off + n \<le> len"
    by (auto simp: rtp_payload_def Let_def split: if_splits)
qed

definition rtp_demo :: bytes where
  "rtp_demo = [0x80, 0xE0, 0, 1, 0, 0, 0, 9, 0, 0, 0, 7, 42]"

definition rtp_demo_header :: RtpHeader where
  "rtp_demo_header = \<lparr>rtp_version = 2, rtp_padding = False, rtp_extension = False, rtp_csrc_count = 0, rtp_marker = True,
     rtp_payload_type = 0x60, rtp_seq = 1, rtp_timestamp = 9, rtp_ssrc = 7\<rparr>"

lemma rtp_demo_parse: "parse_rtp_header (Some (ptr_of rtp_demo)) 13 = Some rtp_demo_header"
  by (simp add: parse_rtp_header_def ptr_of_def rtp_demo_def rtp_demo_header_def be16_read_def be32_read_def)

theorem rtp_payload_inside_datagram_witness:
  "parse_rtp_header (Some (ptr_of (rtp_demo @ [1, 2, 3]))) 13 = Some rtp_demo_header
   \<and> rtp_payload (ptr_of (rtp_demo @ [1, 2, 3])) 13 rtp_demo_header = Some (12, 1)"
proof -
  have "rtp_payload (ptr_of rtp_demo) 13 rtp_demo_header = Some (12, 1)"
    by (simp add: rtp_payload_def rtp_demo_header_def)
  moreover have "length rtp_demo = 13"
    by (simp add: rtp_demo_def)
  then have "ptr_of rtp_demo i = ptr_of (rtp_demo @ [1, 2, 3]) i" if "i < 13" for i
    using that by (simp add: ptr_of_def nth_append)
  ultimately show ?thesis
    using rtp_payload_inside_datagram [OF rtp_demo_parse] by metis
qed

section \<open>Sequence numbers and block boundaries\<close>

text \<open>The frames a run of datagrams yields, each with its datagram.\<close>

fun framer_run :: "bytes list \<Rightarrow> Framer \<Rightarrow> (bytes \<times> bytes \<times> data_header) list" where
  "framer_run [] f = []"
| "framer_run (d # ds) f =
     (case fm_on_datagram (Some d) (length d) f of
        (f, None) \<Rightarrow> framer_run ds f
      | (f, Some (frame, hdr)) \<Rightarrow> (d, frame, hdr) # framer_run ds f)"

abbreviation rtp_of :: "bytes \<Rightarrow> RtpHeader option" where
  "rtp_of d \<equiv> parse_rtp_header (Some (ptr_of d)) (length d)"

text \<open>Does \<open>d'\<close> open a new block when it follows \<open>d\<close>?\<close>

definition new_block_after :: "u8 \<Rightarrow> bytes \<Rightarrow> bytes \<Rightarrow> bool" where
  "new_block_after typ d d' =
     (typ \<noteq> stream_type_kRtp
      \<or> (case rtp_of d of
           None \<Rightarrow> True
         | Some r \<Rightarrow> rtp_marker r \<or> (case rtp_of d' of None \<Rightarrow> False | Some r' \<Rightarrow> rtp_timestamp r' \<noteq> rtp_timestamp r)))"

definition ends_block :: "u8 \<Rightarrow> bytes \<Rightarrow> bool" where
  "ends_block typ d = (typ \<noteq> stream_type_kRtp \<or> (case rtp_of d of None \<Rightarrow> True | Some r \<Rightarrow> rtp_marker r))"

text \<open>What one emission says of the next.\<close>

fun framed_after :: "u8 \<Rightarrow> bytes \<times> bytes \<times> data_header \<Rightarrow> bytes \<times> bytes \<times> data_header \<Rightarrow> bool" where
  "framed_after typ (d, fr, h) (d', fr', h') =
     (seq_no h' = seq_no h + 1 \<and> block_id h' = block_id h + of_bool (new_block_after typ d d'))"

text \<open>A frame decodes to its datagram under the header it was emitted with.\<close>

fun carries_datagram :: "u8 \<Rightarrow> u8 \<Rightarrow> bytes \<times> bytes \<times> data_header \<Rightarrow> bool" where
  "carries_datagram typ extra (d, fr, h) =
     (decode (Some (ptr_of fr)) (length fr) = Inr (PData \<lparr>dv_hdr = h, dv_payload = d\<rparr>)
      \<and> data_flags h = (if ends_block typ d then kEndOfBlock else 0) OR extra)"

text \<open>The state after a datagram has been framed.\<close>

definition framed_state :: "FramerConfig \<Rightarrow> u8 \<Rightarrow> bytes \<Rightarrow> data_header \<Rightarrow> Framer \<Rightarrow> bool" where
  "framed_state cfg extra d h f \<longleftrightarrow> fm_cfg f = cfg \<and> fm_extra_flags f = extra \<and> fm_next_seq f = seq_no h + 1
     \<and> fm_block_id f = block_id h \<and> fm_block_open f
     \<and> (fc_stream_type cfg = stream_type_kRtp \<longrightarrow>
          fm_prev_was_marker f = ends_block (fc_stream_type cfg) d
          \<and> (\<forall>r. rtp_of d = Some r \<longrightarrow> fm_have_rtp_ts f \<and> fm_last_rtp_ts f = rtp_timestamp r))"

lemma frame_boundary_next:
  assumes st: "framed_state cfg extra d h f" and fb: "frame_boundary (rtp_of d') f = (f', e)"
  shows "fm_cfg f' = cfg" "fm_extra_flags f' = extra" "fm_next_seq f' = fm_next_seq f" "fm_block_open f'"
    and "e = ends_block (fc_stream_type cfg) d'"
    and "fm_block_id f' = block_id h + of_bool (new_block_after (fc_stream_type cfg) d d')"
    and "fc_stream_type cfg = stream_type_kRtp \<Longrightarrow> fm_prev_was_marker f' = e
          \<and> (\<forall>r. rtp_of d' = Some r \<longrightarrow> fm_have_rtp_ts f' \<and> fm_last_rtp_ts f' = rtp_timestamp r)"
  using st fb
  by (auto simp: framed_state_def frame_boundary_def fm_open_block_def new_block_after_def ends_block_def Let_def
      split: if_splits option.splits)

lemma frame_boundary_first:
  assumes "\<not> fm_block_open f" and fb: "frame_boundary (rtp_of d') f = (f', e)"
  shows "fm_cfg f' = fm_cfg f" "fm_extra_flags f' = fm_extra_flags f" "fm_next_seq f' = fm_next_seq f" "fm_block_open f'"
    and "e = ends_block (fc_stream_type (fm_cfg f)) d'" and "fm_block_id f' = fm_block_id f"
    and "fc_stream_type (fm_cfg f) = stream_type_kRtp \<Longrightarrow> fm_prev_was_marker f' = e
          \<and> (\<forall>r. rtp_of d' = Some r \<longrightarrow> fm_have_rtp_ts f' \<and> fm_last_rtp_ts f' = rtp_timestamp r)"
  using assms
  by (auto simp: frame_boundary_def fm_open_block_def ends_block_def Let_def split: if_splits option.splits)

text \<open>A datagram that fits is always framed.\<close>

lemma on_datagram_fits:
  assumes "length d \<le> kMaxDataPayload"
    and fb: "frame_boundary (rtp_of d) (upd_framer_stats (\<lambda>s. s\<lparr>fms_datagrams := fms_datagrams s + 1\<rparr>) f) = (f1, e)"
  obtains fr f2 where "fm_on_datagram (Some d) (length d) f = (f2, Some (fr, framer_header e f1))"
    "decode (Some (ptr_of fr)) (length fr) = Inr (PData \<lparr>dv_hdr = framer_header e f1, dv_payload = d\<rparr>)"
    "fm_cfg f2 = fm_cfg f1" "fm_extra_flags f2 = fm_extra_flags f1" "fm_next_seq f2 = fm_next_seq f1 + 1"
    "fm_block_id f2 = fm_block_id f1" "fm_block_open f2 = fm_block_open f1" "fm_prev_was_marker f2 = fm_prev_was_marker f1"
    "fm_have_rtp_ts f2 = fm_have_rtp_ts f1" "fm_last_rtp_ts f2 = fm_last_rtp_ts f1"
proof -
  have n: "unat (of_nat (length d) :: u16) = length d"
    using assms(1) by (simp add: unat_of_nat_small)
  have "encode_data (framer_header e f1) (Some d) (of_nat (length d)) (Some (kDataHeaderSize + kMaxDataPayload)) \<noteq> None"
    using assms(1) n by (simp add: encode_data_def out_ok_def null_with_len_def Let_def)
  then obtain fr where fr: "encode_data (framer_header e f1) (Some d) (of_nat (length d)) (Some (kDataHeaderSize + kMaxDataPayload)) = Some fr"
    by blast
  moreover have "decode (Some (ptr_of fr)) (length fr) = Inr (PData \<lparr>dv_hdr = framer_header e f1, dv_payload = d\<rparr>)"
    using roundtrip_data [of d "of_nat (length d)" "framer_header e f1" "Some (kDataHeaderSize + kMaxDataPayload)"] fr n assms(1)
    by (simp add: roundtrips_def)
  ultimately show thesis
    using assms
    by (intro that [of "upd_framer_stats (\<lambda>s. s\<lparr>fms_frames := fms_frames s + 1\<rparr>) (f1\<lparr>fm_next_seq := fm_next_seq f1 + 1\<rparr>)" fr])
      (simp_all add: fm_on_datagram_def Let_def)
qed

lemma framer_header_fields [simp]:
  "seq_no (framer_header e f) = fm_next_seq f" "block_id (framer_header e f) = fm_block_id f"
  "data_flags (framer_header e f) = (if e then kEndOfBlock else 0) OR fm_extra_flags f"
  by (simp_all add: framer_header_def)

lemma oversize_dropped:
  assumes "kMaxDataPayload < length d"
  shows "fm_on_datagram (Some d) (length d) f =
    (upd_framer_stats (\<lambda>s. s\<lparr>fms_datagrams := fms_datagrams s + 1, fms_oversize_ingress := fms_oversize_ingress s + 1\<rparr>) f, None)"
  using assms by (simp add: fm_on_datagram_def Let_def)

lemma framer_run_from:
  assumes "framed_state cfg extra d h f"
  shows "successively (framed_after (fc_stream_type cfg)) ((d, fr, h) # framer_run ds f)
    \<and> (\<forall>x\<in>set (framer_run ds f). carries_datagram (fc_stream_type cfg) extra x)"
  using assms
proof (induction ds arbitrary: d h fr f)
  case (Cons d' ds)
  show ?case
  proof (cases "length d' \<le> kMaxDataPayload")
    case True
    let ?f0 = "upd_framer_stats (\<lambda>s. s\<lparr>fms_datagrams := fms_datagrams s + 1\<rparr>) f"
    obtain f1 e where fb: "frame_boundary (rtp_of d') ?f0 = (f1, e)"
      by fastforce
    have "framed_state cfg extra d h ?f0"
      using Cons.prems by (simp add: framed_state_def)
    note N = frame_boundary_next [OF this fb]
    obtain fr' f2 where run: "fm_on_datagram (Some d') (length d') f = (f2, Some (fr', framer_header e f1))"
      and dec: "decode (Some (ptr_of fr')) (length fr') = Inr (PData \<lparr>dv_hdr = framer_header e f1, dv_payload = d'\<rparr>)"
      and f2: "fm_cfg f2 = fm_cfg f1" "fm_extra_flags f2 = fm_extra_flags f1" "fm_next_seq f2 = fm_next_seq f1 + 1"
        "fm_block_id f2 = fm_block_id f1" "fm_block_open f2 = fm_block_open f1" "fm_prev_was_marker f2 = fm_prev_was_marker f1"
        "fm_have_rtp_ts f2 = fm_have_rtp_ts f1" "fm_last_rtp_ts f2 = fm_last_rtp_ts f1"
      by (rule on_datagram_fits [OF True fb])
    have "framed_state cfg extra d' (framer_header e f1) f2"
      using N f2 by (simp add: framed_state_def)
    note IH = Cons.IH [OF this, of fr']
    have "framed_after (fc_stream_type cfg) (d, fr, h) (d', fr', framer_header e f1)"
      using N Cons.prems by (simp add: framed_state_def)
    moreover have "carries_datagram (fc_stream_type cfg) extra (d', fr', framer_header e f1)"
      using N dec by simp
    ultimately show ?thesis
      using IH by (simp add: run del: framed_after.simps carries_datagram.simps)
  next
    case False
    let ?f = "upd_framer_stats (\<lambda>s. s\<lparr>fms_datagrams := fms_datagrams s + 1, fms_oversize_ingress := fms_oversize_ingress s + 1\<rparr>) f"
    have "framed_state cfg extra d h ?f"
      using Cons.prems by (simp add: framed_state_def)
    then show ?thesis
      using Cons.IH [of d h ?f fr] False by (simp add: oversize_dropped)
  qed
qed simp

lemma framer_run_start:
  assumes "\<not> fm_block_open f" and "fm_cfg f = cfg" and "fm_extra_flags f = extra"
  shows "successively (framed_after (fc_stream_type cfg)) (framer_run ds f)
    \<and> (\<forall>x\<in>set (framer_run ds f). carries_datagram (fc_stream_type cfg) extra x)"
  using assms
proof (induction ds arbitrary: f)
  case (Cons d' ds)
  show ?case
  proof (cases "length d' \<le> kMaxDataPayload")
    case True
    let ?f0 = "upd_framer_stats (\<lambda>s. s\<lparr>fms_datagrams := fms_datagrams s + 1\<rparr>) f"
    obtain f1 e where fb: "frame_boundary (rtp_of d') ?f0 = (f1, e)"
      by fastforce
    have "\<not> fm_block_open ?f0"
      using Cons.prems by simp
    note N = frame_boundary_first [OF this fb]
    obtain fr' f2 where run: "fm_on_datagram (Some d') (length d') f = (f2, Some (fr', framer_header e f1))"
      and dec: "decode (Some (ptr_of fr')) (length fr') = Inr (PData \<lparr>dv_hdr = framer_header e f1, dv_payload = d'\<rparr>)"
      and f2: "fm_cfg f2 = fm_cfg f1" "fm_extra_flags f2 = fm_extra_flags f1" "fm_next_seq f2 = fm_next_seq f1 + 1"
        "fm_block_id f2 = fm_block_id f1" "fm_block_open f2 = fm_block_open f1" "fm_prev_was_marker f2 = fm_prev_was_marker f1"
        "fm_have_rtp_ts f2 = fm_have_rtp_ts f1" "fm_last_rtp_ts f2 = fm_last_rtp_ts f1"
      by (rule on_datagram_fits [OF True fb])
    have "framed_state cfg extra d' (framer_header e f1) f2"
      using N f2 Cons.prems by (simp add: framed_state_def)
    note R = framer_run_from [OF this, of fr' ds]
    moreover have "carries_datagram (fc_stream_type cfg) extra (d', fr', framer_header e f1)"
      using N dec Cons.prems by simp
    ultimately show ?thesis
      by (simp add: run del: framed_after.simps carries_datagram.simps)
  next
    case False
    then show ?thesis
      using Cons.IH [of "upd_framer_stats (\<lambda>s. s\<lparr>fms_datagrams := fms_datagrams s + 1, fms_oversize_ingress := fms_oversize_ingress s + 1\<rparr>) f"]
        Cons.prems by (simp add: oversize_dropped)
  qed
qed simp

lemma framer_run_datagrams: "map fst (framer_run ds f) = filter (\<lambda>d. length d \<le> kMaxDataPayload) ds"
proof (induction ds arbitrary: f)
  case (Cons d ds)
  show ?case
  proof (cases "length d \<le> kMaxDataPayload")
    case True
    obtain f1 e where fb: "frame_boundary (rtp_of d) (upd_framer_stats (\<lambda>s. s\<lparr>fms_datagrams := fms_datagrams s + 1\<rparr>) f) = (f1, e)"
      by fastforce
    show ?thesis
      by (rule on_datagram_fits [OF True fb]) (simp add: Cons.IH True)
  qed (simp add: oversize_dropped Cons.IH)
qed simp

text \<open>C37: The datagram framer, from the start, frames exactly the datagrams that fit, in order and
  with consecutive sequence numbers, and each packet decodes to its datagram. On an RTP stream
  the block number advances by one from a framed datagram to the next exactly when the earlier
  one has the marker or does not parse, or both parse and their timestamps differ; on other
  streams it advances at every datagram. END_OF_BLOCK is set exactly on the packets whose
  datagram has the marker or does not parse (on other streams on every packet), so a block that
  only a moved timestamp closes carries none.\<close>

theorem framer_numbers_and_blocks:
  "successively (framed_after (fc_stream_type cfg)) (framer_run ds (new_rtp_framer cfg))
   \<and> list_all (carries_datagram (fc_stream_type cfg) 0) (framer_run ds (new_rtp_framer cfg))
   \<and> map fst (framer_run ds (new_rtp_framer cfg)) = filter (\<lambda>d. length d \<le> kMaxDataPayload) ds"
  using framer_run_start [of "new_rtp_framer cfg" cfg 0 ds] framer_run_datagrams [of ds "new_rtp_framer cfg"]
  by (simp add: list_all_iff) (simp add: new_rtp_framer_def)

text \<open>A datagram that is not RTP on an RTP stream joins the block that is still open: only a
  marker, or a moved timestamp that it does not have, would close that block first.\<close>

lemma unparseable_joins_open_block:
  assumes "rtp_of d = Some r" and "\<not> rtp_marker r" and "rtp_of junk = None"
  shows "\<not> new_block_after stream_type_kRtp d junk"
  using assms by (simp add: new_block_after_def)

end
