(* ===== verification/Jscc_Controller.thy ===== *)
theory Jscc_Controller
  imports Wire_Types
begin

text \<open>
  core/include/wblink/jscc_controller.h, core/src/jscc_controller.cpp,
  core/include/wblink/jscc_runtime_shadow.h and core/src/jscc_runtime_shadow.cpp: how much parity a
  frame gets within its deadline, and the shadow that feeds the decision from the receiver's feedback.
\<close>

section \<open>The decision for one frame\<close>

datatype JsccReason = jr_kDeadlineUnreachable | jr_kFecCapacityLimited | jr_kFecOnly | jr_kUnprotected

record JsccInnerInput =
  ji_source_k :: u16
  ji_predicted_loss_symbols :: u16
  ji_fec_floor_symbols :: u16
  ji_fec_cap_symbols :: u16
  ji_deadline_us :: u32
  ji_elapsed_us :: u32
  ji_source_tx_remaining_us :: u32

record JsccInnerDecision =
  jd_parity_symbols :: u16
  jd_remaining_after_source_us :: u32
  jd_discard :: bool
  jd_fec_capacity_limited :: bool
  jd_reason :: JsccReason

definition no_decision :: JsccInnerDecision where
  "no_decision = \<lparr>jd_parity_symbols = 0, jd_remaining_after_source_us = 0, jd_discard = False,
     jd_fec_capacity_limited = False, jd_reason = jr_kUnprotected\<rparr>"

definition jscc_inner_decide :: "JsccInnerInput \<Rightarrow> JsccInnerDecision" where
  "jscc_inner_decide i =
     (let source_done = (ucast (ji_elapsed_us i) :: u64) + ucast (ji_source_tx_remaining_us i)
      in if ucast (ji_deadline_us i) < source_done
         then no_decision\<lparr>jd_discard := True, jd_reason := jr_kDeadlineUnreachable\<rparr>
         else (let desired = max (ji_predicted_loss_symbols i) (ji_fec_floor_symbols i);
                   gf_cap = (if unat (ji_source_k i) \<le> kFecMaxSymbols then of_nat kFecMaxSymbols - ji_source_k i else 0);
                   cap = min (ji_fec_cap_symbols i) gf_cap;
                   parity = min desired cap;
                   limited = (cap < desired)
               in \<lparr>jd_parity_symbols = parity,
                   jd_remaining_after_source_us = ucast ((ucast (ji_deadline_us i) :: u64) - source_done),
                   jd_discard = False, jd_fec_capacity_limited = limited,
                   jd_reason = (if limited then jr_kFecCapacityLimited
                                else if 0 < parity then jr_kFecOnly else jr_kUnprotected)\<rparr>))"

section \<open>The runtime shadow\<close>

record JsccRuntimeShadowConfig =
  jc_fec_floor_permille :: u16
  jc_fec_cap_permille :: u16
  jc_feedback_timeout_ms :: u32

datatype JsccShadowFallback = jf_kNone | jf_kFeedbackMissing | jf_kFeedbackStale | jf_kRepairNotReady
  | jf_kAirtimeUnavailable | jf_kDeadlineUnavailable

record JsccShadowFrameInput =
  jx_source_k :: u16
  jx_deadline_us :: u32
  jx_source_tx_remaining_us :: "u32 option"
  jx_now_ms :: u64

record JsccShadowResult =
  jo_valid :: bool
  jo_fallback :: JsccShadowFallback
  jo_feedback_epoch :: u32
  jo_feedback_age_ms :: u32
  jo_input :: JsccInnerInput
  jo_decision :: JsccInnerDecision

record JsccRuntimeShadow =
  js_cfg :: JsccRuntimeShadowConfig
  js_feedback :: "jscc_feedback option"
  js_feedback_at_ms :: u64

definition new_jscc_shadow :: "JsccRuntimeShadowConfig \<Rightarrow> JsccRuntimeShadow" where
  "new_jscc_shadow cfg = \<lparr>js_cfg = cfg, js_feedback = None, js_feedback_at_ms = 0\<rparr>"

text \<open>\<open>static_cast<int32_t>(next - previous) > 0\<close>.\<close>

definition forward_u32 :: "u32 \<Rightarrow> u32 \<Rightarrow> bool" where
  "forward_u32 nxt prev = (0 < sint (nxt - prev))"

definition rate_symbols :: "u16 \<Rightarrow> u16 \<Rightarrow> u16" where
  "rate_symbols rate k = ucast (min (0xFFFF :: u32) ((ucast rate * ucast k + 999) div 1000))"

definition observe_feedback :: "jscc_feedback \<Rightarrow> u64 \<Rightarrow> JsccRuntimeShadow \<Rightarrow> JsccRuntimeShadow \<times> bool" where
  "observe_feedback fb now_ms s =
     (if (case js_feedback s of
            None \<Rightarrow> False
          | Some f \<Rightarrow> originator (jf_prefix fb) = originator (jf_prefix f) \<and> session_id (jf_prefix fb) = session_id (jf_prefix f)
                      \<and> \<not> forward_u32 (jf_feedback_epoch fb) (jf_feedback_epoch f))
      then (s, False)
      else (s\<lparr>js_feedback := Some fb, js_feedback_at_ms := now_ms\<rparr>, True))"

definition zero_jscc_input :: JsccInnerInput where
  "zero_jscc_input = \<lparr>ji_source_k = 0, ji_predicted_loss_symbols = 0, ji_fec_floor_symbols = 0, ji_fec_cap_symbols = 0,
     ji_deadline_us = 0, ji_elapsed_us = 0, ji_source_tx_remaining_us = 0\<rparr>"

definition shadow_input :: "JsccRuntimeShadowConfig \<Rightarrow> jscc_feedback \<Rightarrow> JsccShadowFrameInput \<Rightarrow> u32 \<Rightarrow> JsccInnerInput" where
  "shadow_input cfg f x remaining =
     zero_jscc_input\<lparr>ji_source_k := jx_source_k x,
       ji_predicted_loss_symbols := rate_symbols (jf_repair_demand_permille f) (jx_source_k x),
       ji_fec_floor_symbols := rate_symbols (jc_fec_floor_permille cfg) (jx_source_k x),
       ji_fec_cap_symbols := rate_symbols (jc_fec_cap_permille cfg) (jx_source_k x),
       ji_deadline_us := jx_deadline_us x, ji_source_tx_remaining_us := remaining\<rparr>"

definition shadow_evaluate :: "JsccShadowFrameInput \<Rightarrow> JsccRuntimeShadow \<Rightarrow> JsccShadowResult" where
  "shadow_evaluate x s =
     (let none = \<lparr>jo_valid = False, jo_fallback = jf_kFeedbackMissing, jo_feedback_epoch = 0, jo_feedback_age_ms = 0,
                  jo_input = zero_jscc_input, jo_decision = no_decision\<rparr>
      in case js_feedback s of
           None \<Rightarrow> none
         | Some f \<Rightarrow>
             (let age = (ucast (min (0xFFFFFFFF :: u64) (if js_feedback_at_ms s \<le> jx_now_ms x then jx_now_ms x - js_feedback_at_ms s else 0)) :: u32);
                  out = none\<lparr>jo_feedback_epoch := jf_feedback_epoch f, jo_feedback_age_ms := age\<rparr>
              in if jx_now_ms x < js_feedback_at_ms s \<or> jc_feedback_timeout_ms (js_cfg s) < age
                 then out\<lparr>jo_fallback := jf_kFeedbackStale\<rparr>
                 else if jf_valid_flags f AND 0x01 = 0 then out\<lparr>jo_fallback := jf_kRepairNotReady\<rparr>
                 else case jx_source_tx_remaining_us x of
                        None \<Rightarrow> out\<lparr>jo_fallback := jf_kAirtimeUnavailable\<rparr>
                      | Some remaining \<Rightarrow>
                          if jx_deadline_us x = 0 then out\<lparr>jo_fallback := jf_kDeadlineUnavailable\<rparr>
                          else (let i = shadow_input (js_cfg s) f x remaining
                                in out\<lparr>jo_input := i, jo_decision := jscc_inner_decide i, jo_valid := True, jo_fallback := jf_kNone\<rparr>)))"

definition shadow_reset :: "JsccRuntimeShadow \<Rightarrow> JsccRuntimeShadow" where
  "shadow_reset s = s\<lparr>js_feedback := None, js_feedback_at_ms := 0\<rparr>"

section \<open>The decision is within the code and the deadline\<close>

lemma decide_discard_iff:
  "jd_discard (jscc_inner_decide i) \<longleftrightarrow> unat (ji_deadline_us i) < unat (ji_elapsed_us i) + unat (ji_source_tx_remaining_us i)"
proof -
  have "unat (ji_elapsed_us i) < 2 ^ LENGTH(32)" "unat (ji_source_tx_remaining_us i) < 2 ^ LENGTH(32)"
    by (rule unsigned_less)+
  then have "unat ((ucast (ji_elapsed_us i) :: u64) + ucast (ji_source_tx_remaining_us i))
      = unat (ji_elapsed_us i) + unat (ji_source_tx_remaining_us i)"
    by (simp add: unat_word_ariths)
  then show ?thesis
    by (simp add: jscc_inner_decide_def Let_def no_decision_def word_less_nat_alt)
qed

lemma decide_parity_fits:
  assumes "unat (ji_source_k i) \<le> kFecMaxSymbols"
  shows "unat (ji_source_k i) + unat (jd_parity_symbols (jscc_inner_decide i)) \<le> kFecMaxSymbols"
    and "jd_parity_symbols (jscc_inner_decide i) \<le> ji_fec_cap_symbols i"
proof -
  define gf :: u16 where "gf = 256 - ji_source_k i"
  have gf: "unat gf = 256 - unat (ji_source_k i)"
    using assms by (simp add: gf_def unat_diff_le word_le_nat_alt)
  have eq: "jd_parity_symbols (jscc_inner_decide i) =
      (if jd_discard (jscc_inner_decide i) then 0
       else min (max (ji_predicted_loss_symbols i) (ji_fec_floor_symbols i)) (min (ji_fec_cap_symbols i) gf))"
    using assms by (simp add: jscc_inner_decide_def Let_def no_decision_def gf_def)
  then have "jd_parity_symbols (jscc_inner_decide i) \<le> gf"
    by (simp add: min.coboundedI2)
  then show "unat (ji_source_k i) + unat (jd_parity_symbols (jscc_inner_decide i)) \<le> kFecMaxSymbols"
    using gf assms by (simp add: word_le_nat_alt)
  show "jd_parity_symbols (jscc_inner_decide i) \<le> ji_fec_cap_symbols i"
    unfolding eq by (simp add: min.coboundedI1 min.coboundedI2)
qed

text \<open>A decision is taken only on fresh feedback that says the repair estimate is ready.\<close>

lemma shadow_valid_only_fresh:
  assumes "jo_valid (shadow_evaluate x s)"
  obtains f remaining where "js_feedback s = Some f" "js_feedback_at_ms s \<le> jx_now_ms x" "jf_valid_flags f AND 0x01 \<noteq> 0"
    "jx_source_tx_remaining_us x = Some remaining" "jx_deadline_us x \<noteq> 0"
    "jo_decision (shadow_evaluate x s) = jscc_inner_decide (shadow_input (js_cfg s) f x remaining)"
  using assms that
  by (auto simp: shadow_evaluate_def Let_def not_less split: option.splits if_splits)

text \<open>A valid evaluation rests on feedback that is not from the future, never asks for more parity
  than the field or the cap allows, and discards exactly when the deadline cannot be met.\<close>

theorem jscc_decision_sound:
  assumes "jo_valid (shadow_evaluate x s)" and "unat (jx_source_k x) \<le> kFecMaxSymbols"
  shows "js_feedback_at_ms s \<le> jx_now_ms x
    \<and> unat (jx_source_k x) + unat (jd_parity_symbols (jo_decision (shadow_evaluate x s))) \<le> kFecMaxSymbols
    \<and> jd_parity_symbols (jo_decision (shadow_evaluate x s)) \<le> rate_symbols (jc_fec_cap_permille (js_cfg s)) (jx_source_k x)
    \<and> (jd_discard (jo_decision (shadow_evaluate x s)) \<longleftrightarrow>
         (\<exists>remaining. jx_source_tx_remaining_us x = Some remaining \<and> unat (jx_deadline_us x) < unat remaining))"
  using assms(1)
proof (rule shadow_valid_only_fresh)
  fix f remaining
  assume A: "js_feedback s = Some f" "js_feedback_at_ms s \<le> jx_now_ms x" "jx_source_tx_remaining_us x = Some remaining"
    "jo_decision (shadow_evaluate x s) = jscc_inner_decide (shadow_input (js_cfg s) f x remaining)"
  have i: "ji_source_k (shadow_input (js_cfg s) f x remaining) = jx_source_k x" "ji_elapsed_us (shadow_input (js_cfg s) f x remaining) = 0"
    "ji_source_tx_remaining_us (shadow_input (js_cfg s) f x remaining) = remaining" "ji_deadline_us (shadow_input (js_cfg s) f x remaining) = jx_deadline_us x"
    "ji_fec_cap_symbols (shadow_input (js_cfg s) f x remaining) = rate_symbols (jc_fec_cap_permille (js_cfg s)) (jx_source_k x)"
    by (simp_all add: shadow_input_def zero_jscc_input_def)
  show ?thesis
    using A(2,3) assms(2) decide_parity_fits [of "shadow_input (js_cfg s) f x remaining"]
    by (simp add: A(4) i decide_discard_iff)
qed

end
