(* ===== verification/Fps_Ladder.thy ===== *)
theory Fps_Ladder
  imports Selector
begin

text \<open>
  core/include/wblink/fps_ladder.h: the frame-rate ladder. It steps the encoder's frame rate down
  when its frames stay small and up again when they would stay large enough. The smoothed frame
  size is a \<open>double\<close>; its operations are the argument \<open>fp\<close>, as in the rate selector.
\<close>

section \<open>The ladder\<close>

definition kFpsLadder :: "u16 list" where
  "kFpsLadder = [30, 45, 60, 75, 90, 100, 120, 144]"

definition snap_frame_period_us :: "u64 \<Rightarrow> u32" where
  "snap_frame_period_us measured_us =
     (if measured_us = 0 then 0
      else fst (fold (\<lambda>fps (best, best_diff).
                        let period = 1000000 div (ucast fps :: u32);
                            diff = (if measured_us < ucast period then ucast period - measured_us else measured_us - ucast period)
                        in if diff < best_diff then (period, diff) else (best, best_diff))
                  kFpsLadder (0, 0xFFFFFFFFFFFFFFFF :: u64)))"

definition fps_ladder_member :: "u16 \<Rightarrow> bool" where
  "fps_ladder_member fps = list_ex (\<lambda>f. f = fps) kFpsLadder"

record FpsLadderPolicy =
  fl_min_fps :: u16
  fl_preferred_fps :: u16
  fl_min_p_frame_bytes :: u32
  fl_restore_hysteresis_bytes :: u32
  fl_sample_timeout_ms :: u32
  fl_reduce_after_ms :: u32
  fl_reduce_dwell_ms :: u32
  fl_restore_after_ms :: u32
  fl_settle_ms :: u32

datatype FpsState = fst_INIT | fst_SETTLE | fst_ACTUATOR_SETTLE | fst_STALE | fst_FLOOR | fst_REDUCE_WAIT | fst_HOLD | fst_RESTORE_WAIT

record 'd FpsLadder =
  lad_p :: FpsLadderPolicy
  lad_started :: bool
  lad_current :: u16
  lad_ewma_bytes :: 'd
  lad_have_sample :: bool
  lad_last_sample_ms :: u64
  lad_last_change_ms :: u64
  lad_settle_until_ms :: u64
  lad_reduce_since_ms :: u64
  lad_restore_since_ms :: u64
  lad_state :: FpsState

text \<open>The constants 0.7, 0.3 and 0.5 of the code, as quotients.\<close>

definition fp_frac :: "'d fp \<Rightarrow> int \<Rightarrow> int \<Rightarrow> 'd" where
  "fp_frac F a b = fp_div F (fp_of_int F a) (fp_of_int F b)"

definition new_fps_ladder :: "'d fp \<Rightarrow> FpsLadderPolicy \<Rightarrow> 'd FpsLadder" where
  "new_fps_ladder F p = \<lparr>lad_p = p, lad_started = False, lad_current = 0, lad_ewma_bytes = fp_of_int F 0, lad_have_sample = False,
     lad_last_sample_ms = 0, lad_last_change_ms = 0, lad_settle_until_ms = 0, lad_reduce_since_ms = 0, lad_restore_since_ms = 0,
     lad_state = fst_INIT\<rparr>"

definition note_p_frame :: "'d fp \<Rightarrow> u32 \<Rightarrow> u64 \<Rightarrow> 'd FpsLadder \<Rightarrow> 'd FpsLadder" where
  "note_p_frame F n now_ms l =
     (if n = 0 then l
      else l\<lparr>lad_ewma_bytes := (if lad_have_sample l
                 then fp_add F (fp_mul F (fp_frac F 7 10) (lad_ewma_bytes l)) (fp_mul F (fp_frac F 3 10) (fp_of_int F (uint n)))
                 else fp_of_int F (uint n)),
             lad_have_sample := True, lad_last_sample_ms := now_ms\<rparr>)"

definition clear_evidence :: "'d FpsLadder \<Rightarrow> 'd FpsLadder" where
  "clear_evidence l = l\<lparr>lad_reduce_since_ms := 0, lad_restore_since_ms := 0\<rparr>"

text \<open>The neighbouring rung, inside the configured range.\<close>

definition ladder_step :: "int \<Rightarrow> 'd FpsLadder \<Rightarrow> u16" where
  "ladder_step dir l =
     (case find (\<lambda>i. kFpsLadder ! i = lad_current l) [0..<length kFpsLadder] of
        None \<Rightarrow> lad_current l
      | Some i \<Rightarrow>
          (let j = int i + dir
           in if j < 0 \<or> int (length kFpsLadder) \<le> j then lad_current l
              else (let f = kFpsLadder ! nat j
                    in if fl_min_fps (lad_p l) \<le> f \<and> f \<le> fl_preferred_fps (lad_p l) then f else lad_current l)))"

definition ladder_commit :: "'d fp \<Rightarrow> u16 \<Rightarrow> u64 \<Rightarrow> 'd FpsLadder \<Rightarrow> 'd FpsLadder" where
  "ladder_commit F fps now_ms l =
     (clear_evidence (l\<lparr>lad_current := fps, lad_last_change_ms := now_ms,
        lad_settle_until_ms := now_ms + ucast (fl_settle_ms (lad_p l))\<rparr>))
       \<lparr>lad_have_sample := False, lad_ewma_bytes := fp_of_int F 0, lad_last_sample_ms := 0, lad_state := fst_SETTLE\<rparr>"

definition tick_reduce :: "'d fp \<Rightarrow> u64 \<Rightarrow> 'd FpsLadder \<Rightarrow> 'd FpsLadder \<times> u16 option" where
  "tick_reduce F now_ms l =
     (let l = l\<lparr>lad_restore_since_ms := 0\<rparr>; down = ladder_step (-1) l
      in if down = lad_current l then (l\<lparr>lad_reduce_since_ms := 0, lad_state := fst_FLOOR\<rparr>, None)
         else (let l = (if lad_reduce_since_ms l = 0 then l\<lparr>lad_reduce_since_ms := now_ms\<rparr> else l)\<lparr>lad_state := fst_REDUCE_WAIT\<rparr>
               in if ucast (fl_reduce_after_ms (lad_p l)) \<le> now_ms - lad_reduce_since_ms l
                     \<and> ucast (fl_reduce_dwell_ms (lad_p l)) \<le> now_ms - lad_last_change_ms l
                  then (ladder_commit F down now_ms l, Some down) else (l, None)))"

definition tick_restore :: "'d fp \<Rightarrow> u64 \<Rightarrow> 'd FpsLadder \<Rightarrow> 'd FpsLadder \<times> u16 option" where
  "tick_restore F now_ms l =
     (let l = l\<lparr>lad_reduce_since_ms := 0\<rparr>; up = ladder_step 1 l
      in if up = lad_current l then (l\<lparr>lad_restore_since_ms := 0, lad_state := fst_HOLD\<rparr>, None)
         else (let predicted_up = fp_div F (fp_mul F (lad_ewma_bytes l) (fp_of_int F (uint (lad_current l)))) (fp_of_int F (uint up));
                   restore_floor = (ucast (fl_min_p_frame_bytes (lad_p l)) :: u64) + ucast (fl_restore_hysteresis_bytes (lad_p l))
               in if fp_le F (fp_of_int F (uint restore_floor)) predicted_up
                  then (let l = (if lad_restore_since_ms l = 0 then l\<lparr>lad_restore_since_ms := now_ms\<rparr> else l)\<lparr>lad_state := fst_RESTORE_WAIT\<rparr>
                        in if ucast (fl_restore_after_ms (lad_p l)) \<le> now_ms - lad_restore_since_ms l
                           then (ladder_commit F up now_ms l, Some up) else (l, None))
                  else (l\<lparr>lad_restore_since_ms := 0, lad_state := fst_HOLD\<rparr>, None)))"

definition ladder_tick :: "'d fp \<Rightarrow> u64 \<Rightarrow> bool \<Rightarrow> 'd FpsLadder \<Rightarrow> 'd FpsLadder \<times> u16 option" where
  "ladder_tick F now_ms actuator_settling l =
     (if \<not> lad_started l
      then (l\<lparr>lad_started := True, lad_current := fl_preferred_fps (lad_p l),
              lad_settle_until_ms := now_ms + ucast (fl_settle_ms (lad_p l)), lad_last_change_ms := now_ms, lad_state := fst_SETTLE\<rparr>,
            Some (fl_preferred_fps (lad_p l)))
      else if actuator_settling then ((clear_evidence l)\<lparr>lad_state := fst_ACTUATOR_SETTLE\<rparr>, None)
      else if now_ms < lad_settle_until_ms l then (l\<lparr>lad_state := fst_SETTLE\<rparr>, None)
      else if \<not> lad_have_sample l \<or> ucast (fl_sample_timeout_ms (lad_p l)) < now_ms - lad_last_sample_ms l
      then ((clear_evidence l)\<lparr>lad_state := fst_STALE\<rparr>, None)
      else if fp_lt F (lad_ewma_bytes l) (fp_of_int F (uint (fl_min_p_frame_bytes (lad_p l)))) then tick_reduce F now_ms l
      else tick_restore F now_ms l)"

definition ladder_resume :: "'d fp \<Rightarrow> u64 \<Rightarrow> 'd FpsLadder \<Rightarrow> 'd FpsLadder" where
  "ladder_resume F now_ms l =
     (clear_evidence (l\<lparr>lad_settle_until_ms := now_ms + ucast (fl_settle_ms (lad_p l))\<rparr>))
       \<lparr>lad_have_sample := False, lad_ewma_bytes := fp_of_int F 0, lad_last_sample_ms := 0, lad_state := fst_SETTLE\<rparr>"

definition note_external_fps :: "u16 \<Rightarrow> 'd FpsLadder \<Rightarrow> 'd FpsLadder" where
  "note_external_fps fps l = l\<lparr>lad_current := fps\<rparr>"

definition observed_p_frame_bytes :: "'d fp \<Rightarrow> 'd FpsLadder \<Rightarrow> u32" where
  "observed_p_frame_bytes F l =
     (if lad_have_sample l then word_of_int (fp_trunc F (fp_add F (lad_ewma_bytes l) (fp_frac F 1 2))) else 0)"

section \<open>Commands stay on the ladder and move one rung at a time\<close>

datatype FpsEvent = FpsFrame u32 u64 | FpsTick u64 bool | FpsResume u64

fun fps_event :: "'d fp \<Rightarrow> FpsEvent \<Rightarrow> 'd FpsLadder \<Rightarrow> 'd FpsLadder \<times> u16 option" where
  "fps_event F (FpsFrame n now) l = (note_p_frame F n now l, None)"
| "fps_event F (FpsTick now settling) l = ladder_tick F now settling l"
| "fps_event F (FpsResume now) l = (ladder_resume F now l, None)"

fun fps_commands :: "'d fp \<Rightarrow> FpsEvent list \<Rightarrow> 'd FpsLadder \<Rightarrow> u16 list" where
  "fps_commands F [] l = []"
| "fps_commands F (e # es) l =
     (case fps_event F e l of (l, cmd) \<Rightarrow> (case cmd of None \<Rightarrow> [] | Some f \<Rightarrow> [f]) @ fps_commands F es l)"

definition neighbours :: "u16 \<Rightarrow> u16 \<Rightarrow> bool" where
  "neighbours a b \<longleftrightarrow> (\<exists>i. Suc i < length kFpsLadder \<and> (a = kFpsLadder ! i \<and> b = kFpsLadder ! Suc i \<or> b = kFpsLadder ! i \<and> a = kFpsLadder ! Suc i))"

lemma ladder_step_ok:
  assumes "ladder_step dir l \<noteq> lad_current l" and "dir = 1 \<or> dir = -1"
  shows "neighbours (lad_current l) (ladder_step dir l)" and "fl_min_fps (lad_p l) \<le> ladder_step dir l"
    and "ladder_step dir l \<le> fl_preferred_fps (lad_p l)"
proof -
  obtain i where f: "find (\<lambda>i. kFpsLadder ! i = lad_current l) [0..<length kFpsLadder] = Some i"
    using assms(1) by (auto simp: ladder_step_def split: option.splits)
  then have i: "i < length kFpsLadder" "kFpsLadder ! i = lad_current l"
    by (auto simp: find_Some_iff)
  define j where "j = int i + dir"
  have st: "0 \<le> j" "j < int (length kFpsLadder)" "ladder_step dir l = kFpsLadder ! nat j"
    "fl_min_fps (lad_p l) \<le> kFpsLadder ! nat j" "kFpsLadder ! nat j \<le> fl_preferred_fps (lad_p l)"
    using assms(1) f by (auto simp: ladder_step_def j_def Let_def split: if_splits)
  then show "fl_min_fps (lad_p l) \<le> ladder_step dir l" "ladder_step dir l \<le> fl_preferred_fps (lad_p l)"
    by simp_all
  show "neighbours (lad_current l) (ladder_step dir l)"
  proof (cases "dir = 1")
    case True
    then have "nat j = Suc i"
      by (simp add: j_def)
    then show ?thesis
      using st i by (auto simp: neighbours_def intro!: exI [of _ i])
  next
    case False
    then have "Suc (nat j) = i"
      using assms(2) st(1) by (simp add: j_def)
    then show ?thesis
      using st i by (auto simp: neighbours_def intro!: exI [of _ "nat j"])
  qed
qed

text \<open>What an event may do to a running ladder.\<close>

definition lawful_command :: "'d FpsLadder \<Rightarrow> 'd FpsLadder \<times> u16 option \<Rightarrow> bool" where
  "lawful_command l r \<longleftrightarrow> lad_started (fst r) = lad_started l \<and> lad_p (fst r) = lad_p l
    \<and> (case snd r of None \<Rightarrow> lad_current (fst r) = lad_current l
        | Some f \<Rightarrow> lad_current (fst r) = f \<and> neighbours (lad_current l) f \<and> fl_min_fps (lad_p l) \<le> f \<and> f \<le> fl_preferred_fps (lad_p l))"

lemma ladder_step_cong:
  assumes "lad_current l = lad_current l'" and "lad_p l = lad_p l'"
  shows "ladder_step dir l = ladder_step dir l'"
  unfolding ladder_step_def assms ..

lemma tick_reduce_lawful: "lawful_command l (tick_reduce F now l)"
proof -
  have st: "ladder_step (-1) (l\<lparr>lad_restore_since_ms := 0\<rparr>) = ladder_step (-1) l"
    by (rule ladder_step_cong) simp_all
  show ?thesis
    using ladder_step_ok [of "-1" l]
    by (auto simp: tick_reduce_def Let_def st lawful_command_def ladder_commit_def clear_evidence_def)
qed

lemma tick_restore_lawful: "lawful_command l (tick_restore F now l)"
proof -
  have st: "ladder_step 1 (l\<lparr>lad_reduce_since_ms := 0\<rparr>) = ladder_step 1 l"
    by (rule ladder_step_cong) simp_all
  show ?thesis
    using ladder_step_ok [of 1 l]
    by (auto simp: tick_restore_def Let_def st lawful_command_def ladder_commit_def clear_evidence_def)
qed

lemma fps_event_lawful:
  assumes "lad_started l"
  shows "lawful_command l (fps_event F e l)"
proof (cases e)
  case (FpsTick now settling)
  then show ?thesis
    using assms tick_reduce_lawful [of l F now] tick_restore_lawful [of l F now]
    by (simp add: ladder_tick_def) (simp add: lawful_command_def clear_evidence_def)
qed (simp_all add: lawful_command_def note_p_frame_def ladder_resume_def clear_evidence_def)

definition starts_with :: "u16 \<Rightarrow> u16 list \<Rightarrow> bool" where
  "starts_with f fs = (case fs of [] \<Rightarrow> True | g # gs \<Rightarrow> g = f)"

abbreviation in_range :: "FpsLadderPolicy \<Rightarrow> u16 \<Rightarrow> bool" where
  "in_range p f \<equiv> f \<le> fl_preferred_fps p \<and> (f = fl_preferred_fps p \<or> fl_min_fps p \<le> f)"

lemma commands_running:
  assumes "lad_started l"
  shows "successively neighbours (lad_current l # fps_commands F es l) \<and> list_all (in_range (lad_p l)) (fps_commands F es l)"
  using assms
proof (induction es arbitrary: l)
  case (Cons e es)
  obtain l' cmd where ev: "fps_event F e l = (l', cmd)"
    by fastforce
  have L: "lawful_command l (l', cmd)"
    using fps_event_lawful [OF Cons.prems, of F e] by (simp add: ev)
  then have "lad_started l'"
    using Cons.prems by (simp add: lawful_command_def)
  from Cons.IH [OF this] show ?case
    using L by (cases cmd) (auto simp: ev lawful_command_def)
qed simp

lemma commands_start:
  assumes "\<not> lad_started l"
  shows "successively neighbours (fps_commands F es l) \<and> list_all (in_range (lad_p l)) (fps_commands F es l)
    \<and> starts_with (fl_preferred_fps (lad_p l)) (fps_commands F es l)"
  using assms
proof (induction es arbitrary: l)
  case (Cons e es)
  show ?case
  proof (cases e)
    case (FpsTick now settling)
    define l1 where "l1 = fst (ladder_tick F now settling l)"
    have t: "ladder_tick F now settling l = (l1, Some (fl_preferred_fps (lad_p l)))" and l1: "lad_started l1"
      "lad_current l1 = fl_preferred_fps (lad_p l)" "lad_p l1 = lad_p l"
      using Cons.prems by (simp_all add: l1_def ladder_tick_def)
    show ?thesis
      using commands_running [OF l1(1), of F es] l1 by (simp add: FpsTick t starts_with_def)
  next
    case (FpsFrame n now)
    have "\<not> lad_started (note_p_frame F n now l)" "lad_p (note_p_frame F n now l) = lad_p l"
      using Cons.prems by (simp_all add: note_p_frame_def)
    with Cons.IH [OF this(1)] show ?thesis
      by (simp add: FpsFrame)
  next
    case (FpsResume now)
    have "\<not> lad_started (ladder_resume F now l)" "lad_p (ladder_resume F now l) = lad_p l"
      using Cons.prems by (simp_all add: ladder_resume_def clear_evidence_def)
    with Cons.IH [OF this(1)] show ?thesis
      by (simp add: FpsResume)
  qed
qed (simp add: starts_with_def)

text \<open>Every frame rate commanded after the first is a neighbour of the one before on the fixed ladder
  and within the configured range; the first is the preferred rate.\<close>

theorem fps_commands_walk_the_ladder:
  "successively neighbours (fps_commands F es (new_fps_ladder F p))
   \<and> list_all (in_range p) (fps_commands F es (new_fps_ladder F p))
   \<and> starts_with (fl_preferred_fps p) (fps_commands F es (new_fps_ladder F p))"
proof -
  have "\<not> lad_started (new_fps_ladder F p)" "lad_p (new_fps_ladder F p) = p"
    by (simp_all add: new_fps_ladder_def)
  then show ?thesis
    using commands_start [of "new_fps_ladder F p" F es] by simp
qed

end
