(* ===== verification/Power_Seek.thy ===== *)
theory Power_Seek
  imports Selector Rx_Engine
begin

text \<open>
  core/include/wblink/power.h and the shared seek of core/include/wblink/calibrate.h: the resolution
  of a transmit power from an adapter's curve, and the sweep that climbs from the lowest power to the
  loss wall and then walks back down to the least loss. Powers are quarter-dBm integers; signal
  strengths are \<open>double\<close>, as operations on an argument.
\<close>

section \<open>Power levels\<close>

definition kPowerLevelBaseline :: int where
  "kPowerLevelBaseline = 4"

definition kQdbPerLevel :: int where
  "kQdbPerLevel = 8"

record PowerCurve =
  pc_qdb :: "int list"
  pc_valid :: bool

definition resolve_power_qdb :: "PowerCurve \<Rightarrow> u8 \<Rightarrow> u8 \<Rightarrow> int option \<Rightarrow> int option" where
  "resolve_power_qdb curve mcs level max_power_qdb =
     (if \<not> pc_valid curve \<or> length (pc_qdb curve) \<le> unat mcs then None
      else (let v = pc_qdb curve ! unat mcs + (uint level - kPowerLevelBaseline) * kQdbPerLevel
            in Some (case max_power_qdb of None \<Rightarrow> v | Some m \<Rightarrow> min v m)))"

section \<open>The seek\<close>

record 'd fpr = "'d fp" +
  fp_lround :: "'d \<Rightarrow> int"

record SeekParams =
  qk_loss_ok_milli :: u16
  qk_loss_bad_milli :: u16
  qk_seek_step_qdb :: int
  qk_rssi_guard_dbm :: int
  qk_min_qdb :: int
  qk_max_qdb :: int
  qk_verify_descent_budget :: u8
  qk_no_bracket_cap_qdb :: "int option"

datatype DwellVerdict = dv_kClean | dv_kBad | dv_kNoEvidence

datatype SeekKind = sk_kProbe | sk_kVerify | sk_kDone | sk_kFailed

record SeekStep =
  ss_kind :: SeekKind
  ss_qdb :: int
  ss_power_changed :: bool
  ss_failed_no_clean_point :: bool

datatype SeekPhase = sph_kSweep | sph_kVerify

record 'd PowerSeek =
  pk_p :: SeekParams
  pk_phase :: SeekPhase
  pk_qdb :: int
  pk_last_clean :: "(int \<times> 'd) option"
  pk_verify_descents :: u8
  pk_last_clean_rssi :: int
  pk_has_bad :: bool
  pk_first_bad_rssi :: int
  pk_first_bad_qdb :: int
  pk_have_best :: bool
  pk_best_loss :: u16
  pk_best_rssi :: 'd
  pk_best_qdb :: int
  pk_placed_loss :: u16
  pk_placed_rssi :: 'd

definition new_power_seek :: "'d fpr \<Rightarrow> SeekParams \<Rightarrow> 'd PowerSeek" where
  "new_power_seek F p = \<lparr>pk_p = p, pk_phase = sph_kSweep, pk_qdb = 0, pk_last_clean = None, pk_verify_descents = 0,
     pk_last_clean_rssi = 127, pk_has_bad = False, pk_first_bad_rssi = 0, pk_first_bad_qdb = 0, pk_have_best = False,
     pk_best_loss = 0, pk_best_rssi = fp_of_int F 0, pk_best_qdb = 0, pk_placed_loss = 0, pk_placed_rssi = fp_of_int F 0\<rparr>"

abbreviation seek_step :: "SeekKind \<Rightarrow> int \<Rightarrow> bool \<Rightarrow> SeekStep" where
  "seek_step k q ch \<equiv> \<lparr>ss_kind = k, ss_qdb = q, ss_power_changed = ch, ss_failed_no_clean_point = False\<rparr>"

definition seek_begin :: "'d fpr \<Rightarrow> int \<Rightarrow> 'd PowerSeek \<Rightarrow> 'd PowerSeek \<times> SeekStep" where
  "seek_begin F max_qdb s =
     (let p = (pk_p s)\<lparr>qk_max_qdb := max (qk_min_qdb (pk_p s)) max_qdb\<rparr>
      in (\<lparr>pk_p = p, pk_phase = sph_kSweep, pk_qdb = qk_min_qdb p, pk_last_clean = None, pk_verify_descents = 0,
           pk_last_clean_rssi = 127, pk_has_bad = False, pk_first_bad_rssi = 0, pk_first_bad_qdb = 0, pk_have_best = False,
           pk_best_loss = 0, pk_best_rssi = fp_of_int F 0, pk_best_qdb = qk_min_qdb p, pk_placed_loss = 0,
           pk_placed_rssi = fp_of_int F 0\<rparr>,
          seek_step sk_kProbe (qk_min_qdb p) True))"

definition note_bad :: "'d fpr \<Rightarrow> 'd \<Rightarrow> 'd PowerSeek \<Rightarrow> 'd PowerSeek" where
  "note_bad F rssi s =
     (if \<not> pk_has_bad s
      then s\<lparr>pk_has_bad := True, pk_first_bad_rssi := to_int8 (fp_lround F rssi), pk_first_bad_qdb := pk_qdb s\<rparr> else s)"

definition seek_place :: "int \<Rightarrow> 'd PowerSeek \<Rightarrow> 'd PowerSeek \<times> SeekStep" where
  "seek_place clean_qdb s =
     (let live_bracket = (pk_has_bad s \<and> clean_qdb < pk_first_bad_qdb s);
          q = (case qk_no_bracket_cap_qdb (pk_p s) of
                 Some cap \<Rightarrow> if \<not> live_bracket \<and> cap < clean_qdb then max (qk_min_qdb (pk_p s)) cap else clean_qdb
               | None \<Rightarrow> clean_qdb)
      in (s\<lparr>pk_qdb := q, pk_phase := sph_kVerify\<rparr>, seek_step sk_kVerify q True))"

definition seek_verify :: "'d fpr \<Rightarrow> 'd \<Rightarrow> u16 \<Rightarrow> 'd PowerSeek \<Rightarrow> 'd PowerSeek \<times> SeekStep" where
  "seek_verify F rssi loss s =
     (let is_best = (\<not> pk_have_best s \<or> loss < pk_best_loss s);
          s = (if is_best then s\<lparr>pk_have_best := True, pk_best_loss := loss, pk_best_rssi := rssi, pk_best_qdb := pk_qdb s\<rparr> else s);
          unacceptable = (qk_loss_ok_milli (pk_p s) < loss);
          can_descend = (pk_verify_descents s < qk_verify_descent_budget (pk_p s) \<and> qk_min_qdb (pk_p s) < pk_qdb s)
      in if (unacceptable \<or> is_best) \<and> can_descend
         then (let s = (if qk_loss_bad_milli (pk_p s) < loss then note_bad F rssi s else s);
                   q = max (qk_min_qdb (pk_p s)) (pk_qdb s - qk_seek_step_qdb (pk_p s))
               in (s\<lparr>pk_verify_descents := pk_verify_descents s + 1, pk_qdb := q\<rparr>, seek_step sk_kVerify q True))
         else (s\<lparr>pk_placed_loss := pk_best_loss s, pk_placed_rssi := pk_best_rssi s, pk_qdb := pk_best_qdb s\<rparr>,
               seek_step sk_kDone (pk_best_qdb s) (pk_qdb s \<noteq> pk_best_qdb s)))"

definition seek_climb :: "'d PowerSeek \<Rightarrow> 'd PowerSeek \<times> SeekStep" where
  "seek_climb s =
     (if qk_max_qdb (pk_p s) \<le> pk_qdb s
      then (case pk_last_clean s of
              Some (q, r) \<Rightarrow> seek_place q s
            | None \<Rightarrow> (s, \<lparr>ss_kind = sk_kFailed, ss_qdb = pk_qdb s, ss_power_changed = False, ss_failed_no_clean_point = True\<rparr>))
      else (let q = min (qk_max_qdb (pk_p s)) (pk_qdb s + qk_seek_step_qdb (pk_p s))
            in (s\<lparr>pk_qdb := q\<rparr>, seek_step sk_kProbe q True)))"

definition seek_on_dwell :: "'d fpr \<Rightarrow> DwellVerdict \<Rightarrow> 'd \<Rightarrow> u16 \<Rightarrow> 'd PowerSeek \<Rightarrow> 'd PowerSeek \<times> SeekStep" where
  "seek_on_dwell F v rssi loss s =
     (if v = dv_kNoEvidence
      then (s, seek_step (if pk_phase s = sph_kVerify then sk_kVerify else sk_kProbe) (pk_qdb s) False)
      else if pk_phase s = sph_kVerify then seek_verify F rssi loss s
      else if v = dv_kClean \<and> loss \<le> qk_loss_bad_milli (pk_p s)
      then (let s = s\<lparr>pk_last_clean := Some (pk_qdb s, rssi), pk_last_clean_rssi := to_int8 (fp_lround F rssi)\<rparr>
            in if fp_lt F (fp_of_int F (qk_rssi_guard_dbm (pk_p s))) rssi then seek_place (pk_qdb s) s else seek_climb s)
      else if pk_last_clean s \<noteq> None then seek_climb (note_bad F rssi s)
      else seek_climb s)"

definition seek_last_clean_qdb :: "'d PowerSeek \<Rightarrow> int" where
  "seek_last_clean_qdb s = (case pk_last_clean s of Some (q, r) \<Rightarrow> q | None \<Rightarrow> qk_min_qdb (pk_p s))"

section \<open>Invariant: powers stay in the range, the best reading is the least\<close>

definition seek_in_range :: "'d PowerSeek \<Rightarrow> int \<Rightarrow> bool" where
  "seek_in_range s q \<longleftrightarrow> qk_min_qdb (pk_p s) \<le> q \<and> q \<le> qk_max_qdb (pk_p s)"

text \<open>\<open>vs\<close> are the readings of the verify walk so far: the power and the loss of each.\<close>

definition seek_inv :: "(int \<times> u16) list \<Rightarrow> 'd PowerSeek \<Rightarrow> bool" where
  "seek_inv vs s \<longleftrightarrow> 0 < qk_seek_step_qdb (pk_p s) \<and> seek_in_range s (pk_qdb s)
     \<and> (\<forall>q r. pk_last_clean s = Some (q, r) \<longrightarrow> seek_in_range s q)
     \<and> (pk_phase s = sph_kSweep \<longrightarrow> vs = [] \<and> \<not> pk_have_best s)
     \<and> (pk_have_best s \<longleftrightarrow> vs \<noteq> [])
     \<and> (pk_have_best s \<longrightarrow> (pk_best_qdb s, pk_best_loss s) \<in> set vs \<and> (\<forall>(q, l)\<in>set vs. pk_best_loss s \<le> l) \<and> seek_in_range s (pk_best_qdb s))"

lemma seek_begin_inv:
  assumes "0 < qk_seek_step_qdb (pk_p s)"
  shows "seek_inv [] (fst (seek_begin F m s))"
  using assms by (simp add: seek_inv_def seek_begin_def seek_in_range_def Let_def)

lemma note_bad_frame [simp]:
  "pk_p (note_bad F r s) = pk_p s" "pk_phase (note_bad F r s) = pk_phase s" "pk_qdb (note_bad F r s) = pk_qdb s"
  "pk_last_clean (note_bad F r s) = pk_last_clean s" "pk_have_best (note_bad F r s) = pk_have_best s"
  "pk_best_loss (note_bad F r s) = pk_best_loss s" "pk_best_qdb (note_bad F r s) = pk_best_qdb s"
  "pk_verify_descents (note_bad F r s) = pk_verify_descents s"
  by (simp_all add: note_bad_def)

lemma seek_inv_note_bad: "seek_inv vs s \<Longrightarrow> seek_inv vs (note_bad F r s)"
  by (simp add: seek_inv_def seek_in_range_def)

lemma seek_place_inv:
  assumes "seek_inv [] s" and "seek_in_range s q"
  shows "seek_inv [] (fst (seek_place q s))" and "seek_in_range s (ss_qdb (snd (seek_place q s)))"
    and "ss_kind (snd (seek_place q s)) = sk_kVerify" and "ss_qdb (snd (seek_place q s)) = pk_qdb (fst (seek_place q s))"
    and "pk_phase (fst (seek_place q s)) = sph_kVerify"
  using assms
  by (auto simp: seek_place_def Let_def seek_inv_def seek_in_range_def split: option.split)

text \<open>How many more dwells a seek can take.\<close>

definition sweep_left :: "'d PowerSeek \<Rightarrow> nat" where
  "sweep_left s = nat ((qk_max_qdb (pk_p s) - pk_qdb s + qk_seek_step_qdb (pk_p s) - 1) div qk_seek_step_qdb (pk_p s))"

definition dwells_left :: "'d PowerSeek \<Rightarrow> nat" where
  "dwells_left s = unat (qk_verify_descent_budget (pk_p s)) - unat (pk_verify_descents s) + 1
     + (if pk_phase s = sph_kSweep then sweep_left s + 1 else 0)"

lemma sweep_left_step:
  assumes "0 < (st :: int)" and "q < m"
  shows "nat ((m - min m (q + st) + st - 1) div st) < nat ((m - q + st - 1) div st)"
proof -
  have "(m - q + st - 1) div st = ((m - q - 1) + st) div st"
    by (simp add: algebra_simps)
  also have "\<dots> = (m - q - 1) div st + 1"
    using assms(1) by (intro div_add_self2) simp
  finally have r: "(m - q + st - 1) div st = (m - q - 1) div st + 1" .
  have nonneg: "0 \<le> (m - q - 1) div st"
    using assms by (simp add: pos_imp_zdiv_nonneg_iff)
  have "(m - min m (q + st) + st - 1) div st \<le> (m - q - 1) div st"
  proof (cases "q + st \<le> m")
    case True
    then have "m - min m (q + st) + st - 1 = m - q - 1"
      by simp
    then show ?thesis
      by simp
  next
    case False
    then have "m - min m (q + st) + st - 1 = st - 1"
      by simp
    moreover have "(st - 1) div st = 0"
      using assms(1) by (simp add: div_pos_pos_trivial)
    ultimately show ?thesis
      using nonneg by simp
  qed
  then show ?thesis
    unfolding r using nonneg by (subst nat_mono_iff) simp_all
qed

text \<open>A dwell with evidence: where it leads and what it costs.\<close>

definition good_step :: "(int \<times> u16) list \<Rightarrow> 'd PowerSeek \<Rightarrow> u16 \<Rightarrow> 'd PowerSeek \<times> SeekStep \<Rightarrow> bool" where
  "good_step vs s loss r \<longleftrightarrow>
     (let vs' = (if pk_phase s = sph_kVerify then vs @ [(pk_qdb s, loss)] else vs)
      in seek_inv vs' (fst r) \<and> seek_in_range s (ss_qdb (snd r)) \<and> pk_p (fst r) = pk_p s
         \<and> (ss_kind (snd r) \<in> {sk_kProbe, sk_kVerify} \<longrightarrow> dwells_left (fst r) < dwells_left s)
         \<and> (ss_kind (snd r) = sk_kDone \<longrightarrow> (ss_qdb (snd r), pk_placed_loss (fst r)) \<in> set vs' \<and> (\<forall>(q, l)\<in>set vs'. pk_placed_loss (fst r) \<le> l)))"

lemma seek_place_good:
  assumes "seek_inv vs s" and "pk_phase s = sph_kSweep" and "seek_in_range s q"
  shows "good_step vs s loss (seek_place q s)"
proof -
  have vs: "vs = []"
    using assms(1,2) by (simp add: seek_inv_def)
  have p: "pk_p (fst (seek_place q s)) = pk_p s" "pk_verify_descents (fst (seek_place q s)) = pk_verify_descents s"
    by (simp_all add: seek_place_def Let_def)
  show ?thesis
    using seek_place_inv [of s q] assms p by (simp add: vs good_step_def dwells_left_def)
qed

lemma seek_climb_good:
  assumes inv: "seek_inv vs s" and ph: "pk_phase s = sph_kSweep"
  shows "good_step vs s loss (seek_climb s)"
proof (cases "qk_max_qdb (pk_p s) \<le> pk_qdb s")
  case True
  show ?thesis
  proof (cases "pk_last_clean s")
    case None
    then show ?thesis
      using True inv ph by (simp add: seek_climb_def good_step_def seek_inv_def)
  next
    case (Some qr)
    then obtain q r where qr: "pk_last_clean s = Some (q, r)"
      by (cases qr) auto
    then have "seek_in_range s q"
      using inv by (simp add: seek_inv_def)
    then show ?thesis
      using seek_place_good [OF inv ph] True qr by (simp add: seek_climb_def)
  qed
next
  case False
  define q where "q = min (qk_max_qdb (pk_p s)) (pk_qdb s + qk_seek_step_qdb (pk_p s))"
  have "seek_climb s = (s\<lparr>pk_qdb := q\<rparr>, seek_step sk_kProbe q True)"
    using False by (simp add: seek_climb_def q_def Let_def)
  moreover have "seek_in_range s q"
    using inv False by (auto simp: q_def seek_inv_def seek_in_range_def)
  moreover have "sweep_left (s\<lparr>pk_qdb := q\<rparr>) < sweep_left s"
    using sweep_left_step [of "qk_seek_step_qdb (pk_p s)" "pk_qdb s" "qk_max_qdb (pk_p s)"] inv False
    by (simp add: sweep_left_def q_def seek_inv_def)
  ultimately show ?thesis
    using inv ph by (simp add: good_step_def seek_inv_def dwells_left_def seek_in_range_def)
qed

lemma good_step_cong:
  assumes "good_step vs t loss r" and "pk_phase t = pk_phase s" and "pk_p t = pk_p s" and "pk_qdb t = pk_qdb s"
    and "pk_verify_descents t = pk_verify_descents s"
  shows "good_step vs s loss r"
proof -
  have "dwells_left t = dwells_left s"
    using assms(2-5) by (simp add: dwells_left_def sweep_left_def)
  then show ?thesis
    using assms(1) unfolding good_step_def seek_in_range_def assms(2-4) by simp
qed

text \<open>The verify walk books the reading before it moves.\<close>

definition booked :: "'d \<Rightarrow> u16 \<Rightarrow> 'd PowerSeek \<Rightarrow> 'd PowerSeek" where
  "booked rssi loss s =
     (if \<not> pk_have_best s \<or> loss < pk_best_loss s
      then s\<lparr>pk_have_best := True, pk_best_loss := loss, pk_best_rssi := rssi, pk_best_qdb := pk_qdb s\<rparr> else s)"

lemma booked_frame [simp]:
  "pk_p (booked r l s) = pk_p s" "pk_phase (booked r l s) = pk_phase s" "pk_qdb (booked r l s) = pk_qdb s"
  "pk_last_clean (booked r l s) = pk_last_clean s" "pk_verify_descents (booked r l s) = pk_verify_descents s"
  by (simp_all add: booked_def)

lemma booked_inv:
  assumes inv: "seek_inv vs s" and ph: "pk_phase s = sph_kVerify"
  shows "seek_inv (vs @ [(pk_qdb s, loss)]) (booked rssi loss s)" and "pk_have_best (booked rssi loss s)"
proof -
  show h: "pk_have_best (booked rssi loss s)"
    by (simp add: booked_def)
  have "(pk_best_qdb (booked rssi loss s), pk_best_loss (booked rssi loss s)) \<in> set (vs @ [(pk_qdb s, loss)])
      \<and> (\<forall>(q, l)\<in>set (vs @ [(pk_qdb s, loss)]). pk_best_loss (booked rssi loss s) \<le> l) \<and> seek_in_range s (pk_best_qdb (booked rssi loss s))"
  proof (cases "\<not> pk_have_best s \<or> loss < pk_best_loss s")
    case True
    have "\<forall>(q, l)\<in>set vs. loss \<le> l"
      using True inv by (fastforce simp: seek_inv_def)
    then show ?thesis
      using True inv by (auto simp: booked_def seek_inv_def)
  next
    case False
    then show ?thesis
      using inv by (auto simp: booked_def seek_inv_def not_less)
  qed
  then show "seek_inv (vs @ [(pk_qdb s, loss)]) (booked rssi loss s)"
    using inv ph h by (auto simp: seek_inv_def seek_in_range_def)
qed

lemma seek_verify_good:
  assumes inv: "seek_inv vs s" and ph: "pk_phase s = sph_kVerify"
  shows "good_step vs s loss (seek_verify F rssi loss s)"
proof -
  define b where "b = booked rssi loss s"
  define t where "t = (if qk_loss_bad_milli (pk_p s) < loss then note_bad F rssi b else b)"
  define q where "q = max (qk_min_qdb (pk_p s)) (pk_qdb s - qk_seek_step_qdb (pk_p s))"
  define u where "u = t\<lparr>pk_verify_descents := pk_verify_descents s + 1, pk_qdb := q\<rparr>"
  define w where "w = b\<lparr>pk_placed_loss := pk_best_loss b, pk_placed_rssi := pk_best_rssi b, pk_qdb := pk_best_qdb b\<rparr>"
  note B = booked_inv [OF inv ph, where loss = loss and rssi = rssi, folded b_def]
  have eq: "seek_verify F rssi loss s =
      (if (qk_loss_ok_milli (pk_p s) < loss \<or> \<not> pk_have_best s \<or> loss < pk_best_loss s)
          \<and> pk_verify_descents s < qk_verify_descent_budget (pk_p s) \<and> qk_min_qdb (pk_p s) < pk_qdb s
       then (u, seek_step sk_kVerify q True) else (w, seek_step sk_kDone (pk_best_qdb b) (pk_qdb b \<noteq> pk_best_qdb b)))"
    unfolding seek_verify_def Let_def booked_def [symmetric] b_def [symmetric] t_def u_def w_def q_def by (simp add: b_def)
  have t: "seek_inv (vs @ [(pk_qdb s, loss)]) t" "pk_p t = pk_p s" "pk_phase t = sph_kVerify" "pk_qdb t = pk_qdb s"
    "pk_verify_descents t = pk_verify_descents s"
    using B ph by (simp_all add: t_def seek_inv_note_bad b_def)
  have range_q: "seek_in_range s q"
    using inv by (auto simp: q_def seek_inv_def seek_in_range_def)
  have u: "seek_inv (vs @ [(pk_qdb s, loss)]) u" "pk_p u = pk_p s" "pk_phase u = sph_kVerify"
    using t range_q by (auto simp: u_def seek_inv_def seek_in_range_def)
  have "dwells_left u < dwells_left s" if "pk_verify_descents s < qk_verify_descent_budget (pk_p s)"
  proof -
    have "unat (pk_verify_descents s) < unat (qk_verify_descent_budget (pk_p s))"
      using that by (simp add: word_less_nat_alt)
    moreover have "unat (qk_verify_descent_budget (pk_p s)) < 256"
      by (rule unat_u8_less)
    ultimately have "unat (pk_verify_descents s + 1) = unat (pk_verify_descents s) + 1"
      by (simp add: unat_word_ariths)
    then show ?thesis
      using that u(2,3) ph by (simp add: dwells_left_def u_def word_less_nat_alt)
  qed
  then have "good_step vs s loss (u, seek_step sk_kVerify q True)"
    if "pk_verify_descents s < qk_verify_descent_budget (pk_p s)"
    using that u range_q ph by (simp add: good_step_def)
  moreover have "good_step vs s loss (w, seek_step sk_kDone (pk_best_qdb b) c)" for c
  proof -
    have best: "(pk_best_qdb b, pk_best_loss b) \<in> set (vs @ [(pk_qdb s, loss)])"
      "\<forall>(q, l)\<in>set (vs @ [(pk_qdb s, loss)]). pk_best_loss b \<le> l" "seek_in_range b (pk_best_qdb b)"
      using B by (auto simp: seek_inv_def)
    moreover have "seek_inv (vs @ [(pk_qdb s, loss)]) w"
      using B best(3) by (auto simp: w_def seek_inv_def seek_in_range_def)
    ultimately show ?thesis
      using ph by (auto simp: good_step_def w_def b_def seek_in_range_def)
  qed
  ultimately show ?thesis
    unfolding eq by simp
qed

lemma seek_on_dwell_good:
  assumes inv: "seek_inv vs s" and v: "v \<noteq> dv_kNoEvidence"
  shows "good_step vs s loss (seek_on_dwell F v rssi loss s)"
proof (cases "pk_phase s")
  case sph_kVerify
  then show ?thesis
    using seek_verify_good [OF inv] v by (simp add: seek_on_dwell_def)
next
  case sph_kSweep
  define t where "t = s\<lparr>pk_last_clean := Some (pk_qdb s, rssi), pk_last_clean_rssi := to_int8 (fp_lround F rssi)\<rparr>"
  have t: "seek_inv vs t" "pk_phase t = sph_kSweep" "seek_in_range t (pk_qdb s)"
    using inv sph_kSweep by (auto simp: t_def seek_inv_def seek_in_range_def)
  have "good_step vs s loss (seek_place (pk_qdb t) t)" "good_step vs s loss (seek_climb t)"
    using good_step_cong [OF seek_place_good [OF t], of s] good_step_cong [OF seek_climb_good [OF t(1,2)], of s] t(2) sph_kSweep
    by (simp_all add: t_def)
  moreover have "good_step vs s loss (seek_climb (note_bad F rssi s))"
    using good_step_cong [OF seek_climb_good [OF seek_inv_note_bad [OF inv]], of F rssi s loss] sph_kSweep by simp
  ultimately show ?thesis
    using seek_climb_good [OF inv sph_kSweep, of loss] v sph_kSweep
    by (simp add: seek_on_dwell_def t_def [symmetric] Let_def)
qed

section \<open>A seek ends, inside its range, at the least loss it measured\<close>

text \<open>The dwells of a seek: the state before, the loss, the state after and the step taken; it stops at a terminal step.\<close>

fun seek_trace :: "'d fpr \<Rightarrow> (DwellVerdict \<times> 'd \<times> u16) list \<Rightarrow> 'd PowerSeek \<Rightarrow> ('d PowerSeek \<times> u16 \<times> 'd PowerSeek \<times> SeekStep) list" where
  "seek_trace F [] s = []"
| "seek_trace F ((v, rssi, loss) # es) s =
     (case seek_on_dwell F v rssi loss s of
        (s', st) \<Rightarrow> (s, loss, s', st) # (if ss_kind st \<in> {sk_kDone, sk_kFailed} then [] else seek_trace F es s'))"

definition verify_readings :: "('d PowerSeek \<times> u16 \<times> 'd PowerSeek \<times> SeekStep) list \<Rightarrow> (int \<times> u16) list" where
  "verify_readings tr = map (\<lambda>(s, loss, s', st). (pk_qdb s, loss)) (filter (\<lambda>(s, loss, s', st). pk_phase s = sph_kVerify) tr)"

text \<open>The last dwell decides: failed without a clean point, or placed at the least of the verified readings.\<close>

fun seek_outcome_ok :: "(int \<times> u16) list \<Rightarrow> 'd PowerSeek \<times> u16 \<times> 'd PowerSeek \<times> SeekStep \<Rightarrow> bool" where
  "seek_outcome_ok vs (s, loss, s', st) =
     (ss_kind st = sk_kFailed
      \<or> ss_kind st = sk_kDone \<and> (ss_qdb st, pk_placed_loss s') \<in> set vs \<and> list_all (\<lambda>(q, l). pk_placed_loss s' \<le> l) vs)"

lemma seek_trace_inv:
  assumes "seek_inv vs s" and "list_all (\<lambda>(v, rssi, loss). v \<noteq> dv_kNoEvidence) es" and "dwells_left s \<le> length es"
  shows "seek_trace F es s \<noteq> [] \<and> length (seek_trace F es s) \<le> dwells_left s
    \<and> list_all (\<lambda>(s1, loss, s', st). seek_in_range s (ss_qdb st)) (seek_trace F es s)
    \<and> seek_outcome_ok (vs @ verify_readings (seek_trace F es s)) (last (seek_trace F es s))"
  using assms
proof (induction es arbitrary: vs s)
  case Nil
  then show ?case
    by (simp add: dwells_left_def)
next
  case (Cons e es)
  obtain v rssi loss where e: "e = (v, rssi, loss)"
    by (cases e) auto
  obtain s' st where st: "seek_on_dwell F v rssi loss s = (s', st)"
    by fastforce
  define vs' where "vs' = (if pk_phase s = sph_kVerify then vs @ [(pk_qdb s, loss)] else vs)"
  have "good_step vs s loss (s', st)"
    using seek_on_dwell_good [OF Cons.prems(1), of v loss F rssi] Cons.prems(2) by (simp add: e st)
  then have G: "seek_inv vs' s'" "seek_in_range s (ss_qdb st)" "pk_p s' = pk_p s"
    "ss_kind st \<in> {sk_kProbe, sk_kVerify} \<Longrightarrow> dwells_left s' < dwells_left s"
    "ss_kind st = sk_kDone \<Longrightarrow> (ss_qdb st, pk_placed_loss s') \<in> set vs' \<and> (\<forall>(q, l)\<in>set vs'. pk_placed_loss s' \<le> l)"
    by (simp_all add: good_step_def vs'_def Let_def)
  have vr: "vs @ verify_readings ((s, loss, s', st) # tr) = vs' @ verify_readings tr" for tr
    by (simp add: verify_readings_def vs'_def)
  show ?case
  proof (cases "ss_kind st \<in> {sk_kDone, sk_kFailed}")
    case True
    then have tr: "seek_trace F (e # es) s = [(s, loss, s', st)]"
      by (simp add: e st)
    have "0 < dwells_left s"
      by (simp add: dwells_left_def)
    then show ?thesis
      using True G(2,5) vr [of "[]"] unfolding tr by (auto simp: list_all_iff verify_readings_def)
  next
    case False
    then have k: "ss_kind st \<in> {sk_kProbe, sk_kVerify}"
      by (cases "ss_kind st") simp_all
    have tr: "seek_trace F (e # es) s = (s, loss, s', st) # seek_trace F es s'"
      using False by (simp add: e st)
    have "dwells_left s' \<le> length es"
      using G(4) [OF k] Cons.prems(3) by simp
    from Cons.IH [OF G(1) _ this] Cons.prems(2)
    have IH: "seek_trace F es s' \<noteq> []" "length (seek_trace F es s') \<le> dwells_left s'"
      "list_all (\<lambda>(s1, loss, s2, st). seek_in_range s' (ss_qdb st)) (seek_trace F es s')"
      "seek_outcome_ok (vs' @ verify_readings (seek_trace F es s')) (last (seek_trace F es s'))"
      by simp_all
    show ?thesis
      using IH G(2,3) G(4) [OF k] vr [of "seek_trace F es s'"] unfolding tr by (simp add: seek_in_range_def)
  qed
qed

text \<open>C30: A power seek with a positive step ends after at most the number of steps from floor to
  ceiling plus the verify budget plus two dwells with evidence; every power it asks for lies
  between its bounds; and it ends failed or at a power it verified, whose loss is the least of
  all verified readings.\<close>

theorem seek_ends_at_measured_minimum:
  assumes "0 < qk_seek_step_qdb (pk_p s0)"
    and "s = fst (seek_begin F ceiling s0)"
    and "list_all (\<lambda>(v, rssi, loss). v \<noteq> dv_kNoEvidence) es"
    and "nat ((qk_max_qdb (pk_p s) - qk_min_qdb (pk_p s) + qk_seek_step_qdb (pk_p s) - 1) div qk_seek_step_qdb (pk_p s))
          + unat (qk_verify_descent_budget (pk_p s)) + 2 \<le> length es"
  shows "seek_trace F es s \<noteq> []
    \<and> list_all (\<lambda>(s1, loss, s', st). qk_min_qdb (pk_p s) \<le> ss_qdb st \<and> ss_qdb st \<le> qk_max_qdb (pk_p s)) (seek_trace F es s)
    \<and> seek_outcome_ok (verify_readings (seek_trace F es s)) (last (seek_trace F es s))"
proof -
  have inv: "seek_inv [] s"
    using seek_begin_inv [OF assms(1)] by (simp add: assms(2))
  have "dwells_left s \<le> length es"
    using assms(4) by (simp add: assms(2) dwells_left_def sweep_left_def seek_begin_def Let_def)
  from seek_trace_inv [OF inv assms(3) this] show ?thesis
    by (simp add: seek_in_range_def)
qed

text \<open>Three clean probes up to the ceiling, then a verify that finds a lower power better.\<close>

definition seek_fp :: "int fpr" where
  "seek_fp = \<lparr>fp_of_int = (\<lambda>x. x), fp_add = (+), fp_sub = (-), fp_mul = (*), fp_div = (div), fp_neg = uminus,
     fp_le = (\<le>), fp_lt = (<), fp_trunc = (\<lambda>x. x), fp_lround = (\<lambda>x. x)\<rparr>"

definition seek_demo :: "int PowerSeek" where
  "seek_demo = new_power_seek seek_fp \<lparr>qk_loss_ok_milli = 15, qk_loss_bad_milli = 50, qk_seek_step_qdb = 16,
     qk_rssi_guard_dbm = -6, qk_min_qdb = 4, qk_max_qdb = 108, qk_verify_descent_budget = 1, qk_no_bracket_cap_qdb = None\<rparr>"

definition seek_demo_dwells :: "(DwellVerdict \<times> int \<times> u16) list" where
  "seek_demo_dwells = [(dv_kClean, -70, 3), (dv_kClean, -60, 3), (dv_kClean, -50, 3), (dv_kClean, -50, 9), (dv_kClean, -60, 2)]"

lemma seek_demo_readings:
  "verify_readings (seek_trace seek_fp seek_demo_dwells (fst (seek_begin seek_fp 36 seek_demo))) = [(36, 9), (20, 2)]"
  by (simp add: seek_demo_dwells_def seek_demo_def new_power_seek_def seek_begin_def seek_fp_def seek_on_dwell_def seek_climb_def
      seek_place_def seek_verify_def verify_readings_def Let_def)

theorem seek_ends_at_measured_minimum_witness:
  "verify_readings (seek_trace seek_fp seek_demo_dwells (fst (seek_begin seek_fp 36 seek_demo))) = [(36, 9), (20, 2)]
   \<and> seek_outcome_ok [(36, 9), (20, 2)] (last (seek_trace seek_fp seek_demo_dwells (fst (seek_begin seek_fp 36 seek_demo))))"
  using seek_ends_at_measured_minimum [of seek_demo "fst (seek_begin seek_fp 36 seek_demo)" seek_fp 36 seek_demo_dwells]
    seek_demo_readings
  by (simp add: seek_demo_def new_power_seek_def seek_begin_def seek_demo_dwells_def Let_def)

end
