(* ===== verification/Calib_Dwell.thy ===== *)
theory Calib_Dwell
  imports Mcs_Probe_Props
begin

text \<open>
  core/include/wblink/calib_dwell.h: the dwell that both calibrations measure with. The sender emits
  a numbered burst of probes at one power and waits for one tally; the receiver counts the distinct
  probes of the dwell in a bitmap and answers when it sees the tail.
\<close>

section \<open>The sender\<close>

datatype DwellState = ds_kIdle | ds_kEmitting | ds_kAwaitTally | ds_kDone | ds_kNoEvidence

record DwellSendParams =
  dp_probe_pace_us :: u32
  dp_tally_wait_ms :: u32
  dp_tally_retries :: u32
  dp_max_probes_per_tick :: u16

record DwellResult =
  dr_sent :: u16
  dr_received :: u16
  dr_rssi_sum_dbm :: u32
  dr_rx_mcs :: u8
  dr_adapter_fingerprint :: u8

definition loss_milli :: "DwellResult \<Rightarrow> u16" where
  "loss_milli res =
     (if dr_sent res = 0 then 1000
      else (let r = (if dr_sent res < dr_received res then dr_sent res else dr_received res)
            in ucast ((1000 :: u32) * (ucast (dr_sent res) - ucast r) div ucast (dr_sent res))))"

definition zero_dwell_result :: DwellResult where
  "zero_dwell_result = \<lparr>dr_sent = 0, dr_received = 0, dr_rssi_sum_dbm = 0, dr_rx_mcs = kUplinkRxMcsUnknown, dr_adapter_fingerprint = 0\<rparr>"

record DwellSender =
  dn_p :: DwellSendParams
  dn_state :: DwellState
  dn_run_id :: u32
  dn_dwell_id :: u16
  dn_count :: u16
  dn_next_seq :: u16
  dn_retries_left :: u32
  dn_last_emit_ms :: u64
  dn_emit_credit_us :: u64
  dn_emitted_this_tick :: u16
  dn_wait_since_ms :: u64
  dn_result :: DwellResult

definition new_dwell_sender :: "DwellSendParams \<Rightarrow> DwellSender" where
  "new_dwell_sender p = \<lparr>dn_p = p, dn_state = ds_kIdle, dn_run_id = 0, dn_dwell_id = 0, dn_count = 0, dn_next_seq = 1,
     dn_retries_left = 0, dn_last_emit_ms = 0, dn_emit_credit_us = 0, dn_emitted_this_tick = 0, dn_wait_since_ms = 0,
     dn_result = zero_dwell_result\<rparr>"

definition dwell_begin :: "u32 \<Rightarrow> u16 \<Rightarrow> u16 \<Rightarrow> u64 \<Rightarrow> DwellSender \<Rightarrow> DwellSender \<times> bool" where
  "dwell_begin run_id dwell_id n now_ms d =
     (if dwell_id = 0 \<or> n = 0 then (d, False)
      else (d\<lparr>dn_run_id := run_id, dn_dwell_id := dwell_id, dn_count := n, dn_next_seq := 1,
              dn_retries_left := dp_tally_retries (dn_p d), dn_state := ds_kEmitting, dn_last_emit_ms := now_ms,
              dn_emit_credit_us := ucast (dp_probe_pace_us (dn_p d)), dn_wait_since_ms := 0, dn_result := zero_dwell_result\<rparr>, True))"

definition accrue :: "u64 \<Rightarrow> DwellSender \<Rightarrow> DwellSender" where
  "accrue now_ms d =
     (let delta = now_ms - dn_last_emit_ms d;
          cap = (ucast (dp_probe_pace_us (dn_p d)) :: u64) * ucast (dp_max_probes_per_tick (dn_p d));
          credit = dn_emit_credit_us d + delta * 1000
      in d\<lparr>dn_last_emit_ms := now_ms, dn_emit_credit_us := (if cap < credit then cap else credit)\<rparr>)"

text \<open>The sequence number to send, if any.\<close>

definition dwell_next_probe :: "u64 \<Rightarrow> DwellSender \<Rightarrow> DwellSender \<times> u16 option" where
  "dwell_next_probe now_ms d0 =
     (if dn_state d0 = ds_kEmitting
      then (let d = accrue now_ms d0
            in if dp_max_probes_per_tick (dn_p d) \<le> dn_emitted_this_tick d then (d, None)
               else if dn_emit_credit_us d < ucast (dp_probe_pace_us (dn_p d)) then (d, None)
               else (let q = dn_next_seq d;
                         d = d\<lparr>dn_emit_credit_us := dn_emit_credit_us d - ucast (dp_probe_pace_us (dn_p d)),
                               dn_emitted_this_tick := dn_emitted_this_tick d + 1\<rparr>
                     in (if dn_next_seq d = dn_count d then d\<lparr>dn_state := ds_kAwaitTally, dn_wait_since_ms := now_ms\<rparr>
                         else d\<lparr>dn_next_seq := dn_next_seq d + 1\<rparr>, Some q)))
      else if dn_state d0 = ds_kAwaitTally
      then (let d = accrue now_ms d0
            in if now_ms - dn_wait_since_ms d < ucast (dp_tally_wait_ms (dn_p d)) then (d, None)
               else if dn_retries_left d = 0 then (d\<lparr>dn_state := ds_kNoEvidence\<rparr>, None)
               else (d\<lparr>dn_retries_left := dn_retries_left d - 1, dn_wait_since_ms := now_ms\<rparr>, Some (dn_count d)))
      else (d0, None))"

definition dwell_on_tally :: "u32 \<Rightarrow> u16 \<Rightarrow> u16 \<Rightarrow> u32 \<Rightarrow> u8 \<Rightarrow> u8 \<Rightarrow> DwellSender \<Rightarrow> DwellSender \<times> bool" where
  "dwell_on_tally run_id dwell_id got rssi_sum rx_mcs fingerprint d =
     (if dn_state d \<noteq> ds_kEmitting \<and> dn_state d \<noteq> ds_kAwaitTally then (d, False)
      else if run_id \<noteq> dn_run_id d \<or> dwell_id \<noteq> dn_dwell_id d then (d, False)
      else (d\<lparr>dn_result := \<lparr>dr_sent = dn_count d, dr_received = got, dr_rssi_sum_dbm = rssi_sum, dr_rx_mcs = rx_mcs,
                            dr_adapter_fingerprint = fingerprint\<rparr>, dn_state := ds_kDone\<rparr>, True))"

definition dwell_reset :: "DwellSender \<Rightarrow> DwellSender" where
  "dwell_reset d = d\<lparr>dn_state := ds_kIdle\<rparr>"

definition dwell_new_tick :: "DwellSender \<Rightarrow> DwellSender" where
  "dwell_new_tick d = d\<lparr>dn_emitted_this_tick := 0\<rparr>"

section \<open>The receiver\<close>

record DwellAcc =
  ac_received :: u16
  ac_rssi_sum :: u32
  ac_rx_mcs :: u8
  ac_seen :: "u64 list"

record DwellClosed =
  cl_dwell_id :: u16
  cl_received :: u16
  cl_rssi_sum :: u32
  cl_rx_mcs :: u8

record DwellReceiver =
  dw_run_id :: u32
  dw_open_dwell :: u16
  dw_closed_dwell :: u16
  dw_acc :: DwellAcc
  dw_closed_tally :: DwellClosed
  dw_last_probe_ms :: u64

record DwellTallyOut =
  dt_run_id :: u32
  dt_dwell_id :: u16
  dt_received :: u16
  dt_rssi_sum_dbm :: u32
  dt_rx_mcs :: u8

definition kMaxDwellFrames :: u16 where
  "kMaxDwellFrames = 1024"

definition zero_acc :: DwellAcc where
  "zero_acc = \<lparr>ac_received = 0, ac_rssi_sum = 0, ac_rx_mcs = kUplinkRxMcsUnknown, ac_seen = replicate 16 0\<rparr>"

definition new_dwell_receiver :: DwellReceiver where
  "new_dwell_receiver = \<lparr>dw_run_id = 0, dw_open_dwell = 0, dw_closed_dwell = 0, dw_acc = zero_acc,
     dw_closed_tally = \<lparr>cl_dwell_id = 0, cl_received = 0, cl_rssi_sum = 0, cl_rx_mcs = kUplinkRxMcsUnknown\<rparr>, dw_last_probe_ms = 0\<rparr>"

text \<open>The bitmap word and bit of a sequence number; \<open>seq - 1\<close> is taken in 16 bits.\<close>

definition acc_word :: "u16 \<Rightarrow> nat" where
  "acc_word seq = unat (drop_bit 6 (seq - 1))"

definition acc_bit :: "u16 \<Rightarrow> nat" where
  "acc_bit seq = unat ((seq - 1) AND 63)"

definition test_set :: "u16 \<Rightarrow> DwellAcc \<Rightarrow> DwellAcc \<times> bool" where
  "test_set seq a =
     (let w = ac_seen a ! acc_word seq; b = push_bit (acc_bit seq) (1 :: u64)
      in (a\<lparr>ac_seen := (ac_seen a)[acc_word seq := w OR b]\<rparr>, w AND b \<noteq> 0))"

definition close_dwell :: "DwellReceiver \<Rightarrow> DwellReceiver" where
  "close_dwell r = r\<lparr>dw_closed_dwell := dw_open_dwell r,
     dw_closed_tally := \<lparr>cl_dwell_id = dw_open_dwell r, cl_received = ac_received (dw_acc r), cl_rssi_sum = ac_rssi_sum (dw_acc r),
                         cl_rx_mcs = ac_rx_mcs (dw_acc r)\<rparr>,
     dw_open_dwell := 0, dw_acc := zero_acc\<rparr>"

definition fill_tally :: "DwellReceiver \<Rightarrow> DwellTallyOut" where
  "fill_tally r = (let c = dw_closed_tally r
     in \<lparr>dt_run_id = dw_run_id r, dt_dwell_id = cl_dwell_id c, dt_received = cl_received c, dt_rssi_sum_dbm = cl_rssi_sum c,
         dt_rx_mcs = cl_rx_mcs c\<rparr>)"

definition count_probe :: "u16 \<Rightarrow> int \<Rightarrow> u8 \<Rightarrow> DwellAcc \<Rightarrow> DwellAcc" where
  "count_probe seq rssi rx_mcs a =
     (if seq \<le> kMaxDwellFrames
      then (case test_set seq a of
              (a, had) \<Rightarrow> if had then a
                          else a\<lparr>ac_received := ac_received a + 1, ac_rssi_sum := ac_rssi_sum a + word_of_int rssi, ac_rx_mcs := rx_mcs\<rparr>)
      else a)"

text \<open>One accepted probe: the tally to send, if any, and whether it opened a new run.\<close>

definition on_probe ::
  "u32 \<Rightarrow> u16 \<Rightarrow> u16 \<Rightarrow> u16 \<Rightarrow> int \<Rightarrow> u8 \<Rightarrow> u64 \<Rightarrow> DwellReceiver \<Rightarrow> DwellReceiver \<times> DwellTallyOut option \<times> bool" where
  "on_probe run_id dwell_id seq n rssi rx_mcs now_ms r0 =
     (let new_run = (run_id \<noteq> dw_run_id r0);
          r = r0\<lparr>dw_last_probe_ms := now_ms\<rparr>;
          r = (if new_run then r\<lparr>dw_run_id := run_id, dw_open_dwell := 0, dw_closed_dwell := 0\<rparr> else r)
      in if dwell_id = dw_closed_dwell r \<and> dw_closed_dwell r \<noteq> 0 then (r, Some (fill_tally r), new_run)
         else if dwell_id < dw_open_dwell r \<or> dwell_id < dw_closed_dwell r then (r, None, new_run)
         else (let (r, out) = (if dwell_id \<noteq> dw_open_dwell r
                               then (let (r, out) = (if dw_open_dwell r \<noteq> 0 then (close_dwell r, Some (fill_tally (close_dwell r))) else (r, None))
                                     in (r\<lparr>dw_open_dwell := dwell_id, dw_acc := zero_acc\<rparr>, out))
                               else (r, None));
                   r = r\<lparr>dw_acc := count_probe seq rssi rx_mcs (dw_acc r)\<rparr>
               in if seq = n then (close_dwell r, Some (fill_tally (close_dwell r)), new_run)
                  else (r, out, new_run)))"

definition quiet_for :: "u64 \<Rightarrow> u32 \<Rightarrow> DwellReceiver \<Rightarrow> bool" where
  "quiet_for now_ms timeout_ms r = (dw_run_id r \<noteq> 0 \<and> ucast timeout_ms \<le> now_ms - dw_last_probe_ms r)"

definition expire_run :: "DwellReceiver \<Rightarrow> DwellReceiver" where
  "expire_run r = r\<lparr>dw_run_id := 0, dw_open_dwell := 0, dw_closed_dwell := 0\<rparr>"

section \<open>The tally is the number of distinct probes\<close>

lemma acc_pos:
  assumes "1 \<le> unat q" and "unat q \<le> 1024"
  shows "acc_word q = (unat q - 1) div 64" and "acc_bit q = (unat q - 1) mod 64" and "acc_word q < 16"
proof -
  have u: "unat (q - 1) = unat q - 1"
    using assms(1) by (simp add: unat_minus_one unat_gt_0 [symmetric])
  show w: "acc_word q = (unat q - 1) div 64"
    by (simp add: acc_word_def drop_bit_eq_div unat_div u)
  have "(63 :: u16) = mask 6"
    by (simp add: mask_eq_exp_minus_1)
  then have "acc_bit q = unat (take_bit 6 (q - 1))"
    by (simp only: acc_bit_def take_bit_eq_mask [symmetric])
  then show "acc_bit q = (unat q - 1) mod 64"
    by (simp add: take_bit_eq_mod unat_mod u)
  show "acc_word q < 16"
    using assms(2) unfolding w by (simp add: less_mult_imp_div_less)
qed

definition acc_ok :: "u16 set \<Rightarrow> DwellAcc \<Rightarrow> bool" where
  "acc_ok S a \<longleftrightarrow> length (ac_seen a) = 16 \<and> S \<subseteq> {q. 1 \<le> unat q \<and> unat q \<le> 1024} \<and> ac_received a = of_nat (card S)
     \<and> (\<forall>q. 1 \<le> unat q \<and> unat q \<le> 1024 \<longrightarrow> bit (ac_seen a ! acc_word q) (acc_bit q) = (q \<in> S))"

lemma zero_acc_ok: "acc_ok {} zero_acc"
  using acc_pos(3) by (simp add: acc_ok_def zero_acc_def)

lemma acc_pos_eq:
  assumes "1 \<le> unat q" "unat q \<le> 1024" "1 \<le> unat q'" "unat q' \<le> 1024"
  shows "acc_word q = acc_word q' \<and> acc_bit q = acc_bit q' \<longleftrightarrow> q = q'"
proof
  assume "acc_word q = acc_word q' \<and> acc_bit q = acc_bit q'"
  then have "unat q - 1 = unat q' - 1"
    using acc_pos(1,2) [OF assms(1,2)] acc_pos(1,2) [OF assms(3,4)] by (metis div_mult_mod_eq)
  then show "q = q'"
    using assms by (simp add: word_unat_eq_iff)
qed simp

lemma count_probe_ok:
  assumes ok: "acc_ok S a" and q: "1 \<le> unat q" "unat q \<le> 1024"
  shows "acc_ok (insert q S) (count_probe q rssi mcs a)"
proof -
  define a' where "a' = fst (test_set q a)"
  have had: "snd (test_set q a) = (q \<in> S)"
    using ok q by (simp add: test_set_def Let_def acc_ok_def push_bit_of_1 and_exp_eq_0_iff_not_bit)
  have b64: "acc_bit q < 64"
    using acc_pos(2) [OF q] by simp
  have bits: "bit (ac_seen a' ! acc_word q') (acc_bit q') = (q' \<in> insert q S)"
    if "1 \<le> unat q'" "unat q' \<le> 1024" for q'
    using ok that acc_pos(3) [OF q] acc_pos_eq [OF q that] b64
    by (cases "acc_word q = acc_word q'")
      (auto simp: a'_def test_set_def Let_def acc_ok_def nth_list_update bit_or_iff bit_push_bit_iff bit_exp_iff)
  have "finite S"
    using ok finite_subset by auto
  moreover have "ac_received a' = ac_received a" "length (ac_seen a') = length (ac_seen a)"
    by (simp_all add: a'_def test_set_def Let_def)
  moreover have "q \<le> kMaxDwellFrames"
    using q by (simp add: kMaxDwellFrames_def word_le_nat_alt)
  then have "count_probe q rssi mcs a =
      (if q \<in> S then a' else a'\<lparr>ac_received := ac_received a' + 1, ac_rssi_sum := ac_rssi_sum a' + word_of_int rssi, ac_rx_mcs := mcs\<rparr>)"
    by (simp add: count_probe_def split_beta had a'_def)
  ultimately show ?thesis
    using ok q bits by (auto simp: acc_ok_def insert_absorb)
qed

text \<open>Probes of one dwell that are not its tail, then the tail.\<close>

type_synonym heard = "u16 \<times> int \<times> u8 \<times> u64"

fun hear_probes :: "u32 \<Rightarrow> u16 \<Rightarrow> u16 \<Rightarrow> heard list \<Rightarrow> DwellReceiver \<Rightarrow> DwellReceiver" where
  "hear_probes run dwell n [] r = r"
| "hear_probes run dwell n ((q, rssi, mcs, now) # ps) r = hear_probes run dwell n ps (fst (on_probe run dwell q n rssi mcs now r))"

definition opens_dwell :: "u32 \<Rightarrow> u16 \<Rightarrow> DwellReceiver \<Rightarrow> bool" where
  "opens_dwell run dwell r \<longleftrightarrow> dwell \<noteq> 0 \<and> (run \<noteq> dw_run_id r \<or> dw_open_dwell r < dwell \<and> dw_closed_dwell r < dwell)"

definition counting :: "u32 \<Rightarrow> u16 \<Rightarrow> u16 set \<Rightarrow> DwellReceiver \<Rightarrow> bool" where
  "counting run dwell S r \<longleftrightarrow> dwell \<noteq> 0 \<and> dw_run_id r = run \<and> dw_closed_dwell r < dwell
     \<and> (if dw_open_dwell r = dwell then acc_ok S (dw_acc r) else dw_open_dwell r < dwell \<and> S = {})"

text \<open>The receiver once the dwell is open, with the probe counted.\<close>

lemma on_probe_counting:
  assumes c: "counting run dwell S r" and q: "1 \<le> unat q" "unat q \<le> 1024"
  shows "q \<noteq> n \<Longrightarrow> counting run dwell (insert q S) (fst (on_probe run dwell q n rssi mcs now r))"
    and "q = n \<Longrightarrow> \<exists>t. fst (snd (on_probe run dwell q n rssi mcs now r)) = Some t \<and> dt_run_id t = run \<and> dt_dwell_id t = dwell
          \<and> dt_received t = of_nat (card (insert q S))"
proof -
  define r1 where "r1 = r\<lparr>dw_last_probe_ms := now\<rparr>"
  define r2 where "r2 = (if dwell \<noteq> dw_open_dwell r
      then (if dw_open_dwell r \<noteq> 0 then close_dwell r1 else r1)\<lparr>dw_open_dwell := dwell, dw_acc := zero_acc\<rparr> else r1)"
  define r3 where "r3 = r2\<lparr>dw_acc := count_probe q rssi mcs (dw_acc r2)\<rparr>"
  have lt: "dw_closed_dwell r < dwell" "\<not> dwell < dw_open_dwell r" "dw_run_id r = run"
    using c by (auto simp: counting_def split: if_splits)
  have r2: "dw_run_id r2 = run" "dw_open_dwell r2 = dwell" "dw_closed_dwell r2 < dwell" "acc_ok S (dw_acc r2)"
    using c lt by (auto simp: r2_def r1_def counting_def close_dwell_def zero_acc_ok not_less order.strict_iff_order split: if_splits)
  have r3: "dw_run_id r3 = run" "dw_open_dwell r3 = dwell" "dw_closed_dwell r3 < dwell" "acc_ok (insert q S) (dw_acc r3)"
    using r2 count_probe_ok [OF r2(4) q] by (simp_all add: r3_def)
  have eq: "fst (on_probe run dwell q n rssi mcs now r) = (if q = n then close_dwell r3 else r3)"
    "q = n \<Longrightarrow> fst (snd (on_probe run dwell q n rssi mcs now r)) = Some (fill_tally (close_dwell r3))"
    using lt by (auto simp: on_probe_def Let_def split_beta r3_def r2_def r1_def)
  show "counting run dwell (insert q S) (fst (on_probe run dwell q n rssi mcs now r))" if "q \<noteq> n"
    using that r3 c by (simp add: eq counting_def)
  show "\<exists>t. fst (snd (on_probe run dwell q n rssi mcs now r)) = Some t \<and> dt_run_id t = run \<and> dt_dwell_id t = dwell
          \<and> dt_received t = of_nat (card (insert q S))" if "q = n"
    using r3 eq(2) [OF that] by (auto simp: fill_tally_def close_dwell_def acc_ok_def Let_def)
qed

lemma hear_probes_counting:
  assumes "counting run dwell S r" and "list_all (\<lambda>(q, rssi, mcs, now). 1 \<le> unat q \<and> unat q \<le> 1024 \<and> q \<noteq> n) ps"
  shows "counting run dwell (S \<union> fst ` set ps) (hear_probes run dwell n ps r)"
  using assms
proof (induction ps arbitrary: S r)
  case (Cons p ps)
  obtain q rssi mcs now where p: "p = (q, rssi, mcs, now)"
    by (cases p) auto
  have "counting run dwell (insert q S) (fst (on_probe run dwell q n rssi mcs now r))"
    using Cons.prems by (intro on_probe_counting(1)) (simp_all add: p)
  from Cons.IH [OF this] Cons.prems(2) show ?case
    by (simp add: p)
qed simp

lemma opens_counting:
  assumes "opens_dwell run dwell r" and q: "1 \<le> unat q" "unat q \<le> 1024"
  shows "q \<noteq> n \<Longrightarrow> counting run dwell {q} (fst (on_probe run dwell q n rssi mcs now r))"
    and "q = n \<Longrightarrow> \<exists>t. fst (snd (on_probe run dwell q n rssi mcs now r)) = Some t \<and> dt_run_id t = run \<and> dt_dwell_id t = dwell
          \<and> dt_received t = of_nat (card {q})"
proof -
  define r' where "r' = (if run \<noteq> dw_run_id r then r\<lparr>dw_run_id := run, dw_open_dwell := 0, dw_closed_dwell := 0\<rparr> else r)"
  have c: "counting run dwell {} r'"
    using assms(1) by (auto simp: counting_def r'_def opens_dwell_def word_gt_0)
  have same: "fst (on_probe run dwell q n rssi mcs now r) = fst (on_probe run dwell q n rssi mcs now r')"
    "fst (snd (on_probe run dwell q n rssi mcs now r)) = fst (snd (on_probe run dwell q n rssi mcs now r'))"
    by (cases r; simp add: on_probe_def Let_def split_beta r'_def)+
  show "q \<noteq> n \<Longrightarrow> counting run dwell {q} (fst (on_probe run dwell q n rssi mcs now r))"
    using on_probe_counting(1) [OF c q] by (simp add: same)
  show "q = n \<Longrightarrow> \<exists>t. fst (snd (on_probe run dwell q n rssi mcs now r)) = Some t \<and> dt_run_id t = run \<and> dt_dwell_id t = dwell
          \<and> dt_received t = of_nat (card {q})"
    unfolding same using on_probe_counting(2) [OF c q, of n rssi mcs now] by simp
qed

lemma tally_counts:
  assumes "opens_dwell run dwell r" and "1 \<le> unat n" "unat n \<le> 1024"
    and "list_all (\<lambda>(q, rssi, mcs, now). 1 \<le> unat q \<and> unat q \<le> 1024 \<and> q \<noteq> n) ps"
  shows "\<exists>t. fst (snd (on_probe run dwell n n rssi mcs now (hear_probes run dwell n ps r))) = Some t
    \<and> dt_run_id t = run \<and> dt_dwell_id t = dwell \<and> dt_received t = of_nat (card (insert n (fst ` set ps)))"
proof (cases ps)
  case Nil
  then show ?thesis
    using opens_counting(2) [OF assms(1-3), of n rssi mcs now] by simp
next
  case (Cons p ps')
  obtain q rssi' mcs' now' where p: "p = (q, rssi', mcs', now')"
    by (cases p) auto
  have "counting run dwell {q} (fst (on_probe run dwell q n rssi' mcs' now' r))"
    using assms(4) by (intro opens_counting(1) assms(1)) (simp_all add: Cons p)
  then have "counting run dwell ({q} \<union> fst ` set ps') (hear_probes run dwell n ps r)"
    using hear_probes_counting [of run dwell "{q}" _ n ps'] assms(4) by (simp add: Cons p)
  from on_probe_counting(2) [OF this assms(2,3) refl, of rssi mcs now] show ?thesis
    by (simp add: Cons p)
qed

lemma loss_milli_exact:
  assumes "0 < n" and "c \<le> n" and "n \<le> 1024"
  shows "unat (loss_milli \<lparr>dr_sent = of_nat n, dr_received = of_nat c, dr_rssi_sum_dbm = x, dr_rx_mcs = m, dr_adapter_fingerprint = f\<rparr>)
    = 1000 * (n - c) div n"
proof -
  have u: "unat (of_nat n :: u16) = n" "unat (of_nat c :: u16) = c"
    using assms by (simp_all add: unat_of_nat_small)
  have le: "(ucast (of_nat c :: u16) :: u32) \<le> ucast (of_nat n :: u16)"
    using u assms by (simp add: word_le_nat_alt)
  define x where "x = (ucast (of_nat n :: u16) :: u32) - ucast (of_nat c :: u16)"
  have x: "unat x = n - c"
    using u unat_diff_le [OF le] by (simp add: x_def)
  have "unat (1000 * x) = 1000 * (n - c)"
    using assms(3) x by (simp add: unat_word_ariths)
  then have d: "unat ((1000 :: u32) * (ucast (of_nat n :: u16) - ucast (of_nat c :: u16)) div ucast (of_nat n :: u16)) = 1000 * (n - c) div n"
    using u by (simp only: unat_div x_def [symmetric]) simp
  have "1000 * (n - c) div n \<le> 1000 * n div n"
    by (intro div_le_mono) simp
  then have "1000 * (n - c) div n < 2 ^ 16"
    using assms(1) by simp
  moreover have "\<not> (of_nat n :: u16) < of_nat c" "(of_nat n :: u16) \<noteq> 0"
    using u assms by (simp add: word_less_nat_alt, metis unat_0 less_irrefl)
  ultimately show ?thesis
    using d by (simp add: loss_milli_def Let_def unsigned_ucast_eq take_bit_nat_eq_self)
qed

text \<open>C31: A calibration dwell measures the loss: whichever probes of a dwell arrive, in any order and
  with repetitions, the last one makes the receiver tally them, the sender accepts that tally,
  and the loss it computes is exactly the share of distinct probes not received.\<close>

theorem dwell_measures_the_loss:
  assumes "opens_dwell run dwell r" and "1 \<le> unat n" "unat n \<le> 1024"
    and "list_all (\<lambda>(q, rssi, mcs, now). 1 \<le> unat q \<and> unat q < unat n) ps"
    and "dn_state d \<in> {ds_kEmitting, ds_kAwaitTally}" and "dn_run_id d = run" "dn_dwell_id d = dwell" "dn_count d = n"
  shows "\<exists>t d'. fst (snd (on_probe run dwell n n rssi mcs now (hear_probes run dwell n ps r))) = Some t
     \<and> dwell_on_tally (dt_run_id t) (dt_dwell_id t) (dt_received t) (dt_rssi_sum_dbm t) (dt_rx_mcs t) fp d = (d', True)
     \<and> dn_state d' = ds_kDone
     \<and> unat (loss_milli (dn_result d')) = 1000 * (unat n - card (insert n (fst ` set ps))) div unat n"
proof -
  have ps: "list_all (\<lambda>(q, rssi, mcs, now). 1 \<le> unat q \<and> unat q \<le> 1024 \<and> q \<noteq> n) ps"
    using assms(3,4) by (auto simp: list_all_iff)
  obtain t where t: "fst (snd (on_probe run dwell n n rssi mcs now (hear_probes run dwell n ps r))) = Some t"
    "dt_run_id t = run" "dt_dwell_id t = dwell" "dt_received t = of_nat (card (insert n (fst ` set ps)))"
    using tally_counts [OF assms(1-3) ps, of rssi mcs now] by blast
  have "unat ` insert n (fst ` set ps) \<subseteq> {1..unat n}"
    using assms(2,4) by (auto simp: list_all_iff)
  then have "card (unat ` insert n (fst ` set ps)) \<le> unat n"
    using card_mono [of "{1..unat n}"] by fastforce
  moreover have "inj_on unat (insert n (fst ` set ps))"
    by (simp add: inj_on_def word_unat_eq_iff)
  then have "card (unat ` insert n (fst ` set ps)) = card (insert n (fst ` set ps))"
    by (rule card_image)
  ultimately have "card (insert n (fst ` set ps)) \<le> unat n"
    by simp
  from loss_milli_exact [OF _ this assms(3)] show ?thesis
    using t assms(2,5-8) by (auto simp: dwell_on_tally_def)
qed

text \<open>Four probes sent, one lost, one heard twice.\<close>

definition dwell_demo_sender :: DwellSender where
  "dwell_demo_sender = fst (dwell_begin 5 1 4 100 (new_dwell_sender
     \<lparr>dp_probe_pace_us = 2000, dp_tally_wait_ms = 500, dp_tally_retries = 3, dp_max_probes_per_tick = 8\<rparr>))"

theorem dwell_measures_the_loss_witness:
  "\<exists>t d'. fst (snd (on_probe 5 1 4 4 (-50) 3 200 (hear_probes 5 1 4 [(1, -50, 3, 110), (3, -50, 3, 112), (1, -60, 3, 113)] new_dwell_receiver))) = Some t
     \<and> dwell_on_tally (dt_run_id t) (dt_dwell_id t) (dt_received t) (dt_rssi_sum_dbm t) (dt_rx_mcs t) 0 dwell_demo_sender = (d', True)
     \<and> dn_state d' = ds_kDone \<and> unat (loss_milli (dn_result d')) = 250"
proof -
  let ?ps = "[(1, -50, 3, 110), (3, -50, 3, 112), (1, -60, 3, 113)] :: heard list"
  have "opens_dwell 5 1 new_dwell_receiver"
    by (simp add: opens_dwell_def new_dwell_receiver_def)
  moreover have "dn_state dwell_demo_sender \<in> {ds_kEmitting, ds_kAwaitTally}" "dn_run_id dwell_demo_sender = 5"
    "dn_dwell_id dwell_demo_sender = 1" "dn_count dwell_demo_sender = 4"
    by (simp_all add: dwell_demo_sender_def dwell_begin_def new_dwell_sender_def)
  moreover have "card {4, 1, 3, 1 :: u16} = 3"
    by (simp add: card_insert_if)
  ultimately show ?thesis
    using dwell_measures_the_loss [of 5 1 new_dwell_receiver 4 ?ps dwell_demo_sender "-50" 3 200 0]
    by (simp del: hear_probes.simps)
qed

end
