(* ===== verification/Calibrate.thy ===== *)
theory Calibrate
  imports Power_Seek Calib_Dwell
begin

text \<open>
  core/include/wblink/calibrate.h: the craft's calibration of its eight downlink rungs. A run pins
  one rung after the other, sweeps its power with the seek over dwells, and ends by handing the power
  back. The \<open>double\<close> operations are an argument; the fail reasons, strings in the code, are a type.
\<close>

section \<open>The craft's calibration\<close>

record CalibrateParams =
  cp_loss_ok_milli :: u16
  cp_loss_bad_milli :: u16
  cp_seek_step_qdb :: int
  cp_rssi_guard_dbm :: int
  cp_min_qdb :: int
  cp_max_qdb :: int
  cp_settle_ms :: u32
  cp_dwell_probe_frames :: u16
  cp_dwell_verify_frames :: u16
  cp_dwell :: DwellSendParams
  cp_hard_cap_ms :: u32
  cp_levels :: "u8 list"
  cp_taper_rung_ceiling :: bool

text \<open>\<open>std::clamp\<close>.\<close>

definition clamp_int :: "int \<Rightarrow> int \<Rightarrow> int \<Rightarrow> int" where
  "clamp_int v lo hi = (if v < lo then lo else if hi < v then hi else v)"

definition rung_max_qdb :: "CalibrateParams \<Rightarrow> nat \<Rightarrow> int" where
  "rung_max_qdb p rung =
     (if \<not> cp_taper_rung_ceiling p then cp_max_qdb p
      else (let lvl = (if rung < length (cp_levels p) then uint (cp_levels p ! rung) else kPowerLevelBaseline)
            in clamp_int (cp_max_qdb p + (lvl - kPowerLevelBaseline) * kQdbPerLevel) (cp_min_qdb p) (cp_max_qdb p)))"

record CalibCeiling =
  cc_last_clean_rssi :: int
  cc_has_bad :: bool
  cc_first_bad_rssi :: int

record CalibArtifact =
  ca_curve_qdb :: "int list"
  ca_placement_qdb :: "int list"
  ca_placement_rssi :: "int list"
  ca_placement_loss_milli :: "u16 list"
  ca_ceilings :: "CalibCeiling list"

definition zero_artifact :: CalibArtifact where
  "zero_artifact = \<lparr>ca_curve_qdb = replicate 8 0, ca_placement_qdb = replicate 8 0, ca_placement_rssi = replicate 8 0,
     ca_placement_loss_milli = replicate 8 0,
     ca_ceilings = replicate 8 \<lparr>cc_last_clean_rssi = 127, cc_has_bad = False, cc_first_bad_rssi = 0\<rparr>\<rparr>"

datatype CalibState = cs_kIdle | cs_kRunning | cs_kDone | cs_kFailed

datatype CalibFail = cf_abort | cf_hard_cap | cf_evidence_lost | cf_no_clean_point | cf_no_wall_found | cf_verify_failed
  | cf_artifact_write_failed | cf_structural

record CalibActions =
  at_pin_rung :: "u8 option"
  at_set_qdb :: "int option"
  at_restore :: bool
  at_artifact_ready :: bool

definition no_calib_actions :: CalibActions where
  "no_calib_actions = \<lparr>at_pin_rung = None, at_set_qdb = None, at_restore = False, at_artifact_ready = False\<rparr>"

record 'd Calibrator =
  cb_p :: CalibrateParams
  cb_state :: CalibState
  cb_fail_reason :: "CalibFail option"
  cb_artifact :: CalibArtifact
  cb_started_ms :: u64
  cb_dwell_start_ms :: u64
  cb_run_id :: u32
  cb_dwell_seq :: u16
  cb_dwell_count :: u16
  cb_dwell :: DwellSender
  cb_rung :: u8
  cb_qdb :: int
  cb_placement_qdb :: int
  cb_enter_rung :: bool
  cb_restore_pending :: bool
  cb_artifact_pending :: bool
  cb_seek :: "'d PowerSeek"

definition seek_params_of :: "CalibrateParams \<Rightarrow> SeekParams" where
  "seek_params_of p = \<lparr>qk_loss_ok_milli = cp_loss_ok_milli p, qk_loss_bad_milli = cp_loss_bad_milli p,
     qk_seek_step_qdb = cp_seek_step_qdb p, qk_rssi_guard_dbm = cp_rssi_guard_dbm p, qk_min_qdb = cp_min_qdb p,
     qk_max_qdb = cp_max_qdb p, qk_verify_descent_budget = 3,
     qk_no_bracket_cap_qdb = (if cp_taper_rung_ceiling p then None else Some 0)\<rparr>"

definition new_calibrator :: "'d fpr \<Rightarrow> CalibrateParams \<Rightarrow> 'd Calibrator" where
  "new_calibrator F p = \<lparr>cb_p = p, cb_state = cs_kIdle, cb_fail_reason = None, cb_artifact = zero_artifact, cb_started_ms = 0,
     cb_dwell_start_ms = 0, cb_run_id = 0, cb_dwell_seq = 0, cb_dwell_count = 0, cb_dwell = new_dwell_sender (cp_dwell p),
     cb_rung = 0, cb_qdb = 0, cb_placement_qdb = 0, cb_enter_rung = True, cb_restore_pending = False, cb_artifact_pending = False,
     cb_seek = new_power_seek F (seek_params_of p)\<rparr>"

definition cal_start :: "'d fpr \<Rightarrow> u64 \<Rightarrow> 'd Calibrator \<Rightarrow> 'd Calibrator \<times> bool" where
  "cal_start F now_ms c =
     (if cb_state c = cs_kRunning then (c, False)
      else (let (sk, st) = seek_begin F (rung_max_qdb (cb_p c) 0) (cb_seek c)
            in (c\<lparr>cb_state := cs_kRunning, cb_started_ms := now_ms, cb_run_id := ucast now_ms OR 1, cb_dwell_seq := 0,
                  cb_restore_pending := False, cb_artifact_pending := False, cb_fail_reason := None, cb_artifact := zero_artifact,
                  cb_rung := 0, cb_seek := sk, cb_qdb := ss_qdb st, cb_enter_rung := True, cb_dwell_start_ms := 0\<rparr>, True)))"

definition cal_finish :: "CalibState \<Rightarrow> CalibFail option \<Rightarrow> 'd Calibrator \<Rightarrow> 'd Calibrator" where
  "cal_finish s reason c = c\<lparr>cb_state := s, cb_fail_reason := reason, cb_restore_pending := True,
     cb_artifact_pending := (s = cs_kDone), cb_dwell_start_ms := 0, cb_dwell := dwell_reset (cb_dwell c)\<rparr>"

definition cal_abort :: "CalibFail \<Rightarrow> 'd Calibrator \<Rightarrow> 'd Calibrator \<times> bool" where
  "cal_abort reason c = (if cb_state c \<noteq> cs_kRunning then (c, False) else (cal_finish cs_kFailed (Some reason) c, True))"

definition cal_on_tally :: "u32 \<Rightarrow> u16 \<Rightarrow> u16 \<Rightarrow> u32 \<Rightarrow> u8 \<Rightarrow> u8 \<Rightarrow> 'd Calibrator \<Rightarrow> 'd Calibrator" where
  "cal_on_tally run dwell got rssi_sum mcs finger c =
     (if cb_state c \<noteq> cs_kRunning then c
      else c\<lparr>cb_dwell := fst (dwell_on_tally run dwell got rssi_sum mcs finger (cb_dwell c))\<rparr>)"

definition cal_new_tick :: "'d Calibrator \<Rightarrow> 'd Calibrator" where
  "cal_new_tick c = c\<lparr>cb_dwell := dwell_new_tick (cb_dwell c)\<rparr>"

definition cal_next_probe :: "u64 \<Rightarrow> 'd Calibrator \<Rightarrow> 'd Calibrator \<times> u16 option" where
  "cal_next_probe now_ms c =
     (if cb_state c \<noteq> cs_kRunning \<or> cb_dwell_start_ms c = 0 \<or> now_ms < cb_dwell_start_ms c then (c, None)
      else (case dwell_next_probe now_ms (cb_dwell c) of (d, q) \<Rightarrow> (c\<lparr>cb_dwell := d\<rparr>, q)))"

definition take_restore :: "'d Calibrator \<Rightarrow> 'd Calibrator \<times> bool" where
  "take_restore c = (c\<lparr>cb_restore_pending := False\<rparr>, cb_restore_pending c)"

definition take_artifact :: "'d Calibrator \<Rightarrow> 'd Calibrator \<times> bool" where
  "take_artifact c = (c\<lparr>cb_artifact_pending := False\<rparr>, cb_artifact_pending c)"

definition cal_begin_dwell :: "u64 \<Rightarrow> u16 \<Rightarrow> 'd Calibrator \<Rightarrow> 'd Calibrator" where
  "cal_begin_dwell now_ms frames c =
     c\<lparr>cb_dwell_start_ms := now_ms + ucast (cp_settle_ms (cb_p c)), cb_dwell_count := frames, cb_dwell_seq := cb_dwell_seq c + 1,
       cb_dwell := fst (dwell_begin (cb_run_id c) (cb_dwell_seq c + 1) frames now_ms (cb_dwell c))\<rparr>"

definition sync_ceiling :: "'d Calibrator \<Rightarrow> 'd Calibrator" where
  "sync_ceiling c = c\<lparr>cb_artifact := (cb_artifact c)\<lparr>ca_ceilings := (ca_ceilings (cb_artifact c))[unat (cb_rung c) :=
     \<lparr>cc_last_clean_rssi = pk_last_clean_rssi (cb_seek c), cc_has_bad = pk_has_bad (cb_seek c), cc_first_bad_rssi = pk_first_bad_rssi (cb_seek c)\<rparr>]\<rparr>\<rparr>"

text \<open>The end of a run, with the restore it owes.\<close>

definition cal_fail :: "CalibFail \<Rightarrow> CalibActions \<Rightarrow> 'd Calibrator \<Rightarrow> 'd Calibrator \<times> CalibActions" where
  "cal_fail reason a c = (case take_restore (cal_finish cs_kFailed (Some reason) c) of (c, r) \<Rightarrow> (c, a\<lparr>at_restore := r\<rparr>))"

definition apply_step :: "CalibActions \<Rightarrow> u64 \<Rightarrow> SeekStep \<Rightarrow> 'd Calibrator \<Rightarrow> 'd Calibrator \<times> CalibActions" where
  "apply_step a now_ms s c =
     (let c = (sync_ceiling c)\<lparr>cb_qdb := ss_qdb s\<rparr>;
          a = (if ss_power_changed s then a\<lparr>at_set_qdb := Some (ss_qdb s)\<rparr> else a)
      in case ss_kind s of
           sk_kFailed \<Rightarrow> cal_fail cf_no_clean_point a c
         | sk_kVerify \<Rightarrow> (cal_begin_dwell now_ms (cp_dwell_verify_frames (cb_p c)) c, a)
         | sk_kDone \<Rightarrow> (cal_begin_dwell now_ms (cp_dwell_probe_frames (cb_p c)) c, a)
         | sk_kProbe \<Rightarrow> (cal_begin_dwell now_ms (cp_dwell_probe_frames (cb_p c)) c, a))"

definition found_no_wall_anywhere :: "'d Calibrator \<Rightarrow> bool" where
  "found_no_wall_anywhere c =
     list_all (\<lambda>m. \<not> cc_has_bad (ca_ceilings (cb_artifact c) ! m)
                 \<and> \<not> ca_placement_qdb (cb_artifact c) ! m < rung_max_qdb (cb_p c) m) [0..<8]"

definition author_curve :: "'d Calibrator \<Rightarrow> 'd Calibrator" where
  "author_curve c = c\<lparr>cb_artifact := (cb_artifact c)\<lparr>ca_curve_qdb :=
     map (\<lambda>m. ca_placement_qdb (cb_artifact c) ! m - (uint (cp_levels (cb_p c) ! m) - kPowerLevelBaseline) * kQdbPerLevel) [0..<8]\<rparr>\<rparr>"

definition next_rung :: "'d fpr \<Rightarrow> CalibActions \<Rightarrow> u64 \<Rightarrow> 'd Calibrator \<Rightarrow> 'd Calibrator \<times> CalibActions" where
  "next_rung F a now_ms c =
     (if 7 \<le> cb_rung c
      then (if cp_taper_rung_ceiling (cb_p c) \<and> found_no_wall_anywhere c then cal_fail cf_no_wall_found a c
            else (let (c, r) = take_restore (cal_finish cs_kDone None (author_curve c));
                      (c, ar) = take_artifact c
                  in (c, a\<lparr>at_restore := r, at_artifact_ready := ar\<rparr>)))
      else (let (sk, st) = seek_begin F (rung_max_qdb (cb_p c) (unat (cb_rung c + 1))) (cb_seek c);
                c = c\<lparr>cb_rung := cb_rung c + 1, cb_seek := sk, cb_qdb := ss_qdb st\<rparr>
            in (cal_begin_dwell now_ms (cp_dwell_probe_frames (cb_p c)) c,
                a\<lparr>at_pin_rung := Some (cb_rung c), at_set_qdb := Some (ss_qdb st)\<rparr>)))"

definition guard_obs :: "'d fpr \<Rightarrow> int \<Rightarrow> 'd" where
  "guard_obs F guard = fp_sub F (fp_of_int F guard) (fp_of_int F 60)"

definition mean_rssi :: "'d fpr \<Rightarrow> int \<Rightarrow> DwellResult \<Rightarrow> 'd" where
  "mean_rssi F guard res =
     (if 0 < dr_received res then fp_div F (fp_of_int F (sint (dr_rssi_sum_dbm res))) (fp_of_int F (uint (dr_received res)))
      else guard_obs F guard)"

definition place_rung :: "'d fpr \<Rightarrow> SeekStep \<Rightarrow> 'd Calibrator \<Rightarrow> 'd Calibrator" where
  "place_rung F s c =
     (let r = unat (cb_rung c); a = cb_artifact c
      in sync_ceiling (c\<lparr>cb_artifact := a\<lparr>ca_placement_qdb := (ca_placement_qdb a)[r := ss_qdb s],
             ca_placement_rssi := (ca_placement_rssi a)[r := to_int8 (fp_lround F (pk_placed_rssi (cb_seek c)))],
             ca_placement_loss_milli := (ca_placement_loss_milli a)[r := pk_placed_loss (cb_seek c)]\<rparr>,
           cb_placement_qdb := ss_qdb s\<rparr>))"

definition cal_blackout :: "'d fpr \<Rightarrow> u64 \<Rightarrow> 'd Calibrator \<Rightarrow> 'd Calibrator \<times> CalibActions" where
  "cal_blackout F now_ms c =
     (let (sk, s) = seek_on_dwell F dv_kBad (guard_obs F (cp_rssi_guard_dbm (cb_p c))) 1000 (cb_seek c);
          c = c\<lparr>cb_seek := sk\<rparr>
      in if ss_kind s = sk_kProbe \<or> ss_kind s = sk_kVerify then apply_step no_calib_actions now_ms s c
         else cal_fail cf_evidence_lost no_calib_actions c)"

definition cal_score :: "'d fpr \<Rightarrow> u64 \<Rightarrow> 'd Calibrator \<Rightarrow> 'd Calibrator \<times> CalibActions" where
  "cal_score F now_ms c =
     (let res = dn_result (cb_dwell c);
          loss = loss_milli res;
          rssi = mean_rssi F (cp_rssi_guard_dbm (cb_p c)) res;
          c = c\<lparr>cb_dwell := dwell_reset (cb_dwell c)\<rparr>;
          v = (if cp_loss_bad_milli (cb_p c) < loss then dv_kBad else dv_kClean);
          was_verify = (pk_phase (cb_seek c) = sph_kVerify);
          (sk, s) = seek_on_dwell F v rssi loss (cb_seek c);
          c = c\<lparr>cb_seek := sk\<rparr>
      in if was_verify \<and> ss_kind s = sk_kDone then next_rung F no_calib_actions now_ms (place_rung F s c)
         else apply_step no_calib_actions now_ms s c)"

definition cal_tick :: "'d fpr \<Rightarrow> u64 \<Rightarrow> 'd Calibrator \<Rightarrow> 'd Calibrator \<times> CalibActions" where
  "cal_tick F now_ms c =
     (if cb_state c \<noteq> cs_kRunning
      then (let (c, r) = take_restore c; (c, ar) = take_artifact c
            in (c, no_calib_actions\<lparr>at_restore := r, at_artifact_ready := ar\<rparr>))
      else if ucast (cp_hard_cap_ms (cb_p c)) < now_ms - cb_started_ms c then cal_fail cf_hard_cap no_calib_actions c
      else if dn_state (cb_dwell c) = ds_kNoEvidence then cal_blackout F now_ms c
      else if cb_enter_rung c
      then (cal_begin_dwell now_ms (cp_dwell_probe_frames (cb_p c)) (c\<lparr>cb_enter_rung := False\<rparr>),
            no_calib_actions\<lparr>at_pin_rung := Some (cb_rung c), at_set_qdb := Some (cb_qdb c)\<rparr>)
      else if dn_state (cb_dwell c) \<noteq> ds_kDone then (c, no_calib_actions)
      else cal_score F now_ms c)"

definition calib_state_value :: "CalibState \<Rightarrow> u8" where
  "calib_state_value s = (case s of cs_kIdle \<Rightarrow> 0 | cs_kRunning \<Rightarrow> 1 | cs_kDone \<Rightarrow> 2 | cs_kFailed \<Rightarrow> 3)"

definition cal_word :: "'d Calibrator \<Rightarrow> u8" where
  "cal_word c = (calib_state_value (cb_state c) AND 0x03)
     OR push_bit 2 ((if cb_state c = cs_kRunning then cb_rung c else 0) AND 0x07)"

end
