(* ===== verification/Uplink_Calibrate.thy ===== *)
theory Uplink_Calibrate
  imports Calibrate
begin

text \<open>
  core/include/wblink/uplink_calibrate.h: the ground's calibration of its one uplink rung, and the
  sequencer that starts the craft's calibration only after the uplink has been placed.
\<close>

section \<open>The ground's calibration\<close>

record UplinkRate =
  ur_mcs :: u8
  ur_short_gi :: bool

record UplinkCalibParams =
  up_seek :: SeekParams
  up_rung_level :: u8
  up_taper_rung_ceiling :: bool
  up_settle_ms :: u32
  up_dwell_probe_frames :: u16
  up_dwell_verify_frames :: u16
  up_dwell :: DwellSendParams
  up_hard_cap_ms :: u32
  up_rate :: UplinkRate

record UplinkPlacement =
  upl_mcs :: u8
  upl_short_gi :: bool
  upl_placement_qdb :: int
  upl_placement_rssi_dbm :: int
  upl_placement_loss_milli :: u16
  upl_last_clean_qdb :: int
  upl_has_first_bad :: bool
  upl_first_bad_qdb :: int

record UplinkCalibActions =
  ua_set_rate :: "UplinkRate option"
  ua_set_qdb :: "int option"
  ua_restore :: bool
  ua_artifact_ready :: bool

record DwellRecord =
  dl_seq :: u32
  dl_rung :: u8
  dl_qdb :: int
  dl_verify :: bool
  dl_sent :: u32
  dl_received :: u32
  dl_loss_milli :: u16
  dl_rssi_mean :: int
  dl_target :: u32

record 'd UplinkCalibrator =
  ub_p :: UplinkCalibParams
  ub_dwell :: DwellSender
  ub_seek :: "'d PowerSeek"
  ub_state :: CalibState
  ub_fail_reason :: "CalibFail option"
  ub_placements :: "UplinkPlacement list"
  ub_started_ms :: u64
  ub_dwell_start_ms :: u64
  ub_run_id :: u32
  ub_dwell_seq :: u16
  ub_dwell_count :: u16
  ub_qdb :: int
  ub_restore_pending :: bool
  ub_artifact_pending :: bool
  ub_pending_rate :: "UplinkRate option"
  ub_pending_qdb :: "int option"
  ub_last :: DwellRecord

definition no_uplink_actions :: UplinkCalibActions where
  "no_uplink_actions = \<lparr>ua_set_rate = None, ua_set_qdb = None, ua_restore = False, ua_artifact_ready = False\<rparr>"

definition new_uplink_calibrator :: "'d fpr \<Rightarrow> UplinkCalibParams \<Rightarrow> 'd UplinkCalibrator" where
  "new_uplink_calibrator F p = \<lparr>ub_p = p, ub_dwell = new_dwell_sender (up_dwell p), ub_seek = new_power_seek F (up_seek p),
     ub_state = cs_kIdle, ub_fail_reason = None, ub_placements = [], ub_started_ms = 0, ub_dwell_start_ms = 0, ub_run_id = 0,
     ub_dwell_seq = 0, ub_dwell_count = 0, ub_qdb = 0, ub_restore_pending = False, ub_artifact_pending = False,
     ub_pending_rate = None, ub_pending_qdb = None,
     ub_last = \<lparr>dl_seq = 0, dl_rung = 0, dl_qdb = 0, dl_verify = False, dl_sent = 0, dl_received = 0, dl_loss_milli = 0,
                dl_rssi_mean = 0, dl_target = 0\<rparr>\<rparr>"

definition up_set_max_qdb :: "int \<Rightarrow> 'd UplinkCalibrator \<Rightarrow> 'd UplinkCalibrator \<times> bool" where
  "up_set_max_qdb qdb u =
     (if ub_state u = cs_kRunning then (u, False)
      else (u\<lparr>ub_p := (ub_p u)\<lparr>up_seek := (up_seek (ub_p u))\<lparr>qk_max_qdb := qdb\<rparr>\<rparr>\<rparr>, True))"

definition rung_ceiling_qdb :: "UplinkCalibParams \<Rightarrow> int" where
  "rung_ceiling_qdb p =
     (if \<not> up_taper_rung_ceiling p then qk_max_qdb (up_seek p)
      else clamp_int (qk_max_qdb (up_seek p) + (uint (up_rung_level p) - kPowerLevelBaseline) * kQdbPerLevel)
             (qk_min_qdb (up_seek p)) (qk_max_qdb (up_seek p)))"

definition up_begin_dwell :: "u64 \<Rightarrow> u16 \<Rightarrow> 'd UplinkCalibrator \<Rightarrow> 'd UplinkCalibrator" where
  "up_begin_dwell now_ms frames u =
     u\<lparr>ub_dwell_start_ms := now_ms + ucast (up_settle_ms (ub_p u)), ub_dwell_count := frames, ub_dwell_seq := ub_dwell_seq u + 1,
       ub_dwell := fst (dwell_begin (ub_run_id u) (ub_dwell_seq u + 1) frames now_ms (ub_dwell u))\<rparr>"

definition up_start :: "'d fpr \<Rightarrow> u64 \<Rightarrow> 'd UplinkCalibrator \<Rightarrow> 'd UplinkCalibrator \<times> bool" where
  "up_start F now_ms u =
     (if ub_state u = cs_kRunning then (u, False)
      else (let (sk, st) = seek_begin F (rung_ceiling_qdb (ub_p u)) (ub_seek u);
                u = u\<lparr>ub_state := cs_kRunning, ub_started_ms := now_ms, ub_fail_reason := None, ub_restore_pending := False,
                      ub_artifact_pending := False, ub_placements := [], ub_run_id := ucast now_ms OR 1, ub_dwell_seq := 0,
                      ub_pending_rate := Some (up_rate (ub_p u)), ub_seek := sk, ub_qdb := ss_qdb st,
                      ub_pending_qdb := Some (ss_qdb st)\<rparr>
            in (up_begin_dwell now_ms (up_dwell_probe_frames (ub_p u)) u, True)))"

definition up_finish :: "CalibState \<Rightarrow> CalibFail option \<Rightarrow> 'd UplinkCalibrator \<Rightarrow> 'd UplinkCalibrator" where
  "up_finish s reason u = u\<lparr>ub_state := s, ub_fail_reason := reason, ub_restore_pending := True,
     ub_artifact_pending := (s = cs_kDone), ub_dwell_start_ms := 0, ub_dwell := dwell_reset (ub_dwell u)\<rparr>"

definition up_abort :: "'d UplinkCalibrator \<Rightarrow> 'd UplinkCalibrator \<times> bool" where
  "up_abort u = (if ub_state u \<noteq> cs_kRunning then (u, False) else (up_finish cs_kFailed (Some cf_abort) u, True))"

definition fail_persist :: "'d UplinkCalibrator \<Rightarrow> 'd UplinkCalibrator" where
  "fail_persist u = (if ub_state u \<noteq> cs_kDone then u else up_finish cs_kFailed (Some cf_artifact_write_failed) u)"

definition up_on_tally :: "u32 \<Rightarrow> u16 \<Rightarrow> u16 \<Rightarrow> u32 \<Rightarrow> u8 \<Rightarrow> u8 \<Rightarrow> 'd UplinkCalibrator \<Rightarrow> 'd UplinkCalibrator" where
  "up_on_tally run dwell got rssi_sum mcs finger u =
     (if ub_state u \<noteq> cs_kRunning then u
      else u\<lparr>ub_dwell := fst (dwell_on_tally run dwell got rssi_sum mcs finger (ub_dwell u))\<rparr>)"

definition up_new_tick :: "'d UplinkCalibrator \<Rightarrow> 'd UplinkCalibrator" where
  "up_new_tick u = u\<lparr>ub_dwell := dwell_new_tick (ub_dwell u)\<rparr>"

definition up_next_probe :: "u64 \<Rightarrow> 'd UplinkCalibrator \<Rightarrow> 'd UplinkCalibrator \<times> u16 option" where
  "up_next_probe now_ms u =
     (if ub_state u \<noteq> cs_kRunning \<or> ub_dwell_start_ms u = 0 \<or> now_ms < ub_dwell_start_ms u then (u, None)
      else (case dwell_next_probe now_ms (ub_dwell u) of (d, q) \<Rightarrow> (u\<lparr>ub_dwell := d\<rparr>, q)))"

definition up_take_restore :: "'d UplinkCalibrator \<Rightarrow> 'd UplinkCalibrator \<times> bool" where
  "up_take_restore u = (u\<lparr>ub_restore_pending := False\<rparr>, ub_restore_pending u)"

definition up_take_artifact :: "'d UplinkCalibrator \<Rightarrow> 'd UplinkCalibrator \<times> bool" where
  "up_take_artifact u = (u\<lparr>ub_artifact_pending := False\<rparr>, ub_artifact_pending u)"

definition up_fail :: "CalibFail \<Rightarrow> UplinkCalibActions \<Rightarrow> 'd UplinkCalibrator \<Rightarrow> 'd UplinkCalibrator \<times> UplinkCalibActions" where
  "up_fail reason a u = (case up_take_restore (up_finish cs_kFailed (Some reason) u) of (u, r) \<Rightarrow> (u, a\<lparr>ua_restore := r\<rparr>))"

definition uplink_placement :: "'d fpr \<Rightarrow> SeekStep \<Rightarrow> 'd UplinkCalibrator \<Rightarrow> UplinkPlacement" where
  "uplink_placement F s u =
     \<lparr>upl_mcs = ur_mcs (up_rate (ub_p u)), upl_short_gi = ur_short_gi (up_rate (ub_p u)), upl_placement_qdb = ss_qdb s,
      upl_placement_rssi_dbm = to_int8 (fp_lround F (pk_placed_rssi (ub_seek u))),
      upl_placement_loss_milli = pk_placed_loss (ub_seek u), upl_last_clean_qdb = seek_last_clean_qdb (ub_seek u),
      upl_has_first_bad = pk_has_bad (ub_seek u), upl_first_bad_qdb = pk_first_bad_qdb (ub_seek u)\<rparr>"

definition up_done :: "'d fpr \<Rightarrow> SeekStep \<Rightarrow> UplinkCalibActions \<Rightarrow> 'd UplinkCalibrator \<Rightarrow> 'd UplinkCalibrator \<times> UplinkCalibActions" where
  "up_done F s a u =
     (if qk_loss_ok_milli (up_seek (ub_p u)) < pk_placed_loss (ub_seek u) then up_fail cf_verify_failed a u
      else (let pl = uplink_placement F s u;
                u = u\<lparr>ub_placements := ub_placements u @ [pl]\<rparr>
            in if up_taper_rung_ceiling (ub_p u) \<and> \<not> upl_has_first_bad pl \<and> rung_ceiling_qdb (ub_p u) \<le> upl_placement_qdb pl
               then up_fail cf_no_wall_found a u
               else (let (u, r) = up_take_restore (up_finish cs_kDone None u);
                         (u, ar) = up_take_artifact u
                     in (u, a\<lparr>ua_restore := r, ua_artifact_ready := ar\<rparr>))))"

definition up_score ::
  "'d fpr \<Rightarrow> UplinkCalibActions \<Rightarrow> u64 \<Rightarrow> u16 \<Rightarrow> 'd \<Rightarrow> u32 \<Rightarrow> u32 \<Rightarrow> bool \<Rightarrow> 'd UplinkCalibrator
   \<Rightarrow> 'd UplinkCalibrator \<times> UplinkCalibActions" where
  "up_score F a now_ms loss rssi sent got blackout u =
     (let verify = (pk_phase (ub_seek u) = sph_kVerify);
          v = (if qk_loss_bad_milli (up_seek (ub_p u)) < loss then dv_kBad else dv_kClean);
          u = u\<lparr>ub_last := \<lparr>dl_seq = dl_seq (ub_last u) + 1, dl_rung = 0, dl_qdb = ub_qdb u, dl_verify = verify, dl_sent = sent,
                 dl_received = got, dl_loss_milli = loss, dl_rssi_mean = fp_lround F rssi, dl_target = ucast (ub_dwell_count u)\<rparr>\<rparr>;
          (sk, s) = seek_on_dwell F v rssi loss (ub_seek u);
          u = u\<lparr>ub_seek := sk, ub_qdb := ss_qdb s\<rparr>;
          a = (if ss_power_changed s then a\<lparr>ua_set_qdb := Some (ss_qdb s)\<rparr> else a)
      in case ss_kind s of
           sk_kFailed \<Rightarrow> up_fail (if blackout then cf_evidence_lost else cf_no_clean_point) a u
         | sk_kDone \<Rightarrow> up_done F s a u
         | sk_kVerify \<Rightarrow> (up_begin_dwell now_ms (up_dwell_verify_frames (ub_p u)) u, a)
         | sk_kProbe \<Rightarrow> (up_begin_dwell now_ms (up_dwell_probe_frames (ub_p u)) u, a))"

definition up_tick :: "'d fpr \<Rightarrow> u64 \<Rightarrow> 'd UplinkCalibrator \<Rightarrow> 'd UplinkCalibrator \<times> UplinkCalibActions" where
  "up_tick F now_ms u =
     (if ub_state u \<noteq> cs_kRunning
      then (let (u, r) = up_take_restore u; (u, ar) = up_take_artifact u
            in (u, no_uplink_actions\<lparr>ua_restore := r, ua_artifact_ready := ar\<rparr>))
      else (let a = no_uplink_actions\<lparr>ua_set_rate := ub_pending_rate u, ua_set_qdb := ub_pending_qdb u\<rparr>;
                u = u\<lparr>ub_pending_rate := None, ub_pending_qdb := None\<rparr>
            in if ucast (up_hard_cap_ms (ub_p u)) < now_ms - ub_started_ms u then up_fail cf_hard_cap a u
               else if dn_state (ub_dwell u) = ds_kNoEvidence
               then up_score F a now_ms 1000 (guard_obs F (qk_rssi_guard_dbm (up_seek (ub_p u)))) (ucast (ub_dwell_count u)) 0 True u
               else if dn_state (ub_dwell u) \<noteq> ds_kDone then (u, a)
               else (let res = dn_result (ub_dwell u); u = u\<lparr>ub_dwell := dwell_reset (ub_dwell u)\<rparr>
                     in up_score F a now_ms (loss_milli res) (mean_rssi F (qk_rssi_guard_dbm (up_seek (ub_p u))) res)
                          (ucast (dr_sent res)) (ucast (dr_received res)) False u)))"

section \<open>The sequencer\<close>

datatype CalibPhase = cph_kIdle | cph_kUplink | cph_kDownlink | cph_kDone | cph_kFailed

datatype SeqFail = sf_abort | sf_uplink_phase_failed | sf_downlink_timeout | sf_downlink_no_ack | sf_downlink_phase_failed

record SeqActions =
  sa_start_downlink :: bool
  sa_abort_downlink :: bool

record CalibSequencer =
  sq_start_timeout_ms :: u32
  sq_cap_ms :: u32
  sq_phase :: CalibPhase
  sq_fail_reason :: "SeqFail option"
  sq_entered_ms :: u64
  sq_saw_running :: bool

definition new_sequencer :: "u32 \<Rightarrow> u32 \<Rightarrow> CalibSequencer" where
  "new_sequencer start_timeout cap = \<lparr>sq_start_timeout_ms = start_timeout, sq_cap_ms = cap, sq_phase = cph_kIdle,
     sq_fail_reason = None, sq_entered_ms = 0, sq_saw_running = False\<rparr>"

definition no_seq_actions :: SeqActions where
  "no_seq_actions = \<lparr>sa_start_downlink = False, sa_abort_downlink = False\<rparr>"

definition seq_start :: "u64 \<Rightarrow> CalibSequencer \<Rightarrow> CalibSequencer" where
  "seq_start now_ms s = s\<lparr>sq_phase := cph_kUplink, sq_fail_reason := None, sq_entered_ms := now_ms, sq_saw_running := False\<rparr>"

definition seq_finish :: "CalibPhase \<Rightarrow> SeqFail option \<Rightarrow> u64 \<Rightarrow> CalibSequencer \<Rightarrow> CalibSequencer" where
  "seq_finish p reason now_ms s = s\<lparr>sq_phase := p, sq_fail_reason := reason, sq_entered_ms := now_ms\<rparr>"

definition seq_abort :: "u64 \<Rightarrow> CalibSequencer \<Rightarrow> CalibSequencer \<times> SeqActions" where
  "seq_abort now_ms s =
     (let a = (if sq_phase s = cph_kDownlink then no_seq_actions\<lparr>sa_abort_downlink := True\<rparr> else no_seq_actions)
      in (if sq_phase s = cph_kUplink \<or> sq_phase s = cph_kDownlink then seq_finish cph_kFailed (Some sf_abort) now_ms s else s, a))"

definition seq_tick :: "CalibState \<Rightarrow> int \<Rightarrow> u64 \<Rightarrow> CalibSequencer \<Rightarrow> CalibSequencer \<times> SeqActions" where
  "seq_tick uplink_state craft now_ms s =
     (case sq_phase s of
        cph_kUplink \<Rightarrow>
          if uplink_state = cs_kRunning then (s, no_seq_actions)
          else if uplink_state = cs_kDone
          then (s\<lparr>sq_phase := cph_kDownlink, sq_entered_ms := now_ms, sq_saw_running := False\<rparr>, no_seq_actions\<lparr>sa_start_downlink := True\<rparr>)
          else (seq_finish cph_kFailed (Some sf_uplink_phase_failed) now_ms s, no_seq_actions)
      | cph_kDownlink \<Rightarrow>
          if sq_saw_running s \<and> ucast (sq_cap_ms s) < now_ms - sq_entered_ms s
          then (seq_finish cph_kFailed (Some sf_downlink_timeout) now_ms s, no_seq_actions\<lparr>sa_abort_downlink := True\<rparr>)
          else if craft = 1 then (s\<lparr>sq_saw_running := True\<rparr>, no_seq_actions)
          else if \<not> sq_saw_running s
          then (if ucast (sq_start_timeout_ms s) < now_ms - sq_entered_ms s
                then (seq_finish cph_kFailed (Some sf_downlink_no_ack) now_ms s, no_seq_actions) else (s, no_seq_actions))
          else if craft = 2 then (seq_finish cph_kDone None now_ms s, no_seq_actions)
          else if craft = 3 then (seq_finish cph_kFailed (Some sf_downlink_phase_failed) now_ms s, no_seq_actions)
          else (s, no_seq_actions)
      | _ \<Rightarrow> (s, no_seq_actions))"

definition seq_active :: "CalibSequencer \<Rightarrow> bool" where
  "seq_active s = (sq_phase s = cph_kUplink \<or> sq_phase s = cph_kDownlink)"

end
