(* ===== verification/Calibrate_Props.thy ===== *)
theory Calibrate_Props
  imports Calibrate
begin

text \<open>
  The craft's calibration over arbitrary sequences of starts, aborts, tallies, probe drains and
  ticks: every power it commands lies between the floor and the ceiling of the rung it is on, and
  once a tick finds the run over, the power has been handed back.
\<close>

section \<open>Runs\<close>

datatype CalEvent =
    CalStart u64
  | CalAbort CalibFail
  | CalTally u32 u16 u16 u32 u8 u8
  | CalNewTick
  | CalProbe u64
  | CalTick u64

fun cal_step :: "'d fpr \<Rightarrow> CalEvent \<Rightarrow> 'd Calibrator \<Rightarrow> 'd Calibrator \<times> CalibActions" where
  "cal_step F (CalStart now) c = (fst (cal_start F now c), no_calib_actions)"
| "cal_step F (CalAbort r) c = (fst (cal_abort r c), no_calib_actions)"
| "cal_step F (CalTally run dwell got rssi mcs finger) c = (cal_on_tally run dwell got rssi mcs finger c, no_calib_actions)"
| "cal_step F CalNewTick c = (cal_new_tick c, no_calib_actions)"
| "cal_step F (CalProbe now) c = (fst (cal_next_probe now c), no_calib_actions)"
| "cal_step F (CalTick now) c = cal_tick F now c"

text \<open>The rung a command was given on, and the command.\<close>

fun cal_run :: "'d fpr \<Rightarrow> CalEvent list \<Rightarrow> 'd Calibrator \<Rightarrow> 'd Calibrator \<times> (u8 \<times> CalibActions) list" where
  "cal_run F [] c = (c, [])"
| "cal_run F (e # es) c =
     (case cal_step F e c of (c1, a) \<Rightarrow> case cal_run F es c1 of (c2, as) \<Rightarrow> (c2, (cb_rung c1, a) # as))"

section \<open>What a tick does to the state\<close>

lemma dwell_only_frame [simp]:
  "cb_state (cal_on_tally r d g s m f c) = cb_state c" "cb_seek (cal_on_tally r d g s m f c) = cb_seek c"
  "cb_p (cal_on_tally r d g s m f c) = cb_p c" "cb_rung (cal_on_tally r d g s m f c) = cb_rung c"
  "cb_qdb (cal_on_tally r d g s m f c) = cb_qdb c" "cb_restore_pending (cal_on_tally r d g s m f c) = cb_restore_pending c"
  "cb_state (cal_new_tick c) = cb_state c" "cb_seek (cal_new_tick c) = cb_seek c"
  "cb_p (cal_new_tick c) = cb_p c" "cb_rung (cal_new_tick c) = cb_rung c"
  "cb_qdb (cal_new_tick c) = cb_qdb c" "cb_restore_pending (cal_new_tick c) = cb_restore_pending c"
  "cb_state (fst (cal_next_probe n c)) = cb_state c" "cb_seek (fst (cal_next_probe n c)) = cb_seek c"
  "cb_p (fst (cal_next_probe n c)) = cb_p c" "cb_rung (fst (cal_next_probe n c)) = cb_rung c"
  "cb_qdb (fst (cal_next_probe n c)) = cb_qdb c" "cb_restore_pending (fst (cal_next_probe n c)) = cb_restore_pending c"
  by (simp_all add: cal_on_tally_def cal_new_tick_def cal_next_probe_def split: prod.split)

lemma begin_dwell_frame [simp]:
  "cb_state (cal_begin_dwell n f c) = cb_state c" "cb_seek (cal_begin_dwell n f c) = cb_seek c"
  "cb_p (cal_begin_dwell n f c) = cb_p c" "cb_rung (cal_begin_dwell n f c) = cb_rung c"
  "cb_qdb (cal_begin_dwell n f c) = cb_qdb c" "cb_restore_pending (cal_begin_dwell n f c) = cb_restore_pending c"
  by (simp_all add: cal_begin_dwell_def)

lemma artifact_frame [simp]:
  "cb_state (sync_ceiling c) = cb_state c" "cb_seek (sync_ceiling c) = cb_seek c" "cb_p (sync_ceiling c) = cb_p c"
  "cb_rung (sync_ceiling c) = cb_rung c" "cb_qdb (sync_ceiling c) = cb_qdb c"
  "cb_restore_pending (sync_ceiling c) = cb_restore_pending c"
  "cb_state (place_rung F s c) = cb_state c" "cb_seek (place_rung F s c) = cb_seek c" "cb_p (place_rung F s c) = cb_p c"
  "cb_rung (place_rung F s c) = cb_rung c" "cb_restore_pending (place_rung F s c) = cb_restore_pending c"
  "cb_state (author_curve c) = cb_state c" "cb_seek (author_curve c) = cb_seek c" "cb_p (author_curve c) = cb_p c"
  "cb_rung (author_curve c) = cb_rung c"
  by (simp_all add: sync_ceiling_def place_rung_def author_curve_def Let_def)

lemma no_calib_actions_fields [simp]:
  "at_set_qdb no_calib_actions = None" "at_restore no_calib_actions = False"
  by (simp_all add: no_calib_actions_def)

text \<open>A run that ends pays the restore in the same tick and commands no power with it.\<close>

definition handed_back :: "'d Calibrator \<times> CalibActions \<Rightarrow> bool" where
  "handed_back r \<longleftrightarrow> (cb_state (fst r) = cs_kRunning \<longrightarrow> \<not> at_restore (snd r))
     \<and> (cb_state (fst r) \<noteq> cs_kRunning \<longrightarrow> at_restore (snd r) \<and> at_set_qdb (snd r) = None) \<and> \<not> cb_restore_pending (fst r)"

lemma cal_fail_handed_back [simp]:
  "handed_back (cal_fail r a c) \<longleftrightarrow> at_set_qdb a = None"
  by (simp add: cal_fail_def take_restore_def cal_finish_def handed_back_def)

lemma failed_step_keeps_power:
  "seek_on_dwell F v rssi loss s = (s', st) \<Longrightarrow> ss_kind st = sk_kFailed \<Longrightarrow> \<not> ss_power_changed st"
  by (auto simp: seek_on_dwell_def seek_verify_def seek_climb_def seek_place_def Let_def split: if_splits option.splits prod.splits)

lemma apply_step_handed_back:
  assumes "cb_state c = cs_kRunning" and "\<not> cb_restore_pending c" and "ss_kind s = sk_kFailed \<Longrightarrow> \<not> ss_power_changed s"
  shows "handed_back (apply_step no_calib_actions now s c)"
proof (cases "ss_kind s")
  case sk_kFailed
  then show ?thesis
    using assms(3) by (simp add: apply_step_def Let_def no_calib_actions_def)
qed (use assms(1,2) in \<open>simp_all add: apply_step_def Let_def handed_back_def no_calib_actions_def\<close>)

lemma next_rung_handed_back:
  assumes "cb_state c = cs_kRunning" and "\<not> cb_restore_pending c"
  shows "handed_back (next_rung F no_calib_actions now c)"
  using assms
  by (simp add: next_rung_def Let_def take_restore_def take_artifact_def cal_finish_def no_calib_actions_def
      handed_back_def [of "(x, y)" for x y] split: prod.split)

lemma cal_tick_handed_back:
  assumes "cb_state c = cs_kRunning" and "\<not> cb_restore_pending c"
  shows "handed_back (cal_tick F now c)"
proof -
  have "handed_back (cal_blackout F now c)"
    using assms by (auto simp: cal_blackout_def Let_def intro!: apply_step_handed_back split: prod.split)
  moreover have "handed_back (cal_score F now c)"
    using assms
    by (auto simp: cal_score_def Let_def dest: failed_step_keeps_power intro!: next_rung_handed_back apply_step_handed_back
        split: prod.split)
  ultimately show ?thesis
    using assms by (simp add: cal_tick_def handed_back_def [of "(x, y)" for x y])
qed

section \<open>The power is handed back\<close>

text \<open>
  node/include/wblink/node/tx_core.h acts on a command in this order: the restore first, then the
  power. The calibration holds the power from its first command until a restore with no command.
\<close>

definition power_held_after :: "bool \<Rightarrow> CalibActions \<Rightarrow> bool" where
  "power_held_after held a \<longleftrightarrow> at_set_qdb a \<noteq> None \<or> held \<and> \<not> at_restore a"

definition power_held :: "(u8 \<times> CalibActions) list \<Rightarrow> bool" where
  "power_held as = fold (\<lambda>(r, a) held. power_held_after held a) as False"

lemma power_held_snoc [simp]: "power_held (as @ [(r, a)]) = power_held_after (power_held as) a"
  by (simp add: power_held_def)

lemma cal_run_append:
  "cal_run F (es @ fs) c = (case cal_run F es c of (c1, as) \<Rightarrow> case cal_run F fs c1 of (c2, bs) \<Rightarrow> (c2, as @ bs))"
  by (induction es arbitrary: c) (simp_all split: prod.split)

text \<open>While no run is on and no restore is owed, the power is not held.\<close>

definition owes :: "bool \<Rightarrow> 'd Calibrator \<Rightarrow> bool" where
  "owes held c \<longleftrightarrow> (cb_state c = cs_kRunning \<longrightarrow> \<not> cb_restore_pending c)
     \<and> (held \<longrightarrow> cb_state c = cs_kRunning \<or> cb_restore_pending c)"

lemma cal_tick_owes:
  assumes "owes held c" and "cal_tick F now c = (c', a)"
  shows "owes (power_held_after held a) c' \<and> (cb_state c' \<noteq> cs_kRunning \<longrightarrow> \<not> power_held_after held a)"
proof (cases "cb_state c = cs_kRunning")
  case True
  then show ?thesis
    using cal_tick_handed_back [of c F now] assms by (auto simp: owes_def power_held_after_def handed_back_def)
next
  case False
  then show ?thesis
    using assms by (auto simp: cal_tick_def take_restore_def take_artifact_def Let_def owes_def power_held_after_def)
qed

lemma cal_step_owes:
  assumes "owes held c" and "cal_step F e c = (c', a)"
  shows "owes (power_held_after held a) c'"
  using assms
proof (cases e)
  case (CalTick now)
  then show ?thesis
    using cal_tick_owes [OF assms(1)] assms(2) by simp
qed (auto simp: owes_def power_held_after_def cal_start_def cal_abort_def cal_finish_def Let_def split: prod.splits if_splits)

lemma cal_run_owes:
  assumes "owes held c" and "cal_run F es c = (c', as)"
  shows "owes (fold (\<lambda>(r, a) held. power_held_after held a) as held) c'"
  using assms
proof (induction es arbitrary: held c as)
  case (Cons e es)
  obtain c1 a where st: "cal_step F e c = (c1, a)"
    by fastforce
  obtain bs where "cal_run F es c1 = (c', bs)" and "as = (cb_rung c1, a) # bs"
    using Cons.prems(2) by (auto simp: st split: prod.splits)
  then show ?case
    using Cons.IH [OF cal_step_owes [OF Cons.prems(1) st]] by simp
qed simp

text \<open>C27: Whatever starts, aborts, tallies and ticks a craft's calibration has seen, a tick that
  finds the run over, ends it or finds it past the hard cap leaves no calibration power on the
  transmitter: the last command after every commanded power is a restore.\<close>

theorem calibration_hands_power_back:
  assumes "cal_run F es (new_calibrator F p) = (c, as)"
    and "cal_tick F now c = (c', a)"
    and "cb_state c \<noteq> cs_kRunning \<or> ucast (cp_hard_cap_ms (cb_p c)) < now - cb_started_ms c \<or> cb_state c' \<noteq> cs_kRunning"
  shows "cb_state c' \<noteq> cs_kRunning \<and> \<not> power_held (as @ [(cb_rung c', a)])"
proof -
  have "owes False (new_calibrator F p)"
    by (simp add: owes_def new_calibrator_def)
  from cal_run_owes [OF this assms(1)] have "owes (power_held as) c"
    by (simp add: power_held_def)
  from cal_tick_owes [OF this assms(2)]
  have "cb_state c' \<noteq> cs_kRunning \<longrightarrow> \<not> power_held (as @ [(cb_rung c', a)])"
    by simp
  moreover have "cb_state c' \<noteq> cs_kRunning"
  proof (cases "cb_state c = cs_kRunning \<and> ucast (cp_hard_cap_ms (cb_p c)) < now - cb_started_ms c")
    case True
    then have "cal_tick F now c = cal_fail cf_hard_cap no_calib_actions c"
      by (simp add: cal_tick_def)
    then show ?thesis
      using assms(2) by (auto simp: cal_fail_def take_restore_def cal_finish_def)
  next
    case False
    then show ?thesis
      using assms(2,3) by (auto simp: cal_tick_def take_restore_def take_artifact_def Let_def)
  qed
  ultimately show ?thesis
    by blast
qed

section \<open>Every commanded power is in the range of its rung\<close>

definition rung_power_ok :: "CalibrateParams \<Rightarrow> u8 \<Rightarrow> int \<Rightarrow> bool" where
  "rung_power_ok p r q \<longleftrightarrow> cp_min_qdb p \<le> q \<and> q \<le> rung_max_qdb p (unat r) \<and> q \<le> cp_max_qdb p"

definition command_ok :: "CalibrateParams \<Rightarrow> u8 \<times> CalibActions \<Rightarrow> bool" where
  "command_ok p x = (case at_set_qdb (snd x) of None \<Rightarrow> True | Some q \<Rightarrow> rung_power_ok p (fst x) q)"

text \<open>The seek of a run works on the range of the rung it was begun for.\<close>

definition seek_on_rung :: "CalibrateParams \<Rightarrow> u8 \<Rightarrow> 'd PowerSeek \<Rightarrow> bool" where
  "seek_on_rung p r sk \<longleftrightarrow> (\<exists>vs. seek_inv vs sk) \<and> qk_max_qdb (pk_p sk) = rung_max_qdb p (unat r)"

definition cal_inv :: "CalibrateParams \<Rightarrow> 'd Calibrator \<Rightarrow> bool" where
  "cal_inv p c \<longleftrightarrow> cb_p c = p \<and> qk_min_qdb (pk_p (cb_seek c)) = cp_min_qdb p \<and> 0 < qk_seek_step_qdb (pk_p (cb_seek c))
     \<and> (cb_state c = cs_kRunning \<longrightarrow> seek_on_rung p (cb_rung c) (cb_seek c) \<and> rung_power_ok p (cb_rung c) (cb_qdb c))"

lemma rung_max_range:
  assumes "cp_min_qdb p \<le> cp_max_qdb p"
  shows "cp_min_qdb p \<le> rung_max_qdb p r" and "rung_max_qdb p r \<le> cp_max_qdb p"
  using assms by (simp_all add: rung_max_qdb_def clamp_int_def Let_def)

lemma seek_begin_on_rung:
  assumes "cp_min_qdb p \<le> cp_max_qdb p" and "qk_min_qdb (pk_p sk) = cp_min_qdb p" and "0 < qk_seek_step_qdb (pk_p sk)"
    and "seek_begin F (rung_max_qdb p (unat r)) sk = (sk', st)"
  shows "seek_on_rung p r sk'" and "rung_power_ok p r (ss_qdb st)" and "qk_min_qdb (pk_p sk') = cp_min_qdb p"
    and "0 < qk_seek_step_qdb (pk_p sk')"
proof -
  show "seek_on_rung p r sk'"
    using seek_begin_inv [OF assms(3), of F "rung_max_qdb p (unat r)"] assms(2,4) rung_max_range(1) [OF assms(1), of "unat r"]
    by (auto simp: seek_on_rung_def seek_begin_def Let_def)
  show "rung_power_ok p r (ss_qdb st)" "qk_min_qdb (pk_p sk') = cp_min_qdb p" "0 < qk_seek_step_qdb (pk_p sk')"
    using assms rung_max_range [OF assms(1), of "unat r"] by (auto simp: rung_power_ok_def seek_begin_def Let_def)
qed

lemma seek_on_dwell_on_rung:
  assumes "cp_min_qdb p \<le> cp_max_qdb p" and "qk_min_qdb (pk_p sk) = cp_min_qdb p" and "seek_on_rung p r sk"
    and "v \<noteq> dv_kNoEvidence" and "seek_on_dwell F v rssi loss sk = (sk', st)"
  shows "seek_on_rung p r sk'" and "rung_power_ok p r (ss_qdb st)" and "pk_p sk' = pk_p sk"
proof -
  obtain vs where "seek_inv vs sk"
    using assms(3) by (auto simp: seek_on_rung_def)
  from seek_on_dwell_good [OF this assms(4), of loss F rssi]
  have G: "\<exists>vs. seek_inv vs sk'" "seek_in_range sk (ss_qdb st)" "pk_p sk' = pk_p sk"
    by (auto simp: good_step_def assms(5) Let_def)
  then show "seek_on_rung p r sk'" "pk_p sk' = pk_p sk"
    using assms(3) by (simp_all add: seek_on_rung_def)
  show "rung_power_ok p r (ss_qdb st)"
    using G(2) assms(2,3) rung_max_range(2) [OF assms(1), of "unat r"]
    by (auto simp: rung_power_ok_def seek_in_range_def seek_on_rung_def)
qed

text \<open>What holds of a tick's result.\<close>

definition cal_result_ok :: "CalibrateParams \<Rightarrow> 'd Calibrator \<times> CalibActions \<Rightarrow> bool" where
  "cal_result_ok p r \<longleftrightarrow> cal_inv p (fst r) \<and> command_ok p (cb_rung (fst r), snd r)"

lemma cal_fail_ok:
  assumes "cal_inv p c" and "at_set_qdb a = None"
  shows "cal_result_ok p (cal_fail r a c)"
  using assms by (simp add: cal_fail_def take_restore_def cal_finish_def cal_result_ok_def cal_inv_def command_ok_def)

lemma apply_step_ok:
  assumes "cal_inv p c" and "cb_state c = cs_kRunning" and "rung_power_ok p (cb_rung c) (ss_qdb s)"
    and "ss_kind s = sk_kFailed \<Longrightarrow> \<not> ss_power_changed s"
  shows "cal_result_ok p (apply_step no_calib_actions now s c)"
proof (cases "ss_kind s")
  case sk_kFailed
  then show ?thesis
    using assms by (simp add: apply_step_def Let_def cal_fail_ok cal_inv_def)
qed (use assms(1-3) in \<open>simp_all add: apply_step_def Let_def cal_result_ok_def cal_inv_def command_ok_def\<close>)

lemma next_rung_ok:
  assumes "cal_inv p c" and "cb_state c = cs_kRunning" and mm: "cp_min_qdb p \<le> cp_max_qdb p"
  shows "cal_result_ok p (next_rung F no_calib_actions now c)"
proof (cases "7 \<le> cb_rung c")
  case True
  then show ?thesis
    using assms
    by (simp add: next_rung_def cal_fail_ok Let_def take_restore_def take_artifact_def cal_finish_def cal_result_ok_def [of p "(x, y)" for x y]
        cal_inv_def [of p "cb_artifact_pending_update f x" for f x] command_ok_def)
       (simp add: cal_inv_def)
next
  case False
  obtain sk st where b: "seek_begin F (rung_max_qdb p (unat (cb_rung c + 1))) (cb_seek c) = (sk, st)"
    by fastforce
  have "next_rung F no_calib_actions now c =
      (cal_begin_dwell now (cp_dwell_probe_frames p) (c\<lparr>cb_rung := cb_rung c + 1, cb_seek := sk, cb_qdb := ss_qdb st\<rparr>),
       no_calib_actions\<lparr>at_pin_rung := Some (cb_rung c + 1), at_set_qdb := Some (ss_qdb st)\<rparr>)"
    using False assms(1) b by (simp add: next_rung_def Let_def cal_inv_def)
  then show ?thesis
    using seek_begin_on_rung [OF mm _ _ b] assms(1) by (simp add: cal_result_ok_def cal_inv_def command_ok_def)
qed

lemma cal_tick_ok:
  assumes inv: "cal_inv p c" and mm: "cp_min_qdb p \<le> cp_max_qdb p"
  shows "cal_result_ok p (cal_tick F now c)"
proof (cases "cb_state c = cs_kRunning")
  case False
  then show ?thesis
    using inv by (simp add: cal_tick_def take_restore_def take_artifact_def Let_def cal_result_ok_def cal_inv_def command_ok_def)
next
  case True
  note seek = seek_on_dwell_on_rung [OF mm, where sk = "cb_seek c" and r = "cb_rung c"]
  have step: "cal_inv p (c\<lparr>cb_dwell := d, cb_seek := sk\<rparr>) \<and> rung_power_ok p (cb_rung c) (ss_qdb st)
      \<and> cal_inv p (c\<lparr>cb_seek := sk\<rparr>) \<and> (\<forall>s. cal_inv p (place_rung F s (c\<lparr>cb_dwell := d, cb_seek := sk\<rparr>)))"
    if "seek_on_dwell F v rssi loss (cb_seek c) = (sk, st)" "v \<noteq> dv_kNoEvidence" for v rssi loss sk st d
    using seek [OF _ _ that(2,1)] inv True by (simp add: cal_inv_def place_rung_def sync_ceiling_def Let_def)
  have "cal_result_ok p (cal_blackout F now c)"
    using inv True
    by (auto simp: cal_blackout_def Let_def dest: step intro!: apply_step_ok cal_fail_ok split: prod.split)
  moreover have "cal_result_ok p (cal_score F now c)"
    using True mm
    by (auto simp: cal_score_def Let_def dest: step failed_step_keeps_power intro!: apply_step_ok next_rung_ok split: prod.split)
  moreover have "cal_result_ok p (cal_fail cf_hard_cap no_calib_actions c)"
    using inv by (simp add: cal_fail_ok)
  ultimately show ?thesis
    using inv True
    by (simp add: cal_tick_def cal_result_ok_def [of p "(x, y)" for x y] cal_inv_def command_ok_def)
qed

lemma cal_step_ok:
  assumes inv: "cal_inv p c" and mm: "cp_min_qdb p \<le> cp_max_qdb p"
  shows "cal_result_ok p (cal_step F e c)"
proof (cases e)
  case (CalStart now)
  obtain sk st where b: "seek_begin F (rung_max_qdb p (unat (0 :: u8))) (cb_seek c) = (sk, st)"
    by fastforce
  show ?thesis
    using seek_begin_on_rung [OF mm _ _ b] b inv CalStart
    by (simp add: cal_start_def cal_result_ok_def cal_inv_def command_ok_def)
next
  case (CalTick now)
  then show ?thesis
    using cal_tick_ok [OF inv mm] by simp
qed (use inv in \<open>auto simp: cal_result_ok_def cal_inv_def command_ok_def cal_abort_def cal_finish_def\<close>)

lemma cal_run_ok:
  assumes "cal_inv p c" and mm: "cp_min_qdb p \<le> cp_max_qdb p"
  shows "list_all (command_ok p) (snd (cal_run F es c))"
  using assms(1)
proof (induction es arbitrary: c)
  case (Cons e es)
  obtain c1 a where st: "cal_step F e c = (c1, a)"
    by fastforce
  then have "cal_inv p c1" "command_ok p (cb_rung c1, a)"
    using cal_step_ok [OF Cons.prems mm, of F e] by (simp_all add: cal_result_ok_def)
  then show ?case
    using Cons.IH [of c1] by (cases "cal_run F es c1") (simp add: st)
qed simp

text \<open>Every power a calibration commands, in any run of its operations, lies between the floor and the
  ceiling of the rung it is on, which is never above the flat ceiling.\<close>

theorem calibration_power_in_rung_range:
  assumes "cp_min_qdb p \<le> cp_max_qdb p" and "0 < cp_seek_step_qdb p"
  shows "list_all (command_ok p) (snd (cal_run F es (new_calibrator F p)))"
proof (rule cal_run_ok [OF _ assms(1)])
  show "cal_inv p (new_calibrator F p)"
    using assms(2) by (simp add: cal_inv_def new_calibrator_def new_power_seek_def seek_params_of_def)
qed

text \<open>A start, the first rung's first dwell heard whole, the climb, then an abort.\<close>

definition cal_demo_params :: CalibrateParams where
  "cal_demo_params = \<lparr>cp_loss_ok_milli = 15, cp_loss_bad_milli = 50, cp_seek_step_qdb = 16, cp_rssi_guard_dbm = -6, cp_min_qdb = 4,
     cp_max_qdb = 108, cp_settle_ms = 300, cp_dwell_probe_frames = 100, cp_dwell_verify_frames = 200,
     cp_dwell = \<lparr>dp_probe_pace_us = 2000, dp_tally_wait_ms = 500, dp_tally_retries = 3, dp_max_probes_per_tick = 8\<rparr>,
     cp_hard_cap_ms = 600000, cp_levels = [4, 4, 3, 3, 2, 2, 1, 1], cp_taper_rung_ceiling = True\<rparr>"

definition cal_demo_events :: "CalEvent list" where
  "cal_demo_events = [CalStart 1000, CalTick 1001, CalTally 1001 1 100 (- 7000) 0 0, CalTick 1400, CalAbort cf_abort]"

lemmas cal_demo_defs = cal_demo_params_def cal_demo_events_def new_calibrator_def new_power_seek_def seek_params_of_def
  new_dwell_sender_def zero_dwell_result_def cal_start_def seek_begin_def rung_max_qdb_def clamp_int_def cal_tick_def
  cal_begin_dwell_def dwell_begin_def cal_on_tally_def dwell_on_tally_def cal_score_def loss_milli_def mean_rssi_def
  dwell_reset_def seek_on_dwell_def seek_climb_def apply_step_def sync_ceiling_def cal_abort_def cal_finish_def
  take_restore_def take_artifact_def seek_fp_def kPowerLevelBaseline_def kQdbPerLevel_def no_calib_actions_def Let_def

lemma cal_demo_commands:
  "map (\<lambda>(r, a). (r, at_set_qdb a)) (snd (cal_run seek_fp cal_demo_events (new_calibrator seek_fp cal_demo_params)))
   = [(0, None), (0, Some 4), (0, None), (0, Some 20), (0, None)]"
  by (simp add: cal_demo_defs)

theorem calibration_power_in_rung_range_witness:
  "map (\<lambda>(r, a). (r, at_set_qdb a)) (snd (cal_run seek_fp cal_demo_events (new_calibrator seek_fp cal_demo_params)))
     = [(0, None), (0, Some 4), (0, None), (0, Some 20), (0, None)]
   \<and> list_all (command_ok cal_demo_params) (snd (cal_run seek_fp cal_demo_events (new_calibrator seek_fp cal_demo_params)))"
  using calibration_power_in_rung_range [of cal_demo_params seek_fp cal_demo_events] cal_demo_commands
  by (simp add: cal_demo_params_def)

lemma cal_demo_end:
  "cb_state (fst (cal_run seek_fp cal_demo_events (new_calibrator seek_fp cal_demo_params))) = cs_kFailed"
  by (simp add: cal_demo_defs)

theorem calibration_hands_power_back_witness:
  "power_held (take 4 (snd (cal_run seek_fp cal_demo_events (new_calibrator seek_fp cal_demo_params))))
   \<and> (case cal_run seek_fp cal_demo_events (new_calibrator seek_fp cal_demo_params) of (c, as) \<Rightarrow>
        case cal_tick seek_fp 1500 c of (c', a) \<Rightarrow> cb_state c' \<noteq> cs_kRunning \<and> \<not> power_held (as @ [(cb_rung c', a)]))"
proof
  show "power_held (take 4 (snd (cal_run seek_fp cal_demo_events (new_calibrator seek_fp cal_demo_params))))"
    by (simp add: cal_demo_defs power_held_def power_held_after_def)
  obtain c as where r: "cal_run seek_fp cal_demo_events (new_calibrator seek_fp cal_demo_params) = (c, as)"
    by fastforce
  obtain c' a where t: "cal_tick seek_fp 1500 c = (c', a)"
    by fastforce
  show "case cal_run seek_fp cal_demo_events (new_calibrator seek_fp cal_demo_params) of (c, as) \<Rightarrow>
        case cal_tick seek_fp 1500 c of (c', a) \<Rightarrow> cb_state c' \<noteq> cs_kRunning \<and> \<not> power_held (as @ [(cb_rung c', a)])"
    using calibration_hands_power_back [OF r t] cal_demo_end by (simp add: r t)
qed

end
