(* ===== verification/Uplink_Calibrate_Props.thy ===== *)
theory Uplink_Calibrate_Props
  imports Uplink_Calibrate Calibrate_Props
begin

text \<open>
  The ground's calibration over arbitrary sequences of its operations, and the order law of the
  sequencer: a placement is published only when its own measured loss is acceptable and its power is
  in range, every exit hands the power back, and the craft's calibration is started only by an uplink
  placement and counted as done only after it was seen running.
\<close>

section \<open>Runs of the uplink calibration\<close>

datatype UpEvent =
    UpStart u64
  | UpAbort
  | UpSetMax int
  | UpFailPersist
  | UpTally u32 u16 u16 u32 u8 u8
  | UpNewTick
  | UpProbe u64
  | UpTick u64

fun up_step :: "'d fpr \<Rightarrow> UpEvent \<Rightarrow> 'd UplinkCalibrator \<Rightarrow> 'd UplinkCalibrator \<times> UplinkCalibActions" where
  "up_step F (UpStart now) u = (fst (up_start F now u), no_uplink_actions)"
| "up_step F UpAbort u = (fst (up_abort u), no_uplink_actions)"
| "up_step F (UpSetMax q) u = (fst (up_set_max_qdb q u), no_uplink_actions)"
| "up_step F UpFailPersist u = (fail_persist u, no_uplink_actions)"
| "up_step F (UpTally run dwell got rssi mcs finger) u = (up_on_tally run dwell got rssi mcs finger u, no_uplink_actions)"
| "up_step F UpNewTick u = (up_new_tick u, no_uplink_actions)"
| "up_step F (UpProbe now) u = (fst (up_next_probe now u), no_uplink_actions)"
| "up_step F (UpTick now) u = up_tick F now u"

fun up_run :: "'d fpr \<Rightarrow> UpEvent list \<Rightarrow> 'd UplinkCalibrator \<Rightarrow> 'd UplinkCalibrator \<times> ('d UplinkCalibrator \<times> UplinkCalibActions) list" where
  "up_run F [] u = (u, [])"
| "up_run F (e # es) u =
     (case up_step F e u of (u1, a) \<Rightarrow> case up_run F es u1 of (u2, as) \<Rightarrow> (u2, (u1, a) # as))"

lemma up_frame [simp]:
  "ub_state (up_begin_dwell n f u) = ub_state u" "ub_seek (up_begin_dwell n f u) = ub_seek u" "ub_p (up_begin_dwell n f u) = ub_p u"
  "ub_qdb (up_begin_dwell n f u) = ub_qdb u" "ub_restore_pending (up_begin_dwell n f u) = ub_restore_pending u"
  "ub_artifact_pending (up_begin_dwell n f u) = ub_artifact_pending u" "ub_pending_qdb (up_begin_dwell n f u) = ub_pending_qdb u"
  "ub_placements (up_begin_dwell n f u) = ub_placements u"
  by (simp_all add: up_begin_dwell_def)

lemma no_uplink_actions_fields [simp]:
  "ua_set_qdb no_uplink_actions = None" "ua_restore no_uplink_actions = False" "ua_artifact_ready no_uplink_actions = False"
  by (simp_all add: no_uplink_actions_def)

section \<open>What is published is usable\<close>

text \<open>One placement, measured no worse than the acceptable loss, inside the seek's range.\<close>

definition published_ok :: "UplinkCalibParams \<Rightarrow> 'd UplinkCalibrator \<Rightarrow> bool" where
  "published_ok p u \<longleftrightarrow> ub_state u = cs_kDone
     \<and> (case ub_placements u of
          [pl] \<Rightarrow> upl_placement_loss_milli pl \<le> qk_loss_ok_milli (up_seek p)
            \<and> qk_min_qdb (up_seek p) \<le> upl_placement_qdb pl
            \<and> upl_placement_qdb pl \<le> qk_max_qdb (up_seek (ub_p u))
            \<and> upl_mcs pl = ur_mcs (up_rate p) \<and> upl_short_gi pl = ur_short_gi (up_rate p)
        | _ \<Rightarrow> False)"

definition power_ok_up :: "'d UplinkCalibrator \<Rightarrow> int \<Rightarrow> bool" where
  "power_ok_up u q \<longleftrightarrow> qk_min_qdb (up_seek (ub_p u)) \<le> q \<and> q \<le> qk_max_qdb (up_seek (ub_p u))"

definition up_result_ok :: "UplinkCalibParams \<Rightarrow> 'd UplinkCalibrator \<times> UplinkCalibActions \<Rightarrow> bool" where
  "up_result_ok p r \<longleftrightarrow> (case ua_set_qdb (snd r) of None \<Rightarrow> True | Some q \<Rightarrow> power_ok_up (fst r) q)
     \<and> (ua_artifact_ready (snd r) \<longrightarrow> published_ok p (fst r) \<and> ua_restore (snd r))"

text \<open>The rate, the floor and the step never change; the seek of a run ends at or below the flat ceiling.\<close>

definition up_inv :: "UplinkCalibParams \<Rightarrow> 'd UplinkCalibrator \<Rightarrow> bool" where
  "up_inv p u \<longleftrightarrow> up_rate (ub_p u) = up_rate p
     \<and> qk_loss_ok_milli (up_seek (ub_p u)) = qk_loss_ok_milli (up_seek p) \<and> qk_min_qdb (up_seek (ub_p u)) = qk_min_qdb (up_seek p)
     \<and> qk_min_qdb (pk_p (ub_seek u)) = qk_min_qdb (up_seek p) \<and> 0 < qk_seek_step_qdb (pk_p (ub_seek u))
     \<and> qk_min_qdb (up_seek p) \<le> qk_max_qdb (up_seek (ub_p u)) \<and> \<not> ub_artifact_pending u
     \<and> (ub_state u = cs_kRunning \<longrightarrow> (\<exists>vs. seek_inv vs (ub_seek u)) \<and> qk_max_qdb (pk_p (ub_seek u)) \<le> qk_max_qdb (up_seek (ub_p u))
         \<and> ub_placements u = [] \<and> (\<forall>q. ub_pending_qdb u = Some q \<longrightarrow> power_ok_up u q))"

lemma up_fail_ok:
  assumes "up_inv p u" and "\<And>q. ua_set_qdb a = Some q \<Longrightarrow> power_ok_up u q" and "\<not> ua_artifact_ready a"
  shows "up_result_ok p (up_fail r a u)" and "up_inv p (fst (up_fail r a u))"
  using assms
  by (auto simp: up_fail_def up_take_restore_def up_finish_def up_result_ok_def up_inv_def power_ok_up_def split: option.split)

lemma rung_ceiling_range:
  assumes "qk_min_qdb (up_seek p) \<le> qk_max_qdb (up_seek p)"
  shows "max (qk_min_qdb (up_seek p)) (rung_ceiling_qdb p) \<le> qk_max_qdb (up_seek p)"
  using assms by (simp add: rung_ceiling_qdb_def clamp_int_def)

lemma up_done_ok:
  assumes inv: "up_inv p u" and run: "ub_state u = cs_kRunning" and q: "power_ok_up u (ss_qdb s)"
    and a: "\<And>q. ua_set_qdb a = Some q \<Longrightarrow> power_ok_up u q" "\<not> ua_artifact_ready a"
  shows "up_result_ok p (up_done F s a u) \<and> up_inv p (fst (up_done F s a u))"
proof -
  define v where "v = u\<lparr>ub_placements := ub_placements u @ [uplink_placement F s u]\<rparr>"
  have "ub_placements u = []"
    using inv run by (simp add: up_inv_def)
  have fail: "up_result_ok p (up_fail r a w) \<and> up_inv p (fst (up_fail r a w))" if "w = u \<or> w = v" for r w
    using inv a that
    by (auto simp: up_fail_def up_take_restore_def up_finish_def up_result_ok_def up_inv_def power_ok_up_def v_def split: option.split)
  have fin: "up_result_ok p (case up_take_restore (up_finish cs_kDone None v) of (u, r) \<Rightarrow>
        case up_take_artifact u of (u, ar) \<Rightarrow> (u, a\<lparr>ua_restore := r, ua_artifact_ready := ar\<rparr>))
      \<and> up_inv p (fst (case up_take_restore (up_finish cs_kDone None v) of (u, r) \<Rightarrow>
        case up_take_artifact u of (u, ar) \<Rightarrow> (u, a\<lparr>ua_restore := r, ua_artifact_ready := ar\<rparr>)))"
    if "pk_placed_loss (ub_seek u) \<le> qk_loss_ok_milli (up_seek (ub_p u))"
    using inv run a q that
    by (auto simp: up_take_restore_def up_take_artifact_def up_finish_def up_result_ok_def up_inv_def power_ok_up_def v_def
        published_ok_def uplink_placement_def split: option.split)
  show ?thesis
    unfolding up_done_def Let_def v_def [symmetric] using fail fin by (simp add: not_less)
qed

lemma up_score_ok:
  assumes inv: "up_inv p u" and run: "ub_state u = cs_kRunning"
    and a: "\<And>q. ua_set_qdb a = Some q \<Longrightarrow> power_ok_up u q" "\<not> ua_artifact_ready a"
  shows "up_result_ok p (up_score F a now loss rssi sent got blackout u) \<and> up_inv p (fst (up_score F a now loss rssi sent got blackout u))"
proof -
  define v where "v = (if qk_loss_bad_milli (up_seek (ub_p u)) < loss then dv_kBad else dv_kClean)"
  obtain sk s where d: "seek_on_dwell F v rssi loss (ub_seek u) = (sk, s)"
    by fastforce
  obtain vs where "seek_inv vs (ub_seek u)"
    using inv run by (auto simp: up_inv_def)
  moreover have "v \<noteq> dv_kNoEvidence"
    by (simp add: v_def)
  ultimately have "good_step vs (ub_seek u) loss (sk, s)"
    using seek_on_dwell_good [of vs "ub_seek u" v loss F rssi] d by simp
  then have G: "\<exists>vs. seek_inv vs sk" "seek_in_range (ub_seek u) (ss_qdb s)" "pk_p sk = pk_p (ub_seek u)"
    by (auto simp: good_step_def Let_def)
  define w where "w = u\<lparr>ub_last := \<lparr>dl_seq = dl_seq (ub_last u) + 1, dl_rung = 0, dl_qdb = ub_qdb u, dl_verify = (pk_phase (ub_seek u) = sph_kVerify),
      dl_sent = sent, dl_received = got, dl_loss_milli = loss, dl_rssi_mean = fp_lround F rssi, dl_target = ucast (ub_dwell_count u)\<rparr>,
      ub_seek := sk, ub_qdb := ss_qdb s\<rparr>"
  define b where "b = (if ss_power_changed s then a\<lparr>ua_set_qdb := Some (ss_qdb s)\<rparr> else a)"
  have W: "up_inv p w" "ub_state w = cs_kRunning" "power_ok_up w (ss_qdb s)"
    using inv run G by (auto simp: w_def up_inv_def power_ok_up_def seek_in_range_def)
  have B: "\<And>q. ua_set_qdb b = Some q \<Longrightarrow> power_ok_up w q" "\<not> ua_artifact_ready b"
    using a W(3) by (auto simp: b_def w_def power_ok_up_def split: if_splits)
  have go: "up_result_ok p (up_begin_dwell now fr w, b) \<and> up_inv p (up_begin_dwell now fr w)" for fr
    using W B by (auto simp: up_result_ok_def up_inv_def power_ok_up_def split: option.split)
  have "up_score F a now loss rssi sent got blackout u =
      (case ss_kind s of
           sk_kFailed \<Rightarrow> up_fail (if blackout then cf_evidence_lost else cf_no_clean_point) b w
         | sk_kDone \<Rightarrow> up_done F s b w
         | sk_kVerify \<Rightarrow> (up_begin_dwell now (up_dwell_verify_frames (ub_p w)) w, b)
         | sk_kProbe \<Rightarrow> (up_begin_dwell now (up_dwell_probe_frames (ub_p w)) w, b))"
    using d unfolding up_score_def Let_def v_def [symmetric]
    by (simp add: w_def b_def cong: SeekKind.case_cong if_cong split del: if_split)
  then show ?thesis
    using up_fail_ok [OF W(1) B] up_done_ok [OF W B] go by (cases "ss_kind s") simp_all
qed

lemma up_tick_ok:
  assumes inv: "up_inv p u"
  shows "up_result_ok p (up_tick F now u) \<and> up_inv p (fst (up_tick F now u))"
proof (cases "ub_state u = cs_kRunning")
  case False
  then show ?thesis
    using inv by (auto simp: up_tick_def up_take_restore_def up_take_artifact_def Let_def up_result_ok_def up_inv_def)
next
  case True
  define a where "a = no_uplink_actions\<lparr>ua_set_rate := ub_pending_rate u, ua_set_qdb := ub_pending_qdb u\<rparr>"
  define v where "v = u\<lparr>ub_pending_rate := None, ub_pending_qdb := None\<rparr>"
  have V: "up_inv p v" "ub_state v = cs_kRunning" "up_inv p (v\<lparr>ub_dwell := d\<rparr>)" for d
    using inv True by (auto simp: v_def up_inv_def)
  have A: "\<And>q. ua_set_qdb a = Some q \<Longrightarrow> power_ok_up v q" "\<not> ua_artifact_ready a"
    "\<And>q d. ua_set_qdb a = Some q \<Longrightarrow> power_ok_up (v\<lparr>ub_dwell := d\<rparr>) q"
    using inv True by (auto simp: a_def v_def up_inv_def power_ok_up_def)
  have "up_result_ok p (v, a) \<and> up_inv p v"
    using V A by (auto simp: up_result_ok_def split: option.split)
  then show ?thesis
    using True up_fail_ok [OF V(1) A(1,2)] up_score_ok [OF V(1,2) A(1,2)] up_score_ok [OF V(3) _ A(3,2)] V(2)
    by (simp add: up_tick_def Let_def a_def [symmetric] v_def [symmetric])
qed

text \<open>A runtime ceiling below the floor is the one misuse the calibration cannot bound.\<close>

fun sane_event :: "UplinkCalibParams \<Rightarrow> UpEvent \<Rightarrow> bool" where
  "sane_event p (UpSetMax q) = (qk_min_qdb (up_seek p) \<le> q)"
| "sane_event p e = True"

lemma up_start_inv:
  assumes "up_inv p u"
  shows "up_inv p (fst (up_start F now u))"
proof -
  have r: "max (qk_min_qdb (up_seek p)) (rung_ceiling_qdb (ub_p u)) \<le> qk_max_qdb (up_seek (ub_p u))"
    using rung_ceiling_range [of "ub_p u"] assms by (simp add: up_inv_def)
  show ?thesis
    using assms r seek_begin_inv [of "ub_seek u" F "rung_ceiling_qdb (ub_p u)"]
    by (auto simp: up_start_def up_inv_def power_ok_up_def seek_begin_def Let_def)
qed

lemma up_step_ok:
  assumes inv: "up_inv p u" and e: "sane_event p e"
  shows "up_result_ok p (up_step F e u) \<and> up_inv p (fst (up_step F e u))"
proof (cases e)
  case (UpTick now)
  then show ?thesis
    using up_tick_ok [OF inv] by simp
next
  case (UpStart now)
  then show ?thesis
    using up_start_inv [OF inv] by (simp add: up_result_ok_def)
qed (use inv e in \<open>auto simp: up_result_ok_def up_inv_def power_ok_up_def up_abort_def up_finish_def up_set_max_qdb_def fail_persist_def
      up_on_tally_def up_new_tick_def up_next_probe_def split: prod.split\<close>)

lemma up_run_ok:
  assumes "up_inv p u" and "list_all (sane_event p) es"
  shows "list_all (up_result_ok p) (snd (up_run F es u))"
  using assms
proof (induction es arbitrary: u)
  case (Cons e es)
  then have "up_result_ok p (up_step F e u) \<and> up_inv p (fst (up_step F e u))"
    using up_step_ok [OF Cons.prems(1)] by simp
  then show ?case
    using Cons.IH [of "fst (up_step F e u)"] Cons.prems(2)
    by (cases "up_step F e u", cases "up_run F es (fst (up_step F e u))") simp
qed simp

text \<open>C28: With a power range that is not empty, a positive seek step and no runtime ceiling below the
  floor: whatever operations the ground's calibration sees, every power it commands is within
  its current bounds; it publishes only together with a restore, and only a single placement at
  the configured rate (MCS and guard interval), at a power within the bounds, whose own measured
  loss is at most the acceptable one.\<close>

theorem uplink_publishes_only_usable_placements:
  assumes "qk_min_qdb (up_seek p) \<le> qk_max_qdb (up_seek p)" and "0 < qk_seek_step_qdb (up_seek p)"
    and "list_all (sane_event p) es"
  shows "list_all (up_result_ok p) (snd (up_run F es (new_uplink_calibrator F p)))"
proof (rule up_run_ok [OF _ assms(3)])
  show "up_inv p (new_uplink_calibrator F p)"
    using assms(1,2) by (simp add: up_inv_def new_uplink_calibrator_def new_power_seek_def)
qed

text \<open>A whole run over a window of one power: probed, verified without loss, published.\<close>

definition up_demo_params :: UplinkCalibParams where
  "up_demo_params = \<lparr>up_seek = \<lparr>qk_loss_ok_milli = 15, qk_loss_bad_milli = 50, qk_seek_step_qdb = 16, qk_rssi_guard_dbm = -6,
       qk_min_qdb = -24, qk_max_qdb = -24, qk_verify_descent_budget = 3, qk_no_bracket_cap_qdb = Some 0\<rparr>,
     up_rung_level = 4, up_taper_rung_ceiling = False, up_settle_ms = 300, up_dwell_probe_frames = 100, up_dwell_verify_frames = 200,
     up_dwell = \<lparr>dp_probe_pace_us = 2000, dp_tally_wait_ms = 500, dp_tally_retries = 3, dp_max_probes_per_tick = 8\<rparr>,
     up_hard_cap_ms = 600000, up_rate = \<lparr>ur_mcs = 1, ur_short_gi = False\<rparr>\<rparr>"

definition up_demo_events :: "UpEvent list" where
  "up_demo_events = [UpStart 1000, UpTick 1001, UpTally 1001 1 100 (- 7000) 1 0, UpTick 1400, UpTally 1001 2 199 (- 13930) 1 0, UpTick 1800]"

lemmas up_demo_defs = up_demo_params_def up_demo_events_def new_uplink_calibrator_def new_power_seek_def new_dwell_sender_def
  zero_dwell_result_def up_start_def seek_begin_def rung_ceiling_qdb_def up_tick_def up_begin_dwell_def dwell_begin_def
  up_on_tally_def dwell_on_tally_def up_score_def loss_milli_def mean_rssi_def dwell_reset_def seek_on_dwell_def seek_climb_def
  seek_place_def seek_verify_def up_done_def uplink_placement_def up_finish_def up_take_restore_def up_take_artifact_def
  seek_fp_def no_uplink_actions_def Let_def

lemma up_demo_outcome:
  "map (\<lambda>(u, a). (ua_set_qdb a, ua_artifact_ready a, map upl_placement_loss_milli (ub_placements u)))
     (snd (up_run seek_fp up_demo_events (new_uplink_calibrator seek_fp up_demo_params)))
   = [(None, False, []), (Some (-24), False, []), (None, False, []), (Some (-24), False, []), (None, False, []), (None, True, [5])]"
  by (simp add: up_demo_defs)

theorem uplink_publishes_only_usable_placements_witness:
  "map (\<lambda>(u, a). ua_artifact_ready a) (snd (up_run seek_fp up_demo_events (new_uplink_calibrator seek_fp up_demo_params)))
     = [False, False, False, False, False, True]
   \<and> list_all (up_result_ok up_demo_params) (snd (up_run seek_fp up_demo_events (new_uplink_calibrator seek_fp up_demo_params)))"
proof
  show "map (\<lambda>(u, a). ua_artifact_ready a) (snd (up_run seek_fp up_demo_events (new_uplink_calibrator seek_fp up_demo_params)))
     = [False, False, False, False, False, True]"
    using arg_cong [OF up_demo_outcome, where f = "map (\<lambda>(q, r, l). r)"] by (simp add: comp_def case_prod_unfold)
  show "list_all (up_result_ok up_demo_params) (snd (up_run seek_fp up_demo_events (new_uplink_calibrator seek_fp up_demo_params)))"
    using uplink_publishes_only_usable_placements [of up_demo_params up_demo_events seek_fp]
    by (simp add: up_demo_params_def up_demo_events_def)
qed

section \<open>Every exit hands the power back\<close>

text \<open>node/src/rx_node.cpp acts on a command in this order: the power first, the restore last.\<close>

definition up_held_after :: "bool \<Rightarrow> UplinkCalibActions \<Rightarrow> bool" where
  "up_held_after held a \<longleftrightarrow> (held \<or> ua_set_qdb a \<noteq> None) \<and> \<not> ua_restore a"

definition up_held :: "('d UplinkCalibrator \<times> UplinkCalibActions) list \<Rightarrow> bool" where
  "up_held as = fold (\<lambda>(u, a) held. up_held_after held a) as False"

definition up_owes :: "bool \<Rightarrow> 'd UplinkCalibrator \<Rightarrow> bool" where
  "up_owes held u \<longleftrightarrow> (ub_state u = cs_kRunning \<longrightarrow> \<not> ub_restore_pending u)
     \<and> (held \<longrightarrow> ub_state u = cs_kRunning \<or> ub_restore_pending u)"

definition up_paid :: "'d UplinkCalibrator \<times> UplinkCalibActions \<Rightarrow> bool" where
  "up_paid r \<longleftrightarrow> \<not> ub_restore_pending (fst r) \<and> (ub_state (fst r) \<noteq> cs_kRunning \<longrightarrow> ua_restore (snd r))"

lemma up_fail_paid: "up_paid (up_fail r a u)"
  by (simp add: up_fail_def up_take_restore_def up_finish_def up_paid_def)

lemma up_done_paid: "up_paid (up_done F s a u)"
  by (simp add: up_done_def up_fail_paid Let_def)
    (simp add: up_take_restore_def up_take_artifact_def up_finish_def up_paid_def)

lemma up_score_paid:
  assumes "ub_state u = cs_kRunning" and "\<not> ub_restore_pending u"
  shows "up_paid (up_score F a now loss rssi sent got blackout u)"
  using assms by (auto simp: up_score_def Let_def up_fail_paid up_done_paid up_paid_def [of "(x, y)" for x y] split: prod.split SeekKind.split)

lemma up_tick_owes:
  assumes "up_owes held u" and "up_tick F now u = (u', a)"
  shows "up_owes (up_held_after held a) u' \<and> (ub_state u' \<noteq> cs_kRunning \<longrightarrow> \<not> up_held_after held a)"
proof (cases "ub_state u = cs_kRunning")
  case True
  then have "up_paid (up_tick F now u)"
    using assms(1) by (auto simp: up_tick_def Let_def up_owes_def up_fail_paid up_paid_def [of "(x, y)" for x y] intro!: up_score_paid)
  then show ?thesis
    using assms(2) by (auto simp: up_owes_def up_held_after_def up_paid_def)
next
  case False
  then show ?thesis
    using assms by (auto simp: up_tick_def up_take_restore_def up_take_artifact_def Let_def up_owes_def up_held_after_def)
qed

lemma up_step_owes:
  assumes "up_owes held u" and "up_step F e u = (u', a)"
  shows "up_owes (up_held_after held a) u'"
  using assms
proof (cases e)
  case (UpTick now)
  then show ?thesis
    using up_tick_owes [OF assms(1)] assms(2) by simp
qed (auto simp: up_owes_def up_held_after_def up_start_def up_abort_def up_finish_def up_set_max_qdb_def fail_persist_def
      up_on_tally_def up_new_tick_def up_next_probe_def Let_def split: prod.splits if_splits)

lemma up_run_owes:
  assumes "up_owes held u" and "up_run F es u = (u', as)"
  shows "up_owes (fold (\<lambda>(u, a) held. up_held_after held a) as held) u'"
  using assms
proof (induction es arbitrary: held u as)
  case (Cons e es)
  obtain u1 a where st: "up_step F e u = (u1, a)"
    by fastforce
  obtain bs where "up_run F es u1 = (u', bs)" and "as = (u1, a) # bs"
    using Cons.prems(2) by (auto simp: st split: prod.splits)
  then show ?case
    using Cons.IH [OF up_step_owes [OF Cons.prems(1) st]] by simp
qed simp

text \<open>Once a tick finds the ground's run over, or past its cap, the uplink power is no longer held.\<close>

theorem uplink_hands_power_back:
  assumes "up_run F es (new_uplink_calibrator F p) = (u, as)"
    and "up_tick F now u = (u', a)"
    and "ub_state u \<noteq> cs_kRunning \<or> ucast (up_hard_cap_ms (ub_p u)) < now - ub_started_ms u \<or> ub_state u' \<noteq> cs_kRunning"
  shows "ub_state u' \<noteq> cs_kRunning \<and> \<not> up_held (as @ [(u', a)])"
proof -
  have "up_owes False (new_uplink_calibrator F p)"
    by (simp add: up_owes_def new_uplink_calibrator_def)
  from up_run_owes [OF this assms(1)] have "up_owes (up_held as) u"
    by (simp add: up_held_def)
  from up_tick_owes [OF this assms(2)] have "ub_state u' \<noteq> cs_kRunning \<longrightarrow> \<not> up_held (as @ [(u', a)])"
    by (simp add: up_held_def)
  moreover have "ub_state u' \<noteq> cs_kRunning"
    using assms(2,3)
    by (cases "ub_state u = cs_kRunning \<and> ucast (up_hard_cap_ms (ub_p u)) < now - ub_started_ms u")
      (auto simp: up_tick_def up_take_restore_def up_take_artifact_def Let_def up_fail_def up_finish_def)
  ultimately show ?thesis
    by blast
qed

section \<open>The order law of the sequencer\<close>

datatype SeqEvent = SeqStart u64 | SeqAbort u64 | SeqTick CalibState int u64

fun seq_step :: "SeqEvent \<Rightarrow> CalibSequencer \<Rightarrow> CalibSequencer \<times> SeqActions" where
  "seq_step (SeqStart now) s = (seq_start now s, no_seq_actions)"
| "seq_step (SeqAbort now) s = seq_abort now s"
| "seq_step (SeqTick u craft now) s = seq_tick u craft now s"

definition seq_after :: "SeqEvent list \<Rightarrow> CalibSequencer \<Rightarrow> CalibSequencer" where
  "seq_after es s = fold (\<lambda>e s. fst (seq_step e s)) es s"

lemma seq_after_snoc [simp]: "seq_after (es @ [e]) s = fst (seq_step e (seq_after es s))" "seq_after [] s = s"
  by (simp_all add: seq_after_def)

text \<open>How far the sequence got since its last start, read off the events alone, newest first.\<close>

fun is_seq_start :: "SeqEvent \<Rightarrow> bool" where
  "is_seq_start (SeqStart now) = True"
| "is_seq_start e = False"

definition since_start :: "SeqEvent list \<Rightarrow> SeqEvent list" where
  "since_start es = rev (takeWhile (\<lambda>e. \<not> is_seq_start e) (rev es))"

fun uplink_done :: "SeqEvent \<Rightarrow> bool" where
  "uplink_done (SeqTick u craft now) = (u = cs_kDone)"
| "uplink_done e = False"

fun craft_said :: "int \<Rightarrow> SeqEvent \<Rightarrow> bool" where
  "craft_said k (SeqTick u craft now) = (craft = k)"
| "craft_said k e = False"

text \<open>The events contain a first, then a second, then a third kind, in this order.\<close>

fun in_order :: "('e \<Rightarrow> bool) list \<Rightarrow> 'e list \<Rightarrow> bool" where
  "in_order [] es = True"
| "in_order (P # Ps) [] = False"
| "in_order (P # Ps) (e # es) = (if P e then in_order Ps es \<or> in_order (P # Ps) es else in_order (P # Ps) es)"

lemma in_order_append: "in_order Ps es \<Longrightarrow> in_order Ps (es @ fs)"
  by (induction Ps es rule: in_order.induct) (auto split: if_splits)

lemma in_order_snoc: "in_order Ps es \<Longrightarrow> P e \<Longrightarrow> in_order (Ps @ [P]) (es @ [e])"
proof (induction Ps es rule: in_order.induct)
  case (1 es)
  then show ?case
    by (induction es) simp_all
qed (auto split: if_splits)

lemma since_start_snoc: "since_start (es @ [e]) = (if is_seq_start e then [] else since_start es @ [e])"
  by (simp add: since_start_def)

definition seq_inv :: "SeqEvent list \<Rightarrow> CalibSequencer \<Rightarrow> bool" where
  "seq_inv es s \<longleftrightarrow>
     (sq_phase s = cph_kDownlink \<longrightarrow> in_order [uplink_done] (since_start es))
     \<and> (sq_phase s = cph_kDownlink \<and> sq_saw_running s \<longrightarrow> in_order [uplink_done, craft_said 1] (since_start es))
     \<and> (sq_phase s = cph_kDone \<longrightarrow> in_order [uplink_done, craft_said 1, craft_said 2] (since_start es))"

lemma seq_step_inv:
  assumes "seq_inv es s"
  shows "seq_inv (es @ [e]) (fst (seq_step e s))"
proof (cases e)
  case (SeqStart now)
  then show ?thesis
    by (simp add: seq_inv_def seq_start_def)
next
  case (SeqAbort now)
  then show ?thesis
    using assms by (auto simp: seq_inv_def seq_abort_def seq_finish_def since_start_snoc Let_def intro: in_order_append)
next
  case (SeqTick u craft now)
  have keep: "in_order Ps (since_start es) \<Longrightarrow> in_order Ps (since_start es @ [e])" for Ps
    by (rule in_order_append)
  have step: "in_order Ps (since_start es) \<Longrightarrow> P e \<Longrightarrow> in_order (Ps @ [P]) (since_start es @ [e])" for Ps P
    by (rule in_order_snoc)
  show ?thesis
    using assms SeqTick keep step [of "[]" uplink_done] step [of "[uplink_done]" "craft_said 1"]
      step [of "[uplink_done, craft_said 1]" "craft_said 2"]
    by (cases "sq_phase s") (auto simp: seq_inv_def seq_tick_def seq_finish_def since_start_snoc)
qed

text \<open>C29: The calibration sequencer starts the craft's run only on a tick that finds the uplink
  placed, and it reports success only if, since its last start, an uplink placement, then the
  craft running, then the craft done were seen in this order; a stale result of an earlier run
  never counts.\<close>

theorem sequencer_order_law:
  "(sq_phase (seq_after es (new_sequencer t cap)) = cph_kDone
      \<longrightarrow> in_order [uplink_done, craft_said 1, craft_said 2] (since_start es))
   \<and> (sa_start_downlink (snd (seq_step e (seq_after es (new_sequencer t cap)))) \<longrightarrow> uplink_done e)"
proof -
  have "seq_inv es (seq_after es (new_sequencer t cap))"
  proof (induction es rule: rev_induct)
    case Nil
    show ?case
      by (simp add: seq_inv_def new_sequencer_def)
  next
    case (snoc e es)
    then show ?case
      using seq_step_inv by simp
  qed
  then show ?thesis
    by (cases e; cases "sq_phase (seq_after es (new_sequencer t cap))")
      (auto simp: seq_inv_def seq_tick_def seq_abort_def no_seq_actions_def Let_def)
qed

text \<open>A stale terminal word from an earlier run is not taken as this run's result.\<close>

definition seq_demo :: "SeqEvent list" where
  "seq_demo = [SeqStart 10, SeqTick cs_kRunning 2 20, SeqTick cs_kDone 2 30, SeqTick cs_kDone 2 40, SeqTick cs_kDone 1 50, SeqTick cs_kDone 2 60]"

lemma seq_demo_phases:
  "map (\<lambda>n. sq_phase (seq_after (take n seq_demo) (new_sequencer 15000 660000))) [1, 2, 3, 4, 5, 6]
   = [cph_kUplink, cph_kUplink, cph_kDownlink, cph_kDownlink, cph_kDownlink, cph_kDone]"
  by (simp add: seq_demo_def seq_after_def new_sequencer_def seq_start_def seq_tick_def seq_finish_def)

theorem sequencer_order_law_witness:
  "sq_phase (seq_after seq_demo (new_sequencer 15000 660000)) = cph_kDone
   \<and> in_order [uplink_done, craft_said 1, craft_said 2] (since_start seq_demo)"
proof -
  have "sq_phase (seq_after seq_demo (new_sequencer 15000 660000)) = cph_kDone"
    by (simp add: seq_demo_def seq_after_def new_sequencer_def seq_start_def seq_tick_def seq_finish_def)
  then show ?thesis
    using sequencer_order_law [of seq_demo 15000 660000 "SeqAbort 0"] by simp
qed

end
