(* ===== verification/Spec2Isabelle.thy ===== *)
theory Spec2Isabelle
  imports Wire_Checked Csa_Issuer_Props Vehicle_Cmd_Issuer_Props Frame_Order Rx_Engine_Props Cache_Repair
    Selector_Props Rx_Core_Props Report_Gate Quiet_Gap Rtp_Framer Jscc_Controller Fps_Ladder
    Uplink_Calibrate_Props
begin

text \<open>
  Waybeam-link is a latency-first video link over raw 802.11 injection. Its core library
  (src/core) is single-threaded logic with injected time: a transmitter fragments encoded frames
  into FEC-protected packets, a receiver merges what several adapters hear, puts the packets in
  order and rebuilds the frames; a rate selector, probes and calibrations steer the radio; caches
  on the ground fill in lost packets; and small authenticated protocols move both ends to another
  channel and carry commands to the vehicle. This development models that core and the receiver
  node (src/node) that wires it together, and proves what each part promises.

  \<^bold>\<open>Foundations and wire format.\<close>

  \<^item> \<open>Prelude\<close>: machine integers (\<open>u8\<close> .. \<open>u64\<close> are words), buffers (\<open>ptr\<close>, a byte function; how much
    of it belongs to the caller is a separate length), shared lemmas, rule collections.
    \<open>Ordered_Map\<close>: \<open>std::map\<close> and \<open>std::set\<close> as ascending association lists.
  \<^item> \<open>Endian\<close> (endian.h, crc8.h, clamp.h), \<open>Wire_Types\<close> and \<open>Wire\<close> (types.h, wire.h, wire.cpp): every
    encoder and the decoder. \<open>Wire_Props\<close>: round trips in both directions (the format is
    canonical), the epoch stamp. The locale \<open>packet_codec\<close> is the codec's contract; it is
    interpreted on the whole wire format and on the two packet types that carry authentication
    tags. \<open>Wire_Checked\<close>: the decoder once more on a machine that faults on any read outside the
    buffer; it never faults and computes what \<open>Wire\<close> computes.
  \<^item> \<open>Gf256\<close> (gf256.h, gf256.cpp), \<open>Cauchy\<close>, \<open>Rlc\<close> (rlc.h, rlc.cpp), \<open>Rlc_Mds\<close>: table-driven field
    arithmetic, proved to be polynomial arithmetic and an instance of the class \<open>field\<close>; the
    Cauchy Reed-Solomon code with its Gauss-Jordan decoder, proved maximum distance separable. The
    locale \<open>erasure_code\<close> is what the frame transfer relies on.
  \<^item> \<open>Hmac_Sha256\<close> (hmac_sha256.h): streaming SHA-256, proved equal to the one-shot hash of the
    padded message, HMAC and the truncated tags.

  \<^bold>\<open>Video path.\<close>

  \<^item> \<open>Rtp_Framer\<close> (rtp.h, framer.h, framer.cpp): RTP datagrams, their blocks and DATA packets.
  \<^item> \<open>Frame_Framer\<close> (frame_framer.h, frame_framer.cpp, frame_shm_format.h), \<open>Jscc_Loss_Estimator\<close>
    (jscc_loss_estimator.h, .cpp), \<open>Frame_Reassembler\<close> (frame_reassembler.h, .cpp), with
    \<open>Frame_Framer_Props\<close>, \<open>Frame_Transfer\<close> and \<open>Frame_Order\<close>: what one frame becomes on the air, that
    any k of its packets, in any order and with any repetitions, give back the byte-identical
    frame once, and that no frame is handed on at or behind a block that has been accepted.
  \<^item> \<open>Rx_Engine\<close> (rx.h, rx.cpp), \<open>Rx_Props\<close>, \<open>Rx_Delivery\<close>, \<open>Rx_Engine_Props\<close>: the receive engine.
    The window invariant of a stream (every number between the cursor and the newest packet is
    held or a gap, within the plausible-forward clamp) is kept by every operation; the delivery
    loop is characterised exactly. From these: packets come out in order and once, accepted
    packets are conserved, deadlines end head-of-line blocking, memory is bounded in every
    reachable engine, forged packets neither latch a stream nor move a window.
    \<open>In_Order_Delivery\<close> is the contract of a stage that releases numbered items in order; the
    engine and the reassembler both satisfy it.
  \<^item> \<open>Cache_Store\<close> (cache_store.h, .cpp, cache_assignment.h, .cpp), \<open>Cache_Controller\<close>
    (cache_controller.h, .cpp) with their \<open>_Props\<close>, and \<open>Cache_Repair\<close> (the glue of rx_node.cpp):
    the store's well-formedness, the bounds on requests and replies, what a reply must carry, and
    a repair from the request to the accepted replies.

  \<^bold>\<open>Control.\<close>

  \<^item> \<open>Profile_Table\<close> (table.h, table.cpp): tables, canonical serialization, version byte.
  \<^item> \<open>Csa\<close> (csa.h, csa.cpp) with \<open>Csa_Props\<close> and \<open>Csa_Issuer_Props\<close>, \<open>Vehicle_Cmd\<close> (vehicle_cmd.h,
    vehicle_cmd.cpp) with \<open>Vehicle_Cmd_Props\<close> and \<open>Vehicle_Cmd_Issuer_Props\<close>: both ends of the
    channel switch and of the vehicle command, as state records with one definition per method.
    Acceptance is characterised exactly; no replay, no move without an acknowledgement of the same
    campaign and no revert follow from invariants over all event histories; campaigns end; the two
    ends agree. \<open>Nonce_Gate\<close> is the anti-replay contract both followers satisfy.
  \<^item> \<open>Selector\<close> (selector.h, selector.cpp) with \<open>Selector_Props\<close>, \<open>Selector_State\<close> (selector_state.h):
    the rate selector stays on its ladder, commits what it runs, climbs only when warranted and
    comes down to its safe floor when the feedback stops. \<open>Mcs_Probe\<close> (mcs_probe.h, .cpp) with
    \<open>Mcs_Probe_Props\<close>: the probe speaks only of a rate it observed. \<open>Fps_Ladder\<close> (fps_ladder.h) and
    \<open>Jscc_Controller\<close> (jscc_controller.h, .cpp, jscc_runtime_shadow.h, .cpp): frame rate and parity.
  \<^item> \<open>Reporter\<close> (reporter.h, .cpp), \<open>Report_Gate\<close> (report_gate.h), \<open>Recovery\<close> (recovery.h, .cpp),
    \<open>Quiet_Gap\<close> (quietgap.h): what the receiver reports, whose reports are obeyed, how often a
    fresh start point is asked for, when a return is sent.
  \<^item> \<open>Power_Seek\<close> (power.h and the seek of calibrate.h), \<open>Calib_Dwell\<close> (calib_dwell.h), \<open>Calibrate\<close>
    (calibrate.h) and \<open>Uplink_Calibrate\<close> (uplink_calibrate.h) with their \<open>_Props\<close>: the measured dwells
    of both ends, the seek, both calibrations and the order in which they run. Every commanded
    power is in range, every exit hands the power back, only usable placements are published.
  \<^item> \<open>Rx_Core\<close> (node/rx_core.h) with \<open>Rx_Core_Props\<close>: the receiver node over the parts above; what
    it mirrors and reports, as statements on its event history.

  \<^bold>\<open>How the code is rendered.\<close> A class is a record of its members, a method a definition that
  takes the object and returns the updated object and its result; a callback is the list of its
  calls, or a parameter when the code uses its answer (the actuator hook, egress, the salvage hook,
  early delivery). Fixed-width integers are words, so wrap-around is the code's; signed powers and
  readings whose overflow is undefined in C++ are integers. Operations on \<open>double\<close> are an argument
  of the definitions (the records \<open>fp\<close> and \<open>fpr\<close>) of which nothing is assumed. The loops of the
  elimination, of the receive cursor and of the cache eviction are functions with termination
  proofs; the cursor loop ends because the distance to the newest packet shrinks and a wrap of
  the 32-bit cursor leaves the loop. Only the padding loop of SHA-256 has fuel: 64 rounds, and it
  is proved to stop at 56 bytes of its 64-byte block before they are used up.

  \<^bold>\<open>Not modelled.\<close> Of src/core: the synthetic loss model of the test benches (loss_model.h), the
  cadence gate of low-rate traffic (video_slot_cadence.h), and the synthesis of substitute HEVC
  pictures (hevc_conceal, spatial_repair), which the reassembler reaches only through its salvage
  hook. Of rx_core.h: the statistics snapshot with its loss windows. The rest of src/node and
  src/app (threads, timers and callbacks), src/io (sockets, radios, shared memory, configuration
  parsing), src/tools and the vendored drivers. Methods that only format a state for display are
  left out of the parts that are modelled.
\<close>

end
